(* ===== verification/Prelude.thy ===== *)
theory Prelude
  imports Complex_Main
begin

text \<open>
  Shared vocabulary of the development: Python values and exceptions, results of
  fallible and state-changing code, text predicates that stand for the regular
  expressions of the sources, and the three contracts several components promise
  (a checker that fails closed, a cursor that only moves forward, a transition
  table with a decreasing rank).

  Conventions. Python's unbounded \<open>int\<close> is \<^typ>\<open>int\<close>. A \<open>float\<close> is a rational, an
  infinity or NaN; comparisons of finite values are exact, rounding of float
  differences is not modelled. Text is ASCII, so \<open>strip\<close>, \<open>upper\<close> and lengths are
  those of \<^typ>\<open>string\<close>. A dict is an association list in insertion order. A raised
  exception is the left summand of a result; a method that changes \<open>self\<close> returns
  the pair of its result and the new state, also when it raises.
\<close>

section \<open>Collections of facts\<close>

named_theorems act_simps \<open>unfolding rules for sequenced results and actions\<close>
named_theorems text_simps \<open>definitions of the text predicates\<close>

section \<open>Python values and exceptions\<close>

datatype pyfloat = Finite rat | Infinite | NaN

datatype pyval =
    VNone
  | VBool bool
  | VInt int
  | VFloat pyfloat
  | VStr string
  | VList "pyval list"
  | VDict "(string \<times> pyval) list"

datatype pyerr = ValueError | TypeError | OverflowError | KeyError | RuntimeError | StopIteration | AssertionError

type_synonym ('s, 'e, 'a) act = "'s \<Rightarrow> ('e + 'a) \<times> 's"

text \<open>Sequencing of fallible results and of fallible state-changing actions.\<close>

definition rbind :: "'e + 'a \<Rightarrow> ('a \<Rightarrow> 'e + 'b) \<Rightarrow> 'e + 'b" where
  "rbind r f = (case r of Inl e \<Rightarrow> Inl e | Inr a \<Rightarrow> f a)"

definition require :: "bool \<Rightarrow> 'e \<Rightarrow> 'e + unit" where
  "require b e = (if b then Inr () else Inl e)"

definition areturn :: "'a \<Rightarrow> ('s, 'e, 'a) act" where
  "areturn a s = (Inr a, s)"

definition araise :: "'e \<Rightarrow> ('s, 'e, 'a) act" where
  "araise e s = (Inl e, s)"

definition abind :: "('s, 'e, 'a) act \<Rightarrow> ('a \<Rightarrow> ('s, 'e, 'b) act) \<Rightarrow> ('s, 'e, 'b) act" where
  "abind m f s = (case m s of (Inl e, s') \<Rightarrow> (Inl e, s') | (Inr a, s') \<Rightarrow> f a s')"

primrec rmap :: "('a \<Rightarrow> 'e + 'b) \<Rightarrow> 'a list \<Rightarrow> 'e + 'b list" where
  "rmap f [] = Inr []"
| "rmap f (x # xs) = rbind (f x) (\<lambda>y. rbind (rmap f xs) (\<lambda>ys. Inr (y # ys)))"

text \<open>
  \<open>math.isfinite\<close> converts an int to a float first and raises \<open>OverflowError\<close> from
  \<open>2^1024 - 2^970\<close> on, where the conversion would round to infinity. The test
  \<open>type(x) in (int, float) and math.isfinite(x)\<close> therefore has three outcomes: the
  finite value, a refusal, or that exception.
\<close>

definition too_big_for_float :: "int \<Rightarrow> bool" where
  "too_big_for_float i = (2 ^ 1024 - 2 ^ 970 \<le> \<bar>i\<bar>)"

fun finite_number :: "pyval \<Rightarrow> pyerr + rat option" where
  "finite_number (VInt i) = (if too_big_for_float i then Inl OverflowError else Inr (Some (of_int i)))"
| "finite_number (VFloat (Finite q)) = Inr (Some q)"
| "finite_number _ = Inr None"

text \<open>The \<open>object_pairs_hook\<close> the JSON readers install: a repeated key is refused.\<close>

definition unique_pairs :: "(string \<times> 'v) list \<Rightarrow> bool" where
  "unique_pairs kvs = distinct (map fst kvs)"

fun unique_keys :: "pyval \<Rightarrow> bool" where
  "unique_keys (VList vs) = list_all unique_keys vs"
| "unique_keys (VDict kvs) = (unique_pairs kvs \<and> list_all (\<lambda>kv. unique_keys (snd kv)) kvs)"
| "unique_keys _ = True"

definition keys_are :: "(string \<times> 'v) list \<Rightarrow> string list \<Rightarrow> bool" where
  "keys_are kvs ks = (set (map fst kvs) = set ks)"

text \<open>
  A byte string that is only ever handed to \<open>json.loads\<close> with such a hook is its size
  and what the scanner reads from it: the tree of pairs before the hook is applied, or
  nothing when the bytes are not JSON.
\<close>

record raw_text =
  raw_size :: nat
  raw_json :: "pyval option"

definition json_loads :: "raw_text \<Rightarrow> pyval option" where
  "json_loads r = (case raw_json r of None \<Rightarrow> None | Some v \<Rightarrow> if unique_keys v then Some v else None)"

section \<open>Text\<close>

definition is_digit :: "char \<Rightarrow> bool" where
  "is_digit c = (48 \<le> (of_char c :: nat) \<and> (of_char c :: nat) \<le> 57)"

definition is_lower_hex :: "char \<Rightarrow> bool" where
  "is_lower_hex c = (c \<in> set ''0123456789abcdef'')"

definition is_urlsafe :: "char \<Rightarrow> bool" where
  "is_urlsafe c = (c \<in> set ''ABCDEFGHIJKLMNOPQRSTUVWXYZabcdefghijklmnopqrstuvwxyz0123456789_-'')"

definition is_alnum :: "char \<Rightarrow> bool" where
  "is_alnum c = (c \<in> set ''ABCDEFGHIJKLMNOPQRSTUVWXYZabcdefghijklmnopqrstuvwxyz0123456789'')"

text \<open>\<open>[class]{n}\<close> under \<open>fullmatch\<close>.\<close>

definition full_class :: "(char \<Rightarrow> bool) \<Rightarrow> nat \<Rightarrow> string \<Rightarrow> bool" where
  "full_class P n s = (length s = n \<and> list_all P s)"

definition is_space :: "char \<Rightarrow> bool" where
  "is_space c = (let n = of_char c :: nat in n = 32 \<or> (9 \<le> n \<and> n \<le> 13) \<or> (28 \<le> n \<and> n \<le> 31))"

definition strip :: "string \<Rightarrow> string" where
  "strip s = rev (dropWhile is_space (rev (dropWhile is_space s)))"

definition upper_char :: "char \<Rightarrow> char" where
  "upper_char c = (let n = of_char c :: nat in if 97 \<le> n \<and> n \<le> 122 then char_of (n - 32) else c)"

definition upper :: "string \<Rightarrow> string" where
  "upper s = map upper_char s"

text \<open>\<open>str.split(sep)\<close> for a one-character separator: always at least one part.\<close>

fun split_on :: "char \<Rightarrow> string \<Rightarrow> string list" where
  "split_on c [] = [[]]"
| "split_on c (x # xs) =
     (if x = c then [] # split_on c xs
      else (case split_on c xs of [] \<Rightarrow> [[x]] | p # ps \<Rightarrow> (x # p) # ps))"

definition digit_value :: "char \<Rightarrow> nat" where
  "digit_value c = of_char c - 48"

text \<open>\<open>int(text)\<close> on a run of ASCII digits.\<close>

definition nat_of_digits :: "string \<Rightarrow> nat" where
  "nat_of_digits s = foldl (\<lambda>n c. 10 * n + digit_value c) 0 s"

text \<open>Decimal printing of a natural number, as \<open>str(n)\<close>.\<close>

fun digits_of_nat :: "nat \<Rightarrow> string" where
  "digits_of_nat n =
     (if n < 10 then [char_of (48 + n)] else digits_of_nat (n div 10) @ [char_of (48 + n mod 10)])"

declare digits_of_nat.simps [simp del]

definition lower_char :: "char \<Rightarrow> char" where
  "lower_char c = (let n = of_char c :: nat in if 65 \<le> n \<and> n \<le> 90 then char_of (n + 32) else c)"

definition lower :: "string \<Rightarrow> string" where
  "lower s = map lower_char s"

definition contains_text :: "string \<Rightarrow> string \<Rightarrow> bool" where
  "contains_text needle hay = list_ex (\<lambda>i. take (length needle) (drop i hay) = needle) [0..<Suc (length hay)]"

text \<open>Python's truth value.\<close>

fun truth :: "pyval \<Rightarrow> bool" where
  "truth VNone = False"
| "truth (VBool b) = b"
| "truth (VInt i) = (i \<noteq> 0)"
| "truth (VFloat f) = (f \<noteq> Finite 0)"
| "truth (VStr s) = (s \<noteq> [])"
| "truth (VList vs) = (vs \<noteq> [])"
| "truth (VDict d) = (d \<noteq> [])"

text \<open>\<open>int(text)\<close>: surrounding space, a sign, and digits in groups joined by single underscores.\<close>

definition unsigned_text :: "string \<Rightarrow> int option" where
  "unsigned_text s = (let parts = split_on CHR ''_'' s in
     if list_all (\<lambda>p. p \<noteq> [] \<and> list_all is_digit p) parts then Some (int (nat_of_digits (concat parts))) else None)"

definition int_text :: "string \<Rightarrow> int option" where
  "int_text v = (case strip v of
     [] \<Rightarrow> None
   | c # cs \<Rightarrow> if c = CHR ''-'' then map_option uminus (unsigned_text cs) else if c = CHR ''+'' then unsigned_text cs else unsigned_text (c # cs))"

text \<open>\<open>int(v)\<close>: a float truncates; NaN raises \<open>ValueError\<close> and an infinity \<open>OverflowError\<close>.\<close>

fun py_int :: "pyval \<Rightarrow> pyerr + int" where
  "py_int (VBool b) = Inr (if b then 1 else 0)"
| "py_int (VInt i) = Inr i"
| "py_int (VFloat (Finite q)) = Inr (if 0 \<le> q then \<lfloor>q\<rfloor> else \<lceil>q\<rceil>)"
| "py_int (VFloat Infinite) = Inl OverflowError"
| "py_int (VFloat NaN) = Inl ValueError"
| "py_int (VStr s) = (case int_text s of None \<Rightarrow> Inl ValueError | Some i \<Rightarrow> Inr i)"
| "py_int _ = Inl TypeError"

section \<open>Lemmas on results\<close>

lemma rbind_simps [simp, act_simps]:
  "rbind (Inl e) f = Inl e" "rbind (Inr a) f = f a"
  by (simp_all add: rbind_def)

lemma rbind_Inr_iff: "rbind r f = Inr b \<longleftrightarrow> (\<exists>a. r = Inr a \<and> f a = Inr b)"
  by (cases r) simp_all

lemma require_simps [simp]:
  "require True e = Inr ()" "require False e = Inl e"
  by (simp_all add: require_def)

lemma require_Inr [simp]: "require b e = Inr u \<longleftrightarrow> b"
  by (simp add: require_def)

lemma abind_ok [act_simps]: "m s = (Inr a, s') \<Longrightarrow> abind m f s = f a s'"
  by (simp add: abind_def)

lemma abind_err [act_simps]: "m s = (Inl e, s') \<Longrightarrow> abind m f s = (Inl e, s')"
  by (simp add: abind_def)

lemma abind_areturn [simp, act_simps]: "abind (areturn a) f = f a"
  by (simp add: abind_def areturn_def fun_eq_iff)

lemma abind_araise [simp, act_simps]: "abind (araise e) f = araise e"
  by (simp add: abind_def araise_def fun_eq_iff)

text \<open>
  Hoare triples for such actions: from a state satisfying \<open>P\<close> the action either returns
  with \<open>Q\<close> or raises with \<open>E\<close>.
\<close>

definition triple ::
  "('s \<Rightarrow> bool) \<Rightarrow> ('s, 'e, 'a) act \<Rightarrow> ('a \<Rightarrow> 's \<Rightarrow> bool) \<Rightarrow> ('e \<Rightarrow> 's \<Rightarrow> bool) \<Rightarrow> bool" where
  "triple P m Q E = (\<forall>s. P s \<longrightarrow> (case m s of (Inl e, t) \<Rightarrow> E e t | (Inr a, t) \<Rightarrow> Q a t))"

lemma triple_bind:
  assumes "triple P m Q E" "\<And>a. triple (Q a) (f a) R E"
  shows "triple P (abind m f) R E"
  unfolding triple_def
proof (intro allI impI)
  fix s
  assume "P s"
  then have m: "case m s of (Inl e, t) \<Rightarrow> E e t | (Inr a, t) \<Rightarrow> Q a t"
    using assms(1) by (simp add: triple_def)
  show "case abind m f s of (Inl e, t) \<Rightarrow> E e t | (Inr a, t) \<Rightarrow> R a t"
  proof (cases "m s")
    case (Pair r t)
    then show ?thesis using m assms(2)
      by (cases r) (auto simp: abind_def triple_def)
  qed
qed

lemma triple_return: "(\<And>s. P s \<Longrightarrow> Q a s) \<Longrightarrow> triple P (areturn a) Q E"
  by (simp add: triple_def areturn_def)

lemma triple_raise: "(\<And>s. P s \<Longrightarrow> E e s) \<Longrightarrow> triple P (araise e) Q E"
  by (simp add: triple_def araise_def)

lemma triple_apply: "triple P m Q E \<Longrightarrow> P s \<Longrightarrow> m s = (r, t) \<Longrightarrow> (case r of Inl e \<Rightarrow> E e t | Inr a \<Rightarrow> Q a t)"
  unfolding triple_def by (metis (mono_tags, lifting) old.prod.case)

text \<open>What an action keeps of the state, whatever it returns or raises.\<close>

definition keeps :: "('s \<Rightarrow> bool) \<Rightarrow> ('s \<Rightarrow> 'x \<times> 's) \<Rightarrow> bool" where
  "keeps P m = (\<forall>s. P s \<longrightarrow> P (snd (m s)))"

lemma keepsI: "(\<And>s. P s \<Longrightarrow> P (snd (m s))) \<Longrightarrow> keeps P m"
  by (simp add: keeps_def)

lemma keepsD: "keeps P m \<Longrightarrow> P s \<Longrightarrow> P (snd (m s))"
  by (simp add: keeps_def)

lemma keeps_bind: "keeps P m \<Longrightarrow> (\<And>a. keeps P (f a)) \<Longrightarrow> keeps P (abind m f)"
  by (fastforce simp: keeps_def abind_def split: prod.splits sum.splits)

lemma keeps_trivial: "keeps P (areturn a)" "keeps P (araise e)"
  by (simp_all add: keeps_def areturn_def araise_def)

lemma rmap_Inr_map: "(\<And>x. x \<in> set xs \<Longrightarrow> f x = Inr (g x)) \<Longrightarrow> rmap f xs = Inr (map g xs)"
  by (induction xs) auto

lemma rmap_Inr_length: "rmap f xs = Inr ys \<Longrightarrow> length ys = length xs"
  by (induction xs arbitrary: ys) (auto simp: rbind_Inr_iff)

lemma rmap_Inr_nth: "rmap f xs = Inr ys \<Longrightarrow> i < length xs \<Longrightarrow> f (xs ! i) = Inr (ys ! i)"
proof (induction xs arbitrary: ys i)
  case Nil
  then show ?case by simp
next
  case (Cons x xs)
  then show ?case by (cases i) (auto simp: rbind_Inr_iff)
qed

lemma fold_max_bound: "x \<in> set (y # xs) \<Longrightarrow> x \<le> fold max xs (y :: nat)"
proof (induction xs arbitrary: x y)
  case Nil
  then show ?case by simp
next
  case (Cons a xs)
  have "max a y \<le> fold max xs (max a y)" using Cons.IH [of "max a y" "max a y"] by simp
  then show ?case using Cons.IH [of x "max a y"] Cons.prems by auto
qed

lemma find_snoc: "\<forall>x \<in> set xs. \<not> P x \<Longrightarrow> P y \<Longrightarrow> find P (xs @ [y]) = Some y"
  by (induction xs) auto

lemma find_distinct: "distinct (map f xs) \<Longrightarrow> x \<in> set xs \<Longrightarrow> find (\<lambda>y. f y = f x) xs = Some x"
  by (induction xs) (auto simp: image_def)

section \<open>Lemmas on text\<close>

lemma full_class_length [simp]: "full_class P n s \<Longrightarrow> length s = n"
  by (simp add: full_class_def)

lemma upper_idem [simp]: "upper (upper s) = upper s"
proof -
  have "upper_char (upper_char c) = upper_char c" for c
    by (auto simp: upper_char_def Let_def of_char_of)
  then show ?thesis by (simp add: upper_def)
qed

lemma upper_Nil_iff [simp]: "upper s = [] \<longleftrightarrow> s = []"
  by (simp add: upper_def)

lemma strip_idem [simp]: "strip (strip s) = strip s"
proof -
  let ?t = "dropWhile is_space s"
  have "dropWhile is_space (strip s) = strip s"
  proof (cases "strip s")
    case (Cons c cs)
    obtain zs where zs: "?t = strip s @ zs"
      by (metis strip_def rev_append rev_rev_ident takeWhile_dropWhile_id)
    then have "hd ?t = c" "?t \<noteq> []" using Cons by auto
    then have "\<not> is_space c" using hd_dropWhile [of is_space s] by auto
    then show ?thesis using Cons by simp
  qed simp
  then show ?thesis by (simp add: strip_def)
qed

lemma strip_upper: "strip (upper s) = upper (strip s)"
proof -
  have "is_space (upper_char c) = is_space c" for c
    by (auto simp: is_space_def upper_char_def Let_def of_char_of)
  then have "is_space \<circ> upper_char = is_space" by auto
  then show ?thesis by (simp add: strip_def upper_def dropWhile_map rev_map)
qed

lemma split_on_not_Nil [simp]: "split_on c s \<noteq> []"
  by (induction s) (auto split: list.splits)

lemma split_on_no_sep: "c \<notin> set s \<Longrightarrow> split_on c s = [s]"
  by (induction s) auto

lemma split_on_append: "c \<notin> set p \<Longrightarrow> split_on c (p @ c # rest) = p # split_on c rest"
  by (induction p) auto

lemma length_digits_of_nat: "n < 10 ^ k \<Longrightarrow> 0 < k \<Longrightarrow> length (digits_of_nat n) \<le> k"
proof (induction n arbitrary: k rule: digits_of_nat.induct)
  case (1 n)
  show ?case
  proof (cases "n < 10")
    case True
    then show ?thesis using 1(3) by (simp add: digits_of_nat.simps [of n])
  next
    case False
    then obtain k' where k: "k = Suc k'" "0 < k'"
      using 1(2) by (cases k; cases "k - 1") auto
    then have "n div 10 < 10 ^ k'" using 1(2) by (simp add: less_mult_imp_div_less mult.commute)
    then have "length (digits_of_nat (n div 10)) \<le> k'" using 1(1) False k by simp
    then show ?thesis using False k by (simp add: digits_of_nat.simps [of n])
  qed
qed

lemma digit_facts:
  assumes "d < 10"
  shows "is_digit (char_of (48 + d))" "digit_value (char_of (48 + d)) = d"
  using assms by (simp_all add: is_digit_def digit_value_def of_char_of)

lemma char_of_48 [simp]: "char_of (48 :: nat) = CHR ''0''"
proof -
  have "(of_char (CHR ''0'') :: nat) = 48" by simp
  then show ?thesis by (metis char_of_char)
qed

lemma digits_of_nat_digits: "list_all is_digit (digits_of_nat n)"
proof (induction n rule: digits_of_nat.induct)
  case (1 n)
  then show ?case
    by (subst digits_of_nat.simps) (auto simp: digit_facts)
qed

lemma digits_of_nat_not_Nil [simp]: "digits_of_nat n \<noteq> []"
  by (subst digits_of_nat.simps) simp

text \<open>Reading back a printed number: \<open>int(str(n)) == n\<close>.\<close>

lemma nat_of_digits_of_nat [simp]: "nat_of_digits (digits_of_nat n) = n"
proof (induction n rule: digits_of_nat.induct)
  case (1 n)
  show ?case
  proof (cases "n < 10")
    case True
    then show ?thesis by (simp add: digits_of_nat.simps [of n] nat_of_digits_def digit_facts)
  next
    case False
    then have "nat_of_digits (digits_of_nat (n div 10)) = n div 10" using 1 by simp
    then show ?thesis using False
      by (simp add: digits_of_nat.simps [of n] nat_of_digits_def digit_facts)
  qed
qed

text \<open>A printed number has no leading zero, except zero itself.\<close>

lemma digits_of_nat_hd: "0 < n \<Longrightarrow> hd (digits_of_nat n) \<noteq> CHR ''0''"
proof (induction n rule: digits_of_nat.induct)
  case (1 n)
  show ?case
  proof (cases "n < 10")
    case True
    have "(of_char (char_of (48 + n)) :: nat) = 48 + n" using True by (simp add: of_char_of)
    moreover have "(of_char (CHR ''0'') :: nat) = 48" by simp
    ultimately have "char_of (48 + n) \<noteq> CHR ''0''" using 1(2) by (metis add_cancel_left_right less_numeral_extra(3))
    then show ?thesis using True by (simp add: digits_of_nat.simps [of n])
  next
    case False
    then show ?thesis using 1 by (simp add: digits_of_nat.simps [of n])
  qed
qed

section \<open>Contract: a checker that fails closed\<close>

text \<open>
  Several components of the AirPlay bridge judge one observation at a time and latch
  a failure flag: \<open>accept\<close> is the judging operation, \<open>failed\<close> reads the flag, and
  \<open>latching\<close> says which exceptions pass through the handler that sets it.
\<close>

locale fail_closed =
  fixes accept :: "'s \<Rightarrow> 'i \<Rightarrow> ('e + 'a) \<times> 's"
    and failed :: "'s \<Rightarrow> bool"
    and latching :: "'e \<Rightarrow> bool"
  assumes refuses_when_failed: "failed s \<Longrightarrow> isl (fst (accept s i))"
    and stays_failed: "failed s \<Longrightarrow> failed (snd (accept s i))"
    and latches: "fst (accept s i) = Inl e \<Longrightarrow> latching e \<Longrightarrow> failed (snd (accept s i))"
begin

primrec run :: "'s \<Rightarrow> 'i list \<Rightarrow> ('e + 'a) list \<times> 's" where
  "run s [] = ([], s)"
| "run s (i # is) =
     (fst (accept s i) # fst (run (snd (accept s i)) is), snd (run (snd (accept s i)) is))"

lemma run_length: "length (fst (run s is)) = length is"
  by (induction "is" arbitrary: s) simp_all

lemma run_append:
  "run s (is @ js) =
     (fst (run s is) @ fst (run (snd (run s is)) js), snd (run (snd (run s is)) js))"
  by (induction "is" arbitrary: s) simp_all

lemma run_failed: "failed s \<Longrightarrow> list_all isl (fst (run s is)) \<and> failed (snd (run s is))"
proof (induction "is" arbitrary: s)
  case Nil
  then show ?case by simp
next
  case (Cons i "is")
  then show ?case
    using refuses_when_failed [OF Cons.prems, of i] stays_failed [OF Cons.prems, of i] by simp
qed

text \<open>After the first latching refusal nothing is ever accepted again.\<close>

lemma no_acceptance_after_refusal:
  assumes "accept s i = (Inl e, s')" "latching e"
  shows "list_all isl (fst (run s' is))"
proof -
  have "failed s'" using latches [of s i e] assms by simp
  then show ?thesis using run_failed [of s' "is"] by simp
qed

end

section \<open>Contract: a cursor that only moves forward\<close>

locale forward_cursor = fail_closed accept failed latching
  for accept :: "'s \<Rightarrow> 'i \<Rightarrow> ('e + 'a) \<times> 's" and failed :: "'s \<Rightarrow> bool" and latching :: "'e \<Rightarrow> bool" +
  fixes position :: "'s \<Rightarrow> 'p::preorder"
  assumes accept_forward: "position s \<le> position (snd (accept s i))"
begin

lemma run_forward: "position s \<le> position (snd (run s is))"
proof (induction "is" arbitrary: s)
  case Nil
  then show ?case by simp
next
  case (Cons i "is")
  have "position s \<le> position (snd (accept s i))" by (rule accept_forward)
  also have "\<dots> \<le> position (snd (run (snd (accept s i)) is))" by (rule Cons.IH)
  finally show ?case by simp
qed

end

section \<open>Contract: a transition table with a decreasing rank\<close>

locale ranked_table =
  fixes allowed :: "'st \<Rightarrow> 'st \<Rightarrow> bool"
    and rank :: "'st \<Rightarrow> nat"
  assumes rank_decreases: "allowed s t \<Longrightarrow> rank t < rank s"
begin

fun is_path :: "'st list \<Rightarrow> bool" where
  "is_path [] = True"
| "is_path [s] = True"
| "is_path (s # t # ts) = (allowed s t \<and> is_path (t # ts))"

lemma path_length: "is_path (s # ts) \<Longrightarrow> length ts + rank (last (s # ts)) \<le> rank s"
proof (induction ts arbitrary: s)
  case Nil
  then show ?case by simp
next
  case (Cons t ts)
  then have "length ts + rank (last (t # ts)) \<le> rank t" "rank t < rank s"
    by (auto intro: rank_decreases)
  then show ?case by simp
qed

lemma path_distinct: "is_path ss \<Longrightarrow> distinct ss"
proof (induction ss rule: is_path.induct)
  case (3 s t ts)
  have below: "u \<in> set us \<Longrightarrow> is_path (v # us) \<Longrightarrow> rank u < rank v" for u v us
  proof (induction us arbitrary: v)
    case Nil
    then show ?case by simp
  next
    case (Cons w ws)
    then have "rank w < rank v" "u = w \<or> rank u < rank w" by (auto intro: rank_decreases)
    then show ?case by auto
  qed
  have "s \<notin> set (t # ts)" using below [of s "t # ts" s] 3(2) by auto
  then show ?case using 3 by simp
qed simp_all

lemma path_snoc: "is_path (ss @ [s, t]) \<longleftrightarrow> is_path (ss @ [s]) \<and> allowed s t"
  by (induction ss rule: is_path.induct) auto

end

end
