(* ===== verification/UpdateProtocol.thy ===== *)
theory UpdateProtocol
  imports Prelude
begin

text \<open>
  The wire protocol of the host update helper (update_helper/protocol.py): the
  restricted alphabets of versions, request ids, digests and credentials, the strict
  decoder of a request and the authorization check. A raised \<open>UpdateRejected(code)\<close> is
  \<open>Rejected code\<close>; any other exception that leaves the decoder is \<open>Raised\<close>.
  The hash function is the parameter \<open>sha256\<close> (text to hexadecimal digest).
\<close>

section \<open>Data\<close>

datatype code =
    BAD_REQUEST | PEER_DENIED | AUTHORIZATION_REQUIRED | BUSY | REQUEST_ID_REUSED
  | CURRENT_VERSION_CHANGED | NOT_AN_UPGRADE | JOURNAL_CAPACITY | JOURNAL_UNSAFE
  | JOURNAL_CORRUPT | JOURNAL_IO | INVALID_TRANSITION | INTERRUPTED_BEFORE_CUTOVER
  | RECOVERY_REQUIRED | PREFLIGHT_FAILED | SOURCE_VERIFICATION_FAILED | STAGING_FAILED
  | STOP_FAILED | BACKUP_FAILED | START_FAILED | HEALTH_FAILED | RESTORE_FAILED
  | EXECUTOR_UNAVAILABLE | INTERNAL_ERROR

datatype uerr = Rejected code | Raised pyerr

datatype action = Install | Submit | Status

record request =
  req_action :: action
  req_request_id :: string
  req_target_version :: string
  req_expected_current_version :: string
  req_credential :: string

record authorization =
  allowed_peer_uid :: int
  credential_sha256 :: string

section \<open>Alphabets\<close>

definition MAX_REQUEST_BYTES :: nat where
  "MAX_REQUEST_BYTES = 2048"

definition version_part :: "string \<Rightarrow> bool" where
  "version_part p = (p = ''0'' \<or>
     (1 \<le> length p \<and> length p \<le> 4 \<and> list_all is_digit p \<and> hd p \<noteq> CHR ''0''))"

definition is_version :: "string \<Rightarrow> bool" where
  "is_version s = (case split_on (CHR ''.'') s of
     [a, b, c] \<Rightarrow> version_part a \<and> version_part b \<and> version_part c
   | _ \<Rightarrow> False)"

definition request_id_pattern :: "(char \<Rightarrow> bool) list" where
  "request_id_pattern =
     replicate 8 is_lower_hex @ [\<lambda>c. c = CHR ''-''] @ replicate 4 is_lower_hex
     @ [\<lambda>c. c = CHR ''-'', \<lambda>c. c = CHR ''4''] @ replicate 3 is_lower_hex
     @ [\<lambda>c. c = CHR ''-'', \<lambda>c. c \<in> set ''89ab''] @ replicate 3 is_lower_hex
     @ [\<lambda>c. c = CHR ''-''] @ replicate 12 is_lower_hex"

definition is_request_id :: "string \<Rightarrow> bool" where
  "is_request_id s = list_all2 (\<lambda>P c. P c) request_id_pattern s"

definition is_digest :: "string \<Rightarrow> bool" where
  "is_digest s = full_class is_lower_hex 64 s"

definition is_credential :: "string \<Rightarrow> bool" where
  "is_credential s = full_class is_urlsafe 43 s"

section \<open>Validation of single values\<close>

fun require_text :: "(string \<Rightarrow> bool) \<Rightarrow> pyval \<Rightarrow> uerr + string" where
  "require_text P (VStr s) = (if P s then Inr s else Inl (Rejected BAD_REQUEST))"
| "require_text P _ = Inl (Rejected BAD_REQUEST)"

definition require_version :: "pyval \<Rightarrow> uerr + string" where
  "require_version v = require_text is_version v"

definition require_digest :: "pyval \<Rightarrow> uerr + string" where
  "require_digest v = require_text is_digest v"

definition require_request_id :: "pyval \<Rightarrow> uerr + string" where
  "require_request_id v = require_text is_request_id v"

section \<open>Version order\<close>

text \<open>\<open>tuple(map(int, v.split(".")))\<close>, with the order of Python tuples.\<close>

datatype version = Version nat nat nat

fun version_key :: "version \<Rightarrow> nat \<times> nat \<times> nat" where
  "version_key (Version a b c) = (a, b, c)"

instantiation version :: linorder
begin

definition less_version :: "version \<Rightarrow> version \<Rightarrow> bool" where
  "less_version v w = (case version_key v of (a, b, c) \<Rightarrow> case version_key w of (a', b', c') \<Rightarrow>
     a < a' \<or> (a = a' \<and> (b < b' \<or> (b = b' \<and> c < c'))))"

definition less_eq_version :: "version \<Rightarrow> version \<Rightarrow> bool" where
  "less_eq_version v w = (v < w \<or> v = w)"

instance
proof
  fix x y z :: version
  show "(x < y) = (x \<le> y \<and> \<not> y \<le> x)"
    by (cases x; cases y) (auto simp: less_version_def less_eq_version_def)
  show "x \<le> x" by (simp add: less_eq_version_def)
  show "x \<le> y \<Longrightarrow> y \<le> z \<Longrightarrow> x \<le> z"
    by (cases x; cases y; cases z) (auto simp: less_version_def less_eq_version_def)
  show "x \<le> y \<Longrightarrow> y \<le> x \<Longrightarrow> x = y"
    by (cases x; cases y) (auto simp: less_version_def less_eq_version_def)
  show "x \<le> y \<or> y \<le> x"
    by (cases x; cases y) (auto simp: less_version_def less_eq_version_def)
qed

end

definition version_tuple :: "string \<Rightarrow> version" where
  "version_tuple s = (case map nat_of_digits (split_on (CHR ''.'') s) of
     [a, b, c] \<Rightarrow> Version a b c | _ \<Rightarrow> Version 0 0 0)"

definition newer :: "string \<Rightarrow> string \<Rightarrow> uerr + bool" where
  "newer target current =
     rbind (require_version (VStr target)) (\<lambda>_.
     rbind (require_version (VStr current)) (\<lambda>_.
     Inr (version_tuple current < version_tuple target)))"

section \<open>Decoding a request\<close>

text \<open>
  Set membership hashes its left operand, so a list or dict as \<open>action\<close> raises
  \<open>TypeError\<close> instead of comparing unequal.
\<close>

fun unhashable :: "pyval \<Rightarrow> bool" where
  "unhashable (VList _) = True"
| "unhashable (VDict _) = True"
| "unhashable _ = False"

fun install_action :: "pyval \<Rightarrow> uerr + action option" where
  "install_action (VStr s) =
     Inr (if s = ''install'' then Some Install else if s = ''submit'' then Some Submit else None)"
| "install_action v = (if unhashable v then Inl (Raised TypeError) else Inr None)"

definition install_keys :: "string list" where
  "install_keys = [''protocol'', ''action'', ''request_id'', ''target_version'',
     ''expected_current_version'', ''approve'', ''credential'']"

definition field_of :: "(string \<times> pyval) list \<Rightarrow> string \<Rightarrow> pyval" where
  "field_of d k = (case map_of d k of Some v \<Rightarrow> v | None \<Rightarrow> VNone)"

definition status_request :: request where
  "status_request = \<lparr>req_action = Status, req_request_id = [], req_target_version = [],
     req_expected_current_version = [], req_credential = []\<rparr>"

fun require_credential :: "pyval \<Rightarrow> uerr + string" where
  "require_credential (VStr s) =
     (if is_credential s then Inr s else Inl (Rejected AUTHORIZATION_REQUIRED))"
| "require_credential _ = Inl (Rejected AUTHORIZATION_REQUIRED)"

definition decode_install :: "(string \<times> pyval) list \<Rightarrow> uerr + request" where
  "decode_install d =
     (if \<not> keys_are d install_keys then Inl (Rejected BAD_REQUEST)
      else rbind (install_action (field_of d ''action'')) (\<lambda>oa. case oa of
          None \<Rightarrow> Inl (Rejected BAD_REQUEST)
        | Some a \<Rightarrow>
            if field_of d ''approve'' \<noteq> VBool True then Inl (Rejected BAD_REQUEST)
            else rbind (require_credential (field_of d ''credential'')) (\<lambda>cr.
                 rbind (require_request_id (field_of d ''request_id'')) (\<lambda>rid.
                 rbind (require_version (field_of d ''target_version'')) (\<lambda>tv.
                 rbind (require_version (field_of d ''expected_current_version'')) (\<lambda>cv.
                 Inr \<lparr>req_action = a, req_request_id = rid, req_target_version = tv,
                      req_expected_current_version = cv, req_credential = cr\<rparr>))))))"

definition decode_request :: "raw_text \<Rightarrow> uerr + request" where
  "decode_request data =
     (if raw_size data = 0 \<or> MAX_REQUEST_BYTES < raw_size data then Inl (Rejected BAD_REQUEST)
      else (case json_loads data of
          Some (VDict d) \<Rightarrow>
            if map_of d ''protocol'' \<noteq> Some (VInt 1) then Inl (Rejected BAD_REQUEST)
            else if map_of d ''action'' = Some (VStr ''status'')
            then (if keys_are d [''protocol'', ''action''] then Inr status_request
                  else Inl (Rejected BAD_REQUEST))
            else decode_install d
        | _ \<Rightarrow> Inl (Rejected BAD_REQUEST)))"

section \<open>Authorization\<close>

definition mk_authorization :: "pyval \<Rightarrow> pyval \<Rightarrow> uerr + authorization" where
  "mk_authorization uid digest = (case uid of
     VInt u \<Rightarrow>
       if u < 0 then Inl (Rejected PEER_DENIED)
       else rbind (require_digest digest) (\<lambda>d.
              Inr \<lparr>allowed_peer_uid = u, credential_sha256 = d\<rparr>)
   | _ \<Rightarrow> Inl (Rejected PEER_DENIED))"

definition auth_check :: "(string \<Rightarrow> string) \<Rightarrow> authorization \<Rightarrow> request \<Rightarrow> int \<Rightarrow> uerr + unit" where
  "auth_check sha256 auth req peer_uid =
     (if peer_uid \<noteq> allowed_peer_uid auth then Inl (Rejected PEER_DENIED)
      else if req_action req \<in> {Install, Submit} then
        (if \<not> is_credential (req_credential req) then Inl (Rejected AUTHORIZATION_REQUIRED)
         else if sha256 (req_credential req) \<noteq> credential_sha256 auth
         then Inl (Rejected AUTHORIZATION_REQUIRED)
         else Inr ())
      else Inr ())"

section \<open>Printing of versions\<close>

definition version_text :: "version \<Rightarrow> string" where
  "version_text v = (case v of Version a b c \<Rightarrow>
     digits_of_nat a @ ''.'' @ digits_of_nat b @ ''.'' @ digits_of_nat c)"

section \<open>Lemmas\<close>

lemma require_text_Inr [simp]: "require_text P v = Inr s \<longleftrightarrow> v = VStr s \<and> P s"
  by (cases v) auto

lemma require_credential_Inr [simp]: "require_credential v = Inr s \<longleftrightarrow> v = VStr s \<and> is_credential s"
  by (cases v) auto

lemma install_action_Some: "install_action v = Inr (Some a) \<Longrightarrow> a \<in> {Install, Submit}"
  by (cases v) (auto split: if_splits)

lemmas require_defs = require_version_def require_digest_def require_request_id_def

lemma version_part_no_dot: "version_part p \<Longrightarrow> CHR ''.'' \<notin> set p"
  by (auto simp: version_part_def is_digit_def list_all_iff)

lemma version_part_printed: "n < 10000 \<Longrightarrow> version_part (digits_of_nat n)"
proof (cases "n = 0")
  case True
  then show ?thesis by (simp add: version_part_def digits_of_nat.simps)
next
  case False
  assume "n < 10000"
  then have "length (digits_of_nat n) \<le> 4" using length_digits_of_nat [of n 4] by simp
  moreover have "1 \<le> length (digits_of_nat n)" by (simp add: Suc_le_eq)
  ultimately show ?thesis
    using False digits_of_nat_hd [of n] digits_of_nat_digits [of n] by (simp add: version_part_def)
qed

lemma digits_no_dot: "CHR ''.'' \<notin> set (digits_of_nat n)"
  using digits_of_nat_digits [of n] by (auto simp: list_all_iff is_digit_def)

lemma split_version_text:
  "split_on (CHR ''.'') (version_text (Version a b c)) = [digits_of_nat a, digits_of_nat b, digits_of_nat c]"
  by (simp add: version_text_def split_on_append split_on_no_sep digits_no_dot)

lemma version_tuple_text: "version_tuple (version_text v) = v"
  by (cases v) (simp add: version_tuple_def split_version_text)

lemma is_version_text: "a < 10000 \<Longrightarrow> b < 10000 \<Longrightarrow> c < 10000 \<Longrightarrow> is_version (version_text (Version a b c))"
  by (simp add: is_version_def split_version_text version_part_printed)

lemma newer_Inr: "newer t c = Inr b \<longleftrightarrow> is_version t \<and> is_version c \<and> b = (version_tuple c < version_tuple t)"
  by (auto simp: newer_def require_defs rbind_Inr_iff)

lemma is_version_length: "is_version s \<Longrightarrow> length s \<le> 14"
proof -
  have parts: "length (concat (split_on c s)) + length (split_on c s) = Suc (length s)" for c and s :: string
    by (induction s) (auto split: list.splits)
  assume v: "is_version s"
  then obtain a b c where p: "split_on (CHR ''.'') s = [a, b, c]" "version_part a" "version_part b" "version_part c"
    by (auto simp: is_version_def split: list.splits)
  have "length a \<le> 4" "length b \<le> 4" "length c \<le> 4" using p(2-4) by (auto simp: version_part_def)
  then show ?thesis using parts [of "CHR ''.''" s] p(1) by simp
qed

lemma is_request_id_length: "is_request_id s \<Longrightarrow> length s = 36"
  by (auto simp: is_request_id_def request_id_pattern_def dest: list_all2_lengthD)

lemma is_digest_length: "is_digest s \<Longrightarrow> length s = 64"
  by (simp add: is_digest_def)

lemma decode_install_Inr:
  "decode_install d = Inr r \<longleftrightarrow>
     keys_are d install_keys \<and> install_action (field_of d ''action'') = Inr (Some (req_action r)) \<and>
     field_of d ''approve'' = VBool True \<and>
     field_of d ''credential'' = VStr (req_credential r) \<and> is_credential (req_credential r) \<and>
     field_of d ''request_id'' = VStr (req_request_id r) \<and> is_request_id (req_request_id r) \<and>
     field_of d ''target_version'' = VStr (req_target_version r) \<and> is_version (req_target_version r) \<and>
     field_of d ''expected_current_version'' = VStr (req_expected_current_version r) \<and>
     is_version (req_expected_current_version r)"
  by (cases r) (auto simp: decode_install_def require_defs rbind_Inr_iff split: if_split option.split)

end
