(* ===== verification/UpdateJournal.thy ===== *)
theory UpdateJournal
  imports UpdateProtocol
begin

text \<open>
  The host journal of the update helper (update_helper/journal.py). Its persistent
  value is a list of jobs, each with the history of its states. \<open>read\<close> decodes and
  validates the file, \<open>save\<close> validates, prints and replaces it; \<open>begin\<close>, \<open>transition\<close>
  and \<open>recover_interrupted\<close> are the operations above them.

  The file system is the environment: a file is missing, unreadable, or bytes
  described by \<^typ>\<open>raw_text\<close>, and the outcome of the n-th save and the clock reading it
  stores are the functions \<open>jn_io\<close> and \<open>jn_clock\<close>. A save may fail before the atomic
  replacement (\<open>IoLost\<close>) or after it (\<open>IoLate\<close>); both raise \<open>JOURNAL_IO\<close> and poison the
  instance.
\<close>

section \<open>States and their order\<close>

datatype jstate =
    J_REQUESTED | J_VALIDATED | J_STAGING | J_STAGED | J_STOP_REQUESTED | J_STOPPED
  | J_BACKUP_STARTED | J_BACKED_UP | J_START_REQUESTED | J_STARTED | J_VERIFIED
  | J_COMPLETE | J_ROLLING_BACK | J_RESTORED | J_FAILED | J_MANUAL_ACTION_REQUIRED

definition TERMINAL :: "jstate list" where
  "TERMINAL = [J_COMPLETE, J_RESTORED, J_FAILED, J_MANUAL_ACTION_REQUIRED]"

definition BEFORE_CUTOVER :: "jstate list" where
  "BEFORE_CUTOVER = [J_REQUESTED, J_VALIDATED, J_STAGING, J_STAGED]"

definition ORDER :: "jstate list" where
  "ORDER = [J_REQUESTED, J_VALIDATED, J_STAGING, J_STAGED, J_STOP_REQUESTED, J_STOPPED,
     J_BACKUP_STARTED, J_BACKED_UP, J_START_REQUESTED, J_STARTED, J_VERIFIED, J_COMPLETE]"

definition NEXT :: "jstate \<Rightarrow> jstate list" where
  "NEXT s =
     (if s = J_ROLLING_BACK then [J_RESTORED, J_MANUAL_ACTION_REQUIRED]
      else (case map_of (zip ORDER (tl ORDER)) s of Some t \<Rightarrow> [t] | None \<Rightarrow> [])
         @ (if s \<in> set BEFORE_CUTOVER then [J_FAILED] else [])
         @ (if s \<notin> set TERMINAL \<and> s \<notin> set BEFORE_CUTOVER
            then [J_ROLLING_BACK, J_MANUAL_ACTION_REQUIRED] else []))"

fun jstate_name :: "jstate \<Rightarrow> string" where
  "jstate_name J_REQUESTED = ''REQUESTED''"
| "jstate_name J_VALIDATED = ''VALIDATED''"
| "jstate_name J_STAGING = ''STAGING''"
| "jstate_name J_STAGED = ''STAGED''"
| "jstate_name J_STOP_REQUESTED = ''STOP_REQUESTED''"
| "jstate_name J_STOPPED = ''STOPPED''"
| "jstate_name J_BACKUP_STARTED = ''BACKUP_STARTED''"
| "jstate_name J_BACKED_UP = ''BACKED_UP''"
| "jstate_name J_START_REQUESTED = ''START_REQUESTED''"
| "jstate_name J_STARTED = ''STARTED''"
| "jstate_name J_VERIFIED = ''VERIFIED''"
| "jstate_name J_COMPLETE = ''COMPLETE''"
| "jstate_name J_ROLLING_BACK = ''ROLLING_BACK''"
| "jstate_name J_RESTORED = ''RESTORED''"
| "jstate_name J_FAILED = ''FAILED''"
| "jstate_name J_MANUAL_ACTION_REQUIRED = ''MANUAL_ACTION_REQUIRED''"

definition STATES :: "jstate list" where
  "STATES = ORDER @ [J_ROLLING_BACK, J_RESTORED, J_FAILED, J_MANUAL_ACTION_REQUIRED]"

definition jstate_of :: "string \<Rightarrow> jstate option" where
  "jstate_of n = map_of (map (\<lambda>s. (jstate_name s, s)) STATES) n"

fun code_name :: "code \<Rightarrow> string" where
  "code_name BAD_REQUEST = ''BAD_REQUEST''"
| "code_name PEER_DENIED = ''PEER_DENIED''"
| "code_name AUTHORIZATION_REQUIRED = ''AUTHORIZATION_REQUIRED''"
| "code_name BUSY = ''BUSY''"
| "code_name REQUEST_ID_REUSED = ''REQUEST_ID_REUSED''"
| "code_name CURRENT_VERSION_CHANGED = ''CURRENT_VERSION_CHANGED''"
| "code_name NOT_AN_UPGRADE = ''NOT_AN_UPGRADE''"
| "code_name JOURNAL_CAPACITY = ''JOURNAL_CAPACITY''"
| "code_name JOURNAL_UNSAFE = ''JOURNAL_UNSAFE''"
| "code_name JOURNAL_CORRUPT = ''JOURNAL_CORRUPT''"
| "code_name JOURNAL_IO = ''JOURNAL_IO''"
| "code_name INVALID_TRANSITION = ''INVALID_TRANSITION''"
| "code_name INTERRUPTED_BEFORE_CUTOVER = ''INTERRUPTED_BEFORE_CUTOVER''"
| "code_name RECOVERY_REQUIRED = ''RECOVERY_REQUIRED''"
| "code_name PREFLIGHT_FAILED = ''PREFLIGHT_FAILED''"
| "code_name SOURCE_VERIFICATION_FAILED = ''SOURCE_VERIFICATION_FAILED''"
| "code_name STAGING_FAILED = ''STAGING_FAILED''"
| "code_name STOP_FAILED = ''STOP_FAILED''"
| "code_name BACKUP_FAILED = ''BACKUP_FAILED''"
| "code_name START_FAILED = ''START_FAILED''"
| "code_name HEALTH_FAILED = ''HEALTH_FAILED''"
| "code_name RESTORE_FAILED = ''RESTORE_FAILED''"
| "code_name EXECUTOR_UNAVAILABLE = ''EXECUTOR_UNAVAILABLE''"
| "code_name INTERNAL_ERROR = ''INTERNAL_ERROR''"

definition CODES :: "code list" where
  "CODES = [BAD_REQUEST, PEER_DENIED, AUTHORIZATION_REQUIRED, BUSY, REQUEST_ID_REUSED,
     CURRENT_VERSION_CHANGED, NOT_AN_UPGRADE, JOURNAL_CAPACITY, JOURNAL_UNSAFE, JOURNAL_CORRUPT,
     JOURNAL_IO, INVALID_TRANSITION, INTERRUPTED_BEFORE_CUTOVER, RECOVERY_REQUIRED,
     PREFLIGHT_FAILED, SOURCE_VERIFICATION_FAILED, STAGING_FAILED, STOP_FAILED, BACKUP_FAILED,
     START_FAILED, HEALTH_FAILED, RESTORE_FAILED, EXECUTOR_UNAVAILABLE, INTERNAL_ERROR]"

definition code_of :: "string \<Rightarrow> code option" where
  "code_of n = map_of (map (\<lambda>c. (code_name c, c)) CODES) n"

section \<open>Jobs\<close>

record event =
  ev_sequence :: int
  ev_state :: jstate
  ev_time :: int
  ev_code :: "code option"

record job =
  job_request_id :: string
  job_target_version :: string
  job_expected_current_version :: string
  job_state :: jstate
  job_events :: "event list"
  job_backup_sha256 :: "string option"
  job_artifact_sha256 :: "string option"

definition MAX_BYTES :: nat where "MAX_BYTES = 512 * 1024"
definition MAX_JOBS :: nat where "MAX_JOBS = 128"
definition MAX_EVENTS :: nat where "MAX_EVENTS = 32"

section \<open>Validation of the stored value\<close>

text \<open>
  \<open>_validate_state\<close> raises \<open>JOURNAL_CORRUPT\<close> from every branch. The shape of the JSON
  value is decoded first, then the loops over jobs and events check the decoded jobs.
\<close>

fun decode_digest :: "pyval \<Rightarrow> string option option" where
  "decode_digest VNone = Some None"
| "decode_digest (VStr s) = (if is_digest s then Some (Some s) else None)"
| "decode_digest _ = None"

fun decode_code :: "pyval \<Rightarrow> code option option" where
  "decode_code VNone = Some None"
| "decode_code (VStr s) = (case code_of s of Some c \<Rightarrow> Some (Some c) | None \<Rightarrow> None)"
| "decode_code _ = None"

fun decode_state :: "pyval \<Rightarrow> jstate option" where
  "decode_state (VStr s) = jstate_of s"
| "decode_state _ = None"

fun decode_text :: "(string \<Rightarrow> bool) \<Rightarrow> pyval \<Rightarrow> string option" where
  "decode_text P (VStr s) = (if P s then Some s else None)"
| "decode_text P _ = None"

fun decode_int :: "pyval \<Rightarrow> int option" where
  "decode_int (VInt i) = Some i"
| "decode_int _ = None"

fun decode_event :: "pyval \<Rightarrow> event option" where
  "decode_event (VDict d) =
     (if \<not> keys_are d [''sequence'', ''state'', ''time'', ''code''] then None
      else (case (decode_int (field_of d ''sequence''), decode_state (field_of d ''state''),
                  decode_int (field_of d ''time''), decode_code (field_of d ''code'')) of
          (Some n, Some s, Some t, Some c) \<Rightarrow>
            Some \<lparr>ev_sequence = n, ev_state = s, ev_time = t, ev_code = c\<rparr>
        | _ \<Rightarrow> None))"
| "decode_event _ = None"

fun decode_events :: "pyval \<Rightarrow> event list option" where
  "decode_events (VList es) = those (map decode_event es)"
| "decode_events _ = None"

definition job_keys :: "string list" where
  "job_keys = [''request_id'', ''target_version'', ''expected_current_version'', ''state'',
     ''events'', ''backup_sha256'', ''artifact_sha256'']"

fun decode_job :: "pyval \<Rightarrow> job option" where
  "decode_job (VDict d) =
     (if \<not> keys_are d job_keys then None
      else (case (decode_text is_request_id (field_of d ''request_id''),
                  decode_text is_version (field_of d ''target_version''),
                  decode_text is_version (field_of d ''expected_current_version''),
                  decode_state (field_of d ''state''),
                  decode_events (field_of d ''events''),
                  decode_digest (field_of d ''backup_sha256''),
                  decode_digest (field_of d ''artifact_sha256'')) of
          (Some r, Some t, Some c, Some s, Some es, Some b, Some a) \<Rightarrow>
            Some \<lparr>job_request_id = r, job_target_version = t, job_expected_current_version = c,
                 job_state = s, job_events = es, job_backup_sha256 = b, job_artifact_sha256 = a\<rparr>
        | _ \<Rightarrow> None))"
| "decode_job _ = None"

fun decode_journal :: "pyval \<Rightarrow> job list option" where
  "decode_journal (VDict d) =
     (if \<not> keys_are d [''schema'', ''jobs''] \<or> field_of d ''schema'' \<noteq> VInt 1 then None
      else (case field_of d ''jobs'' of VList js \<Rightarrow> those (map decode_job js) | _ \<Rightarrow> None))"
| "decode_journal _ = None"

fun check_events :: "nat \<Rightarrow> jstate option \<Rightarrow> event list \<Rightarrow> bool" where
  "check_events i prev [] = True"
| "check_events i prev (e # es) =
     (ev_sequence e = int i \<and> 0 \<le> ev_time e \<and> ev_time e \<le> 253402300799 \<and>
      (case prev of None \<Rightarrow> ev_state e = J_REQUESTED | Some p \<Rightarrow> ev_state e \<in> set (NEXT p)) \<and>
      check_events (Suc i) (Some (ev_state e)) es)"

definition check_job :: "job \<Rightarrow> bool" where
  "check_job j =
     (is_request_id (job_request_id j) \<and> is_version (job_target_version j) \<and>
      is_version (job_expected_current_version j) \<and>
      pred_option is_digest (job_backup_sha256 j) \<and> pred_option is_digest (job_artifact_sha256 j) \<and>
      1 \<le> length (job_events j) \<and> length (job_events j) \<le> MAX_EVENTS \<and>
      check_events 0 None (job_events j) \<and> ev_state (last (job_events j)) = job_state j \<and>
      list_ex (\<lambda>e. ev_state e = J_BACKED_UP) (job_events j) = (job_backup_sha256 j \<noteq> None) \<and>
      list_ex (\<lambda>e. ev_state e = J_STAGED) (job_events j) = (job_artifact_sha256 j \<noteq> None))"

definition active_job :: "job \<Rightarrow> bool" where
  "active_job j = (job_state j \<notin> set TERMINAL \<or> job_state j = J_MANUAL_ACTION_REQUIRED)"

fun check_jobs :: "string list \<Rightarrow> nat \<Rightarrow> job list \<Rightarrow> bool" where
  "check_jobs ids active [] = (active \<le> 1)"
| "check_jobs ids active (j # js) =
     (job_request_id j \<notin> set ids \<and>
      (let active' = active + (if active_job j then 1 else 0) in
       (0 < active' \<longrightarrow> js = []) \<and> check_job j \<and> check_jobs (job_request_id j # ids) active' js))"

definition valid_journal :: "job list \<Rightarrow> bool" where
  "valid_journal js = (length js \<le> MAX_JOBS \<and> check_jobs [] 0 js)"

definition validate_state :: "pyval \<Rightarrow> uerr + job list" where
  "validate_state v = (case decode_journal v of
     Some js \<Rightarrow> if valid_journal js then Inr js else Inl (Rejected JOURNAL_CORRUPT)
   | None \<Rightarrow> Inl (Rejected JOURNAL_CORRUPT))"

section \<open>Printing the value\<close>

text \<open>\<open>json.dumps(value, sort_keys=True, separators=(",", ":"))\<close>; the encoders list keys in sorted order.\<close>

fun encode_opt :: "('a \<Rightarrow> string) \<Rightarrow> 'a option \<Rightarrow> pyval" where
  "encode_opt f None = VNone"
| "encode_opt f (Some a) = VStr (f a)"

definition encode_event :: "event \<Rightarrow> pyval" where
  "encode_event e = VDict [(''code'', encode_opt code_name (ev_code e)), (''sequence'', VInt (ev_sequence e)),
     (''state'', VStr (jstate_name (ev_state e))), (''time'', VInt (ev_time e))]"

definition encode_job :: "job \<Rightarrow> pyval" where
  "encode_job j = VDict [(''artifact_sha256'', encode_opt id (job_artifact_sha256 j)),
     (''backup_sha256'', encode_opt id (job_backup_sha256 j)),
     (''events'', VList (map encode_event (job_events j))),
     (''expected_current_version'', VStr (job_expected_current_version j)),
     (''request_id'', VStr (job_request_id j)), (''state'', VStr (jstate_name (job_state j))),
     (''target_version'', VStr (job_target_version j))]"

definition encode_journal :: "job list \<Rightarrow> pyval" where
  "encode_journal js = VDict [(''jobs'', VList (map encode_job js)), (''schema'', VInt 1)]"

definition plain_char :: "char \<Rightarrow> bool" where
  "plain_char c = (let n = of_char c :: nat in 32 \<le> n \<and> n < 128 \<and> n \<noteq> 34 \<and> n \<noteq> 92)"

definition hex_digit :: "nat \<Rightarrow> char" where
  "hex_digit n = (if n < 10 then char_of (48 + n) else char_of (87 + n))"

definition escape_char :: "char \<Rightarrow> string" where
  "escape_char c = (let n = of_char c :: nat; b = char_of (92 :: nat) in
     if plain_char c then [c] else if n = 34 \<or> n = 92 then [b, c]
     else if n = 8 then b # ''b'' else if n = 9 then b # ''t'' else if n = 10 then b # ''n''
     else if n = 12 then b # ''f'' else if n = 13 then b # ''r''
     else b # ''u00'' @ [hex_digit (n div 16), hex_digit (n mod 16)])"

definition json_string :: "string \<Rightarrow> string" where
  "json_string s = [char_of (34 :: nat)] @ concat (map escape_char s) @ [char_of (34 :: nat)]"

definition json_int :: "int \<Rightarrow> string" where
  "json_int i = (if i < 0 then ''-'' @ digits_of_nat (nat (- i)) else digits_of_nat (nat i))"

fun comma_join :: "string list \<Rightarrow> string" where
  "comma_join [] = []"
| "comma_join [x] = x"
| "comma_join (x # xs) = x @ '','' @ comma_join xs"

fun json_text :: "(pyfloat \<Rightarrow> string) \<Rightarrow> pyval \<Rightarrow> string" where
  "json_text fr VNone = ''null''"
| "json_text fr (VBool b) = (if b then ''true'' else ''false'')"
| "json_text fr (VInt i) = json_int i"
| "json_text fr (VFloat f) = fr f"
| "json_text fr (VStr s) = json_string s"
| "json_text fr (VList vs) = ''['' @ comma_join (map (json_text fr) vs) @ '']''"
| "json_text fr (VDict kvs) =
     ''{'' @ comma_join (map (\<lambda>kv. json_string (fst kv) @ '':'' @ json_text fr (snd kv)) kvs) @ ''}''"

definition journal_text :: "job list \<Rightarrow> string" where
  "journal_text js = json_text (\<lambda>_. []) (encode_journal js)"

section \<open>The journal and its operations\<close>

datatype io_outcome = IoOk | IoLost | IoLate

datatype jfile = JMissing | JUnreadable | JFile raw_text

record journal =
  jn_disk :: jfile
  jn_io_failed :: bool
  jn_locked :: bool
  jn_foreign_lock :: bool
  jn_ticks :: nat
  jn_io :: "nat \<Rightarrow> io_outcome"
  jn_clock :: "nat \<Rightarrow> int"

type_synonym 'a jact = "(journal, uerr, 'a) act"

definition jn_read :: "journal \<Rightarrow> uerr + job list" where
  "jn_read jn = (case jn_disk jn of
     JMissing \<Rightarrow> Inl (Rejected JOURNAL_CORRUPT)
   | JUnreadable \<Rightarrow> Inl (Rejected JOURNAL_UNSAFE)
   | JFile raw \<Rightarrow>
       if MAX_BYTES < raw_size raw then Inl (Rejected JOURNAL_CORRUPT)
       else (case json_loads raw of None \<Rightarrow> Inl (Rejected JOURNAL_CORRUPT) | Some v \<Rightarrow> validate_state v))"

definition stored :: "job list \<Rightarrow> jfile" where
  "stored js = JFile \<lparr>raw_size = length (journal_text js), raw_json = Some (encode_journal js)\<rparr>"

definition jn_save :: "job list \<Rightarrow> unit jact" where
  "jn_save js jn =
     (if \<not> jn_locked jn then (Inl (Rejected BUSY), jn)
      else if jn_io_failed jn then (Inl (Rejected JOURNAL_IO), jn)
      else (case validate_state (encode_journal js) of
          Inl e \<Rightarrow> (Inl e, jn)
        | Inr _ \<Rightarrow>
            if MAX_BYTES < length (journal_text js) then (Inl (Rejected JOURNAL_CAPACITY), jn)
            else (let jn' = jn\<lparr>jn_ticks := Suc (jn_ticks jn)\<rparr> in
              (case jn_io jn (jn_ticks jn) of
                 IoOk \<Rightarrow> (Inr (), jn'\<lparr>jn_disk := stored js\<rparr>)
               | IoLost \<Rightarrow> (Inl (Rejected JOURNAL_IO), jn'\<lparr>jn_io_failed := True\<rparr>)
               | IoLate \<Rightarrow> (Inl (Rejected JOURNAL_IO), jn'\<lparr>jn_io_failed := True, jn_disk := stored js\<rparr>)))))"

definition new_event :: "nat \<Rightarrow> jstate \<Rightarrow> int \<Rightarrow> code option \<Rightarrow> event" where
  "new_event n s t c = \<lparr>ev_sequence = int n, ev_state = s, ev_time = t, ev_code = c\<rparr>"

definition new_job :: "request \<Rightarrow> int \<Rightarrow> job" where
  "new_job r t = \<lparr>job_request_id = req_request_id r, job_target_version = req_target_version r,
     job_expected_current_version = req_expected_current_version r, job_state = J_REQUESTED,
     job_events = [new_event 0 J_REQUESTED t None], job_backup_sha256 = None, job_artifact_sha256 = None\<rparr>"

definition find_job :: "string \<Rightarrow> job list \<Rightarrow> job option" where
  "find_job rid js = find (\<lambda>j. job_request_id j = rid) js"

definition jn_begin :: "request \<Rightarrow> (job \<times> bool) jact" where
  "jn_begin r jn = (case jn_read jn of
     Inl e \<Rightarrow> (Inl e, jn)
   | Inr js \<Rightarrow>
       (case find_job (req_request_id r) js of
          Some j \<Rightarrow>
            if job_target_version j \<noteq> req_target_version r
               \<or> job_expected_current_version j \<noteq> req_expected_current_version r
            then (Inl (Rejected REQUEST_ID_REUSED), jn) else (Inr (j, False), jn)
        | None \<Rightarrow>
            if list_ex active_job js then (Inl (Rejected RECOVERY_REQUIRED), jn)
            else if MAX_JOBS \<le> length js then (Inl (Rejected JOURNAL_CAPACITY), jn)
            else (let j = new_job r (jn_clock jn (jn_ticks jn))
                  in abind (jn_save (js @ [j])) (\<lambda>_. areturn (j, True)) jn)))"

definition set_digest :: "jstate \<Rightarrow> jstate \<Rightarrow> string option \<Rightarrow> uerr + string option" where
  "set_digest marker s d =
     (if s = marker then rbind (require_digest (encode_opt id d)) (\<lambda>x. Inr (Some x))
      else if d \<noteq> None then Inl (Rejected INVALID_TRANSITION) else Inr None)"

definition advance :: "jstate \<Rightarrow> int \<Rightarrow> code option \<Rightarrow> string option \<Rightarrow> string option \<Rightarrow> job \<Rightarrow> job" where
  "advance s t c b a j = j\<lparr>job_state := s,
     job_events := job_events j @ [new_event (length (job_events j)) s t c],
     job_backup_sha256 := (if b \<noteq> None then b else job_backup_sha256 j),
     job_artifact_sha256 := (if a \<noteq> None then a else job_artifact_sha256 j)\<rparr>"

definition replace_job :: "job \<Rightarrow> job list \<Rightarrow> job list" where
  "replace_job j js = map (\<lambda>k. if job_request_id k = job_request_id j then j else k) js"

definition jn_transition ::
  "string \<Rightarrow> jstate \<Rightarrow> code option \<Rightarrow> string option \<Rightarrow> string option \<Rightarrow> job jact" where
  "jn_transition rid s c b a jn = (case jn_read jn of
     Inl e \<Rightarrow> (Inl e, jn)
   | Inr js \<Rightarrow>
       (case find_job rid js of
          None \<Rightarrow> (Inl (Rejected INVALID_TRANSITION), jn)
        | Some j \<Rightarrow>
            if s \<notin> set (NEXT (job_state j)) then (Inl (Rejected INVALID_TRANSITION), jn)
            else (case set_digest J_BACKED_UP s b of Inl e \<Rightarrow> (Inl e, jn) | Inr b' \<Rightarrow>
                 (case set_digest J_STAGED s a of Inl e \<Rightarrow> (Inl e, jn) | Inr a' \<Rightarrow>
                  (let j' = advance s (jn_clock jn (jn_ticks jn)) c b' a' j
                   in abind (jn_save (replace_job j' js)) (\<lambda>_. areturn j') jn)))))"

text \<open>The single-flight lock, held for the duration of a body.\<close>

definition jn_exclusive :: "'a jact \<Rightarrow> 'a jact" where
  "jn_exclusive body jn =
     (if jn_locked jn then (Inl (Rejected BUSY), jn)
      else if jn_io_failed jn then (Inl (Rejected JOURNAL_IO), jn)
      else if jn_foreign_lock jn then (Inl (Rejected BUSY), jn)
      else (case body (jn\<lparr>jn_locked := True\<rparr>) of (r, jn') \<Rightarrow> (r, jn'\<lparr>jn_locked := False\<rparr>)))"

primrec recover_jobs :: "job list \<Rightarrow> unit jact" where
  "recover_jobs [] = areturn ()"
| "recover_jobs (j # js) =
     (if job_state j \<in> set TERMINAL then recover_jobs js
      else abind (if job_state j \<in> set BEFORE_CUTOVER
                  then jn_transition (job_request_id j) J_FAILED (Some INTERRUPTED_BEFORE_CUTOVER) None None
                  else jn_transition (job_request_id j) J_MANUAL_ACTION_REQUIRED (Some RECOVERY_REQUIRED) None None)
             (\<lambda>_. recover_jobs js))"

definition recover_interrupted :: "unit jact" where
  "recover_interrupted = jn_exclusive (\<lambda>jn. case jn_read jn of
     Inl e \<Rightarrow> (Inl e, jn) | Inr js \<Rightarrow> recover_jobs js jn)"

text \<open>\<open>initialize\<close> on the directory entries it lists before creating its lock file.\<close>

definition jn_initialize :: "string list \<Rightarrow> unit jact" where
  "jn_initialize entries jn =
     (if entries \<noteq> [] then (Inl (Rejected JOURNAL_UNSAFE), jn) else jn_exclusive (jn_save []) jn)"

record public_view =
  pub_state :: jstate
  pub_request_id :: string
  pub_target_version :: string
  pub_current_version_before :: string
  pub_code :: "code option"
  pub_events :: "event list"
  pub_recovery_required :: bool

definition public_job :: "job \<Rightarrow> public_view" where
  "public_job j = \<lparr>pub_state = job_state j, pub_request_id = job_request_id j,
     pub_target_version = job_target_version j,
     pub_current_version_before = job_expected_current_version j,
     pub_code = ev_code (last (job_events j)), pub_events = job_events j,
     pub_recovery_required = (job_state j = J_MANUAL_ACTION_REQUIRED)\<rparr>"

text \<open>\<open>None\<close> is the answer \<open>{"state": "IDLE", "recovery_required": False}\<close>.\<close>

definition public_status :: "journal \<Rightarrow> uerr + public_view option" where
  "public_status jn = rbind (jn_read jn) (\<lambda>js.
     Inr (if js = [] then None else Some (public_job (last js))))"

end
