(* ===== verification/UpdateJournalLaws.thy ===== *)
theory UpdateJournalLaws
  imports UpdateJournal
begin

text \<open>
  Laws of the host journal: the encoder and the validator are inverse on valid
  journals, histories are paths of the transition table and hence short, a valid
  journal always fits the size limit, and every operation keeps the journal valid.
\<close>

section \<open>Names and fields\<close>

lemma jstate_of_name [simp]: "jstate_of (jstate_name s) = Some s"
  by (cases s) (simp_all add: jstate_of_def STATES_def ORDER_def)

lemma code_of_name [simp]: "code_of (code_name c) = Some c"
  by (cases c) (simp_all add: code_of_def CODES_def)

lemma those_map_Some: "(\<And>x. x \<in> set xs \<Longrightarrow> f (g x) = Some x) \<Longrightarrow> those (map (f \<circ> g) xs) = Some xs"
  by (induction xs) auto

lemma decode_code_encode [simp]: "decode_code (encode_opt code_name c) = Some c"
  by (cases c) simp_all

lemma decode_digest_encode [simp]: "pred_option is_digest d \<Longrightarrow> decode_digest (encode_opt id d) = Some d"
  by (cases d) simp_all

lemma decode_event_encode [simp]: "decode_event (encode_event e) = Some e"
  by (simp add: encode_event_def keys_are_def field_of_def insert_commute)

lemma decode_events_encode: "decode_events (VList (map encode_event es)) = Some es"
  by (simp add: those_map_Some)

lemma decode_job_encode: "check_job j \<Longrightarrow> decode_job (encode_job j) = Some j"
proof -
  assume c: "check_job j"
  have k: "keys_are [(''artifact_sha256'', x1), (''backup_sha256'', x2), (''events'', x3),
      (''expected_current_version'', x4), (''request_id'', x5), (''state'', x6),
      (''target_version'', x7)] job_keys" for x1 x2 x3 x4 x5 x6 x7 :: pyval
    by (auto simp: keys_are_def job_keys_def)
  show ?thesis
    using c decode_events_encode [of "job_events j"]
    by (simp add: encode_job_def k check_job_def field_of_def del: decode_events.simps)
qed

lemma decode_journal_encode: "list_all check_job js \<Longrightarrow> decode_journal (encode_journal js) = Some js"
proof -
  assume "list_all check_job js"
  then have "those (map (decode_job \<circ> encode_job) js) = Some js"
    by (intro those_map_Some) (auto simp: list_all_iff decode_job_encode)
  then show ?thesis by (simp add: encode_journal_def keys_are_def field_of_def insert_commute)
qed

text \<open>Whatever the validator reads back from an encoded journal is that journal.\<close>

lemma those_map_inv:
  "those (map (f \<circ> g) xs) = Some ys \<Longrightarrow> (\<And>x y. f (g x) = Some y \<Longrightarrow> y = x) \<Longrightarrow> ys = xs"
  by (induction xs arbitrary: ys) (auto split: option.splits)

lemma decode_text_inv: "decode_text P v = Some s \<Longrightarrow> v = VStr s"
  by (cases v) (auto split: if_splits)

lemma decode_digest_inv: "decode_digest (encode_opt id d) = Some x \<Longrightarrow> x = d"
  by (cases d) (auto split: if_splits)

lemma decode_job_inv: "decode_job (encode_job j) = Some k \<Longrightarrow> k = j"
  using decode_events_encode [of "job_events j"]
  by (auto simp: encode_job_def field_of_def simp del: decode_events.simps
      dest!: decode_text_inv decode_digest_inv split: if_splits option.splits)

lemma decode_journal_inv: "decode_journal (encode_journal js) = Some ks \<Longrightarrow> ks = js"
  by (auto simp: encode_journal_def keys_are_def field_of_def insert_commute
      dest!: those_map_inv [OF _ decode_job_inv] split: if_splits)

section \<open>What a valid journal is\<close>

lemma check_jobs_iff:
  "check_jobs ids n js \<longleftrightarrow>
     (set ids \<inter> set (map job_request_id js) = {} \<and> distinct (map job_request_id js) \<and>
      list_all check_job js \<and> list_all (\<lambda>j. \<not> active_job j) (butlast js) \<and>
      (if js = [] then n \<le> 1 else n + (if active_job (last js) then 1 else 0) \<le> 1 \<and> (n = 0 \<or> length js = 1)))"
proof (induction js arbitrary: ids n)
  case Nil
  then show ?case by simp
next
  case (Cons j js)
  show ?case
  proof (cases js)
    case Nil
    then show ?thesis by (auto simp: Let_def)
  next
    case (Cons k ks)
    then show ?thesis using Cons.IH [of "job_request_id j # ids" n]
      by (auto simp: Let_def)
  qed
qed

lemma valid_journal_iff:
  "valid_journal js \<longleftrightarrow> length js \<le> MAX_JOBS \<and> distinct (map job_request_id js) \<and>
     list_all check_job js \<and> list_all (\<lambda>j. \<not> active_job j) (butlast js)"
  by (auto simp: valid_journal_def check_jobs_iff)

lemma validate_encode: "valid_journal js \<Longrightarrow> validate_state (encode_journal js) = Inr js"
  by (simp add: validate_state_def decode_journal_encode valid_journal_iff)

lemma validate_Inr: "validate_state v = Inr js \<Longrightarrow> valid_journal js"
  by (auto simp: validate_state_def split: option.splits if_splits)

lemma validate_encode_iff: "validate_state (encode_journal js) = Inr ks \<longleftrightarrow> ks = js \<and> valid_journal js"
  using validate_encode [of js]
  by (auto simp: validate_state_def dest: decode_journal_inv split: option.splits if_splits)

lemma jn_read_valid: "jn_read jn = Inr js \<Longrightarrow> valid_journal js"
  by (auto simp: jn_read_def validate_Inr split: jfile.splits if_splits option.splits)

lemma unique_keys_encode: "unique_keys (encode_journal js)"
proof -
  have e: "unique_keys (encode_event e)" for e
    by (cases "ev_code e") (simp_all add: encode_event_def unique_pairs_def)
  have o: "unique_keys (encode_opt f d)" for f :: "'a \<Rightarrow> string" and d
    by (cases d) simp_all
  have "unique_keys (encode_job j)" for j
    by (simp add: encode_job_def unique_pairs_def list_all_iff e o)
  then show ?thesis by (simp add: encode_journal_def unique_pairs_def list_all_iff)
qed

section \<open>Histories are paths of the table\<close>

fun journal_rank :: "jstate \<Rightarrow> nat" where
  "journal_rank J_REQUESTED = 12"
| "journal_rank J_VALIDATED = 11"
| "journal_rank J_STAGING = 10"
| "journal_rank J_STAGED = 9"
| "journal_rank J_STOP_REQUESTED = 8"
| "journal_rank J_STOPPED = 7"
| "journal_rank J_BACKUP_STARTED = 6"
| "journal_rank J_BACKED_UP = 5"
| "journal_rank J_START_REQUESTED = 4"
| "journal_rank J_STARTED = 3"
| "journal_rank J_VERIFIED = 2"
| "journal_rank J_ROLLING_BACK = 1"
| "journal_rank J_COMPLETE = 0"
| "journal_rank J_RESTORED = 0"
| "journal_rank J_FAILED = 0"
| "journal_rank J_MANUAL_ACTION_REQUIRED = 0"

lemmas table_defs = NEXT_def ORDER_def TERMINAL_def BEFORE_CUTOVER_def

interpretation jtab: ranked_table "\<lambda>s t. t \<in> set (NEXT s)" journal_rank
proof
  fix s t
  assume "t \<in> set (NEXT s)"
  then show "journal_rank t < journal_rank s"
    by (cases s) (auto simp: table_defs)
qed

lemma check_events_path:
  "check_events i (Some p) es \<Longrightarrow> jtab.is_path (p # map ev_state es)"
  by (induction es arbitrary: i p) auto

lemma check_events_history:
  "check_events 0 None es \<Longrightarrow> es \<noteq> [] \<Longrightarrow>
     ev_state (hd es) = J_REQUESTED \<and> jtab.is_path (map ev_state es)"
  by (cases es) (auto dest: check_events_path)

lemma history_length: "check_events 0 None es \<Longrightarrow> length es \<le> 13"
proof (cases es)
  case Nil
  then show ?thesis by simp
next
  case (Cons e rest)
  assume c: "check_events 0 None es"
  then have "jtab.is_path (ev_state e # map ev_state rest)" "ev_state e = J_REQUESTED"
    using check_events_history [OF c] Cons by auto
  then have "length rest \<le> 12" using jtab.path_length [of "ev_state e" "map ev_state rest"] by simp
  then show ?thesis using Cons by simp
qed

lemma check_events_snoc:
  "check_events i prev (es @ [e]) \<longleftrightarrow>
     check_events i prev es \<and>
     check_events (i + length es) (if es = [] then prev else Some (ev_state (last es))) [e]"
  by (induction es arbitrary: i prev) (auto split: if_splits)

section \<open>The size of the printed journal\<close>

lemma plain_escape: "list_all plain_char s \<Longrightarrow> length (json_string s) = length s + 2"
proof -
  have "list_all plain_char s \<Longrightarrow> concat (map escape_char s) = s"
    by (induction s) (auto simp: escape_char_def Let_def)
  then show "list_all plain_char s \<Longrightarrow> length (json_string s) = length s + 2"
    by (simp add: json_string_def)
qed

lemma lower_hex_plain: "is_lower_hex c \<Longrightarrow> plain_char c"
  by (simp add: is_lower_hex_def plain_char_def) (elim disjE; simp)

lemma digit_plain: "is_digit c \<Longrightarrow> plain_char c"
  unfolding is_digit_def plain_char_def Let_def by linarith

lemma digest_plain: "is_digest s \<Longrightarrow> list_all plain_char s"
  unfolding is_digest_def full_class_def list_all_iff using lower_hex_plain by blast

lemma request_id_pattern_plain: "list_all (\<lambda>P. \<forall>c. P c \<longrightarrow> plain_char c) request_id_pattern"
proof -
  have "plain_char (CHR ''-'')" "plain_char (CHR ''4'')" "\<forall>c \<in> set ''89ab''. plain_char c"
    by (simp_all add: plain_char_def)
  then show ?thesis
    unfolding request_id_pattern_def list_all_append
    by (simp only: list_all_iff set_replicate_conv_if) (auto simp: lower_hex_plain)
qed

lemma request_id_plain: "is_request_id s \<Longrightarrow> list_all plain_char s"
  using request_id_pattern_plain
  by (auto simp: is_request_id_def list_all_length list_all2_conv_all_nth)

lemma split_on_chars: "set s \<subseteq> insert c (\<Union> (set ` set (split_on c s)))"
proof (induction s)
  case Nil
  then show ?case by simp
next
  case (Cons x s)
  then show ?case by (cases "split_on c s") auto
qed

lemma version_plain: "is_version s \<Longrightarrow> list_all plain_char s"
proof -
  assume "is_version s"
  then obtain a b c where p: "split_on (CHR ''.'') s = [a, b, c]" "version_part a" "version_part b" "version_part c"
    by (auto simp: is_version_def split: list.splits)
  have "plain_char x" if "version_part w" "x \<in> set w" for w x
    using that by (auto simp: version_part_def list_all_iff digit_plain) (simp add: plain_char_def)
  moreover have "plain_char (CHR ''.'')" by (simp add: plain_char_def)
  moreover have "set s \<subseteq> insert (CHR ''.'') (set a \<union> set b \<union> set c)"
    using split_on_chars [of s "CHR ''.''"] p(1) by auto
  ultimately show ?thesis using p(2-4) by (auto simp: list_all_iff)
qed

lemma jstate_name_text: "length (json_string (jstate_name s)) \<le> 24"
proof -
  have "list_all plain_char (jstate_name s)" "length (jstate_name s) \<le> 22"
    by (cases s; simp add: plain_char_def)+
  then show ?thesis by (simp add: plain_escape)
qed

lemma code_text: "length (json_text fr (encode_opt code_name c)) \<le> 28"
proof (cases c)
  case None
  then show ?thesis by simp
next
  case (Some d)
  have "list_all plain_char (code_name d)" "length (code_name d) \<le> 26"
    by (cases d; simp add: plain_char_def)+
  then show ?thesis using Some by (simp add: plain_escape)
qed

lemma digest_text: "pred_option is_digest d \<Longrightarrow> length (json_text fr (encode_opt id d)) \<le> 66"
  by (cases d) (auto simp: plain_escape digest_plain is_digest_length)

lemma json_int_text: "0 \<le> i \<Longrightarrow> i < 10 ^ k \<Longrightarrow> 0 < k \<Longrightarrow> length (json_int i) \<le> k"
proof -
  assume i: "0 \<le> i" "i < 10 ^ k" and k: "0 < k"
  then have "nat i < 10 ^ k" by (simp add: nat_less_iff)
  then have "length (digits_of_nat (nat i)) \<le> k" using k by (rule length_digits_of_nat)
  then show ?thesis using i(1) by (simp add: json_int_def)
qed

lemma comma_join_length: "(\<And>x. x \<in> set xs \<Longrightarrow> length x \<le> m) \<Longrightarrow> length (comma_join xs) \<le> length xs * Suc m"
proof (induction xs rule: comma_join.induct)
  case (3 x y xs)
  then have "length x \<le> m" "length (comma_join (y # xs)) \<le> length (y # xs) * Suc m" by auto
  then show ?case by simp
qed auto

lemma event_text:
  assumes "0 \<le> ev_sequence e" "ev_sequence e < 100" "0 \<le> ev_time e" "ev_time e \<le> 253402300799"
  shows "length (json_text fr (encode_event e)) \<le> 120"
proof -
  have "length (json_int (ev_sequence e)) \<le> 2" "length (json_int (ev_time e)) \<le> 12"
    using assms by (auto intro!: json_int_text)
  moreover have "length (json_string ''code'') = 6" "length (json_string ''sequence'') = 10"
      "length (json_string ''state'') = 7" "length (json_string ''time'') = 6"
    by (simp_all add: plain_escape plain_char_def)
  ultimately show ?thesis
    using code_text [of fr "ev_code e"] jstate_name_text [of "ev_state e"]
    by (simp add: encode_event_def)
qed

lemma check_events_bounds:
  "check_events i prev es \<Longrightarrow> e \<in> set es \<Longrightarrow>
     int i \<le> ev_sequence e \<and> ev_sequence e < int (i + length es) \<and> 0 \<le> ev_time e \<and> ev_time e \<le> 253402300799"
  by (induction es arbitrary: i prev) (auto, fastforce+)

lemma job_text:
  assumes "check_job j"
  shows "length (json_text fr (encode_job j)) \<le> 2100"
proof -
  have h: "check_events 0 None (job_events j)" "length (job_events j) \<le> 13"
    using assms history_length by (auto simp: check_job_def)
  have "length (json_text fr (encode_event e)) \<le> 120" if "e \<in> set (job_events j)" for e
    using check_events_bounds [OF h(1) that] h(2) by (intro event_text) auto
  then have "length (comma_join (map (json_text fr \<circ> encode_event) (job_events j)))
      \<le> length (map (json_text fr \<circ> encode_event) (job_events j)) * Suc 120"
    by (intro comma_join_length) auto
  then have ev: "length (comma_join (map (json_text fr \<circ> encode_event) (job_events j))) \<le> 1573"
    using h(2) by simp
  have fields: "length (json_string (job_request_id j)) = 38"
      "length (json_string (job_target_version j)) \<le> 16"
      "length (json_string (job_expected_current_version j)) \<le> 16"
    using assms
    by (auto simp: check_job_def plain_escape request_id_plain version_plain is_request_id_length
        dest: is_version_length)
  have dig: "length (json_text fr (encode_opt id (job_artifact_sha256 j))) \<le> 66"
      "length (json_text fr (encode_opt id (job_backup_sha256 j))) \<le> 66"
    using assms by (auto simp: check_job_def intro: digest_text)
  have "length (json_string ''artifact_sha256'') = 17" "length (json_string ''backup_sha256'') = 15"
      "length (json_string ''events'') = 8" "length (json_string ''expected_current_version'') = 26"
      "length (json_string ''request_id'') = 12" "length (json_string ''state'') = 7"
      "length (json_string ''target_version'') = 16"
    by (simp_all add: plain_escape plain_char_def)
  then show ?thesis
    using ev fields dig jstate_name_text [of "job_state j"] by (simp add: encode_job_def)
qed

lemma journal_text_bound:
  assumes "valid_journal js"
  shows "length (journal_text js) \<le> MAX_BYTES"
proof -
  have "length (comma_join (map (json_text (\<lambda>_. []) \<circ> encode_job) js))
      \<le> length (map (json_text (\<lambda>_. []) \<circ> encode_job) js) * Suc 2100"
    using assms by (intro comma_join_length) (auto simp: valid_journal_iff list_all_iff job_text)
  also have "\<dots> \<le> 128 * 2101" using assms by (simp add: valid_journal_iff MAX_JOBS_def)
  finally have "length (comma_join (map (json_text (\<lambda>_. []) \<circ> encode_job) js)) \<le> 268928" by simp
  moreover have "length (json_string ''jobs'') = 6" "length (json_string ''schema'') = 8"
    by (simp_all add: plain_escape plain_char_def)
  moreover have "length (json_int 1) = 1" by (simp add: json_int_def digits_of_nat.simps)
  ultimately show ?thesis by (simp add: journal_text_def encode_journal_def MAX_BYTES_def)
qed

section \<open>Saving and reading back\<close>

lemma jn_read_stored: "valid_journal js \<Longrightarrow> jn_disk jn = stored js \<Longrightarrow> jn_read jn = Inr js"
  using journal_text_bound [of js]
  by (simp add: jn_read_def stored_def json_loads_def unique_keys_encode validate_encode)

lemma jn_read_cong: "jn_disk jn' = jn_disk jn \<Longrightarrow> jn_read jn' = jn_read jn"
  by (simp add: jn_read_def)

lemma jn_save_cases:
  assumes "jn_save js jn = (r, jn')"
  shows "jn_disk jn' = jn_disk jn \<and> r \<noteq> Inr () \<or> valid_journal js \<and> jn_disk jn' = stored js"
  using assms
  by (auto simp: jn_save_def Let_def validate_encode_iff split: if_splits sum.splits io_outcome.splits)

text \<open>The fields a save never touches.\<close>

lemma jn_save_frame:
  assumes "jn_save js jn = (r, jn')"
  shows "jn_locked jn' = jn_locked jn" "jn_io jn' = jn_io jn" "jn_clock jn' = jn_clock jn"
    and "jn_foreign_lock jn' = jn_foreign_lock jn" "r = Inr () \<Longrightarrow> \<not> jn_io_failed jn'"
    and "r = Inl (Rejected BUSY) \<or> r = Inl (Rejected JOURNAL_IO) \<or> r = Inl (Rejected JOURNAL_CORRUPT) \<or>
         r = Inl (Rejected JOURNAL_CAPACITY) \<or> r = Inr ()"
  using assms
  by (auto simp: jn_save_def Let_def validate_state_def
      split: if_splits sum.splits io_outcome.splits option.splits)

section \<open>Advancing a job keeps the journal valid\<close>

lemma active_nonterminal: "s \<in> set (NEXT (job_state j)) \<Longrightarrow> active_job j"
  by (cases "job_state j") (auto simp: table_defs active_job_def)

lemma find_job_Some: "find_job rid js = Some j \<Longrightarrow> j \<in> set js \<and> job_request_id j = rid"
  by (auto simp: find_job_def find_Some_iff)

lemma find_job_None: "find_job rid js = None \<longleftrightarrow> rid \<notin> set (map job_request_id js)"
  by (auto simp: find_job_def find_None_iff)

lemma find_job_member: "valid_journal js \<Longrightarrow> j \<in> set js \<Longrightarrow> find_job (job_request_id j) js = Some j"
  unfolding find_job_def valid_journal_iff by (blast intro: find_distinct)

lemma active_is_last:
  assumes "valid_journal js" "j \<in> set js" "active_job j"
  shows "js = butlast js @ [j]"
proof -
  have "js \<noteq> []" using assms(2) by auto
  moreover have "j \<notin> set (butlast js)" using assms by (auto simp: valid_journal_iff list_all_iff)
  ultimately show ?thesis using assms(2)
    by (metis append_butlast_last_id in_set_conv_decomp_last rotate1.simps(2) set_ConsD set_rotate1)
qed

lemma replace_last:
  assumes "distinct (map job_request_id (ks @ [j]))" "job_request_id j' = job_request_id j"
  shows "replace_job j' (ks @ [j]) = ks @ [j']"
proof -
  have "map (\<lambda>k. if job_request_id k = job_request_id j' then j' else k) ks = map id ks"
    using assms by (intro map_cong) (auto simp: image_def)
  then show ?thesis using assms(2) by (simp add: replace_job_def)
qed

lemma set_digest_cases:
  assumes "set_digest m s d = Inr d'"
  shows "d' \<noteq> None \<longleftrightarrow> s = m" "pred_option is_digest d'" "d' = d"
  using assms by (auto simp: set_digest_def require_defs rbind_Inr_iff split: if_splits)
    (cases d; auto)+

lemma check_job_advance:
  assumes "check_job j" "s \<in> set (NEXT (job_state j))" "0 \<le> t" "t \<le> 253402300799"
    and "set_digest J_BACKED_UP s b = Inr b'" "set_digest J_STAGED s a = Inr a'"
  shows "check_job (advance s t c b' a' j)"
proof -
  let ?e = "new_event (length (job_events j)) s t c"
  have es: "check_events 0 None (job_events j @ [?e])" "job_events j \<noteq> []"
    using assms(1-4) by (auto simp: check_events_snoc check_job_def new_event_def)
  have len: "length (job_events j @ [?e]) \<le> MAX_EVENTS"
    using history_length [OF es(1)] by (simp add: MAX_EVENTS_def)
  show ?thesis
    using assms(1) es len set_digest_cases [OF assms(5)] set_digest_cases [OF assms(6)]
    by (auto simp: check_job_def advance_def new_event_def)
qed

lemma valid_replace:
  assumes "valid_journal js" "find_job rid js = Some j" "s \<in> set (NEXT (job_state j))"
    and "check_job (advance s t c b a j)"
  shows "valid_journal (replace_job (advance s t c b a j) js)"
    and "find_job rid (replace_job (advance s t c b a j) js) = Some (advance s t c b a j)"
    and "replace_job (advance s t c b a j) js = butlast js @ [advance s t c b a j]"
proof -
  let ?j = "advance s t c b a j"
  have j: "j \<in> set js" "job_request_id j = rid" using find_job_Some [OF assms(2)] by auto
  have js: "js = butlast js @ [j]"
    using active_is_last [OF assms(1) j(1)] active_nonterminal [OF assms(3)] by blast
  have dist: "distinct (map job_request_id (butlast js @ [j]))"
    using assms(1) js by (metis valid_journal_iff)
  have id: "job_request_id ?j = job_request_id j" by (simp add: advance_def)
  show rep: "replace_job ?j js = butlast js @ [?j]"
    using replace_last [OF dist id] js by simp
  have "list_all check_job (butlast js @ [j])" "length (butlast js @ [j]) \<le> MAX_JOBS"
    "list_all (\<lambda>j. \<not> active_job j) (butlast js)"
    using assms(1) js by (metis valid_journal_iff)+
  then show "valid_journal (replace_job ?j js)"
    using dist id assms(4) by (simp add: rep valid_journal_iff)
  have "\<forall>k \<in> set (butlast js). job_request_id k \<noteq> rid" using dist j(2) by (auto simp: image_def)
  then show "find_job rid (replace_job ?j js) = Some ?j"
    using id j(2) by (simp add: rep find_job_def find_snoc)
qed

section \<open>Operations on the stored journal\<close>

text \<open>
  \<open>good\<close>: the file on disk is a valid journal. \<open>healthy\<close>: in addition the lock is held, no
  save fails and the clock stays inside the range the validator accepts.
\<close>

definition good :: "journal \<Rightarrow> bool" where
  "good jn = (\<exists>js. jn_read jn = Inr js)"

definition healthy :: "journal \<Rightarrow> bool" where
  "healthy jn = (good jn \<and> jn_locked jn \<and> \<not> jn_io_failed jn \<and> (\<forall>n. jn_io jn n = IoOk) \<and>
     (\<forall>n. 0 \<le> jn_clock jn n \<and> jn_clock jn n \<le> 253402300799))"

definition job_of :: "journal \<Rightarrow> string \<Rightarrow> job option" where
  "job_of jn rid = (case jn_read jn of Inl _ \<Rightarrow> None | Inr js \<Rightarrow> find_job rid js)"

lemma jn_save_good: "good jn \<Longrightarrow> good (snd (jn_save js jn))"
  using jn_save_cases [of js jn "fst (jn_save js jn)" "snd (jn_save js jn)"]
  by (auto simp: good_def dest: jn_read_stored jn_read_cong)

lemma jn_save_healthy:
  assumes "healthy jn" "valid_journal js"
  obtains jn' where "jn_save js jn = (Inr (), jn')" "healthy jn'" "jn_read jn' = Inr js"
proof -
  let ?jn = "jn\<lparr>jn_ticks := Suc (jn_ticks jn), jn_disk := stored js\<rparr>"
  have s: "jn_save js jn = (Inr (), ?jn)"
    using assms journal_text_bound [of js] by (simp add: jn_save_def healthy_def validate_encode Let_def)
  have r: "jn_read ?jn = Inr js" using assms(2) by (intro jn_read_stored) simp_all
  then have "healthy ?jn" using assms(1) by (auto simp: healthy_def good_def)
  with s r show ?thesis by (intro that)
qed

lemma jn_transition_good: "good jn \<Longrightarrow> good (snd (jn_transition rid s c b a jn))"
proof -
  assume g: "good jn"
  have "snd (abind (jn_save js) (\<lambda>_. areturn j) jn) = snd (jn_save js jn)" for js and j :: job
    by (simp add: abind_def areturn_def split: prod.splits sum.splits)
  then show ?thesis using g
    by (auto simp: jn_transition_def Let_def jn_save_good split: sum.splits option.splits if_splits)
qed

lemma jn_begin_good: "good jn \<Longrightarrow> good (snd (jn_begin r jn))"
proof -
  assume g: "good jn"
  have "snd (abind (jn_save js) (\<lambda>_. areturn j) jn) = snd (jn_save js jn)" for js and j :: "job \<times> bool"
    by (simp add: abind_def areturn_def split: prod.splits sum.splits)
  then show ?thesis using g
    by (auto simp: jn_begin_def Let_def jn_save_good split: sum.splits option.splits if_splits)
qed

text \<open>On a healthy journal an allowed transition with the right digests always succeeds.\<close>

lemma jn_transition_healthy:
  assumes "healthy jn" "job_of jn rid = Some j" "s \<in> set (NEXT (job_state j))"
    and "set_digest J_BACKED_UP s b = Inr b'" "set_digest J_STAGED s a = Inr a'"
  obtains j' jn' where "jn_transition rid s c b a jn = (Inr j', jn')" "healthy jn'"
    "job_of jn' rid = Some j'" "job_state j' = s" "job_request_id j' = rid"
    "job_target_version j' = job_target_version j"
    "job_expected_current_version j' = job_expected_current_version j"
    "\<exists>e. job_events j' = job_events j @ [e] \<and> ev_state e = s \<and> ev_code e = c"
proof -
  obtain js where js: "jn_read jn = Inr js" "find_job rid js = Some j"
    using assms(2) by (auto simp: job_of_def split: sum.splits)
  let ?t = "jn_clock jn (jn_ticks jn)"
  let ?j = "advance s ?t c b' a' j"
  have v: "valid_journal js" using js(1) by (rule jn_read_valid)
  have "check_job j" using v find_job_Some [OF js(2)] by (auto simp: valid_journal_iff list_all_iff)
  then have cj: "check_job ?j"
    using assms by (intro check_job_advance) (auto simp: healthy_def)
  note rep = valid_replace [OF v js(2) assms(3) cj]
  obtain jn' where s: "jn_save (replace_job ?j js) jn = (Inr (), jn')" "healthy jn'"
    "jn_read jn' = Inr (replace_job ?j js)"
    using jn_save_healthy [OF assms(1) rep(1)] by blast
  have "jn_transition rid s c b a jn = (Inr ?j, jn')"
    using js assms(3-5) s(1) by (simp add: jn_transition_def abind_def areturn_def Let_def)
  moreover have "job_of jn' rid = Some ?j" using s(3) rep(2) by (simp add: job_of_def)
  moreover have "job_request_id ?j = rid" using find_job_Some [OF js(2)] by (simp add: advance_def)
  moreover have "job_state ?j = s" "job_target_version ?j = job_target_version j"
    "job_expected_current_version ?j = job_expected_current_version j"
    "\<exists>e. job_events ?j = job_events j @ [e] \<and> ev_state e = s \<and> ev_code e = c"
    by (simp_all add: advance_def new_event_def)
  ultimately show ?thesis using s(2) by (intro that)
qed

lemma jn_begin_known:
  "job_of jn (req_request_id r) = Some k \<Longrightarrow>
     jn_begin r jn = (if job_target_version k \<noteq> req_target_version r
         \<or> job_expected_current_version k \<noteq> req_expected_current_version r
       then Inl (Rejected REQUEST_ID_REUSED) else Inr (k, False), jn)"
  by (auto simp: jn_begin_def job_of_def split: sum.splits)

text \<open>A new request starts one job, provided nothing is active and there is room.\<close>

lemma jn_begin_healthy:
  assumes "healthy jn" "jn_read jn = Inr js" "job_of jn (req_request_id r) = None"
    and "\<not> list_ex active_job js" "length js < MAX_JOBS"
    and "is_request_id (req_request_id r)" "is_version (req_target_version r)"
    and "is_version (req_expected_current_version r)"
  obtains j jn' where "jn_begin r jn = (Inr (j, True), jn')" "healthy jn'"
    "job_of jn' (req_request_id r) = Some j" "job_state j = J_REQUESTED" "jn_read jn' = Inr (js @ [j])"
proof -
  let ?j = "new_job r (jn_clock jn (jn_ticks jn))"
  have f: "find_job (req_request_id r) js = None" using assms(2,3) by (simp add: job_of_def)
  have "valid_journal js" using assms(2) by (rule jn_read_valid)
  moreover have "check_job ?j"
    using assms by (auto simp: check_job_def new_job_def new_event_def healthy_def MAX_EVENTS_def)
  ultimately have v: "valid_journal (js @ [?j])"
    using f assms(4,5) by (auto simp: valid_journal_iff find_job_None list_all_iff list_ex_iff new_job_def
        dest: in_set_butlastD)
  obtain jn' where s: "jn_save (js @ [?j]) jn = (Inr (), jn')" "healthy jn'" "jn_read jn' = Inr (js @ [?j])"
    using jn_save_healthy [OF assms(1) v] by blast
  have "jn_begin r jn = (Inr (?j, True), jn')"
    using assms(2,4,5) f s(1) by (simp add: jn_begin_def abind_def areturn_def Let_def)
  moreover have "job_of jn' (req_request_id r) = Some ?j"
  proof -
    have "find (\<lambda>j. job_request_id j = req_request_id r) (js @ [?j]) = Some ?j"
      using f by (intro find_snoc) (auto simp: find_job_None new_job_def image_def)
    then show ?thesis using s(3) by (simp add: job_of_def find_job_def)
  qed
  moreover have "job_state ?j = J_REQUESTED" by (simp add: new_job_def)
  ultimately show ?thesis using s(2,3) by (intro that)
qed

text \<open>Whatever the environment does, a transition that returns is on disk.\<close>

lemma jn_transition_recorded:
  assumes "jn_transition rid s c b a jn = (Inr k, jn')"
  shows "job_of jn' rid = Some k \<and> job_state k = s"
proof -
  obtain js j b' a' where js: "jn_read jn = Inr js" "find_job rid js = Some j"
    and k: "k = advance s (jn_clock jn (jn_ticks jn)) c b' a' j"
    and sv: "jn_save (replace_job k js) jn = (Inr (), jn')"
    using assms
    by (auto simp: jn_transition_def abind_def areturn_def Let_def split: sum.splits option.splits if_splits prod.splits)
  have v: "valid_journal (replace_job k js)" "jn_disk jn' = stored (replace_job k js)"
    using jn_save_cases [OF sv] by auto
  have "job_request_id k = rid" "k \<in> set (replace_job k js)"
    using find_job_Some [OF js(2)] by (auto simp: k advance_def replace_job_def image_iff)
  then have "find_job rid (replace_job k js) = Some k" using find_job_member [OF v(1)] by metis
  then show ?thesis using jn_read_stored [OF v] by (simp add: job_of_def k advance_def)
qed

section \<open>The interface the transaction runner relies on\<close>

locale update_journal =
  fixes begin_job :: "request \<Rightarrow> ('j, uerr, job \<times> bool) act"
    and transition :: "string \<Rightarrow> jstate \<Rightarrow> code option \<Rightarrow> string option \<Rightarrow> string option \<Rightarrow> ('j, uerr, job) act"
    and lookup :: "'j \<Rightarrow> string \<Rightarrow> job option"
    and intact :: "'j \<Rightarrow> bool"
    and usable :: "'j \<Rightarrow> bool"
  assumes begin_intact: "intact j \<Longrightarrow> intact (snd (begin_job r j))"
    and transition_intact: "intact j \<Longrightarrow> intact (snd (transition rid s c b a j))"
    and transition_recorded: "transition rid s c b a j = (Inr k, j') \<Longrightarrow> lookup j' rid = Some k \<and> job_state k = s"
    and begin_known: "usable j \<Longrightarrow> lookup j (req_request_id r) = Some k \<Longrightarrow>
      begin_job r j = (if job_target_version k \<noteq> req_target_version r
          \<or> job_expected_current_version k \<noteq> req_expected_current_version r
        then Inl (Rejected REQUEST_ID_REUSED) else Inr (k, False), j)"
    and transition_allowed: "usable j \<Longrightarrow> lookup j rid = Some k \<Longrightarrow> s \<in> set (NEXT (job_state k)) \<Longrightarrow>
      set_digest J_BACKED_UP s b = Inr b' \<Longrightarrow> set_digest J_STAGED s a = Inr a' \<Longrightarrow>
      \<exists>k' j'. transition rid s c b a j = (Inr k', j') \<and> usable j' \<and> lookup j' rid = Some k' \<and> job_state k' = s"
begin

text \<open>The three shapes of a step: no digest, the staged archive, the verified backup.\<close>

lemma plain_step:
  assumes "usable j" "lookup j rid = Some k" "s \<in> set (NEXT (job_state k))" "s \<noteq> J_BACKED_UP" "s \<noteq> J_STAGED"
  shows "\<exists>k' j'. transition rid s c None None j = (Inr k', j') \<and> usable j' \<and> lookup j' rid = Some k' \<and> job_state k' = s"
  using assms by (intro transition_allowed) (auto simp: set_digest_def)

lemma staged_step:
  assumes "usable j" "lookup j rid = Some k" "job_state k = J_STAGING" "is_digest a"
  shows "\<exists>k' j'. transition rid J_STAGED c None (Some a) j = (Inr k', j') \<and> usable j' \<and>
    lookup j' rid = Some k' \<and> job_state k' = J_STAGED"
  using assms by (intro transition_allowed) (auto simp: set_digest_def require_defs table_defs)

lemma backed_up_step:
  assumes "usable j" "lookup j rid = Some k" "job_state k = J_BACKUP_STARTED" "is_digest b"
  shows "\<exists>k' j'. transition rid J_BACKED_UP c (Some b) None j = (Inr k', j') \<and> usable j' \<and>
    lookup j' rid = Some k' \<and> job_state k' = J_BACKED_UP"
  using assms by (intro transition_allowed) (auto simp: set_digest_def require_defs table_defs)

end

interpretation hj: update_journal jn_begin jn_transition job_of good healthy
proof
  fix j rid k s b b' a a' c
  assume "healthy j" "job_of j rid = Some k" "s \<in> set (NEXT (job_state k))"
    "set_digest J_BACKED_UP s b = Inr b'" "set_digest J_STAGED s a = Inr a'"
  note ok = jn_transition_healthy [OF this, of c]
  show "\<exists>k' j'. jn_transition rid s c b a j = (Inr k', j') \<and> healthy j' \<and> job_of j' rid = Some k' \<and> job_state k' = s"
    by (rule ok) (intro exI conjI, assumption+)
qed (simp_all add: jn_begin_good jn_transition_good jn_begin_known jn_transition_recorded)

section \<open>Recovery after an interruption\<close>

lemma recover_jobs_skip: "list_all (\<lambda>j. job_state j \<in> set TERMINAL) ks \<Longrightarrow> recover_jobs (ks @ js) = recover_jobs js"
  by (induction ks) auto

definition recovered_state :: "jstate \<Rightarrow> jstate" where
  "recovered_state s = (if s \<in> set TERMINAL then s
     else if s \<in> set BEFORE_CUTOVER then J_FAILED else J_MANUAL_ACTION_REQUIRED)"

lemma recovered_allowed:
  "s \<notin> set TERMINAL \<Longrightarrow> recovered_state s \<in> set (NEXT s) \<and> recovered_state s \<notin> {J_BACKED_UP, J_STAGED}"
  by (cases s) (simp_all add: recovered_state_def table_defs)

lemma recover_jobs_healthy:
  assumes "healthy jn" "jn_read jn = Inr js"
  shows "\<exists>jn' js'. recover_jobs js jn = (Inr (), jn') \<and> healthy jn' \<and> jn_read jn' = Inr js' \<and>
    map (\<lambda>j. (job_request_id j, job_state j)) js' =
    map (\<lambda>j. (job_request_id j, recovered_state (job_state j))) js"
proof (cases "list_all (\<lambda>j. job_state j \<in> set TERMINAL) js")
  case True
  then have "recover_jobs js jn = (Inr (), jn)"
    using recover_jobs_skip [of js "[]"] by (simp add: areturn_def)
  then show ?thesis using assms True by (auto simp: recovered_state_def list_all_iff)
next
  case False
  have v: "valid_journal js" using assms(2) by (rule jn_read_valid)
  from False obtain j where j: "j \<in> set js" "job_state j \<notin> set TERMINAL" by (auto simp: list_all_iff)
  then have act: "active_job j" by (simp add: active_job_def)
  let ?ks = "butlast js" and ?s = "recovered_state (job_state j)"
  have js: "js = ?ks @ [j]" using active_is_last [OF v j(1) act] .
  have closed: "list_all (\<lambda>j. job_state j \<in> set TERMINAL) ?ks"
    using v by (auto simp: valid_journal_iff list_all_iff active_job_def)
  have find: "find_job (job_request_id j) js = Some j" using v j(1) by (rule find_job_member)
  let ?c = "Some (if job_state j \<in> set BEFORE_CUTOVER then INTERRUPTED_BEFORE_CUTOVER else RECOVERY_REQUIRED)"
  note ok = recovered_allowed [OF j(2)]
  have dig: "set_digest J_BACKED_UP ?s None = Inr None" "set_digest J_STAGED ?s None = Inr None"
    using ok by (auto simp: set_digest_def)
  let ?t = "jn_clock jn (jn_ticks jn)"
  have cj: "check_job (advance ?s ?t ?c None None j)"
    using v j(1) ok dig assms(1)
    by (intro check_job_advance [OF _ _ _ _ dig]) (auto simp: valid_journal_iff list_all_iff healthy_def)
  note rep = valid_replace [OF v find conjunct1 [OF ok] cj]
  obtain jn' where sv: "jn_save (replace_job (advance ?s ?t ?c None None j) js) jn = (Inr (), jn')" "healthy jn'"
    "jn_read jn' = Inr (replace_job (advance ?s ?t ?c None None j) js)"
    using jn_save_healthy [OF assms(1) rep(1)] by blast
  have tr: "jn_transition (job_request_id j) ?s ?c None None jn = (Inr (advance ?s ?t ?c None None j), jn')"
    using assms(2) find ok dig sv(1) by (simp add: jn_transition_def abind_def areturn_def Let_def)
  have "recover_jobs js = recover_jobs [j]" using recover_jobs_skip [OF closed, of "[j]"] js by metis
  then have "recover_jobs js jn = (Inr (), jn')"
    using tr j(2) by (auto simp: recovered_state_def abind_def areturn_def split: if_splits)
  moreover have "map (\<lambda>j. (job_request_id j, job_state j)) (replace_job (advance ?s ?t ?c None None j) js) =
    map (\<lambda>j. (job_request_id j, recovered_state (job_state j))) (?ks @ [j])"
    using closed unfolding rep(3) by (auto simp: advance_def list_all_iff recovered_state_def)
  ultimately show ?thesis using sv(2,3) js by metis
qed

end
