(* ===== verification/UpdateTransaction.thy ===== *)
theory UpdateTransaction
  imports UpdateJournalLaws
begin

text \<open>
  Journalled orchestration of one update (update_helper/transaction.py) and the request
  handler above it (update_helper/service.py). The host adapter is the record
  \<open>'h host\<close> of the operations of the \<open>HostExecutor\<close> protocol over an arbitrary host
  state: each call may raise (\<^const>\<open>None\<close>) or answer, and may change the host state.

  \<open>rs_backup\<close> and \<open>rs_started\<close> are the locals \<open>backup\<close> and \<open>candidate_may_have_started\<close>
  of \<open>_run\<close>. \<open>rs_log\<close> is an observer's log: every host call at its invocation, every
  state at the moment its durable record is acknowledged, and the acknowledgement sent
  to the client. No operation reads the log.
\<close>

section \<open>Plans, receipts and the host\<close>

record plan =
  plan_request_id :: string
  plan_target_version :: string
  plan_current_version :: string

record candidate =
  cand_request_id :: string
  cand_version :: string
  cand_archive_sha256 :: string

record backup =
  bk_request_id :: string
  bk_version :: string
  bk_manifest_sha256 :: string

text \<open>A receipt that is not of the expected class is an answer \<open>Some None\<close>.\<close>

record 'h host =
  h_current_version :: "'h \<Rightarrow> string option \<times> 'h"
  h_preflight :: "plan \<Rightarrow> 'h \<Rightarrow> unit option \<times> 'h"
  h_prepare_candidate :: "plan \<Rightarrow> 'h \<Rightarrow> candidate option option \<times> 'h"
  h_stop_original :: "plan \<Rightarrow> 'h \<Rightarrow> unit option \<times> 'h"
  h_backup_original :: "plan \<Rightarrow> 'h \<Rightarrow> backup option option \<times> 'h"
  h_start_candidate :: "plan \<Rightarrow> candidate \<Rightarrow> backup \<Rightarrow> 'h \<Rightarrow> unit option \<times> 'h"
  h_verify_candidate :: "plan \<Rightarrow> 'h \<Rightarrow> unit option \<times> 'h"
  h_restore_original :: "plan \<Rightarrow> backup option \<Rightarrow> bool \<Rightarrow> 'h \<Rightarrow> unit option \<times> 'h"
  h_verify_original :: "plan \<Rightarrow> 'h \<Rightarrow> unit option \<times> 'h"

datatype hcall =
    CurrentVersion | Preflight | PrepareCandidate | StopOriginal | BackupOriginal
  | StartCandidate | VerifyCandidate | RestoreOriginal "backup option" bool | VerifyOriginal

datatype entry = Called hcall | Recorded jstate | Acknowledged jstate

record 'h rstate =
  rs_journal :: journal
  rs_host :: 'h
  rs_log :: "entry list"
  rs_backup :: "backup option"
  rs_started :: bool

datatype rerr = ActionFailed code | Escaped uerr

type_synonym ('h, 'a) ract = "('h rstate, rerr, 'a) act"

definition mk_plan :: "string \<Rightarrow> string \<Rightarrow> string \<Rightarrow> uerr + plan" where
  "mk_plan rid target current =
     rbind (require_request_id (VStr rid)) (\<lambda>_. rbind (require_version (VStr target)) (\<lambda>_.
     rbind (require_version (VStr current)) (\<lambda>_.
     Inr \<lparr>plan_request_id = rid, plan_target_version = target, plan_current_version = current\<rparr>)))"

section \<open>Single steps\<close>

text \<open>\<open>_action\<close>: call the host and turn any exception into \<open>_ActionFailed(code)\<close>.\<close>

definition action_call :: "code \<Rightarrow> hcall \<Rightarrow> ('h \<Rightarrow> 'a option \<times> 'h) \<Rightarrow> ('h, 'a) ract" where
  "action_call c k f st = (case f (rs_host st) of (r, h) \<Rightarrow>
     (let st' = st\<lparr>rs_host := h, rs_log := rs_log st @ [Called k]\<rparr>
      in (case r of None \<Rightarrow> (Inl (ActionFailed c), st') | Some a \<Rightarrow> (Inr a, st'))))"

definition jstep :: "plan \<Rightarrow> jstate \<Rightarrow> code option \<Rightarrow> string option \<Rightarrow> string option \<Rightarrow> ('h, job) ract" where
  "jstep pl s c b a st = (case jn_transition (plan_request_id pl) s c b a (rs_journal st) of
     (Inl e, jn) \<Rightarrow> (Inl (Escaped e), st\<lparr>rs_journal := jn\<rparr>)
   | (Inr j, jn) \<Rightarrow> (Inr j, st\<lparr>rs_journal := jn, rs_log := rs_log st @ [Recorded s]\<rparr>))"

definition prepare :: "'h host \<Rightarrow> plan \<Rightarrow> 'h \<Rightarrow> candidate option \<times> 'h" where
  "prepare host pl h = (case h_prepare_candidate host pl h of
     (Some (Some c), h') \<Rightarrow>
       (if cand_request_id c = plan_request_id pl \<and> cand_version c = plan_target_version pl
           \<and> is_digest (cand_archive_sha256 c) then Some c else None, h')
   | (_, h') \<Rightarrow> (None, h'))"

definition capture :: "'h host \<Rightarrow> plan \<Rightarrow> 'h \<Rightarrow> backup option \<times> 'h" where
  "capture host pl h = (case h_backup_original host pl h of
     (Some (Some b), h') \<Rightarrow>
       (if bk_request_id b = plan_request_id pl \<and> bk_version b = plan_current_version pl
           \<and> is_digest (bk_manifest_sha256 b) then Some b else None, h')
   | (_, h') \<Rightarrow> (None, h'))"

definition check_upgrade :: "plan \<Rightarrow> ('h, unit) ract" where
  "check_upgrade pl = (case newer (plan_target_version pl) (plan_current_version pl) of
     Inl e \<Rightarrow> araise (Escaped e)
   | Inr b \<Rightarrow> if b then areturn () else araise (ActionFailed NOT_AN_UPGRADE))"

definition check_current :: "'h host \<Rightarrow> plan \<Rightarrow> ('h, unit) ract" where
  "check_current host pl =
     abind (action_call PREFLIGHT_FAILED CurrentVersion (h_current_version host)) (\<lambda>actual.
     if actual \<noteq> plan_current_version pl then araise (ActionFailed CURRENT_VERSION_CHANGED)
     else areturn ())"

definition set_backup :: "backup \<Rightarrow> ('h, unit) ract" where
  "set_backup b st = (Inr (), st\<lparr>rs_backup := Some b\<rparr>)"

definition set_started :: "('h, unit) ract" where
  "set_started st = (Inr (), st\<lparr>rs_started := True\<rparr>)"

section \<open>The transaction\<close>

text \<open>The body of the \<open>try\<close> statement of \<open>_run\<close>.\<close>

definition forward :: "'h host \<Rightarrow> plan \<Rightarrow> ('h, job) ract" where
  "forward host pl =
     abind (check_upgrade pl) (\<lambda>_.
     abind (check_current host pl) (\<lambda>_.
     abind (action_call PREFLIGHT_FAILED Preflight (h_preflight host pl)) (\<lambda>_.
     abind (jstep pl J_VALIDATED None None None) (\<lambda>_.
     abind (jstep pl J_STAGING None None None) (\<lambda>_.
     abind (action_call SOURCE_VERIFICATION_FAILED PrepareCandidate (prepare host pl)) (\<lambda>cand.
     abind (jstep pl J_STAGED None None (Some (cand_archive_sha256 cand))) (\<lambda>_.
     abind (check_current host pl) (\<lambda>_.
     abind (action_call PREFLIGHT_FAILED Preflight (h_preflight host pl)) (\<lambda>_.
     abind (jstep pl J_STOP_REQUESTED None None None) (\<lambda>_.
     abind (action_call STOP_FAILED StopOriginal (h_stop_original host pl)) (\<lambda>_.
     abind (jstep pl J_STOPPED None None None) (\<lambda>_.
     abind (jstep pl J_BACKUP_STARTED None None None) (\<lambda>_.
     abind (action_call BACKUP_FAILED BackupOriginal (capture host pl)) (\<lambda>bk.
     abind (set_backup bk) (\<lambda>_.
     abind (jstep pl J_BACKED_UP None (Some (bk_manifest_sha256 bk)) None) (\<lambda>_.
     abind (jstep pl J_START_REQUESTED None None None) (\<lambda>_.
     abind set_started (\<lambda>_.
     abind (action_call START_FAILED StartCandidate (h_start_candidate host pl cand bk)) (\<lambda>_.
     abind (jstep pl J_STARTED None None None) (\<lambda>_.
     abind (action_call HEALTH_FAILED VerifyCandidate (h_verify_candidate host pl)) (\<lambda>_.
     abind (jstep pl J_VERIFIED None None None) (\<lambda>_.
     jstep pl J_COMPLETE None None None))))))))))))))))))))))"

text \<open>The handler: a failed action before cutover only records \<open>FAILED\<close>; later it rolls back.\<close>

definition roll_back :: "'h host \<Rightarrow> plan \<Rightarrow> code \<Rightarrow> ('h, job) ract" where
  "roll_back host pl c =
     abind (jstep pl J_ROLLING_BACK (Some c) None None) (\<lambda>_ st.
       (case abind (action_call RESTORE_FAILED (RestoreOriginal (rs_backup st) (rs_started st))
                     (h_restore_original host pl (rs_backup st) (rs_started st)))
                   (\<lambda>_. action_call RESTORE_FAILED VerifyOriginal (h_verify_original host pl)) st of
          (Inl (ActionFailed _), st') \<Rightarrow> jstep pl J_MANUAL_ACTION_REQUIRED (Some RESTORE_FAILED) None None st'
        | (Inl e, st') \<Rightarrow> (Inl e, st')
        | (Inr _, st') \<Rightarrow> jstep pl J_RESTORED (Some c) None None st'))"

definition on_failure :: "'h host \<Rightarrow> plan \<Rightarrow> code \<Rightarrow> ('h, job) ract" where
  "on_failure host pl c st = (case jn_read (rs_journal st) of
     Inl e \<Rightarrow> (Inl (Escaped e), st)
   | Inr js \<Rightarrow>
       (case find_job (plan_request_id pl) js of
          None \<Rightarrow> (Inl (Escaped (Raised StopIteration)), st)
        | Some j \<Rightarrow>
            if job_state j \<in> set BEFORE_CUTOVER then jstep pl J_FAILED (Some c) None None st
            else roll_back host pl c st))"

definition run_plan :: "'h host \<Rightarrow> plan \<Rightarrow> ('h, public_view) ract" where
  "run_plan host pl st0 =
     (let st = st0\<lparr>rs_backup := None, rs_started := False\<rparr> in
      (case forward host pl st of
         (Inl (ActionFailed c), st') \<Rightarrow> abind (on_failure host pl c) (\<lambda>j. areturn (public_job j)) st'
       | (Inl e, st') \<Rightarrow> (Inl e, st')
       | (Inr j, st') \<Rightarrow> (Inr (public_job j), st')))"

section \<open>Execution of a request\<close>

definition rs_exclusive :: "('h, 'a) ract \<Rightarrow> ('h, 'a) ract" where
  "rs_exclusive body st =
     (if jn_locked (rs_journal st) then (Inl (Escaped (Rejected BUSY)), st)
      else if jn_io_failed (rs_journal st) then (Inl (Escaped (Rejected JOURNAL_IO)), st)
      else if jn_foreign_lock (rs_journal st) then (Inl (Escaped (Rejected BUSY)), st)
      else (case body (st\<lparr>rs_journal := (rs_journal st)\<lparr>jn_locked := True\<rparr>\<rparr>) of
          (r, st') \<Rightarrow> (r, st'\<lparr>rs_journal := (rs_journal st')\<lparr>jn_locked := False\<rparr>\<rparr>)))"

definition reserve :: "request \<Rightarrow> ('h, job \<times> bool) ract" where
  "reserve r st = (case jn_begin r (rs_journal st) of
     (Inl e, jn) \<Rightarrow> (Inl (Escaped e), st\<lparr>rs_journal := jn\<rparr>)
   | (Inr (j, created), jn) \<Rightarrow>
       (Inr (j, created), st\<lparr>rs_journal := jn,
          rs_log := rs_log st @ (if created then [Recorded J_REQUESTED] else [])\<rparr>))"

definition acknowledge :: "bool \<Rightarrow> job \<Rightarrow> ('h, unit) ract" where
  "acknowledge wanted j st =
     (Inr (), if wanted then st\<lparr>rs_log := rs_log st @ [Acknowledged (job_state j)]\<rparr> else st)"

definition execute_body :: "'h host option \<Rightarrow> request \<Rightarrow> plan \<Rightarrow> bool \<Rightarrow> ('h, public_view) ract" where
  "execute_body executor r pl ack = (case executor of
     None \<Rightarrow> araise (Escaped (Rejected EXECUTOR_UNAVAILABLE))
   | Some host \<Rightarrow>
       abind (reserve r) (\<lambda>(j, created). abind (acknowledge ack j) (\<lambda>_.
         if \<not> created then areturn (public_job j) else run_plan host pl)))"

definition execute :: "'h host option \<Rightarrow> request \<Rightarrow> bool \<Rightarrow> ('h, public_view) ract" where
  "execute executor r ack st =
     (if req_action r \<notin> {Install, Submit} then (Inl (Escaped (Rejected BAD_REQUEST)), st)
      else (case mk_plan (req_request_id r) (req_target_version r) (req_expected_current_version r) of
          Inl e \<Rightarrow> (Inl (Escaped e), st)
        | Inr pl \<Rightarrow> rs_exclusive (execute_body executor r pl ack) st))"

section \<open>The service\<close>

datatype response = OkStatus "public_view option" bool | OkJob public_view | NotOk code

definition error_response :: "rerr \<Rightarrow> response" where
  "error_response e = (case e of Escaped (Rejected c) \<Rightarrow> NotOk c | _ \<Rightarrow> NotOk INTERNAL_ERROR)"

definition handle ::
  "(string \<Rightarrow> string) \<Rightarrow> authorization \<Rightarrow> 'h host option \<Rightarrow> raw_text \<Rightarrow> int \<Rightarrow> 'h rstate \<Rightarrow> response \<times> 'h rstate" where
  "handle sha256 auth executor data peer_uid st =
     (if peer_uid \<noteq> allowed_peer_uid auth then (NotOk PEER_DENIED, st)
      else (case decode_request data of
          Inl e \<Rightarrow> (error_response (Escaped e), st)
        | Inr r \<Rightarrow>
            (case auth_check sha256 auth r peer_uid of
               Inl e \<Rightarrow> (error_response (Escaped e), st)
             | Inr _ \<Rightarrow>
                 if req_action r = Status then
                   (case public_status (rs_journal st) of
                      Inl e \<Rightarrow> (error_response (Escaped e), st)
                    | Inr v \<Rightarrow> (OkStatus v (executor \<noteq> None), st))
                 else (case execute executor r (req_action r = Submit) st of
                      (Inl e, st') \<Rightarrow> (error_response e, st')
                    | (Inr v, st') \<Rightarrow> (OkJob v, st')))))"

end
