(* ===== verification/UpdateTransactionLaws.thy ===== *)
theory UpdateTransactionLaws
  imports UpdateTransaction
begin

text \<open>
  Laws of the transaction runner: the log of a run is a prefix of one fixed schedule,
  host actions are preceded by their durable intent, and on a healthy journal every run
  ends in a terminal state that says what happened to the installation.
\<close>

section \<open>The schedule of a run\<close>

definition FORWARD :: "entry list" where
  "FORWARD =
     [Called CurrentVersion, Called Preflight, Recorded J_VALIDATED, Recorded J_STAGING,
      Called PrepareCandidate, Recorded J_STAGED, Called CurrentVersion, Called Preflight,
      Recorded J_STOP_REQUESTED, Called StopOriginal, Recorded J_STOPPED, Recorded J_BACKUP_STARTED,
      Called BackupOriginal, Recorded J_BACKED_UP, Recorded J_START_REQUESTED, Called StartCandidate,
      Recorded J_STARTED, Called VerifyCandidate, Recorded J_VERIFIED, Recorded J_COMPLETE]"

definition recorded_state :: "entry list \<Rightarrow> jstate" where
  "recorded_state l = foldl (\<lambda>s e. case e of Recorded t \<Rightarrow> t | _ \<Rightarrow> s) J_REQUESTED l"

text \<open>A state of the run: the log so far, a journal that agrees with it, and the locals.\<close>

definition ready :: "plan \<Rightarrow> bool \<Rightarrow> entry list \<Rightarrow> entry list \<Rightarrow> backup option \<Rightarrow> bool \<Rightarrow> 'h rstate \<Rightarrow> bool" where
  "ready pl H B l bo so st =
     (rs_log st = B @ l \<and> rs_backup st = bo \<and> rs_started st = so \<and>
      (H \<longrightarrow> healthy (rs_journal st)) \<and>
      (\<exists>k. job_of (rs_journal st) (plan_request_id pl) = Some k \<and> job_state k = recorded_state (B @ l)))"

definition receipt_ok :: "plan \<Rightarrow> backup option \<Rightarrow> bool" where
  "receipt_ok pl bo = (case bo of None \<Rightarrow> False
     | Some b \<Rightarrow> bk_request_id b = plan_request_id pl \<and> bk_version b = plan_current_version pl)"

definition interrupted :: "plan \<Rightarrow> entry list \<Rightarrow> backup option \<Rightarrow> bool \<Rightarrow> bool" where
  "interrupted pl l bo so =
     (l = take (length l) FORWARD \<and> Recorded J_COMPLETE \<notin> set l \<and>
      (Called StartCandidate \<in> set l \<longrightarrow> so \<and> receipt_ok pl bo) \<and>
      (so \<longrightarrow> Recorded J_START_REQUESTED \<in> set l))"

definition stopped_with :: "plan \<Rightarrow> bool \<Rightarrow> entry list \<Rightarrow> rerr \<Rightarrow> 'h rstate \<Rightarrow> bool" where
  "stopped_with pl H B e st = (\<exists>l bo so. rs_log st = B @ l \<and> interrupted pl l bo so \<and>
     (case e of Escaped _ \<Rightarrow> \<not> H | ActionFailed _ \<Rightarrow> ready pl H B l bo so st))"

lemma recorded_state_append:
  "recorded_state (B @ l) = foldl (\<lambda>s e. case e of Recorded t \<Rightarrow> t | _ \<Rightarrow> s) (recorded_state B) l"
  by (simp add: recorded_state_def)

section \<open>Rules for the steps of the body\<close>

lemma jstep_effect:
  assumes "ready pl H B l bo so st" "s \<in> set (NEXT (recorded_state (B @ l)))"
    and "set_digest J_BACKED_UP s b = Inr b'" "set_digest J_STAGED s a = Inr a'"
    and "jstep pl s c b a st = (r, t)"
  shows "case r of Inl e \<Rightarrow> \<not> H \<and> (\<exists>u. e = Escaped u) \<and> rs_log t = B @ l
    | Inr j \<Rightarrow> job_state j = s \<and> ready pl H B (l @ [Recorded s]) bo so t"
proof -
  obtain res jn where tr: "jn_transition (plan_request_id pl) s c b a (rs_journal st) = (res, jn)"
    by (cases "jn_transition (plan_request_id pl) s c b a (rs_journal st)")
  have h: "H \<Longrightarrow> (\<exists>k. res = Inr k) \<and> healthy jn"
    using assms(1-4) hj.transition_allowed [of "rs_journal st" "plan_request_id pl" _ s b b' a a' c] tr
    by (fastforce simp: ready_def)
  show ?thesis
  proof (cases res)
    case (Inl e)
    then show ?thesis using h assms(1,5) tr by (auto simp: jstep_def ready_def)
  next
    case (Inr j)
    then have "job_of jn (plan_request_id pl) = Some j" "job_state j = s"
      using hj.transition_recorded tr by blast+
    then show ?thesis using h assms(1,5) tr Inr
      by (auto simp: jstep_def ready_def recorded_state_def)
  qed
qed

lemma action_effect:
  assumes "ready pl H B l bo so st" "action_call c k g st = (r, t)"
  shows "ready pl H B (l @ [Called k]) bo so t \<and>
    (case r of Inl e \<Rightarrow> e = ActionFailed c | Inr a \<Rightarrow> g (rs_host st) = (Some a, rs_host t))"
proof -
  have "recorded_state (B @ l @ [Called k]) = recorded_state (B @ l)" by (simp add: recorded_state_def)
  then show ?thesis using assms
    by (auto simp: action_call_def ready_def Let_def split: prod.splits option.splits)
qed

lemma jstep_rule:
  assumes "s \<in> set (NEXT (recorded_state (B @ l)))"
    and "set_digest J_BACKED_UP s b = Inr b'" "set_digest J_STAGED s a = Inr a'"
    and "\<And>e st. \<not> H \<Longrightarrow> rs_log st = B @ l \<Longrightarrow> E (Escaped e) st"
    and "\<And>j. job_state j = s \<Longrightarrow> triple (ready pl H B (l @ [Recorded s]) bo so) (f j) Q E"
  shows "triple (ready pl H B l bo so) (abind (jstep pl s c b a) f) Q E"
proof (rule triple_bind [where Q = "\<lambda>j st. job_state j = s \<and> ready pl H B (l @ [Recorded s]) bo so st"])
  show "triple (ready pl H B l bo so) (jstep pl s c b a)
    (\<lambda>j st. job_state j = s \<and> ready pl H B (l @ [Recorded s]) bo so st) E"
    unfolding triple_def using jstep_effect [OF _ assms(1-3), of pl H bo so _ c] assms(4)
    by (fastforce split: prod.splits sum.splits)
  show "triple (\<lambda>st. job_state j = s \<and> ready pl H B (l @ [Recorded s]) bo so st) (f j) Q E" for j
    using assms(5) [of j] by (auto simp: triple_def)
qed

lemma action_rule:
  assumes "\<And>st. ready pl H B (l @ [Called k]) bo so st \<Longrightarrow> E (ActionFailed c) st"
    and "\<And>h a h'. g h = (Some a, h') \<Longrightarrow> R a"
    and "\<And>a. R a \<Longrightarrow> triple (ready pl H B (l @ [Called k]) bo so) (f a) Q E"
  shows "triple (ready pl H B l bo so) (abind (action_call c k g) f) Q E"
proof (rule triple_bind [where Q = "\<lambda>a st. R a \<and> ready pl H B (l @ [Called k]) bo so st"])
  show "triple (ready pl H B l bo so) (action_call c k g) (\<lambda>a st. R a \<and> ready pl H B (l @ [Called k]) bo so st) E"
    unfolding triple_def using action_effect [of pl H B l bo so _ c k g] assms(1,2)
    by (fastforce split: prod.splits sum.splits)
  show "triple (\<lambda>st. R a \<and> ready pl H B (l @ [Called k]) bo so st) (f a) Q E" for a
    using assms(3) [of a] by (auto simp: triple_def)
qed

lemma local_rules:
  "triple (ready pl H B l (Some b) so) (f ()) Q E \<Longrightarrow> triple (ready pl H B l bo so) (abind (set_backup b) f) Q E"
  "triple (ready pl H B l bo True) (f ()) Q E \<Longrightarrow> triple (ready pl H B l bo so) (abind set_started f) Q E"
  by (auto simp: triple_def abind_def set_backup_def set_started_def ready_def)

text \<open>A digest-free step, and the three checks that interleave with the calls.\<close>

lemma interrupted_escape:
  "interrupted pl l bo so \<Longrightarrow> \<not> H \<Longrightarrow> rs_log st = B @ l \<Longrightarrow> stopped_with pl H B (Escaped e) st"
  by (auto simp: stopped_with_def)

lemma interrupted_fail:
  "interrupted pl l bo so \<Longrightarrow> ready pl H B l bo so st \<Longrightarrow> stopped_with pl H B (ActionFailed c) st"
  by (auto simp: stopped_with_def ready_def)

lemma fwd_step:
  assumes "s \<in> set (NEXT (recorded_state (B @ l)))" "s \<noteq> J_BACKED_UP" "s \<noteq> J_STAGED" "interrupted pl l bo so"
    and "\<And>j. job_state j = s \<Longrightarrow> triple (ready pl H B (l @ [Recorded s]) bo so) (f j) Q (stopped_with pl H B)"
  shows "triple (ready pl H B l bo so) (abind (jstep pl s c None None) f) Q (stopped_with pl H B)"
  using assms by (intro jstep_rule [where b' = None and a' = None]) (auto simp: set_digest_def interrupted_escape)

lemma fwd_staged:
  assumes "recorded_state (B @ l) = J_STAGING" "is_digest a" "interrupted pl l bo so"
    and "\<And>j. triple (ready pl H B (l @ [Recorded J_STAGED]) bo so) (f j) Q (stopped_with pl H B)"
  shows "triple (ready pl H B l bo so) (abind (jstep pl J_STAGED c None (Some a)) f) Q (stopped_with pl H B)"
  using assms
  by (intro jstep_rule [where b' = None and a' = "Some a"])
    (auto simp: set_digest_def interrupted_escape table_defs require_defs)

lemma fwd_backed_up:
  assumes "recorded_state (B @ l) = J_BACKUP_STARTED" "is_digest b" "interrupted pl l bo so"
    and "\<And>j. triple (ready pl H B (l @ [Recorded J_BACKED_UP]) bo so) (f j) Q (stopped_with pl H B)"
  shows "triple (ready pl H B l bo so) (abind (jstep pl J_BACKED_UP c (Some b) None) f) Q (stopped_with pl H B)"
  using assms
  by (intro jstep_rule [where b' = "Some b" and a' = None])
    (auto simp: set_digest_def interrupted_escape table_defs require_defs)

lemma fwd_action:
  assumes "interrupted pl (l @ [Called k]) bo so"
    and "\<And>a. triple (ready pl H B (l @ [Called k]) bo so) (f a) Q (stopped_with pl H B)"
  shows "triple (ready pl H B l bo so) (abind (action_call c k g) f) Q (stopped_with pl H B)"
  using assms by (intro action_rule [where R = "\<lambda>_. True"]) (auto intro: interrupted_fail)

lemma fwd_prepare:
  assumes "interrupted pl (l @ [Called k]) bo so"
    and "\<And>cand. is_digest (cand_archive_sha256 cand) \<Longrightarrow>
      triple (ready pl H B (l @ [Called k]) bo so) (f cand) Q (stopped_with pl H B)"
  shows "triple (ready pl H B l bo so) (abind (action_call c k (prepare host pl)) f) Q (stopped_with pl H B)"
  using assms
  by (intro action_rule [where R = "\<lambda>x. is_digest (cand_archive_sha256 x)"])
    (auto simp: prepare_def intro: interrupted_fail split: prod.splits option.splits if_splits)

lemma fwd_capture:
  assumes "interrupted pl (l @ [Called k]) bo so"
    and "\<And>b. is_digest (bk_manifest_sha256 b) \<Longrightarrow> receipt_ok pl (Some b) \<Longrightarrow>
      triple (ready pl H B (l @ [Called k]) bo so) (f b) Q (stopped_with pl H B)"
  shows "triple (ready pl H B l bo so) (abind (action_call c k (capture host pl)) f) Q (stopped_with pl H B)"
  using assms
  by (intro action_rule [where R = "\<lambda>x. is_digest (bk_manifest_sha256 x) \<and> receipt_ok pl (Some x)"])
    (auto simp: capture_def receipt_ok_def intro: interrupted_fail split: prod.splits option.splits if_splits)

lemma abind_assoc: "abind (abind m f) g = abind m (\<lambda>a. abind (f a) g)"
  by (auto simp: abind_def fun_eq_iff split: prod.splits sum.splits)

lemma fwd_current:
  assumes "interrupted pl (l @ [Called CurrentVersion]) bo so"
    and "triple (ready pl H B (l @ [Called CurrentVersion]) bo so) (f ()) Q (stopped_with pl H B)"
  shows "triple (ready pl H B l bo so) (abind (check_current host pl) f) Q (stopped_with pl H B)"
  unfolding check_current_def abind_assoc
proof (rule fwd_action [OF assms(1)])
  fix v
  show "triple (ready pl H B (l @ [Called CurrentVersion]) bo so)
    (abind (if v \<noteq> plan_current_version pl then araise (ActionFailed CURRENT_VERSION_CHANGED) else areturn ()) f)
    Q (stopped_with pl H B)"
    using assms(2) by (simp add: triple_raise interrupted_fail [OF assms(1)])
qed

lemma fwd_upgrade:
  assumes "is_version (plan_target_version pl)" "is_version (plan_current_version pl)" "interrupted pl l bo so"
    and "version_tuple (plan_current_version pl) < version_tuple (plan_target_version pl) \<Longrightarrow>
      triple (ready pl H B l bo so) (f ()) Q (stopped_with pl H B)"
  shows "triple (ready pl H B l bo so) (abind (check_upgrade pl) f) Q (stopped_with pl H B)"
proof -
  have "newer (plan_target_version pl) (plan_current_version pl) =
      Inr (version_tuple (plan_current_version pl) < version_tuple (plan_target_version pl))"
    using assms(1,2) by (simp add: newer_Inr)
  then show ?thesis
    using assms(4) by (simp add: check_upgrade_def triple_raise interrupted_fail [OF assms(3)])
qed

lemmas fwd_rules = fwd_upgrade fwd_current fwd_action fwd_step fwd_staged fwd_backed_up local_rules

text \<open>The whole body: the log is a prefix of the schedule and \<open>COMPLETE\<close> is reached only at its end.\<close>

lemma jstep_return: "abind (jstep pl s c b a) areturn = jstep pl s c b a"
  by (auto simp: abind_def areturn_def fun_eq_iff split: prod.splits sum.splits)

lemma forward_triple:
  assumes "is_version (plan_target_version pl)" "is_version (plan_current_version pl)"
    and "recorded_state B = J_REQUESTED"
  shows "triple (ready pl H B [] None False) (forward host pl)
    (\<lambda>j st. job_state j = J_COMPLETE \<and> (\<exists>bo. ready pl H B FORWARD bo True st)) (stopped_with pl H B)"
proof -
  note facts = recorded_state_append assms(3) table_defs interrupted_def FORWARD_def receipt_ok_def
  show ?thesis
    unfolding forward_def
    apply (subst jstep_return [symmetric, of pl J_COMPLETE None None None])
    apply (rule fwd_upgrade [OF assms(1,2)], simp add: facts)
    apply (rule fwd_current, simp add: facts)
    apply (rule fwd_action, simp add: facts)
    apply (rule fwd_step, simp add: facts, simp, simp, simp add: facts)
    apply (rule fwd_step, simp add: facts, simp, simp, simp add: facts)
    apply (rule fwd_prepare, simp add: facts)
    apply (rule fwd_staged, simp add: facts, assumption, simp add: facts)
    apply (rule fwd_current, simp add: facts)
    apply (rule fwd_action, simp add: facts)
    apply (rule fwd_step, simp add: facts, simp, simp, simp add: facts)
    apply (rule fwd_action, simp add: facts)
    apply (rule fwd_step, simp add: facts, simp, simp, simp add: facts)
    apply (rule fwd_step, simp add: facts, simp, simp, simp add: facts)
    apply (rule fwd_capture, simp add: facts)
    apply (rule local_rules)
    apply (rule fwd_backed_up, simp add: facts, assumption, simp add: facts)
    apply (rule fwd_step, simp add: facts, simp, simp, simp add: facts)
    apply (rule local_rules)
    apply (rule fwd_action, simp add: facts)
    apply (rule fwd_step, simp add: facts, simp, simp, simp add: facts)
    apply (rule fwd_action, simp add: facts)
    apply (rule fwd_step, simp add: facts, simp, simp, simp add: facts)
    apply (rule fwd_step, simp add: facts, simp, simp, simp add: facts)
    apply (rule triple_return)
    apply (auto simp: FORWARD_def)
    done
qed

section \<open>The handler\<close>

definition unfinished_prefix :: "nat \<Rightarrow> bool" where
  "unfinished_prefix n = (let l = take n FORWARD; s = recorded_state l in
     s \<notin> set TERMINAL \<and> s \<noteq> J_ROLLING_BACK \<and>
     (s \<in> set BEFORE_CUTOVER) = (Recorded J_STOP_REQUESTED \<notin> set l))"

lemma unfinished_prefixes: "list_all unfinished_prefix [0..<20]"
  by code_simp

lemma FORWARD_length: "length FORWARD = 20"
  by (simp add: FORWARD_def)

lemma interrupted_state:
  assumes "interrupted pl l bo so" "recorded_state B = J_REQUESTED"
  shows "recorded_state (B @ l) \<notin> set TERMINAL \<and> recorded_state (B @ l) \<noteq> J_ROLLING_BACK \<and>
    (recorded_state (B @ l) \<in> set BEFORE_CUTOVER \<longleftrightarrow> Recorded J_STOP_REQUESTED \<notin> set l)"
proof -
  have l: "l = take (length l) FORWARD" and nc: "Recorded J_COMPLETE \<notin> set l"
    using assms(1) by (auto simp: interrupted_def)
  have "length l < 20"
  proof (rule ccontr)
    assume "\<not> length l < 20"
    then have "l = FORWARD" using l by (metis FORWARD_length not_less take_all)
    then show False using nc by (simp add: FORWARD_def)
  qed
  then have "\<not> unfinished_prefix (length l) \<Longrightarrow> False"
    using unfinished_prefixes by (auto simp: list_all_iff)
  moreover have "recorded_state (B @ l) = recorded_state l"
    using assms(2) by (simp add: recorded_state_append recorded_state_def)
  ultimately show ?thesis using l by (auto simp: unfinished_prefix_def Let_def)
qed

definition rollback_tails :: "backup option \<Rightarrow> bool \<Rightarrow> entry list list" where
  "rollback_tails bo so =
     (let rb = Recorded J_ROLLING_BACK; re = Called (RestoreOriginal bo so); vo = Called VerifyOriginal;
          ma = Recorded J_MANUAL_ACTION_REQUIRED
      in [[], [rb], [rb, re], [rb, re, vo], [rb, re, ma], [rb, re, vo, ma], [rb, re, vo, Recorded J_RESTORED]])"

text \<open>A digest-free step seen from a tail of the log.\<close>

lemma plain_effect:
  assumes "ready pl H B l bo so st" "s \<in> set (NEXT (recorded_state (B @ l)))"
    and "s \<noteq> J_BACKED_UP" "s \<noteq> J_STAGED" "jstep pl s c None None st = (r, t)"
  shows "case r of Inl e \<Rightarrow> \<not> H \<and> (\<exists>u. e = Escaped u) \<and> rs_log t = B @ l
    | Inr j \<Rightarrow> job_state j = s \<and> ready pl H B (l @ [Recorded s]) bo so t"
  using assms by (intro jstep_effect [where b' = None and a' = None]) (auto simp: set_digest_def)

text \<open>Restoring: the two host calls, then the record of their outcome.\<close>

lemma restore_effect:
  assumes "ready pl H B l bo so st" "recorded_state (B @ l) = J_ROLLING_BACK"
    and "abind (action_call RESTORE_FAILED (RestoreOriginal bo so) (h_restore_original host pl bo so))
           (\<lambda>_. action_call RESTORE_FAILED VerifyOriginal (h_verify_original host pl)) st = (r, t)"
  shows "case r of
      Inl e \<Rightarrow> e = ActionFailed RESTORE_FAILED \<and>
        (ready pl H B (l @ [Called (RestoreOriginal bo so)]) bo so t \<or>
         ready pl H B (l @ [Called (RestoreOriginal bo so), Called VerifyOriginal]) bo so t)
    | Inr _ \<Rightarrow> ready pl H B (l @ [Called (RestoreOriginal bo so), Called VerifyOriginal]) bo so t"
proof -
  obtain r1 st1 where a: "action_call RESTORE_FAILED (RestoreOriginal bo so) (h_restore_original host pl bo so) st = (r1, st1)"
    by fastforce
  note e1 = action_effect [OF assms(1) a]
  show ?thesis
  proof (cases r1)
    case (Inl e)
    then show ?thesis using e1 a assms(3) by (auto simp: abind_def)
  next
    case (Inr u)
    then have v: "action_call RESTORE_FAILED VerifyOriginal (h_verify_original host pl) st1 = (r, t)"
      using a assms(3) by (simp add: abind_def)
    show ?thesis using action_effect [OF conjunct1 [OF e1] v] by (auto split: sum.splits)
  qed
qed

lemma roll_back_effect:
  assumes "ready pl H B l bo so st" "J_ROLLING_BACK \<in> set (NEXT (recorded_state (B @ l)))"
    and "roll_back host pl c st = (r, t)"
  shows "\<exists>tail \<in> set (rollback_tails bo so). rs_log t = B @ l @ tail \<and>
    (case r of Inl e \<Rightarrow> \<not> H \<and> (\<exists>u. e = Escaped u)
     | Inr j \<Rightarrow> (job_state j = J_RESTORED \<or> job_state j = J_MANUAL_ACTION_REQUIRED) \<and>
         tail \<noteq> [] \<and> last tail = Recorded (job_state j) \<and> ready pl H B (l @ tail) bo so t)"
proof -
  obtain r1 st1 where j: "jstep pl J_ROLLING_BACK (Some c) None None st = (r1, st1)" by fastforce
  note e1 = plain_effect [OF assms(1,2) _ _ j]
  show ?thesis
  proof (cases r1)
    case (Inl e)
    then show ?thesis using e1 j assms(3)
      by (auto simp: roll_back_def abind_def rollback_tails_def Let_def intro!: bexI [of _ "[]"])
  next
    case (Inr k)
    let ?l = "l @ [Recorded J_ROLLING_BACK]"
    have rd: "ready pl H B ?l bo so st1" using e1 Inr by simp
    then have loc: "rs_backup st1 = bo" "rs_started st1 = so" by (simp_all add: ready_def)
    have rb: "recorded_state (B @ ?l) = J_ROLLING_BACK" by (simp add: recorded_state_def)
    obtain r2 st2 where ab: "abind (action_call RESTORE_FAILED (RestoreOriginal bo so) (h_restore_original host pl bo so))
           (\<lambda>_. action_call RESTORE_FAILED VerifyOriginal (h_verify_original host pl)) st1 = (r2, st2)" by fastforce
    note e2 = restore_effect [OF rd rb ab]
    let ?s = "case r2 of Inl _ \<Rightarrow> J_MANUAL_ACTION_REQUIRED | Inr _ \<Rightarrow> J_RESTORED"
    let ?c = "case r2 of Inl _ \<Rightarrow> Some RESTORE_FAILED | Inr _ \<Rightarrow> Some c"
    have fin: "jstep pl ?s ?c None None st2 = (r, t)"
      using assms(3) j Inr ab loc e2 by (auto simp: roll_back_def abind_def split: sum.splits)
    obtain l2 where l2: "ready pl H B (?l @ l2) bo so st2"
        "l2 = [Called (RestoreOriginal bo so), Called VerifyOriginal] \<or>
         (l2 = [Called (RestoreOriginal bo so)] \<and> ?s = J_MANUAL_ACTION_REQUIRED)"
      using e2 by (auto split: sum.splits)
    have st: "recorded_state (B @ ?l @ l2) = J_ROLLING_BACK" using l2(2) by (auto simp: recorded_state_def)
    have "?s \<in> set (NEXT (recorded_state (B @ ?l @ l2)))" "?s \<noteq> J_BACKED_UP" "?s \<noteq> J_STAGED"
      using st by (auto simp: table_defs split: sum.splits)
    note e3 = plain_effect [OF l2(1) this fin]
    show ?thesis
    proof (cases r)
      case (Inl e)
      then show ?thesis using e3 l2(2)
        by (auto simp: rollback_tails_def Let_def)
    next
      case (Inr k)
      then show ?thesis using e3 l2(2)
        by (auto simp: rollback_tails_def Let_def split: sum.splits) (auto simp: ready_def)
    qed
  qed
qed

lemma on_failure_effect:
  assumes "ready pl H B l bo so st" "interrupted pl l bo so" "recorded_state B = J_REQUESTED"
    and "on_failure host pl c st = (r, t)"
  shows "(\<exists>tail \<in> set ([Recorded J_FAILED] # rollback_tails bo so). rs_log t = B @ l @ tail \<and>
    (tail = [Recorded J_FAILED] \<longrightarrow> Recorded J_STOP_REQUESTED \<notin> set l) \<and>
    (Recorded J_ROLLING_BACK \<in> set tail \<longrightarrow> Recorded J_STOP_REQUESTED \<in> set l) \<and>
    (case r of Inl e \<Rightarrow> \<not> H \<and> (\<exists>u. e = Escaped u)
     | Inr j \<Rightarrow> job_state j \<in> {J_FAILED, J_RESTORED, J_MANUAL_ACTION_REQUIRED} \<and>
         tail \<noteq> [] \<and> last tail = Recorded (job_state j) \<and> ready pl H B (l @ tail) bo so t))"
proof -
  note state = interrupted_state [OF assms(2,3)]
  obtain k where k: "job_of (rs_journal st) (plan_request_id pl) = Some k" "job_state k = recorded_state (B @ l)"
    using assms(1) by (auto simp: ready_def)
  then obtain js where js: "jn_read (rs_journal st) = Inr js" "find_job (plan_request_id pl) js = Some k"
    by (auto simp: job_of_def split: sum.splits)
  show ?thesis
  proof (cases "recorded_state (B @ l) \<in> set BEFORE_CUTOVER")
    case True
    then have j: "jstep pl J_FAILED (Some c) None None st = (r, t)"
      using assms(4) js k(2) by (simp add: on_failure_def)
    have "J_FAILED \<in> set (NEXT (recorded_state (B @ l)))" using True by (auto simp: table_defs)
    note e = plain_effect [OF assms(1) this _ _ j]
    show ?thesis
    proof (cases r)
      case (Inl x)
      then show ?thesis using e by (auto simp: rollback_tails_def Let_def)
    next
      case (Inr y)
      then have "job_state y = J_FAILED" "ready pl H B (l @ [Recorded J_FAILED]) bo so t" using e by auto
      then show ?thesis using Inr True state by (auto simp: ready_def intro!: bexI [of _ "[Recorded J_FAILED]"])
    qed
  next
    case False
    then have rb: "roll_back host pl c st = (r, t)" using assms(4) js k(2) by (simp add: on_failure_def)
    have "J_ROLLING_BACK \<in> set (NEXT (recorded_state (B @ l)))" using False state by (simp add: NEXT_def)
    from roll_back_effect [OF assms(1) this rb] show ?thesis
      using False state
      by (elim bexE) (rule bexI, auto simp: rollback_tails_def Let_def split: sum.splits)
  qed
qed

section \<open>A whole run\<close>

text \<open>What must precede each entry of a log; a restore must pass the verified backup once a candidate may run.\<close>

fun needs :: "entry \<Rightarrow> entry list" where
  "needs (Called StopOriginal) = [Recorded J_STAGED, Recorded J_STOP_REQUESTED]"
| "needs (Called BackupOriginal) = [Recorded J_STOPPED, Recorded J_BACKUP_STARTED]"
| "needs (Called StartCandidate) = [Recorded J_BACKED_UP, Recorded J_START_REQUESTED]"
| "needs (Called (RestoreOriginal bo so)) = [Recorded J_STOP_REQUESTED, Recorded J_ROLLING_BACK]"
| "needs (Recorded J_COMPLETE) = [Called VerifyCandidate]"
| "needs (Recorded J_RESTORED) = [Called VerifyOriginal]"
| "needs _ = []"

fun restores_backup :: "entry \<Rightarrow> bool" where
  "restores_backup (Called (RestoreOriginal bo so)) = (so \<and> bo \<noteq> None)"
| "restores_backup _ = True"

fun write_ahead :: "entry list \<Rightarrow> entry list \<Rightarrow> bool" where
  "write_ahead seen [] = True"
| "write_ahead seen (e # es) =
     (set (needs e) \<subseteq> set seen \<and> (Called StartCandidate \<in> set seen \<longrightarrow> restores_backup e) \<and>
      write_ahead (e # seen) es)"

lemma write_ahead_append: "write_ahead seen (l @ m) \<longleftrightarrow> write_ahead seen l \<and> write_ahead (rev l @ seen) m"
  by (induction l arbitrary: seen) auto

lemma write_ahead_FORWARD: "write_ahead [] (take n FORWARD)"
proof -
  have "write_ahead [] FORWARD" by (simp add: FORWARD_def)
  then show ?thesis using write_ahead_append [of "[]" "take n FORWARD" "drop n FORWARD"] by simp
qed

lemma write_ahead_interrupted:
  assumes "interrupted pl l bo so" "tail \<in> set ([Recorded J_FAILED] # rollback_tails bo so)"
    and "Recorded J_ROLLING_BACK \<in> set tail \<Longrightarrow> Recorded J_STOP_REQUESTED \<in> set l"
  shows "write_ahead [] (l @ tail)"
proof -
  have l: "write_ahead [] l" using assms(1) write_ahead_FORWARD [of "length l"] by (simp add: interrupted_def)
  have "Called StartCandidate \<in> set l \<Longrightarrow> so \<and> bo \<noteq> None"
    using assms(1) by (cases bo) (auto simp: interrupted_def receipt_ok_def)
  then show ?thesis
    using l assms(2,3) by (auto simp: write_ahead_append rollback_tails_def Let_def)
qed

lemma needs_before:
  "write_ahead seen l \<Longrightarrow> e \<in> set l \<Longrightarrow> set (needs e) \<subseteq> set seen \<union> set l"
  by (induction l arbitrary: seen) fastforce+

lemma recorded_last: "l \<noteq> [] \<Longrightarrow> last l = Recorded s \<Longrightarrow> recorded_state (B @ l) = s"
  by (cases l rule: rev_cases) (auto simp: recorded_state_def)

text \<open>What a run leaves behind: its part of the log, the recorded job and the answer.\<close>

definition run_ended :: "plan \<Rightarrow> bool \<Rightarrow> entry list \<Rightarrow> rerr + public_view \<Rightarrow> journal \<Rightarrow> bool" where
  "run_ended pl H l r jn = (write_ahead [] l \<and>
    (case r of Inl e \<Rightarrow> \<not> H
     | Inr v \<Rightarrow> l \<noteq> [] \<and> last l = Recorded (pub_state v) \<and> pub_state v \<in> set TERMINAL \<and>
         (\<exists>k. job_of jn (plan_request_id pl) = Some k \<and> job_state k = pub_state v) \<and>
         (H \<longrightarrow> healthy jn) \<and>
         (pub_state v = J_COMPLETE \<longrightarrow> l = FORWARD) \<and>
         (pub_state v = J_FAILED \<longrightarrow> Called StopOriginal \<notin> set l)))"

lemma failure_ends:
  assumes "ready pl H B l bo so st" "interrupted pl l bo so" "recorded_state B = J_REQUESTED"
    and "on_failure host pl c st = (r, t)"
  shows "\<exists>l'. rs_log t = B @ l' \<and>
    run_ended pl H l' (case r of Inl x \<Rightarrow> Inl x | Inr j \<Rightarrow> Inr (public_job j)) (rs_journal t)"
proof -
  from on_failure_effect [OF assms] obtain tail where
    tail: "tail \<in> set ([Recorded J_FAILED] # rollback_tails bo so)" "rs_log t = B @ l @ tail"
      "tail = [Recorded J_FAILED] \<longrightarrow> Recorded J_STOP_REQUESTED \<notin> set l"
      "Recorded J_ROLLING_BACK \<in> set tail \<longrightarrow> Recorded J_STOP_REQUESTED \<in> set l"
    and res: "case r of Inl e \<Rightarrow> \<not> H \<and> (\<exists>u. e = Escaped u)
       | Inr j \<Rightarrow> job_state j \<in> {J_FAILED, J_RESTORED, J_MANUAL_ACTION_REQUIRED} \<and>
           tail \<noteq> [] \<and> last tail = Recorded (job_state j) \<and> ready pl H B (l @ tail) bo so t"
    by blast
  have wa: "write_ahead [] (l @ tail)" using write_ahead_interrupted [OF assms(2) tail(1)] tail(4) by blast
  show ?thesis
  proof (cases r)
    case (Inl x)
    then show ?thesis using wa res tail(2) by (auto simp: run_ended_def)
  next
    case (Inr j)
    have stop: "Called StopOriginal \<notin> set (l @ tail)" if "job_state j = J_FAILED"
    proof -
      have "tail = [Recorded J_FAILED]" using that tail(1) res Inr by (auto simp: rollback_tails_def Let_def)
      moreover have "write_ahead [] l" using wa by (simp add: write_ahead_append)
      ultimately show ?thesis using tail(3) needs_before [of "[]" l "Called StopOriginal"] by auto
    qed
    have "recorded_state (B @ l @ tail) = job_state j"
      using res Inr recorded_last [of "l @ tail" "job_state j" B] by auto
    then show ?thesis using wa res Inr tail(2) stop
      by (auto simp: run_ended_def public_job_def TERMINAL_def ready_def)
  qed
qed

definition fresh_run :: "plan \<Rightarrow> 'h rstate \<Rightarrow> bool" where
  "fresh_run pl st = (recorded_state (rs_log st) = J_REQUESTED \<and> is_version (plan_target_version pl) \<and>
     is_version (plan_current_version pl) \<and>
     (case job_of (rs_journal st) (plan_request_id pl) of None \<Rightarrow> False | Some k \<Rightarrow> job_state k = J_REQUESTED))"

lemma run_plan_effect:
  assumes "fresh_run pl st" "run_plan host pl st = (r, t)" "H \<longrightarrow> healthy (rs_journal st)"
  shows "\<exists>l. rs_log t = rs_log st @ l \<and> run_ended pl H l r (rs_journal t)"
proof -
  let ?st = "st\<lparr>rs_backup := None, rs_started := False\<rparr>" and ?B = "rs_log st"
  have B: "recorded_state ?B = J_REQUESTED" and v: "is_version (plan_target_version pl)" "is_version (plan_current_version pl)"
    using assms(1) by (auto simp: fresh_run_def)
  have rd: "ready pl H ?B [] None False ?st"
    using assms(1,3) by (auto simp: fresh_run_def ready_def split: option.splits)
  obtain r1 st1 where f: "forward host pl ?st = (r1, st1)" by fastforce
  note fw = triple_apply [OF forward_triple [OF v B] rd f]
  show ?thesis
  proof (cases r1)
    case (Inr j)
    then have "job_state j = J_COMPLETE" "\<exists>bo. ready pl H ?B FORWARD bo True st1" "r = Inr (public_job j)" "t = st1"
      using fw assms(2) f by (auto simp: run_plan_def)
    then show ?thesis using write_ahead_FORWARD [of 20]
      by (auto simp: run_ended_def ready_def public_job_def TERMINAL_def FORWARD_def recorded_state_def)
  next
    case (Inl e)
    then obtain l bo so where l: "rs_log st1 = ?B @ l" "interrupted pl l bo so"
        "case e of Escaped _ \<Rightarrow> \<not> H | ActionFailed _ \<Rightarrow> ready pl H ?B l bo so st1"
      using fw by (auto simp: stopped_with_def)
    show ?thesis
    proof (cases e)
      case (Escaped u)
      then have "r = Inl e" "t = st1" using Inl f assms(2) by (auto simp: run_plan_def)
      then show ?thesis using l Escaped write_ahead_FORWARD [of "length l"]
        by (simp add: interrupted_def run_ended_def)
    next
      case (ActionFailed c)
      obtain r2 t2 where o: "on_failure host pl c st1 = (r2, t2)" by fastforce
      then have t: "t = t2" "r = (case r2 of Inl x \<Rightarrow> Inl x | Inr j \<Rightarrow> Inr (public_job j))"
        using ActionFailed Inl f assms(2) by (auto simp: run_plan_def abind_def areturn_def split: sum.splits)
      have "ready pl H ?B l bo so st1" using l(3) ActionFailed by simp
      from failure_ends [OF this l(2) B o] show ?thesis using t by simp
    qed
  qed
qed

end
