(* ===== verification/UpdateRunLaws.thy ===== *)
theory UpdateRunLaws
  imports UpdateTransactionLaws
begin

text \<open>
  What a whole request does to the journal: invariants that every transition keeps are
  kept by a run and by the service, an answer is the recorded job, and the log of an
  execution is the log of its reservation followed by that of its run.
\<close>

section \<open>What a run keeps of the journal\<close>

lemma jstep_keeps:
  assumes "\<And>rid s c b a. keeps P (jn_transition rid s c b a)"
  shows "keeps (\<lambda>st. P (rs_journal st)) (jstep pl s c b a)"
proof (rule keepsI)
  fix st :: "'a rstate"
  assume "P (rs_journal st)"
  then have "P (snd (jn_transition (plan_request_id pl) s c b a (rs_journal st)))" by (rule keepsD [OF assms])
  then show "P (rs_journal (snd (jstep pl s c b a st)))" by (auto simp: jstep_def split: prod.splits sum.splits)
qed

lemma action_keeps: "keeps (\<lambda>st. P (rs_journal st)) (action_call c k g)"
  by (rule keepsI) (auto simp: action_call_def Let_def split: prod.splits option.splits)

lemma local_keeps:
  "keeps (\<lambda>st. P (rs_journal st)) (set_backup bk)" "keeps (\<lambda>st. P (rs_journal st)) set_started"
  "keeps (\<lambda>st. P (rs_journal st)) (check_upgrade pl)" "keeps (\<lambda>st. P (rs_journal st)) (check_current host pl)"
  by (auto simp: keeps_def set_backup_def set_started_def check_upgrade_def check_current_def areturn_def araise_def
      abind_def action_call_def Let_def split: sum.splits prod.splits option.splits)

lemma forward_keeps:
  assumes "\<And>rid s c b a. keeps P (jn_transition rid s c b a)"
  shows "keeps (\<lambda>st. P (rs_journal st)) (forward host pl)"
  unfolding forward_def by (intro keeps_bind local_keeps action_keeps jstep_keeps assms)

lemma roll_back_keeps:
  assumes "\<And>rid s c b a. keeps P (jn_transition rid s c b a)"
  shows "keeps (\<lambda>st. P (rs_journal st)) (roll_back host pl c)"
  unfolding roll_back_def
proof (rule keeps_bind [OF jstep_keeps [OF assms]], rule keepsI)
  fix j and st :: "'a rstate"
  let ?m = "abind (action_call RESTORE_FAILED (RestoreOriginal (rs_backup st) (rs_started st))
        (h_restore_original host pl (rs_backup st) (rs_started st)))
      (\<lambda>_. action_call RESTORE_FAILED VerifyOriginal (h_verify_original host pl))"
  obtain r st1 where m: "?m st = (r, st1)" by fastforce
  assume "P (rs_journal st)"
  moreover have "keeps (\<lambda>st. P (rs_journal st)) ?m" by (intro keeps_bind action_keeps)
  ultimately have "P (rs_journal st1)" using m by (auto simp: keeps_def)
  then have "P (rs_journal (snd (jstep pl s d b a st1)))" for s d b a by (rule keepsD [OF jstep_keeps [OF assms]])
  then show "P (rs_journal (snd (case ?m st of
      (Inl (ActionFailed _), st') \<Rightarrow> jstep pl J_MANUAL_ACTION_REQUIRED (Some RESTORE_FAILED) None None st'
    | (Inl e, st') \<Rightarrow> (Inl e, st') | (Inr _, st') \<Rightarrow> jstep pl J_RESTORED (Some c) None None st')))"
    using m \<open>P (rs_journal st1)\<close> by (auto split: sum.splits rerr.splits)
qed

lemma on_failure_keeps:
  assumes "\<And>rid s c b a. keeps P (jn_transition rid s c b a)"
  shows "keeps (\<lambda>st. P (rs_journal st)) (on_failure host pl c)"
proof (rule keepsI)
  fix st :: "'a rstate"
  assume "P (rs_journal st)"
  note this [THEN keepsD [OF jstep_keeps [OF assms]]] this [THEN keepsD [OF roll_back_keeps [OF assms]]] this
  then show "P (rs_journal (snd (on_failure host pl c st)))"
    by (auto simp: on_failure_def split: sum.splits option.splits)
qed

lemma run_keeps:
  assumes "\<And>rid s c b a. keeps P (jn_transition rid s c b a)"
  shows "keeps (\<lambda>st. P (rs_journal st)) (run_plan host pl)"
proof (rule keepsI)
  fix st :: "'a rstate"
  let ?st = "st\<lparr>rs_backup := None, rs_started := False\<rparr>"
  obtain r1 st1 where f: "forward host pl ?st = (r1, st1)" by fastforce
  assume "P (rs_journal st)"
  then have "P (rs_journal (snd (forward host pl ?st)))" by (intro keepsD [OF forward_keeps [OF assms]]) simp
  then have st1: "P (rs_journal st1)" using f by simp
  then have "P (rs_journal (snd (abind (on_failure host pl c) (\<lambda>j. areturn (public_job j)) st1)))" for c
    by (rule keepsD [OF keeps_bind [OF on_failure_keeps [OF assms] keeps_trivial(1)]])
  then show "P (rs_journal (snd (run_plan host pl st)))"
    using f st1 by (auto simp: run_plan_def split: sum.splits rerr.splits)
qed

section \<open>The recorded request\<close>

text \<open>\<open>on_file r jn\<close>: the journal has a job of this request with the request's versions.\<close>

definition on_file :: "request \<Rightarrow> journal \<Rightarrow> bool" where
  "on_file r jn = (case job_of jn (req_request_id r) of None \<Rightarrow> False
     | Some k \<Rightarrow> job_target_version k = req_target_version r \<and>
         job_expected_current_version k = req_expected_current_version r)"

lemma find_job_replace:
  "find_job rid (replace_job j js) = (case find_job rid js of None \<Rightarrow> None
     | Some k \<Rightarrow> Some (if job_request_id k = job_request_id j then j else k))"
  by (induction js) (auto simp: find_job_def replace_job_def split: option.splits)

lemma jn_transition_disk:
  assumes "jn_transition rid s c b a jn = (r, jn')"
  shows "jn_disk jn' = jn_disk jn \<or> (\<exists>js j b' a'. jn_read jn = Inr js \<and> find_job rid js = Some j \<and>
    (let j' = advance s (jn_clock jn (jn_ticks jn)) c b' a' j
     in jn_read jn' = Inr (replace_job j' js)))"
proof -
  have "jn_disk jn' = jn_disk jn \<or> valid_journal js \<and> jn_disk jn' = stored js"
    if "abind (jn_save js) (\<lambda>_. areturn j) jn = (r, jn')" for js and j :: job
    using that jn_save_cases [of js jn]
    by (auto simp: abind_def areturn_def split: prod.splits sum.splits)
  then show ?thesis using assms jn_read_stored [of _ jn']
    unfolding jn_transition_def Let_def
    by (auto split: sum.splits option.splits if_splits) blast
qed

lemma jn_transition_frame:
  assumes "jn_transition rid s c b a jn = (r, jn')"
  shows "jn_locked jn' = jn_locked jn" "jn_foreign_lock jn' = jn_foreign_lock jn"
    and "r = Inr j \<Longrightarrow> \<not> jn_io_failed jn'"
proof -
  have f: "jn_locked jn' = jn_locked jn \<and> jn_foreign_lock jn' = jn_foreign_lock jn \<and> (r = Inr j \<longrightarrow> \<not> jn_io_failed jn')"
    if "abind (jn_save js) (\<lambda>_. areturn k) jn = (r, jn')" for js and k :: job
  proof -
    obtain r' jn'' where sv: "jn_save js jn = (r', jn'')" by fastforce
    show ?thesis using jn_save_frame [OF sv] that sv
      by (auto simp: abind_def areturn_def split: sum.splits)
  qed
  show "jn_locked jn' = jn_locked jn" "jn_foreign_lock jn' = jn_foreign_lock jn"
    using assms f by (auto simp: jn_transition_def Let_def split: sum.splits option.splits if_splits)
  show "r = Inr j \<Longrightarrow> \<not> jn_io_failed jn'"
    using assms f by (auto simp: jn_transition_def Let_def split: sum.splits option.splits if_splits)
qed

lemma transition_keeps:
  "keeps (on_file r) (jn_transition rid s c b a)"
  "keeps good (jn_transition rid s c b a)"
  "keeps (\<lambda>jn. jn_locked jn = x) (jn_transition rid s c b a)"
  "keeps (\<lambda>jn. jn_foreign_lock jn = x) (jn_transition rid s c b a)"
proof -
  show "keeps (on_file r) (jn_transition rid s c b a)"
  proof (rule keepsI)
    fix jn
    assume on: "on_file r jn"
    obtain res jn' where t: "jn_transition rid s c b a jn = (res, jn')" by fastforce
    show "on_file r (snd (jn_transition rid s c b a jn))"
    proof (cases "jn_disk jn' = jn_disk jn")
      case True
      then show ?thesis using on t jn_read_cong [of jn' jn] by (simp add: on_file_def job_of_def)
    next
      case False
      then obtain js j b' a' where js: "jn_read jn = Inr js" "find_job rid js = Some j"
        "jn_read jn' = Inr (replace_job (advance s (jn_clock jn (jn_ticks jn)) c b' a' j) js)"
        using jn_transition_disk [OF t] by (auto simp: Let_def)
      obtain k where k: "find_job (req_request_id r) js = Some k" "job_target_version k = req_target_version r"
        "job_expected_current_version k = req_expected_current_version r"
        using on js(1) by (auto simp: on_file_def job_of_def split: option.splits)
      have "job_request_id k = job_request_id j \<Longrightarrow> k = j"
        using find_job_Some [OF js(2)] find_job_Some [OF k(1)] js(2) k(1) by simp
      then show ?thesis using t js(3) k by (auto simp: on_file_def job_of_def find_job_replace advance_def)
    qed
  qed
  show "keeps good (jn_transition rid s c b a)" by (simp add: keeps_def jn_transition_good)
  show "keeps (\<lambda>jn. jn_locked jn = x) (jn_transition rid s c b a)"
    "keeps (\<lambda>jn. jn_foreign_lock jn = x) (jn_transition rid s c b a)"
    by (auto simp: keeps_def) (metis jn_transition_frame(1,2) prod.collapse)+
qed

lemmas run_plan_keeps = run_keeps [OF transition_keeps(1)] run_keeps [OF transition_keeps(2)]
  run_keeps [OF transition_keeps(3)] run_keeps [OF transition_keeps(4)]

section \<open>The answer is the recorded job\<close>

definition settled :: "string \<Rightarrow> job \<Rightarrow> journal \<Rightarrow> bool" where
  "settled rid j jn = (job_of jn rid = Some j \<and> \<not> jn_io_failed jn)"

lemma jstep_settled: "jstep pl s c b a st = (Inr j, st') \<Longrightarrow> settled (plan_request_id pl) j (rs_journal st')"
  by (auto simp: jstep_def settled_def jn_transition_frame(3) dest: jn_transition_recorded split: prod.splits sum.splits)

lemma abind_InrD: "abind m f s = (Inr b, t) \<Longrightarrow> \<exists>a s'. m s = (Inr a, s') \<and> f a s' = (Inr b, t)"
  by (auto simp: abind_def split: prod.splits sum.splits)

lemma forward_settled: "forward host pl st = (Inr j, st') \<Longrightarrow> settled (plan_request_id pl) j (rs_journal st')"
  unfolding forward_def by (elim abind_InrD [elim_format] exE conjE) (rule jstep_settled)

lemma on_failure_settled:
  assumes "on_failure host pl c st = (Inr j, st')"
  shows "settled (plan_request_id pl) j (rs_journal st')"
proof -
  have "roll_back host pl c st = (Inr j, st') \<Longrightarrow> ?thesis"
    unfolding roll_back_def
    by (drule abind_InrD, elim exE conjE)
      (auto intro: jstep_settled split: prod.split_asm sum.split_asm rerr.split_asm)
  then show ?thesis using assms
    by (auto simp: on_failure_def jstep_settled split: sum.splits option.splits if_splits)
qed

lemma run_plan_settled:
  assumes "run_plan host pl st = (Inr v, st')"
  shows "\<exists>j. v = public_job j \<and> settled (plan_request_id pl) j (rs_journal st')"
  using assms forward_settled [of host pl] on_failure_settled [of host pl]
  by (fastforce simp: run_plan_def areturn_def Let_def split: prod.splits sum.splits rerr.splits dest!: abind_InrD)

section \<open>Execution of a request\<close>

lemma jn_begin_created:
  assumes "jn_begin r jn = (Inr (j, True), jn')"
  shows "job_of jn' (req_request_id r) = Some j" "job_state j = J_REQUESTED" "on_file r jn'" "jn_foreign_lock jn' = jn_foreign_lock jn"
proof -
  obtain js where js: "jn_read jn = Inr js" "find_job (req_request_id r) js = None"
    and j: "j = new_job r (jn_clock jn (jn_ticks jn))" and sv: "jn_save (js @ [j]) jn = (Inr (), jn')"
    using assms
    by (auto simp: jn_begin_def Let_def areturn_def split: sum.splits option.splits if_splits dest!: abind_InrD)
  have "jn_read jn' = Inr (js @ [j])"
    using jn_save_cases [OF sv] jn_read_stored by auto
  moreover have "find (\<lambda>j. job_request_id j = req_request_id r) (js @ [j]) = Some j"
    using js(2) by (intro find_snoc) (auto simp: find_job_None new_job_def j image_def)
  ultimately show f: "job_of jn' (req_request_id r) = Some j" by (simp add: job_of_def find_job_def)
  then show "job_state j = J_REQUESTED" "on_file r jn'" by (simp_all add: on_file_def j new_job_def)
  show "jn_foreign_lock jn' = jn_foreign_lock jn" using jn_save_frame [OF sv] by simp
qed

lemma jn_begin_found:
  assumes "jn_begin r jn = (Inr (j, False), jn')"
  shows "jn' = jn" "job_of jn (req_request_id r) = Some j" "on_file r jn"
  using assms
  by (auto simp: jn_begin_def Let_def areturn_def on_file_def job_of_def
      split: sum.splits option.splits if_splits dest!: abind_InrD)

lemma mk_plan_Inr:
  "mk_plan rid tv cv = Inr pl \<longleftrightarrow> is_request_id rid \<and> is_version tv \<and> is_version cv \<and>
     pl = \<lparr>plan_request_id = rid, plan_target_version = tv, plan_current_version = cv\<rparr>"
  by (auto simp: mk_plan_def require_defs rbind_Inr_iff)

text \<open>The part of the log an execution adds before its run.\<close>

definition reservation :: "bool \<Rightarrow> entry list" where
  "reservation ack = Recorded J_REQUESTED # (if ack then [Acknowledged J_REQUESTED] else [])"

lemma write_ahead_mono:
  "write_ahead seen l \<Longrightarrow> set seen \<subseteq> set seen' \<Longrightarrow>
   Called StartCandidate \<in> set seen' \<longrightarrow> Called StartCandidate \<in> set seen \<Longrightarrow> write_ahead seen' l"
proof (induction l arbitrary: seen seen')
  case Nil
  then show ?case by simp
next
  case (Cons e l)
  have "set (e # seen) \<subseteq> set (e # seen')"
    "Called StartCandidate \<in> set (e # seen') \<longrightarrow> Called StartCandidate \<in> set (e # seen)"
    using Cons.prems(2,3) by auto
  then have "write_ahead (e # seen') l" using Cons.IH [of "e # seen" "e # seen'"] Cons.prems(1) by simp
  then show ?case using Cons.prems by auto
qed

lemma write_ahead_reservation: "write_ahead [] l \<Longrightarrow> write_ahead [] (reservation ack @ l)"
proof -
  assume "write_ahead [] l"
  then have "write_ahead (rev (reservation ack)) l" by (rule write_ahead_mono) (auto simp: reservation_def)
  moreover have "write_ahead [] (reservation ack)" by (simp add: reservation_def)
  ultimately show ?thesis by (simp add: write_ahead_append)
qed

lemma recorded_reservation: "recorded_state (B @ reservation ack) = J_REQUESTED"
  by (simp add: recorded_state_def reservation_def)

definition replayed :: "bool \<Rightarrow> job \<Rightarrow> 'h rstate \<Rightarrow> 'h rstate" where
  "replayed ack j st = (if ack then st\<lparr>rs_log := rs_log st @ [Acknowledged (job_state j)]\<rparr> else st)"

definition planned :: "request \<Rightarrow> plan" where
  "planned r = \<lparr>plan_request_id = req_request_id r, plan_target_version = req_target_version r,
     plan_current_version = req_expected_current_version r\<rparr>"

text \<open>The state from which a new request's run starts, seen from the state before the reservation.\<close>

definition reserved :: "request \<Rightarrow> bool \<Rightarrow> 'h rstate \<Rightarrow> 'h rstate \<Rightarrow> bool" where
  "reserved r ack st st1 = (rs_log st1 = rs_log st @ reservation ack \<and> rs_host st1 = rs_host st \<and>
     fresh_run (planned r) st1 \<and> on_file r (rs_journal st1) \<and>
     jn_foreign_lock (rs_journal st1) = jn_foreign_lock (rs_journal st) \<and>
     (good (rs_journal st) \<longrightarrow> good (rs_journal st1)) \<and>
     (\<exists>j. jn_begin r (rs_journal st) = (Inr (j, True), rs_journal st1)))"

lemma execute_body_cases:
  assumes "mk_plan (req_request_id r) (req_target_version r) (req_expected_current_version r) = Inr pl"
    and "execute_body executor r pl ack st = (res, t)"
  obtains (refused) e where "res = Inl e" "rs_log t = rs_log st" "rs_host t = rs_host st"
      "good (rs_journal st) \<longrightarrow> good (rs_journal t)"
    | (replay) j host where "executor = Some host" "jn_begin r (rs_journal st) = (Inr (j, False), rs_journal st)"
      "res = Inr (public_job j)" "t = replayed ack j st"
    | (ran) host st1 where "executor = Some host" "reserved r ack st st1" "run_plan host (planned r) st1 = (res, t)"
proof (cases executor)
  case None
  then show ?thesis using assms(2) by (intro refused) (auto simp: execute_body_def araise_def)
next
  case (Some host)
  have pl: "pl = planned r" "is_version (req_target_version r)" "is_version (req_expected_current_version r)"
    using assms(1) by (auto simp: mk_plan_Inr planned_def)
  obtain b jn where b: "jn_begin r (rs_journal st) = (b, jn)" by fastforce
  have g: "good (rs_journal st) \<longrightarrow> good jn" using jn_begin_good [of "rs_journal st" r] b by simp
  note defs = execute_body_def reserve_def acknowledge_def abind_def areturn_def Some b
  consider e where "b = Inl e" | j where "b = Inr (j, False)" | j where "b = Inr (j, True)"
    by (cases b) auto
  then show ?thesis
  proof cases
    case 1
    then show ?thesis using assms(2) g by (intro refused) (auto simp: defs)
  next
    case 2
    then have "jn = rs_journal st" using jn_begin_found(1) b by blast
    then show ?thesis using 2 assms(2) Some b by (intro replay) (auto simp: defs replayed_def)
  next
    case 3
    let ?st1 = "st\<lparr>rs_journal := jn, rs_log := rs_log st @ reservation ack\<rparr>"
    note cr = jn_begin_created [OF b [unfolded 3]]
    have "reserved r ack st ?st1"
      using cr pl(2,3) g b 3
      by (auto simp: reserved_def fresh_run_def recorded_reservation planned_def)
    moreover have "run_plan host (planned r) ?st1 = (res, t)"
      using assms(2) 3 cr(2) pl(1) by (auto simp: defs reservation_def split: if_splits)
    ultimately show ?thesis using Some by (intro ran)
  qed
qed

text \<open>The lock around a body: refused without effect, or the body with the lock held.\<close>

definition lock :: "bool \<Rightarrow> 'h rstate \<Rightarrow> 'h rstate" where
  "lock b st = st\<lparr>rs_journal := (rs_journal st)\<lparr>jn_locked := b\<rparr>\<rparr>"

lemma lock_simps [simp]:
  "rs_log (lock b st) = rs_log st" "rs_host (lock b st) = rs_host st"
  "good (rs_journal (lock b st)) = good (rs_journal st)" "job_of (rs_journal (lock b st)) rid = job_of (rs_journal st) rid"
  "jn_foreign_lock (rs_journal (lock b st)) = jn_foreign_lock (rs_journal st)"
  "jn_io_failed (rs_journal (lock b st)) = jn_io_failed (rs_journal st)"
  "jn_locked (rs_journal (lock b st)) = b" "jn_read (rs_journal (lock b st)) = jn_read (rs_journal st)"
  "lock b (lock c st) = lock b st"
  by (simp_all add: lock_def good_def job_of_def jn_read_def)

definition available :: "journal \<Rightarrow> bool" where
  "available jn = (\<not> jn_locked jn \<and> \<not> jn_io_failed jn \<and> \<not> jn_foreign_lock jn)"

lemma execute_cases:
  assumes "execute executor r ack st = (res, t)"
  obtains (refused) e where "res = Inl e" "t = st"
    | (body) pl t' where "mk_plan (req_request_id r) (req_target_version r) (req_expected_current_version r) = Inr pl"
      "req_action r \<in> {Install, Submit}" "available (rs_journal st)"
      "execute_body executor r pl ack (lock True st) = (res, t')" "t = lock False t'"
  using assms
  by (auto simp: execute_def rs_exclusive_def available_def lock_def split: if_splits sum.splits prod.splits)

end
