(* ===== verification/UpdateProperties.thy ===== *)
theory UpdateProperties
  imports UpdateRunLaws
begin

text \<open>
  What the privileged update helper promises its clients, from a request on the socket
  down to the journal file. The example host, journal and request at the start are the
  inputs at which the witnesses evaluate the properties.
\<close>

section \<open>Example inputs\<close>

definition example_request :: request where
  "example_request = \<lparr>req_action = Submit, req_request_id = ''12345678-1234-4234-8234-123456789abc'',
     req_target_version = ''1.3.0'', req_expected_current_version = ''1.2.0'',
     req_credential = replicate 43 (CHR ''k'')\<rparr>"

definition example_host :: "unit host" where
  "example_host = \<lparr>h_current_version = (\<lambda>h. (Some ''1.2.0'', h)), h_preflight = (\<lambda>pl h. (Some (), h)),
     h_prepare_candidate = (\<lambda>pl h. (Some (Some \<lparr>cand_request_id = plan_request_id pl,
        cand_version = plan_target_version pl, cand_archive_sha256 = replicate 64 (CHR ''0'')\<rparr>), h)),
     h_stop_original = (\<lambda>pl h. (Some (), h)),
     h_backup_original = (\<lambda>pl h. (Some (Some \<lparr>bk_request_id = plan_request_id pl,
        bk_version = plan_current_version pl, bk_manifest_sha256 = replicate 64 (CHR ''1'')\<rparr>), h)),
     h_start_candidate = (\<lambda>pl c b h. (Some (), h)), h_verify_candidate = (\<lambda>pl h. (Some (), h)),
     h_restore_original = (\<lambda>pl b s h. (Some (), h)), h_verify_original = (\<lambda>pl h. (Some (), h))\<rparr>"

definition example_journal :: "job list \<Rightarrow> journal" where
  "example_journal js = \<lparr>jn_disk = stored js, jn_io_failed = False, jn_locked = False, jn_foreign_lock = False,
     jn_ticks = 0, jn_io = (\<lambda>_. IoOk), jn_clock = (\<lambda>_. 1700000000)\<rparr>"

definition example_state :: "unit rstate" where
  "example_state = \<lparr>rs_journal = example_journal [], rs_host = (), rs_log = [], rs_backup = None, rs_started = False\<rparr>"

lemma example_read: "valid_journal js \<Longrightarrow> jn_read (example_journal js) = Inr js"
  by (rule jn_read_stored) (simp_all add: example_journal_def)

lemma valid_journal_Nil: "valid_journal []"
  by (simp add: valid_journal_def MAX_JOBS_def)

section \<open>Shared facts about requests\<close>

text \<open>A journal nobody holds, whose saves succeed and whose clock stays in range.\<close>

definition idle :: "journal \<Rightarrow> bool" where
  "idle jn = (available jn \<and> good jn \<and> (\<forall>n. jn_io jn n = IoOk) \<and>
     (\<forall>n. 0 \<le> jn_clock jn n \<and> jn_clock jn n \<le> 253402300799))"

lemma idle_example: "valid_journal js \<Longrightarrow> idle (example_journal js)"
  using example_read [of js] by (simp add: idle_def available_def good_def) (simp add: example_journal_def)

lemma execute_log: "\<exists>l. rs_log (snd (execute executor r ack st)) = rs_log st @ l \<and> write_ahead [] l"
proof -
  obtain res t where e: "execute executor r ack st = (res, t)" by fastforce
  then show ?thesis
  proof (cases rule: execute_cases)
    case (refused x)
    then show ?thesis using e by simp
  next
    case (body pl t')
    from body(1,4) show ?thesis
    proof (cases rule: execute_body_cases)
      case (refused x)
      then show ?thesis using e body by simp
    next
      case (replay j host)
      then show ?thesis using e body by (simp add: replayed_def)
    next
      case (ran host st1)
      have "fresh_run (planned r) st1" using ran(2) by (simp add: reserved_def)
      from run_plan_effect [OF this ran(3), of False] obtain l where
        "rs_log t' = rs_log st1 @ l" "write_ahead [] l" by (auto simp: run_ended_def)
      then show ?thesis using e body ran(2) write_ahead_reservation by (auto simp: reserved_def)
    qed
  qed
qed

lemma execute_good: "good (rs_journal st) \<Longrightarrow> good (rs_journal (snd (execute executor r ack st)))"
proof -
  assume g: "good (rs_journal st)"
  obtain res t where e: "execute executor r ack st = (res, t)" by fastforce
  then show ?thesis
  proof (cases rule: execute_cases)
    case (refused x)
    then show ?thesis using e g by simp
  next
    case (body pl t')
    from body(1,4) show ?thesis
    proof (cases rule: execute_body_cases)
      case (refused x)
      then show ?thesis using e body g by simp
    next
      case (replay j host)
      then show ?thesis using e body g by (simp add: replayed_def)
    next
      case (ran host st1)
      then show ?thesis using e body g keepsD [OF run_plan_keeps(2), of st1 host "planned r"]
        by (auto simp: reserved_def)
    qed
  qed
qed

lemma begin_accepts:
  assumes "idle jn" "jn_read jn = Inr js" "find_job (req_request_id r) js = None"
    and "\<not> list_ex active_job js" "length js < MAX_JOBS"
    and "mk_plan (req_request_id r) (req_target_version r) (req_expected_current_version r) = Inr pl"
  obtains j jn' where "jn_begin r (jn\<lparr>jn_locked := True\<rparr>) = (Inr (j, True), jn')" "healthy jn'"
proof -
  let ?jn = "jn\<lparr>jn_locked := True\<rparr>"
  have rd: "jn_read ?jn = Inr js" using assms(2) jn_read_cong [of ?jn jn] by simp
  have h: "healthy ?jn" using assms(1) rd by (auto simp: idle_def available_def healthy_def good_def)
  have n: "job_of ?jn (req_request_id r) = None" using rd assms(3) by (simp add: job_of_def)
  have ok: "is_request_id (req_request_id r)" "is_version (req_target_version r)"
    "is_version (req_expected_current_version r)" using assms(6) by (simp_all add: mk_plan_Inr)
  obtain j jn' where "jn_begin r ?jn = (Inr (j, True), jn')" "healthy jn'"
    by (rule jn_begin_healthy [OF h rd n assms(4,5) ok])
  then show ?thesis by (rule that)
qed

lemma execute_settles:
  assumes "idle (rs_journal st)" "jn_read (rs_journal st) = Inr js" "find_job (req_request_id r) js = None"
    and "\<not> list_ex active_job js" "length js < MAX_JOBS" "req_action r \<in> {Install, Submit}"
    and "mk_plan (req_request_id r) (req_target_version r) (req_expected_current_version r) = Inr pl"
  shows "\<exists>v t l. execute (Some host) r ack st = (Inr v, t) \<and> rs_log t = rs_log st @ reservation ack @ l \<and>
    run_ended (planned r) True l (Inr v) ((rs_journal t)\<lparr>jn_locked := True\<rparr>)"
proof -
  obtain res t where e: "execute (Some host) r ack st = (res, t)" by fastforce
  obtain j jn' where bg: "jn_begin r ((rs_journal st)\<lparr>jn_locked := True\<rparr>) = (Inr (j, True), jn')" "healthy jn'"
    by (rule begin_accepts [OF assms(1-5,7)])
  have rs: "execute (Some host) r ack st = rs_exclusive (execute_body (Some host) r pl ack) st"
    using assms(6,7) by (auto simp: execute_def)
  obtain t' where t': "execute_body (Some host) r pl ack (lock True st) = (res, t')" "t = lock False t'"
    using rs e assms(1) by (auto simp: rs_exclusive_def idle_def available_def lock_def split: prod.splits)
  let ?st1 = "(lock True st)\<lparr>rs_journal := jn', rs_log := rs_log st @ reservation ack\<rparr>"
  have cr: "job_of jn' (req_request_id r) = Some j" "job_state j = J_REQUESTED" using jn_begin_created [OF bg(1)] by auto
  have pl: "pl = planned r" "is_version (req_target_version r)" "is_version (req_expected_current_version r)"
    using assms(7) by (auto simp: mk_plan_Inr planned_def)
  have rp: "run_plan host (planned r) ?st1 = (res, t')"
    using t'(1) bg(1) cr(2) pl(1)
    by (auto simp: execute_body_def reserve_def acknowledge_def abind_def lock_def reservation_def)
  have fr: "fresh_run (planned r) ?st1" using cr pl by (simp add: fresh_run_def recorded_reservation planned_def)
  obtain l where l: "rs_log t' = rs_log ?st1 @ l" "run_ended (planned r) True l res (rs_journal t')"
    using run_plan_effect [OF fr rp, of True] bg(2) by auto
  then obtain v where v: "res = Inr v" by (cases res) (auto simp: run_ended_def)
  have "healthy (rs_journal t')" using l(2) v by (simp add: run_ended_def)
  then have "(rs_journal t)\<lparr>jn_locked := True\<rparr> = rs_journal t'" using t'(2) by (simp add: lock_def healthy_def)
  then show ?thesis using e v t'(2) l by auto
qed

section \<open>Properties\<close>

text \<open>
  C1. Write-ahead order. Whatever arrives on the socket, whatever the host calls answer or
  raise and whatever happens to the journal's saves, the log only grows, and in what it
  grows by the original is stopped only after the stop request and the staged candidate
  are durable, the candidate is started only after the verified backup and the start
  request are durable, a restore only follows a durable \<open>ROLLING_BACK\<close> and passes the
  backup once a candidate may be running, \<open>COMPLETE\<close> only follows the candidate's health
  check and \<open>RESTORED\<close> only the original's.
\<close>

theorem update_write_ahead:
  "\<exists>l. rs_log (snd (handle sha256 auth executor data uid st)) = rs_log st @ l \<and> write_ahead [] l"
proof -
  have "snd (handle sha256 auth executor data uid st) = st \<or>
    (\<exists>r ack. snd (handle sha256 auth executor data uid st) = snd (execute executor r ack st))"
    by (auto simp: handle_def split: sum.splits prod.splits if_splits) (metis snd_conv)+
  then show ?thesis using execute_log by fastforce
qed

text \<open>
  C2. A new request on an idle journal is always settled: the call returns, the last record
  of its log is the terminal state it reports, the journal holds that state,
  \<open>COMPLETE\<close> means that every step of the schedule was done, and \<open>FAILED\<close> means that the
  running installation was never stopped.
\<close>

theorem update_settles:
  assumes "idle (rs_journal st)" "jn_read (rs_journal st) = Inr js" "find_job (req_request_id r) js = None"
    and "\<not> list_ex active_job js" "length js < MAX_JOBS" "req_action r \<in> {Install, Submit}"
    and "mk_plan (req_request_id r) (req_target_version r) (req_expected_current_version r) = Inr pl"
  shows "\<exists>v t l k. execute (Some host) r ack st = (Inr v, t) \<and> rs_log t = rs_log st @ reservation ack @ l \<and>
    l \<noteq> [] \<and> last l = Recorded (pub_state v) \<and> pub_state v \<in> set TERMINAL \<and>
    job_of (rs_journal t) (req_request_id r) = Some k \<and> job_state k = pub_state v \<and>
    (pub_state v = J_COMPLETE \<longrightarrow> l = FORWARD) \<and>
    (pub_state v = J_FAILED \<longrightarrow> Called StopOriginal \<notin> set l)"
proof -
  obtain v t l where x: "execute (Some host) r ack st = (Inr v, t)" "rs_log t = rs_log st @ reservation ack @ l"
    "run_ended (planned r) True l (Inr v) ((rs_journal t)\<lparr>jn_locked := True\<rparr>)"
    using execute_settles [OF assms] by blast
  have "job_of ((rs_journal t)\<lparr>jn_locked := True\<rparr>) rid = job_of (rs_journal t) rid" for rid
    by (simp add: job_of_def jn_read_def)
  then show ?thesis using x by (auto simp: run_ended_def planned_def)
qed

text \<open>The example request runs through: every action of the example host succeeds.\<close>

theorem update_settles_witness:
  "\<exists>v t l k. execute (Some example_host) example_request True example_state = (Inr v, t) \<and>
    rs_log t = rs_log example_state @ reservation True @ l \<and>
    l \<noteq> [] \<and> last l = Recorded (pub_state v) \<and> pub_state v \<in> set TERMINAL \<and>
    job_of (rs_journal t) (req_request_id example_request) = Some k \<and> job_state k = pub_state v \<and>
    (pub_state v = J_COMPLETE \<longrightarrow> l = FORWARD) \<and>
    (pub_state v = J_FAILED \<longrightarrow> Called StopOriginal \<notin> set l)"
proof -
  have "idle (rs_journal example_state)" "jn_read (rs_journal example_state) = Inr []"
    using idle_example example_read valid_journal_Nil by (simp_all add: example_state_def)
  moreover have "mk_plan (req_request_id example_request) (req_target_version example_request)
      (req_expected_current_version example_request) = Inr (planned example_request)"
    by code_simp
  ultimately show ?thesis
    by (intro update_settles [where js = "[]"]) (simp_all add: find_job_def MAX_JOBS_def example_request_def)
qed

text \<open>
  Replay. Once a request has been answered, sending it again, with any host adapter
  and in either submission mode, returns the same answer; no host operation is called and
  the journal is untouched.
\<close>

lemma update_replay:
  assumes "execute (Some host) r ack st = (Inr v, t)"
  shows "execute (Some host') r ack' t =
    (Inr v, t\<lparr>rs_log := rs_log t @ (if ack' then [Acknowledged (pub_state v)] else [])\<rparr>)"
proof -
  from assms obtain pl t' where b: "mk_plan (req_request_id r) (req_target_version r) (req_expected_current_version r) = Inr pl"
      "req_action r \<in> {Install, Submit}" "available (rs_journal st)"
      "execute_body (Some host) r pl ack (lock True st) = (Inr v, t')" "t = lock False t'"
    by (cases rule: execute_cases) auto
  from b(1,4) have "\<exists>j. v = public_job j \<and> settled (req_request_id r) j (rs_journal t') \<and> on_file r (rs_journal t') \<and>
    \<not> jn_foreign_lock (rs_journal t')"
  proof (cases rule: execute_body_cases)
    case (replay j h)
    then show ?thesis using jn_begin_found [OF replay(2)] b(3)
      by (auto simp: settled_def replayed_def available_def on_file_def)
  next
    case (ran h st1)
    then show ?thesis
      using run_plan_settled [OF ran(3)] b(3) keepsD [OF run_plan_keeps(1) [where r = r and host = h and pl = "planned r"], of st1]
        keepsD [OF run_plan_keeps(4) [where x = False and host = h and pl = "planned r"], of st1]
      by (auto simp: reserved_def planned_def available_def)
  qed simp
  then obtain j where j: "v = public_job j" "settled (req_request_id r) j (rs_journal t)" "on_file r (rs_journal t)"
      "available (rs_journal t)"
    using b(5) by (auto simp: settled_def on_file_def available_def)
  have "jn_begin r (rs_journal (lock True t)) = (Inr (j, False), rs_journal (lock True t))"
    using jn_begin_known [of "rs_journal (lock True t)" r j] j(2,3) by (simp add: settled_def on_file_def)
  then have "execute_body (Some host') r pl ack' (lock True t) =
      (Inr v, (lock True t)\<lparr>rs_log := rs_log t @ (if ack' then [Acknowledged (pub_state v)] else [])\<rparr>)"
    using j(1) by (simp add: execute_body_def reserve_def acknowledge_def abind_def areturn_def public_job_def)
  then show ?thesis using b(1,2) j(4)
    by (auto simp: execute_def rs_exclusive_def available_def lock_def)
qed

text \<open>
  C4. Authorization. A request that changes anything at all comes from the one allowed peer,
  is a well-formed install or submit request, and carries a credential whose digest is the
  configured one; every other request is answered without an effect on the host, on the
  journal or on the log.
\<close>

theorem update_authorized:
  assumes "snd (handle sha256 auth executor data uid st) \<noteq> st"
  shows "uid = allowed_peer_uid auth \<and> (\<exists>r. decode_request data = Inr r \<and> req_action r \<in> {Install, Submit} \<and>
    is_credential (req_credential r) \<and> sha256 (req_credential r) = credential_sha256 auth \<and>
    is_request_id (req_request_id r) \<and> is_version (req_target_version r) \<and>
    is_version (req_expected_current_version r) \<and> executor \<noteq> None)"
proof -
  from assms obtain r where r: "uid = allowed_peer_uid auth" "decode_request data = Inr r"
      "auth_check sha256 auth r uid = Inr ()" "req_action r \<noteq> Status"
      "snd (execute executor r (req_action r = Submit) st) \<noteq> st"
    by (auto simp: handle_def split: if_splits sum.splits prod.splits)
  then have a: "req_action r \<in> {Install, Submit}" by (cases "req_action r") auto
  have ex: "executor \<noteq> None"
  proof
    assume n: "executor = None"
    obtain res t where e: "execute executor r (req_action r = Submit) st = (res, t)" by fastforce
    then have "t = st"
    proof (cases rule: execute_cases)
      case (body pl t')
      then show ?thesis using n by (auto simp: execute_body_def araise_def lock_def available_def)
    qed
    then show False using r(5) e by simp
  qed
  have "decode_install d = Inr r \<Longrightarrow> is_request_id (req_request_id r) \<and> is_version (req_target_version r) \<and>
      is_version (req_expected_current_version r)" for d
    by (simp add: decode_install_Inr)
  then show ?thesis using r a ex
    by (auto simp: auth_check_def decode_request_def status_request_def
        split: if_splits option.splits pyval.splits)
qed

definition example_wire :: raw_text where
  "example_wire = \<lparr>raw_size = 300, raw_json = Some (VDict [(''protocol'', VInt 1), (''action'', VStr ''submit''),
     (''approve'', VBool True), (''credential'', VStr (replicate 43 (CHR ''k''))),
     (''request_id'', VStr ''12345678-1234-4234-8234-123456789abc''), (''target_version'', VStr ''1.3.0''),
     (''expected_current_version'', VStr ''1.2.0'')])\<rparr>"

lemma example_wire_decoded: "decode_request example_wire = Inr example_request"
  by code_simp

lemma example_settles:
  assumes "rs_journal st = example_journal []"
  obtains v t l where "execute (Some host) example_request ack st = (Inr v, t)" "rs_log t = rs_log st @ reservation ack @ l"
proof -
  have "idle (rs_journal st)" "jn_read (rs_journal st) = Inr []"
    using idle_example example_read valid_journal_Nil by (simp_all add: assms)
  moreover have "mk_plan (req_request_id example_request) (req_target_version example_request)
      (req_expected_current_version example_request) = Inr (planned example_request)"
    by code_simp
  ultimately show ?thesis
    using execute_settles [of st "[]" example_request "planned example_request" host ack] that
    by (auto simp: find_job_def MAX_JOBS_def example_request_def)
qed

text \<open>With the identity for the hash, the example request is authorized and does change the state.\<close>

theorem update_authorized_witness:
  "\<exists>auth. snd (handle id auth (Some example_host) example_wire 7 example_state) \<noteq> example_state \<and>
    7 = allowed_peer_uid auth \<and> id (req_credential example_request) = credential_sha256 auth"
proof -
  let ?auth = "\<lparr>allowed_peer_uid = 7, credential_sha256 = replicate 43 (CHR ''k'')\<rparr>"
  have a: "auth_check id ?auth example_request 7 = Inr ()" by code_simp
  have act: "req_action example_request = Submit" by (simp add: example_request_def)
  obtain v t l where x: "execute (Some example_host) example_request True example_state = (Inr v, t)"
    "rs_log t = rs_log example_state @ reservation True @ l"
    by (rule example_settles [of example_state]) (auto simp: example_state_def)
  have "snd (handle id ?auth (Some example_host) example_wire 7 example_state) = t"
    using x(1) a act by (simp add: handle_def example_wire_decoded)
  moreover have "t \<noteq> example_state" using x(2) by (auto simp: reservation_def)
  ultimately have "snd (handle id ?auth (Some example_host) example_wire 7 example_state) \<noteq> example_state" by simp
  from update_authorized [OF this] this show ?thesis
    by (intro exI [of _ ?auth]) (auto simp: example_wire_decoded)
qed

lemma recover_jobs_good: "keeps good (recover_jobs js)"
  by (induction js) (auto intro!: keeps_trivial keeps_bind transition_keeps)

lemma good_unlock: "good (jn\<lparr>jn_locked := b\<rparr>) = good jn"
  by (simp add: good_def jn_read_def)

lemma recover_good: "keeps good recover_interrupted"
proof (rule keepsI)
  fix jn
  assume "good jn"
  then have "good (snd (recover_jobs js (jn\<lparr>jn_locked := True\<rparr>)))" for js
    by (intro keepsD [OF recover_jobs_good]) (simp add: good_unlock)
  then show "good (snd (recover_interrupted jn))"
    using \<open>good jn\<close>
    by (auto simp: recover_interrupted_def jn_exclusive_def good_unlock split: prod.splits sum.splits) (metis snd_conv)
qed

text \<open>
  C5. The journal file stays readable. From a journal that validates, neither a request nor
  a start-up recovery ever leaves a file that does not, whichever of the saves are lost or
  fail after the rename, and whatever the host does.
\<close>

theorem journal_stays_valid:
  assumes "good (rs_journal st)"
  shows "good (rs_journal (snd (handle sha256 auth executor data uid st))) \<and>
    good (snd (recover_interrupted (rs_journal st)))"
proof
  have "snd (handle sha256 auth executor data uid st) = st \<or>
    (\<exists>r ack. snd (handle sha256 auth executor data uid st) = snd (execute executor r ack st))"
    by (auto simp: handle_def split: sum.splits prod.splits if_splits) (metis snd_conv)+
  then show "good (rs_journal (snd (handle sha256 auth executor data uid st)))"
    using assms execute_good by fastforce
  show "good (snd (recover_interrupted (rs_journal st)))" using assms by (rule keepsD [OF recover_good])
qed

text \<open>A journal whose third save fails after its rename.\<close>

theorem journal_stays_valid_witness:
  "let st = example_state\<lparr>rs_journal := (example_journal [])\<lparr>jn_io := (\<lambda>n. if n = 2 then IoLate else IoOk)\<rparr>\<rparr>
   in good (rs_journal (snd (handle id \<lparr>allowed_peer_uid = 7, credential_sha256 = replicate 43 (CHR ''k'')\<rparr>
     (Some example_host) example_wire 7 st)))"
proof -
  have "good ((example_journal [])\<lparr>jn_io := f\<rparr>)" for f
    using example_read [OF valid_journal_Nil] jn_read_cong [of "(example_journal [])\<lparr>jn_io := f\<rparr>" "example_journal []"]
    by (simp add: good_def)
  then show ?thesis
    using journal_stays_valid [of "example_state\<lparr>rs_journal := (example_journal [])\<lparr>jn_io := (\<lambda>n. if n = 2 then IoLate else IoOk)\<rparr>\<rparr>"]
    by (simp add: Let_def)
qed

text \<open>
  What a readable journal says: at most the last job is active, request ids are unique,
  and each job's history starts at \<open>REQUESTED\<close>, follows the transition table, never visits a
  state twice, ends in the job's state and has at most 13 events.
\<close>

lemma journal_histories:
  assumes "jn_read jn = Inr js" "j \<in> set js"
  shows "distinct (map job_request_id js) \<and> (active_job j \<longrightarrow> j = last js) \<and>
    length (job_events j) \<le> 13 \<and> distinct (map ev_state (job_events j)) \<and>
    ev_state (hd (job_events j)) = J_REQUESTED \<and> ev_state (last (job_events j)) = job_state j \<and>
    (\<forall>i. Suc i < length (job_events j) \<longrightarrow>
       ev_state (job_events j ! Suc i) \<in> set (NEXT (ev_state (job_events j ! i))))"
proof -
  have v: "valid_journal js" using assms(1) by (rule jn_read_valid)
  then have c: "check_job j" using assms(2) by (auto simp: valid_journal_iff list_all_iff)
  then have e: "check_events 0 None (job_events j)" "job_events j \<noteq> []" by (auto simp: check_job_def)
  note h = check_events_history [OF e]
  have "active_job j \<Longrightarrow> j = last js" using active_is_last [OF v assms(2)] by (metis last_snoc)
  moreover have "jtab.is_path ss \<Longrightarrow> Suc i < length ss \<Longrightarrow> ss ! Suc i \<in> set (NEXT (ss ! i))" for ss i
    by (induction ss arbitrary: i rule: jtab.is_path.induct) (auto simp: nth_Cons split: nat.splits)
  then have "Suc i < length (job_events j) \<Longrightarrow>
       ev_state (job_events j ! Suc i) \<in> set (NEXT (ev_state (job_events j ! i)))" for i
    using conjunct2 [OF h] by (metis (no_types, lifting) Suc_lessD length_map nth_map)
  ultimately show ?thesis
    using v c h jtab.path_distinct [of "map ev_state (job_events j)"] history_length [OF e(1)]
    by (auto simp: valid_journal_iff check_job_def)
qed

text \<open>
  C7. Encoding. A valid job list survives printing and validation unchanged, only valid job
  lists survive it, and the printed text never reaches the size limit, so a save is never
  refused for lack of capacity.
\<close>

theorem journal_round_trip:
  "(validate_state (encode_journal js) = Inr ks \<longleftrightarrow> ks = js \<and> valid_journal js) \<and>
   (\<forall>jn jn'. jn_save js jn \<noteq> (Inl (Rejected JOURNAL_CAPACITY), jn'))"
  by (auto simp: validate_encode_iff jn_save_def Let_def dest: journal_text_bound
      split: sum.splits io_outcome.splits if_splits)
    (auto simp: validate_state_def dest!: journal_text_bound split: option.splits if_splits)

text \<open>
  Start-up recovery on an idle journal always succeeds, keeps the order and the ids of
  the jobs, leaves finished jobs as they are, and closes the interrupted one: as \<open>FAILED\<close>
  when cutover had not begun, as \<open>MANUAL_ACTION_REQUIRED\<close> otherwise; every job is terminal
  afterwards and a second recovery changes nothing on disk.
\<close>

lemma recovery_closes_interrupted:
  assumes "idle jn" "jn_read jn = Inr js"
  shows "\<exists>jn' js'. recover_interrupted jn = (Inr (), jn') \<and> jn_read jn' = Inr js' \<and>
    map (\<lambda>j. (job_request_id j, job_state j)) js' =
    map (\<lambda>j. (job_request_id j, recovered_state (job_state j))) js \<and>
    (\<forall>j \<in> set js'. job_state j \<in> set TERMINAL) \<and> recover_interrupted jn' = (Inr (), jn')"
proof -
  let ?jn = "jn\<lparr>jn_locked := True\<rparr>"
  have rd: "jn_read ?jn = Inr js" using assms(2) jn_read_cong [of ?jn jn] by simp
  have h: "healthy ?jn" using assms(1) rd by (auto simp: idle_def available_def healthy_def good_def)
  have av: "\<not> jn_locked jn" "\<not> jn_io_failed jn" "\<not> jn_foreign_lock jn"
    using assms(1) by (simp_all add: idle_def available_def)
  have fk: "keeps (\<lambda>jn. jn_foreign_lock jn = False) (recover_jobs js)" for js
    by (induction js) (auto simp: keeps_trivial intro!: keeps_bind transition_keeps(4) [where x = False, simplified])
  obtain jn1 js' where r: "recover_jobs js ?jn = (Inr (), jn1)" "healthy jn1" "jn_read jn1 = Inr js'"
    "map (\<lambda>j. (job_request_id j, job_state j)) js' = map (\<lambda>j. (job_request_id j, recovered_state (job_state j))) js"
    using recover_jobs_healthy [OF h rd] by blast
  let ?jn1 = "jn1\<lparr>jn_locked := False\<rparr>"
  have fl: "\<not> jn_foreign_lock jn1" using keepsD [OF fk, of ?jn js] r(1) av by simp
  have rec: "recover_interrupted jn = (Inr (), ?jn1)"
    using av rd r(1) by (simp add: recover_interrupted_def jn_exclusive_def)
  have rd1: "jn_read ?jn1 = Inr js'" "jn_read (?jn1\<lparr>jn_locked := True\<rparr>) = Inr js'"
    using r(3) by (auto simp: jn_read_def)
  have "map job_state js' = map (\<lambda>j. recovered_state (job_state j)) js"
    using arg_cong [OF r(4), of "map snd"] by (simp add: comp_def)
  then have "set (map job_state js') \<subseteq> set TERMINAL"
    by (auto simp: recovered_state_def TERMINAL_def)
  then have tm: "\<forall>j \<in> set js'. job_state j \<in> set TERMINAL" by auto
  then have "recover_jobs js' = areturn ()" using recover_jobs_skip [of js' "[]"] by (simp add: list_all_iff)
  then have "recover_interrupted ?jn1 = (Inr (), ?jn1)"
    using fl rd1(2) r(2) by (simp add: recover_interrupted_def jn_exclusive_def areturn_def healthy_def)
  then show ?thesis using rec rd1(1) r(4) tm by blast
qed

text \<open>
  Version order. On the texts of version triples the upgrade test is the lexicographic
  order of the triples, although the texts themselves are not ordered that way
  (\<open>1.10.0\<close> follows \<open>1.9.0\<close>); a text that is not a version is refused, never compared.
\<close>

lemma newer_is_version_order:
  "(a < 10000 \<and> b < 10000 \<and> c < 10000 \<and> a' < 10000 \<and> b' < 10000 \<and> c' < 10000 \<longrightarrow>
    newer (version_text (Version a b c)) (version_text (Version a' b' c')) =
      Inr (a' < a \<or> a' = a \<and> (b' < b \<or> b' = b \<and> c' < c))) \<and>
   (\<not> is_version s \<longrightarrow> newer s t = Inl (Rejected BAD_REQUEST))"
proof
  show "a < 10000 \<and> b < 10000 \<and> c < 10000 \<and> a' < 10000 \<and> b' < 10000 \<and> c' < 10000 \<longrightarrow>
    newer (version_text (Version a b c)) (version_text (Version a' b' c')) =
      Inr (a' < a \<or> a' = a \<and> (b' < b \<or> b' = b \<and> c' < c))"
    by (auto simp: newer_Inr is_version_text version_tuple_text less_version_def)
  show "\<not> is_version s \<longrightarrow> newer s t = Inl (Rejected BAD_REQUEST)"
    by (simp add: newer_def require_defs)
qed

end
