(* ===== verification/SetupStates.thy ===== *)
theory SetupStates
  imports Prelude "HOL-Library.Char_ord" "HOL-Library.List_Lexorder"
begin

text \<open>
  The setup state machine (app/services/setup_rebuild/states.py): the persistent states of
  a radio's setup, the transition table, the transition guard, the machine's published
  form and the coarse phases shown for several radios.
\<close>

section \<open>States\<close>

datatype setup_state =
    S_UNKNOWN | S_DISCOVERED | S_IDENTIFIED | S_PRESENTATION_PREFLIGHT | S_PRESENTATION_PREPARED |
    S_PRESENTATION_CONFIGURED | S_PRESENTATION_VERIFIED | S_ORIGINAL_PREPARED | S_ORIGINAL_CONFIGURED |
    S_ORIGINAL_VERIFIED | S_BACKUP_PENDING | S_BACKUP_COMPLETE | S_SSH_STATUS_PENDING |
    S_SSH_ALREADY_ACTIVE | S_SSH_ACTIVATION_PENDING | S_SSH_TEMPORARY_ACTIVE | S_SSH_PERSISTENCE_PENDING |
    S_SSH_REBOOT_PENDING | S_SSH_VERIFIED | S_ROUTING_BACKUP_COMPLETE | S_BASSWIESN_ROUTE_PENDING |
    S_BASSWIESN_ROUTE_ACTIVE | S_RADIO_REBOOT_PENDING | S_RADIO_REBOOTED | S_RADIO_RECONNECT_PENDING |
    S_RADIO_REACHABLE | S_MARGE_ACCOUNT_PENDING | S_MARGE_ACCOUNT_ACTIVE | S_PRESETS_READABLE |
    S_PLAYBACK_READY | S_VERIFIED | S_FAILED | S_RECOVERY_PENDING | S_ROLLBACK_PENDING | S_ROLLED_BACK

primrec state_value :: "setup_state \<Rightarrow> string" where
  "state_value S_UNKNOWN = ''UNKNOWN''"
| "state_value S_DISCOVERED = ''DISCOVERED''"
| "state_value S_IDENTIFIED = ''IDENTIFIED''"
| "state_value S_PRESENTATION_PREFLIGHT = ''PRESENTATION_PREFLIGHT''"
| "state_value S_PRESENTATION_PREPARED = ''PRESENTATION_PREPARED''"
| "state_value S_PRESENTATION_CONFIGURED = ''PRESENTATION_CONFIGURED''"
| "state_value S_PRESENTATION_VERIFIED = ''PRESENTATION_VERIFIED''"
| "state_value S_ORIGINAL_PREPARED = ''ORIGINAL_PREPARED''"
| "state_value S_ORIGINAL_CONFIGURED = ''ORIGINAL_CONFIGURED''"
| "state_value S_ORIGINAL_VERIFIED = ''ORIGINAL_VERIFIED''"
| "state_value S_BACKUP_PENDING = ''BACKUP_PENDING''"
| "state_value S_BACKUP_COMPLETE = ''BACKUP_COMPLETE''"
| "state_value S_SSH_STATUS_PENDING = ''SSH_STATUS_PENDING''"
| "state_value S_SSH_ALREADY_ACTIVE = ''SSH_ALREADY_ACTIVE''"
| "state_value S_SSH_ACTIVATION_PENDING = ''SSH_ACTIVATION_PENDING''"
| "state_value S_SSH_TEMPORARY_ACTIVE = ''SSH_TEMPORARY_ACTIVE''"
| "state_value S_SSH_PERSISTENCE_PENDING = ''SSH_PERSISTENCE_PENDING''"
| "state_value S_SSH_REBOOT_PENDING = ''SSH_REBOOT_PENDING''"
| "state_value S_SSH_VERIFIED = ''SSH_VERIFIED''"
| "state_value S_ROUTING_BACKUP_COMPLETE = ''ROUTING_BACKUP_COMPLETE''"
| "state_value S_BASSWIESN_ROUTE_PENDING = ''BASSWIESN_ROUTE_PENDING''"
| "state_value S_BASSWIESN_ROUTE_ACTIVE = ''BASSWIESN_ROUTE_ACTIVE''"
| "state_value S_RADIO_REBOOT_PENDING = ''RADIO_REBOOT_PENDING''"
| "state_value S_RADIO_REBOOTED = ''RADIO_REBOOTED''"
| "state_value S_RADIO_RECONNECT_PENDING = ''RADIO_RECONNECT_PENDING''"
| "state_value S_RADIO_REACHABLE = ''RADIO_REACHABLE''"
| "state_value S_MARGE_ACCOUNT_PENDING = ''MARGE_ACCOUNT_PENDING''"
| "state_value S_MARGE_ACCOUNT_ACTIVE = ''MARGE_ACCOUNT_ACTIVE''"
| "state_value S_PRESETS_READABLE = ''PRESETS_READABLE''"
| "state_value S_PLAYBACK_READY = ''PLAYBACK_READY''"
| "state_value S_VERIFIED = ''VERIFIED''"
| "state_value S_FAILED = ''FAILED''"
| "state_value S_RECOVERY_PENDING = ''RECOVERY_PENDING''"
| "state_value S_ROLLBACK_PENDING = ''ROLLBACK_PENDING''"
| "state_value S_ROLLED_BACK = ''ROLLED_BACK''"

text \<open>The members in declaration order.\<close>

definition SETUP_STATES :: "setup_state list" where
  "SETUP_STATES =
     [S_UNKNOWN, S_DISCOVERED, S_IDENTIFIED, S_PRESENTATION_PREFLIGHT, S_PRESENTATION_PREPARED,
     S_PRESENTATION_CONFIGURED, S_PRESENTATION_VERIFIED, S_ORIGINAL_PREPARED, S_ORIGINAL_CONFIGURED,
     S_ORIGINAL_VERIFIED, S_BACKUP_PENDING, S_BACKUP_COMPLETE, S_SSH_STATUS_PENDING, S_SSH_ALREADY_ACTIVE,
     S_SSH_ACTIVATION_PENDING, S_SSH_TEMPORARY_ACTIVE, S_SSH_PERSISTENCE_PENDING, S_SSH_REBOOT_PENDING,
     S_SSH_VERIFIED, S_ROUTING_BACKUP_COMPLETE, S_BASSWIESN_ROUTE_PENDING, S_BASSWIESN_ROUTE_ACTIVE,
     S_RADIO_REBOOT_PENDING, S_RADIO_REBOOTED, S_RADIO_RECONNECT_PENDING, S_RADIO_REACHABLE,
     S_MARGE_ACCOUNT_PENDING, S_MARGE_ACCOUNT_ACTIVE, S_PRESETS_READABLE, S_PLAYBACK_READY, S_VERIFIED,
     S_FAILED, S_RECOVERY_PENDING, S_ROLLBACK_PENDING, S_ROLLED_BACK]"

text \<open>\<open>SetupState(value)\<close>: the member of that value, or \<open>ValueError\<close>.\<close>

definition setup_state_of :: "string \<Rightarrow> pyerr + setup_state" where
  "setup_state_of v = (case find (\<lambda>s. state_value s = v) SETUP_STATES of
     None \<Rightarrow> Inl ValueError | Some s \<Rightarrow> Inr s)"

datatype phase =
    P_QUEUED | P_PREFLIGHT | P_BACKUP | P_ROUTING | P_ACCOUNT | P_REBOOT | P_RECONNECT | P_READBACK |
    P_VERIFIED | P_FAILED | P_ROLLBACK | P_COMPLETE

definition TERMINAL_STATES :: "setup_state list" where
  "TERMINAL_STATES = [S_VERIFIED, S_FAILED, S_ROLLED_BACK]"

section \<open>The table and its guard\<close>

primrec ALLOWED_TRANSITIONS :: "setup_state \<Rightarrow> setup_state list" where
  "ALLOWED_TRANSITIONS S_UNKNOWN =
     [S_DISCOVERED, S_FAILED]"
| "ALLOWED_TRANSITIONS S_DISCOVERED =
     [S_IDENTIFIED, S_FAILED]"
| "ALLOWED_TRANSITIONS S_IDENTIFIED =
     [S_PRESENTATION_PREFLIGHT, S_BACKUP_PENDING, S_FAILED]"
| "ALLOWED_TRANSITIONS S_PRESENTATION_PREFLIGHT =
     [S_BACKUP_PENDING, S_FAILED]"
| "ALLOWED_TRANSITIONS S_PRESENTATION_PREPARED =
     [S_ROUTING_BACKUP_COMPLETE, S_FAILED]"
| "ALLOWED_TRANSITIONS S_PRESENTATION_CONFIGURED =
     [S_RADIO_REBOOT_PENDING, S_FAILED]"
| "ALLOWED_TRANSITIONS S_PRESENTATION_VERIFIED =
     [S_MARGE_ACCOUNT_PENDING, S_PRESETS_READABLE, S_FAILED]"
| "ALLOWED_TRANSITIONS S_ORIGINAL_PREPARED =
     [S_ORIGINAL_CONFIGURED, S_FAILED]"
| "ALLOWED_TRANSITIONS S_ORIGINAL_CONFIGURED =
     [S_RADIO_REBOOT_PENDING, S_FAILED]"
| "ALLOWED_TRANSITIONS S_ORIGINAL_VERIFIED =
     [S_VERIFIED, S_FAILED]"
| "ALLOWED_TRANSITIONS S_BACKUP_PENDING =
     [S_BACKUP_COMPLETE, S_FAILED]"
| "ALLOWED_TRANSITIONS S_BACKUP_COMPLETE =
     [S_SSH_STATUS_PENDING, S_PRESENTATION_PREPARED, S_ORIGINAL_PREPARED, S_ROUTING_BACKUP_COMPLETE, S_FAILED]"
| "ALLOWED_TRANSITIONS S_SSH_STATUS_PENDING =
     [S_SSH_ALREADY_ACTIVE, S_SSH_ACTIVATION_PENDING, S_FAILED]"
| "ALLOWED_TRANSITIONS S_SSH_ALREADY_ACTIVE =
     [S_SSH_PERSISTENCE_PENDING, S_FAILED]"
| "ALLOWED_TRANSITIONS S_SSH_ACTIVATION_PENDING =
     [S_SSH_TEMPORARY_ACTIVE, S_FAILED]"
| "ALLOWED_TRANSITIONS S_SSH_TEMPORARY_ACTIVE =
     [S_SSH_PERSISTENCE_PENDING, S_FAILED]"
| "ALLOWED_TRANSITIONS S_SSH_PERSISTENCE_PENDING =
     [S_SSH_REBOOT_PENDING, S_FAILED]"
| "ALLOWED_TRANSITIONS S_SSH_REBOOT_PENDING =
     [S_SSH_VERIFIED, S_FAILED]"
| "ALLOWED_TRANSITIONS S_SSH_VERIFIED =
     [S_PRESENTATION_PREPARED, S_ROUTING_BACKUP_COMPLETE, S_FAILED]"
| "ALLOWED_TRANSITIONS S_ROUTING_BACKUP_COMPLETE =
     [S_BASSWIESN_ROUTE_PENDING, S_FAILED]"
| "ALLOWED_TRANSITIONS S_BASSWIESN_ROUTE_PENDING =
     [S_BASSWIESN_ROUTE_ACTIVE, S_FAILED]"
| "ALLOWED_TRANSITIONS S_BASSWIESN_ROUTE_ACTIVE =
     [S_PRESENTATION_CONFIGURED, S_RADIO_REBOOT_PENDING, S_FAILED]"
| "ALLOWED_TRANSITIONS S_RADIO_REBOOT_PENDING =
     [S_RADIO_REBOOTED, S_FAILED]"
| "ALLOWED_TRANSITIONS S_RADIO_REBOOTED =
     [S_RADIO_RECONNECT_PENDING, S_FAILED]"
| "ALLOWED_TRANSITIONS S_RADIO_RECONNECT_PENDING =
     [S_RADIO_REACHABLE, S_FAILED]"
| "ALLOWED_TRANSITIONS S_RADIO_REACHABLE =
     [S_ORIGINAL_VERIFIED, S_PRESENTATION_VERIFIED, S_MARGE_ACCOUNT_PENDING, S_PRESETS_READABLE, S_FAILED]"
| "ALLOWED_TRANSITIONS S_MARGE_ACCOUNT_PENDING =
     [S_MARGE_ACCOUNT_ACTIVE, S_FAILED]"
| "ALLOWED_TRANSITIONS S_MARGE_ACCOUNT_ACTIVE =
     [S_PRESETS_READABLE, S_FAILED]"
| "ALLOWED_TRANSITIONS S_PRESETS_READABLE =
     [S_PLAYBACK_READY, S_VERIFIED, S_FAILED]"
| "ALLOWED_TRANSITIONS S_PLAYBACK_READY =
     [S_VERIFIED, S_FAILED]"
| "ALLOWED_TRANSITIONS S_VERIFIED =
     [S_ROLLBACK_PENDING]"
| "ALLOWED_TRANSITIONS S_FAILED =
     [S_RECOVERY_PENDING, S_ROLLBACK_PENDING]"
| "ALLOWED_TRANSITIONS S_RECOVERY_PENDING =
     [S_SSH_STATUS_PENDING, S_ROLLBACK_PENDING, S_FAILED]"
| "ALLOWED_TRANSITIONS S_ROLLBACK_PENDING =
     [S_ROLLED_BACK, S_FAILED]"
| "ALLOWED_TRANSITIONS S_ROLLED_BACK = []"

definition allowed_next_states :: "string \<Rightarrow> pyerr + setup_state list" where
  "allowed_next_states v = rbind (setup_state_of v) (\<lambda>s. Inr (sort_key state_value (ALLOWED_TRANSITIONS s)))"

definition transition :: "string \<Rightarrow> string \<Rightarrow> pyerr + setup_state" where
  "transition current target = rbind (setup_state_of current) (\<lambda>c. rbind (setup_state_of target) (\<lambda>t.
     if t = c then Inr t
     else if t \<notin> set (ALLOWED_TRANSITIONS c) then Inl ValueError else Inr t))"

record spec_row =
  row_state :: string
  row_allowed_next :: "string list"
  row_terminal :: bool

definition state_spec :: "pyerr + spec_row list" where
  "state_spec = rmap (\<lambda>s. rbind (allowed_next_states (state_value s)) (\<lambda>ns.
     Inr \<lparr>row_state = state_value s, row_allowed_next = map state_value ns,
          row_terminal = (s \<in> set TERMINAL_STATES)\<rparr>)) SETUP_STATES"

section \<open>Phases\<close>

definition phase_of :: "setup_state \<Rightarrow> phase" where
  "phase_of s =
     (if s = S_UNKNOWN then P_QUEUED
      else if s \<in> {S_DISCOVERED, S_IDENTIFIED, S_PRESENTATION_PREFLIGHT, S_SSH_STATUS_PENDING, S_SSH_ALREADY_ACTIVE,
          S_SSH_ACTIVATION_PENDING, S_SSH_TEMPORARY_ACTIVE, S_SSH_PERSISTENCE_PENDING, S_SSH_REBOOT_PENDING,
          S_SSH_VERIFIED}
        then P_PREFLIGHT
      else if s \<in> {S_BACKUP_PENDING, S_BACKUP_COMPLETE, S_PRESENTATION_PREPARED}
        then P_BACKUP
      else if s \<in> {S_ROUTING_BACKUP_COMPLETE, S_BASSWIESN_ROUTE_PENDING, S_BASSWIESN_ROUTE_ACTIVE,
          S_PRESENTATION_CONFIGURED}
        then P_ROUTING
      else if s \<in> {S_RADIO_REBOOT_PENDING, S_RADIO_REBOOTED}
        then P_REBOOT
      else if s \<in> {S_RADIO_RECONNECT_PENDING, S_RADIO_REACHABLE}
        then P_RECONNECT
      else if s \<in> {S_MARGE_ACCOUNT_PENDING, S_MARGE_ACCOUNT_ACTIVE}
        then P_ACCOUNT
      else if s \<in> {S_PRESETS_READABLE, S_PLAYBACK_READY, S_PRESENTATION_VERIFIED}
        then P_READBACK
      else if s = S_VERIFIED then P_VERIFIED
      else if s = S_FAILED then P_FAILED
      else P_ROLLBACK)"

definition multi_device_phase :: "string \<Rightarrow> pyerr + phase" where
  "multi_device_phase v = rbind (setup_state_of v) (\<lambda>s. Inr (phase_of s))"

section \<open>Lemmas\<close>

lemma all_states: "set SETUP_STATES = UNIV"
proof -
  have "s \<in> set SETUP_STATES" for s by (cases s) (simp_all add: SETUP_STATES_def)
  then show ?thesis by blast
qed

lemma all_states_distinct: "distinct (map state_value SETUP_STATES)"
  by code_simp

lemma setup_state_of_value [simp]: "setup_state_of (state_value s) = Inr s"
proof -
  have "find (\<lambda>t. state_value t = state_value s) SETUP_STATES = Some s"
    using all_states by (intro find_distinct [OF all_states_distinct]) auto
  then show ?thesis by (simp add: setup_state_of_def)
qed

lemma state_value_inj [simp]: "state_value s = state_value t \<longleftrightarrow> s = t"
  by (metis setup_state_of_value sum.inject(2))

text \<open>The guard as a relation on states, and reachability along it.\<close>

definition step_allowed :: "setup_state \<Rightarrow> setup_state \<Rightarrow> bool" where
  "step_allowed s t = (transition (state_value s) (state_value t) = Inr t)"

lemma step_allowed_iff: "step_allowed s t \<longleftrightarrow> t = s \<or> t \<in> set (ALLOWED_TRANSITIONS s)"
  by (simp add: step_allowed_def transition_def)

text \<open>Histories of a setup, the current state first.\<close>

inductive setup_history :: "setup_state list \<Rightarrow> bool" where
  start: "setup_history [S_UNKNOWN]"
| step: "setup_history (s # h) \<Longrightarrow> step_allowed s t \<Longrightarrow> setup_history (t # s # h)"

inductive_cases setup_history_Cons: "setup_history (t # h)"

text \<open>States that must lie behind a state: every alternative list names one of them.\<close>

definition behind :: "setup_state \<Rightarrow> setup_state list list" where
  "behind s =
     (if s = S_BASSWIESN_ROUTE_PENDING then [[S_ROUTING_BACKUP_COMPLETE]]
      else if s = S_BASSWIESN_ROUTE_ACTIVE then [[S_ROUTING_BACKUP_COMPLETE], [S_BASSWIESN_ROUTE_PENDING]]
      else if s = S_PRESENTATION_CONFIGURED then [[S_ROUTING_BACKUP_COMPLETE], [S_BASSWIESN_ROUTE_ACTIVE]]
      else if s = S_ORIGINAL_PREPARED then [[S_BACKUP_COMPLETE]]
      else if s = S_ORIGINAL_CONFIGURED then [[S_BACKUP_COMPLETE]]
      else if s \<in> {S_RADIO_REBOOT_PENDING, S_RADIO_REBOOTED, S_RADIO_RECONNECT_PENDING, S_RADIO_REACHABLE}
        then [[S_ROUTING_BACKUP_COMPLETE, S_BACKUP_COMPLETE], [S_BASSWIESN_ROUTE_ACTIVE, S_ORIGINAL_CONFIGURED]]
             @ (if s = S_RADIO_REBOOT_PENDING then [] else [[S_RADIO_REBOOT_PENDING]])
      else if s \<in> {S_ORIGINAL_VERIFIED, S_PRESENTATION_VERIFIED, S_MARGE_ACCOUNT_PENDING, S_MARGE_ACCOUNT_ACTIVE,
          S_PRESETS_READABLE, S_PLAYBACK_READY, S_VERIFIED}
        then [[S_ROUTING_BACKUP_COMPLETE, S_BACKUP_COMPLETE], [S_BASSWIESN_ROUTE_ACTIVE, S_ORIGINAL_CONFIGURED],
              [S_RADIO_REBOOT_PENDING], [S_RADIO_REACHABLE]]
      else if s \<in> {S_RECOVERY_PENDING} then [[S_FAILED]]
      else if s \<in> {S_ROLLBACK_PENDING, S_ROLLED_BACK} then [[S_FAILED, S_VERIFIED]]
      else [])"

definition alternatives_kept :: "setup_state \<Rightarrow> setup_state \<Rightarrow> bool" where
  "alternatives_kept s t = list_all (\<lambda>alts. s \<in> set alts \<or> (\<exists>b \<in> set (behind s). set b \<subseteq> set alts)) (behind t)"

lemma alternatives_kept_all:
  "list_all (\<lambda>s. list_all (alternatives_kept s) (ALLOWED_TRANSITIONS s)) SETUP_STATES"
  by code_simp

lemma history_behind: "setup_history (s # h) \<Longrightarrow> alts \<in> set (behind s) \<Longrightarrow> set alts \<inter> set (s # h) \<noteq> {}"
proof (induction "s # h" arbitrary: s h alts rule: setup_history.induct)
  case start
  then show ?case by (simp add: behind_def)
next
  case (step s h t)
  show ?case
  proof (cases "t = s")
    case True
    then show ?thesis using step by auto
  next
    case False
    then have "t \<in> set (ALLOWED_TRANSITIONS s)" using step(3) by (simp add: step_allowed_iff)
    then have "alternatives_kept s t" using alternatives_kept_all all_states by (auto simp: list_all_iff)
    then have "s \<in> set alts \<or> (\<exists>b \<in> set (behind s). set b \<subseteq> set alts)"
      using step(4) by (auto simp: alternatives_kept_def list_all_iff)
    then show ?thesis using step(2) by fastforce
  qed
qed

lemma history_mono: "setup_history h \<Longrightarrow> s \<in> set h \<Longrightarrow> alts \<in> set (behind s) \<Longrightarrow> set alts \<inter> set h \<noteq> {}"
proof (induction rule: setup_history.induct)
  case start
  then show ?case by (simp add: behind_def)
next
  case (step s' h t)
  then show ?case
    using history_behind [OF setup_history.step [OF step(1,2)], of alts] by auto
qed

section \<open>Properties\<close>

text \<open>
  Order of a setup. In every history the guard admits, the BASSWIESN route is only
  active after the routing backup and the pending route were recorded; a setup is only
  verified after a reboot was requested, the radio was reached again, and either the route
  was active or the original configuration was written after a completed backup; a rollback
  only follows a failed or verified setup.
\<close>

theorem setup_order:
  assumes "setup_history h"
  shows "(S_BASSWIESN_ROUTE_ACTIVE \<in> set h \<longrightarrow> S_ROUTING_BACKUP_COMPLETE \<in> set h \<and> S_BASSWIESN_ROUTE_PENDING \<in> set h) \<and>
    (S_VERIFIED \<in> set h \<longrightarrow> S_RADIO_REBOOT_PENDING \<in> set h \<and> S_RADIO_REACHABLE \<in> set h \<and>
       (S_BASSWIESN_ROUTE_ACTIVE \<in> set h \<and> S_ROUTING_BACKUP_COMPLETE \<in> set h \<or>
        S_ORIGINAL_CONFIGURED \<in> set h \<and> S_BACKUP_COMPLETE \<in> set h)) \<and>
    (S_ROLLBACK_PENDING \<in> set h \<longrightarrow> S_FAILED \<in> set h \<or> S_VERIFIED \<in> set h)"
proof -
  note b = history_mono [OF assms]
  have "S_BASSWIESN_ROUTE_ACTIVE \<in> set h \<longrightarrow> S_ROUTING_BACKUP_COMPLETE \<in> set h \<and> S_BASSWIESN_ROUTE_PENDING \<in> set h"
    using b [of S_BASSWIESN_ROUTE_ACTIVE "[S_ROUTING_BACKUP_COMPLETE]"]
      b [of S_BASSWIESN_ROUTE_ACTIVE "[S_BASSWIESN_ROUTE_PENDING]"] by (auto simp: behind_def)
  moreover have "S_ORIGINAL_CONFIGURED \<in> set h \<longrightarrow> S_BACKUP_COMPLETE \<in> set h"
    using b [of S_ORIGINAL_CONFIGURED "[S_BACKUP_COMPLETE]"] by (auto simp: behind_def)
  moreover have "S_VERIFIED \<in> set h \<longrightarrow> S_RADIO_REBOOT_PENDING \<in> set h \<and> S_RADIO_REACHABLE \<in> set h \<and>
      (S_BASSWIESN_ROUTE_ACTIVE \<in> set h \<or> S_ORIGINAL_CONFIGURED \<in> set h)"
    using b [of S_VERIFIED "[S_RADIO_REBOOT_PENDING]"] b [of S_VERIFIED "[S_RADIO_REACHABLE]"]
      b [of S_VERIFIED "[S_BASSWIESN_ROUTE_ACTIVE, S_ORIGINAL_CONFIGURED]"] by (auto simp: behind_def)
  moreover have "S_ROLLBACK_PENDING \<in> set h \<longrightarrow> S_FAILED \<in> set h \<or> S_VERIFIED \<in> set h"
    using b [of S_ROLLBACK_PENDING "[S_FAILED, S_VERIFIED]"] by (auto simp: behind_def)
  ultimately show ?thesis by blast
qed

theorem setup_order_witness:
  "setup_history [S_FAILED, S_DISCOVERED, S_UNKNOWN] \<and> setup_history [S_ROLLBACK_PENDING, S_FAILED, S_DISCOVERED, S_UNKNOWN] \<and>
   S_FAILED \<in> set [S_ROLLBACK_PENDING, S_FAILED, S_DISCOVERED, S_UNKNOWN]"
proof -
  have h: "setup_history [S_FAILED, S_DISCOVERED, S_UNKNOWN]"
    by (intro setup_history.intros) (simp_all add: step_allowed_iff)
  then have r: "setup_history [S_ROLLBACK_PENDING, S_FAILED, S_DISCOVERED, S_UNKNOWN]"
    by (rule setup_history.step) (simp add: step_allowed_iff)
  show ?thesis using setup_order [OF r] h r by simp
qed

definition row_exact :: "spec_row \<Rightarrow> setup_state \<Rightarrow> bool" where
  "row_exact r s = (row_state r = state_value s \<and> sorted (row_allowed_next r) \<and>
     (\<forall>t. state_value t \<in> set (row_allowed_next r) \<longleftrightarrow> t \<noteq> s \<and> transition (state_value s) (state_value t) = Inr t))"

definition no_self :: "setup_state \<Rightarrow> bool" where
  "no_self s = (s \<notin> set (ALLOWED_TRANSITIONS s))"

lemma no_self_all: "no_self s"
proof -
  have "list_all no_self SETUP_STATES" by code_simp
  then show ?thesis using all_states by (simp add: list_all_iff)
qed

text \<open>Ways to a rollback: through \<open>FAILED\<close> or directly.\<close>

definition way_back :: "setup_state \<Rightarrow> setup_state list" where
  "way_back s = (if s \<in> {S_FAILED, S_VERIFIED} then [S_ROLLBACK_PENDING, S_ROLLED_BACK]
     else if s = S_ROLLBACK_PENDING then [S_ROLLED_BACK] else if s = S_ROLLED_BACK then []
     else [S_FAILED, S_ROLLBACK_PENDING, S_ROLLED_BACK])"

fun steps_allowed :: "setup_state \<Rightarrow> setup_state list \<Rightarrow> bool" where
  "steps_allowed s [] = True"
| "steps_allowed s (t # ts) = (step_allowed s t \<and> steps_allowed t ts)"

lemma way_back_allowed: "steps_allowed s (way_back s) \<and> last (s # way_back s) = S_ROLLED_BACK \<and> length (way_back s) \<le> 3"
  by (cases s) (simp_all add: way_back_def step_allowed_iff)

text \<open>
  C11. The published machine is the machine. \<open>state_spec\<close> succeeds, has one row per state in
  declaration order, and the row of a state lists, sorted, exactly the other states to
  which the guard admits a transition. A rollback can always be reached within three
  transitions, and only a rolled-back setup has no way on.
\<close>

theorem state_spec_exact:
  "(\<exists>rows. state_spec = Inr rows \<and> list_all2 row_exact rows SETUP_STATES) \<and>
   (\<forall>s. \<exists>ts. steps_allowed s ts \<and> last (s # ts) = S_ROLLED_BACK \<and> length ts \<le> 3) \<and>
   (\<forall>s. (\<exists>t. step_allowed s t \<and> t \<noteq> s) \<longleftrightarrow> s \<noteq> S_ROLLED_BACK)"
proof (intro conjI)
  let ?row = "\<lambda>s. \<lparr>row_state = state_value s,
     row_allowed_next = map state_value (sort_key state_value (ALLOWED_TRANSITIONS s)),
     row_terminal = (s \<in> set TERMINAL_STATES)\<rparr>"
  have "state_spec = Inr (map ?row SETUP_STATES)"
    unfolding state_spec_def by (rule rmap_Inr_map) (simp add: allowed_next_states_def)
  moreover have "row_exact (?row s) s" for s
    using no_self_all [of s] by (auto simp: row_exact_def transition_def no_self_def image_iff)
  then have "list_all2 row_exact (map ?row SETUP_STATES) SETUP_STATES"
    by (simp add: list_all2_conv_all_nth)
  ultimately show "\<exists>rows. state_spec = Inr rows \<and> list_all2 row_exact rows SETUP_STATES" by blast
  show "\<forall>s. \<exists>ts. steps_allowed s ts \<and> last (s # ts) = S_ROLLED_BACK \<and> length ts \<le> 3"
    using way_back_allowed by blast
  have "s \<noteq> S_ROLLED_BACK \<Longrightarrow> ALLOWED_TRANSITIONS s \<noteq> []" for s by (cases s) simp_all
  then have "s \<noteq> S_ROLLED_BACK \<Longrightarrow> \<exists>t. step_allowed s t \<and> t \<noteq> s" for s
    using no_self_all [of s] by (cases "ALLOWED_TRANSITIONS s") (auto simp: step_allowed_iff no_self_def)
  moreover have "step_allowed S_ROLLED_BACK t \<Longrightarrow> t = S_ROLLED_BACK" for t by (simp add: step_allowed_iff)
  ultimately show "\<forall>s. (\<exists>t. step_allowed s t \<and> t \<noteq> s) \<longleftrightarrow> s \<noteq> S_ROLLED_BACK" by blast
qed

end
