(* ===== verification/SetupLease.thy ===== *)
theory SetupLease
  imports Prelude
begin

text \<open>
  The coordinator lease of the setup service (app/services/setup_rebuild/lease.py): one
  database row decides which worker may touch a radio. The row is the committed content of
  the table, times are microseconds, and a comparison with a missing \<open>expires_at\<close> is never
  true, as in SQL. \<open>acquire\<close> and \<open>renew\<close> take the clock they read as an argument; a failing
  database is an argument of the two watch operations.
\<close>

section \<open>The row and its operations\<close>

record lease_row =
  owner_id :: string
  job_id :: string
  expires_at :: "int option"

type_synonym lease_table = "lease_row option"

datatype lease_err = SetupLeaseLost | LeaseValueError

definition fresh_row :: lease_row where
  "fresh_row = \<lparr>owner_id = [], job_id = [], expires_at = None\<rparr>"

definition not_after :: "int option \<Rightarrow> int \<Rightarrow> bool" where
  "not_after e now = (case e of None \<Rightarrow> False | Some t \<Rightarrow> t \<le> now)"

definition after :: "int option \<Rightarrow> int \<Rightarrow> bool" where
  "after e now = (case e of None \<Rightarrow> False | Some t \<Rightarrow> now < t)"

definition lease_until :: "int \<Rightarrow> int \<Rightarrow> int" where
  "lease_until now ttl_seconds = now + 1000000 * max 10 ttl_seconds"

definition claimable :: "string \<Rightarrow> string \<Rightarrow> int \<Rightarrow> lease_row \<Rightarrow> bool" where
  "claimable own job now row =
     (owner_id row = [] \<and> job_id row = [] \<or> not_after (expires_at row) now \<or>
      owner_id row = own \<and> job_id row = job \<and> after (expires_at row) now)"

definition acquire :: "string \<Rightarrow> string \<Rightarrow> int \<Rightarrow> int \<Rightarrow> lease_table \<Rightarrow> (lease_err + bool) \<times> lease_table" where
  "acquire own job ttl_seconds now table =
     (if own = [] \<or> job = [] then (Inl LeaseValueError, table)
      else (let row = (case table of None \<Rightarrow> fresh_row | Some r \<Rightarrow> r) in
        if claimable own job now row
        then (Inr True, Some \<lparr>owner_id = own, job_id = job, expires_at = Some (lease_until now ttl_seconds)\<rparr>)
        else (Inr False, table)))"

definition owned :: "string \<Rightarrow> string \<Rightarrow> int \<Rightarrow> lease_table \<Rightarrow> bool" where
  "owned own job now table = (case table of None \<Rightarrow> False
     | Some row \<Rightarrow> owner_id row = own \<and> job_id row = job \<and> after (expires_at row) now)"

definition renew :: "string \<Rightarrow> string \<Rightarrow> int \<Rightarrow> int \<Rightarrow> lease_table \<Rightarrow> bool \<times> lease_table" where
  "renew own job ttl_seconds now table =
     (if owned own job now table
      then (True, map_option (\<lambda>row. row\<lparr>expires_at := Some (lease_until now ttl_seconds)\<rparr>) table)
      else (False, table))"

definition release :: "string \<Rightarrow> string \<Rightarrow> lease_table \<Rightarrow> lease_table" where
  "release own job table = map_option (\<lambda>row.
     if owner_id row = own \<and> job_id row = job then fresh_row else row) table"

section \<open>The watch\<close>

record lease_watch =
  watch_owner :: string
  watch_job :: string
  lost :: bool

definition new_watch :: "string \<Rightarrow> string \<Rightarrow> lease_watch" where
  "new_watch own job = \<lparr>watch_owner = own, watch_job = job, lost = False\<rparr>"

text \<open>What a checkpoint sees: the clock, the table, and whether the database answers.\<close>

type_synonym sight = "int \<times> lease_table \<times> bool"

fun checkpoint :: "lease_watch \<Rightarrow> sight \<Rightarrow> (lease_err + unit) \<times> lease_watch" where
  "checkpoint w (now, table, db_ok) =
     (if lost w \<or> \<not> (db_ok \<and> owned (watch_owner w) (watch_job w) now table)
      then (Inl SetupLeaseLost, w\<lparr>lost := True\<rparr>) else (Inr (), w))"

text \<open>The heartbeat loop over the wake-ups it gets: the clock and whether the database answers.\<close>

fun heartbeat :: "lease_watch \<Rightarrow> (int \<times> bool) list \<Rightarrow> lease_table \<Rightarrow> lease_watch \<times> lease_table" where
  "heartbeat w [] table = (w, table)"
| "heartbeat w ((now, db_ok) # ticks) table =
     (if lost w then (w, table)
      else if \<not> db_ok then heartbeat (w\<lparr>lost := True\<rparr>) ticks table
      else (case renew (watch_owner w) (watch_job w) 90 now table of
          (renewed, table') \<Rightarrow> heartbeat (w\<lparr>lost := \<not> renewed\<rparr>) ticks table'))"

section \<open>Actions of several workers\<close>

datatype lease_action = Acquire string string int | Renew string string int | Release string string

fun actor :: "lease_action \<Rightarrow> string \<times> string" where
  "actor (Acquire own job ttl) = (own, job)"
| "actor (Renew own job ttl) = (own, job)"
| "actor (Release own job) = (own, job)"

fun act_on :: "lease_action \<Rightarrow> int \<Rightarrow> lease_table \<Rightarrow> lease_table" where
  "act_on (Acquire own job ttl) now table = snd (acquire own job ttl now table)"
| "act_on (Renew own job ttl) now table = snd (renew own job ttl now table)"
| "act_on (Release own job) now table = release own job table"

definition run_actions :: "(lease_action \<times> int) list \<Rightarrow> lease_table \<Rightarrow> lease_table" where
  "run_actions as table = foldl (\<lambda>t (a, now). act_on a now t) table as"

section \<open>Lemmas\<close>

lemma after_Some [simp]: "after (Some t) now \<longleftrightarrow> now < t" by (simp add: after_def)

lemma not_after_Some [simp]: "not_after (Some t) now \<longleftrightarrow> t \<le> now" by (simp add: not_after_def)

lemma owned_acquired [simp]:
  "owned own job now (Some \<lparr>owner_id = own', job_id = job', expires_at = Some t\<rparr>) \<longleftrightarrow> own' = own \<and> job' = job \<and> now < t"
  by (auto simp: owned_def)

text \<open>While somebody owns the lease, another worker's action changes nothing.\<close>

lemma foreign_action:
  assumes "owned own job now table" "own \<noteq> [] \<or> job \<noteq> []" "actor a \<noteq> (own, job)"
  shows "act_on a now table = table"
proof -
  obtain row t where r: "table = Some row" "owner_id row = own" "job_id row = job" "expires_at row = Some t" "now < t"
    using assms(1) by (auto simp: owned_def after_def split: option.splits)
  then show ?thesis using assms(2,3)
    by (cases a) (auto simp: acquire_def renew_def release_def claimable_def owned_def Let_def)
qed

lemma foreign_actions:
  assumes "table = Some \<lparr>owner_id = own, job_id = job, expires_at = Some t\<rparr>" "own \<noteq> [] \<or> job \<noteq> []"
    and "list_all (\<lambda>(a, now). actor a \<noteq> (own, job) \<and> now < t) as"
  shows "run_actions as table = table"
  using assms(3)
proof (induction as)
  case Nil
  then show ?case by (simp add: run_actions_def)
next
  case (Cons an as)
  obtain a now where an: "an = (a, now)" by fastforce
  have "act_on a now table = table"
    using Cons.prems assms(1,2) an by (intro foreign_action [of own job]) auto
  then show ?case using Cons an by (simp add: run_actions_def)
qed

interpretation watch: fail_closed checkpoint lost "\<lambda>_. True"
proof
  fix w and x :: sight and e
  obtain now table ok where x: "x = (now, table, ok)" by (cases x)
  show "lost w \<Longrightarrow> isl (fst (checkpoint w x))" by (simp add: x)
  show "lost w \<Longrightarrow> lost (snd (checkpoint w x))" by (simp add: x)
  show "fst (checkpoint w x) = Inl e \<Longrightarrow> lost (snd (checkpoint w x))" by (auto simp: x split: if_splits)
qed

section \<open>Properties\<close>

text \<open>
  C12. Exclusive ownership. After a successful \<open>acquire\<close> nobody else gets the lease before
  it expires: whatever other workers attempt in that time, in any number and order, the
  table is unchanged, so each of their claims answers \<open>False\<close> and the holder's checkpoints
  pass; the lease runs for at least ten seconds.
\<close>

theorem lease_exclusive:
  assumes "acquire own job ttl now table = (Inr True, table')"
    and "list_all (\<lambda>(a, t). actor a \<noteq> (own, job) \<and> t < lease_until now ttl) as"
    and "clock < lease_until now ttl"
  shows "run_actions as table' = table' \<and> now + 10000000 \<le> lease_until now ttl \<and>
    fst (checkpoint (new_watch own job) (clock, run_actions as table', True)) = Inr () \<and>
    ((own', job') \<noteq> (own, job) \<longrightarrow> fst (acquire own' job' ttl' clock table') \<noteq> Inr True)"
proof -
  have t: "table' = Some \<lparr>owner_id = own, job_id = job, expires_at = Some (lease_until now ttl)\<rparr>" "own \<noteq> []"
    using assms(1) by (auto simp: acquire_def Let_def split: if_splits)
  have "run_actions as table' = table'" by (rule foreign_actions [OF t(1) _ assms(2)]) (simp add: t(2))
  then show ?thesis using t assms(3)
    by (auto simp: new_watch_def acquire_def claimable_def Let_def lease_until_def)
qed

theorem lease_exclusive_witness:
  "acquire ''a'' ''1'' 90 0 None = (Inr True, Some \<lparr>owner_id = ''a'', job_id = ''1'', expires_at = Some 90000000\<rparr>) \<and>
   fst (acquire ''b'' ''1'' 90 5 (Some \<lparr>owner_id = ''a'', job_id = ''1'', expires_at = Some 90000000\<rparr>)) \<noteq> Inr True"
proof -
  have a: "acquire ''a'' ''1'' 90 0 None = (Inr True, Some \<lparr>owner_id = ''a'', job_id = ''1'', expires_at = Some 90000000\<rparr>)"
    by (simp add: acquire_def claimable_def fresh_row_def lease_until_def)
  show ?thesis
    using lease_exclusive [OF a, of "[(Acquire ''b'' ''1'' 90, 3)]" 5 "''b''" "''1''" 90] a
    by (simp add: lease_until_def)
qed

text \<open>
  A lost lease stays lost. Once a checkpoint of a watch has raised, every later
  checkpoint raises, even when the row is owned again; the heartbeat leaves a lost watch
  and the table alone, and a heartbeat that meets an unanswering database or a lease it no
  longer owns marks the watch lost.
\<close>

lemma lost_lease_stays_lost:
  assumes "checkpoint w x = (Inl e, w')"
  shows "list_all isl (fst (watch.run w' xs)) \<and> heartbeat w' ticks table = (w', table) \<and>
    (\<not> db_ok \<or> \<not> owned (watch_owner v) (watch_job v) now table \<longrightarrow>
      lost (fst (heartbeat v ((now, db_ok) # ticks) table)))"
proof -
  have "lost w'" using watch.latches [of w x e] assms by simp
  moreover have "lost v' \<Longrightarrow> heartbeat v' ticks table = (v', table)" for v' ticks table
    by (cases ticks) auto
  ultimately show ?thesis using watch.no_acceptance_after_refusal [OF assms] by (auto simp: renew_def)
qed

end
