(* ===== verification/AirplayLiveness.thy ===== *)
theory AirplayLiveness
  imports Prelude
begin

text \<open>
  The three observers of the AirPlay bridge that judge one private observation at a time:
  the receiver heartbeat (airplay_bridge/heartbeat.py), the controller's audio lease
  (control_lease.py) and the cursor over native group records (native_group.py). Each latches
  a failure flag in its \<open>except\<close> clause. That clause names \<open>ValueError\<close> and \<open>TypeError\<close> but not
  the \<open>OverflowError\<close> that \<open>math.isfinite\<close> raises for huge integers, so the model keeps the
  exceptions apart.
\<close>

section \<open>The latching handler\<close>

definition latch :: "('s \<Rightarrow> 's) \<Rightarrow> (pyerr + 'a) \<times> 's \<Rightarrow> (pyerr + 'a) \<times> 's" where
  "latch set_failed r = (case r of
     (Inl e, s) \<Rightarrow> if e \<in> {ValueError, TypeError} then (Inl ValueError, set_failed s) else (Inl e, s)
   | (Inr a, s) \<Rightarrow> (Inr a, s))"

definition field :: "(string \<times> pyval) list \<Rightarrow> string \<Rightarrow> pyval" where
  "field d k = (case map_of d k of None \<Rightarrow> VNone | Some v \<Rightarrow> v)"

fun int_in :: "int \<Rightarrow> int \<Rightarrow> pyval \<Rightarrow> bool" where
  "int_in lo hi (VInt i) = (lo \<le> i \<and> i \<le> hi)"
| "int_in lo hi _ = False"

fun int_of :: "pyval \<Rightarrow> int" where
  "int_of (VInt i) = i"
| "int_of _ = 0"

fun is_bool :: "pyval \<Rightarrow> bool" where
  "is_bool (VBool b) = True"
| "is_bool _ = False"

definition MAX_SAFE :: int where
  "MAX_SAFE = 2 ^ 53 - 1"

section \<open>Receiver heartbeat\<close>

record heartbeat =
  hb_max_age :: rat
  hb_sequence :: int
  hb_stamp :: rat
  hb_now :: rat
  hb_failed :: bool

definition mk_heartbeat :: "pyval \<Rightarrow> pyerr + heartbeat" where
  "mk_heartbeat max_age = rbind (finite_number max_age) (\<lambda>m. case m of
     None \<Rightarrow> Inl ValueError
   | Some q \<Rightarrow> if 0 < q \<and> q \<le> 5
       then Inr \<lparr>hb_max_age = q, hb_sequence = -1, hb_stamp = -1, hb_now = -1, hb_failed = False\<rparr>
       else Inl ValueError)"

definition new_heartbeat :: heartbeat where
  "new_heartbeat = \<lparr>hb_max_age = 5, hb_sequence = -1, hb_stamp = -1, hb_now = -1, hb_failed = False\<rparr>"

definition stale :: "heartbeat \<Rightarrow> int \<Rightarrow> rat \<Rightarrow> rat \<Rightarrow> bool" where
  "stale h sequence stamp now =
     (\<not> (0 \<le> stamp \<and> stamp \<le> now) \<or> hb_max_age h \<le> now - stamp
      \<or> sequence < hb_sequence h \<or> stamp < hb_stamp h
      \<or> (sequence = hb_sequence h \<and> stamp \<noteq> hb_stamp h)
      \<or> (hb_sequence h < sequence \<and> 0 \<le> hb_sequence h \<and> stamp \<le> hb_stamp h))"

definition hb_observe :: "pyval \<Rightarrow> rat \<Rightarrow> heartbeat \<Rightarrow> (pyerr + unit) \<times> heartbeat" where
  "hb_observe observation now h = (case observation of
     VDict d \<Rightarrow>
       if \<not> keys_are d [''sequence'', ''observed_monotonic''] \<or> \<not> int_in 0 MAX_SAFE (field d ''sequence'')
       then (Inl ValueError, h)
       else (case finite_number (field d ''observed_monotonic'') of
           Inl e \<Rightarrow> (Inl e, h)
         | Inr None \<Rightarrow> (Inl ValueError, h)
         | Inr (Some stamp) \<Rightarrow>
             if stale h (int_of (field d ''sequence'')) stamp now then (Inl ValueError, h)
             else (Inr (), h\<lparr>hb_sequence := int_of (field d ''sequence''), hb_stamp := stamp\<rparr>))
   | _ \<Rightarrow> (Inl ValueError, h))"

definition hb_check :: "heartbeat \<Rightarrow> pyval \<times> pyval \<Rightarrow> (pyerr + unit) \<times> heartbeat" where
  "hb_check h obs = latch (\<lambda>h. h\<lparr>hb_failed := True\<rparr>)
     (if hb_failed h then (Inl ValueError, h)
      else (case finite_number (snd obs) of
          Inl e \<Rightarrow> (Inl e, h)
        | Inr None \<Rightarrow> (Inl ValueError, h)
        | Inr (Some now) \<Rightarrow>
            if now < hb_now h then (Inl ValueError, h) else hb_observe (fst obs) now (h\<lparr>hb_now := now\<rparr>)))"

text \<open>The observation dict the other components build.\<close>

definition observation :: "pyval \<Rightarrow> pyval \<Rightarrow> pyval" where
  "observation sequence stamp = VDict [(''sequence'', sequence), (''observed_monotonic'', stamp)]"

section \<open>Controller lease\<close>

record control_state =
  cs_sequence :: int
  cs_observed :: rat
  cs_allow_audio :: bool
  cs_hold_epoch :: int

record control_lease =
  cl_nonce :: string
  cl_previous :: "control_state option"
  cl_failed :: bool
  cl_heartbeat :: heartbeat

definition is_nonce :: "string \<Rightarrow> bool" where
  "is_nonce s = full_class is_lower_hex 32 s"

definition mk_control_lease :: "pyval \<Rightarrow> pyerr + control_lease" where
  "mk_control_lease nonce = (case nonce of
     VStr s \<Rightarrow> if is_nonce s
       then Inr \<lparr>cl_nonce = s, cl_previous = None, cl_failed = False, cl_heartbeat = new_heartbeat\<rparr>
       else Inl ValueError
   | _ \<Rightarrow> Inl ValueError)"

definition control_keys :: "string list" where
  "control_keys = [''version'', ''nonce'', ''sequence'', ''observed_monotonic'', ''allow_audio'', ''hold_epoch'']"

definition control_fields :: "string \<Rightarrow> (string \<times> pyval) list \<Rightarrow> bool" where
  "control_fields nonce d =
     (keys_are d control_keys \<and> field d ''version'' = VInt 1 \<and> field d ''nonce'' = VStr nonce \<and>
      is_bool (field d ''allow_audio'') \<and> int_in 0 MAX_SAFE (field d ''hold_epoch''))"

definition number_of :: "pyval \<Rightarrow> rat" where
  "number_of v = (case finite_number v of Inr (Some q) \<Rightarrow> q | _ \<Rightarrow> 0)"

definition control_record :: "(string \<times> pyval) list \<Rightarrow> control_state" where
  "control_record d = \<lparr>cs_sequence = int_of (field d ''sequence''), cs_observed = number_of (field d ''observed_monotonic''),
     cs_allow_audio = (field d ''allow_audio'' = VBool True), cs_hold_epoch = int_of (field d ''hold_epoch'')\<rparr>"

definition lease_check :: "pyval \<Rightarrow> pyval \<Rightarrow> (control_lease, pyerr, unit) act" where
  "lease_check obs now l = (case hb_check (cl_heartbeat l) (obs, now) of (r, h) \<Rightarrow> (r, l\<lparr>cl_heartbeat := h\<rparr>))"

definition recheck_previous :: "pyval \<Rightarrow> (control_lease, pyerr, unit) act" where
  "recheck_previous now l = (case cl_previous l of None \<Rightarrow> (Inr (), l)
     | Some p \<Rightarrow> lease_check (observation (VInt (cs_sequence p)) (VFloat (Finite (cs_observed p)))) now l)"

definition control_conflict :: "control_state \<Rightarrow> control_state option \<Rightarrow> bool" where
  "control_conflict r old = (case old of None \<Rightarrow> False
     | Some p \<Rightarrow> (cs_sequence r = cs_sequence p \<and> r \<noteq> p) \<or> cs_hold_epoch r < cs_hold_epoch p
         \<or> (cs_allow_audio p \<and> \<not> cs_allow_audio r \<and> cs_hold_epoch r = cs_hold_epoch p))"

definition store_record :: "control_state \<Rightarrow> (control_lease, pyerr, control_state) act" where
  "store_record r l = (if control_conflict r (cl_previous l) then (Inl ValueError, l)
     else (Inr r, l\<lparr>cl_previous := Some r\<rparr>))"

definition cl_accept_body :: "raw_text \<Rightarrow> pyval \<Rightarrow> (control_lease, pyerr, control_state) act" where
  "cl_accept_body raw now l =
     (if cl_failed l \<or> 2048 < raw_size raw then (Inl ValueError, l)
      else (case json_loads raw of
          Some (VDict d) \<Rightarrow>
            if \<not> control_fields (cl_nonce l) d then (Inl ValueError, l)
            else abind (recheck_previous now) (\<lambda>_.
                 abind (lease_check (observation (field d ''sequence'') (field d ''observed_monotonic'')) now) (\<lambda>_.
                 store_record (control_record d))) l
        | _ \<Rightarrow> (Inl ValueError, l)))"

definition cl_accept :: "control_lease \<Rightarrow> raw_text \<times> pyval \<Rightarrow> (pyerr + control_state) \<times> control_lease" where
  "cl_accept l i = latch (\<lambda>l. l\<lparr>cl_failed := True\<rparr>) (cl_accept_body (fst i) (snd i) l)"

section \<open>Native group cursor\<close>

datatype group_state = IDLE | UNASSIGNED | GROUPED

fun group_state_of :: "pyval \<Rightarrow> group_state option" where
  "group_state_of (VStr s) = (if s = ''IDLE'' then Some IDLE else if s = ''UNASSIGNED'' then Some UNASSIGNED
     else if s = ''GROUPED'' then Some GROUPED else None)"
| "group_state_of _ = None"

record native_group =
  ng_revision :: int
  ng_connection :: int
  ng_state :: group_state
  ng_group_hash :: string
  ng_event :: rat

record cursor =
  cu_nonce :: string
  cu_pid :: int
  cu_started :: rat
  cu_previous :: "native_group option"
  cu_now :: rat
  cu_failed :: bool
  cu_retired :: "int list"

definition mk_cursor :: "string \<Rightarrow> pyval \<Rightarrow> pyval \<Rightarrow> pyerr + cursor" where
  "mk_cursor nonce pid started =
     (if \<not> is_nonce nonce \<or> \<not> (case pid of VInt p \<Rightarrow> 0 < p | _ \<Rightarrow> False) then Inl ValueError
      else rbind (finite_number started) (\<lambda>s. case s of
          Some q \<Rightarrow> if q < 0 then Inl ValueError
            else Inr \<lparr>cu_nonce = nonce, cu_pid = int_of pid, cu_started = q, cu_previous = None,
                      cu_now = q, cu_failed = False, cu_retired = []\<rparr>
        | None \<Rightarrow> Inl ValueError))"

definition native_keys :: "string list" where
  "native_keys = [''version'', ''nonce'', ''pid'', ''revision'', ''connection'', ''state'', ''group_hash'', ''event_monotonic'']"

definition native_fields :: "cursor \<Rightarrow> (string \<times> pyval) list \<Rightarrow> bool" where
  "native_fields c d =
     (field d ''version'' = VInt 1 \<and> field d ''nonce'' = VStr (cu_nonce c) \<and> field d ''pid'' = VInt (cu_pid c) \<and>
      int_in 1 MAX_SAFE (field d ''revision'') \<and> int_in 0 (2 ^ 31 - 1) (field d ''connection''))"

fun text_of :: "pyval \<Rightarrow> string option" where
  "text_of (VStr s) = Some s"
| "text_of _ = None"

definition native_record :: "cursor \<Rightarrow> rat \<Rightarrow> (string \<times> pyval) list \<Rightarrow> pyerr + native_group" where
  "native_record c now d =
     (if \<not> keys_are d native_keys \<or> \<not> native_fields c d then Inl ValueError
      else rbind (finite_number (field d ''event_monotonic'')) (\<lambda>ev.
        (case (ev, group_state_of (field d ''state''), text_of (field d ''group_hash'')) of
           (Some e, Some s, Some g) \<Rightarrow>
             if \<not> (cu_started c \<le> e \<and> e \<le> now) then Inl ValueError
             else Inr \<lparr>ng_revision = int_of (field d ''revision''), ng_connection = int_of (field d ''connection''),
                       ng_state = s, ng_group_hash = g, ng_event = e\<rparr>
         | _ \<Rightarrow> Inl ValueError)))"

definition native_shape :: "native_group \<Rightarrow> bool" where
  "native_shape r = ((ng_state r = IDLE) = (ng_connection r = 0) \<and>
     (ng_state r = GROUPED \<longrightarrow> full_class is_lower_hex 64 (ng_group_hash r)) \<and>
     (ng_state r \<noteq> GROUPED \<longrightarrow> ng_group_hash r = []))"

definition native_regress :: "native_group \<Rightarrow> native_group \<Rightarrow> bool" where
  "native_regress r p = (ng_revision r < ng_revision p \<or> ng_event r < ng_event p
     \<or> (ng_revision r = ng_revision p \<and> r \<noteq> p))"

definition retires :: "native_group \<Rightarrow> native_group \<Rightarrow> bool" where
  "retires r p = (ng_connection r \<noteq> ng_connection p \<and> ng_connection p \<noteq> 0)"

definition ng_store :: "native_group \<Rightarrow> (cursor, pyerr, native_group) act" where
  "ng_store r c =
     (if \<not> native_shape r \<or> ng_connection r \<in> set (cu_retired c) then (Inl ValueError, c)
      else (case cu_previous c of
          None \<Rightarrow> (Inr r, c\<lparr>cu_previous := Some r\<rparr>)
        | Some p \<Rightarrow>
            if native_regress r p then (Inl ValueError, c)
            else if retires r p
            then (let c' = c\<lparr>cu_retired := List.insert (ng_connection p) (cu_retired c)\<rparr> in
                  if 256 < length (cu_retired c') then (Inl ValueError, c')
                  else (Inr r, c'\<lparr>cu_previous := Some r\<rparr>))
            else (Inr r, c\<lparr>cu_previous := Some r\<rparr>)))"

definition ng_accept_body :: "raw_text \<Rightarrow> rat \<Rightarrow> (cursor, pyerr, native_group) act" where
  "ng_accept_body raw now c = (case json_loads raw of
     Some (VDict d) \<Rightarrow>
       (case native_record c now d of Inl e \<Rightarrow> (Inl e, c) | Inr r \<Rightarrow> ng_store r c)
   | _ \<Rightarrow> (Inl ValueError, c))"

text \<open>One sample: the bytes, the clock, and whether the receiver process is alive.\<close>

definition ng_accept :: "cursor \<Rightarrow> raw_text \<times> pyval \<times> bool \<Rightarrow> (pyerr + native_group) \<times> cursor" where
  "ng_accept c i = (case i of (raw, now, alive) \<Rightarrow> latch (\<lambda>c. c\<lparr>cu_failed := True\<rparr>)
     (if cu_failed c \<or> \<not> alive \<or> 2048 < raw_size raw then (Inl ValueError, c)
      else (case finite_number now of
          Inl e \<Rightarrow> (Inl e, c)
        | Inr None \<Rightarrow> (Inl ValueError, c)
        | Inr (Some n) \<Rightarrow> if n < cu_now c then (Inl ValueError, c)
            else ng_accept_body raw n (c\<lparr>cu_now := n\<rparr>))))"

section \<open>Lemmas\<close>

lemma latch_Inr [simp]: "latch f r = (Inr a, s) \<longleftrightarrow> r = (Inr a, s)"
  by (auto simp: latch_def split: prod.splits sum.splits if_splits)

lemma latch_failed:
  assumes "latch f r = (Inl ValueError, s)"
  shows "\<exists>e s'. r = (Inl e, s') \<and> s = f s'"
  using assms by (auto simp: latch_def split: prod.splits sum.splits if_splits)

lemma latch_snd: "snd (latch f r) = snd r \<or> snd (latch f r) = f (snd r)"
  by (auto simp: latch_def split: prod.splits sum.splits)

lemma int_in_iff: "int_in lo hi v \<longleftrightarrow> (\<exists>i. v = VInt i \<and> lo \<le> i \<and> i \<le> hi)"
  by (cases v) auto

text \<open>An accepted observation, in terms of the state it leaves.\<close>

definition fresh :: "heartbeat \<Rightarrow> heartbeat \<Rightarrow> bool" where
  "fresh h h' = (0 \<le> hb_sequence h' \<and> hb_sequence h \<le> hb_sequence h' \<and> hb_stamp h \<le> hb_stamp h' \<and>
     0 \<le> hb_stamp h' \<and> hb_stamp h' \<le> hb_now h' \<and> hb_now h' < hb_stamp h' + hb_max_age h \<and>
     (hb_sequence h' = hb_sequence h \<longrightarrow> hb_stamp h' = hb_stamp h))"

lemma hb_observe_Inr:
  assumes "hb_observe obs now h = (Inr (), h')" "hb_now h = now"
  shows "fresh h h' \<and> h' = h\<lparr>hb_sequence := hb_sequence h', hb_stamp := hb_stamp h'\<rparr> \<and>
    (\<exists>d. obs = VDict d \<and> keys_are d [''sequence'', ''observed_monotonic''] \<and>
       field d ''sequence'' = VInt (hb_sequence h') \<and> finite_number (field d ''observed_monotonic'') = Inr (Some (hb_stamp h')))"
  using assms
  by (auto simp: hb_observe_def fresh_def stale_def int_in_iff split: pyval.splits if_splits sum.splits option.splits)

lemma hb_observe_frame:
  assumes "hb_observe obs now h = (r, h')"
  shows "hb_failed h' = hb_failed h" "hb_max_age h' = hb_max_age h" "hb_now h' = hb_now h" "hb_sequence h \<le> hb_sequence h'"
  using assms
  by (auto simp: hb_observe_def stale_def split: pyval.splits if_splits sum.splits option.splits)

lemma hb_check_Inr:
  assumes "hb_check h (obs, now) = (Inr (), h')"
  shows "\<not> hb_failed h" "\<not> hb_failed h'" "fresh h h'" "finite_number now = Inr (Some (hb_now h'))" "hb_now h \<le> hb_now h'"
    "hb_max_age h' = hb_max_age h"
    "\<exists>d. obs = VDict d \<and> field d ''sequence'' = VInt (hb_sequence h') \<and>
       finite_number (field d ''observed_monotonic'') = Inr (Some (hb_stamp h'))"
proof -
  obtain n where n: "\<not> hb_failed h" "finite_number now = Inr (Some n)" "\<not> n < hb_now h"
    and o: "hb_observe obs n (h\<lparr>hb_now := n\<rparr>) = (Inr (), h')"
    using assms by (auto simp: hb_check_def split: if_splits sum.splits option.splits)
  note f = hb_observe_frame [OF o] and i = hb_observe_Inr [OF o]
  show "\<not> hb_failed h" "\<not> hb_failed h'" "finite_number now = Inr (Some (hb_now h'))" "hb_now h \<le> hb_now h'"
    "hb_max_age h' = hb_max_age h" using n f by auto
  show "fresh h h'" using i by (auto simp: fresh_def)
  show "\<exists>d. obs = VDict d \<and> field d ''sequence'' = VInt (hb_sequence h') \<and>
       finite_number (field d ''observed_monotonic'') = Inr (Some (hb_stamp h'))" using i by auto
qed

lemma hb_check_frame: "hb_max_age (snd (hb_check h x)) = hb_max_age h" "hb_sequence h \<le> hb_sequence (snd (hb_check h x))"
proof -
  let ?b = "if hb_failed h then (Inl ValueError, h)
      else (case finite_number (snd x) of Inl e \<Rightarrow> (Inl e, h) | Inr None \<Rightarrow> (Inl ValueError, h)
        | Inr (Some now) \<Rightarrow> if now < hb_now h then (Inl ValueError, h) else hb_observe (fst x) now (h\<lparr>hb_now := now\<rparr>))"
  have "hb_max_age (snd ?b) = hb_max_age h \<and> hb_sequence h \<le> hb_sequence (snd ?b)"
    using hb_observe_frame [of "fst x" _ "h\<lparr>hb_now := _\<rparr>"]
    by (auto split: sum.splits option.splits) (metis heartbeat.select_convs heartbeat.simps prod.collapse)+
  then show "hb_max_age (snd (hb_check h x)) = hb_max_age h" "hb_sequence h \<le> hb_sequence (snd (hb_check h x))"
    using latch_snd [of "\<lambda>h. h\<lparr>hb_failed := True\<rparr>" ?b] by (auto simp: hb_check_def)
qed

interpretation hb: forward_cursor hb_check hb_failed "\<lambda>e. e = ValueError" hb_sequence
proof
  fix h x e
  show "hb_failed h \<Longrightarrow> isl (fst (hb_check h x))" by (simp add: hb_check_def latch_def)
  show "hb_failed h \<Longrightarrow> hb_failed (snd (hb_check h x))" by (simp add: hb_check_def latch_def)
  show "fst (hb_check h x) = Inl e \<Longrightarrow> e = ValueError \<Longrightarrow> hb_failed (snd (hb_check h x))"
    using latch_failed [of "\<lambda>h. h\<lparr>hb_failed := True\<rparr>"] by (fastforce simp: hb_check_def prod_eq_iff)
  show "hb_sequence h \<le> hb_sequence (snd (hb_check h x))" by (rule hb_check_frame)
qed

end
