(* ===== verification/AirplayLivenessLaws.thy ===== *)
theory AirplayLivenessLaws
  imports AirplayLiveness
begin

text \<open>
  Laws of the controller lease and of the native group cursor, their interpretation as
  cursors that fail closed and only move forward, and the properties of the three observers.
\<close>

section \<open>Controller lease\<close>

lemma lease_check_Inr:
  assumes "lease_check obs now l = (Inr (), l')"
  shows "\<exists>h. hb_check (cl_heartbeat l) (obs, now) = (Inr (), h) \<and> l' = l\<lparr>cl_heartbeat := h\<rparr>"
  using assms by (auto simp: lease_check_def split: prod.splits)

lemma lease_check_frame:
  "cl_previous (snd (lease_check obs now l)) = cl_previous l" "cl_failed (snd (lease_check obs now l)) = cl_failed l"
  "cl_nonce (snd (lease_check obs now l)) = cl_nonce l"
  by (auto simp: lease_check_def split: prod.splits)

lemma recheck_frame:
  "cl_previous (snd (recheck_previous now l)) = cl_previous l" "cl_failed (snd (recheck_previous now l)) = cl_failed l"
  "cl_nonce (snd (recheck_previous now l)) = cl_nonce l"
  by (auto simp: recheck_previous_def lease_check_frame split: option.splits)

text \<open>The hold epoch reached so far.\<close>

definition epoch_of :: "control_lease \<Rightarrow> int" where
  "epoch_of l = (case cl_previous l of None \<Rightarrow> -1 | Some p \<Rightarrow> max (-1) (cs_hold_epoch p))"

text \<open>The relation between a lease before and after an accepted command.\<close>

definition follows :: "control_state \<Rightarrow> control_state \<Rightarrow> bool" where
  "follows r p = (cs_hold_epoch p \<le> cs_hold_epoch r \<and> (cs_allow_audio p \<and> \<not> cs_allow_audio r \<longrightarrow> cs_hold_epoch p < cs_hold_epoch r)
     \<and> cs_sequence p \<le> cs_sequence r \<and> (cs_sequence r = cs_sequence p \<longrightarrow> r = p))"

lemma cl_accept_body_Inr:
  assumes "cl_accept_body raw now l = (Inr r, l')"
  obtains d l1 l2 where "json_loads raw = Some (VDict d)" "control_fields (cl_nonce l) d" "\<not> cl_failed l" "raw_size raw \<le> 2048"
    "recheck_previous now l = (Inr (), l1)"
    "lease_check (observation (field d ''sequence'') (field d ''observed_monotonic'')) now l1 = (Inr (), l2)"
    "r = control_record d" "\<not> control_conflict r (cl_previous l)" "l' = l2\<lparr>cl_previous := Some r\<rparr>"
proof -
  obtain d where d: "json_loads raw = Some (VDict d)" "control_fields (cl_nonce l) d" "\<not> cl_failed l" "raw_size raw \<le> 2048"
    and b: "abind (recheck_previous now) (\<lambda>_. abind (lease_check (observation (field d ''sequence'') (field d ''observed_monotonic'')) now)
        (\<lambda>_. store_record (control_record d))) l = (Inr r, l')"
    using assms by (auto simp: cl_accept_body_def not_less split: if_splits option.splits pyval.splits)
  then obtain l1 l2 where st: "recheck_previous now l = (Inr (), l1)"
      "lease_check (observation (field d ''sequence'') (field d ''observed_monotonic'')) now l1 = (Inr (), l2)"
      "store_record (control_record d) l2 = (Inr r, l')"
    by (auto simp: abind_def split: prod.splits sum.splits)
  have "cl_previous l2 = cl_previous l"
    using recheck_frame(1) [of now l] lease_check_frame(1) [of _ now l1] st(1,2) by (metis snd_conv)
  then show ?thesis using st d by (intro that) (auto simp: store_record_def split: if_splits)
qed

lemma recheck_previous_Some:
  assumes "recheck_previous now l = (Inr (), l1)" "cl_previous l = Some p"
  shows "hb_sequence (cl_heartbeat l1) = cs_sequence p" "hb_stamp (cl_heartbeat l1) = cs_observed p"
    "fresh (cl_heartbeat l) (cl_heartbeat l1)" "hb_max_age (cl_heartbeat l1) = hb_max_age (cl_heartbeat l)"
    "finite_number now = Inr (Some (hb_now (cl_heartbeat l1)))"
proof -
  have c: "lease_check (observation (VInt (cs_sequence p)) (VFloat (Finite (cs_observed p)))) now l = (Inr (), l1)"
    using assms by (simp add: recheck_previous_def)
  obtain h where h: "hb_check (cl_heartbeat l) (observation (VInt (cs_sequence p)) (VFloat (Finite (cs_observed p))), now) = (Inr (), h)"
    "l1 = l\<lparr>cl_heartbeat := h\<rparr>" using lease_check_Inr [OF c] by blast
  note k = hb_check_Inr [OF h(1)]
  show "hb_sequence (cl_heartbeat l1) = cs_sequence p" "hb_stamp (cl_heartbeat l1) = cs_observed p"
    using k(7) h(2) by (auto simp: observation_def field_def)
  show "fresh (cl_heartbeat l) (cl_heartbeat l1)" "hb_max_age (cl_heartbeat l1) = hb_max_age (cl_heartbeat l)"
    "finite_number now = Inr (Some (hb_now (cl_heartbeat l1)))" using k h(2) by simp_all
qed

lemma cl_accept_Inr:
  assumes "cl_accept l (raw, now) = (Inr r, l')"
  shows "\<not> cl_failed l" "cl_previous l' = Some r" "cl_previous l = Some p \<Longrightarrow> follows r p"
    "\<exists>n. finite_number now = Inr (Some n) \<and> cs_observed r \<le> n \<and> n < cs_observed r + hb_max_age (cl_heartbeat l) \<and>
       (\<forall>p. cl_previous l = Some p \<longrightarrow> n < cs_observed p + hb_max_age (cl_heartbeat l))"
proof -
  have "cl_accept_body raw now l = (Inr r, l')" using assms by (simp add: cl_accept_def)
  then obtain d l1 l2 where b: "json_loads raw = Some (VDict d)" "control_fields (cl_nonce l) d" "\<not> cl_failed l"
    "recheck_previous now l = (Inr (), l1)"
    "lease_check (observation (field d ''sequence'') (field d ''observed_monotonic'')) now l1 = (Inr (), l2)"
    "r = control_record d" "\<not> control_conflict r (cl_previous l)" "l' = l2\<lparr>cl_previous := Some r\<rparr>"
    by (rule cl_accept_body_Inr)
  obtain h where h: "hb_check (cl_heartbeat l1) (observation (field d ''sequence'') (field d ''observed_monotonic''), now) = (Inr (), h)"
    using lease_check_Inr [OF b(5)] by blast
  note k = hb_check_Inr [OF h]
  have r: "cs_sequence r = hb_sequence h" "cs_observed r = hb_stamp h"
    using k(7) by (auto simp: b(6) control_record_def observation_def field_def number_of_def)
  have age: "hb_max_age (cl_heartbeat l1) = hb_max_age (cl_heartbeat l)"
    using b(4) recheck_previous_Some(4) [OF b(4)] by (cases "cl_previous l") (auto simp: recheck_previous_def)
  show "\<not> cl_failed l" "cl_previous l' = Some r" using b by simp_all
  show "follows r p" if "cl_previous l = Some p"
    using b(7) that r k(3) recheck_previous_Some [OF b(4) that]
    by (auto simp: control_conflict_def follows_def fresh_def)
  have "n < cs_observed p + hb_max_age (cl_heartbeat l)" if "cl_previous l = Some p" "finite_number now = Inr (Some n)" for p n
    using recheck_previous_Some [OF b(4) that(1)] that(2) age by (auto simp: fresh_def)
  then show "\<exists>n. finite_number now = Inr (Some n) \<and> cs_observed r \<le> n \<and> n < cs_observed r + hb_max_age (cl_heartbeat l) \<and>
       (\<forall>p. cl_previous l = Some p \<longrightarrow> n < cs_observed p + hb_max_age (cl_heartbeat l))"
    using k(3,4) r(2) age by (auto simp: fresh_def)
qed

lemma cl_body_previous:
  "cl_failed l \<Longrightarrow> cl_failed (snd (cl_accept_body raw now l))"
  "isl (fst (cl_accept_body raw now l)) \<Longrightarrow> cl_previous (snd (cl_accept_body raw now l)) = cl_previous l"
proof -
  show "cl_failed l \<Longrightarrow> cl_failed (snd (cl_accept_body raw now l))" by (simp add: cl_accept_body_def)
  have st: "isl (fst (store_record x l2)) \<Longrightarrow> cl_previous (snd (store_record x l2)) = cl_previous l2" for x l2
    by (auto simp: store_record_def split: if_splits)
  have "isl (fst (abind (recheck_previous now) (\<lambda>_. abind (lease_check o' now) (\<lambda>_. store_record x)) l)) \<Longrightarrow>
    cl_previous (snd (abind (recheck_previous now) (\<lambda>_. abind (lease_check o' now) (\<lambda>_. store_record x)) l)) = cl_previous l" for o' x
    using recheck_frame(1) [of now l] lease_check_frame(1) [of o' now "snd (recheck_previous now l)"]
      st [of x "snd (lease_check o' now (snd (recheck_previous now l)))"]
    by (auto simp: abind_def split: prod.splits sum.splits)
  then show "isl (fst (cl_accept_body raw now l)) \<Longrightarrow> cl_previous (snd (cl_accept_body raw now l)) = cl_previous l"
    by (auto simp: cl_accept_body_def split: option.splits pyval.splits)
qed

interpretation cl: forward_cursor cl_accept cl_failed "\<lambda>e. e = ValueError" epoch_of
proof
  fix l e and i :: "raw_text \<times> pyval"
  obtain raw now where i: "i = (raw, now)" by fastforce
  show "cl_failed l \<Longrightarrow> isl (fst (cl_accept l i))" "cl_failed l \<Longrightarrow> cl_failed (snd (cl_accept l i))"
    by (simp_all add: cl_accept_def latch_def cl_accept_body_def)
  show "fst (cl_accept l i) = Inl e \<Longrightarrow> e = ValueError \<Longrightarrow> cl_failed (snd (cl_accept l i))"
    using latch_failed [of "\<lambda>l. l\<lparr>cl_failed := True\<rparr>"] by (fastforce simp: cl_accept_def prod_eq_iff)
  show "epoch_of l \<le> epoch_of (snd (cl_accept l i))"
  proof (cases "fst (cl_accept l i)")
    case (Inl x)
    then have "isl (fst (cl_accept_body raw now l))"
      by (auto simp: cl_accept_def latch_def i split: prod.splits sum.splits if_splits)
    then show ?thesis
      using cl_body_previous(2) [of raw now l] latch_snd [of "\<lambda>l. l\<lparr>cl_failed := True\<rparr>" "cl_accept_body raw now l"]
      by (auto simp: cl_accept_def i epoch_of_def)
  next
    case (Inr r)
    then have "cl_accept l (raw, now) = (Inr r, snd (cl_accept l i))" by (simp add: i prod_eq_iff)
    note k = cl_accept_Inr [OF this]
    then show ?thesis by (auto simp: epoch_of_def follows_def split: option.splits)
  qed
qed

section \<open>Native group cursor\<close>

lemma ng_store_Inr:
  assumes "ng_store r c = (Inr r', c')"
  shows "r' = r" "native_shape r" "ng_connection r \<notin> set (cu_retired c)" "cu_previous c' = Some r"
    "cu_retired c' = (case cu_previous c of None \<Rightarrow> cu_retired c
       | Some p \<Rightarrow> if retires r p then List.insert (ng_connection p) (cu_retired c) else cu_retired c)"
    "cu_previous c = Some p \<Longrightarrow> \<not> native_regress r p"
  using assms by (auto simp: ng_store_def Let_def split: if_splits option.splits)

lemma ng_store_frame:
  "set (cu_retired c) \<subseteq> set (cu_retired (snd (ng_store r c)))"
  "isl (fst (ng_store r c)) \<Longrightarrow> cu_previous (snd (ng_store r c)) = cu_previous c"
  by (auto simp: ng_store_def Let_def split: option.splits if_splits)

lemma ng_body_frame:
  "set (cu_retired c) \<subseteq> set (cu_retired (snd (ng_accept_body raw n c)))"
  "isl (fst (ng_accept_body raw n c)) \<Longrightarrow> cu_previous (snd (ng_accept_body raw n c)) = cu_previous c"
  using ng_store_frame by (auto simp: ng_accept_body_def split: option.splits pyval.splits sum.splits)

lemma ng_accept_Inr:
  assumes "ng_accept c (raw, now, alive) = (Inr r, c')"
  obtains n where "\<not> cu_failed c" "alive" "finite_number now = Inr (Some n)" "cu_now c \<le> n"
    "ng_store r (c\<lparr>cu_now := n\<rparr>) = (Inr r, c')"
proof -
  obtain n where n: "\<not> cu_failed c" "alive" "finite_number now = Inr (Some n)" "cu_now c \<le> n"
      "ng_accept_body raw n (c\<lparr>cu_now := n\<rparr>) = (Inr r, c')"
    using assms by (auto simp: ng_accept_def not_less split: if_splits sum.splits option.splits)
  then obtain r0 where "ng_store r0 (c\<lparr>cu_now := n\<rparr>) = (Inr r, c')"
    by (auto simp: ng_accept_body_def split: option.splits pyval.splits sum.splits)
  then show ?thesis using n ng_store_Inr(1) by (intro that) auto
qed

lemma ng_accept_Inl_frame:
  "isl (fst (ng_accept c i)) \<Longrightarrow> cu_previous (snd (ng_accept c i)) = cu_previous c"
  "set (cu_retired c) \<subseteq> set (cu_retired (snd (ng_accept c i)))"
proof -
  obtain raw now alive where i: "i = (raw, now, alive)" by (cases i)
  let ?b = "if cu_failed c \<or> \<not> alive \<or> 2048 < raw_size raw then (Inl ValueError, c)
      else (case finite_number now of Inl e \<Rightarrow> (Inl e, c) | Inr None \<Rightarrow> (Inl ValueError, c)
        | Inr (Some n) \<Rightarrow> if n < cu_now c then (Inl ValueError, c) else ng_accept_body raw n (c\<lparr>cu_now := n\<rparr>))"
  have b: "set (cu_retired c) \<subseteq> set (cu_retired (snd ?b))" "isl (fst ?b) \<Longrightarrow> cu_previous (snd ?b) = cu_previous c"
    using ng_body_frame [where c = "c\<lparr>cu_now := n\<rparr>" and raw = raw and n = n for n]
    by (auto split: sum.splits option.splits)
  have "isl (fst (ng_accept c i)) \<Longrightarrow> isl (fst ?b)"
    by (auto simp: ng_accept_def i latch_def split: prod.splits sum.splits if_splits)
  then show "isl (fst (ng_accept c i)) \<Longrightarrow> cu_previous (snd (ng_accept c i)) = cu_previous c"
    "set (cu_retired c) \<subseteq> set (cu_retired (snd (ng_accept c i)))"
    using b latch_snd [of "\<lambda>c. c\<lparr>cu_failed := True\<rparr>" ?b] by (auto simp: ng_accept_def i)
qed

definition revision_of :: "cursor \<Rightarrow> int" where
  "revision_of c = (case cu_previous c of None \<Rightarrow> 0 | Some p \<Rightarrow> max 0 (ng_revision p))"

interpretation ng: forward_cursor ng_accept cu_failed "\<lambda>e. e = ValueError" revision_of
proof
  fix c e and i :: "raw_text \<times> pyval \<times> bool"
  obtain raw now alive where i: "i = (raw, now, alive)" by (cases i)
  show "cu_failed c \<Longrightarrow> isl (fst (ng_accept c i))" "cu_failed c \<Longrightarrow> cu_failed (snd (ng_accept c i))"
    by (simp_all add: ng_accept_def latch_def i)
  show "fst (ng_accept c i) = Inl e \<Longrightarrow> e = ValueError \<Longrightarrow> cu_failed (snd (ng_accept c i))"
    using latch_failed [of "\<lambda>c. c\<lparr>cu_failed := True\<rparr>"] by (fastforce simp: ng_accept_def i prod_eq_iff)
  show "revision_of c \<le> revision_of (snd (ng_accept c i))"
  proof (cases "fst (ng_accept c i)")
    case (Inl x)
    then show ?thesis using ng_accept_Inl_frame(1) [of c i] by (simp add: revision_of_def)
  next
    case (Inr r)
    then have "ng_accept c (raw, now, alive) = (Inr r, snd (ng_accept c i))" by (simp add: i prod_eq_iff)
    then obtain n where "ng_store r (c\<lparr>cu_now := n\<rparr>) = (Inr r, snd (ng_accept c i))" by (rule ng_accept_Inr)
    note k = ng_store_Inr [OF this]
    then show ?thesis by (auto simp: revision_of_def native_regress_def split: option.splits)
  qed
qed

text \<open>A connection once in use is the current one or retired, for ever.\<close>

definition used :: "int \<Rightarrow> cursor \<Rightarrow> bool" where
  "used k c = (k \<in> set (cu_retired c) \<or> (\<exists>p. cu_previous c = Some p \<and> ng_connection p = k))"

lemma used_step:
  assumes "used k c" "k \<noteq> 0"
  shows "used k (snd (ng_accept c i))"
proof (cases "fst (ng_accept c i)")
  case (Inl x)
  then show ?thesis using assms ng_accept_Inl_frame [of c i] by (auto simp: used_def)
next
  case (Inr r)
  obtain raw now alive where i: "i = (raw, now, alive)" by (cases i)
  have "ng_accept c (raw, now, alive) = (Inr r, snd (ng_accept c i))" using Inr by (simp add: i prod_eq_iff)
  then obtain n where "ng_store r (c\<lparr>cu_now := n\<rparr>) = (Inr r, snd (ng_accept c i))" by (rule ng_accept_Inr)
  note s = ng_store_Inr [OF this]
  show ?thesis using assms s(4,5) by (auto simp: used_def retires_def split: option.splits if_splits)
qed

lemma used_run: "used k c \<Longrightarrow> k \<noteq> 0 \<Longrightarrow> used k (snd (ng.run c is))"
  by (induction "is" arbitrary: c) (simp_all add: used_step)

lemma retired_run: "k \<in> set (cu_retired c) \<Longrightarrow> k \<in> set (cu_retired (snd (ng.run c is)))"
  using ng_accept_Inl_frame(2) by (induction "is" arbitrary: c) (auto, blast)

lemma ng_accept_connection:
  assumes "ng_accept c i = (Inr r, c')"
  shows "ng_connection r \<notin> set (cu_retired c)" "cu_previous c' = Some r"
    "cu_previous c = Some p \<Longrightarrow> ng_connection p \<noteq> ng_connection r \<Longrightarrow> ng_connection p \<noteq> 0 \<Longrightarrow> ng_connection p \<in> set (cu_retired c')"
proof -
  obtain raw now alive where i: "i = (raw, now, alive)" by (cases i)
  obtain n where "ng_store r (c\<lparr>cu_now := n\<rparr>) = (Inr r, c')" using ng_accept_Inr assms i by blast
  note s = ng_store_Inr [OF this]
  show "ng_connection r \<notin> set (cu_retired c)" "cu_previous c' = Some r" using s(3,4) by simp_all
  show "cu_previous c = Some p \<Longrightarrow> ng_connection p \<noteq> ng_connection r \<Longrightarrow> ng_connection p \<noteq> 0 \<Longrightarrow> ng_connection p \<in> set (cu_retired c')"
    using s(5) by (auto simp: retires_def)
qed

section \<open>Properties\<close>

text \<open>
  Receiver liveness. An accepted heartbeat is fresh and never goes back: its stamp lies
  at most \<open>max_age\<close> before the clock, sequence and stamp do not decrease, and a repeated
  sequence number repeats the stamp, so repeating an observation never extends its life.
  A refused one is final: no later observation is accepted.
\<close>

theorem heartbeat_contract:
  assumes "hb_check h (obs, now) = (r, h')"
  shows "(r = Inr () \<longrightarrow> \<not> hb_failed h \<and> finite_number now = Inr (Some (hb_now h')) \<and>
      0 \<le> hb_stamp h' \<and> hb_stamp h' \<le> hb_now h' \<and> hb_now h' < hb_stamp h' + hb_max_age h \<and>
      hb_sequence h \<le> hb_sequence h' \<and> hb_stamp h \<le> hb_stamp h' \<and>
      (hb_sequence h' = hb_sequence h \<longrightarrow> hb_stamp h' = hb_stamp h)) \<and>
    (r = Inl ValueError \<longrightarrow> list_all isl (fst (hb.run h' xs))) \<and>
    hb_sequence h \<le> hb_sequence (snd (hb.run h' ys))"
proof -
  have "hb_sequence h \<le> hb_sequence (snd (hb.run h ((obs, now) # ys)))" by (rule hb.run_forward)
  then show ?thesis
    using assms hb_check_Inr [of h obs now h'] hb.no_acceptance_after_refusal [of h "(obs, now)" ValueError h' xs]
    by (auto simp: fresh_def)
qed

theorem heartbeat_contract_witness:
  "hb_check new_heartbeat (observation (VInt 1) (VInt 10), VInt 12) =
     (Inr (), new_heartbeat\<lparr>hb_now := 12, hb_sequence := 1, hb_stamp := 10\<rparr>) \<and>
   (12 :: rat) < 10 + hb_max_age new_heartbeat"
proof -
  have c: "hb_check new_heartbeat (observation (VInt 1) (VInt 10), VInt 12) =
      (Inr (), new_heartbeat\<lparr>hb_now := 12, hb_sequence := 1, hb_stamp := 10\<rparr>)"
    by (simp add: hb_check_def hb_observe_def new_heartbeat_def observation_def keys_are_def field_def
        too_big_for_float_def stale_def MAX_SAFE_def latch_def insert_commute)
  show ?thesis using heartbeat_contract [OF c, of "[]" "[]"] c by (simp add: new_heartbeat_def)
qed

text \<open>
  The controller's audio gate. A command is only accepted while the previous one has not
  expired, so a late pulse never revives an expired owner; the hold epoch never decreases,
  withdrawing permission always starts a new epoch, a repeated sequence number repeats the
  command, and after one refused command none is ever accepted.
\<close>

lemma control_lease_contract:
  assumes "cl_accept l (raw, now) = (r, l')"
  shows "(\<forall>c. r = Inr c \<longrightarrow> \<not> cl_failed l \<and> cl_previous l' = Some c \<and>
      (\<forall>p. cl_previous l = Some p \<longrightarrow> cs_hold_epoch p \<le> cs_hold_epoch c \<and>
         (cs_allow_audio p \<and> \<not> cs_allow_audio c \<longrightarrow> cs_hold_epoch p < cs_hold_epoch c) \<and>
         cs_sequence p \<le> cs_sequence c \<and> (cs_sequence c = cs_sequence p \<longrightarrow> c = p) \<and>
         (\<forall>n. finite_number now = Inr (Some n) \<longrightarrow> n < cs_observed p + hb_max_age (cl_heartbeat l)))) \<and>
    (r = Inl ValueError \<longrightarrow> list_all isl (fst (cl.run l' xs)))"
  using assms cl_accept_Inr [of l raw now _ l'] cl.no_acceptance_after_refusal [of l "(raw, now)" ValueError l' xs]
  by (auto simp: follows_def)

definition example_command :: "int \<Rightarrow> int \<Rightarrow> bool \<Rightarrow> int \<Rightarrow> raw_text" where
  "example_command sequence stamp allow epoch = \<lparr>raw_size = 200, raw_json = Some (VDict
     [(''version'', VInt 1), (''nonce'', VStr (replicate 32 (CHR ''a''))), (''sequence'', VInt sequence),
      (''observed_monotonic'', VInt stamp), (''allow_audio'', VBool allow), (''hold_epoch'', VInt epoch)])\<rparr>"

definition example_lease :: control_lease where
  "example_lease = \<lparr>cl_nonce = replicate 32 (CHR ''a''), cl_previous = None, cl_failed = False, cl_heartbeat = new_heartbeat\<rparr>"

text \<open>
  Native connections do not come back. After a receiver's connection was accepted and a
  different one was accepted later, whatever was read in between, the first connection is
  never accepted again; the revision never decreases along the way.
\<close>

lemma native_connection_retired:
  assumes "ng_accept c i = (Inr r, c1)" "ng_connection r \<noteq> 0"
    and "ng_accept (snd (ng.run c1 is)) j = (Inr r', c2)" "ng_connection r' \<noteq> ng_connection r"
    and "ng_accept (snd (ng.run c2 js)) k = (Inr r'', c3)"
  shows "ng_connection r'' \<noteq> ng_connection r \<and> revision_of c \<le> revision_of c3"
proof
  have "used (ng_connection r) c1" using ng_accept_connection(2) [OF assms(1)] by (auto simp: used_def)
  then have "used (ng_connection r) (snd (ng.run c1 is))" using assms(2) by (rule used_run)
  then have "ng_connection r \<in> set (cu_retired c2)"
    using ng_accept_connection [OF assms(3)] assms(2,4) ng_accept_Inl_frame(2) [of "snd (ng.run c1 is)" j] assms(3)
    by (auto simp: used_def)
  then have "ng_connection r \<in> set (cu_retired (snd (ng.run c2 js)))" by (rule retired_run)
  then show "ng_connection r'' \<noteq> ng_connection r" using ng_accept_connection(1) [OF assms(5)] by auto
  have "revision_of c \<le> revision_of c1" using ng.accept_forward [of c i] assms(1) by simp
  also have "\<dots> \<le> revision_of (snd (ng.run c1 is))" by (rule ng.run_forward)
  also have "\<dots> \<le> revision_of c2" using ng.accept_forward [of "snd (ng.run c1 is)" j] assms(3) by simp
  also have "\<dots> \<le> revision_of (snd (ng.run c2 js))" by (rule ng.run_forward)
  also have "\<dots> \<le> revision_of c3" using ng.accept_forward [of "snd (ng.run c2 js)" k] assms(5) by simp
  finally show "revision_of c \<le> revision_of c3" .
qed

text \<open>
  C17. The gap in the failure latch. An observation whose stamp is an integer too large for a
  float raises \<open>OverflowError\<close> out of the heartbeat and out of the controller lease: the clock
  has advanced but no failure flag is set, and the next valid observation is accepted.
\<close>

theorem overflow_is_not_latched:
  assumes "too_big_for_float big"
  shows "hb_check new_heartbeat (observation (VInt 1) (VInt big), VInt 12) =
      (Inl OverflowError, new_heartbeat\<lparr>hb_now := 12\<rparr>) \<and>
    cl_accept example_lease (example_command 1 big True 0, VInt 12) =
      (Inl OverflowError, example_lease\<lparr>cl_heartbeat := new_heartbeat\<lparr>hb_now := 12\<rparr>\<rparr>) \<and>
    fst (hb_check (new_heartbeat\<lparr>hb_now := 12\<rparr>) (observation (VInt 1) (VInt 10), VInt 12)) = Inr ()"
proof -
  have h: "hb_check new_heartbeat (observation (VInt 1) (VInt big), VInt 12) = (Inl OverflowError, new_heartbeat\<lparr>hb_now := 12\<rparr>)"
    using assms by (simp add: hb_check_def hb_observe_def new_heartbeat_def observation_def keys_are_def field_def
        MAX_SAFE_def latch_def insert_commute) (simp add: too_big_for_float_def)
  then have "cl_accept example_lease (example_command 1 big True 0, VInt 12) =
      (Inl OverflowError, example_lease\<lparr>cl_heartbeat := new_heartbeat\<lparr>hb_now := 12\<rparr>\<rparr>)"
    by (simp add: example_lease_def example_command_def cl_accept_def cl_accept_body_def json_loads_def unique_pairs_def
      control_fields_def control_keys_def keys_are_def field_def MAX_SAFE_def recheck_previous_def lease_check_def
      abind_def latch_def insert_commute)
  moreover have "fst (hb_check (new_heartbeat\<lparr>hb_now := 12\<rparr>) (observation (VInt 1) (VInt 10), VInt 12)) = Inr ()"
    by (simp add: hb_check_def hb_observe_def new_heartbeat_def observation_def keys_are_def field_def
        too_big_for_float_def stale_def MAX_SAFE_def latch_def insert_commute)
  ultimately show ?thesis using h by blast
qed

theorem overflow_is_not_latched_witness:
  "too_big_for_float (2 ^ 1024) \<and>
   hb_check new_heartbeat (observation (VInt 1) (VInt (2 ^ 1024)), VInt 12) = (Inl OverflowError, new_heartbeat\<lparr>hb_now := 12\<rparr>)"
proof -
  have "too_big_for_float (2 ^ 1024)" by (simp add: too_big_for_float_def)
  then show ?thesis using overflow_is_not_latched by blast
qed

end
