(* ===== verification/AirplayAudio.thy ===== *)
theory AirplayAudio
  imports AirplayLivenessLaws
begin

text \<open>
  The owner's side of the audio gate (airplay_bridge/control_owner.py): commands published to
  the receiver, each of which must be acknowledged by the worker before it counts. The exchange
  holds an asyncio lock, so while it awaits the port only the synchronous methods \<open>revoke\<close> and
  \<open>require_held\<close> of other tasks can run; they are the lists of \<open>meanwhile\<close> events. A wait ends with
  the list of what was read, by the timeout or by a cancellation. \<open>ac_published\<close> collects what the
  port was asked to publish. How a float is printed is the parameter \<open>float_text\<close>.
\<close>

section \<open>State\<close>

datatype audio_err = AudioControlRejected | CancelledError | Escapes pyerr

record acknowledgement =
  ak_sequence :: int
  ak_command_sequence :: int
  ak_hold_epoch :: int
  ak_audio_released :: bool
  ak_allow_audio :: bool

text \<open>The validated dictionary, of which an acknowledgement is a part.\<close>

record ack_value = acknowledgement +
  av_observed :: rat

record audio_control =
  ac_lease :: control_lease
  ac_nonce :: string
  ac_timeout :: rat
  ac_sequence :: int
  ac_epoch :: int
  ac_allowed :: bool
  ac_failed :: bool
  ac_revision :: nat
  ac_ack_heartbeat :: heartbeat
  ac_previous_ack :: "ack_value option"
  ac_published :: "raw_text list"

definition mk_audio_control :: "pyval \<Rightarrow> pyval \<Rightarrow> pyerr + audio_control" where
  "mk_audio_control nonce timeout = rbind (mk_control_lease nonce) (\<lambda>lease. rbind (finite_number timeout) (\<lambda>t. case t of
     None \<Rightarrow> Inl ValueError
   | Some q \<Rightarrow> if 0 < q \<and> q < 5
       then Inr \<lparr>ac_lease = lease, ac_nonce = cl_nonce lease, ac_timeout = q, ac_sequence = 0, ac_epoch = 0, ac_allowed = False,
              ac_failed = False, ac_revision = 0, ac_ack_heartbeat = new_heartbeat, ac_previous_ack = None, ac_published = []\<rparr>
       else Inl ValueError))"

definition revoke_control :: "audio_control \<Rightarrow> audio_control" where
  "revoke_control s = s\<lparr>ac_failed := True, ac_allowed := False, ac_revision := ac_revision s + 1\<rparr>"

definition rejects :: "nat \<Rightarrow> audio_control \<Rightarrow> bool" where
  "rejects revision s = (ac_failed s \<or> revision \<noteq> ac_revision s)"

section \<open>The check before a write\<close>

definition held_failure :: "pyerr \<Rightarrow> (audio_control, audio_err, unit) act" where
  "held_failure e s = (if e = ValueError then (Inl AudioControlRejected, revoke_control s) else (Inl (Escapes e), s))"

definition require_held :: "pyval \<Rightarrow> pyval \<Rightarrow> (audio_control, audio_err, unit) act" where
  "require_held now1 now2 s =
     (if rejects (ac_revision s) s then (Inl AudioControlRejected, s)
      else (case (cl_previous (ac_lease s), ac_previous_ack s) of
          (Some p, Some a) \<Rightarrow>
            if cs_allow_audio p \<or> ac_allowed s \<or> ak_allow_audio a \<or> ak_audio_released a then (Inl AudioControlRejected, s)
            else (case lease_check (observation (VInt (cs_sequence p)) (VFloat (Finite (cs_observed p)))) now1 (ac_lease s) of
                (Inl e, l) \<Rightarrow> held_failure e (s\<lparr>ac_lease := l\<rparr>)
              | (Inr _, l) \<Rightarrow>
                  (case hb_check (ac_ack_heartbeat s) (observation (VInt (ak_sequence a)) (VFloat (Finite (av_observed a))), now2) of
                     (Inl e, h) \<Rightarrow> held_failure e (s\<lparr>ac_lease := l, ac_ack_heartbeat := h\<rparr>)
                   | (Inr _, h) \<Rightarrow> (Inr (), s\<lparr>ac_lease := l, ac_ack_heartbeat := h\<rparr>)))
        | _ \<Rightarrow> (Inl AudioControlRejected, s)))"

datatype meanwhile = Revoke | RequireHeld pyval pyval

fun meanwhile_step :: "meanwhile \<Rightarrow> audio_control \<Rightarrow> audio_control" where
  "meanwhile_step Revoke s = revoke_control s"
| "meanwhile_step (RequireHeld t u) s = snd (require_held t u s)"

section \<open>Acknowledgements\<close>

definition ack_keys :: "string list" where
  "ack_keys = [''version'', ''nonce'', ''sequence'', ''observed_monotonic'', ''command_sequence'', ''hold_epoch'',
     ''allow_audio'', ''audio_released'']"

definition ack_fields :: "string \<Rightarrow> (string \<times> pyval) list \<Rightarrow> bool" where
  "ack_fields nonce d =
     (keys_are d ack_keys \<and> field d ''version'' = VInt 1 \<and> field d ''nonce'' = VStr nonce \<and>
      int_in 0 MAX_SAFE (field d ''command_sequence'') \<and> int_in 0 MAX_SAFE (field d ''hold_epoch'') \<and>
      is_bool (field d ''allow_audio'') \<and> is_bool (field d ''audio_released''))"

definition ack_of :: "(string \<times> pyval) list \<Rightarrow> ack_value" where
  "ack_of d = \<lparr>ak_sequence = int_of (field d ''sequence''), ak_command_sequence = int_of (field d ''command_sequence''),
     ak_hold_epoch = int_of (field d ''hold_epoch''), ak_audio_released = (field d ''audio_released'' = VBool True),
     ak_allow_audio = (field d ''allow_audio'' = VBool True), av_observed = number_of (field d ''observed_monotonic'')\<rparr>"

definition ack_regress :: "ack_value \<Rightarrow> ack_value option \<Rightarrow> bool" where
  "ack_regress v old = (case old of None \<Rightarrow> False
     | Some p \<Rightarrow> (ak_sequence p = ak_sequence v \<and> p \<noteq> v) \<or> ak_command_sequence v < ak_command_sequence p
         \<or> ak_hold_epoch v < ak_hold_epoch p)"

definition parse_ack :: "raw_text \<Rightarrow> pyval \<Rightarrow> (audio_control, pyerr, ack_value) act" where
  "parse_ack raw now s =
     (if 2048 < raw_size raw then (Inl ValueError, s)
      else (case json_loads raw of
          Some (VDict d) \<Rightarrow>
            if \<not> ack_fields (ac_nonce s) d then (Inl ValueError, s)
            else (case hb_check (ac_ack_heartbeat s) (observation (field d ''sequence'') (field d ''observed_monotonic''), now) of
                (Inl e, h) \<Rightarrow> (Inl e, s\<lparr>ac_ack_heartbeat := h\<rparr>)
              | (Inr _, h) \<Rightarrow>
                  if ack_regress (ack_of d) (ac_previous_ack s) then (Inl ValueError, s\<lparr>ac_ack_heartbeat := h\<rparr>)
                  else (Inr (ack_of d), s\<lparr>ac_ack_heartbeat := h, ac_previous_ack := Some (ack_of d)\<rparr>))
        | _ \<Rightarrow> (Inl ValueError, s)))"

section \<open>The exchange\<close>

definition quoted :: "string \<Rightarrow> string" where
  "quoted s = CHR 0x22 # s @ [CHR 0x22]"

text \<open>\<open>json.dumps\<close> with its default separators.\<close>

definition command_text :: "(pyval \<Rightarrow> string) \<Rightarrow> pyval \<Rightarrow> audio_control \<Rightarrow> string" where
  "command_text float_text now s =
     ''{'' @ quoted ''version'' @ '': 1, '' @ quoted ''nonce'' @ '': '' @ quoted (ac_nonce s) @ '', '' @
     quoted ''sequence'' @ '': '' @ digits_of_nat (nat (ac_sequence s)) @ '', '' @
     quoted ''observed_monotonic'' @ '': '' @ float_text now @ '', '' @
     quoted ''allow_audio'' @ '': '' @ (if ac_allowed s then ''true'' else ''false'') @ '', '' @
     quoted ''hold_epoch'' @ '': '' @ digits_of_nat (nat (ac_epoch s)) @ ''}''"

definition command_dict :: "pyval \<Rightarrow> audio_control \<Rightarrow> (string \<times> pyval) list" where
  "command_dict now s = [(''version'', VInt 1), (''nonce'', VStr (ac_nonce s)), (''sequence'', VInt (ac_sequence s)),
     (''observed_monotonic'', now), (''allow_audio'', VBool (ac_allowed s)), (''hold_epoch'', VInt (ac_epoch s))]"

definition command :: "(pyval \<Rightarrow> string) \<Rightarrow> pyval \<Rightarrow> audio_control \<Rightarrow> raw_text" where
  "command float_text now s = \<lparr>raw_size = length (command_text float_text now s), raw_json = Some (VDict (command_dict now s))\<rparr>"

datatype ack_read = Missing | AckBytes raw_text pyval | PortError

text \<open>
  The polling loop: one element per acknowledgement read, with what happened since the last one;
  at the end of the list the wait is cut off, after the events \<open>late\<close>.
\<close>

fun wait_ack ::
    "nat \<Rightarrow> bool \<Rightarrow> meanwhile list \<Rightarrow> (meanwhile list \<times> ack_read) list \<Rightarrow> (audio_control, audio_err, acknowledgement) act" where
  "wait_ack revision cancelled late [] s =
     (Inl (if cancelled then CancelledError else AudioControlRejected), revoke_control (fold meanwhile_step late s))"
| "wait_ack revision cancelled late ((ms, r) # rs) s = (let s1 = fold meanwhile_step ms s in
     case r of
       PortError \<Rightarrow> (Inl AudioControlRejected, revoke_control s1)
     | Missing \<Rightarrow> if rejects revision s1 then (Inl AudioControlRejected, revoke_control s1) else wait_ack revision cancelled late rs s1
     | AckBytes raw now \<Rightarrow>
         (case parse_ack raw now s1 of
            (Inl e, s2) \<Rightarrow> (Inl AudioControlRejected, revoke_control s2)
          | (Inr v, s2) \<Rightarrow>
              if rejects revision s2 \<or> ac_sequence s2 < ak_command_sequence v \<or> ac_epoch s2 < ak_hold_epoch v
              then (Inl AudioControlRejected, revoke_control s2)
              else if ak_command_sequence v = ac_sequence s2
              then (if ak_hold_epoch v \<noteq> ac_epoch s2 \<or> ak_allow_audio v \<noteq> ac_allowed s2 \<or> (\<not> ac_allowed s2 \<and> ak_audio_released v)
                    then (Inl AudioControlRejected, revoke_control s2) else (Inr (acknowledgement.truncate v), s2))
              else wait_ack revision cancelled late rs s2))"

datatype publish_outcome = Published | PublishError | PublishCut

record exchange_env =
  xe_now :: pyval
  xe_publish :: publish_outcome
  xe_publish_meanwhile :: "meanwhile list"
  xe_reads :: "(meanwhile list \<times> ack_read) list"
  xe_late :: "meanwhile list"
  xe_cancelled :: bool

definition ordered :: "bool option \<Rightarrow> audio_control \<Rightarrow> audio_control" where
  "ordered allowed s = (case allowed of
     None \<Rightarrow> s\<lparr>ac_sequence := ac_sequence s + 1\<rparr>
   | Some a \<Rightarrow> s\<lparr>ac_epoch := (if a then ac_epoch s else ac_epoch s + 1), ac_allowed := a, ac_sequence := ac_sequence s + 1\<rparr>)"

definition exchange ::
    "(pyval \<Rightarrow> string) \<Rightarrow> bool option \<Rightarrow> exchange_env \<Rightarrow> (audio_control, audio_err, acknowledgement) act" where
  "exchange float_text allowed env s =
     (if rejects (ac_revision s) s then (Inl AudioControlRejected, s)
      else (let s1 = ordered allowed s; raw = command float_text (xe_now env) s1 in
        case cl_accept (ac_lease s1) (raw, xe_now env) of
          (Inl e, l) \<Rightarrow> (Inl AudioControlRejected, revoke_control (s1\<lparr>ac_lease := l\<rparr>))
        | (Inr _, l) \<Rightarrow>
            (let s2 = fold meanwhile_step (xe_publish_meanwhile env) (s1\<lparr>ac_lease := l, ac_published := ac_published s1 @ [raw]\<rparr>) in
             case xe_publish env of
               PublishError \<Rightarrow> (Inl AudioControlRejected, revoke_control s2)
             | PublishCut \<Rightarrow> (Inl (if xe_cancelled env then CancelledError else AudioControlRejected), revoke_control s2)
             | Published \<Rightarrow>
                 if rejects (ac_revision s) s2 then (Inl AudioControlRejected, revoke_control s2)
                 else wait_ack (ac_revision s) (xe_cancelled env) (xe_late env) (xe_reads env) s2)))"

definition hold :: "(pyval \<Rightarrow> string) \<Rightarrow> exchange_env \<Rightarrow> (audio_control, audio_err, acknowledgement) act" where
  "hold float_text = exchange float_text (Some False)"

definition release_audio :: "(pyval \<Rightarrow> string) \<Rightarrow> exchange_env \<Rightarrow> (audio_control, audio_err, acknowledgement) act" where
  "release_audio float_text = exchange float_text (Some True)"

definition pulse :: "(pyval \<Rightarrow> string) \<Rightarrow> exchange_env \<Rightarrow> (audio_control, audio_err, acknowledgement) act" where
  "pulse float_text = exchange float_text None"

section \<open>Histories\<close>

datatype audio_op = Hold exchange_env | Release exchange_env | Pulse exchange_env | Other meanwhile

fun audio_step :: "(pyval \<Rightarrow> string) \<Rightarrow> audio_op \<Rightarrow> audio_control \<Rightarrow> audio_control" where
  "audio_step fl (Hold e) s = snd (hold fl e s)"
| "audio_step fl (Release e) s = snd (release_audio fl e s)"
| "audio_step fl (Pulse e) s = snd (pulse fl e s)"
| "audio_step fl (Other m) s = meanwhile_step m s"

definition audio_run :: "(pyval \<Rightarrow> string) \<Rightarrow> audio_op list \<Rightarrow> audio_control \<Rightarrow> audio_control" where
  "audio_run fl ops s = fold (audio_step fl) ops s"

section \<open>What the other methods leave alone\<close>

definition quiet :: "audio_control \<Rightarrow> audio_control \<Rightarrow> bool" where
  "quiet s t = (ac_nonce t = ac_nonce s \<and> ac_sequence t = ac_sequence s \<and> ac_epoch t = ac_epoch s \<and> ac_published t = ac_published s \<and>
     cl_previous (ac_lease t) = cl_previous (ac_lease s) \<and> ac_previous_ack t = ac_previous_ack s \<and> ac_revision s \<le> ac_revision t \<and>
     (ac_failed s \<longrightarrow> ac_failed t) \<and> (ac_revision t = ac_revision s \<longrightarrow> ac_failed t = ac_failed s \<and> ac_allowed t = ac_allowed s) \<and>
     (ac_revision t \<noteq> ac_revision s \<longrightarrow> ac_failed t) \<and>
     hb_max_age (cl_heartbeat (ac_lease t)) = hb_max_age (cl_heartbeat (ac_lease s)) \<and>
     hb_max_age (ac_ack_heartbeat t) = hb_max_age (ac_ack_heartbeat s))"

lemma quiet_refl [simp]: "quiet s s"
  by (simp add: quiet_def)

lemma quiet_trans: "quiet s t \<Longrightarrow> quiet t u \<Longrightarrow> quiet s u"
  by (auto simp: quiet_def)

lemma quiet_revoke: "quiet s (revoke_control s)"
  by (simp add: quiet_def revoke_control_def)

lemma lease_check_age: "hb_max_age (cl_heartbeat (snd (lease_check obs now l))) = hb_max_age (cl_heartbeat l)"
  using hb_check_frame(1) [of "cl_heartbeat l" "(obs, now)"] by (auto simp: lease_check_def split: prod.splits)

lemma quiet_beats:
  assumes "lease_check obs now (ac_lease s) = (r, l)" "hb_check (ac_ack_heartbeat s) x = (r', h)"
  shows "quiet s (s\<lparr>ac_lease := l\<rparr>)" "quiet s (s\<lparr>ac_lease := l, ac_ack_heartbeat := h\<rparr>)"
  using lease_check_frame(1) [of obs now "ac_lease s"] lease_check_age [of obs now "ac_lease s"] hb_check_frame(1) [of "ac_ack_heartbeat s" x] assms
  by (simp_all add: quiet_def)

lemma quiet_held_failure: "quiet s (snd (held_failure e s))"
  by (simp add: held_failure_def quiet_revoke)

lemma quiet_require_held: "quiet s (snd (require_held t u s))"
proof -
  have "quiet s (snd (held_failure e t))" if "quiet s t" for e t
    using that quiet_held_failure quiet_trans by blast
  then show ?thesis
    using quiet_beats by (auto simp: require_held_def split: option.splits prod.splits sum.splits)
qed

lemma quiet_meanwhile: "quiet s (fold meanwhile_step ms s)"
proof (induction ms arbitrary: s)
  case Nil
  then show ?case by simp
next
  case (Cons m ms)
  have "quiet s (meanwhile_step m s)" by (cases m) (auto simp: quiet_revoke quiet_require_held)
  then show ?case using Cons quiet_trans by fastforce
qed

section \<open>The wait for an acknowledgement\<close>

text \<open>The acknowledgement of exactly the last command.\<close>

definition answers :: "ack_value \<Rightarrow> audio_control \<Rightarrow> bool" where
  "answers v s = (ak_command_sequence v = ac_sequence s \<and> ak_hold_epoch v = ac_epoch s \<and> ak_allow_audio v = ac_allowed s \<and>
     (\<not> ac_allowed s \<longrightarrow> \<not> ak_audio_released v))"

definition same_order :: "audio_control \<Rightarrow> audio_control \<Rightarrow> bool" where
  "same_order s t = (ac_nonce t = ac_nonce s \<and> ac_sequence t = ac_sequence s \<and> ac_epoch t = ac_epoch s \<and> ac_published t = ac_published s \<and>
     cl_previous (ac_lease t) = cl_previous (ac_lease s) \<and>
     hb_max_age (cl_heartbeat (ac_lease t)) = hb_max_age (cl_heartbeat (ac_lease s)) \<and>
     hb_max_age (ac_ack_heartbeat t) = hb_max_age (ac_ack_heartbeat s))"

lemma same_order_trans: "same_order s t \<Longrightarrow> same_order t u \<Longrightarrow> same_order s u"
  by (auto simp: same_order_def)

lemma quiet_same_order: "quiet s t \<Longrightarrow> same_order s t"
  by (simp add: quiet_def same_order_def)

lemma parse_ack_result:
  assumes "parse_ack raw now s = (r, t)"
  shows "same_order s t" "ac_revision t = ac_revision s" "ac_failed t = ac_failed s" "ac_allowed t = ac_allowed s"
    "r = Inr v \<Longrightarrow> ac_previous_ack t = Some v"
  using assms hb_check_frame(1) [of "ac_ack_heartbeat s"]
  by (auto simp: parse_ack_def same_order_def split: if_splits option.splits pyval.splits prod.splits sum.splits) (metis snd_conv)+

lemma wait_ack_result:
  assumes "wait_ack (ac_revision s) c late rs s = (r, t)" "\<not> ac_failed s"
  shows "same_order s t" "isl r \<Longrightarrow> ac_failed t"
    "r = Inr a \<Longrightarrow> \<not> ac_failed t \<and> ac_allowed t = ac_allowed s \<and>
       (\<exists>v. a = acknowledgement.truncate v \<and> ac_previous_ack t = Some v \<and> answers v t)"
proof -
  have "same_order s t \<and> (isl r \<longrightarrow> ac_failed t) \<and> (\<forall>a. r = Inr a \<longrightarrow> \<not> ac_failed t \<and> ac_allowed t = ac_allowed s \<and>
       (\<exists>v. a = acknowledgement.truncate v \<and> ac_previous_ack t = Some v \<and> answers v t))"
    using assms
  proof (induction rs arbitrary: s)
    case Nil
    then show ?case using quiet_trans [OF quiet_meanwhile quiet_revoke, of s late]
      by (auto simp: quiet_same_order revoke_control_def)
  next
    case (Cons e rs)
    obtain ms x where e: "e = (ms, x)" by (cases e)
    let ?s1 = "fold meanwhile_step ms s"
    have q: "quiet s ?s1" by (rule quiet_meanwhile)
    have cut: "same_order s (revoke_control u) \<and> ac_failed (revoke_control u)" if "same_order s u" for u
      using that quiet_same_order [OF quiet_revoke, of u] same_order_trans by (auto simp: revoke_control_def)
    have next_step: ?case if "wait_ack (ac_revision s) c late rs u = (r, t)" "same_order s u" "ac_revision u = ac_revision s"
        "\<not> ac_failed u" "ac_allowed u = ac_allowed s" for u
      using Cons.IH [of u] that same_order_trans by metis
    show ?case
    proof (cases x)
      case Missing
      then show ?thesis using Cons.prems e q cut [OF quiet_same_order [OF q]] next_step [of ?s1]
        by (auto simp: Let_def rejects_def quiet_same_order quiet_def split: if_splits)
    next
      case (AckBytes raw now)
      obtain y s2 where y: "parse_ack raw now ?s1 = (y, s2)" by (cases "parse_ack raw now ?s1")
      note p = parse_ack_result [OF y]
      have so: "same_order s s2" using p(1) quiet_same_order [OF q] same_order_trans by blast
      have al: "\<not> rejects (ac_revision s) s2 \<Longrightarrow> ac_allowed s2 = ac_allowed s \<and> ac_revision s2 = ac_revision s \<and> \<not> ac_failed s2"
        using p(2-4) q by (auto simp: rejects_def quiet_def)
      let ?bad = "\<lambda>v. rejects (ac_revision s) s2 \<or> ac_sequence s2 < ak_command_sequence v \<or> ac_epoch s2 < ak_hold_epoch v"
      have step: "wait_ack (ac_revision s) c late (e # rs) s = (case y of Inl _ \<Rightarrow> (Inl AudioControlRejected, revoke_control s2)
          | Inr v \<Rightarrow> if ?bad v then (Inl AudioControlRejected, revoke_control s2)
              else if ak_command_sequence v = ac_sequence s2
              then (if answers v s2 then (Inr (acknowledgement.truncate v), s2) else (Inl AudioControlRejected, revoke_control s2))
              else wait_ack (ac_revision s) c late rs s2)"
        by (simp add: e AckBytes y Let_def answers_def split: sum.split)
      show ?thesis
      proof (cases y)
        case (Inl err)
        then show ?thesis using Cons.prems(1) cut [OF so] by (auto simp: step)
      next
        case (Inr v)
        show ?thesis
        proof (cases "\<not> ?bad v \<and> ak_command_sequence v \<noteq> ac_sequence s2")
          case True
          then show ?thesis using Cons.prems(1) Inr al so by (intro next_step [of s2]) (auto simp: step)
        next
          case False
          then show ?thesis using Cons.prems(1) Inr al so cut [OF so] p(5) [OF Inr] by (auto simp: step split: if_splits)
        qed
      qed
    next
      case PortError
      then show ?thesis using Cons.prems e cut [OF quiet_same_order [OF q]] by (auto simp: Let_def)
    qed
  qed
  then show "same_order s t" "isl r \<Longrightarrow> ac_failed t"
    "r = Inr a \<Longrightarrow> \<not> ac_failed t \<and> ac_allowed t = ac_allowed s \<and>
       (\<exists>v. a = acknowledgement.truncate v \<and> ac_previous_ack t = Some v \<and> answers v t)" by blast+
qed

section \<open>The exchange\<close>

lemma ordered_facts:
  "ac_sequence (ordered al s) = ac_sequence s + 1" "ac_epoch (ordered al s) = (if al = Some False then ac_epoch s + 1 else ac_epoch s)"
  "ac_allowed (ordered al s) = (case al of None \<Rightarrow> ac_allowed s | Some a \<Rightarrow> a)" "ac_nonce (ordered al s) = ac_nonce s"
  "ac_failed (ordered al s) = ac_failed s" "ac_revision (ordered al s) = ac_revision s" "ac_lease (ordered al s) = ac_lease s"
  "ac_published (ordered al s) = ac_published s" "ac_ack_heartbeat (ordered al s) = ac_ack_heartbeat s"
  by (auto simp: ordered_def split: option.splits)

lemma command_loads: "json_loads (command fl now s) = Some (VDict (command_dict now s)) \<or> json_loads (command fl now s) = None"
  by (simp add: json_loads_def command_def)

lemma cl_accept_age: "hb_max_age (cl_heartbeat (snd (cl_accept l i))) = hb_max_age (cl_heartbeat l)"
proof -
  have st: "hb_max_age (cl_heartbeat (snd (store_record x l2))) = hb_max_age (cl_heartbeat l2)" for x l2
    by (simp add: store_record_def)
  have rp: "hb_max_age (cl_heartbeat (snd (recheck_previous now l2))) = hb_max_age (cl_heartbeat l2)" for now l2
    by (simp add: recheck_previous_def lease_check_age split: option.split)
  have "hb_max_age (cl_heartbeat (snd (cl_accept_body raw now l))) = hb_max_age (cl_heartbeat l)" for raw now
    using rp [of now l] lease_check_age [of _ now "snd (recheck_previous now l)"] st
    by (auto simp: cl_accept_body_def abind_def split: option.splits pyval.splits prod.splits sum.splits) (metis snd_conv)+
  then show ?thesis using latch_snd [of "\<lambda>l. l\<lparr>cl_failed := True\<rparr>" "cl_accept_body (fst i) (snd i) l"]
    by (auto simp: cl_accept_def)
qed

lemma command_accepted:
  assumes "cl_accept l (command fl now s, now) = (Inr r, l')"
  shows "cl_previous l' = Some r" "cs_sequence r = ac_sequence s" "cs_allow_audio r = ac_allowed s" "cs_hold_epoch r = ac_epoch s"
proof -
  have "cl_accept_body (command fl now s) now l = (Inr r, l')" using assms by (simp add: cl_accept_def)
  then obtain d where "json_loads (command fl now s) = Some (VDict d)" "r = control_record d" "cl_previous l' = Some r"
    by (rule cl_accept_body_Inr) auto
  then show "cl_previous l' = Some r" "cs_sequence r = ac_sequence s" "cs_allow_audio r = ac_allowed s" "cs_hold_epoch r = ac_epoch s"
    using command_loads [of fl now s] by (auto simp: control_record_def command_dict_def field_def)
qed

definition command_number :: "raw_text \<Rightarrow> int" where
  "command_number raw = (case raw_json raw of Some (VDict d) \<Rightarrow> int_of (field d ''sequence'') | _ \<Rightarrow> 0)"

lemma command_number_command [simp]: "command_number (command fl now s) = ac_sequence s"
  by (simp add: command_number_def command_def command_dict_def field_def)

text \<open>Both ends agree on the last command, unless the owner has failed.\<close>

definition settled :: "audio_control \<Rightarrow> bool" where
  "settled s = (hb_max_age (cl_heartbeat (ac_lease s)) = 5 \<and> hb_max_age (ac_ack_heartbeat s) = 5 \<and>
     map command_number (ac_published s) = map int [1..<Suc (length (ac_published s))] \<and>
     (ac_failed s \<or> (int (length (ac_published s)) = ac_sequence s \<and>
       (case (cl_previous (ac_lease s), ac_previous_ack s) of
          (None, None) \<Rightarrow> True
        | (Some p, Some a) \<Rightarrow> cs_sequence p = ac_sequence s \<and> cs_allow_audio p = ac_allowed s \<and> cs_hold_epoch p = ac_epoch s \<and> answers a s
        | _ \<Rightarrow> False))))"

lemma settled_quiet: "settled s \<Longrightarrow> quiet s t \<Longrightarrow> settled t"
  by (auto simp: settled_def quiet_def answers_def split: option.splits)

lemma exchange_cases:
  assumes "exchange fl al env s = (r, t)"
  obtains "ac_failed s" "r = Inl AudioControlRejected" "t = s"
  | l where "\<not> ac_failed s" "isl r" "snd (cl_accept (ac_lease s) (command fl (xe_now env) (ordered al s), xe_now env)) = l"
      "t = revoke_control ((ordered al s)\<lparr>ac_lease := l\<rparr>)"
  | l c where "\<not> ac_failed s" "cl_accept (ac_lease s) (command fl (xe_now env) (ordered al s), xe_now env) = (Inr c, l)"
      "same_order ((ordered al s)\<lparr>ac_lease := l, ac_published := ac_published s @ [command fl (xe_now env) (ordered al s)]\<rparr>) t"
      "isl r \<longrightarrow> ac_failed t"
      "\<forall>a. r = Inr a \<longrightarrow> \<not> ac_failed t \<and> ac_allowed t = ac_allowed (ordered al s) \<and>
         (\<exists>v. a = acknowledgement.truncate v \<and> ac_previous_ack t = Some v \<and> answers v t)"
proof (cases "ac_failed s")
  case True
  then show thesis using assms by (intro that(1)) (auto simp: exchange_def rejects_def)
next
  case False
  let ?s1 = "ordered al s" and ?raw = "command fl (xe_now env) (ordered al s)"
  obtain y l where y: "cl_accept (ac_lease s) (?raw, xe_now env) = (y, l)" by (cases "cl_accept (ac_lease s) (?raw, xe_now env)")
  show thesis
  proof (cases y)
    case (Inl e)
    then show thesis using assms y False by (intro that(2)) (auto simp: exchange_def rejects_def ordered_facts Let_def)
  next
    case (Inr c)
    let ?s2 = "?s1\<lparr>ac_lease := l, ac_published := ac_published s @ [?raw]\<rparr>"
    let ?s3 = "fold meanwhile_step (xe_publish_meanwhile env) ?s2"
    have q: "quiet ?s2 ?s3" by (rule quiet_meanwhile)
    have cut: "same_order ?s2 (revoke_control ?s3)" "ac_failed (revoke_control ?s3)"
      using quiet_trans [OF q quiet_revoke] by (auto simp: quiet_same_order revoke_control_def)
    have ex: "exchange fl al env s = (case xe_publish env of
          PublishError \<Rightarrow> (Inl AudioControlRejected, revoke_control ?s3)
        | PublishCut \<Rightarrow> (Inl (if xe_cancelled env then CancelledError else AudioControlRejected), revoke_control ?s3)
        | Published \<Rightarrow> if rejects (ac_revision s) ?s3 then (Inl AudioControlRejected, revoke_control ?s3)
            else wait_ack (ac_revision s) (xe_cancelled env) (xe_late env) (xe_reads env) ?s3)"
      using False y Inr by (simp add: exchange_def rejects_def ordered_facts Let_def)
    show thesis
    proof (cases "xe_publish env = Published \<and> \<not> rejects (ac_revision s) ?s3")
      case True
      then have w: "wait_ack (ac_revision ?s3) (xe_cancelled env) (xe_late env) (xe_reads env) ?s3 = (r, t)" "\<not> ac_failed ?s3"
        "ac_revision ?s3 = ac_revision ?s2"
        using assms by (auto simp: ex rejects_def ordered_facts)
      have "ac_allowed ?s3 = ac_allowed ?s1" using q w(3) by (simp add: quiet_def)
      then show thesis using wait_ack_result [OF w(1,2)] same_order_trans [OF quiet_same_order [OF q]] y Inr False
        by (intro that(3)) auto
    next
      case False
      then show thesis using assms cut y Inr \<open>\<not> ac_failed s\<close>
        by (intro that(3)) (auto simp: ex split: publish_outcome.splits)
    qed
  qed
qed

lemma exchange_settled:
  assumes "settled s" "exchange fl al env s = (r, t)"
  shows "settled t" "isl r \<Longrightarrow> ac_failed t"
    "r = Inr a \<Longrightarrow> \<not> ac_failed t \<and> ak_command_sequence a = ac_sequence s + 1 \<and> ak_hold_epoch a = ac_epoch (ordered al s) \<and>
       ac_allowed t = ac_allowed (ordered al s) \<and> ak_allow_audio a = ac_allowed t \<and> (\<not> ac_allowed t \<longrightarrow> \<not> ak_audio_released a) \<and>
       ac_published t = ac_published s @ [command fl (xe_now env) (ordered al s)]"
proof -
  have "settled t \<and> (isl r \<longrightarrow> ac_failed t) \<and> (\<forall>a. r = Inr a \<longrightarrow> \<not> ac_failed t \<and> ak_command_sequence a = ac_sequence s + 1 \<and>
       ak_hold_epoch a = ac_epoch (ordered al s) \<and>
       ac_allowed t = ac_allowed (ordered al s) \<and> ak_allow_audio a = ac_allowed t \<and> (\<not> ac_allowed t \<longrightarrow> \<not> ak_audio_released a) \<and>
       ac_published t = ac_published s @ [command fl (xe_now env) (ordered al s)])"
    using assms(2)
  proof (cases rule: exchange_cases)
    case 1
    then show ?thesis using assms(1) by simp
  next
    case (2 l)
    have "hb_max_age (cl_heartbeat l) = 5" using assms(1) cl_accept_age 2(3) by (metis settled_def)
    then show ?thesis using 2 assms(1) by (auto simp: settled_def revoke_control_def ordered_facts)
  next
    case (3 l c)
    note acc = command_accepted [OF 3(2)]
    have age: "hb_max_age (cl_heartbeat l) = 5" using assms(1) cl_accept_age 3(2) by (metis settled_def snd_conv)
    have n: "int (length (ac_published s)) = ac_sequence s" using assms(1) 3(1) by (simp add: settled_def)
    have so: "ac_sequence t = ac_sequence s + 1" "ac_epoch t = ac_epoch (ordered al s)" "cl_previous (ac_lease t) = Some c"
        "ac_published t = ac_published s @ [command fl (xe_now env) (ordered al s)]"
        "hb_max_age (cl_heartbeat (ac_lease t)) = 5" "hb_max_age (ac_ack_heartbeat t) = 5"
      using 3(3) acc(1) age assms(1) by (auto simp: same_order_def ordered_facts settled_def)
    have num: "map command_number (ac_published t) = map int [1..<Suc (length (ac_published t))]" "int (length (ac_published t)) = ac_sequence t"
      using assms(1) n by (auto simp: so ordered_facts settled_def)
    show ?thesis
    proof (cases r)
      case (Inl e)
      then show ?thesis using 3(4) so num by (simp add: settled_def)
    next
      case (Inr a)
      then obtain v where v: "\<not> ac_failed t" "ac_allowed t = ac_allowed (ordered al s)" "ac_previous_ack t = Some v" "answers v t"
          "a = acknowledgement.truncate v" using 3(5) by blast
      have "settled t" using so num v acc by (simp add: settled_def ordered_facts)
      then show ?thesis using Inr so v by (simp add: answers_def acknowledgement.truncate_def)
    qed
  qed
  then show "settled t" "isl r \<Longrightarrow> ac_failed t"
    "r = Inr a \<Longrightarrow> \<not> ac_failed t \<and> ak_command_sequence a = ac_sequence s + 1 \<and> ak_hold_epoch a = ac_epoch (ordered al s) \<and>
       ac_allowed t = ac_allowed (ordered al s) \<and> ak_allow_audio a = ac_allowed t \<and> (\<not> ac_allowed t \<longrightarrow> \<not> ak_audio_released a) \<and>
       ac_published t = ac_published s @ [command fl (xe_now env) (ordered al s)]" by blast+
qed

text \<open>The exchange is a checker that fails closed, on every error.\<close>

interpretation owner: fail_closed "\<lambda>s i. exchange fl (fst i) (snd i) s" ac_failed "\<lambda>_. True" for fl
proof
  fix s i e
  show "ac_failed s \<Longrightarrow> isl (fst (exchange fl (fst i) (snd i) s))" "ac_failed s \<Longrightarrow> ac_failed (snd (exchange fl (fst i) (snd i) s))"
    by (simp_all add: exchange_def rejects_def)
  obtain r t where x: "exchange fl (fst i) (snd i) s = (r, t)" by (cases "exchange fl (fst i) (snd i) s")
  show "fst (exchange fl (fst i) (snd i) s) = Inl e \<Longrightarrow> True \<Longrightarrow> ac_failed (snd (exchange fl (fst i) (snd i) s))"
    using x by (cases rule: exchange_cases [OF x]) (auto simp: revoke_control_def)
qed

lemma failed_run: "ac_failed s \<Longrightarrow> ac_failed (audio_run fl ops s) \<and> ac_published (audio_run fl ops s) = ac_published s"
proof (induction ops arbitrary: s)
  case Nil
  then show ?case by (simp add: audio_run_def)
next
  case (Cons op ops)
  have "ac_failed (audio_step fl op s) \<and> ac_published (audio_step fl op s) = ac_published s"
    using Cons.prems quiet_meanwhile [of s "[m]" for m]
    by (cases op) (auto simp: hold_def release_audio_def pulse_def exchange_def rejects_def quiet_def)
  then show ?case using Cons.IH by (auto simp: audio_run_def)
qed

lemma run_settled: "settled s \<Longrightarrow> settled (audio_run fl ops s)"
proof (induction ops arbitrary: s)
  case Nil
  then show ?case by (simp add: audio_run_def)
next
  case (Cons op ops)
  have ex: "settled (snd (exchange fl al e s))" for al e
    using exchange_settled(1) [OF Cons.prems, of fl al e] by (metis prod.collapse)
  have "settled (meanwhile_step m s)" for m using settled_quiet [OF Cons.prems quiet_meanwhile [of s "[m]"]] by simp
  then have "settled (audio_step fl op s)" using ex by (cases op) (simp_all add: hold_def release_audio_def pulse_def)
  then show ?case using Cons.IH by (simp add: audio_run_def)
qed

lemma new_control_settled: "mk_audio_control nonce timeout = Inr s \<Longrightarrow> settled s"
proof -
  assume mk: "mk_audio_control nonce timeout = Inr s"
  obtain l where l: "mk_control_lease nonce = Inr l" using mk by (cases "mk_control_lease nonce") (simp_all add: mk_audio_control_def)
  obtain x where x: "finite_number timeout = Inr x"
    using mk by (cases "finite_number timeout") (simp_all add: mk_audio_control_def l)
  obtain q where q: "finite_number timeout = Inr (Some q)" using mk x by (cases x) (simp_all add: mk_audio_control_def l)
  have s: "ac_lease s = l" "ac_sequence s = 0" "\<not> ac_failed s" "ac_previous_ack s = None" "ac_published s = []" "ac_ack_heartbeat s = new_heartbeat"
    using mk by (cases "0 < q \<and> q < 5"; force simp: mk_audio_control_def l q)+
  have "cl_previous l = None" "cl_heartbeat l = new_heartbeat"
    using l by (auto simp: mk_control_lease_def split: pyval.splits if_splits)
  then show ?thesis using s by (simp add: settled_def new_heartbeat_def)
qed

lemma require_held_Inr:
  assumes "require_held t1 t2 s = (Inr (), s')"
  shows "\<exists>p a n1 n2. cl_previous (ac_lease s) = Some p \<and> ac_previous_ack s = Some a \<and> \<not> ac_failed s \<and>
    \<not> cs_allow_audio p \<and> \<not> ak_allow_audio a \<and> \<not> ak_audio_released a \<and>
    finite_number t1 = Inr (Some n1) \<and> n1 < cs_observed p + hb_max_age (cl_heartbeat (ac_lease s)) \<and>
    finite_number t2 = Inr (Some n2) \<and> n2 < av_observed a + hb_max_age (ac_ack_heartbeat s)"
proof -
  have nf: "\<not> ac_failed s" using assms by (cases "ac_failed s") (simp_all add: require_held_def rejects_def)
  obtain p where p: "cl_previous (ac_lease s) = Some p"
    using assms by (cases "cl_previous (ac_lease s)") (simp_all add: require_held_def rejects_def nf)
  obtain a where a: "ac_previous_ack s = Some a"
    using assms by (cases "ac_previous_ack s") (simp_all add: require_held_def rejects_def nf p)
  let ?l = "lease_check (observation (VInt (cs_sequence p)) (VFloat (Finite (cs_observed p)))) t1 (ac_lease s)"
  let ?h = "hb_check (ac_ack_heartbeat s) (observation (VInt (ak_sequence a)) (VFloat (Finite (av_observed a))), t2)"
  have al: "\<not> (cs_allow_audio p \<or> ac_allowed s \<or> ak_allow_audio a \<or> ak_audio_released a)"
    using assms by (rule contrapos_pn) (simp add: require_held_def rejects_def nf p a)
  have hf: "held_failure e x \<noteq> (Inr (), s')" for e x by (simp add: held_failure_def)
  have ok: "(case ?l of (Inl e, l) \<Rightarrow> held_failure e (s\<lparr>ac_lease := l\<rparr>)
      | (Inr _, l) \<Rightarrow> (case ?h of (Inl e, h) \<Rightarrow> held_failure e (s\<lparr>ac_lease := l, ac_ack_heartbeat := h\<rparr>)
          | (Inr _, h) \<Rightarrow> (Inr (), s\<lparr>ac_lease := l, ac_ack_heartbeat := h\<rparr>))) = (Inr (), s')"
    using assms al by (simp add: require_held_def rejects_def nf p a)
  obtain l h where lh: "?l = (Inr (), l)" "?h = (Inr (), h)"
    using ok hf by (cases ?l; cases "fst ?l"; cases ?h; cases "fst ?h") auto
  obtain g where g: "hb_check (cl_heartbeat (ac_lease s)) (observation (VInt (cs_sequence p)) (VFloat (Finite (cs_observed p))), t1) = (Inr (), g)"
    using lease_check_Inr [OF lh(1)] by blast
  note kg = hb_check_Inr [OF g] and kh = hb_check_Inr [OF lh(2)]
  have "hb_stamp g = cs_observed p" "hb_stamp h = av_observed a"
    using kg(7) kh(7) by (auto simp: observation_def field_def)
  then show ?thesis using nf p a al kg(3,4) kh(3,4) by (auto simp: fresh_def)
qed

section \<open>Properties\<close>

text \<open>
  C9. The audio gate is closed only on the worker's word. In every history of an owner, a hold
  that returns was acknowledged for exactly this command, in a new hold epoch, with audio neither
  allowed nor released; the check before a write passes only if the last published command forbids
  audio, was acknowledged as such, and both are less than five seconds old. Published commands are
  numbered consecutively. After one failed or cancelled exchange nothing is published and nothing
  succeeds, whatever is tried.
\<close>

theorem audio_gate:
  assumes "mk_audio_control nonce timeout = Inr s0" "s = audio_run fl ops s0"
  shows "(hold fl env s = (Inr a, s') \<longrightarrow>
      ak_command_sequence a = ac_sequence s + 1 \<and> ak_hold_epoch a = ac_epoch s + 1 \<and> \<not> ak_allow_audio a \<and> \<not> ak_audio_released a \<and>
      map command_number (ac_published s') = map command_number (ac_published s) @ [ak_command_sequence a]) \<and>
    (require_held t1 t2 s = (Inr (), s') \<longrightarrow> (\<exists>p a n1 n2. cl_previous (ac_lease s) = Some p \<and> ac_previous_ack s = Some a \<and>
      ak_command_sequence a = cs_sequence p \<and> cs_sequence p = int (length (ac_published s)) \<and>
      \<not> cs_allow_audio p \<and> \<not> ak_allow_audio a \<and> \<not> ak_audio_released a \<and>
      finite_number t1 = Inr (Some n1) \<and> n1 < cs_observed p + 5 \<and> finite_number t2 = Inr (Some n2) \<and> n2 < av_observed a + 5)) \<and>
    map command_number (ac_published s) = map int [1..<Suc (length (ac_published s))] \<and>
    (isl (fst (exchange fl al env s)) \<longrightarrow> (let u = audio_run fl later (snd (exchange fl al env s)) in
      isl (fst (exchange fl al' env' u)) \<and> isl (fst (require_held t1 t2 u)) \<and>
      ac_published u = ac_published (snd (exchange fl al env s))))"
proof (intro conjI)
  have st: "settled s" unfolding assms(2) by (rule run_settled [OF new_control_settled [OF assms(1)]])
  show "map command_number (ac_published s) = map int [1..<Suc (length (ac_published s))]" using st by (simp add: settled_def)
  show "hold fl env s = (Inr a, s') \<longrightarrow>
      ak_command_sequence a = ac_sequence s + 1 \<and> ak_hold_epoch a = ac_epoch s + 1 \<and> \<not> ak_allow_audio a \<and> \<not> ak_audio_released a \<and>
      map command_number (ac_published s') = map command_number (ac_published s) @ [ak_command_sequence a]"
    using exchange_settled(3) [OF st, of fl "Some False" env "Inr a" s' a] by (auto simp: hold_def ordered_facts)
  show "require_held t1 t2 s = (Inr (), s') \<longrightarrow> (\<exists>p a n1 n2. cl_previous (ac_lease s) = Some p \<and> ac_previous_ack s = Some a \<and>
      ak_command_sequence a = cs_sequence p \<and> cs_sequence p = int (length (ac_published s)) \<and>
      \<not> cs_allow_audio p \<and> \<not> ak_allow_audio a \<and> \<not> ak_audio_released a \<and>
      finite_number t1 = Inr (Some n1) \<and> n1 < cs_observed p + 5 \<and> finite_number t2 = Inr (Some n2) \<and> n2 < av_observed a + 5)"
    using require_held_Inr [of t1 t2 s s'] st by (auto simp: settled_def answers_def)
  show "isl (fst (exchange fl al env s)) \<longrightarrow> (let u = audio_run fl later (snd (exchange fl al env s)) in
      isl (fst (exchange fl al' env' u)) \<and> isl (fst (require_held t1 t2 u)) \<and>
      ac_published u = ac_published (snd (exchange fl al env s)))"
  proof
    assume "isl (fst (exchange fl al env s))"
    then have "ac_failed (snd (exchange fl al env s))"
      using exchange_settled(2) [OF st, of fl al env] by (metis prod.collapse)
    note f = failed_run [OF this, of fl later]
    then show "let u = audio_run fl later (snd (exchange fl al env s)) in
      isl (fst (exchange fl al' env' u)) \<and> isl (fst (require_held t1 t2 u)) \<and>
      ac_published u = ac_published (snd (exchange fl al env s))"
      using owner.refuses_when_failed [of _ fl "(al', env')"] by (simp add: Let_def require_held_def rejects_def)
  qed
qed

definition example_control :: audio_control where
  "example_control = (case mk_audio_control (VStr (replicate 32 CHR ''a'')) (VInt 2) of Inr s \<Rightarrow> s | Inl _ \<Rightarrow> undefined)"

text \<open>A hold at second 10, acknowledged at second 11 after one poll that found nothing.\<close>

definition example_hold :: exchange_env where
  "example_hold = \<lparr>xe_now = VInt 10, xe_publish = Published, xe_publish_meanwhile = [],
     xe_reads = [([], Missing), ([], AckBytes \<lparr>raw_size = 200, raw_json = Some (VDict
       [(''version'', VInt 1), (''nonce'', VStr (replicate 32 CHR ''a'')), (''sequence'', VInt 1), (''observed_monotonic'', VInt 11),
        (''command_sequence'', VInt 1), (''hold_epoch'', VInt 1), (''allow_audio'', VBool False), (''audio_released'', VBool False)])\<rparr> (VInt 11))],
     xe_late = [], xe_cancelled = False\<rparr>"

theorem audio_gate_witness:
  "\<exists>a. fst (hold (\<lambda>_. ''10.0'') example_hold example_control) = Inr a \<and> ak_command_sequence a = 1 \<and> ak_hold_epoch a = 1 \<and> \<not> ak_audio_released a"
proof -
  have mk: "mk_audio_control (VStr (replicate 32 CHR ''a'')) (VInt 2) = Inr example_control" by code_simp
  have "\<not> isl (fst (hold (\<lambda>_. ''10.0'') example_hold example_control))" by code_simp
  then obtain a s' where h: "hold (\<lambda>_. ''10.0'') example_hold example_control = (Inr a, s')"
    by (cases "hold (\<lambda>_. ''10.0'') example_hold example_control"; cases "fst (hold (\<lambda>_. ''10.0'') example_hold example_control)") auto
  have "ac_sequence example_control = 0" "ac_epoch example_control = 0" by code_simp+
  then show ?thesis
    using audio_gate [OF mk, of example_control "\<lambda>_. ''10.0''" "[]" example_hold a s'] h by (simp add: audio_run_def)
qed

end
