(* ===== verification/AirplayRelay.thy ===== *)
theory AirplayRelay
  imports Prelude
begin

text \<open>
  Playback control and audio of one receiver pilot: the pilot's playback state and the
  cursor over its snapshots (airplay_bridge/lifecycle.py), and the bounded PCM relay
  (airplay_bridge/audio.py). A buffer is a list of bytes.
\<close>

section \<open>Playback lifecycle\<close>

datatype pb_state = PB_WAITING | PB_PLAYING | PB_PAUSED | PB_ENDED

fun pb_name :: "pb_state \<Rightarrow> string" where
  "pb_name PB_WAITING = ''WAITING''"
| "pb_name PB_PLAYING = ''PLAYING''"
| "pb_name PB_PAUSED = ''PAUSED''"
| "pb_name PB_ENDED = ''ENDED''"

definition PB_STATES :: "string list" where
  "PB_STATES = [''WAITING'', ''PLAYING'', ''PAUSED'', ''ENDED'']"

definition CONTROL_CODES :: "string list" where
  "CONTROL_CODES = [''pbeg'', ''pend'', ''pfls'', ''prsm'', ''paus'', ''pres'']"

definition MAX_COUNTER :: int where
  "MAX_COUNTER = 2 ^ 53 - 1"

definition ends_stream :: "string \<Rightarrow> string \<Rightarrow> bool" where
  "ends_stream kind code = (kind = ''ssnc'' \<and> code = ''pend'')"

record pilot =
  pb_state :: pb_state
  pb_sequence :: int
  pb_epoch :: int

definition new_pilot :: pilot where
  "new_pilot = \<lparr>pb_state = PB_WAITING, pb_sequence = 0, pb_epoch = 0\<rparr>"

definition pb_apply :: "string \<Rightarrow> string \<Rightarrow> pilot \<Rightarrow> bool \<times> pilot" where
  "pb_apply kind code p =
     (if kind \<noteq> ''ssnc'' \<or> code \<notin> set CONTROL_CODES \<or> pb_state p = PB_ENDED then (False, p)
      else (let p' =
          (if MAX_COUNTER - 1 \<le> pb_sequence p \<or> MAX_COUNTER - 1 \<le> pb_epoch p then p\<lparr>pb_state := PB_ENDED\<rparr>
           else if ends_stream kind code then p\<lparr>pb_state := PB_ENDED, pb_epoch := pb_epoch p + 1\<rparr>
           else if code \<in> {''paus'', ''pfls''} then p\<lparr>pb_state := PB_PAUSED, pb_epoch := pb_epoch p + 1\<rparr>
           else if code \<in> {''pres'', ''prsm''} \<or> pb_state p = PB_WAITING then p\<lparr>pb_state := PB_PLAYING\<rparr>
           else p)
        in (True, p'\<lparr>pb_sequence := pb_sequence p' + 1\<rparr>)))"

definition pb_snapshot :: "pilot \<Rightarrow> pyval" where
  "pb_snapshot p = VDict [(''state'', VStr (pb_name (pb_state p))), (''sequence'', VInt (pb_sequence p)),
     (''buffer_epoch'', VInt (pb_epoch p))]"

record snapshot =
  sn_state :: string
  sn_sequence :: int
  sn_epoch :: int

fun counter :: "pyval \<Rightarrow> int option" where
  "counter (VInt i) = (if 0 \<le> i \<and> i \<le> MAX_COUNTER then Some i else None)"
| "counter _ = None"

definition read_snapshot :: "pyval \<Rightarrow> snapshot option" where
  "read_snapshot v = (case v of
     VDict d \<Rightarrow>
       if \<not> keys_are d [''state'', ''sequence'', ''buffer_epoch''] then None
       else (case (map_of d ''state'', Option.bind (map_of d ''sequence'') counter,
                   Option.bind (map_of d ''buffer_epoch'') counter) of
           (Some (VStr s), Some q, Some e) \<Rightarrow>
             if s \<in> set PB_STATES \<and> e \<le> q then Some \<lparr>sn_state = s, sn_sequence = q, sn_epoch = e\<rparr> else None
         | _ \<Rightarrow> None)
   | _ \<Rightarrow> None)"

type_synonym pb_cursor = "snapshot option"

definition pc_accept :: "pyval \<Rightarrow> (pb_cursor, pyerr, bool) act" where
  "pc_accept v prev = (case read_snapshot v of
     None \<Rightarrow> (Inl ValueError, prev)
   | Some s \<Rightarrow>
       (case prev of
          None \<Rightarrow> (Inr True, Some s)
        | Some p \<Rightarrow>
            if s = p then (Inr False, prev)
            else if sn_sequence s \<le> sn_sequence p \<or> sn_epoch s < sn_epoch p \<or> sn_state p = ''ENDED''
            then (Inl ValueError, prev) else (Inr True, Some s)))"

section \<open>PCM relay\<close>

datatype relay_state = R_IDLE | R_ACTIVE | R_PAUSED | R_EXPIRED | R_FAILED

record pcm_format =
  sample_rate :: int
  sample_bytes :: int
  channels :: int

definition mk_pcm :: "int \<Rightarrow> int \<Rightarrow> int \<Rightarrow> pyerr + pcm_format" where
  "mk_pcm rate bytes ch =
     (if rate \<notin> {44100, 48000} \<or> bytes \<notin> {2, 4} \<or> ch \<noteq> 2 then Inl ValueError
      else Inr \<lparr>sample_rate = rate, sample_bytes = bytes, channels = ch\<rparr>)"

definition frame_bytes :: "pcm_format \<Rightarrow> nat" where
  "frame_bytes f = nat (sample_rate f div 50 * sample_bytes f * channels f)"

type_synonym byte = nat

record relay =
  rl_pcm :: pcm_format
  rl_state :: relay_state
  rl_generation :: int
  rl_limit :: nat
  rl_silence_limit :: nat
  rl_run_silence :: nat
  rl_pause_limit :: "nat option"
  rl_pause_frames :: nat
  rl_buffer :: "byte list"
  rl_silence_frames :: nat
  rl_audio_frames :: nat

definition in_steps :: "int \<Rightarrow> int \<Rightarrow> bool" where
  "in_steps hi ms = (20 \<le> ms \<and> ms \<le> hi \<and> ms mod 20 = 0)"

definition mk_relay :: "pcm_format \<Rightarrow> int \<Rightarrow> int \<Rightarrow> int option \<Rightarrow> pyerr + relay" where
  "mk_relay pcm max_buffer_ms max_silence_ms max_pause_ms =
     (if \<not> in_steps 2000 max_buffer_ms then Inl ValueError
      else if \<not> in_steps 30000 max_silence_ms then Inl ValueError
      else if \<not> pred_option (in_steps 900000) max_pause_ms then Inl ValueError
      else Inr \<lparr>rl_pcm = pcm, rl_state = R_IDLE, rl_generation = 0,
        rl_limit = frame_bytes pcm * nat (max_buffer_ms div 20), rl_silence_limit = nat (max_silence_ms div 20),
        rl_run_silence = 0, rl_pause_limit = map_option (\<lambda>ms. nat (ms div 20)) max_pause_ms, rl_pause_frames = 0,
        rl_buffer = [], rl_silence_frames = 0, rl_audio_frames = 0\<rparr>)"

definition buffered_bytes :: "relay \<Rightarrow> nat" where
  "buffered_bytes r = length (rl_buffer r)"

definition available_bytes :: "relay \<Rightarrow> int" where
  "available_bytes r = int (rl_limit r) - int (length (rl_buffer r))"

definition rl_begin :: "relay \<Rightarrow> int \<times> relay" where
  "rl_begin r = (rl_generation r + 1, r\<lparr>rl_generation := rl_generation r + 1, rl_state := R_ACTIVE, rl_buffer := [],
     rl_run_silence := 0, rl_silence_frames := 0, rl_audio_frames := 0, rl_pause_frames := 0\<rparr>)"

text \<open>\<open>BufferError\<close> is the only exception; it is the left summand.\<close>

definition rl_feed :: "int \<Rightarrow> byte list \<Rightarrow> relay \<Rightarrow> (unit + bool) \<times> relay" where
  "rl_feed generation bs r =
     (if generation \<noteq> rl_generation r \<or> rl_state r \<noteq> R_ACTIVE then (Inr False, r)
      else if rl_limit r < length (rl_buffer r) + length bs
      then (Inl (), r\<lparr>rl_buffer := [], rl_state := R_FAILED\<rparr>)
      else (Inr True, r\<lparr>rl_buffer := rl_buffer r @ bs\<rparr>))"

definition rl_pause :: "int \<Rightarrow> relay \<Rightarrow> bool \<times> relay" where
  "rl_pause generation r =
     (if generation \<noteq> rl_generation r \<or> rl_state r \<noteq> R_ACTIVE then (False, r)
      else (True, r\<lparr>rl_state := R_PAUSED, rl_buffer := []\<rparr>))"

definition rl_resume :: "int \<Rightarrow> relay \<Rightarrow> bool \<times> relay" where
  "rl_resume generation r =
     (if generation \<noteq> rl_generation r \<or> rl_state r \<noteq> R_PAUSED then (False, r)
      else (True, r\<lparr>rl_state := R_ACTIVE\<rparr>))"

definition rl_end :: "int \<Rightarrow> relay \<Rightarrow> bool \<times> relay" where
  "rl_end generation r =
     (if generation \<noteq> rl_generation r then (False, r) else (True, r\<lparr>rl_buffer := [], rl_state := R_IDLE\<rparr>))"

definition rl_frame :: "relay \<Rightarrow> byte list option \<times> relay" where
  "rl_frame r =
     (if rl_state r \<notin> {R_ACTIVE, R_PAUSED} then (None, r)
      else (let size = frame_bytes (rl_pcm r) in
        if rl_state r = R_ACTIVE \<and> size \<le> length (rl_buffer r)
        then (Some (take size (rl_buffer r)), r\<lparr>rl_buffer := drop size (rl_buffer r), rl_run_silence := 0,
                rl_pause_frames := 0, rl_audio_frames := rl_audio_frames r + 1\<rparr>)
        else (let paused = rl_state r = R_PAUSED \<and> rl_pause_limit r \<noteq> None;
                  expired = (case rl_pause_limit r of
                     Some n \<Rightarrow> if paused then n \<le> rl_pause_frames r else rl_silence_limit r \<le> rl_run_silence r
                   | None \<Rightarrow> rl_silence_limit r \<le> rl_run_silence r)
              in if expired then (None, r\<lparr>rl_buffer := [], rl_state := R_EXPIRED\<rparr>)
                 else (Some (replicate size 0),
                   (if paused then r\<lparr>rl_pause_frames := rl_pause_frames r + 1\<rparr>
                    else r\<lparr>rl_run_silence := rl_run_silence r + 1\<rparr>)\<lparr>rl_silence_frames := rl_silence_frames r + 1\<rparr>))))"

section \<open>Operations of a session\<close>

datatype relay_op = Begin | Feed int "byte list" | Pause int | Resume int | EndSession int | Frame

fun rl_step :: "relay_op \<Rightarrow> relay \<Rightarrow> relay" where
  "rl_step Begin r = snd (rl_begin r)"
| "rl_step (Feed g bs) r = snd (rl_feed g bs r)"
| "rl_step (Pause g) r = snd (rl_pause g r)"
| "rl_step (Resume g) r = snd (rl_resume g r)"
| "rl_step (EndSession g) r = snd (rl_end g r)"
| "rl_step Frame r = snd (rl_frame r)"

definition rl_run :: "relay_op list \<Rightarrow> relay \<Rightarrow> relay" where
  "rl_run ops r = foldl (\<lambda>r p. rl_step p r) r ops"

fun feeds_audio :: "relay_op \<Rightarrow> bool" where
  "feeds_audio (Feed g bs) = True"
| "feeds_audio Begin = True"
| "feeds_audio _ = False"

text \<open>The frames of a run of operations, and the bytes that came from its buffer.\<close>

fun rl_frames :: "relay_op list \<Rightarrow> relay \<Rightarrow> byte list option list" where
  "rl_frames [] r = []"
| "rl_frames (p # ps) r = (if p = Frame then fst (rl_frame r) # rl_frames ps (rl_step p r) else rl_frames ps (rl_step p r))"

fun rl_audio :: "relay_op list \<Rightarrow> relay \<Rightarrow> byte list" where
  "rl_audio [] r = []"
| "rl_audio (p # ps) r =
     (if p = Frame \<and> rl_audio_frames r < rl_audio_frames (snd (rl_frame r)) then the (fst (rl_frame r)) else [])
     @ rl_audio ps (rl_step p r)"

fun rl_input :: "relay_op list \<Rightarrow> byte list" where
  "rl_input [] = []"
| "rl_input (Feed g bs # ps) = bs @ rl_input ps"
| "rl_input (p # ps) = rl_input ps"

section \<open>Lemmas on the relay\<close>

lemmas rl_defs = rl_begin_def rl_feed_def rl_pause_def rl_resume_def rl_end_def

lemma rl_frame_cases:
  obtains (idle) "rl_state r \<notin> {R_ACTIVE, R_PAUSED}" "rl_frame r = (None, r)"
  | (audio) "rl_state r = R_ACTIVE" "frame_bytes (rl_pcm r) \<le> length (rl_buffer r)"
      "rl_frame r = (Some (take (frame_bytes (rl_pcm r)) (rl_buffer r)), r\<lparr>rl_buffer := drop (frame_bytes (rl_pcm r)) (rl_buffer r),
         rl_run_silence := 0, rl_pause_frames := 0, rl_audio_frames := rl_audio_frames r + 1\<rparr>)"
  | (expired) "rl_frame r = (None, r\<lparr>rl_buffer := [], rl_state := R_EXPIRED\<rparr>)"
  | (pause) n where "rl_state r = R_PAUSED" "rl_pause_limit r = Some n" "rl_pause_frames r < n"
      "rl_frame r = (Some (replicate (frame_bytes (rl_pcm r)) 0),
         r\<lparr>rl_pause_frames := rl_pause_frames r + 1, rl_silence_frames := rl_silence_frames r + 1\<rparr>)"
  | (silence) "rl_state r \<in> {R_ACTIVE, R_PAUSED}" "rl_run_silence r < rl_silence_limit r" "rl_state r = R_PAUSED \<or> length (rl_buffer r) < frame_bytes (rl_pcm r)"
      "rl_frame r = (Some (replicate (frame_bytes (rl_pcm r)) 0),
         r\<lparr>rl_run_silence := rl_run_silence r + 1, rl_silence_frames := rl_silence_frames r + 1\<rparr>)"
proof (cases "rl_state r \<in> {R_ACTIVE, R_PAUSED}")
  case False
  then show ?thesis by (intro idle) (auto simp: rl_frame_def)
next
  case st: True
  show ?thesis
  proof (cases "rl_state r = R_ACTIVE \<and> frame_bytes (rl_pcm r) \<le> length (rl_buffer r)")
    case True
    then show ?thesis by (intro audio) (auto simp: rl_frame_def Let_def)
  next
    case low: False
    show ?thesis
    proof (cases "rl_state r = R_PAUSED \<and> rl_pause_limit r \<noteq> None")
      case True
      then obtain n where n: "rl_state r = R_PAUSED" "rl_pause_limit r = Some n" by auto
      show ?thesis
      proof (cases "n \<le> rl_pause_frames r")
        case True
        then show ?thesis using n by (intro expired) (simp add: rl_frame_def Let_def)
      next
        case False
        then show ?thesis using n by (intro pause [of n]) (simp_all add: rl_frame_def Let_def)
      qed
    next
      case other: False
      show ?thesis
      proof (cases "rl_silence_limit r \<le> rl_run_silence r")
        case True
        then show ?thesis using st low other by (intro expired) (auto simp: rl_frame_def Let_def split: option.splits)
      next
        case False
        then show ?thesis using st low other by (intro silence) (auto simp: rl_frame_def Let_def split: option.splits)
      qed
    qed
  qed
qed

definition relay_ok :: "relay \<Rightarrow> bool" where
  "relay_ok r = (length (rl_buffer r) \<le> rl_limit r \<and> rl_run_silence r \<le> rl_silence_limit r \<and>
     pred_option (\<lambda>n. rl_pause_frames r \<le> n) (rl_pause_limit r) \<and> (rl_state r \<in> {R_EXPIRED, R_FAILED, R_PAUSED} \<longrightarrow> rl_buffer r = []))"

lemma relay_ok_step: "relay_ok r \<Longrightarrow> relay_ok (rl_step p r)"
proof (cases p)
  case Frame
  assume "relay_ok r"
  then show ?thesis unfolding Frame
    by (cases r rule: rl_frame_cases) (auto simp: relay_ok_def option.pred_set)
qed (auto simp: rl_defs relay_ok_def option.pred_set)

lemma relay_ok_run: "relay_ok r \<Longrightarrow> relay_ok (rl_run ops r)"
  by (induction ops arbitrary: r) (simp_all add: rl_run_def relay_ok_step)

lemma mk_relay_ok: "mk_relay pcm b s p = Inr r \<Longrightarrow> relay_ok r"
  by (auto simp: mk_relay_def relay_ok_def option.pred_set split: if_splits)

text \<open>The silence a relay can still emit without new input.\<close>

definition silence_budget :: "relay \<Rightarrow> nat" where
  "silence_budget r = (if rl_state r \<in> {R_ACTIVE, R_PAUSED}
     then (rl_silence_limit r - rl_run_silence r) + (case rl_pause_limit r of None \<Rightarrow> 0 | Some n \<Rightarrow> n - rl_pause_frames r)
     else 0)"

definition starved :: "relay \<Rightarrow> bool" where
  "starved r = (length (rl_buffer r) < frame_bytes (rl_pcm r))"

lemma starved_step:
  assumes "starved r" "\<not> feeds_audio p"
  shows "starved (rl_step p r)"
    and "silence_budget (rl_step p r) + (if p = Frame \<and> fst (rl_frame r) \<noteq> None then 1 else 0) \<le> silence_budget r"
proof -
  show "starved (rl_step p r)"
  proof (cases p)
    case Frame
    then show ?thesis using assms by (cases r rule: rl_frame_cases) (auto simp: starved_def)
  qed (use assms in \<open>auto simp: rl_defs starved_def\<close>)
  show "silence_budget (rl_step p r) + (if p = Frame \<and> fst (rl_frame r) \<noteq> None then 1 else 0) \<le> silence_budget r"
  proof (cases p)
    case Frame
    then show ?thesis using assms
      by (cases r rule: rl_frame_cases) (auto simp: starved_def silence_budget_def split: option.splits)
  qed (use assms in \<open>auto simp: rl_defs silence_budget_def split: option.splits if_splits\<close>)
qed

lemma starved_run:
  "starved r \<Longrightarrow> list_all (\<lambda>p. \<not> feeds_audio p) ops \<Longrightarrow>
   length (filter (\<lambda>f. f \<noteq> None) (rl_frames ops r)) \<le> silence_budget r"
proof (induction ops arbitrary: r)
  case Nil
  then show ?case by simp
next
  case (Cons p ops)
  have "starved (rl_step p r)" using starved_step(1) Cons.prems by simp
  then have "length (filter (\<lambda>f. f \<noteq> None) (rl_frames ops (rl_step p r))) \<le> silence_budget (rl_step p r)"
    using Cons by simp
  then show ?case using starved_step(2) [of r p] Cons.prems by (auto split: if_splits)
qed

lemma audio_step:
  assumes "rl_state r = R_ACTIVE" "rl_state (rl_step p r) = R_ACTIVE" "\<exists>bs. p = Frame \<or> p = Feed (rl_generation r) bs"
  shows "(if p = Frame \<and> rl_audio_frames r < rl_audio_frames (snd (rl_frame r)) then the (fst (rl_frame r)) else [])
      @ rl_buffer (rl_step p r) = rl_buffer r @ rl_input [p]" "rl_generation (rl_step p r) = rl_generation r"
proof -
  show "(if p = Frame \<and> rl_audio_frames r < rl_audio_frames (snd (rl_frame r)) then the (fst (rl_frame r)) else [])
      @ rl_buffer (rl_step p r) = rl_buffer r @ rl_input [p]"
    using assms by (cases r rule: rl_frame_cases) (auto simp: rl_feed_def split: if_splits)
  show "rl_generation (rl_step p r) = rl_generation r"
    using assms by (cases r rule: rl_frame_cases) (auto simp: rl_feed_def split: if_splits)
qed

lemma audio_run:
  assumes "rl_state r = R_ACTIVE" "list_all (\<lambda>p. \<exists>bs. p = Frame \<or> p = Feed (rl_generation r) bs) ops"
    and "rl_state (rl_run ops r) = R_ACTIVE"
  shows "rl_audio ops r @ rl_buffer (rl_run ops r) = rl_buffer r @ rl_input ops"
  using assms
proof (induction ops arbitrary: r)
  case Nil
  then show ?case by (simp add: rl_run_def)
next
  case (Cons p ops)
  have p: "\<exists>bs. p = Frame \<or> p = Feed (rl_generation r) bs" using Cons.prems(2) by simp
  have dead: "rl_state s \<noteq> R_ACTIVE \<Longrightarrow> list_all (\<lambda>p. \<exists>bs. p = Frame \<or> p = Feed g bs) qs \<Longrightarrow>
    rl_state s \<noteq> R_PAUSED \<Longrightarrow> rl_run qs s = s" for s g qs
    by (induction qs) (auto simp: rl_run_def rl_feed_def rl_frame_def)
  have "rl_state (rl_step p r) \<noteq> R_PAUSED"
    using p Cons.prems(1) by (cases r rule: rl_frame_cases) (auto simp: rl_feed_def split: if_splits)
  then have act: "rl_state (rl_step p r) = R_ACTIVE"
    using Cons.prems(2,3) dead [of "rl_step p r" "rl_generation r" ops]
    by (cases "rl_state (rl_step p r) = R_ACTIVE") (simp_all add: rl_run_def)
  note st = audio_step [OF Cons.prems(1) act p]
  have "rl_audio ops (rl_step p r) @ rl_buffer (rl_run ops (rl_step p r)) = rl_buffer (rl_step p r) @ rl_input ops"
    using Cons.IH [OF act] Cons.prems(2,3) st(2) by (simp add: rl_run_def)
  moreover have "rl_input (p # ops) = rl_input [p] @ rl_input ops" by (cases p) simp_all
  moreover have "rl_run (p # ops) r = rl_run ops (rl_step p r)" by (simp add: rl_run_def)
  ultimately show ?case using st(1) by (metis (no_types, lifting) append.assoc rl_audio.simps(2))
qed

section \<open>Lemmas on the lifecycle\<close>

definition pilot_ok :: "pilot \<Rightarrow> bool" where
  "pilot_ok p = (0 \<le> pb_epoch p \<and> pb_epoch p \<le> pb_sequence p \<and>
     pb_sequence p \<le> MAX_COUNTER - (if pb_state p = PB_ENDED then 0 else 1))"

definition pilot_run :: "(string \<times> string) list \<Rightarrow> pilot \<Rightarrow> pilot" where
  "pilot_run evs p = foldl (\<lambda>p (kind, code). snd (pb_apply kind code p)) p evs"

definition snapshot_of :: "pilot \<Rightarrow> snapshot" where
  "snapshot_of p = \<lparr>sn_state = pb_name (pb_state p), sn_sequence = pb_sequence p, sn_epoch = pb_epoch p\<rparr>"

text \<open>Events after \<open>p\<close>: nothing changed, or a later state of a pilot that had not ended.\<close>

definition later :: "pilot \<Rightarrow> pilot \<Rightarrow> bool" where
  "later p q = (q = p \<or> pb_state p \<noteq> PB_ENDED \<and> pb_sequence p < pb_sequence q \<and> pb_epoch p \<le> pb_epoch q)"

lemma pb_apply_effect:
  assumes "pilot_ok p"
  shows "pilot_ok (snd (pb_apply kind code p))" "later p (snd (pb_apply kind code p))"
proof -
  have "pilot_ok (snd (pb_apply kind code p)) \<and> later p (snd (pb_apply kind code p))"
  proof (cases "kind \<noteq> ''ssnc'' \<or> code \<notin> set CONTROL_CODES \<or> pb_state p = PB_ENDED")
    case True
    then have "pb_apply kind code p = (False, p)" unfolding pb_apply_def by (rule if_P)
    then show ?thesis using assms by (simp add: later_def)
  next
    case False
    then show ?thesis
      using assms unfolding pb_apply_def Let_def if_not_P [OF False]
      by (cases "MAX_COUNTER - 1 \<le> pb_sequence p \<or> MAX_COUNTER - 1 \<le> pb_epoch p"; cases "ends_stream kind code";
          cases "code \<in> {''paus'', ''pfls''}"; cases "code \<in> {''pres'', ''prsm''} \<or> pb_state p = PB_WAITING")
        (simp_all add: pilot_ok_def later_def)
  qed
  then show "pilot_ok (snd (pb_apply kind code p))" "later p (snd (pb_apply kind code p))" by simp_all
qed

lemma later_trans: "later p q \<Longrightarrow> later q r \<Longrightarrow> later p r"
  by (auto simp: later_def)

lemma pilot_run_effect: "pilot_ok p \<Longrightarrow> pilot_ok (pilot_run evs p) \<and> later p (pilot_run evs p)"
proof (induction evs arbitrary: p)
  case Nil
  then show ?case by (simp add: pilot_run_def later_def)
next
  case (Cons ev evs)
  obtain kind code where ev: "ev = (kind, code)" by fastforce
  let ?q = "snd (pb_apply kind code p)"
  have "pilot_ok (pilot_run evs ?q) \<and> later ?q (pilot_run evs ?q)" using Cons pb_apply_effect(1) by blast
  then show ?case using pb_apply_effect(2) [OF Cons.prems, of kind code] later_trans
    by (auto simp: pilot_run_def ev)
qed

lemma new_pilot_ok: "pilot_ok new_pilot"
  by (simp add: pilot_ok_def new_pilot_def MAX_COUNTER_def)

lemma read_own_snapshot: "pilot_ok p \<Longrightarrow> read_snapshot (pb_snapshot p) = Some (snapshot_of p)"
  by (cases "pb_state p")
    (auto simp: read_snapshot_def pb_snapshot_def snapshot_of_def keys_are_def pilot_ok_def PB_STATES_def insert_commute)

lemma snapshot_of_inj: "snapshot_of p = snapshot_of q \<longleftrightarrow> p = q"
  by (cases p; cases q; cases "pb_state p"; cases "pb_state q") (simp_all add: snapshot_of_def)

section \<open>Properties\<close>

text \<open>
  Bounds of the audio relay. Whatever operations arrive in whatever order, the buffer
  never exceeds its limit; and from a buffer without a complete frame, without new input,
  the relay emits at most the rest of its silence and pause budgets before it ends:
  pausing and resuming never renews them.
\<close>

theorem relay_bounds:
  assumes "mk_relay pcm b s p = Inr r0" "r = rl_run ops0 r0"
  shows "length (rl_buffer r) \<le> rl_limit r \<and>
    (length (rl_buffer r) < frame_bytes (rl_pcm r) \<and> list_all (\<lambda>q. \<not> feeds_audio q) ops \<longrightarrow>
      length (filter (\<lambda>f. f \<noteq> None) (rl_frames ops r)) \<le>
        (rl_silence_limit r - rl_run_silence r) + (case rl_pause_limit r of None \<Rightarrow> 0 | Some n \<Rightarrow> n - rl_pause_frames r))"
proof -
  have "relay_ok r" using mk_relay_ok [OF assms(1)] relay_ok_run assms(2) by simp
  moreover have "silence_budget r \<le> (rl_silence_limit r - rl_run_silence r) +
      (case rl_pause_limit r of None \<Rightarrow> 0 | Some n \<Rightarrow> n - rl_pause_frames r)" by (simp add: silence_budget_def)
  ultimately show ?thesis using starved_run [of r ops] by (auto simp: relay_ok_def starved_def)
qed

definition example_pcm :: pcm_format where
  "example_pcm = \<lparr>sample_rate = 44100, sample_bytes = 2, channels = 2\<rparr>"

theorem relay_bounds_witness:
  "\<exists>r0. mk_relay example_pcm 40 60 None = Inr r0 \<and>
     length (filter (\<lambda>f. f \<noteq> None) (rl_frames [Frame, Pause 1, Frame, Resume 1, Frame, Frame] (rl_run [Begin] r0))) \<le> 3"
proof -
  obtain r0 where r0: "mk_relay example_pcm 40 60 None = Inr r0" by (simp add: mk_relay_def in_steps_def)
  then have "rl_silence_limit r0 = 3" "rl_pause_limit r0 = None" "rl_pcm r0 = example_pcm"
    by (auto simp: mk_relay_def in_steps_def)
  then show ?thesis
    using relay_bounds [OF r0 refl, of "[Begin]" "[Frame, Pause 1, Frame, Resume 1, Frame, Frame]"] r0
    by (auto simp: rl_run_def rl_begin_def frame_bytes_def example_pcm_def)
qed

text \<open>
  Audio is neither lost, repeated nor reordered. While a session stays active, the bytes
  the frames took from the buffer followed by what is still buffered are exactly the bytes
  that were buffered before followed by the bytes fed, in order.
\<close>

theorem relay_preserves_audio:
  assumes "rl_state r = R_ACTIVE" "list_all (\<lambda>p. \<exists>bs. p = Frame \<or> p = Feed (rl_generation r) bs) ops"
    and "rl_state (rl_run ops r) = R_ACTIVE"
  shows "rl_audio ops r @ rl_buffer (rl_run ops r) = rl_buffer r @ rl_input ops"
  using assms by (rule audio_run)

definition tiny_relay :: relay where
  "tiny_relay = \<lparr>rl_pcm = \<lparr>sample_rate = 50, sample_bytes = 1, channels = 2\<rparr>, rl_state = R_ACTIVE, rl_generation = 1,
     rl_limit = 8, rl_silence_limit = 3, rl_run_silence = 0, rl_pause_limit = None, rl_pause_frames = 0,
     rl_buffer = [], rl_silence_frames = 0, rl_audio_frames = 0\<rparr>"

theorem relay_preserves_audio_witness:
  "rl_audio [Feed 1 [1, 2, 3], Frame, Frame] tiny_relay @ rl_buffer (rl_run [Feed 1 [1, 2, 3], Frame, Frame] tiny_relay) = [1, 2, 3]"
proof -
  have "rl_state (rl_run [Feed 1 [1, 2, 3], Frame, Frame] tiny_relay) = R_ACTIVE"
    by (simp add: tiny_relay_def rl_run_def rl_feed_def rl_frame_def Let_def frame_bytes_def)
  then show ?thesis using relay_preserves_audio [of tiny_relay "[Feed 1 [1, 2, 3], Frame, Frame]"]
    by (simp add: tiny_relay_def)
qed

text \<open>
  C20. A pilot's own snapshots are never stale. Whatever events the pilot applied before and
  after the last snapshot a reader accepted, the reader accepts the next one without error,
  reports a change exactly when the pilot changed, and never sees the epoch go back.
\<close>

theorem pilot_snapshots_accepted:
  "let p = pilot_run evs new_pilot; q = pilot_run evs' p
   in pc_accept (pb_snapshot p) None = (Inr True, Some (snapshot_of p)) \<and>
      pc_accept (pb_snapshot q) (Some (snapshot_of p)) = (Inr (q \<noteq> p), Some (snapshot_of q)) \<and>
      sn_epoch (snapshot_of p) \<le> sn_epoch (snapshot_of q)"
proof -
  define p where "p = pilot_run evs new_pilot"
  define q where "q = pilot_run evs' p"
  have p: "pilot_ok p" using pilot_run_effect [OF new_pilot_ok] by (simp add: p_def)
  have q: "pilot_ok q" "later p q" using pilot_run_effect [OF p] by (simp_all add: q_def)
  have "sn_state (snapshot_of p) = ''ENDED'' \<longleftrightarrow> pb_state p = PB_ENDED"
    by (cases "pb_state p") (simp_all add: snapshot_of_def)
  then have "pc_accept (pb_snapshot q) (Some (snapshot_of p)) = (Inr (q \<noteq> p), Some (snapshot_of q))"
    using q by (auto simp: pc_accept_def read_own_snapshot snapshot_of_inj later_def) (auto simp: snapshot_of_def)
  moreover have "pc_accept (pb_snapshot p) None = (Inr True, Some (snapshot_of p))"
    using p by (simp add: pc_accept_def read_own_snapshot)
  moreover have "sn_epoch (snapshot_of p) \<le> sn_epoch (snapshot_of q)" using q(2) by (auto simp: later_def snapshot_of_def)
  ultimately show ?thesis by (simp add: p_def q_def Let_def)
qed

end
