(* ===== verification/AirplayGroup.thy ===== *)
theory AirplayGroup
  imports AirplayLiveness "HOL-Library.Char_ord" "HOL-Library.List_Lexorder"
begin

text \<open>
  One bounded AirPlay group session (airplay_bridge/group_session.py): the owner's and the
  receivers' heartbeats, the native cursors, and the plan derived from them. A dict of the
  source is a map; the samples of a call are an association list in iteration order. A
  \<open>GroupSessionRejected\<close> carries its code; any other exception leaves a method as \<open>GRaised\<close>.
\<close>

section \<open>State\<close>

datatype gcode = SESSION_UNVERIFIED | OWNER_EXPIRED | NEW_RELAY_GRANT_REQUIRED | MASTER_GROUP_UNKNOWN

datatype gerr = GRejected gcode | GRaised pyerr

record binding =
  bd_device_id :: string
  bd_nonce :: string
  bd_pid :: pyval
  bd_started :: pyval

record sample =
  sm_native :: raw_text
  sm_sequence :: pyval
  sm_observed :: pyval
  sm_alive :: bool

datatype plan_status = WAITING | ACTIVE | HANDOFF_REQUIRED | STOPPED

record group_plan =
  gp_master :: string
  gp_members :: "string list"
  gp_status :: plan_status

record session =
  gs_ids :: "string list"
  gs_master :: string
  gs_cursors :: "string \<rightharpoonup> cursor"
  gs_heartbeats :: "string \<rightharpoonup> heartbeat"
  gs_owner :: heartbeat
  gs_owner_observation :: pyval
  gs_samples :: "(string \<times> sample) list"
  gs_connections :: "string \<rightharpoonup> int"
  gs_group :: string
  gs_now :: rat
  gs_deadline :: rat
  gs_failed :: bool
  gs_terminal :: bool
  gs_locally_stopped :: bool
  gs_plan :: "group_plan option"

type_synonym 'a gact = "(session, gerr, 'a) act"

section \<open>Creation\<close>

definition valid_ids :: "binding list \<Rightarrow> string \<Rightarrow> bool" where
  "valid_ids bs master =
     (let ids = map bd_device_id bs in
      1 \<le> length ids \<and> length ids \<le> 16 \<and> distinct ids \<and> master \<in> set ids \<and>
      list_all (\<lambda>v. v \<noteq> [] \<and> v = upper (strip v) \<and> length v \<le> 128) ids \<and>
      length (remdups (map bd_nonce bs)) = length bs)"

definition finite_in :: "(rat \<Rightarrow> bool) \<Rightarrow> pyval \<Rightarrow> gerr + rat" where
  "finite_in P v = (case finite_number v of
     Inl e \<Rightarrow> Inl (GRaised e)
   | Inr (Some q) \<Rightarrow> if P q then Inr q else Inl (GRejected SESSION_UNVERIFIED)
   | Inr None \<Rightarrow> Inl (GRejected SESSION_UNVERIFIED))"

definition binding_cursor :: "binding \<Rightarrow> gerr + (string \<times> cursor)" where
  "binding_cursor b = (case mk_cursor (bd_nonce b) (bd_pid b) (bd_started b) of
     Inl e \<Rightarrow> Inl (GRaised e) | Inr c \<Rightarrow> Inr (bd_device_id b, c))"

definition mk_session :: "binding list \<Rightarrow> string \<Rightarrow> pyval \<Rightarrow> pyval \<Rightarrow> gerr + session" where
  "mk_session bs master started lifetime =
     (if \<not> valid_ids bs master then Inl (GRejected SESSION_UNVERIFIED)
      else rbind (finite_in (\<lambda>q. 0 \<le> q) started) (\<lambda>start.
           rbind (finite_in (\<lambda>q. 1 \<le> q \<and> q \<le> 900) lifetime) (\<lambda>life.
           rbind (rmap binding_cursor bs) (\<lambda>cs.
             if list_ex (\<lambda>(i, c). start < cu_started c) cs then Inl (GRejected SESSION_UNVERIFIED)
             else Inr \<lparr>gs_ids = map bd_device_id bs, gs_master = master, gs_cursors = map_of cs,
               gs_heartbeats = map_of (map (\<lambda>b. (bd_device_id b, new_heartbeat)) bs), gs_owner = new_heartbeat,
               gs_owner_observation = VNone, gs_samples = [], gs_connections = Map.empty, gs_group = [],
               gs_now = start, gs_deadline = start + life, gs_failed = False, gs_terminal = False,
               gs_locally_stopped = False, gs_plan = None\<rparr>))))"

section \<open>Shared steps\<close>

definition reject :: "gcode \<Rightarrow> 'a gact" where
  "reject c = araise (GRejected c)"

definition check_clock :: "pyval \<Rightarrow> unit gact" where
  "check_clock now s =
     (if gs_failed s then (Inl (GRejected OWNER_EXPIRED), s)
      else (case finite_number now of
          Inl e \<Rightarrow> (Inl (GRaised e), s)
        | Inr None \<Rightarrow> (Inl (GRejected OWNER_EXPIRED), s)
        | Inr (Some n) \<Rightarrow>
            if gs_now s \<le> n \<and> n < gs_deadline s then (Inr (), s\<lparr>gs_now := n\<rparr>)
            else (Inl (GRejected OWNER_EXPIRED), s)))"

definition owner_check :: "pyval \<Rightarrow> pyval \<Rightarrow> unit gact" where
  "owner_check obs now s = (case hb_check (gs_owner s) (obs, now) of
     (Inl e, h) \<Rightarrow> (Inl (GRaised e), s\<lparr>gs_owner := h\<rparr>) | (Inr u, h) \<Rightarrow> (Inr u, s\<lparr>gs_owner := h\<rparr>))"

definition device_check :: "string \<Rightarrow> sample \<Rightarrow> pyval \<Rightarrow> unit gact" where
  "device_check i sm now s = (case gs_heartbeats s i of
     None \<Rightarrow> (Inl (GRaised KeyError), s)
   | Some h \<Rightarrow>
       (case hb_check h (observation (sm_sequence sm) (sm_observed sm), now) of
          (Inl e, h') \<Rightarrow> (Inl (GRaised e), s\<lparr>gs_heartbeats := (gs_heartbeats s)(i \<mapsto> h')\<rparr>)
        | (Inr u, h') \<Rightarrow> (Inr u, s\<lparr>gs_heartbeats := (gs_heartbeats s)(i \<mapsto> h')\<rparr>)))"

definition native_accept :: "string \<Rightarrow> sample \<Rightarrow> pyval \<Rightarrow> native_group gact" where
  "native_accept i sm now s = (case gs_cursors s i of
     None \<Rightarrow> (Inl (GRaised KeyError), s)
   | Some c \<Rightarrow>
       (case ng_accept c (sm_native sm, now, sm_alive sm) of
          (Inl e, c') \<Rightarrow> (Inl (GRaised e), s\<lparr>gs_cursors := (gs_cursors s)(i \<mapsto> c')\<rparr>)
        | (Inr r, c') \<Rightarrow> (Inr r, s\<lparr>gs_cursors := (gs_cursors s)(i \<mapsto> c')\<rparr>)))"

text \<open>The \<open>except\<close> clauses: which exceptions set the flag, and what is raised instead.\<close>

definition is_value_error :: "gerr \<Rightarrow> bool" where
  "is_value_error e = (case e of GRejected _ \<Rightarrow> True | GRaised x \<Rightarrow> x = ValueError)"

definition is_value_or_type_error :: "gerr \<Rightarrow> bool" where
  "is_value_or_type_error e = (is_value_error e \<or> e = GRaised TypeError)"

definition failing :: "(gerr \<Rightarrow> bool) \<Rightarrow> (gerr \<Rightarrow> gerr) \<Rightarrow> 'a gact \<Rightarrow> 'a gact" where
  "failing catches rename body s = (case body s of
     (Inl e, s') \<Rightarrow> if catches e then (Inl (rename e), s'\<lparr>gs_failed := True\<rparr>) else (Inl e, s')
   | (Inr a, s') \<Rightarrow> (Inr a, s'))"

definition keep_code :: "gerr \<Rightarrow> gerr" where
  "keep_code e = (case e of GRejected c \<Rightarrow> GRejected c | GRaised _ \<Rightarrow> GRejected SESSION_UNVERIFIED)"

definition all_code :: "gcode \<Rightarrow> gerr \<Rightarrow> gerr" where
  "all_code c e = GRejected c"

definition same_ids :: "session \<Rightarrow> (string \<times> sample) list \<Rightarrow> bool" where
  "same_ids s sms = (set (map fst sms) = set (gs_ids s))"

section \<open>Operations\<close>

definition remember_owner :: "pyval \<Rightarrow> unit gact" where
  "remember_owner v s = (Inr (), s\<lparr>gs_owner_observation := v\<rparr>)"

definition recheck_owner :: "pyval \<Rightarrow> unit gact" where
  "recheck_owner now s = (if gs_owner_observation s = VNone then (Inr (), s)
     else owner_check (gs_owner_observation s) now s)"

definition renew_owner :: "pyval \<Rightarrow> pyval \<Rightarrow> pyval \<Rightarrow> unit gact" where
  "renew_owner sequence observed now = failing is_value_error (all_code OWNER_EXPIRED)
     (abind (check_clock now) (\<lambda>_. abind (recheck_owner now) (\<lambda>_.
      abind (owner_check (observation sequence observed) now) (\<lambda>_.
      remember_owner (observation sequence observed)))))"

fun check_devices :: "pyval \<Rightarrow> (string \<times> sample) list \<Rightarrow> unit gact" where
  "check_devices now [] = areturn ()"
| "check_devices now ((i, sm) # sms) = abind (device_check i sm now) (\<lambda>_. check_devices now sms)"

definition owner_live :: "pyval \<Rightarrow> unit gact" where
  "owner_live now = abind (check_clock now) (\<lambda>_ s. owner_check (gs_owner_observation s) now s)"

definition require_live :: "pyval \<Rightarrow> unit gact" where
  "require_live now = failing is_value_error (all_code SESSION_UNVERIFIED)
     (abind (owner_live now) (\<lambda>_ s.
        if \<not> same_ids s (gs_samples s) then reject SESSION_UNVERIFIED s
        else check_devices now (gs_samples s) s))"

definition set_plan :: "group_plan \<Rightarrow> group_plan gact" where
  "set_plan p s = (Inr p, s\<lparr>gs_plan := Some p\<rparr>)"

definition request_stop :: "pyval \<Rightarrow> group_plan gact" where
  "request_stop now = abind (require_live now) (\<lambda>_ s.
     if \<not> gs_terminal s
     then set_plan \<lparr>gp_master = gs_master s, gp_members = [], gp_status = STOPPED\<rparr>
            (s\<lparr>gs_terminal := True, gs_locally_stopped := True\<rparr>)
     else (case gs_plan s of Some p \<Rightarrow> (Inr p, s) | None \<Rightarrow> (Inl (GRaised AssertionError), s)))"

definition bind_connection :: "string \<Rightarrow> native_group \<Rightarrow> unit gact" where
  "bind_connection i r s =
     (if ng_connection r = 0 then (Inr (), s)
      else (case gs_connections s i of
          None \<Rightarrow> (Inr (), s\<lparr>gs_connections := (gs_connections s)(i \<mapsto> ng_connection r)\<rparr>)
        | Some old \<Rightarrow> if old \<noteq> ng_connection r then reject NEW_RELAY_GRANT_REQUIRED s else (Inr (), s)))"

fun observe_devices :: "pyval \<Rightarrow> (string \<times> sample) list \<Rightarrow> (string \<times> native_group) list gact" where
  "observe_devices now [] = areturn []"
| "observe_devices now ((i, sm) # sms) =
     abind (device_check i sm now) (\<lambda>_. abind (native_accept i sm now) (\<lambda>r.
     abind (bind_connection i r) (\<lambda>_. abind (observe_devices now sms) (\<lambda>rs. areturn ((i, r) # rs)))))"

definition members_of :: "string \<Rightarrow> string \<Rightarrow> (string \<times> native_group) list \<Rightarrow> string list" where
  "members_of master gh rs = sort (map fst (filter (\<lambda>(i, r).
     i \<noteq> master \<and> ng_state r = GROUPED \<and> ng_group_hash r = gh) rs))"

definition derive_plan :: "(string \<times> native_group) list \<Rightarrow> group_plan gact" where
  "derive_plan rs s = (case map_of rs (gs_master s) of
     None \<Rightarrow> (Inl (GRaised KeyError), s)
   | Some leader \<Rightarrow>
       if ng_state leader = UNASSIGNED \<and> gs_group s \<noteq> [] then reject MASTER_GROUP_UNKNOWN s
       else if ng_state leader \<noteq> GROUPED then
         (if gs_group s \<noteq> []
          then set_plan \<lparr>gp_master = gs_master s, gp_members = [],
                  gp_status = (if list_ex (\<lambda>(i, r). ng_state r \<noteq> IDLE) rs then HANDOFF_REQUIRED else STOPPED)\<rparr>
                 (s\<lparr>gs_terminal := True\<rparr>)
          else set_plan \<lparr>gp_master = gs_master s, gp_members = [], gp_status = WAITING\<rparr> s)
       else if gs_group s \<noteq> [] \<and> ng_group_hash leader \<noteq> gs_group s then reject NEW_RELAY_GRANT_REQUIRED s
       else set_plan \<lparr>gp_master = gs_master s, gp_members = members_of (gs_master s) (ng_group_hash leader) rs,
                gp_status = ACTIVE\<rparr> (s\<lparr>gs_group := ng_group_hash leader\<rparr>))"

definition keep_samples :: "(string \<times> sample) list \<Rightarrow> unit gact" where
  "keep_samples sms s = (Inr (), s\<lparr>gs_samples := sms\<rparr>)"

definition observe :: "(string \<times> sample) list \<Rightarrow> pyval \<Rightarrow> group_plan gact" where
  "observe sms now = failing is_value_or_type_error keep_code
     (abind (owner_live now) (\<lambda>_ s.
        if gs_terminal s \<or> \<not> same_ids s sms then reject SESSION_UNVERIFIED s
        else abind (observe_devices now sms) (\<lambda>rs. abind (keep_samples sms) (\<lambda>_. derive_plan rs)) s))"

definition departed :: "session \<Rightarrow> string \<Rightarrow> native_group option \<Rightarrow> native_group \<Rightarrow> bool" where
  "departed s i old r = ((i \<noteq> gs_master s \<or> gs_locally_stopped s) \<and> (case old of None \<Rightarrow> False
     | Some p \<Rightarrow> ng_state p = GROUPED \<and> ng_group_hash p = gs_group s \<and>
         gs_connections s i = Some (ng_connection p)) \<and> ng_state r = IDLE)"

fun drain_devices :: "pyval \<Rightarrow> (string \<times> sample) list \<Rightarrow> unit gact" where
  "drain_devices now [] = areturn ()"
| "drain_devices now ((i, sm) # sms) = (\<lambda>s.
     (let old = Option.bind (gs_cursors s i) cu_previous in
      abind (native_accept i sm now) (\<lambda>r.
      abind (\<lambda>s'. if Some r \<noteq> old \<and> \<not> departed s' i old r then reject NEW_RELAY_GRANT_REQUIRED s' else (Inr (), s')) (\<lambda>_.
      abind (device_check i sm now) (\<lambda>_. drain_devices now sms))) s))"

definition return_plan :: "group_plan gact" where
  "return_plan s = (case gs_plan s of Some p \<Rightarrow> (Inr p, s) | None \<Rightarrow> reject SESSION_UNVERIFIED s)"

definition refresh :: "(string \<times> sample) list \<Rightarrow> pyval \<Rightarrow> group_plan gact" where
  "refresh sms now s =
     (if \<not> gs_terminal s then observe sms now s
      else failing is_value_error (all_code SESSION_UNVERIFIED)
        (abind (owner_live now) (\<lambda>_ s'.
           if \<not> same_ids s' sms \<or> gs_plan s' = None then reject SESSION_UNVERIFIED s'
           else abind (drain_devices now sms) (\<lambda>_. abind (keep_samples sms) (\<lambda>_. return_plan)) s')) s)"

section \<open>All operations as one\<close>

datatype session_op = RenewOwner pyval pyval pyval | RequireLive pyval | RequestStop pyval
  | Observe "(string \<times> sample) list" pyval | Refresh "(string \<times> sample) list" pyval

definition plain :: "unit gact \<Rightarrow> group_plan option gact" where
  "plain m = abind m (\<lambda>_. areturn None)"

definition planned_by :: "group_plan gact \<Rightarrow> group_plan option gact" where
  "planned_by m = abind m (\<lambda>p. areturn (Some p))"

fun gs_step :: "session \<Rightarrow> session_op \<Rightarrow> (gerr + group_plan option) \<times> session" where
  "gs_step s (RenewOwner sequence observed now) = plain (renew_owner sequence observed now) s"
| "gs_step s (RequireLive now) = plain (require_live now) s"
| "gs_step s (RequestStop now) = planned_by (request_stop now) s"
| "gs_step s (Observe sms now) = planned_by (observe sms now) s"
| "gs_step s (Refresh sms now) = planned_by (refresh sms now) s"

section \<open>Lemmas\<close>

text \<open>What the checks leave alone: everything but clocks, heartbeats, cursors and connections.\<close>

definition same_grant :: "session \<Rightarrow> session \<Rightarrow> bool" where
  "same_grant s t = (gs_ids t = gs_ids s \<and> gs_master t = gs_master s \<and> gs_group t = gs_group s \<and>
     gs_deadline t = gs_deadline s \<and> gs_terminal t = gs_terminal s \<and> gs_plan t = gs_plan s \<and>
     gs_locally_stopped t = gs_locally_stopped s \<and> gs_failed t = gs_failed s \<and> gs_now s \<le> gs_now t)"

lemma same_grant_refl [simp]: "same_grant s s" by (simp add: same_grant_def)

lemma same_grant_trans: "same_grant s t \<Longrightarrow> same_grant t u \<Longrightarrow> same_grant s u"
  by (simp add: same_grant_def)

definition steady :: "'a gact \<Rightarrow> bool" where
  "steady m = (\<forall>s. same_grant s (snd (m s)))"

lemma steady_bind: "steady m \<Longrightarrow> (\<And>a. steady (f a)) \<Longrightarrow> steady (abind m f)"
  by (fastforce simp: steady_def abind_def split: prod.splits sum.splits intro: same_grant_trans)

lemma steadyI: "(\<And>s. same_grant s (snd (m s))) \<Longrightarrow> steady m"
  by (simp add: steady_def)

lemma steady_basic:
  "steady (areturn a)" "steady (reject c)" "steady (check_clock now)" "steady (owner_check obs now)"
  "steady (device_check i sm now)" "steady (native_accept i sm now)" "steady (bind_connection i r)"
  "steady (keep_samples sms)" "steady (remember_owner v)" "steady (recheck_owner now)" "steady return_plan"
  by (auto simp: steady_def areturn_def reject_def araise_def check_clock_def owner_check_def device_check_def
      native_accept_def bind_connection_def keep_samples_def remember_owner_def recheck_owner_def return_plan_def same_grant_def
      split: sum.splits option.splits prod.splits)

lemma steady_devices: "steady (check_devices now sms)" "steady (observe_devices now sms)" "steady (drain_devices now sms)"
proof -
  show "steady (check_devices now sms)" by (induction sms) (auto intro!: steady_bind steady_basic)
  show "steady (observe_devices now sms)" by (induction sms) (auto intro!: steady_bind steady_basic)
  show "steady (drain_devices now sms)"
  proof (induction sms)
    case Nil
    then show ?case by (simp add: steady_basic)
  next
    case (Cons x sms)
    obtain i sm where x: "x = (i, sm)" by fastforce
    have m: "steady (abind (native_accept i sm now) (\<lambda>r. abind (\<lambda>s'. if Some r \<noteq> old \<and> \<not> departed s' i old r
        then reject NEW_RELAY_GRANT_REQUIRED s' else (Inr (), s')) (\<lambda>_. abind (device_check i sm now) (\<lambda>_. drain_devices now sms))))" for old
      by (intro steady_bind steady_basic Cons) (auto simp: steady_def reject_def araise_def)
    show ?case unfolding x drain_devices.simps Let_def
      by (rule steadyI) (use m in \<open>simp add: steady_def\<close>)
  qed
qed

lemma steady_owner_live: "steady (owner_live now)"
  unfolding owner_live_def by (intro steady_bind steady_basic steadyI) (use steady_basic(4) in \<open>simp add: steady_def\<close>)

lemma steadyD: "steady m \<Longrightarrow> m s = (r, t) \<Longrightarrow> same_grant s t"
  by (auto simp: steady_def dest: spec [of _ s])

text \<open>What every operation, failing or not, keeps of the grant.\<close>

definition grant_kept :: "session \<Rightarrow> session \<Rightarrow> bool" where
  "grant_kept s t = (gs_ids t = gs_ids s \<and> gs_master t = gs_master s \<and> gs_deadline t = gs_deadline s \<and> gs_now s \<le> gs_now t \<and>
     (gs_group s \<noteq> [] \<longrightarrow> gs_group t = gs_group s) \<and> (gs_failed s \<longrightarrow> gs_failed t) \<and>
     (gs_terminal s \<longrightarrow> gs_terminal t \<and> gs_plan t = gs_plan s \<and> gs_group t = gs_group s))"

lemma grant_kept_refl [simp]: "grant_kept s s" by (simp add: grant_kept_def)

lemma grant_kept_trans: "grant_kept s t \<Longrightarrow> grant_kept t u \<Longrightarrow> grant_kept s u"
  by (auto simp: grant_kept_def)

lemma same_grant_kept: "same_grant s t \<Longrightarrow> grant_kept s t"
  by (simp add: same_grant_def grant_kept_def)

lemma failing_kept: "grant_kept s (snd (body s)) \<Longrightarrow> grant_kept s (snd (failing catches rename body s))"
  by (auto simp: failing_def grant_kept_def split: prod.splits sum.splits)

lemma steady_kept: "steady m \<Longrightarrow> grant_kept s (snd (m s))"
  by (simp add: steady_def same_grant_kept)

lemma abind_kept: "steady m \<Longrightarrow> (\<And>a s. grant_kept s (snd (f a s))) \<Longrightarrow> grant_kept s (snd (abind m f s))"
  using steady_kept [of m s] by (auto simp: abind_def split: prod.splits sum.splits intro: grant_kept_trans)

lemma derive_plan_kept: "\<not> gs_terminal s \<Longrightarrow> grant_kept s (snd (derive_plan rs s))"
  by (auto simp: derive_plan_def set_plan_def reject_def araise_def grant_kept_def split: option.splits)

lemma renew_owner_kept: "grant_kept s (snd (renew_owner sequence observed now s))"
  unfolding renew_owner_def by (intro failing_kept steady_kept steady_bind steady_basic)

lemma require_live_kept: "grant_kept s (snd (require_live now s))"
  unfolding require_live_def
proof (rule failing_kept, rule abind_kept [OF steady_owner_live])
  fix a s
  show "grant_kept s (snd (if \<not> same_ids s (gs_samples s) then reject SESSION_UNVERIFIED s else check_devices now (gs_samples s) s))"
    using steady_kept [OF steady_devices(1), of s] by (simp add: reject_def araise_def)
qed

lemma request_stop_kept: "grant_kept s (snd (request_stop now s))"
proof -
  obtain r t where l: "require_live now s = (r, t)" by fastforce
  have k: "grant_kept s t" using require_live_kept [of s now] l by simp
  show ?thesis
  proof (cases r)
    case (Inl e)
    then show ?thesis using k l by (simp add: request_stop_def abind_def)
  next
    case (Inr u)
    have "grant_kept t (snd (request_stop now s))"
      using Inr l by (auto simp: request_stop_def abind_def set_plan_def grant_kept_def split: option.splits)
    then show ?thesis using k grant_kept_trans by blast
  qed
qed

lemma observe_body_kept:
  assumes "\<not> gs_terminal s"
  shows "grant_kept s (snd (abind (observe_devices now sms) (\<lambda>rs. abind (keep_samples sms) (\<lambda>_. derive_plan rs)) s))"
proof -
  have "steady (abind (observe_devices now sms) (\<lambda>rs. abind (keep_samples sms) (\<lambda>_. areturn rs)))"
    by (intro steady_bind steady_basic steady_devices)
  then obtain r t where b: "abind (observe_devices now sms) (\<lambda>rs. abind (keep_samples sms) (\<lambda>_. areturn rs)) s = (r, t)" "same_grant s t"
    by (meson steadyD surj_pair)
  have "abind (observe_devices now sms) (\<lambda>rs. abind (keep_samples sms) (\<lambda>_. derive_plan rs)) s =
      (case r of Inl e \<Rightarrow> (Inl e, t) | Inr rs \<Rightarrow> derive_plan rs t)"
    using b(1) by (auto simp: abind_def areturn_def keep_samples_def split: prod.splits sum.splits)
  moreover have "\<not> gs_terminal t" using b(2) assms by (simp add: same_grant_def)
  ultimately show ?thesis
    using same_grant_kept [OF b(2)] derive_plan_kept [of t] grant_kept_trans by (auto split: sum.splits)
qed

lemma observe_kept: "grant_kept s (snd (observe sms now s))"
  unfolding observe_def
proof (rule failing_kept, rule abind_kept [OF steady_owner_live])
  fix a s
  show "grant_kept s (snd (if gs_terminal s \<or> \<not> same_ids s sms then reject SESSION_UNVERIFIED s
        else abind (observe_devices now sms) (\<lambda>rs. abind (keep_samples sms) (\<lambda>_. derive_plan rs)) s))"
    using observe_body_kept [of s] by (simp add: reject_def araise_def)
qed

lemma refresh_kept: "grant_kept s (snd (refresh sms now s))"
proof -
  have "steady (abind (drain_devices now sms) (\<lambda>_. abind (keep_samples sms) (\<lambda>_. return_plan)))"
    by (intro steady_bind steady_basic steady_devices)
  then have "grant_kept s (snd (if \<not> same_ids s sms \<or> gs_plan s = None then reject SESSION_UNVERIFIED s
      else abind (drain_devices now sms) (\<lambda>_. abind (keep_samples sms) (\<lambda>_. return_plan)) s))" for s
    by (auto simp: reject_def araise_def dest: steady_kept)
  then show ?thesis unfolding refresh_def
    using observe_kept by (auto intro!: failing_kept abind_kept [OF steady_owner_live])
qed

lemma return_snd:
  "snd (plain m s) = snd (m s)" "snd (planned_by n s) = snd (n s)"
  "isl (fst (plain m s)) = isl (fst (m s))" "isl (fst (planned_by n s)) = isl (fst (n s))"
  "fst (plain m s) = Inl e \<longleftrightarrow> fst (m s) = Inl e" "fst (planned_by n s) = Inl e \<longleftrightarrow> fst (n s) = Inl e"
  by (auto simp: plain_def planned_by_def abind_def areturn_def split: prod.splits sum.splits)

lemma gs_step_kept: "grant_kept s (snd (gs_step s p))"
  by (cases p) (simp_all add: return_snd renew_owner_kept require_live_kept request_stop_kept observe_kept refresh_kept)

section \<open>Failing closed\<close>

lemma check_clock_failed: "gs_failed s \<Longrightarrow> check_clock now s = (Inl (GRejected OWNER_EXPIRED), s)"
  by (simp add: check_clock_def)

lemma failed_refuses:
  assumes "gs_failed s"
  shows "isl (fst (renew_owner sequence observed now s))" "isl (fst (require_live now s))" "isl (fst (request_stop now s))"
    "isl (fst (observe sms now s))" "isl (fst (refresh sms now s))"
proof -
  have o: "abind (owner_live now) f s = (Inl (GRejected OWNER_EXPIRED), s)" for f :: "unit \<Rightarrow> 'a gact"
    using check_clock_failed [OF assms, of now] by (simp add: owner_live_def abind_def)
  show "isl (fst (renew_owner sequence observed now s))"
    using check_clock_failed [OF assms, of now] by (simp add: renew_owner_def failing_def abind_def is_value_error_def)
  show l: "isl (fst (require_live now s))" by (simp add: require_live_def failing_def o is_value_error_def)
  show "isl (fst (request_stop now s))" using l by (auto simp: request_stop_def abind_def split: prod.splits sum.splits)
  show b: "isl (fst (observe sms now s))"
    by (simp add: observe_def failing_def o is_value_or_type_error_def is_value_error_def)
  show "isl (fst (refresh sms now s))" using b by (simp add: refresh_def failing_def o is_value_error_def)
qed

lemma rejected_latches:
  "fst (failing is_value_error rename body s) = Inl (GRejected c) \<Longrightarrow> gs_failed (snd (failing is_value_error rename body s))"
  "fst (failing is_value_or_type_error rename body s) = Inl (GRejected c) \<Longrightarrow> gs_failed (snd (failing is_value_or_type_error rename body s))"
  by (auto simp: failing_def is_value_error_def is_value_or_type_error_def split: prod.splits sum.splits if_splits)

lemma step_latches:
  "fst (renew_owner sequence observed now s) = Inl (GRejected c) \<Longrightarrow> gs_failed (snd (renew_owner sequence observed now s))"
  "fst (require_live now s) = Inl (GRejected c) \<Longrightarrow> gs_failed (snd (require_live now s))"
  "fst (request_stop now s) = Inl (GRejected c) \<Longrightarrow> gs_failed (snd (request_stop now s))"
  "fst (observe sms now s) = Inl (GRejected c) \<Longrightarrow> gs_failed (snd (observe sms now s))"
  "fst (refresh sms now s) = Inl (GRejected c) \<Longrightarrow> gs_failed (snd (refresh sms now s))"
proof -
  show "fst (renew_owner sequence observed now s) = Inl (GRejected c) \<Longrightarrow> gs_failed (snd (renew_owner sequence observed now s))"
    unfolding renew_owner_def by (rule rejected_latches)
  show l: "fst (require_live now s) = Inl (GRejected c) \<Longrightarrow> gs_failed (snd (require_live now s))"
    unfolding require_live_def by (rule rejected_latches)
  show "fst (request_stop now s) = Inl (GRejected c) \<Longrightarrow> gs_failed (snd (request_stop now s))"
    using l by (auto simp: request_stop_def abind_def set_plan_def split: prod.splits sum.splits if_splits option.splits)
  show o: "fst (observe sms now s) = Inl (GRejected c) \<Longrightarrow> gs_failed (snd (observe sms now s))"
    unfolding observe_def by (rule rejected_latches)
  show "fst (refresh sms now s) = Inl (GRejected c) \<Longrightarrow> gs_failed (snd (refresh sms now s))"
    using o unfolding refresh_def by (auto intro: rejected_latches)
qed

interpretation gs: forward_cursor gs_step gs_failed "\<lambda>e. \<exists>c. e = GRejected c" gs_now
proof
  fix s p e
  show "gs_failed s \<Longrightarrow> isl (fst (gs_step s p))"
    by (cases p) (simp_all add: return_snd failed_refuses)
  show "gs_failed s \<Longrightarrow> gs_failed (snd (gs_step s p))" using gs_step_kept [of s p] by (simp add: grant_kept_def)
  show "fst (gs_step s p) = Inl e \<Longrightarrow> \<exists>c. e = GRejected c \<Longrightarrow> gs_failed (snd (gs_step s p))"
    by (cases p) (auto simp: return_snd step_latches)
  show "gs_now s \<le> gs_now (snd (gs_step s p))" using gs_step_kept [of s p] by (simp add: grant_kept_def)
qed

lemma run_kept: "grant_kept s (snd (gs.run s ps))"
proof (induction ps arbitrary: s)
  case Nil
  then show ?case by simp
next
  case (Cons p ps)
  show ?case using grant_kept_trans [OF gs_step_kept [of s p] Cons] by simp
qed

section \<open>Plans\<close>

text \<open>The cursor of a device holds the record the observation returned for it.\<close>

lemma native_accept_record:
  assumes "native_accept i sm now s = (Inr r, t)"
  shows "\<exists>c. gs_cursors t i = Some c \<and> cu_previous c = Some r" "j \<noteq> i \<Longrightarrow> gs_cursors t j = gs_cursors s j"
proof -
  obtain c c' where c: "gs_cursors s i = Some c" "ng_accept c (sm_native sm, now, sm_alive sm) = (Inr r, c')"
    "t = s\<lparr>gs_cursors := (gs_cursors s)(i \<mapsto> c')\<rparr>"
    using assms by (auto simp: native_accept_def split: option.splits prod.splits sum.splits)
  have "cu_previous c' = Some r" using c(2)
    by (auto simp: ng_accept_def ng_accept_body_def ng_store_def Let_def split: if_splits sum.splits option.splits pyval.splits)
  then show "\<exists>c. gs_cursors t i = Some c \<and> cu_previous c = Some r" using c(3) by simp
  show "j \<noteq> i \<Longrightarrow> gs_cursors t j = gs_cursors s j" using c(3) by simp
qed

lemma observe_devices_records:
  assumes "observe_devices now sms s = (Inr rs, t)" "distinct (map fst sms)"
  shows "map fst rs = map fst sms \<and>
    (\<forall>(i, r) \<in> set rs. \<exists>c. gs_cursors t i = Some c \<and> cu_previous c = Some r) \<and>
    (\<forall>j. j \<notin> set (map fst sms) \<longrightarrow> gs_cursors t j = gs_cursors s j)"
  using assms
proof (induction sms arbitrary: s rs)
  case Nil
  then show ?case by (simp add: areturn_def)
next
  case (Cons x sms)
  obtain i sm where x: "x = (i, sm)" by fastforce
  obtain s1 r s2 s3 rs' where b: "device_check i sm now s = (Inr (), s1)" "native_accept i sm now s1 = (Inr r, s2)"
      "bind_connection i r s2 = (Inr (), s3)" "observe_devices now sms s3 = (Inr rs', t)" "rs = (i, r) # rs'"
    using Cons.prems(1) by (auto simp: x abind_def areturn_def split: prod.splits sum.splits)
  have f: "gs_cursors s1 = gs_cursors s" "gs_cursors s3 = gs_cursors s2"
    using b(1,3) by (auto simp: device_check_def bind_connection_def reject_def araise_def split: option.splits prod.splits sum.splits if_splits)
  have ih: "map fst rs' = map fst sms" "\<forall>(i, r) \<in> set rs'. \<exists>c. gs_cursors t i = Some c \<and> cu_previous c = Some r"
    "\<forall>j. j \<notin> set (map fst sms) \<longrightarrow> gs_cursors t j = gs_cursors s3 j"
    using Cons.IH [OF b(4)] Cons.prems(2) by (auto simp: x)
  have "i \<notin> set (map fst sms)" using Cons.prems(2) by (simp add: x)
  then show ?case using ih b(5) f native_accept_record [OF b(2)] by (auto simp: x)
qed

lemma derive_plan_active:
  assumes "derive_plan rs s = (Inr p, t)" "gp_status p = ACTIVE"
  obtains leader where "map_of rs (gs_master s) = Some leader" "ng_state leader = GROUPED" "gs_group t = ng_group_hash leader"
    "p = \<lparr>gp_master = gs_master s, gp_members = members_of (gs_master s) (gs_group t) rs, gp_status = ACTIVE\<rparr>"
    "gs_plan t = Some p" "gs_cursors t = gs_cursors s" "gs_now t = gs_now s" "gs_deadline t = gs_deadline s"
  using assms
  by (auto simp: derive_plan_def set_plan_def reject_def araise_def split: option.splits if_splits)

lemma observe_Inr:
  assumes "observe sms now s = (Inr p, t)"
  obtains s1 rs s2 where "owner_live now s = (Inr (), s1)" "same_ids s1 sms" "\<not> gs_terminal s1"
    "observe_devices now sms s1 = (Inr rs, s2)" "derive_plan rs (s2\<lparr>gs_samples := sms\<rparr>) = (Inr p, t)"
proof -
  have "abind (owner_live now) (\<lambda>_ s. if gs_terminal s \<or> \<not> same_ids s sms then reject SESSION_UNVERIFIED s
        else abind (observe_devices now sms) (\<lambda>rs. abind (keep_samples sms) (\<lambda>_. derive_plan rs)) s) s = (Inr p, t)"
    using assms unfolding observe_def failing_def by (auto split: prod.splits sum.splits if_splits)
  then obtain s1 where s1: "owner_live now s = (Inr (), s1)" "same_ids s1 sms" "\<not> gs_terminal s1"
      "abind (observe_devices now sms) (\<lambda>rs. abind (keep_samples sms) (\<lambda>_. derive_plan rs)) s1 = (Inr p, t)"
    by (auto simp: abind_def reject_def araise_def split: prod.splits sum.splits if_splits)
  then obtain rs s2 where "observe_devices now sms s1 = (Inr rs, s2)" "derive_plan rs (s2\<lparr>gs_samples := sms\<rparr>) = (Inr p, t)"
    by (auto simp: abind_def keep_samples_def split: prod.splits sum.splits)
  then show ?thesis using s1 by (intro that)
qed

lemma check_clock_live: "check_clock now s = (Inr (), t) \<Longrightarrow> gs_now t < gs_deadline t"
  by (auto simp: check_clock_def split: if_splits sum.splits option.splits)

lemma owner_live_clock: "owner_live now s = (Inr (), t) \<Longrightarrow> gs_now t < gs_deadline t"
  by (auto simp: owner_live_def abind_def owner_check_def dest: check_clock_live split: prod.splits sum.splits)

lemma observe_devices_now: "observe_devices now sms s = (r, t) \<Longrightarrow> gs_now t = gs_now s"
proof (induction sms arbitrary: s r t)
  case Nil
  then show ?case by (simp add: areturn_def)
next
  case (Cons x sms)
  then show ?case
    by (cases x) (fastforce simp: abind_def areturn_def device_check_def native_accept_def bind_connection_def reject_def
        araise_def split: prod.splits sum.splits option.splits if_splits)
qed

section \<open>Properties\<close>

text \<open>
  C21. A group grant is one-shot. Over any sequence of operations, failing or not, the
  deadline is never extended, the clock never goes back, an established group never changes,
  and a terminal session stays terminal with the plan it ended with; after one rejected
  operation every later operation is refused.
\<close>

theorem group_grant_is_one_shot:
  "(let t = snd (gs.run s ps) in gs_deadline t = gs_deadline s \<and> gs_now s \<le> gs_now t \<and>
     (gs_group s \<noteq> [] \<longrightarrow> gs_group t = gs_group s) \<and>
     (gs_terminal s \<longrightarrow> gs_terminal t \<and> gs_plan t = gs_plan s)) \<and>
   (\<forall>c t. gs_step s p = (Inl (GRejected c), t) \<longrightarrow> list_all isl (fst (gs.run t ps)))"
  using run_kept [of s ps] gs.run_forward [of s ps] gs.no_acceptance_after_refusal [of s p _ _ ps]
  by (auto simp: grant_kept_def Let_def)

definition example_session :: session where
  "example_session = \<lparr>gs_ids = [''A''], gs_master = ''A'',
     gs_cursors = [''A'' \<mapsto> \<lparr>cu_nonce = replicate 32 (CHR ''a''), cu_pid = 7, cu_started = 1, cu_previous = None, cu_now = 1,
       cu_failed = False, cu_retired = []\<rparr>], gs_heartbeats = [''A'' \<mapsto> new_heartbeat], gs_owner = new_heartbeat,
     gs_owner_observation = observation (VInt 1) (VInt 10), gs_samples = [], gs_connections = Map.empty, gs_group = [],
     gs_now = 1, gs_deadline = 901, gs_failed = False, gs_terminal = False, gs_locally_stopped = False, gs_plan = None\<rparr>"

theorem group_grant_is_one_shot_witness:
  "gs_step example_session (Observe [] (VInt 12)) =
     (Inl (GRejected SESSION_UNVERIFIED), snd (gs_step example_session (Observe [] (VInt 12)))) \<and>
   list_all isl (fst (gs.run (snd (gs_step example_session (Observe [] (VInt 12)))) [RequireLive (VInt 13)]))"
proof -
  have "fst (gs_step example_session (Observe [] (VInt 12))) = Inl (GRejected SESSION_UNVERIFIED)"
    by (simp add: example_session_def planned_by_def observe_def failing_def abind_def owner_live_def check_clock_def
        owner_check_def hb_check_def hb_observe_def new_heartbeat_def observation_def keys_are_def field_def
        too_big_for_float_def stale_def MAX_SAFE_def latch_def same_ids_def reject_def araise_def is_value_or_type_error_def
        is_value_error_def keep_code_def insert_commute)
  then have "gs_step example_session (Observe [] (VInt 12)) =
     (Inl (GRejected SESSION_UNVERIFIED), snd (gs_step example_session (Observe [] (VInt 12))))" by (simp add: prod_eq_iff)
  then show ?thesis using group_grant_is_one_shot [of example_session _ "Observe [] (VInt 12)"]
    by (metis group_grant_is_one_shot)
qed

text \<open>
  An active plan is grounded in observations. When an observation yields an active plan,
  the owner was live before the deadline, the members are sorted, distinct and among the
  bound devices, the master is not listed as a member, and the last accepted native record of
  the master and of every member is of the session's one group.
\<close>

lemma active_plan_sound:
  assumes "observe sms now s = (Inr p, t)" "distinct (map fst sms)" "gp_status p = ACTIVE"
  shows "gp_master p = gs_master s \<and> gs_plan t = Some p \<and> gs_now t < gs_deadline s \<and>
    sorted (gp_members p) \<and> distinct (gp_members p) \<and> gs_master s \<notin> set (gp_members p) \<and>
    (\<forall>m \<in> set (gs_master s # gp_members p). m \<in> set (gs_ids s) \<and>
       (\<exists>c r. gs_cursors t m = Some c \<and> cu_previous c = Some r \<and> ng_state r = GROUPED \<and> ng_group_hash r = gs_group t))"
proof -
  obtain s1 rs s2 where o: "owner_live now s = (Inr (), s1)" "same_ids s1 sms"
    "observe_devices now sms s1 = (Inr rs, s2)" "derive_plan rs (s2\<lparr>gs_samples := sms\<rparr>) = (Inr p, t)"
    using observe_Inr [OF assms(1)] by metis
  obtain leader where d: "map_of rs (gs_master s2) = Some leader" "ng_state leader = GROUPED" "gs_group t = ng_group_hash leader"
    "p = \<lparr>gp_master = gs_master s2, gp_members = members_of (gs_master s2) (gs_group t) rs, gp_status = ACTIVE\<rparr>"
    "gs_plan t = Some p" "gs_cursors t = gs_cursors s2" "gs_now t = gs_now s2" "gs_deadline t = gs_deadline s2"
    using derive_plan_active [OF o(4) assms(3)] by auto
  have g: "same_grant s s1" "same_grant s1 s2" using steadyD steady_owner_live steady_devices(2) o(1,3) by blast+
  have rs: "map fst rs = map fst sms" "\<And>i r. (i, r) \<in> set rs \<Longrightarrow> \<exists>c. gs_cursors s2 i = Some c \<and> cu_previous c = Some r"
    using observe_devices_records [OF o(3) assms(2)] by auto
  have ids: "set (map fst rs) = set (gs_ids s)" using o(2) g rs(1) by (simp add: same_ids_def same_grant_def)
  have dist: "distinct (map fst rs)" using rs(1) assms(2) by simp
  have mem: "gp_members p = members_of (gs_master s) (gs_group t) rs" "gs_master s2 = gs_master s"
    using d(4) g by (simp_all add: same_grant_def)
  have m: "m \<in> set (gp_members p) \<longleftrightarrow> (\<exists>r. (m, r) \<in> set rs \<and> m \<noteq> gs_master s \<and> ng_state r = GROUPED \<and> ng_group_hash r = gs_group t)" for m
    by (auto simp: mem members_of_def image_iff)
  have "distinct (map fst (filter P rs))" for P using dist by (induction rs) auto
  then have "sorted (gp_members p)" "distinct (gp_members p)" by (simp_all add: mem members_of_def)
  moreover have "(gs_master s, leader) \<in> set rs" using d(1) mem(2) by (simp add: map_of_SomeD)
  moreover have "gs_now t < gs_deadline s"
    using owner_live_clock [OF o(1)] observe_devices_now [OF o(3)] d(7) g(1) by (simp add: same_grant_def)
  moreover have "i \<in> set (gs_ids s) \<and> (\<exists>c. gs_cursors t i = Some c \<and> cu_previous c = Some r)" if "(i, r) \<in> set rs" for i r
    using rs(2) [OF that] that ids d(6) by (force simp: image_iff)
  ultimately show ?thesis using m d(2,3,4,5) mem(2) by (auto simp del: set_map) blast+
qed

end
