(* ===== verification/PresetMutations.thy ===== *)
theory PresetMutations
  imports Prelude
begin

text \<open>
  Durable preset mutations (app/services/preset_transactions.py over the tables Preset,
  PresetMutation and ConfigBackup of app/models/core.py). The two digest functions and the
  generated mutation id are parameters. A backup's content is the JSON value it holds, or
  nothing when it is not JSON.
\<close>

section \<open>Tables\<close>

record preset =
  ps_device_id :: string
  ps_button :: int
  ps_station_id :: "int option"
  ps_source :: string
  ps_source_account :: string
  ps_location :: string
  ps_content_item_xml :: string

record mutation =
  mu_id :: string
  mu_device_id :: string
  mu_button :: int
  mu_operation :: string
  mu_state :: string
  mu_revision :: int
  mu_expected_previous_sha256 :: string
  mu_requested_sha256 :: string
  mu_before_radio_sha256 :: string
  mu_after_radio_sha256 :: string
  mu_backup_ref :: string
  mu_diverged :: bool
  mu_error :: string
  mu_created_at :: int
  mu_updated_at :: int

record config_backup =
  cb_device_id :: string
  cb_path :: string
  cb_content :: "pyval option"

record preset_db =
  db_presets :: "preset list"
  db_mutations :: "mutation list"
  db_backups :: "config_backup list"

definition ACTIVE_DELETE_STATES :: "string list" where
  "ACTIVE_DELETE_STATES = [''RADIO_WRITE'', ''RADIO_READBACK'']"

definition TRANSITIONS :: "(string \<times> string list) list" where
  "TRANSITIONS =
     [(''PREPARED'', [''RADIO_WRITE'', ''FAILED'']),
      (''RADIO_WRITE'', [''RADIO_READBACK'', ''FAILED'', ''RECONCILE'']),
      (''RADIO_READBACK'', [''VERIFIED'', ''FAILED'', ''RECONCILE'']),
      (''VERIFIED'', [''LOCAL_COMMIT'', ''RECONCILE'']),
      (''FAILED'', [''RECONCILE'', ''ROLLBACK'']),
      (''RECONCILE'', [''VERIFIED'', ''ROLLBACK'', ''FAILED'']),
      (''LOCAL_COMMIT'', []),
      (''ROLLBACK'', [])]"

definition next_states :: "string \<Rightarrow> string list" where
  "next_states s = (case map_of TRANSITIONS s of None \<Rightarrow> [] | Some ts \<Rightarrow> ts)"

section \<open>Operations\<close>

definition preset_snapshot :: "preset option \<Rightarrow> pyval" where
  "preset_snapshot p = (case p of None \<Rightarrow> VNone | Some q \<Rightarrow>
     VDict [(''button'', VInt (ps_button q)),
            (''station_id'', case ps_station_id q of None \<Rightarrow> VNone | Some i \<Rightarrow> VInt i),
            (''source'', VStr (ps_source q)), (''source_account'', VStr (ps_source_account q)),
            (''location'', VStr (ps_location q)), (''content_item_xml'', VStr (ps_content_item_xml q))])"

definition intent_path :: "string \<Rightarrow> string" where
  "intent_path mid = ''preset-intent/'' @ mid @ ''.json''"

definition original_preset_intent :: "(pyval \<Rightarrow> string) \<Rightarrow> preset_db \<Rightarrow> mutation \<Rightarrow> pyerr + pyval" where
  "original_preset_intent digest db row =
     (case filter (\<lambda>b. cb_device_id b = mu_device_id row \<and> cb_path b = intent_path (mu_id row)) (db_backups db) of
        [b] \<Rightarrow> (case cb_content b of
            Some (VDict d) \<Rightarrow> if digest (VDict d) \<noteq> mu_requested_sha256 row then Inl ValueError else Inr (VDict d)
          | _ \<Rightarrow> Inl ValueError)
      | _ \<Rightarrow> Inl ValueError)"

definition same_slot :: "string \<Rightarrow> int \<Rightarrow> mutation \<Rightarrow> bool" where
  "same_slot dev button m = (mu_device_id m = dev \<and> mu_button m = button)"

text \<open>\<open>int(latest or 0)\<close> of the maximum revision of a slot.\<close>

definition latest_revision :: "string \<Rightarrow> int \<Rightarrow> mutation list \<Rightarrow> int" where
  "latest_revision dev button ms =
     (case map mu_revision (filter (same_slot dev button) ms) of [] \<Rightarrow> 0 | r # rs \<Rightarrow> fold max rs r)"

definition prepare_preset_mutation ::
  "(pyval \<Rightarrow> string) \<Rightarrow> string \<Rightarrow> int \<Rightarrow> string \<Rightarrow> int \<Rightarrow> string \<Rightarrow> pyval \<Rightarrow> preset_db \<Rightarrow> mutation \<times> preset_db" where
  "prepare_preset_mutation digest mid now dev button operation requested db =
     (let previous = find (\<lambda>p. ps_device_id p = dev \<and> ps_button p = button) (db_presets db);
          row = \<lparr>mu_id = mid, mu_device_id = dev, mu_button = button, mu_operation = upper operation,
            mu_state = ''PREPARED'', mu_revision = latest_revision dev button (db_mutations db) + 1,
            mu_expected_previous_sha256 = digest (preset_snapshot previous), mu_requested_sha256 = digest requested,
            mu_before_radio_sha256 = [], mu_after_radio_sha256 = [], mu_backup_ref = [], mu_diverged = False,
            mu_error = [], mu_created_at = now, mu_updated_at = now\<rparr>
      in (row, db\<lparr>db_mutations := db_mutations db @ [row],
                  db_backups := db_backups db @ [\<lparr>cb_device_id = dev, cb_path = intent_path mid, cb_content = Some requested\<rparr>]\<rparr>))"

record transition_args =
  ta_before_radio :: "string option"
  ta_after_radio :: "string option"
  ta_backup_ref :: "string option"
  ta_error :: "string option"
  ta_diverged :: "bool option"

definition given :: "'a option \<Rightarrow> 'a \<Rightarrow> 'a" where
  "given o' d = (case o' of None \<Rightarrow> d | Some a \<Rightarrow> a)"

definition updated_mutation :: "(string \<Rightarrow> string) \<Rightarrow> string \<Rightarrow> transition_args \<Rightarrow> int \<Rightarrow> mutation \<Rightarrow> mutation" where
  "updated_mutation sha target a now m = m\<lparr>mu_state := target,
     mu_before_radio_sha256 := given (map_option sha (ta_before_radio a)) (mu_before_radio_sha256 m),
     mu_after_radio_sha256 := given (map_option sha (ta_after_radio a)) (mu_after_radio_sha256 m),
     mu_backup_ref := given (ta_backup_ref a) (mu_backup_ref m),
     mu_error := given (map_option (take 2048) (ta_error a)) (mu_error m),
     mu_diverged := given (ta_diverged a) (mu_diverged m), mu_updated_at := now\<rparr>"

definition replace_mutation :: "mutation \<Rightarrow> mutation list \<Rightarrow> mutation list" where
  "replace_mutation m ms = map (\<lambda>x. if mu_id x = mu_id m then m else x) ms"

definition transition_preset_mutation ::
  "(string \<Rightarrow> string) \<Rightarrow> mutation \<Rightarrow> string \<Rightarrow> transition_args \<Rightarrow> int \<Rightarrow> preset_db \<Rightarrow> (pyerr + mutation) \<times> preset_db" where
  "transition_preset_mutation sha m state a now db =
     (let target = upper state; current = upper (mu_state m) in
      if target \<noteq> current \<and> target \<notin> set (next_states current) then (Inl ValueError, db)
      else (let m' = updated_mutation sha target a now m
            in (Inr m', db\<lparr>db_mutations := replace_mutation m' (db_mutations db)\<rparr>)))"

definition active_delete_buttons :: "string \<Rightarrow> preset_db \<Rightarrow> int set" where
  "active_delete_buttons dev db = mu_button ` set (filter (\<lambda>m. mu_device_id m = dev \<and>
     mu_operation m = ''DELETE'' \<and> mu_state m \<in> set ACTIVE_DELETE_STATES) (db_mutations db))"

section \<open>Lemmas\<close>

lemma fold_max_ge: "(x :: int) \<in> set (r # rs) \<Longrightarrow> x \<le> fold max rs r"
proof (induction rs arbitrary: r)
  case Nil
  then show ?case by simp
next
  case (Cons a rs)
  have "x \<le> fold max rs (max a r)"
  proof (cases "x = r \<or> x = a")
    case True
    have "max a r \<le> fold max rs (max a r)" by (induction rs arbitrary: a r) (auto intro: order_trans)
    then show ?thesis using True by auto
  next
    case False
    then show ?thesis using Cons.IH [of "max a r"] Cons.prems by auto
  qed
  then show ?case by simp
qed

lemma latest_revision_ge: "m \<in> set ms \<Longrightarrow> same_slot dev button m \<Longrightarrow> mu_revision m \<le> latest_revision dev button ms"
proof -
  assume m: "m \<in> set ms" "same_slot dev button m"
  then have "mu_revision m \<in> set (map mu_revision (filter (same_slot dev button) ms))" by auto
  then show ?thesis
    by (cases "map mu_revision (filter (same_slot dev button) ms)") (auto simp: latest_revision_def intro: fold_max_ge)
qed

text \<open>What a transition never changes, and the states it can produce.\<close>

lemma transition_frame:
  assumes "transition_preset_mutation sha m state a now db = (Inr m', db')"
  shows "mu_id m' = mu_id m" "mu_device_id m' = mu_device_id m" "mu_button m' = mu_button m"
    "mu_operation m' = mu_operation m" "mu_revision m' = mu_revision m" "mu_requested_sha256 m' = mu_requested_sha256 m"
    "db_backups db' = db_backups db" "db_presets db' = db_presets db"
    "mu_state m' = upper (mu_state m) \<or> mu_state m' \<in> set (next_states (upper (mu_state m)))"
  using assms by (auto simp: transition_preset_mutation_def updated_mutation_def Let_def split: if_splits)

text \<open>States a mutation passes through, the latest first.\<close>

inductive mutation_history :: "(string \<Rightarrow> string) \<Rightarrow> mutation \<Rightarrow> mutation list \<Rightarrow> bool" for sha :: "string \<Rightarrow> string" and m0 :: mutation where
  start: "mutation_history sha m0 [m0]"
| step: "mutation_history sha m0 (m # h) \<Longrightarrow> transition_preset_mutation sha m state a now db = (Inr m', db') \<Longrightarrow>
    mutation_history sha m0 (m' # m # h)"

lemma table_entries:
  "next_states ''PREPARED'' = [''RADIO_WRITE'', ''FAILED'']"
  "next_states ''RADIO_WRITE'' = [''RADIO_READBACK'', ''FAILED'', ''RECONCILE'']"
  "next_states ''RADIO_READBACK'' = [''VERIFIED'', ''FAILED'', ''RECONCILE'']"
  "next_states ''VERIFIED'' = [''LOCAL_COMMIT'', ''RECONCILE'']"
  "next_states ''FAILED'' = [''RECONCILE'', ''ROLLBACK'']"
  "next_states ''RECONCILE'' = [''VERIFIED'', ''ROLLBACK'', ''FAILED'']"
  "next_states ''LOCAL_COMMIT'' = []" "next_states ''ROLLBACK'' = []"
  by (simp_all add: next_states_def TRANSITIONS_def)

definition KNOWN_STATES :: "string list" where
  "KNOWN_STATES = map fst TRANSITIONS"

lemma known_upper: "s \<in> set KNOWN_STATES \<Longrightarrow> upper s = s"
proof -
  have "list_all (\<lambda>s. upper s = s) KNOWN_STATES" by code_simp
  then show "s \<in> set KNOWN_STATES \<Longrightarrow> upper s = s" by (simp add: list_all_iff)
qed

definition entry_ok :: "string \<Rightarrow> string \<Rightarrow> bool" where
  "entry_ok s t = (t \<in> set KNOWN_STATES \<and> t \<noteq> ''PREPARED'' \<and> (t = ''LOCAL_COMMIT'' \<longrightarrow> s = ''VERIFIED'') \<and>
     (t = ''RADIO_READBACK'' \<longrightarrow> s = ''RADIO_WRITE'') \<and> (t = ''RADIO_WRITE'' \<longrightarrow> s = ''PREPARED'') \<and>
     (t = ''VERIFIED'' \<longrightarrow> s \<in> {''RADIO_READBACK'', ''RECONCILE''}) \<and> s \<notin> {''LOCAL_COMMIT'', ''ROLLBACK''})"

lemma entries_ok: "s \<in> set KNOWN_STATES \<Longrightarrow> t \<in> set (next_states s) \<Longrightarrow> entry_ok s t"
proof -
  have "list_all (\<lambda>s. list_all (entry_ok s) (next_states s)) KNOWN_STATES" by code_simp
  then show "s \<in> set KNOWN_STATES \<Longrightarrow> t \<in> set (next_states s) \<Longrightarrow> entry_ok s t" by (auto simp: list_all_iff)
qed

definition history_ok :: "mutation list \<Rightarrow> bool" where
  "history_ok h = ((\<forall>m \<in> set h. mu_state m \<in> set KNOWN_STATES) \<and>
     (let S = mu_state ` set h in
       (''LOCAL_COMMIT'' \<in> S \<longrightarrow> ''VERIFIED'' \<in> S) \<and>
       (''VERIFIED'' \<in> S \<longrightarrow> ''RADIO_READBACK'' \<in> S \<or> ''RECONCILE'' \<in> S) \<and>
       (''RADIO_READBACK'' \<in> S \<longrightarrow> ''RADIO_WRITE'' \<in> S)))"

lemma history_ok_step:
  assumes "history_ok (m # h)" "mu_state m' = mu_state m \<or> entry_ok (mu_state m) (mu_state m')"
  shows "history_ok (m' # m # h)"
proof (cases "mu_state m' = mu_state m")
  case True
  then have "mu_state ` set (m' # m # h) = mu_state ` set (m # h)" by simp
  then show ?thesis using assms(1) True unfolding history_ok_def Let_def by (metis list.set_intros(1) set_ConsD)
next
  case False
  let ?S = "mu_state ` set (m # h)"
  have e: "mu_state m' \<in> set KNOWN_STATES" "mu_state m' = ''LOCAL_COMMIT'' \<longrightarrow> mu_state m = ''VERIFIED''"
      "mu_state m' = ''RADIO_READBACK'' \<longrightarrow> mu_state m = ''RADIO_WRITE''"
      "mu_state m' = ''VERIFIED'' \<longrightarrow> mu_state m = ''RADIO_READBACK'' \<or> mu_state m = ''RECONCILE''"
    using assms(2) False unfolding entry_ok_def by blast+
  have o: "\<forall>x \<in> set (m # h). mu_state x \<in> set KNOWN_STATES" "''LOCAL_COMMIT'' \<in> ?S \<longrightarrow> ''VERIFIED'' \<in> ?S"
      "''VERIFIED'' \<in> ?S \<longrightarrow> ''RADIO_READBACK'' \<in> ?S \<or> ''RECONCILE'' \<in> ?S" "''RADIO_READBACK'' \<in> ?S \<longrightarrow> ''RADIO_WRITE'' \<in> ?S"
    using assms(1) unfolding history_ok_def Let_def by blast+
  have S: "mu_state ` set (m' # m # h) = insert (mu_state m') ?S" "mu_state m \<in> ?S" by simp_all
  have "\<forall>x \<in> set (m' # m # h). mu_state x \<in> set KNOWN_STATES" using o(1) e(1) unfolding set_simps(2) [of m'] by blast
  moreover have "''LOCAL_COMMIT'' \<in> insert (mu_state m') ?S \<longrightarrow> ''VERIFIED'' \<in> insert (mu_state m') ?S"
    using o(2) e(2) S(2) by (metis insert_iff)
  moreover have "''VERIFIED'' \<in> insert (mu_state m') ?S \<longrightarrow>
      ''RADIO_READBACK'' \<in> insert (mu_state m') ?S \<or> ''RECONCILE'' \<in> insert (mu_state m') ?S"
    using o(3) e(4) S(2) by (metis insert_iff)
  moreover have "''RADIO_READBACK'' \<in> insert (mu_state m') ?S \<longrightarrow> ''RADIO_WRITE'' \<in> insert (mu_state m') ?S"
    using o(4) e(3) S(2) by (metis insert_iff)
  ultimately show ?thesis unfolding history_ok_def Let_def S(1) by blast
qed

lemma history_invariant:
  assumes "mutation_history sha m0 h" "mu_state m0 = ''PREPARED''"
  shows "history_ok h" "h \<noteq> [] \<and> (\<forall>m \<in> set h. mu_id m = mu_id m0 \<and> mu_requested_sha256 m = mu_requested_sha256 m0 \<and>
    mu_device_id m = mu_device_id m0 \<and> mu_revision m = mu_revision m0)"
  using assms
proof (induction rule: mutation_history.induct)
  case start
  {
    case 1
    then show ?case by (simp add: history_ok_def KNOWN_STATES_def TRANSITIONS_def)
  next
    case 2
    then show ?case by simp
  }
next
  case (step m h state a now db m' db')
  {
    case 1
    have k: "mu_state m \<in> set KNOWN_STATES" using step.IH(1) [OF 1] by (simp add: history_ok_def)
    then have "mu_state m' = mu_state m \<or> entry_ok (mu_state m) (mu_state m')"
      using transition_frame(9) [OF step.hyps(2)] known_upper [OF k] entries_ok [OF k] by auto
    then show ?case using step.IH(1) [OF 1] history_ok_step by blast
  next
    case 2
    show ?case using step.IH(2) [OF 2] transition_frame [OF step.hyps(2)] by auto
  }
qed

section \<open>Properties\<close>


definition example_digest :: "pyval \<Rightarrow> string" where
  "example_digest v = (case v of VDict d \<Rightarrow> concat (map fst d) | _ \<Rightarrow> [])"

definition empty_db :: preset_db where
  "empty_db = \<lparr>db_presets = [], db_mutations = [], db_backups = []\<rparr>"

definition no_args :: transition_args where
  "no_args = \<lparr>ta_before_radio = None, ta_after_radio = None, ta_backup_ref = None, ta_error = None, ta_diverged = None\<rparr>"

definition example_mutation :: mutation where
  "example_mutation = fst (prepare_preset_mutation example_digest ''m1'' 5 ''A'' 1 ''set'' (VDict [(''x'', VInt 1)]) empty_db)"


text \<open>
  The original intent survives. Preparing a mutation gives it a revision above all earlier
  ones of its slot, and the exact requested state can be read back from the backup store in
  every later state of the mutation, as long as the generated id was not already used.
\<close>

lemma preset_intent_survives:
  assumes "prepare_preset_mutation digest mid now dev button operation (VDict d) db = (row, db1)"
    and "\<forall>b \<in> set (db_backups db). \<not> (cb_device_id b = dev \<and> cb_path b = intent_path mid)"
    and "mutation_history sha row h" "m \<in> set h" "db_backups db2 = db_backups db1"
  shows "original_preset_intent digest db2 m = Inr (VDict d) \<and>
    (\<forall>old \<in> set (db_mutations db). same_slot dev button old \<longrightarrow> mu_revision old < mu_revision m)"
proof -
  have row: "mu_state row = ''PREPARED''" "mu_id row = mid" "mu_device_id row = dev" "mu_requested_sha256 row = digest (VDict d)"
      "mu_revision row = latest_revision dev button (db_mutations db) + 1"
      "db_backups db1 = db_backups db @ [\<lparr>cb_device_id = dev, cb_path = intent_path mid, cb_content = Some (VDict d)\<rparr>]"
    using assms(1) by (auto simp: prepare_preset_mutation_def Let_def)
  have m: "mu_id m = mid" "mu_device_id m = dev" "mu_requested_sha256 m = digest (VDict d)" "mu_revision m = mu_revision row"
    using history_invariant(2) [OF assms(3) row(1)] assms(4) row by auto
  have "filter (\<lambda>b. cb_device_id b = dev \<and> cb_path b = intent_path mid) (db_backups db) = []"
    using assms(2) by (simp add: filter_empty_conv)
  then have "original_preset_intent digest db2 m = Inr (VDict d)"
    using m row(6) assms(5) by (simp add: original_preset_intent_def)
  moreover have "mu_revision old < mu_revision m" if "old \<in> set (db_mutations db)" "same_slot dev button old" for old
    using latest_revision_ge [OF that] m(4) row(5) by simp
  ultimately show ?thesis by blast
qed

end
