(* ===== verification/SafetyGate.thy ===== *)
theory SafetyGate
  imports Prelude
begin

text \<open>
  The playback safety gate (app/services/playback_safety_gate.py): a row of the runtime state
  table per device that a human-triggered playback arms, a readback verifies, and the local
  provider waits for before it hands out an audio URL. Times are microseconds. A row is the
  decoded JSON object without its time stamp and that stamp, or nothing when the stamp is
  missing or not a time. The provider's wait runs over the polls it makes: the event loop's
  clock, the wall clock and the table it reads.
\<close>

section \<open>State\<close>

type_synonym gate_dict = "(string \<times> pyval) list"

record gate_row =
  gr_value :: gate_dict
  gr_updated :: "int option"

type_synonym gate_store = "string \<rightharpoonup> gate_row"

datatype gate_err = PlaybackSafetyGateError

definition GATE_TTL :: int where
  "GATE_TTL = 30 * 1000000"

definition gate_key :: "string \<Rightarrow> string" where
  "gate_key dev = ''device:'' @ upper (strip dev) @ '':playback_safety_gate''"

definition get :: "gate_dict \<Rightarrow> string \<Rightarrow> pyval" where
  "get d k = (case map_of d k of None \<Rightarrow> VNone | Some v \<Rightarrow> v)"

section \<open>Operations\<close>

text \<open>\<open>{"device_id": .., "updated_at": .., **payload}\<close>; no payload of this module has these keys.\<close>

definition gate_write :: "string \<Rightarrow> gate_dict \<Rightarrow> int \<Rightarrow> gate_store \<Rightarrow> gate_dict \<times> gate_store" where
  "gate_write dev payload now st =
     (let value = (''device_id'', VStr (upper (strip dev))) # payload
      in (value, st(gate_key dev \<mapsto> \<lparr>gr_value = value, gr_updated = Some now\<rparr>)))"

fun safe_volume_ok :: "pyval \<Rightarrow> bool" where
  "safe_volume_ok (VInt i) = (0 \<le> i \<and> i \<le> 5)"
| "safe_volume_ok _ = False"

definition arm_playback_safety_gate ::
  "string \<Rightarrow> pyval \<Rightarrow> int \<Rightarrow> int \<Rightarrow> gate_store \<Rightarrow> (gate_err + gate_dict) \<times> gate_store" where
  "arm_playback_safety_gate dev safe_volume station_id now st =
     (if \<not> safe_volume_ok safe_volume then (Inl PlaybackSafetyGateError, st)
      else (case gate_write dev
          [(''state'', VStr ''ARMED''), (''safe_volume'', safe_volume), (''station_id'', VInt station_id),
           (''mute_required'', VBool True), (''reason'', VStr ''waiting for post-select volume and mute readback'')] now st of
          (v, st') \<Rightarrow> (Inr v, st')))"

record loaded_gate =
  lg_value :: gate_dict
  lg_age :: int
  lg_expired :: bool

definition load_playback_safety_gate :: "string \<Rightarrow> int \<Rightarrow> gate_store \<Rightarrow> loaded_gate option" where
  "load_playback_safety_gate dev now st = (case st (gate_key dev) of
     None \<Rightarrow> None
   | Some row \<Rightarrow>
       (let age = (case gr_updated row of None \<Rightarrow> GATE_TTL + 1000000 | Some t \<Rightarrow> now - t)
        in Some \<lparr>lg_value = gr_value row, lg_age = max 0 age, lg_expired = (GATE_TTL < age)\<rparr>))"

definition verify_playback_safety_gate ::
  "string \<Rightarrow> pyval \<Rightarrow> pyval \<Rightarrow> int \<Rightarrow> gate_store \<Rightarrow> (gate_err + gate_dict) \<times> gate_store" where
  "verify_playback_safety_gate dev volume muted now st = (case load_playback_safety_gate dev now st of
     None \<Rightarrow> (Inl PlaybackSafetyGateError, st)
   | Some gate \<Rightarrow>
       (let expected = get (lg_value gate) ''safe_volume'' in
        if get (lg_value gate) ''state'' \<noteq> VStr ''ARMED'' \<or> lg_expired gate \<or> \<not> safe_volume_ok expected
           \<or> volume \<noteq> expected \<or> muted \<noteq> VBool True
        then (Inl PlaybackSafetyGateError, st)
        else (case gate_write dev
            [(''state'', VStr ''VERIFIED''), (''safe_volume'', expected), (''station_id'', get (lg_value gate) ''station_id''),
             (''mute_required'', VBool True), (''volume_readback'', volume), (''mute_readback'', VBool True),
             (''reason'', VStr ''post-select safety readback verified'')] now st of
            (v, st') \<Rightarrow> (Inr v, st'))))"

definition fail_playback_safety_gate :: "string \<Rightarrow> string \<Rightarrow> int \<Rightarrow> gate_store \<Rightarrow> gate_dict \<times> gate_store" where
  "fail_playback_safety_gate dev reason now st =
     (let value = (case load_playback_safety_gate dev now st of None \<Rightarrow> [] | Some g \<Rightarrow> lg_value g)
      in gate_write dev
        [(''state'', VStr ''FAILED''), (''safe_volume'', get value ''safe_volume''), (''station_id'', get value ''station_id''),
         (''mute_required'', VBool True),
         (''reason'', VStr (take 500 (if reason = [] then ''playback safety verification failed'' else reason)))] now st)"

definition clear_playback_safety_gate :: "string \<Rightarrow> gate_store \<Rightarrow> gate_store" where
  "clear_playback_safety_gate dev st = st(gate_key dev := None)"

datatype release = NotArmed | Released pyval

fun text_state :: "pyval \<Rightarrow> string" where
  "text_state (VStr s) = upper s"
| "text_state _ = ''OTHER''"

text \<open>One round of the provider's loop: \<open>None\<close> means that it sleeps and polls again.\<close>

definition provider_poll :: "string \<Rightarrow> int \<Rightarrow> int \<Rightarrow> int \<Rightarrow> gate_store \<Rightarrow> (gate_err + release) option" where
  "provider_poll dev deadline clock now st = (case load_playback_safety_gate dev now st of
     None \<Rightarrow> Some (Inr NotArmed)
   | Some gate \<Rightarrow>
       (let v = lg_value gate in
        if lg_expired gate then Some (Inl PlaybackSafetyGateError)
        else if text_state (get v ''state'') = ''VERIFIED''
        then (if \<not> safe_volume_ok (get v ''safe_volume'') \<or> get v ''volume_readback'' \<noteq> get v ''safe_volume''
                 \<or> get v ''mute_readback'' \<noteq> VBool True
              then Some (Inl PlaybackSafetyGateError) else Some (Inr (Released (get v ''volume_readback''))))
        else if text_state (get v ''state'') = ''FAILED'' then Some (Inl PlaybackSafetyGateError)
        else if deadline \<le> clock then Some (Inl PlaybackSafetyGateError) else None))"

record poll =
  po_clock :: int
  po_now :: int
  po_store :: gate_store

fun wait_loop :: "string \<Rightarrow> int \<Rightarrow> poll list \<Rightarrow> (gate_err + release) option" where
  "wait_loop dev deadline [] = None"
| "wait_loop dev deadline (p # ps) = (case provider_poll dev deadline (po_clock p) (po_now p) (po_store p) of
     None \<Rightarrow> wait_loop dev deadline ps | Some r \<Rightarrow> Some r)"

definition wait_for_provider_release :: "string \<Rightarrow> int \<Rightarrow> poll list \<Rightarrow> (gate_err + release) option" where
  "wait_for_provider_release dev start polls = wait_loop dev (start + 10 * 1000000) polls"

section \<open>The gate under its operations\<close>

datatype gate_op = Arm string pyval int | Verify string pyval pyval | Fail string string | Clear string

fun gate_step :: "gate_op \<Rightarrow> int \<Rightarrow> gate_store \<Rightarrow> gate_store" where
  "gate_step (Arm dev v s) now st = snd (arm_playback_safety_gate dev v s now st)"
| "gate_step (Verify dev v m) now st = snd (verify_playback_safety_gate dev v m now st)"
| "gate_step (Fail dev r) now st = snd (fail_playback_safety_gate dev r now st)"
| "gate_step (Clear dev) now st = clear_playback_safety_gate dev st"

text \<open>Tables the module can produce, with the operations that produced them, the latest first.\<close>

inductive gate_trace :: "(gate_op \<times> int) list \<Rightarrow> gate_store \<Rightarrow> bool" where
  start: "gate_trace [] Map.empty"
| step: "gate_trace h st \<Longrightarrow> gate_trace ((p, now) # h) (gate_step p now st)"

section \<open>Lemmas\<close>

lemma gate_write_simp [simp]:
  "gate_write dev payload now st =
     ((''device_id'', VStr (upper (strip dev))) # payload,
      st(gate_key dev \<mapsto> \<lparr>gr_value = (''device_id'', VStr (upper (strip dev))) # payload, gr_updated = Some now\<rparr>))"
  by (simp add: gate_write_def Let_def)

text \<open>
  Evidence behind a verified row: an earlier readback of exactly the armed volume, muted, at
  a time before the arming expired, and no operation on that device in between or since.
\<close>

fun touches :: "gate_op \<Rightarrow> string" where
  "touches (Arm dev v s) = gate_key dev"
| "touches (Verify dev v m) = gate_key dev"
| "touches (Fail dev r) = gate_key dev"
| "touches (Clear dev) = gate_key dev"

definition verified_row :: "gate_row \<Rightarrow> bool" where
  "verified_row row = (get (gr_value row) ''state'' = VStr ''VERIFIED'')"

definition evidence :: "(gate_op \<times> int) list \<Rightarrow> string \<Rightarrow> gate_row \<Rightarrow> bool" where
  "evidence h k row = (\<exists>dev v t tv h1 h2. gate_key dev = k \<and> h = h1 @ (Verify dev v (VBool True), tv) # h2 \<and>
     (\<exists>dev' s. gate_key dev' = k \<and> (Arm dev' v s, t) \<in> set h2) \<and> safe_volume_ok v \<and> tv - t \<le> GATE_TTL \<and>
     get (gr_value row) ''safe_volume'' = v \<and> get (gr_value row) ''volume_readback'' = v \<and>
     get (gr_value row) ''mute_readback'' = VBool True \<and> gr_updated row = Some tv)"

definition armed_by :: "(gate_op \<times> int) list \<Rightarrow> string \<Rightarrow> gate_row \<Rightarrow> bool" where
  "armed_by h k row = (\<exists>dev v s t. gate_key dev = k \<and> (Arm dev v s, t) \<in> set h \<and> safe_volume_ok v \<and>
     get (gr_value row) ''safe_volume'' = v \<and> gr_updated row = Some t)"

definition row_ok :: "(gate_op \<times> int) list \<Rightarrow> string \<Rightarrow> gate_row \<Rightarrow> bool" where
  "row_ok h k row = ((get (gr_value row) ''state'' = VStr ''VERIFIED'' \<and> evidence h k row) \<or>
     (get (gr_value row) ''state'' = VStr ''ARMED'' \<and> armed_by h k row) \<or> get (gr_value row) ''state'' = VStr ''FAILED'')"

lemma row_ok_mono: "row_ok h k row \<Longrightarrow> row_ok (x # h) k row"
proof -
  have "evidence (x # h) k row" if ev: "evidence h k row"
  proof -
    obtain dev v t tv h1 h2 where e: "gate_key dev = k" "h = h1 @ (Verify dev v (VBool True), tv) # h2"
      "\<exists>dev' s. gate_key dev' = k \<and> (Arm dev' v s, t) \<in> set h2" "safe_volume_ok v" "tv - t \<le> GATE_TTL"
      "get (gr_value row) ''safe_volume'' = v" "get (gr_value row) ''volume_readback'' = v"
      "get (gr_value row) ''mute_readback'' = VBool True" "gr_updated row = Some tv"
      using ev unfolding evidence_def by blast
    have "x # h = (x # h1) @ (Verify dev v (VBool True), tv) # h2" using e(2) by simp
    then show ?thesis unfolding evidence_def using e by blast
  qed
  moreover have "armed_by (x # h) k row" if "armed_by h k row" using that unfolding armed_by_def by fastforce
  ultimately show "row_ok h k row \<Longrightarrow> row_ok (x # h) k row" unfolding row_ok_def by blast
qed

lemma arm_row:
  assumes "safe_volume_ok v"
  shows "\<exists>row. gate_step (Arm dev v s) now st = st(gate_key dev \<mapsto> row) \<and> row_ok ((Arm dev v s, now) # h) (gate_key dev) row"
proof -
  let ?row = "\<lparr>gr_value = [(''device_id'', VStr (upper (strip dev))), (''state'', VStr ''ARMED''), (''safe_volume'', v),
      (''station_id'', VInt s), (''mute_required'', VBool True),
      (''reason'', VStr ''waiting for post-select volume and mute readback'')], gr_updated = Some now\<rparr>"
  have "gate_step (Arm dev v s) now st = st(gate_key dev \<mapsto> ?row)"
    using assms by (simp add: arm_playback_safety_gate_def)
  moreover have "get (gr_value ?row) ''state'' = VStr ''ARMED''" "get (gr_value ?row) ''safe_volume'' = v" "gr_updated ?row = Some now"
    by (simp_all add: get_def)
  then have "row_ok ((Arm dev v s, now) # h) (gate_key dev) ?row"
    using assms unfolding row_ok_def armed_by_def by (metis list.set_intros(1))
  ultimately show ?thesis by blast
qed

lemma fail_row: "\<exists>row. gate_step (Fail dev r) now st = st(gate_key dev \<mapsto> row) \<and> row_ok h (gate_key dev) row"
proof -
  obtain row where "gate_step (Fail dev r) now st = st(gate_key dev \<mapsto> row)" "get (gr_value row) ''state'' = VStr ''FAILED''"
    by (simp add: fail_playback_safety_gate_def Let_def) (simp add: get_def)
  then show ?thesis by (auto simp: row_ok_def)
qed

lemma verify_row:
  assumes "verify_playback_safety_gate dev v m now st = (Inr d, st')"
  obtains row where "st (gate_key dev) = Some row" "get (gr_value row) ''state'' = VStr ''ARMED''"
    "get (gr_value row) ''safe_volume'' = v" "safe_volume_ok v" "m = VBool True"
    "\<exists>t. gr_updated row = Some t \<and> now - t \<le> GATE_TTL"
    "\<exists>row'. st' = st(gate_key dev \<mapsto> row') \<and> get (gr_value row') ''state'' = VStr ''VERIFIED'' \<and>
       get (gr_value row') ''safe_volume'' = v \<and> get (gr_value row') ''volume_readback'' = v \<and>
       get (gr_value row') ''mute_readback'' = VBool True \<and> gr_updated row' = Some now"
proof -
  obtain row where r: "st (gate_key dev) = Some row"
    using assms by (auto simp: verify_playback_safety_gate_def load_playback_safety_gate_def split: option.splits)
  let ?age = "case gr_updated row of None \<Rightarrow> GATE_TTL + 1000000 | Some t \<Rightarrow> now - t"
  have l: "load_playback_safety_gate dev now st = Some \<lparr>lg_value = gr_value row, lg_age = max 0 ?age, lg_expired = (GATE_TTL < ?age)\<rparr>"
    by (simp add: load_playback_safety_gate_def r Let_def)
  have c: "\<not> (get (gr_value row) ''state'' \<noteq> VStr ''ARMED'' \<or> GATE_TTL < ?age \<or>
      \<not> safe_volume_ok (get (gr_value row) ''safe_volume'') \<or> v \<noteq> get (gr_value row) ''safe_volume'' \<or> m \<noteq> VBool True)"
    using assms unfolding verify_playback_safety_gate_def l
    by (simp only: option.case loaded_gate.simps Let_def split: if_splits) auto
  have st': "st' = snd (gate_write dev
        [(''state'', VStr ''VERIFIED''), (''safe_volume'', v), (''station_id'', get (gr_value row) ''station_id''),
         (''mute_required'', VBool True), (''volume_readback'', v), (''mute_readback'', VBool True),
         (''reason'', VStr ''post-select safety readback verified'')] now st)"
    using assms c unfolding verify_playback_safety_gate_def l by (auto simp: Let_def)
  have t: "\<exists>t. gr_updated row = Some t \<and> now - t \<le> GATE_TTL"
    using c by (cases "gr_updated row") auto
  show ?thesis
    by (rule that [OF r _ _ _ _ t]) (use c st' in \<open>auto simp: get_def\<close>)
qed

lemma trace_rows: "gate_trace h st \<Longrightarrow> st k = Some row \<Longrightarrow> row_ok h k row"
proof (induction arbitrary: k row rule: gate_trace.induct)
  case start
  then show ?case by simp
next
  case (step h st p now)
  have old: "row_ok ((p, now) # h) k row" if "st k = Some row" using row_ok_mono step.IH that by blast
  show ?case
  proof (cases p)
    case (Arm dev v s)
    show ?thesis
    proof (cases "safe_volume_ok v")
      case True
      then show ?thesis using arm_row [OF True, of dev s now st h] step.prems old Arm by (auto split: if_splits)
    next
      case False
      then show ?thesis using step.prems old Arm by (simp add: arm_playback_safety_gate_def)
    qed
  next
    case (Fail dev r)
    then show ?thesis using fail_row [of dev r now st "(p, now) # h"] step.prems old by (auto split: if_splits)
  next
    case (Clear dev)
    then show ?thesis using step.prems old by (auto simp: clear_playback_safety_gate_def split: if_splits)
  next
    case (Verify dev v m)
    obtain r st' where e: "verify_playback_safety_gate dev v m now st = (r, st')" by fastforce
    show ?thesis
    proof (cases r)
      case (Inl x)
      then have "st' = st" using e by (auto simp: verify_playback_safety_gate_def Let_def split: option.splits if_splits)
      then show ?thesis using step.prems old Verify e by simp
    next
      case (Inr d)
      obtain row0 row' t where a: "st (gate_key dev) = Some row0" "get (gr_value row0) ''state'' = VStr ''ARMED''"
          "get (gr_value row0) ''safe_volume'' = v" "safe_volume_ok v" "m = VBool True" "gr_updated row0 = Some t" "now - t \<le> GATE_TTL"
          "st' = st(gate_key dev \<mapsto> row')" "get (gr_value row') ''state'' = VStr ''VERIFIED''"
          "get (gr_value row') ''safe_volume'' = v" "get (gr_value row') ''volume_readback'' = v"
          "get (gr_value row') ''mute_readback'' = VBool True" "gr_updated row' = Some now"
        using verify_row [OF e [unfolded Inr]] by metis
      have "row_ok h (gate_key dev) row0" using step.IH a(1) by blast
      then obtain dev' s where arm: "gate_key dev' = gate_key dev" "(Arm dev' v s, t) \<in> set h"
        using a(2,3,6) unfolding row_ok_def armed_by_def by auto
      have "(p, now) # h = [] @ (Verify dev v (VBool True), now) # h" using Verify a(5) by simp
      then have "evidence ((p, now) # h) (gate_key dev) row'" unfolding evidence_def using a arm by blast
      then have "row_ok ((p, now) # h) (gate_key dev) row'" using a(9) by (simp add: row_ok_def)
      then show ?thesis using step.prems old Verify e a(8) by (auto split: if_splits)
    qed
  qed
qed

lemma upper_verified: "upper s = ''VERIFIED'' \<Longrightarrow> s \<in> set [''ARMED'', ''FAILED''] \<Longrightarrow> False"
proof -
  have "upper ''ARMED'' \<noteq> ''VERIFIED'' \<and> upper ''FAILED'' \<noteq> ''VERIFIED''" by code_simp
  then show "upper s = ''VERIFIED'' \<Longrightarrow> s \<in> set [''ARMED'', ''FAILED''] \<Longrightarrow> False" by auto
qed

lemma poll_release:
  assumes "provider_poll dev deadline clock now st = Some (Inr (Released v))" "gate_trace h st"
  shows "\<exists>row tv. st (gate_key dev) = Some row \<and> evidence h (gate_key dev) row \<and> get (gr_value row) ''volume_readback'' = v \<and>
    gr_updated row = Some tv \<and> now - tv \<le> GATE_TTL"
proof -
  obtain row where r: "st (gate_key dev) = Some row"
    using assms(1) by (auto simp: provider_poll_def load_playback_safety_gate_def split: option.splits)
  have p: "text_state (get (gr_value row) ''state'') = ''VERIFIED''" "get (gr_value row) ''volume_readback'' = v"
      "\<not> GATE_TTL < (case gr_updated row of None \<Rightarrow> GATE_TTL + 1000000 | Some t \<Rightarrow> now - t)"
    using assms(1) r by (auto simp: provider_poll_def load_playback_safety_gate_def Let_def split: if_splits)
  have "row_ok h (gate_key dev) row" using trace_rows [OF assms(2) r] .
  then have "evidence h (gate_key dev) row"
    using p(1) upper_verified [of "''ARMED''"] upper_verified [of "''FAILED''"] unfolding row_ok_def by auto
  moreover obtain tv where "gr_updated row = Some tv" "now - tv \<le> GATE_TTL" using p(3) by (cases "gr_updated row") auto
  ultimately show ?thesis using r p(2) by blast
qed

lemma wait_loop_Some:
  "wait_loop dev deadline ps = Some r \<Longrightarrow> \<exists>p \<in> set ps. provider_poll dev deadline (po_clock p) (po_now p) (po_store p) = Some r"
  by (induction ps) (auto split: option.splits)

section \<open>Properties\<close>


definition example_ops :: "(gate_op \<times> int) list" where
  "example_ops = [(Verify ''A'' (VInt 3) (VBool True), 20), (Arm ''A'' (VInt 3) 7, 10)]"

definition example_store :: gate_store where
  "example_store = gate_step (Verify ''A'' (VInt 3) (VBool True)) 20 (gate_step (Arm ''A'' (VInt 3) 7) 10 Map.empty)"

lemma example_trace: "gate_trace example_ops example_store"
  unfolding example_ops_def example_store_def by (intro gate_trace.intros)


text \<open>
  C26. The provider never waits beyond its deadline: a poll made ten seconds after the wait
  began, or later, always answers; and a device whose gate was never armed is answered at once.
\<close>

theorem provider_wait_bounded:
  assumes "p \<in> set polls" "start + 10 * 1000000 \<le> po_clock p \<or> po_store p (gate_key dev) = None"
  shows "wait_for_provider_release dev start polls \<noteq> None"
proof -
  have "provider_poll dev (start + 10 * 1000000) (po_clock p) (po_now p) (po_store p) \<noteq> None"
    using assms(2) by (auto simp: provider_poll_def load_playback_safety_gate_def Let_def split: option.splits)
  moreover have "provider_poll dev d (po_clock p) (po_now p) (po_store p) \<noteq> None \<Longrightarrow> p \<in> set ps \<Longrightarrow> wait_loop dev d ps \<noteq> None" for d ps
    by (induction ps) (auto split: option.splits)
  ultimately show ?thesis using assms(1) unfolding wait_for_provider_release_def by blast
qed

theorem provider_wait_bounded_witness:
  "wait_for_provider_release ''A'' 0 [\<lparr>po_clock = 10000000, po_now = 25, po_store = gate_step (Arm ''A'' (VInt 3) 7) 10 Map.empty\<rparr>] \<noteq> None"
  by (rule provider_wait_bounded [of "\<lparr>po_clock = 10000000, po_now = 25, po_store = gate_step (Arm ''A'' (VInt 3) 7) 10 Map.empty\<rparr>"])
    simp_all

end
