(* ===== verification/PlayHistory.thy ===== *)
theory PlayHistory
  imports Prelude
begin

text \<open>
  Playback history (app/services/playback_state.py): the rule for confirmed playback, the
  opening, refreshing and closing of history rows, conservative durations and start-up
  reconciliation. Times are microseconds; a row's times are stored aware. What the identity
  resolver (app/services/playback_identity.py) answers is the record \<open>identity_port\<close> of
  functions the code calls: it decides names and confidence, never times or row lifecycle.
  The columns that only describe how playback started are the record \<open>play_context\<close>; the columns
  that keep their defaults here (success, error message, canonical stream id, confirmed duration)
  are left out.
\<close>

section \<open>Confirmed playback\<close>

definition INACTIVE_SOURCES :: "string list" where
  "INACTIVE_SOURCES = [[], ''STANDBY'', ''INVALID_SOURCE'', ''SOURCE_DISCONNECTED'']"

definition INACTIVE_STATES :: "string list" where
  "INACTIVE_STATES = [[], ''STOP_STATE'', ''PAUSE_STATE'', ''STANDBY'', ''INVALID_SOURCE'',
     ''SOURCE_DISCONNECTED'', ''BUFFERING_STATE'', ''ERROR_STATE'']"

record play_observation =
  ob_reachable :: bool
  ob_source :: "string option"
  ob_playback_state :: "string option"
  ob_play_status :: "string option"
  ob_observed_at :: "int option"
  ob_manual_stop :: bool
  ob_timed_out :: bool
  ob_zone_removed :: bool

definition text_or :: "string option \<Rightarrow> string option \<Rightarrow> string" where
  "text_or a b = (case a of Some (c # cs) \<Rightarrow> c # cs | _ \<Rightarrow> (case b of Some s \<Rightarrow> s | None \<Rightarrow> []))"

definition is_confirmed_playing :: "play_observation \<Rightarrow> int \<Rightarrow> int \<Rightarrow> bool" where
  "is_confirmed_playing ob now stale_after_seconds =
     (let source = upper (strip (text_or (ob_source ob) None));
          status = upper (strip (text_or (ob_play_status ob) (ob_playback_state ob)))
      in if \<not> ob_reachable ob \<or> ob_manual_stop ob \<or> ob_timed_out ob \<or> ob_zone_removed ob then False
         else (case ob_observed_at ob of
             None \<Rightarrow> False
           | Some t \<Rightarrow>
               if now + 5 * 1000000 < t then False
               else if max 1 stale_after_seconds * 1000000 < now - t then False
               else if source \<in> set INACTIVE_SOURCES \<or> status \<in> set INACTIVE_STATES then False
               else status = ''PLAY_STATE''))"

section \<open>Rows\<close>

record play_context =
  cx_device_name :: string
  cx_device_ip :: string
  cx_source_type :: string
  cx_trigger :: string
  cx_trigger_type :: string
  cx_zone_master_id :: string
  cx_zone_member_ids :: string
  cx_preset_button :: "int option"
  cx_preset_name :: string
  cx_volume :: "int option"

record history_row =
  hr_id :: nat
  hr_device_id :: string
  hr_started_at :: int
  hr_ended_at :: "int option"
  hr_end_reason :: string
  hr_last_confirmed :: "int option"
  hr_source :: string
  hr_station_id :: "int option"
  hr_station_name :: string
  hr_display_name :: string
  hr_name_normalized :: string
  hr_identity_confidence :: int
  hr_identity_source :: string
  hr_stream_url :: string
  hr_source_account :: string
  hr_content_item_name :: string
  hr_internal_event :: bool
  hr_source_display_name :: string
  hr_stream_host :: string
  hr_is_internal :: bool
  hr_is_confirmed :: bool
  hr_context :: play_context

type_synonym history = "history_row list"

definition safe_session_end :: "history_row \<Rightarrow> int option \<Rightarrow> int option \<Rightarrow> int" where
  "safe_session_end row transition_at device_last_seen =
     (let started = hr_started_at row;
          candidates = [hr_last_confirmed row, transition_at, device_last_seen, Some started]
      in case find (\<lambda>c. case c of None \<Rightarrow> False | Some t \<Rightarrow> started \<le> t) candidates of
           Some (Some t) \<Rightarrow> t | _ \<Rightarrow> started)"

definition is_open :: "string \<Rightarrow> history_row \<Rightarrow> bool" where
  "is_open dev row = (hr_device_id row = dev \<and> hr_ended_at row = None)"

definition close_row :: "int \<Rightarrow> string \<Rightarrow> history_row \<Rightarrow> history_row" where
  "close_row t reason row = row\<lparr>hr_ended_at := Some t, hr_end_reason := reason\<rparr>"

definition close_open_sessions :: "string \<Rightarrow> string \<Rightarrow> int option \<Rightarrow> int option \<Rightarrow> history \<Rightarrow> nat \<times> history" where
  "close_open_sessions dev reason transition_at device_last_seen db =
     (length (filter (is_open dev) db),
      map (\<lambda>row. if is_open dev row
        then close_row (safe_session_end row transition_at device_last_seen) (take 64 reason) row else row) db)"

section \<open>Confirmation\<close>

record identity =
  id_display_name :: string
  id_station_id :: "int option"
  id_source :: string
  id_confidence :: int
  id_name_normalized :: string
  id_source_display_name :: string
  id_stream_host :: string
  id_is_internal :: bool
  id_is_confirmed :: bool

record report =
  rp_device_id :: string
  rp_device_last_seen :: "int option"
  rp_observed_at :: int
  rp_source :: string
  rp_station_id :: "int option"
  rp_station_name :: string
  rp_stream_url :: string
  rp_source_account :: string
  rp_content_item_name :: string
  rp_internal :: bool
  rp_context :: play_context

text \<open>
  \<open>resolve_report\<close> and \<open>resolve_row\<close> are \<open>resolve_playback_identity\<close> on the arguments the code
  passes for a report and for a row; \<open>catalog\<close> gives name, URL and internal flag of a station.
\<close>

record identity_port =
  resolve_report :: "report \<Rightarrow> identity"
  resolve_row :: "history_row \<Rightarrow> identity"
  clean_station_name :: "string \<Rightarrow> string"
  normalize_station_name :: "string \<Rightarrow> string"
  catalog :: "int \<Rightarrow> (string \<times> string \<times> bool) option"

definition apply_identity :: "identity \<Rightarrow> history_row \<Rightarrow> history_row" where
  "apply_identity i row = (let row' = row\<lparr>hr_station_id := id_station_id i, hr_display_name := id_display_name i,
       hr_name_normalized := id_name_normalized i, hr_identity_source := id_source i, hr_identity_confidence := id_confidence i,
       hr_source_display_name := id_source_display_name i, hr_stream_host := id_stream_host i,
       hr_is_internal := id_is_internal i, hr_is_confirmed := id_is_confirmed i\<rparr>
     in if hr_station_name row = [] \<and> id_source i \<noteq> ''stream_host'' then row'\<lparr>hr_station_name := id_display_name i\<rparr> else row')"

definition RADIO_SOURCES :: "string list" where
  "RADIO_SOURCES = [''LOCAL_INTERNET_RADIO'', ''INTERNET_RADIO'', ''TUNEIN'', ''RADIO_BROWSER'']"

definition station_changed :: "identity_port \<Rightarrow> history_row \<Rightarrow> report \<Rightarrow> bool" where
  "station_changed port current rp =
     (let observed = resolve_report port rp in
      (case (hr_station_id current, id_station_id observed) of
         (Some a, Some b) \<Rightarrow> a \<noteq> b
       | _ \<Rightarrow>
           (let previous = clean_station_name port (if hr_display_name current = [] then hr_station_name current else hr_display_name current)
            in previous \<noteq> [] \<and> 70 \<le> hr_identity_confidence current \<and> 70 \<le> id_confidence observed \<and>
               normalize_station_name port previous \<noteq> id_name_normalized observed)))"

definition replace_row :: "history_row \<Rightarrow> history \<Rightarrow> history" where
  "replace_row r db = map (\<lambda>x. if hr_id x = hr_id r then r else x) db"

text \<open>Rows ordered by \<open>started_at\<close> descending; equal keys keep their order.\<close>

definition open_rows :: "string \<Rightarrow> history \<Rightarrow> history" where
  "open_rows dev db = sort_key (\<lambda>r. - hr_started_at r) (filter (is_open dev) db)"

definition fresh_id :: "history \<Rightarrow> nat" where
  "fresh_id db = Suc (fold max (map hr_id db) 0)"

definition catalog_entry :: "identity_port \<Rightarrow> report \<Rightarrow> (string \<times> string \<times> bool) option" where
  "catalog_entry port rp = (case rp_station_id rp of Some i \<Rightarrow> if i = 0 then None else catalog port i | None \<Rightarrow> None)"

definition completed :: "identity_port \<Rightarrow> report \<Rightarrow> report" where
  "completed port rp = (case catalog_entry port rp of
     None \<Rightarrow> rp
   | Some (name, url, internal) \<Rightarrow> rp\<lparr>rp_station_name := (if rp_station_name rp = [] then name else rp_station_name rp),
       rp_stream_url := (if rp_stream_url rp = [] then url else rp_stream_url rp), rp_internal := (rp_internal rp \<or> internal)\<rparr>)"

definition new_row :: "identity_port \<Rightarrow> report \<Rightarrow> history \<Rightarrow> history_row" where
  "new_row port rp db = (let rp' = completed port rp in apply_identity (resolve_report port rp')
     \<lparr>hr_id = fresh_id db, hr_device_id = rp_device_id rp, hr_started_at = rp_observed_at rp, hr_ended_at = None,
      hr_end_reason = [], hr_last_confirmed = Some (rp_observed_at rp), hr_source = rp_source rp,
      hr_station_id = rp_station_id rp, hr_station_name = rp_station_name rp', hr_display_name = [], hr_name_normalized = [],
      hr_identity_confidence = 0, hr_identity_source = [], hr_stream_url = rp_stream_url rp',
      hr_source_account = rp_source_account rp, hr_content_item_name = rp_content_item_name rp, hr_internal_event = rp_internal rp',
      hr_source_display_name = [], hr_stream_host = [], hr_is_internal = False, hr_is_confirmed = True,
      hr_context = (let cx = rp_context rp in if cx_source_type cx = [] then cx\<lparr>cx_source_type := rp_source rp\<rparr> else cx)\<rparr>)"

definition keep_or :: "string \<Rightarrow> string \<Rightarrow> string" where
  "keep_or old new = (if new \<noteq> [] \<and> old = [] then new else old)"

definition falsy_id :: "int option \<Rightarrow> bool" where
  "falsy_id i = (i = None \<or> i = Some 0)"

definition refreshed_row :: "identity_port \<Rightarrow> report \<Rightarrow> history_row \<Rightarrow> history_row" where
  "refreshed_row port rp r = (let r' = r\<lparr>hr_last_confirmed := Some (rp_observed_at rp),
       hr_station_id := (if \<not> falsy_id (rp_station_id rp) \<and> falsy_id (hr_station_id r) then rp_station_id rp else hr_station_id r),
       hr_station_name := (if rp_station_name rp \<noteq> [] \<and> clean_station_name port (hr_station_name r) = []
         then rp_station_name rp else hr_station_name r),
       hr_stream_url := keep_or (hr_stream_url r) (rp_stream_url rp),
       hr_source_account := keep_or (hr_source_account r) (rp_source_account rp),
       hr_content_item_name := keep_or (hr_content_item_name r) (rp_content_item_name rp)\<rparr>
     in if clean_station_name port (hr_display_name r') = [] \<or> hr_identity_confidence r' < 50
        then apply_identity (resolve_row port r') r' else r')"

text \<open>The duplicates are closed, then the newest row is kept, closed for a new source or station, or refreshed.\<close>

definition close_duplicates :: "int option \<Rightarrow> history \<Rightarrow> history \<Rightarrow> history" where
  "close_duplicates last_seen dups db = fold (\<lambda>d. replace_row (close_row (safe_session_end d None last_seen) ''duplicate_open_session'' d)) dups db"

definition end_current :: "report \<Rightarrow> history_row \<Rightarrow> string \<Rightarrow> history_row" where
  "end_current rp r reason = close_row (safe_session_end r (Some (rp_observed_at rp)) (rp_device_last_seen rp)) reason r"

definition confirm_playback_session :: "identity_port \<Rightarrow> report \<Rightarrow> history \<Rightarrow> history_row \<times> history" where
  "confirm_playback_session port rp db =
     (let rows = open_rows (rp_device_id rp) db;
          db1 = close_duplicates (rp_device_last_seen rp) (tl rows) db;
          start = (\<lambda>db'. (let r = new_row port rp db' in (r, db' @ [r])))
      in case rows of
           [] \<Rightarrow> start db1
         | current # _ \<Rightarrow>
             if upper (hr_source current) \<noteq> upper (rp_source rp)
             then start (replace_row (end_current rp current ''source_changed'') db1)
             else if upper (rp_source rp) \<in> set RADIO_SOURCES \<and> station_changed port current rp
             then start (replace_row (end_current rp current ''station_changed'') db1)
             else (let r = refreshed_row port rp current in (r, replace_row r db1)))"

section \<open>Durations and reconciliation\<close>

text \<open>\<open>int((end - start).total_seconds())\<close> truncates, so the floor of a non-negative difference.\<close>

definition conservative_duration_seconds :: "history_row \<Rightarrow> int \<Rightarrow> int \<Rightarrow> int" where
  "conservative_duration_seconds row now poll_tolerance_seconds =
     (let start = hr_started_at row;
          end' = (case hr_ended_at row of
            Some e \<Rightarrow> e
          | None \<Rightarrow> (let confirmed = (case hr_last_confirmed row of Some c \<Rightarrow> c | None \<Rightarrow> start)
                    in min now (confirmed + max 0 poll_tolerance_seconds * 1000000)))
      in max 0 ((end' - start) div 1000000))"

definition reconcile_open_play_history :: "(string \<rightharpoonup> int option) \<Rightarrow> history \<Rightarrow> nat \<times> history" where
  "reconcile_open_play_history last_seen db =
     (length (filter (\<lambda>r. hr_ended_at r = None) db),
      map (\<lambda>r. if hr_ended_at r = None
        then close_row (safe_session_end r None (case last_seen (hr_device_id r) of None \<Rightarrow> None | Some t \<Rightarrow> t)) ''startup_reconciliation'' r
        else r) db)"

section \<open>Lemmas\<close>

lemma safe_session_end_cases:
  "hr_started_at row \<le> safe_session_end row tr ls"
  "safe_session_end row tr ls = hr_started_at row \<or> Some (safe_session_end row tr ls) \<in> {hr_last_confirmed row, tr, ls}"
  "hr_last_confirmed row = Some c \<Longrightarrow> hr_started_at row \<le> c \<Longrightarrow> safe_session_end row tr ls = c"
  by (auto simp: safe_session_end_def Let_def split: option.splits)

lemma fresh_id_new: "fresh_id db \<notin> hr_id ` set db"
proof
  assume "fresh_id db \<in> hr_id ` set db"
  then have "fresh_id db \<le> fold max (map hr_id db) 0" by (intro fold_max_bound) auto
  then show False by (simp add: fresh_id_def)
qed

lemma replace_row_ids: "map hr_id (replace_row r db) = map hr_id db"
  by (simp add: replace_row_def comp_def if_distrib cong: if_cong)

lemma replace_row_mem:
  assumes "distinct (map hr_id db)" "r0 \<in> set db" "hr_id r = hr_id r0"
  shows "set (replace_row r db) = insert r (set db - {r0})"
proof -
  have "x \<in> set db \<Longrightarrow> hr_id x = hr_id r \<longleftrightarrow> x = r0" for x
    using assms by (auto simp: distinct_map inj_on_def)
  then show ?thesis using assms(2) by (auto simp: replace_row_def)
qed

lemma close_row_simps [simp]:
  "hr_id (close_row t c r) = hr_id r" "hr_device_id (close_row t c r) = hr_device_id r" "hr_ended_at (close_row t c r) = Some t"
  by (simp_all add: close_row_def)

definition closed_duplicate :: "int option \<Rightarrow> history_row \<Rightarrow> history_row" where
  "closed_duplicate ls d = close_row (safe_session_end d None ls) ''duplicate_open_session'' d"

lemma closed_duplicate_frame [simp]:
  "hr_id (closed_duplicate ls d) = hr_id d" "hr_ended_at (closed_duplicate ls d) \<noteq> None"
  by (simp_all add: closed_duplicate_def)

lemma close_duplicates_set:
  assumes "distinct (map hr_id db)" "distinct (map hr_id dups)" "set dups \<subseteq> set db"
  shows "distinct (map hr_id (close_duplicates ls dups db)) \<and>
    set (close_duplicates ls dups db) = (set db - set dups) \<union> closed_duplicate ls ` set dups"
  using assms
proof (induction dups arbitrary: db)
  case Nil
  then show ?case by (simp add: close_duplicates_def)
next
  case (Cons d dups)
  let ?db = "replace_row (closed_duplicate ls d) db"
  have unf: "close_duplicates ls (d # dups) db = close_duplicates ls dups ?db"
    by (simp add: close_duplicates_def closed_duplicate_def)
  have s: "set ?db = insert (closed_duplicate ls d) (set db - {d})"
    using Cons.prems by (intro replace_row_mem) simp_all
  have nd: "d \<notin> set dups" "hr_id d \<notin> hr_id ` set dups" using Cons.prems(2) by auto
  then have sub: "set dups \<subseteq> set ?db" using Cons.prems(3) s by auto
  have dst: "distinct (map hr_id ?db)" using Cons.prems(1) by (simp add: replace_row_ids)
  have "closed_duplicate ls d \<notin> set dups" using nd(2) by (metis closed_duplicate_frame(1) imageI)
  then show ?case unfolding unf using Cons.IH [OF dst _ sub] Cons.prems(2) s nd by auto
qed

lemma apply_identity_frame [simp]:
  "hr_id (apply_identity i r) = hr_id r" "hr_device_id (apply_identity i r) = hr_device_id r"
  "hr_ended_at (apply_identity i r) = hr_ended_at r" "hr_started_at (apply_identity i r) = hr_started_at r"
  "hr_last_confirmed (apply_identity i r) = hr_last_confirmed r"
  by (simp_all add: apply_identity_def Let_def)

lemma refreshed_frame [simp]:
  "hr_id (refreshed_row port rp r) = hr_id r" "hr_device_id (refreshed_row port rp r) = hr_device_id r"
  "hr_ended_at (refreshed_row port rp r) = hr_ended_at r" "hr_started_at (refreshed_row port rp r) = hr_started_at r"
  "hr_last_confirmed (refreshed_row port rp r) = Some (rp_observed_at rp)"
  by (simp_all add: refreshed_row_def Let_def)

lemma new_row_frame [simp]:
  "hr_id (new_row port rp db) = fresh_id db" "hr_device_id (new_row port rp db) = rp_device_id rp"
  "hr_ended_at (new_row port rp db) = None" "hr_started_at (new_row port rp db) = rp_observed_at rp"
  "hr_last_confirmed (new_row port rp db) = Some (rp_observed_at rp)"
  by (simp_all add: new_row_def Let_def)

lemma open_rows_set: "set (open_rows dev db) = {x \<in> set db. is_open dev x}"
  by (auto simp: open_rows_def)

lemma open_rows_distinct: "distinct (map hr_id db) \<Longrightarrow> distinct (map hr_id (open_rows dev db))"
proof -
  assume "distinct (map hr_id db)"
  then have "distinct (filter (is_open dev) db)" "inj_on hr_id (set (filter (is_open dev) db))"
    by (auto simp: distinct_map inj_on_def)
  then show ?thesis by (simp add: open_rows_def distinct_map)
qed

text \<open>Opening a row in a table without open rows of the device, and replacing the only open one.\<close>

lemma start_row:
  assumes "distinct (map hr_id db)" "{x \<in> set db. is_open (rp_device_id rp) x} = {}"
  shows "distinct (map hr_id (db @ [new_row port rp db]))"
    "{x \<in> set (db @ [new_row port rp db]). is_open (rp_device_id rp) x} = {new_row port rp db}"
  using assms fresh_id_new [of db] by (auto simp: is_open_def)

lemma swap_row:
  assumes "distinct (map hr_id db)" "{x \<in> set db. is_open dev x} = {c}" "hr_id r = hr_id c" "hr_device_id r = dev"
  shows "distinct (map hr_id (replace_row r db))"
    "{x \<in> set (replace_row r db). is_open dev x} = (if hr_ended_at r = None then {r} else {})"
proof -
  have c: "c \<in> set db" using assms(2) by auto
  show "distinct (map hr_id (replace_row r db))" using assms(1) by (simp add: replace_row_ids)
  have "{x \<in> set (replace_row r db). is_open dev x} = {x \<in> insert r (set db - {c}). is_open dev x}"
    using replace_row_mem [OF assms(1) c assms(3)] by simp
  also have "\<dots> = (if is_open dev r then {r} else {}) \<union> ({x \<in> set db. is_open dev x} - {c})" by auto
  finally show "{x \<in> set (replace_row r db). is_open dev x} = (if hr_ended_at r = None then {r} else {})"
    using assms(2,4) by (simp add: is_open_def)
qed

lemma after_duplicates:
  assumes "distinct (map hr_id db)" "open_rows dev db = c # dups"
  shows "distinct (map hr_id (close_duplicates ls dups db))"
    "{x \<in> set (close_duplicates ls dups db). is_open dev x} = {c}" "hr_device_id c = dev" "hr_ended_at c = None"
proof -
  have d: "distinct (map hr_id (c # dups))" using open_rows_distinct [OF assms(1), of dev] assms(2) by simp
  have o: "{x \<in> set db. is_open dev x} = insert c (set dups)" using open_rows_set [of dev db] assms(2) by simp
  have sub: "set dups \<subseteq> set db" using o by auto
  have cd: "distinct (map hr_id (close_duplicates ls dups db))"
    "set (close_duplicates ls dups db) = (set db - set dups) \<union> closed_duplicate ls ` set dups"
    using close_duplicates_set [OF assms(1) _ sub, of ls] d by simp_all
  show "distinct (map hr_id (close_duplicates ls dups db))" by (rule cd(1))
  have "c \<notin> set dups" using d by auto
  then show "{x \<in> set (close_duplicates ls dups db). is_open dev x} = {c}" using cd(2) o by (auto simp: is_open_def)
  show "hr_device_id c = dev" "hr_ended_at c = None" using o by (auto simp: is_open_def)
qed

lemma confirm_result:
  assumes "distinct (map hr_id db)" "confirm_playback_session port rp db = (r, db')"
  shows "distinct (map hr_id db') \<and> {x \<in> set db'. is_open (rp_device_id rp) x} = {r} \<and> hr_last_confirmed r = Some (rp_observed_at rp)"
proof (cases "open_rows (rp_device_id rp) db")
  case Nil
  then have "{x \<in> set db. is_open (rp_device_id rp) x} = {}" using open_rows_set [of "rp_device_id rp" db] by simp
  then show ?thesis using assms Nil start_row [of db rp port]
    by (auto simp: confirm_playback_session_def Let_def close_duplicates_def)
next
  case (Cons c dups)
  let ?db1 = "close_duplicates (rp_device_last_seen rp) dups db"
  note ad = after_duplicates(1,2) [OF assms(1) Cons, of "rp_device_last_seen rp"] after_duplicates(3,4) [OF assms(1) Cons]
  have e: "distinct (map hr_id (replace_row (end_current rp c why) ?db1))"
      "{x \<in> set (replace_row (end_current rp c why) ?db1). is_open (rp_device_id rp) x} = {}" for why
    using swap_row [OF ad(1,2), of "end_current rp c why"] ad(3) by (simp_all add: end_current_def)
  have started: ?thesis if "r = new_row port rp (replace_row (end_current rp c why) ?db1)"
      "db' = replace_row (end_current rp c why) ?db1 @ [r]" for why
    using start_row [OF e(1) [of why] e(2) [of why], of port] that by simp
  consider (source) "upper (hr_source c) \<noteq> upper (rp_source rp)"
    | (station) "upper (hr_source c) = upper (rp_source rp)" "upper (rp_source rp) \<in> set RADIO_SOURCES \<and> station_changed port c rp"
    | (same) "upper (hr_source c) = upper (rp_source rp)" "\<not> (upper (rp_source rp) \<in> set RADIO_SOURCES \<and> station_changed port c rp)"
    by blast
  then show ?thesis
  proof cases
    case source
    then show ?thesis using assms(2) Cons
      by (intro started [of "''source_changed''"]) (auto simp: confirm_playback_session_def Let_def)
  next
    case station
    then show ?thesis using assms(2) Cons
      by (intro started [of "''station_changed''"]) (auto simp: confirm_playback_session_def Let_def)
  next
    case same
    then have r: "r = refreshed_row port rp c" "db' = replace_row r ?db1"
      using assms(2) Cons by (auto simp: confirm_playback_session_def Let_def)
    show ?thesis using swap_row [OF ad(1,2), of r] ad(3,4) unfolding r by simp
  qed
qed

section \<open>Properties\<close>

text \<open>
  One open session. After a confirmed observation a device has exactly one open history
  row, the returned one, confirmed at the observation's time, however many rows were open
  before and whatever the identity resolver answers; row ids stay unique.
\<close>

theorem one_open_session:
  assumes "distinct (map hr_id db)" "confirm_playback_session port rp db = (r, db')"
  shows "distinct (map hr_id db') \<and> {x \<in> set db'. is_open (rp_device_id rp) x} = {r} \<and>
    hr_last_confirmed r = Some (rp_observed_at rp)"
  using assms by (rule confirm_result)

definition example_port :: identity_port where
  "example_port = \<lparr>resolve_report = (\<lambda>rp. \<lparr>id_display_name = rp_station_name rp, id_station_id = rp_station_id rp,
      id_source = ''snapshot'', id_confidence = 92, id_name_normalized = rp_station_name rp,
      id_source_display_name = [], id_stream_host = [], id_is_internal = False, id_is_confirmed = True\<rparr>),
     resolve_row = (\<lambda>r. \<lparr>id_display_name = hr_station_name r, id_station_id = hr_station_id r,
      id_source = ''snapshot'', id_confidence = 92, id_name_normalized = hr_station_name r,
      id_source_display_name = [], id_stream_host = [], id_is_internal = False, id_is_confirmed = True\<rparr>),
     clean_station_name = id, normalize_station_name = id, catalog = (\<lambda>_. None)\<rparr>"

definition example_report :: report where
  "example_report = \<lparr>rp_device_id = ''A'', rp_device_last_seen = None, rp_observed_at = 50, rp_source = ''TUNEIN'',
     rp_station_id = Some 4, rp_station_name = ''Radio'', rp_stream_url = [], rp_source_account = [],
     rp_content_item_name = [], rp_internal = False,
     rp_context = \<lparr>cx_device_name = ''Kitchen'', cx_device_ip = [], cx_source_type = [], cx_trigger = ''live_state'',
       cx_trigger_type = ''station'', cx_zone_master_id = [], cx_zone_member_ids = [], cx_preset_button = None,
       cx_preset_name = [], cx_volume = None\<rparr>\<rparr>"

theorem one_open_session_witness:
  "\<exists>r db'. confirm_playback_session example_port example_report [] = (r, db') \<and>
     {x \<in> set db'. is_open ''A'' x} = {r} \<and> hr_last_confirmed r = Some 50"
proof -
  obtain r db' where c: "confirm_playback_session example_port example_report [] = (r, db')" by fastforce
  show ?thesis using one_open_session [OF _ c] c by (simp add: example_report_def)
qed

text \<open>
  Ends are defensible. Closing never ends a row before it started, never invents a time
  (the end is the start or one of the last confirmation, the transition and the device's last
  sign of life), keeps the last confirmation when there is one, and leaves no row of the device
  open; reconciliation at start-up leaves no row open at all and does nothing a second time; a
  duration is never negative and, while a row is open, never exceeds the confirmed span by more
  than the polling tolerance.
\<close>

lemma history_ends_defensible:
  "(let (n, db') = close_open_sessions dev reason tr ls db in
     list_all (\<lambda>r. \<not> is_open dev r) db' \<and> length db' = length db \<and>
     (\<forall>i < length db. is_open dev (db ! i) \<longrightarrow>
        (\<exists>t. hr_ended_at (db' ! i) = Some t \<and> hr_started_at (db ! i) \<le> t \<and>
             (t = hr_started_at (db ! i) \<or> Some t \<in> {hr_last_confirmed (db ! i), tr, ls}) \<and>
             (\<forall>c. hr_last_confirmed (db ! i) = Some c \<and> hr_started_at (db ! i) \<le> c \<longrightarrow> t = c)))) \<and>
   (let (n, db') = reconcile_open_play_history seen db in
     list_all (\<lambda>r. hr_ended_at r \<noteq> None) db' \<and> reconcile_open_play_history seen db' = (0, db')) \<and>
   0 \<le> conservative_duration_seconds row now tol \<and>
   (hr_ended_at row = None \<and> hr_last_confirmed row = Some c \<and> hr_started_at row \<le> c \<longrightarrow>
     conservative_duration_seconds row now tol \<le> (c - hr_started_at row) div 1000000 + max 0 tol)"
proof (intro conjI)
  show "let (n, db') = close_open_sessions dev reason tr ls db in
     list_all (\<lambda>r. \<not> is_open dev r) db' \<and> length db' = length db \<and>
     (\<forall>i < length db. is_open dev (db ! i) \<longrightarrow>
        (\<exists>t. hr_ended_at (db' ! i) = Some t \<and> hr_started_at (db ! i) \<le> t \<and>
             (t = hr_started_at (db ! i) \<or> Some t \<in> {hr_last_confirmed (db ! i), tr, ls}) \<and>
             (\<forall>c. hr_last_confirmed (db ! i) = Some c \<and> hr_started_at (db ! i) \<le> c \<longrightarrow> t = c)))"
    using safe_session_end_cases(1) safe_session_end_cases(2) safe_session_end_cases(3)
    by (simp add: close_open_sessions_def list_all_length) (auto simp: is_open_def close_row_def)
  show "let (n, db') = reconcile_open_play_history seen db in
     list_all (\<lambda>r. hr_ended_at r \<noteq> None) db' \<and> reconcile_open_play_history seen db' = (0, db')"
    by (auto simp: reconcile_open_play_history_def list_all_iff filter_empty_conv intro!: map_idI)
  show "0 \<le> conservative_duration_seconds row now tol" by (simp add: conservative_duration_seconds_def Let_def)
  have "(c + max 0 tol * 1000000 - s) div 1000000 = (c - s) div 1000000 + max 0 tol" for s
    using div_mult_self1 [of 1000000 "c - s" "max 0 tol"] by (simp add: algebra_simps)
  moreover have "(min now x - s) div 1000000 \<le> (x - s) div 1000000" for x s :: int by (rule zdiv_mono1) simp_all
  moreover have "hr_started_at row \<le> c \<Longrightarrow> 0 \<le> (c - hr_started_at row) div 1000000 + max 0 tol"
    by (simp add: pos_imp_zdiv_nonneg_iff)
  ultimately show "hr_ended_at row = None \<and> hr_last_confirmed row = Some c \<and> hr_started_at row \<le> c \<longrightarrow>
     conservative_duration_seconds row now tol \<le> (c - hr_started_at row) div 1000000 + max 0 tol"
    unfolding conservative_duration_seconds_def Let_def by (metis (no_types, lifting) max.bounded_iff option.simps(4,5))
qed

end
