(* ===== verification/Restrictions.thy ===== *)
theory Restrictions
  imports Prelude
begin

text \<open>
  Parsing of BMX restrictions (app/services/restrictions.py). A provider response is the value
  it decodes to: a mapping passed as such, or a text or byte string with what \<open>json.loads\<close>
  reads from it. Times are microseconds, \<open>MAX_DATETIME\<close> is the last instant Python can represent.
\<close>

definition UINT64_MAX :: int where
  "UINT64_MAX = 2 ^ 64 - 1"

datatype restriction_err = RestrictionParseError | UnicodeError

datatype payload = Mapping "(string \<times> pyval) list" | Text "pyval option" | Bytes "pyval option option" | OtherPayload

datatype origin = SERVER_RESPONSE | ABSENT

record parsed =
  inactivity_timeout_s :: "int option"
  timer_enabled :: bool
  received_at :: int
  rs_source :: string
  rs_origin :: origin
  timer_started_at :: "int option"
  effective_until :: "int option"
  field_present :: bool

definition as_mapping :: "pyval option \<Rightarrow> restriction_err + (string \<times> pyval) list" where
  "as_mapping v = (case v of Some (VDict d) \<Rightarrow> Inr d | _ \<Rightarrow> Inl RestrictionParseError)"

text \<open>\<open>Bytes None\<close> is a byte string that is not UTF-8.\<close>

definition decode_payload :: "payload \<Rightarrow> restriction_err + (string \<times> pyval) list" where
  "decode_payload p = (case p of
     Mapping d \<Rightarrow> Inr d
   | Bytes None \<Rightarrow> Inl UnicodeError
   | Bytes (Some v) \<Rightarrow> as_mapping v
   | Text v \<Rightarrow> as_mapping v
   | OtherPayload \<Rightarrow> Inl RestrictionParseError)"

definition lookup :: "(string \<times> pyval) list \<Rightarrow> string \<Rightarrow> pyval" where
  "lookup d k = (case map_of d k of None \<Rightarrow> VNone | Some v \<Rightarrow> v)"

fun find_in_wrappers :: "(string \<times> pyval) list \<Rightarrow> string list \<Rightarrow> restriction_err + (string \<times> pyval) list option" where
  "find_in_wrappers d [] = Inr None"
| "find_in_wrappers d (w # ws) = (case lookup d w of
     VDict e \<Rightarrow> (case lookup e ''restrictions'' of
         VDict r \<Rightarrow> Inr (Some r)
       | VNone \<Rightarrow> find_in_wrappers d ws
       | _ \<Rightarrow> Inl RestrictionParseError)
   | _ \<Rightarrow> find_in_wrappers d ws)"

definition find_restrictions :: "(string \<times> pyval) list \<Rightarrow> restriction_err + (string \<times> pyval) list option" where
  "find_restrictions d = (case lookup d ''restrictions'' of
     VDict r \<Rightarrow> Inr (Some r)
   | VNone \<Rightarrow> find_in_wrappers d [''station'', ''trackList'', ''tracklist'', ''_embedded'']
   | _ \<Rightarrow> Inl RestrictionParseError)"

definition in_uint64 :: "int \<Rightarrow> restriction_err + int" where
  "in_uint64 i = (if i < 0 \<or> UINT64_MAX < i then Inl RestrictionParseError else Inr i)"

fun parse_uint64 :: "pyval \<Rightarrow> restriction_err + int" where
  "parse_uint64 (VInt i) = in_uint64 i"
| "parse_uint64 (VStr s) = (if strip s \<noteq> [] \<and> list_all is_digit (strip s)
     then in_uint64 (int (nat_of_digits (strip s))) else Inl RestrictionParseError)"
| "parse_uint64 _ = Inl RestrictionParseError"

definition deadline_from_play :: "int \<Rightarrow> int \<Rightarrow> int \<Rightarrow> int option" where
  "deadline_from_play max_datetime play_started_at seconds =
     (if seconds \<le> 0 then None
      else if max_datetime < play_started_at + seconds * 1000000 then None
      else Some (play_started_at + seconds * 1000000))"

definition parse_restrictions :: "payload \<Rightarrow> int \<Rightarrow> string \<Rightarrow> restriction_err + parsed" where
  "parse_restrictions p observed_at source = rbind (decode_payload p) (\<lambda>d. rbind (find_restrictions d) (\<lambda>r.
     case r of
       None \<Rightarrow> Inr \<lparr>inactivity_timeout_s = None, timer_enabled = False, received_at = observed_at, rs_source = source,
         rs_origin = ABSENT, timer_started_at = None, effective_until = None, field_present = False\<rparr>
     | Some rs \<Rightarrow>
         if ''inactivityTimeout'' \<notin> set (map fst rs)
         then Inr \<lparr>inactivity_timeout_s = None, timer_enabled = False, received_at = observed_at, rs_source = source,
           rs_origin = ABSENT, timer_started_at = None, effective_until = None, field_present = False\<rparr>
         else rbind (parse_uint64 (lookup rs ''inactivityTimeout'')) (\<lambda>t.
           Inr \<lparr>inactivity_timeout_s = Some t, timer_enabled = (0 < t), received_at = observed_at, rs_source = source,
             rs_origin = SERVER_RESPONSE, timer_started_at = None, effective_until = None, field_present = True\<rparr>)))"

section \<open>Lemmas\<close>

lemma in_uint64_Inr: "in_uint64 i = Inr t \<longleftrightarrow> t = i \<and> 0 \<le> i \<and> i \<le> UINT64_MAX"
  by (auto simp: in_uint64_def)

lemma parse_uint64_range: "parse_uint64 v = Inr t \<Longrightarrow> 0 \<le> t \<and> t \<le> UINT64_MAX"
  by (cases v) (auto simp: in_uint64_Inr split: if_splits)

lemma digits_not_space: "list_all is_digit s \<Longrightarrow> strip s = s"
proof -
  have sp: "list_all is_digit xs \<Longrightarrow> dropWhile is_space xs = xs" for xs
    by (cases xs) (auto simp: is_digit_def is_space_def Let_def)
  assume "list_all is_digit s"
  then show ?thesis using sp [of s] sp [of "rev s"] by (simp add: strip_def)
qed

lemma parse_printed: "i \<le> nat UINT64_MAX \<Longrightarrow> parse_uint64 (VStr (digits_of_nat i)) = Inr (int i)"
  using digits_of_nat_digits [of i] by (simp add: digits_not_space in_uint64_def UINT64_MAX_def)

lemma parse_restrictions_shape:
  assumes "parse_restrictions p rcv src = Inr r"
  shows "timer_started_at r = None \<and> effective_until r = None \<and>
    (inactivity_timeout_s r = None \<and> \<not> timer_enabled r \<and> \<not> field_present r \<and> rs_origin r = ABSENT \<or>
     (\<exists>t. inactivity_timeout_s r = Some t \<and> 0 \<le> t \<and> t \<le> UINT64_MAX \<and> timer_enabled r = (0 < t) \<and>
        field_present r \<and> rs_origin r = SERVER_RESPONSE))"
proof -
  obtain d f where "decode_payload p = Inr d" "find_restrictions d = Inr f"
    using assms by (auto simp: parse_restrictions_def rbind_Inr_iff)
  then show ?thesis using assms
    by (cases f) (auto simp: parse_restrictions_def rbind_Inr_iff dest: parse_uint64_range split: if_splits)
qed

section \<open>Properties\<close>



end
