(* ===== verification/AdminStore.thy ===== *)
theory AdminStore
  imports Prelude
begin

text \<open>
  The local administrator store (app/core/admin_store.py): bootstrap, password reset, login
  throttling, logins and sessions, each inside one SQLite transaction that commits or rolls
  back as a whole. Rows are lists; \<open>int(clock())\<close>, random cookies and salted password hashes are
  arguments of the operations. \<open>hashlib\<close> and argon2 are function parameters. Whether the file
  and its directory have the required owner and permissions is the flag \<open>as_private\<close>; a missing
  table or a violated uniqueness constraint is the \<open>sqlite3.Error\<close> the code turns into
  \<open>AuthUnavailable\<close>.
\<close>

section \<open>State\<close>

datatype autherr = AuthUnavailable | BootstrapConflict | LoginRejected | LoginThrottled | BadValue string

record session_row =
  sr_digest :: string
  sr_created :: int
  sr_seen :: int
  sr_expires :: int

record attempt_row =
  at_bucket :: string
  at_start :: int
  at_count :: nat

record token_row =
  tk_id :: string
  tk_digest :: string
  tk_name :: string
  tk_scopes :: "pyval option"
  tk_created :: int
  tk_expires :: int
  tk_last_used :: "int option"
  tk_revoked :: bool

text \<open>\<open>ad_base\<close> says that the tables other than \<open>api_tokens\<close> exist; \<open>ad_tokens\<close> is that table.\<close>

record auth_db =
  ad_base :: bool
  ad_admin :: "(string \<times> string) option"
  ad_sessions :: "session_row list"
  ad_attempts :: "attempt_row list"
  ad_audit :: "(nat \<times> int \<times> string) list"
  ad_version :: int
  ad_tokens :: "token_row list option"

definition new_file :: auth_db where
  "new_file = \<lparr>ad_base = False, ad_admin = None, ad_sessions = [], ad_attempts = [], ad_audit = [], ad_version = 0, ad_tokens = None\<rparr>"

record auth_store =
  as_private :: bool
  as_file :: "auth_db option"

record admin_session =
  ss_username :: string
  ss_expires_at :: int
  ss_csrf_token :: string

type_synonym 'a tx = "auth_db \<Rightarrow> autherr + 'a \<times> auth_db"

section \<open>Transactions\<close>

definition with_db :: "'a tx \<Rightarrow> (auth_store, autherr, 'a) act" where
  "with_db m s = (if \<not> as_private s then (Inl AuthUnavailable, s)
     else case as_file s of
         None \<Rightarrow> (Inl AuthUnavailable, s)
       | Some db \<Rightarrow> (case m db of Inl e \<Rightarrow> (Inl e, s) | Inr (a, db') \<Rightarrow> (Inr a, s\<lparr>as_file := Some db'\<rparr>)))"

definition ABSOLUTE_SECONDS :: int where
  "ABSOLUTE_SECONDS = 8 * 60 * 60"

definition IDLE_SECONDS :: int where
  "IDLE_SECONDS = 30 * 60"

definition is_cookie :: "string \<Rightarrow> bool" where
  "is_cookie s = full_class is_urlsafe 43 s"

definition is_username :: "string \<Rightarrow> bool" where
  "is_username s = (case s of [] \<Rightarrow> False
     | c # cs \<Rightarrow> is_alnum c \<and> length cs \<le> 63 \<and> list_all (\<lambda>x. is_alnum x \<or> x \<in> set ''_.-'') cs)"

definition csrf :: "(string \<Rightarrow> string) \<Rightarrow> string \<Rightarrow> string" where
  "csrf digest cookie = digest (''basswiesn-admin-csrf-v1:'' @ cookie)"

definition credentials :: "string \<Rightarrow> string \<Rightarrow> autherr + unit" where
  "credentials username password =
     (if \<not> is_username username then Inl (BadValue ''username'')
      else if length password < 15 \<or> 1024 < length password then Inl (BadValue ''password'')
      else Inr ())"

definition audit :: "string \<Rightarrow> int \<Rightarrow> auth_db \<Rightarrow> auth_db" where
  "audit code now db = (let top = fold max (map fst (ad_audit db)) 0 + 1;
       rows = ad_audit db @ [(top, now, code)]
     in db\<lparr>ad_audit := filter (\<lambda>r. \<not> (int (fst r) \<le> int top - 1000)) rows\<rparr>)"

definition need_base :: "auth_db \<Rightarrow> autherr + unit" where
  "need_base db = require (ad_base db) AuthUnavailable"

definition bootstrap_tx :: "string \<Rightarrow> string \<Rightarrow> int \<Rightarrow> unit tx" where
  "bootstrap_tx username password_hash now db =
     (if ad_admin db \<noteq> None then Inl BootstrapConflict
      else if ad_tokens db \<noteq> None then Inl AuthUnavailable
      else Inr ((), audit ''ADMIN_BOOTSTRAPPED'' now (db\<lparr>ad_base := True, ad_tokens := Some [], ad_version := 1,
        ad_admin := Some (username, password_hash)\<rparr>)))"

definition bootstrap :: "string \<Rightarrow> string \<Rightarrow> string \<Rightarrow> int \<Rightarrow> (auth_store, autherr, unit) act" where
  "bootstrap username password password_hash now s =
     (case credentials username password of
        Inl e \<Rightarrow> (Inl e, s)
      | Inr _ \<Rightarrow> with_db (bootstrap_tx username password_hash now)
          (s\<lparr>as_file := Some (case as_file s of None \<Rightarrow> new_file | Some db \<Rightarrow> db)\<rparr>))"

definition reset_tx :: "string \<Rightarrow> string \<Rightarrow> int \<Rightarrow> unit tx" where
  "reset_tx username password_hash now db = rbind (need_base db) (\<lambda>_.
     case ad_admin db of
       None \<Rightarrow> Inl LoginRejected
     | Some (u, _) \<Rightarrow>
         if u \<noteq> username then Inl LoginRejected
         else Inr ((), audit ''ADMIN_PASSWORD_RESET'' now (db\<lparr>ad_admin := Some (u, password_hash), ad_sessions := [], ad_attempts := [],
           ad_tokens := map_option (map (\<lambda>t. t\<lparr>tk_revoked := True\<rparr>)) (ad_tokens db)\<rparr>)))"

definition reset_password :: "string \<Rightarrow> string \<Rightarrow> string \<Rightarrow> int \<Rightarrow> (auth_store, autherr, unit) act" where
  "reset_password username password password_hash now s =
     (case credentials username password of Inl e \<Rightarrow> (Inl e, s) | Inr _ \<Rightarrow> with_db (reset_tx username password_hash now) s)"

definition startup_tx :: "int \<Rightarrow> unit tx" where
  "startup_tx now db = rbind (need_base db) (\<lambda>_. Inr ((), audit ''ADMIN_RUNTIME_RESTART'' now (db\<lparr>ad_sessions := []\<rparr>)))"

definition revoke_sessions_for_startup :: "int \<Rightarrow> (auth_store, autherr, unit) act" where
  "revoke_sessions_for_startup now = with_db (startup_tx now)"

section \<open>Throttling\<close>

definition bump :: "string \<Rightarrow> int \<Rightarrow> attempt_row list \<Rightarrow> attempt_row list" where
  "bump bucket now rows = (if bucket \<in> set (map at_bucket rows)
     then map (\<lambda>r. if at_bucket r = bucket then r\<lparr>at_count := at_count r + 1\<rparr> else r) rows
     else rows @ [\<lparr>at_bucket = bucket, at_start = now, at_count = 1\<rparr>])"

definition take_bucket :: "int \<Rightarrow> string \<times> nat \<Rightarrow> attempt_row list \<Rightarrow> autherr + attempt_row list" where
  "take_bucket now bl rows = (case find (\<lambda>r. at_bucket r = fst bl) rows of
     Some r \<Rightarrow> if snd bl \<le> at_count r then Inl LoginThrottled else Inr (bump (fst bl) now rows)
   | None \<Rightarrow> Inr (bump (fst bl) now rows))"

definition live_attempts :: "int \<Rightarrow> attempt_row list \<Rightarrow> attempt_row list" where
  "live_attempts now rows = filter (\<lambda>r. \<not> (at_start r \<le> now - 60 \<or> now < at_start r)) rows"

definition reserve_tx :: "(string \<Rightarrow> string) \<Rightarrow> string \<Rightarrow> int \<Rightarrow> (string \<times> string) tx" where
  "reserve_tx digest peer now db = rbind (need_base db) (\<lambda>_.
     case ad_admin db of
       None \<Rightarrow> Inl AuthUnavailable
     | Some admin \<Rightarrow>
         rbind (take_bucket now (''global'', 20) (live_attempts now (ad_attempts db))) (\<lambda>rows.
         rbind (take_bucket now (digest (''peer:'' @ peer), 5) rows) (\<lambda>rows'.
         Inr (admin, db\<lparr>ad_attempts := rows'\<rparr>))))"

definition reserve_attempt :: "(string \<Rightarrow> string) \<Rightarrow> string \<Rightarrow> int \<Rightarrow> (auth_store, autherr, string \<times> string) act" where
  "reserve_attempt digest peer now = with_db (reserve_tx digest peer now)"

section \<open>Login\<close>

datatype verdict = Match | VerificationError | InvalidHash

record hasher =
  hs_verify :: "string \<Rightarrow> string \<Rightarrow> verdict"
  hs_needs_rehash :: "string \<Rightarrow> bool"

definition check_password :: "hasher \<Rightarrow> string \<times> string \<Rightarrow> string \<Rightarrow> string \<Rightarrow> autherr + bool" where
  "check_password hs stored username password =
     (if length password \<le> 1024
      then (case hs_verify hs (snd stored) password of
          Match \<Rightarrow> Inr (fst stored = username)
        | VerificationError \<Rightarrow> Inr False
        | InvalidHash \<Rightarrow> Inl AuthUnavailable)
      else Inr False)"

text \<open>
  The rows a new login leaves beside its own: neither the previous cookie's nor dead ones, and
  at most the 19 newest (\<open>ORDER BY created DESC\<close>, equal times in table order).
\<close>

definition kept_sessions :: "(string \<Rightarrow> string) \<Rightarrow> string \<Rightarrow> int \<Rightarrow> session_row list \<Rightarrow> session_row list" where
  "kept_sessions digest previous_cookie now rows =
     (let live = filter (\<lambda>r. \<not> (sr_digest r = digest previous_cookie \<or> sr_expires r \<le> now \<or>
            sr_seen r \<le> now - IDLE_SECONDS \<or> now < sr_seen r)) rows;
          excess = map sr_digest (drop 19 (sort_key (\<lambda>r. - sr_created r) live))
      in filter (\<lambda>r. sr_digest r \<notin> set excess) live)"

definition finish_tx ::
    "(string \<Rightarrow> string) \<Rightarrow> string \<Rightarrow> string \<Rightarrow> int \<Rightarrow> string \<Rightarrow> string \<Rightarrow> bool \<Rightarrow> bool tx" where
  "finish_tx digest previous_cookie cookie now stored_hash new_hash accepted db = rbind (need_base db) (\<lambda>_.
     (case ad_admin db of
        Some (u, current) \<Rightarrow>
          if accepted \<and> current = stored_hash
          then (let rows = kept_sessions digest previous_cookie now (ad_sessions db) in
            if digest cookie \<in> set (map sr_digest rows) then Inl AuthUnavailable
            else Inr (True, audit ''ADMIN_LOGIN_OK'' now (db\<lparr>ad_admin := Some (u, new_hash),
              ad_sessions := rows @ [\<lparr>sr_digest = digest cookie, sr_created = now, sr_seen = now, sr_expires = now + ABSOLUTE_SECONDS\<rparr>]\<rparr>)))
          else Inr (False, audit ''ADMIN_LOGIN_REJECTED'' now db)
      | None \<Rightarrow> Inr (False, audit ''ADMIN_LOGIN_REJECTED'' now db)))"

record login_request =
  lg_username :: string
  lg_password :: string
  lg_peer :: string
  lg_previous_cookie :: string
  lg_cookie :: string
  lg_fresh_hash :: string

definition finish_login ::
    "(string \<Rightarrow> string) \<Rightarrow> hasher \<Rightarrow> login_request \<Rightarrow> int \<Rightarrow> string \<times> string \<Rightarrow> (auth_store, autherr, admin_session \<times> string) act" where
  "finish_login digest hs rq now stored s =
     (case check_password hs stored (lg_username rq) (lg_password rq) of
        Inl e \<Rightarrow> (Inl e, s)
      | Inr accepted \<Rightarrow>
          (let new_hash = (if accepted \<and> hs_needs_rehash hs (snd stored) then lg_fresh_hash rq else snd stored) in
           abind (with_db (finish_tx digest (lg_previous_cookie rq) (lg_cookie rq) now (snd stored) new_hash accepted)) (\<lambda>ok.
             if ok then areturn (\<lparr>ss_username = fst stored, ss_expires_at = now + ABSOLUTE_SECONDS, ss_csrf_token = csrf digest (lg_cookie rq)\<rparr>,
                                 lg_cookie rq)
             else araise LoginRejected) s))"

text \<open>\<open>login\<close> without interruption; other requests may run between its two halves.\<close>

definition login ::
    "(string \<Rightarrow> string) \<Rightarrow> hasher \<Rightarrow> login_request \<Rightarrow> int \<Rightarrow> int \<Rightarrow> (auth_store, autherr, admin_session \<times> string) act" where
  "login digest hs rq now now2 = abind (reserve_attempt digest (lg_peer rq) now) (finish_login digest hs rq now2)"

section \<open>Sessions\<close>

definition session_in_transaction :: "(string \<Rightarrow> string) \<Rightarrow> string \<Rightarrow> bool \<Rightarrow> int \<Rightarrow> admin_session option tx" where
  "session_in_transaction digest cookie touch now db =
     (if \<not> is_cookie cookie then Inr (None, db)
      else rbind (need_base db) (\<lambda>_.
        case (find (\<lambda>r. sr_digest r = digest cookie) (ad_sessions db), ad_admin db) of
          (Some row, Some (u, _)) \<Rightarrow>
            if sr_expires row \<le> now \<or> sr_seen row \<le> now - IDLE_SECONDS \<or> now < sr_seen row
            then Inr (None, db\<lparr>ad_sessions := filter (\<lambda>r. sr_digest r \<noteq> digest cookie) (ad_sessions db)\<rparr>)
            else Inr (Some \<lparr>ss_username = u, ss_expires_at = sr_expires row, ss_csrf_token = csrf digest cookie\<rparr>,
              if touch then db\<lparr>ad_sessions := map (\<lambda>r. if sr_digest r = digest cookie then r\<lparr>sr_seen := now\<rparr> else r) (ad_sessions db)\<rparr>
              else db)
        | _ \<Rightarrow> Inr (None, db)))"

definition session_of :: "(string \<Rightarrow> string) \<Rightarrow> string \<Rightarrow> bool \<Rightarrow> int \<Rightarrow> (auth_store, autherr, admin_session option) act" where
  "session_of digest cookie touch now s =
     (if \<not> is_cookie cookie then (Inr None, s) else with_db (session_in_transaction digest cookie touch now) s)"

definition logout_tx :: "(string \<Rightarrow> string) \<Rightarrow> string \<Rightarrow> int \<Rightarrow> unit tx" where
  "logout_tx digest cookie now db = rbind (need_base db) (\<lambda>_.
     Inr ((), audit ''ADMIN_LOGOUT'' now (db\<lparr>ad_sessions := filter (\<lambda>r. sr_digest r \<noteq> digest cookie) (ad_sessions db)\<rparr>)))"

definition logout :: "(string \<Rightarrow> string) \<Rightarrow> string \<Rightarrow> int \<Rightarrow> (auth_store, autherr, unit) act" where
  "logout digest cookie now = with_db (logout_tx digest cookie now)"

end
