(* ===== verification/ApiTokens.thy ===== *)
theory ApiTokens
  imports AdminStore "HOL-Library.Char_ord" "HOL-Library.List_Lexorder"
begin

text \<open>
  Automation tokens (app/core/api_tokens.py): issuing, verifying, revoking and rotating grants
  in the administrator store. Random identifiers and secrets are arguments. The integer
  columns hold integers, as the schema declares them.
\<close>

section \<open>Records\<close>

text \<open>The six scopes in the order \<open>sorted\<close> gives them.\<close>

definition SCOPES :: "string list" where
  "SCOPES = [''admin'', ''diagnostics'', ''multiroom'', ''playback'', ''presets'', ''read'']"

definition MAX_LIFETIME :: int where
  "MAX_LIFETIME = 90 * 24 * 60 * 60"

definition MAX_RECORDS :: nat where
  "MAX_RECORDS = 256"

definition is_token_id :: "string \<Rightarrow> bool" where
  "is_token_id s = full_class is_lower_hex 32 s"

definition is_token_name :: "string \<Rightarrow> bool" where
  "is_token_name s = (case s of [] \<Rightarrow> False
     | c # cs \<Rightarrow> is_alnum c \<and> length cs \<le> 63 \<and> list_all (\<lambda>x. is_alnum x \<or> x \<in> set '' ._-'') cs)"

definition token_text :: "string \<Rightarrow> string \<Rightarrow> string" where
  "token_text i secret = ''bwapi_'' @ i @ ''_'' @ secret"

definition is_token :: "string \<Rightarrow> bool" where
  "is_token s = (take 6 s = ''bwapi_'' \<and> is_token_id (take 32 (drop 6 s)) \<and> take 1 (drop 38 s) = ''_'' \<and>
     full_class is_urlsafe 43 (drop 39 s))"

record token_record =
  tr_id :: string
  tr_name :: string
  tr_scopes :: "string list"
  tr_created_at :: int
  tr_expires_at :: int
  tr_last_used :: "int option"
  tr_revoked :: bool

fun scope_text :: "pyval \<Rightarrow> string option" where
  "scope_text (VStr s) = (if s \<in> set SCOPES then Some s else None)"
| "scope_text _ = None"

fun scopes_of :: "pyval \<Rightarrow> autherr + string list" where
  "scopes_of (VList vs) =
     (let names = List.map_filter scope_text vs in
      if vs = [] \<or> length SCOPES < length vs \<or> length names \<noteq> length vs \<or> \<not> distinct names
      then Inl (BadValue ''TOKEN_SCOPES_INVALID'') else Inr names)"
| "scopes_of _ = Inl (BadValue ''TOKEN_SCOPES_INVALID'')"

definition record_of :: "token_row \<Rightarrow> autherr + token_record" where
  "record_of row = (case tk_scopes row of
     None \<Rightarrow> Inl AuthUnavailable
   | Some v \<Rightarrow>
       (case scopes_of v of
          Inl _ \<Rightarrow> Inl AuthUnavailable
        | Inr scopes \<Rightarrow>
            if \<not> is_token_id (tk_id row) \<or> \<not> is_token_name (tk_name row) \<or>
               \<not> (60 \<le> tk_expires row - tk_created row \<and> tk_expires row - tk_created row \<le> MAX_LIFETIME)
            then Inl AuthUnavailable
            else Inr \<lparr>tr_id = tk_id row, tr_name = tk_name row, tr_scopes = scopes, tr_created_at = tk_created row,
              tr_expires_at = tk_expires row, tr_last_used = tk_last_used row, tr_revoked = tk_revoked row\<rparr>))"

section \<open>Operations\<close>

definition require_schema :: "auth_db \<Rightarrow> autherr + unit" where
  "require_schema db = require (ad_version db = 1) AuthUnavailable"

definition tokens_table :: "auth_db \<Rightarrow> autherr + token_row list" where
  "tokens_table db = (case ad_tokens db of None \<Rightarrow> Inl AuthUnavailable | Some rows \<Rightarrow> Inr rows)"

text \<open>\<open>None\<close> is the trusted local interface; a cookie must still have a live session.\<close>

definition authority :: "(string \<Rightarrow> string) \<Rightarrow> string option \<Rightarrow> int \<Rightarrow> auth_db \<Rightarrow> autherr + auth_db" where
  "authority digest cookie now db = (case cookie of
     None \<Rightarrow> Inr db
   | Some c \<Rightarrow> rbind (session_in_transaction digest c False now db) (\<lambda>r.
       case fst r of None \<Rightarrow> Inl LoginRejected | Some _ \<Rightarrow> Inr (snd r)))"

definition issue_tx :: "(string \<Rightarrow> string) \<Rightarrow> string option \<Rightarrow> token_record \<Rightarrow> string \<Rightarrow> int \<Rightarrow> unit tx" where
  "issue_tx digest cookie record token now db =
     rbind (require_schema db) (\<lambda>_. rbind (authority digest cookie now db) (\<lambda>db. rbind (need_base db) (\<lambda>_.
       if ad_admin db = None then Inl AuthUnavailable
       else rbind (tokens_table db) (\<lambda>rows.
         if MAX_RECORDS \<le> length rows then Inl (BadValue ''TOKEN_RECORD_LIMIT'')
         else if tr_id record \<in> set (map tk_id rows) \<or> digest token \<in> set (map tk_digest rows) then Inl AuthUnavailable
         else Inr ((), audit ''API_TOKEN_ISSUED'' now (db\<lparr>ad_tokens := Some (rows @
           [\<lparr>tk_id = tr_id record, tk_digest = digest token, tk_name = tr_name record,
             tk_scopes = Some (VList (map VStr (filter (\<lambda>x. x \<in> set (tr_scopes record)) SCOPES))), tk_created = tr_created_at record,
             tk_expires = tr_expires_at record, tk_last_used = None, tk_revoked = False\<rparr>])\<rparr>))))))"

definition issue ::
    "(string \<Rightarrow> string) \<Rightarrow> string \<Rightarrow> pyval \<Rightarrow> int \<Rightarrow> string option \<Rightarrow> string \<Rightarrow> string \<Rightarrow> int \<Rightarrow> (auth_store, autherr, token_record \<times> string) act" where
  "issue digest name scopes lifetime cookie fresh_id secret now s =
     (case scopes_of scopes of
        Inl e \<Rightarrow> (Inl e, s)
      | Inr allowed \<Rightarrow>
          if \<not> is_token_name name \<or> \<not> (60 \<le> lifetime \<and> lifetime \<le> MAX_LIFETIME)
          then (Inl (BadValue ''TOKEN_REQUEST_INVALID''), s)
          else (let record = \<lparr>tr_id = fresh_id, tr_name = name, tr_scopes = allowed, tr_created_at = now,
                  tr_expires_at = now + lifetime, tr_last_used = None, tr_revoked = False\<rparr>;
                  token = token_text fresh_id secret
            in abind (with_db (issue_tx digest cookie record token now)) (\<lambda>_. areturn (record, token)) s))"

definition usable :: "token_record \<Rightarrow> int \<Rightarrow> bool" where
  "usable r now = (\<not> (tr_revoked r \<or> tr_expires_at r \<le> now \<or> now < tr_created_at r \<or>
     (case tr_last_used r of None \<Rightarrow> False | Some u \<Rightarrow> now < u)))"

definition set_row :: "string \<Rightarrow> (token_row \<Rightarrow> token_row) \<Rightarrow> token_row list \<Rightarrow> token_row list" where
  "set_row i f rows = map (\<lambda>t. if tk_id t = i then f t else t) rows"

definition verify_tx :: "(string \<Rightarrow> string) \<Rightarrow> string \<Rightarrow> bool \<Rightarrow> int \<Rightarrow> token_record option tx" where
  "verify_tx digest token touch now db =
     rbind (require_schema db) (\<lambda>_. rbind (need_base db) (\<lambda>_. rbind (tokens_table db) (\<lambda>rows.
       case (find (\<lambda>t. tk_digest t = digest token) rows, ad_admin db) of
         (Some row, Some _) \<Rightarrow> rbind (record_of row) (\<lambda>r.
           if \<not> usable r now then Inr (None, db)
           else if touch then Inr (Some (r\<lparr>tr_last_used := Some now\<rparr>),
             db\<lparr>ad_tokens := Some (set_row (tr_id r) (\<lambda>t. t\<lparr>tk_last_used := Some now\<rparr>) rows)\<rparr>)
           else Inr (Some r, db))
       | _ \<Rightarrow> Inr (None, db))))"

definition verify_token :: "(string \<Rightarrow> string) \<Rightarrow> string \<Rightarrow> bool \<Rightarrow> int \<Rightarrow> (auth_store, autherr, token_record option) act" where
  "verify_token digest token touch now s =
     (if \<not> is_token token then (Inr None, s) else with_db (verify_tx digest token touch now) s)"

definition revoke_tx :: "(string \<Rightarrow> string) \<Rightarrow> string \<Rightarrow> string option \<Rightarrow> int \<Rightarrow> bool tx" where
  "revoke_tx digest i cookie now db =
     rbind (require_schema db) (\<lambda>_. rbind (authority digest cookie now db) (\<lambda>db. rbind (tokens_table db) (\<lambda>rows.
       if \<exists>t \<in> set rows. tk_id t = i \<and> \<not> tk_revoked t
       then Inr (True, audit ''API_TOKEN_REVOKED'' now (db\<lparr>ad_tokens := Some (set_row i (\<lambda>t. t\<lparr>tk_revoked := True\<rparr>) rows)\<rparr>))
       else Inr (False, db))))"

definition revoke_token :: "(string \<Rightarrow> string) \<Rightarrow> string \<Rightarrow> string option \<Rightarrow> int \<Rightarrow> (auth_store, autherr, bool) act" where
  "revoke_token digest i cookie now s =
     (if \<not> is_token_id i then (Inr False, s) else with_db (revoke_tx digest i cookie now) s)"

definition rotate_tx ::
    "(string \<Rightarrow> string) \<Rightarrow> string \<Rightarrow> string option \<Rightarrow> string \<Rightarrow> int \<Rightarrow> (token_record \<times> string) option tx" where
  "rotate_tx digest i cookie secret now db =
     rbind (require_schema db) (\<lambda>_. rbind (authority digest cookie now db) (\<lambda>db. rbind (tokens_table db) (\<lambda>rows.
       case find (\<lambda>t. tk_id t = i) rows of
         None \<Rightarrow> Inr (None, db)
       | Some row \<Rightarrow> rbind (record_of row) (\<lambda>r.
           if \<not> usable r now then Inr (None, db)
           else (let token = token_text (tr_id r) secret in
             if \<exists>t \<in> set rows. tk_id t \<noteq> i \<and> tk_digest t = digest token then Inl AuthUnavailable
             else Inr (Some (r\<lparr>tr_last_used := None\<rparr>, token), audit ''API_TOKEN_ROTATED'' now
               (db\<lparr>ad_tokens := Some (set_row i (\<lambda>t. t\<lparr>tk_digest := digest token, tk_last_used := None\<rparr>) rows)\<rparr>)))))))"

definition rotate_token ::
    "(string \<Rightarrow> string) \<Rightarrow> string \<Rightarrow> string option \<Rightarrow> string \<Rightarrow> int \<Rightarrow> (auth_store, autherr, (token_record \<times> string) option) act" where
  "rotate_token digest i cookie secret now s =
     (if \<not> is_token_id i then (Inr None, s) else with_db (rotate_tx digest i cookie secret now) s)"

definition list_tokens :: "(auth_store, autherr, token_record list) act" where
  "list_tokens = with_db (\<lambda>db. rbind (require_schema db) (\<lambda>_. rbind (tokens_table db) (\<lambda>rows.
     rbind (rmap record_of (take MAX_RECORDS (sort_key tk_created (sort_key tk_id rows)))) (\<lambda>rs. Inr (rs, db)))))"

end
