(* ===== verification/AdminLaws.thy ===== *)
theory AdminLaws
  imports ApiTokens "HOL-Library.Multiset"
begin

text \<open>
  Laws of the administrator store and its automation tokens: the invariant every operation
  keeps, what a password reset revokes, the login throttle and the life of a token.
\<close>

section \<open>Operations as values\<close>

datatype auth_op =
    OBootstrap string string string
  | OReset string string string
  | OStartup
  | OReserve string
  | OFinish login_request "string \<times> string"
  | OSession string bool
  | OLogout string
  | OIssue string pyval int "string option" string string
  | OVerify string bool
  | ORevoke string "string option"
  | ORotate string "string option" string

text \<open>\<open>OFinish\<close> is the second half of a login for any credentials a first half may have read.\<close>

fun auth_step :: "(string \<Rightarrow> string) \<Rightarrow> hasher \<Rightarrow> auth_op \<times> int \<Rightarrow> auth_store \<Rightarrow> auth_store" where
  "auth_step dg hs (OBootstrap u p h, now) s = snd (bootstrap u p h now s)"
| "auth_step dg hs (OReset u p h, now) s = snd (reset_password u p h now s)"
| "auth_step dg hs (OStartup, now) s = snd (revoke_sessions_for_startup now s)"
| "auth_step dg hs (OReserve peer, now) s = snd (reserve_attempt dg peer now s)"
| "auth_step dg hs (OFinish rq stored, now) s = snd (finish_login dg hs rq now stored s)"
| "auth_step dg hs (OSession c touch, now) s = snd (session_of dg c touch now s)"
| "auth_step dg hs (OLogout c, now) s = snd (logout dg c now s)"
| "auth_step dg hs (OIssue n sc l c i secret, now) s = snd (issue dg n sc l c i secret now s)"
| "auth_step dg hs (OVerify t touch, now) s = snd (verify_token dg t touch now s)"
| "auth_step dg hs (ORevoke i c, now) s = snd (revoke_token dg i c now s)"
| "auth_step dg hs (ORotate i c secret, now) s = snd (rotate_token dg i c secret now s)"

definition auth_run :: "(string \<Rightarrow> string) \<Rightarrow> hasher \<Rightarrow> (auth_op \<times> int) list \<Rightarrow> auth_store \<Rightarrow> auth_store" where
  "auth_run dg hs ops s = fold (auth_step dg hs) ops s"

section \<open>What a transaction keeps\<close>

definition tx_keeps :: "(auth_db \<Rightarrow> bool) \<Rightarrow> 'a tx \<Rightarrow> bool" where
  "tx_keeps P m = (\<forall>db a db'. P db \<and> m db = Inr (a, db') \<longrightarrow> P db')"

definition holds :: "(auth_db \<Rightarrow> bool) \<Rightarrow> auth_store \<Rightarrow> bool" where
  "holds P s = (case as_file s of None \<Rightarrow> True | Some db \<Rightarrow> P db)"

lemma tx_keepsI: "(\<And>db a db'. P db \<Longrightarrow> m db = Inr (a, db') \<Longrightarrow> P db') \<Longrightarrow> tx_keeps P m"
  by (auto simp: tx_keeps_def)

lemma with_db_keeps: "tx_keeps P m \<Longrightarrow> holds P s \<Longrightarrow> holds P (snd (with_db m s))"
  by (auto simp: with_db_def tx_keeps_def holds_def split: option.splits sum.splits)

lemma with_db_Inr:
  "with_db m s = (Inr a, s') \<longleftrightarrow>
     as_private s \<and> (\<exists>db db'. as_file s = Some db \<and> m db = Inr (a, db') \<and> s' = s\<lparr>as_file := Some db'\<rparr>)"
  by (auto simp: with_db_def split: option.splits sum.splits prod.splits)

lemma snd_abind_pure: "(\<And>a t. snd (f a t) = t) \<Longrightarrow> snd (abind m f s) = snd (m s)"
  by (simp add: abind_def split: prod.splits sum.splits)

text \<open>
  An invariant of the store: a fresh file satisfies it and every allowed operation's transaction
  keeps it. Then whole runs of allowed operations keep it, whatever they answer.
\<close>

locale store_invariant =
  fixes P :: "auth_db \<Rightarrow> bool" and allowed :: "auth_op \<times> int \<Rightarrow> bool" and dg :: "string \<Rightarrow> string" and hs :: hasher
  assumes fresh: "P new_file"
    and bootstrap: "tx_keeps P (bootstrap_tx u h now)"
    and reset: "tx_keeps P (reset_tx u h now)"
    and startup: "tx_keeps P (startup_tx now)"
    and logout: "tx_keeps P (logout_tx dg c now)"
    and reserve: "tx_keeps P (reserve_tx dg peer now)"
    and session: "tx_keeps P (session_in_transaction dg c touch now)"
    and verify: "tx_keeps P (verify_tx dg t touch now)"
    and revoke: "tx_keeps P (revoke_tx dg i cookie now)"
    and rotate: "tx_keeps P (rotate_tx dg i cookie secret now)"
    and finish: "allowed (OFinish rq stored, now) \<Longrightarrow> tx_keeps P (finish_tx dg p c now h h' acc)"
    and issue: "allowed (OIssue name v life cookie i secret, now) \<Longrightarrow> scopes_of v = Inr scopes \<Longrightarrow> is_token_name name \<Longrightarrow>
      60 \<le> life \<Longrightarrow> life \<le> MAX_LIFETIME \<Longrightarrow>
      tx_keeps P (issue_tx dg cookie \<lparr>tr_id = i, tr_name = name, tr_scopes = scopes, tr_created_at = now, tr_expires_at = now + life,
        tr_last_used = None, tr_revoked = False\<rparr> (token_text i secret) now)"
begin

lemma finish_keeps:
  assumes "allowed (OFinish rq stored, now)" "holds P s"
  shows "holds P (snd (finish_login dg hs rq now stored s))"
proof (cases "check_password hs stored (lg_username rq) (lg_password rq)")
  case (Inr accepted)
  have tx: "holds P (snd (with_db (finish_tx dg p c now h h' acc) s))" for p c h h' acc
    by (rule with_db_keeps [OF finish [OF assms(1)] assms(2)])
  then show ?thesis using Inr by (simp add: finish_login_def Let_def snd_abind_pure areturn_def araise_def)
qed (use assms(2) in \<open>simp add: finish_login_def\<close>)

lemma issue_keeps:
  assumes "allowed (OIssue name v life cookie i secret, now)" "holds P s"
  shows "holds P (snd (ApiTokens.issue dg name v life cookie i secret now s))"
proof (cases "scopes_of v")
  case (Inr scopes)
  then show ?thesis using assms(2) with_db_keeps [OF issue [OF assms(1) Inr] assms(2)]
    by (simp add: ApiTokens.issue_def Let_def snd_abind_pure areturn_def)
qed (use assms(2) in \<open>simp add: ApiTokens.issue_def\<close>)

lemma step_preserves: "allowed op \<Longrightarrow> holds P s \<Longrightarrow> holds P (auth_step dg hs op s)"
proof -
  assume al: "allowed op" and ok: "holds P s"
  obtain k now where op: "op = (k, now)" by (cases op)
  have made: "holds P (s\<lparr>as_file := Some (case as_file s of None \<Rightarrow> new_file | Some db \<Rightarrow> db)\<rparr>)"
    using ok fresh by (simp add: holds_def split: option.splits)
  show ?thesis
  proof (cases k)
    case (OFinish rq stored)
    then show ?thesis using finish_keeps al ok op by simp
  next
    case (OIssue name v life cookie i secret)
    then show ?thesis using issue_keeps al ok op by simp
  qed (auto simp: op ok made bootstrap_def reset_password_def revoke_sessions_for_startup_def reserve_attempt_def session_of_def
      AdminStore.logout_def verify_token_def revoke_token_def rotate_token_def split: sum.splits
      intro!: with_db_keeps bootstrap reset startup logout reserve session verify revoke rotate)
qed

lemma run_preserves: "list_all allowed ops \<Longrightarrow> holds P s \<Longrightarrow> holds P (auth_run dg hs ops s)"
  unfolding auth_run_def
  by (rule fold_invariant [where Q = allowed]) (use step_preserves in \<open>auto simp: list_all_iff\<close>)

end

lemma audit_frame [simp]:
  "ad_base (audit c n db) = ad_base db" "ad_admin (audit c n db) = ad_admin db" "ad_sessions (audit c n db) = ad_sessions db"
  "ad_attempts (audit c n db) = ad_attempts db" "ad_version (audit c n db) = ad_version db" "ad_tokens (audit c n db) = ad_tokens db"
  by (simp_all add: audit_def Let_def)

lemma need_base_Inr [simp]: "need_base db = Inr u \<longleftrightarrow> ad_base db" by (simp add: need_base_def)

lemma require_schema_Inr [simp]: "require_schema db = Inr u \<longleftrightarrow> ad_version db = 1" by (simp add: require_schema_def)

lemma tokens_table_Inr [simp]: "tokens_table db = Inr rows \<longleftrightarrow> ad_tokens db = Some rows"
  by (simp add: tokens_table_def split: option.splits)

text \<open>Reading a session changes nothing but that session's row.\<close>

lemma session_tx_frame:
  assumes "session_in_transaction dg c touch now db = Inr (r, db')"
  shows "db' = db \<or> db' = db\<lparr>ad_sessions := filter (\<lambda>r. sr_digest r \<noteq> dg c) (ad_sessions db)\<rparr> \<or>
    (db' = db\<lparr>ad_sessions := map (\<lambda>r. if sr_digest r = dg c then r\<lparr>sr_seen := now\<rparr> else r) (ad_sessions db)\<rparr> \<and>
     (\<exists>r. find (\<lambda>r. sr_digest r = dg c) (ad_sessions db) = Some r \<and> sr_seen r \<le> now))"
  using assms
  by (auto simp: session_in_transaction_def rbind_Inr_iff split: if_splits option.splits prod.splits)

lemma authority_same: "authority dg cookie now db = Inr db' \<Longrightarrow> db' = db"
  by (auto simp: authority_def session_in_transaction_def rbind_Inr_iff split: if_splits option.splits prod.splits)

section \<open>The invariant\<close>

definition session_ok :: "session_row \<Rightarrow> bool" where
  "session_ok r = (sr_expires r = sr_created r + ABSOLUTE_SECONDS \<and> sr_created r \<le> sr_seen r)"

definition sessions_ok :: "auth_db \<Rightarrow> bool" where
  "sessions_ok db = (distinct (map sr_digest (ad_sessions db)) \<and> length (ad_sessions db) \<le> 20 \<and> list_all session_ok (ad_sessions db))"

definition attempts_ok :: "auth_db \<Rightarrow> bool" where
  "attempts_ok db = (distinct (map at_bucket (ad_attempts db)) \<and> list_all (\<lambda>r. 1 \<le> at_count r \<and> at_count r \<le> 20) (ad_attempts db))"

definition token_ok :: "token_row \<Rightarrow> bool" where
  "token_ok t = (\<not> isl (record_of t))"

definition tokens_ok :: "auth_db \<Rightarrow> bool" where
  "tokens_ok db = (case ad_tokens db of None \<Rightarrow> True
     | Some rows \<Rightarrow> length rows \<le> MAX_RECORDS \<and> distinct (map tk_id rows) \<and> distinct (map tk_digest rows) \<and> list_all token_ok rows)"

definition audit_ok :: "auth_db \<Rightarrow> bool" where
  "audit_ok db = (sorted_wrt (<) (map fst (ad_audit db)) \<and> length (ad_audit db) \<le> 1000)"

lemma kept_sessions_short: "length (kept_sessions dg p now rows) \<le> 19"
proof -
  have gen: "length (filter (\<lambda>r. sr_digest r \<notin> set (map sr_digest (drop 19 (sort_key k live)))) live) \<le> 19" for live and k :: "session_row \<Rightarrow> int"
  proof -
    let ?ys = "sort_key k live" and ?P = "\<lambda>r. sr_digest r \<notin> set (map sr_digest (drop 19 (sort_key k live)))"
    have "size (filter_mset ?P (mset live)) = size (filter_mset ?P (mset ?ys))" by simp
    then have "length (filter ?P live) = length (filter ?P ?ys)" by (metis mset_filter size_mset)
    also have "\<dots> = length (filter ?P (take 19 ?ys @ drop 19 ?ys))" by simp
    also have "\<dots> = length (filter ?P (take 19 ?ys))" by (simp only: filter_append) (simp add: filter_empty_conv)
    also have "\<dots> \<le> length (take 19 ?ys)" by (rule length_filter_le)
    finally show ?thesis by simp
  qed
  show ?thesis unfolding kept_sessions_def Let_def by (rule gen)
qed

lemma kept_sessions_sub:
  "set (kept_sessions dg p now rows) \<subseteq> set rows" "distinct (map sr_digest rows) \<Longrightarrow> distinct (map sr_digest (kept_sessions dg p now rows))"
  by (auto simp: kept_sessions_def Let_def distinct_map_filter)


subsection \<open>Sessions\<close>

lemma sessions_ok_cong: "ad_sessions db' = ad_sessions db \<Longrightarrow> sessions_ok db' = sessions_ok db"
  by (simp add: sessions_ok_def)

lemma sessions_ok_filter: "sessions_ok db \<Longrightarrow> ad_sessions db' = filter Q (ad_sessions db) \<Longrightarrow> sessions_ok db'"
  by (auto simp: sessions_ok_def distinct_map_filter list_all_iff intro: le_trans [OF length_filter_le])

lemma session_tx_sessions: "tx_keeps sessions_ok (session_in_transaction dg c touch now)"
proof (rule tx_keepsI)
  fix db a db'
  assume ok: "sessions_ok db" and m: "session_in_transaction dg c touch now db = Inr (a, db')"
  from session_tx_frame [OF m] show "sessions_ok db'"
  proof (elim disjE conjE exE)
    fix r
    assume db': "db' = db\<lparr>ad_sessions := map (\<lambda>r. if sr_digest r = dg c then r\<lparr>sr_seen := now\<rparr> else r) (ad_sessions db)\<rparr>"
      and r: "find (\<lambda>r. sr_digest r = dg c) (ad_sessions db) = Some r" "sr_seen r \<le> now"
    have "x = r" if "x \<in> set (ad_sessions db)" "sr_digest x = dg c" for x
      using find_distinct [of sr_digest "ad_sessions db" x] ok that r(1) by (simp add: sessions_ok_def)
    then have "list_all session_ok (ad_sessions db')"
      using ok r(2) by (fastforce simp: db' sessions_ok_def list_all_iff session_ok_def)
    moreover have "map sr_digest (ad_sessions db') = map sr_digest (ad_sessions db)" by (simp add: db')
    moreover have "length (ad_sessions db') = length (ad_sessions db)" by (simp add: db')
    ultimately show ?thesis using ok unfolding sessions_ok_def by metis
  qed (use ok sessions_ok_filter in auto)
qed

lemma finish_tx_sessions: "tx_keeps sessions_ok (finish_tx dg p c now h h' acc)"
proof (rule tx_keepsI)
  fix db a db'
  assume ok: "sessions_ok db" and m: "finish_tx dg p c now h h' acc db = Inr (a, db')"
  let ?rows = "kept_sessions dg p now (ad_sessions db)"
  have "ad_sessions db' = ad_sessions db \<or> (dg c \<notin> set (map sr_digest ?rows) \<and>
      ad_sessions db' = ?rows @ [\<lparr>sr_digest = dg c, sr_created = now, sr_seen = now, sr_expires = now + ABSOLUTE_SECONDS\<rparr>])"
    using m by (auto simp: finish_tx_def Let_def rbind_Inr_iff split: option.splits if_splits)
  moreover have "list_all session_ok ?rows" "distinct (map sr_digest ?rows)" "length ?rows \<le> 19"
    using ok kept_sessions_sub(1) [of dg p now "ad_sessions db"] kept_sessions_sub(2) [of "ad_sessions db" dg p now] kept_sessions_short [of dg p now "ad_sessions db"]
    by (auto simp: sessions_ok_def list_all_iff)
  ultimately show "sessions_ok db'" using ok by (auto simp: sessions_ok_def session_ok_def)
qed


subsection \<open>Attempts\<close>

lemma bump_ids: "distinct (map at_bucket rows) \<Longrightarrow> distinct (map at_bucket (bump b now rows))"
proof -
  have "map at_bucket (map (\<lambda>r. if at_bucket r = b then r\<lparr>at_count := at_count r + 1\<rparr> else r) rows) = map at_bucket rows" by simp
  then show "distinct (map at_bucket rows) \<Longrightarrow> distinct (map at_bucket (bump b now rows))"
    unfolding bump_def by (simp only: split: if_split) auto
qed

lemma find_bump:
  "find (\<lambda>r. at_bucket r = b') (bump b now rows) =
     (if b' \<noteq> b then find (\<lambda>r. at_bucket r = b') rows
      else Some (case find (\<lambda>r. at_bucket r = b) rows of None \<Rightarrow> \<lparr>at_bucket = b, at_start = now, at_count = 1\<rparr>
        | Some r \<Rightarrow> r\<lparr>at_count := at_count r + 1\<rparr>))"
proof -
  have m: "find (\<lambda>r. at_bucket r = b') (map (\<lambda>r. if at_bucket r = b then r\<lparr>at_count := at_count r + 1\<rparr> else r) rows) =
      (if b' \<noteq> b then find (\<lambda>r. at_bucket r = b') rows
       else map_option (\<lambda>r. r\<lparr>at_count := at_count r + 1\<rparr>) (find (\<lambda>r. at_bucket r = b) rows))"
    by (induction rows) auto
  have a: "b \<notin> set (map at_bucket rows) \<Longrightarrow> find (\<lambda>r. at_bucket r = b') (rows @ [x]) =
      (if b' = b then if at_bucket x = b then Some x else None else case find (\<lambda>r. at_bucket r = b') rows of None \<Rightarrow>
        if at_bucket x = b' then Some x else None | Some r \<Rightarrow> Some r)" for x
    by (induction rows) auto
  have n: "find (\<lambda>r. at_bucket r = b) rows = None \<longleftrightarrow> b \<notin> set (map at_bucket rows)" by (auto simp: find_None_iff)
  show ?thesis using m a n by (auto simp: bump_def split: option.splits)
qed

lemma take_bucket_ok:
  assumes "take_bucket now (b, L) rows = Inr rows'" "distinct (map at_bucket rows)" "list_all (\<lambda>r. 1 \<le> at_count r \<and> at_count r \<le> 20) rows" "L \<le> 20" "0 < L"
  shows "distinct (map at_bucket rows') \<and> list_all (\<lambda>r. 1 \<le> at_count r \<and> at_count r \<le> 20) rows'"
proof -
  have r': "rows' = bump b now rows" using assms(1) by (auto simp: take_bucket_def split: option.splits if_splits)
  have "at_count x < L" if "x \<in> set rows" "at_bucket x = b" for x
    using find_distinct [OF assms(2) that(1)] assms(1) that(2) by (auto simp: take_bucket_def split: if_splits)
  then have "list_all (\<lambda>r. 1 \<le> at_count r \<and> at_count r \<le> 20) (bump b now rows)"
    using assms(3,4) by (fastforce simp: bump_def list_all_iff)
  then show ?thesis using bump_ids [OF assms(2)] r' by simp
qed

lemma reserve_tx_attempts: "tx_keeps attempts_ok (reserve_tx dg peer now)"
proof (rule tx_keepsI)
  fix db a db'
  assume ok: "attempts_ok db" and m: "reserve_tx dg peer now db = Inr (a, db')"
  then obtain r1 r2 where t: "take_bucket now (''global'', 20) (live_attempts now (ad_attempts db)) = Inr r1"
      "take_bucket now (dg (''peer:'' @ peer), 5) r1 = Inr r2" "ad_attempts db' = r2"
    by (auto simp: reserve_tx_def rbind_Inr_iff split: option.splits)
  have "distinct (map at_bucket (live_attempts now (ad_attempts db))) \<and>
      list_all (\<lambda>r. 1 \<le> at_count r \<and> at_count r \<le> 20) (live_attempts now (ad_attempts db))"
    using ok by (auto simp: attempts_ok_def live_attempts_def distinct_map_filter list_all_iff)
  then show "attempts_ok db'"
    using take_bucket_ok [OF t(1)] take_bucket_ok [OF t(2)] t(3) by (simp add: attempts_ok_def)
qed

subsection \<open>Tokens\<close>

lemma set_row_map: "(\<And>t. g (f t) = g t) \<Longrightarrow> map g (set_row i f rows) = map g rows"
  by (auto simp: set_row_def)

lemma set_row_set: "t \<in> set (set_row i f rows) \<Longrightarrow> t \<in> set rows \<and> tk_id t \<noteq> i \<or> (\<exists>u \<in> set rows. tk_id u = i \<and> t = f u)"
  by (auto simp: set_row_def)

lemma record_of_frame [simp]:
  "isl (record_of (t\<lparr>tk_digest := d\<rparr>)) = isl (record_of t)" "isl (record_of (t\<lparr>tk_last_used := u\<rparr>)) = isl (record_of t)"
  "isl (record_of (t\<lparr>tk_revoked := r\<rparr>)) = isl (record_of t)"
  by (auto simp: record_of_def split: option.splits sum.splits)

lemma record_of_id: "record_of row = Inr r \<Longrightarrow> tr_id r = tk_id row"
  by (auto simp: record_of_def split: option.splits sum.splits if_splits)

lemma scopes_of_printed:
  assumes "scopes_of v = Inr names"
  shows "set names \<subseteq> set SCOPES \<and> names \<noteq> [] \<and>
    scopes_of (VList (map VStr (filter (\<lambda>x. x \<in> set names) SCOPES))) = Inr (filter (\<lambda>x. x \<in> set names) SCOPES)"
proof -
  obtain vs where v: "v = VList vs" "names = List.map_filter scope_text vs" "vs \<noteq> []" "length names = length vs"
    using assms by (cases v) (auto simp: Let_def split: if_splits)
  have known: "scope_text x = Some y \<Longrightarrow> y \<in> set SCOPES" for x y by (cases x) (auto split: if_splits)
  then have sub: "set names \<subseteq> set SCOPES" by (auto simp: v(2) map_filter_def)
  have ne: "names \<noteq> []" using v(3,4) by auto
  have mf: "set ns \<subseteq> set SCOPES \<Longrightarrow> List.map_filter scope_text (map VStr ns) = ns" for ns
    by (induction ns) (auto simp: map_filter_simps)
  define ns0 where "ns0 = filter (\<lambda>x. x \<in> set names) SCOPES"
  have "ns0 \<noteq> []" unfolding ns0_def using sub ne by (auto simp: filter_empty_conv) (metis list.set_intros(1) neq_Nil_conv subset_iff)
  moreover have "distinct ns0" "length ns0 \<le> length SCOPES" "set ns0 \<subseteq> set SCOPES" by (auto simp: ns0_def SCOPES_def)
  ultimately show ?thesis using sub ne mf [of ns0] unfolding ns0_def [symmetric] by (simp add: Let_def)
qed

definition wf_op :: "auth_op \<times> int \<Rightarrow> bool" where
  "wf_op op = (case fst op of OIssue _ _ _ _ i _ \<Rightarrow> is_token_id i | _ \<Rightarrow> True)"


lemma tokens_ok_set_row:
  assumes "tokens_ok db" "ad_tokens db = Some rows" "\<And>t. tk_id (f t) = tk_id t" "\<And>t. token_ok (f t) = token_ok t"
    and "distinct (map tk_digest (set_row i f rows))"
  shows "tokens_ok (db\<lparr>ad_tokens := Some (set_row i f rows)\<rparr>)"
proof -
  have "length (set_row i f rows) = length rows" by (simp add: set_row_def)
  moreover have "list_all token_ok (set_row i f rows)"
    using assms(1,2,4) by (fastforce simp: tokens_ok_def list_all_iff dest: set_row_set)
  ultimately show ?thesis using assms(1,2,5) set_row_map [of tk_id f i rows] assms(3) by (simp add: tokens_ok_def)
qed

lemma token_ok_frame [simp]:
  "token_ok (t\<lparr>tk_digest := d\<rparr>) = token_ok t" "token_ok (t\<lparr>tk_last_used := u\<rparr>) = token_ok t" "token_ok (t\<lparr>tk_revoked := r\<rparr>) = token_ok t"
  by (simp_all add: token_ok_def)

lemma rotated_digests:
  assumes "distinct (map tk_digest rows)" "distinct (map tk_id rows)" "\<not> (\<exists>t \<in> set rows. tk_id t \<noteq> i \<and> tk_digest t = d)"
  shows "distinct (map tk_digest (set_row i (\<lambda>t. t\<lparr>tk_digest := d, tk_last_used := u\<rparr>) rows))"
  using assms
proof (induction rows)
  case (Cons t rows)
  let ?f = "\<lambda>t. t\<lparr>tk_digest := d, tk_last_used := u\<rparr>"
  have id: "tk_id t = i \<Longrightarrow> set_row i ?f rows = rows"
    unfolding set_row_def by (rule map_idI) (use Cons.prems(2) in \<open>auto simp: image_iff\<close>)
  have step: "set_row i ?f (t # rows) = (if tk_id t = i then ?f t else t) # set_row i ?f rows" by (simp add: set_row_def)
  have old: "tk_digest x = d \<or> x \<in> set rows" if "x \<in> set (set_row i ?f rows)" for x
    using set_row_set [OF that] by auto
  show ?case
  proof (cases "tk_id t = i")
    case True
    then have "d \<notin> tk_digest ` set rows" using Cons.prems(2,3) by (auto simp: image_iff) metis
    then show ?thesis using Cons.prems(1) True id by (simp add: step)
  next
    case False
    then have "tk_digest t \<noteq> d" using Cons.prems(3) by auto
    then have "tk_digest t \<notin> tk_digest ` set (set_row i ?f rows)" using old Cons.prems(1) by fastforce
    then show ?thesis using Cons.IH Cons.prems False by (simp add: step)
  qed
qed (simp add: set_row_def)

lemma audit_keeps: "audit_ok db \<Longrightarrow> audit_ok (audit c n db)"
proof -
  assume ok: "audit_ok db"
  define top where "top = fold max (map fst (ad_audit db)) 0 + (1 :: nat)"
  define rows where "rows = filter (\<lambda>r. \<not> (int (fst r) \<le> int top - 1000)) (ad_audit db @ [(top, n, c)])"
  have le: "fst r < top" if "r \<in> set (ad_audit db)" for r
    using fold_max_bound [of "fst r" 0 "map fst (ad_audit db)"] that by (simp add: top_def)
  have s: "sorted_wrt (<) (map fst rows)"
    using ok le by (auto simp: rows_def audit_ok_def sorted_wrt_append sorted_wrt_map intro: sorted_wrt_filter)
  have "set (map fst rows) \<subseteq> {top - 999..top}" using le by (fastforce simp: rows_def)
  then have "card (set (map fst rows)) \<le> card {top - 999..top}" by (intro card_mono) simp_all
  moreover have "distinct (map fst rows)" using s strict_sorted_iff by blast
  ultimately have "length rows \<le> 1000" using distinct_card [of "map fst rows"] by simp
  then show ?thesis using s by (simp add: audit_ok_def audit_def top_def rows_def Let_def)
qed


subsection \<open>All of it\<close>

definition auth_ok :: "auth_db \<Rightarrow> bool" where
  "auth_ok db = (sessions_ok db \<and> attempts_ok db \<and> tokens_ok db \<and> audit_ok db)"

lemma ok_frames [simp]:
  "sessions_ok (audit c n db) = sessions_ok db" "attempts_ok (audit c n db) = attempts_ok db" "tokens_ok (audit c n db) = tokens_ok db"
  "sessions_ok (db\<lparr>ad_attempts := x1\<rparr>) = sessions_ok db" "sessions_ok (db\<lparr>ad_tokens := x2\<rparr>) = sessions_ok db"
  "sessions_ok (db\<lparr>ad_admin := x3\<rparr>) = sessions_ok db"
  "attempts_ok (db\<lparr>ad_sessions := x4\<rparr>) = attempts_ok db" "attempts_ok (db\<lparr>ad_tokens := x2\<rparr>) = attempts_ok db"
  "attempts_ok (db\<lparr>ad_admin := x3\<rparr>) = attempts_ok db"
  "tokens_ok (db\<lparr>ad_sessions := x4\<rparr>) = tokens_ok db" "tokens_ok (db\<lparr>ad_attempts := x1\<rparr>) = tokens_ok db"
  "tokens_ok (db\<lparr>ad_admin := x3\<rparr>) = tokens_ok db"
  "audit_ok (db\<lparr>ad_sessions := x4\<rparr>) = audit_ok db" "audit_ok (db\<lparr>ad_attempts := x1\<rparr>) = audit_ok db"
  "audit_ok (db\<lparr>ad_tokens := x2\<rparr>) = audit_ok db" "audit_ok (db\<lparr>ad_admin := x3\<rparr>) = audit_ok db"
  by (simp_all add: sessions_ok_def attempts_ok_def tokens_ok_def audit_ok_def)

lemma auth_ok_audit: "auth_ok db \<Longrightarrow> auth_ok (audit c n db)"
  by (simp add: auth_ok_def audit_keeps)

lemma session_tx_ok: "tx_keeps auth_ok (session_in_transaction dg c touch now)"
proof (rule tx_keepsI)
  fix db a db'
  assume ok: "auth_ok db" and m: "session_in_transaction dg c touch now db = Inr (a, db')"
  have "sessions_ok db'" using session_tx_sessions ok m unfolding tx_keeps_def auth_ok_def by blast
  then show "auth_ok db'" using session_tx_frame [OF m] ok by (auto simp: auth_ok_def)
qed

lemma finish_tx_ok: "tx_keeps auth_ok (finish_tx dg p c now h h' acc)"
proof (rule tx_keepsI)
  fix db a db'
  assume ok: "auth_ok db" and m: "finish_tx dg p c now h h' acc db = Inr (a, db')"
  have "sessions_ok db'" using finish_tx_sessions ok m unfolding tx_keeps_def auth_ok_def by blast
  then show "auth_ok db'" using ok m
    by (auto simp: auth_ok_def finish_tx_def Let_def rbind_Inr_iff audit_keeps split: option.splits if_splits)
qed

lemma reserve_tx_ok: "tx_keeps auth_ok (reserve_tx dg peer now)"
proof (rule tx_keepsI)
  fix db a db'
  assume ok: "auth_ok db" and m: "reserve_tx dg peer now db = Inr (a, db')"
  have "attempts_ok db'" using reserve_tx_attempts ok m unfolding tx_keeps_def auth_ok_def by blast
  then show "auth_ok db'" using ok m by (auto simp: auth_ok_def reserve_tx_def rbind_Inr_iff split: option.splits)
qed

lemma tokens_only_ok: "auth_ok db \<Longrightarrow> tokens_ok (db\<lparr>ad_tokens := x\<rparr>) \<Longrightarrow> auth_ok (db\<lparr>ad_tokens := x\<rparr>)"
  by (simp add: auth_ok_def)

lemma same_digests: "(\<And>t. tk_digest (f t) = tk_digest t) \<Longrightarrow> auth_ok db \<Longrightarrow> ad_tokens db = Some rows \<Longrightarrow> distinct (map tk_digest (set_row i f rows))"
  using set_row_map [of tk_digest f i rows] by (simp add: auth_ok_def tokens_ok_def)

lemma verify_tx_ok: "tx_keeps auth_ok (verify_tx dg t touch now)"
proof (rule tx_keepsI)
  fix db a db'
  assume ok: "auth_ok db" and m: "verify_tx dg t touch now db = Inr (a, db')"
  let ?f = "\<lambda>t. t\<lparr>tk_last_used := Some now\<rparr>"
  from m have "db' = db \<or> (\<exists>rows i. ad_tokens db = Some rows \<and> db' = db\<lparr>ad_tokens := Some (set_row i ?f rows)\<rparr>)"
    by (auto simp: verify_tx_def rbind_Inr_iff split: option.splits if_splits)
  then show "auth_ok db'"
    using ok tokens_ok_set_row [of db _ ?f] same_digests [of ?f db] by (auto simp: auth_ok_def)
qed

lemma revoke_tx_ok: "tx_keeps auth_ok (revoke_tx dg i c now)"
proof (rule tx_keepsI)
  fix db a db'
  assume ok: "auth_ok db" and m: "revoke_tx dg i c now db = Inr (a, db')"
  let ?f = "\<lambda>t. t\<lparr>tk_revoked := True\<rparr>"
  from m have "db' = db \<or> (\<exists>rows. ad_tokens db = Some rows \<and> db' = audit ''API_TOKEN_REVOKED'' now (db\<lparr>ad_tokens := Some (set_row i ?f rows)\<rparr>))"
    by (auto simp: revoke_tx_def rbind_Inr_iff dest!: authority_same split: if_splits)
  then show "auth_ok db'"
    using ok tokens_ok_set_row [of db _ ?f] same_digests [of ?f db] by (auto simp: auth_ok_def audit_keeps)
qed

lemma rotate_tx_cases:
  assumes "rotate_tx dg i c secret now db = Inr (a, db')"
  obtains "a = None" "db' = db"
  | rows row r where "ad_tokens db = Some rows" "find (\<lambda>t. tk_id t = i) rows = Some row" "record_of row = Inr r" "usable r now"
      "\<not> (\<exists>t \<in> set rows. tk_id t \<noteq> i \<and> tk_digest t = dg (token_text (tr_id r) secret))"
      "a = Some (r\<lparr>tr_last_used := None\<rparr>, token_text (tr_id r) secret)"
      "db' = audit ''API_TOKEN_ROTATED'' now (db\<lparr>ad_tokens :=
         Some (set_row i (\<lambda>t. t\<lparr>tk_digest := dg (token_text (tr_id r) secret), tk_last_used := None\<rparr>) rows)\<rparr>)"
  using assms by (auto simp: rotate_tx_def Let_def rbind_Inr_iff dest!: authority_same split: if_splits option.splits)

lemma rotate_tx_ok: "tx_keeps auth_ok (rotate_tx dg i c secret now)"
proof (rule tx_keepsI)
  fix db a db'
  assume ok: "auth_ok db" and m: "rotate_tx dg i c secret now db = Inr (a, db')"
  let ?f = "\<lambda>d t. t\<lparr>tk_digest := d, tk_last_used := None\<rparr>"
  have "db' = db \<or> (\<exists>rows d. ad_tokens db = Some rows \<and> \<not> (\<exists>t \<in> set rows. tk_id t \<noteq> i \<and> tk_digest t = d) \<and>
      db' = audit ''API_TOKEN_ROTATED'' now (db\<lparr>ad_tokens := Some (set_row i (?f d) rows)\<rparr>))"
    using rotate_tx_cases [OF m] by blast
  then show "auth_ok db'"
  proof (elim disjE exE conjE)
    fix rows d
    assume r: "ad_tokens db = Some rows" "\<not> (\<exists>t \<in> set rows. tk_id t \<noteq> i \<and> tk_digest t = d)"
      and db': "db' = audit ''API_TOKEN_ROTATED'' now (db\<lparr>ad_tokens := Some (set_row i (?f d) rows)\<rparr>)"
    have "distinct (map tk_digest (set_row i (?f d) rows))" using ok r by (intro rotated_digests) (auto simp: auth_ok_def tokens_ok_def)
    then have "tokens_ok (db\<lparr>ad_tokens := Some (set_row i (?f d) rows)\<rparr>)"
      using tokens_ok_set_row [of db rows "?f d" i] ok r(1) by (simp add: auth_ok_def)
    then show ?thesis using tokens_only_ok [OF ok] auth_ok_audit by (simp add: db')
  qed (use ok in simp)
qed

lemma issue_tx_ok:
  assumes "is_token_id (tr_id r)" "is_token_name (tr_name r)" "scopes_of v = Inr (tr_scopes r)"
    "60 \<le> tr_expires_at r - tr_created_at r" "tr_expires_at r - tr_created_at r \<le> MAX_LIFETIME"
  shows "tx_keeps auth_ok (issue_tx dg c r token now)"
proof (rule tx_keepsI)
  fix db a db'
  assume ok: "auth_ok db" and m: "issue_tx dg c r token now db = Inr (a, db')"
  let ?row = "\<lparr>tk_id = tr_id r, tk_digest = dg token, tk_name = tr_name r,
    tk_scopes = Some (VList (map VStr (filter (\<lambda>x. x \<in> set (tr_scopes r)) SCOPES))), tk_created = tr_created_at r,
    tk_expires = tr_expires_at r, tk_last_used = None, tk_revoked = False\<rparr>"
  from m obtain rows where rows: "ad_tokens db = Some rows" "length rows < MAX_RECORDS" "tr_id r \<notin> set (map tk_id rows)"
      "dg token \<notin> set (map tk_digest rows)" "db' = audit ''API_TOKEN_ISSUED'' now (db\<lparr>ad_tokens := Some (rows @ [?row])\<rparr>)"
    by (auto simp: issue_tx_def rbind_Inr_iff dest!: authority_same split: if_splits)
  have "token_ok ?row" using scopes_of_printed [OF assms(3)] assms by (simp add: token_ok_def record_of_def)
  then have "tokens_ok (db\<lparr>ad_tokens := Some (rows @ [?row])\<rparr>)" using ok rows(1-4) by (auto simp: auth_ok_def tokens_ok_def)
  then show "auth_ok db'" using tokens_only_ok [OF ok] auth_ok_audit rows(5) by simp
qed


lemma fewer_sessions_ok:
  "auth_ok db \<Longrightarrow> auth_ok (audit c n (db\<lparr>ad_sessions := filter Q (ad_sessions db)\<rparr>))" "auth_ok db \<Longrightarrow> auth_ok (audit c n (db\<lparr>ad_sessions := []\<rparr>))"
proof -
  show f: "auth_ok db \<Longrightarrow> auth_ok (audit c n (db\<lparr>ad_sessions := filter Q (ad_sessions db)\<rparr>))" for Q
    by (auto simp: auth_ok_def audit_keeps intro: sessions_ok_filter)
  show "auth_ok db \<Longrightarrow> auth_ok (audit c n (db\<lparr>ad_sessions := []\<rparr>))" using f [of "\<lambda>_. False"] by simp
qed

lemma bootstrap_ok: "tx_keeps auth_ok (bootstrap_tx u h n)"
proof (rule tx_keepsI)
  have init: "auth_ok db \<Longrightarrow> auth_ok (db\<lparr>ad_base := True, ad_tokens := Some [], ad_version := 1, ad_admin := x\<rparr>)" for db x
    by (simp add: auth_ok_def sessions_ok_def attempts_ok_def tokens_ok_def audit_ok_def)
  fix db a db'
  assume "auth_ok db" "bootstrap_tx u h n db = Inr (a, db')"
  then show "auth_ok db'" by (auto intro!: auth_ok_audit init simp: bootstrap_tx_def split: if_splits)
qed

lemma reset_ok: "tx_keeps auth_ok (reset_tx u h n)"
proof (rule tx_keepsI)
  have cleared: "auth_ok db \<Longrightarrow> auth_ok (db\<lparr>ad_admin := x, ad_sessions := [], ad_attempts := [],
      ad_tokens := map_option (map (\<lambda>t. t\<lparr>tk_revoked := True\<rparr>)) (ad_tokens db)\<rparr>)" for db x
    by (auto simp: auth_ok_def sessions_ok_def attempts_ok_def tokens_ok_def audit_ok_def comp_def list_all_iff split: option.splits)
  fix db a db'
  assume "auth_ok db" "reset_tx u h n db = Inr (a, db')"
  then show "auth_ok db'" by (auto intro!: auth_ok_audit cleared simp: reset_tx_def rbind_Inr_iff split: option.splits if_splits)
qed

interpretation wf_store: store_invariant auth_ok wf_op dg hs for dg hs
proof
  show "auth_ok new_file" by (simp add: new_file_def auth_ok_def sessions_ok_def attempts_ok_def tokens_ok_def audit_ok_def)
  show "tx_keeps auth_ok (startup_tx now)" "tx_keeps auth_ok (logout_tx dg c now)" for now c
    by (rule tx_keepsI; auto simp: startup_tx_def logout_tx_def rbind_Inr_iff intro: fewer_sessions_ok)+
  show "tx_keeps auth_ok (issue_tx dg cookie \<lparr>tr_id = i, tr_name = name, tr_scopes = scopes, tr_created_at = now, tr_expires_at = now + life,
        tr_last_used = None, tr_revoked = False\<rparr> (token_text i secret) now)"
    if "wf_op (OIssue name v life cookie i secret, now)" "scopes_of v = Inr scopes" "is_token_name name" "60 \<le> life" "life \<le> MAX_LIFETIME"
    for name v life cookie i secret now scopes
    using that by (intro issue_tx_ok) (simp_all add: wf_op_def)
qed (rule bootstrap_ok reset_ok reserve_tx_ok session_tx_ok verify_tx_ok revoke_tx_ok rotate_tx_ok finish_tx_ok)+

end
