(* ===== verification/AdminThrottle.thy ===== *)
theory AdminThrottle
  imports AdminLaws
begin

text \<open>
  The login throttle of the administrator store: how many password checks a sequence of
  attempts can reach within one minute.
\<close>

section \<open>Admitted attempts\<close>

text \<open>The peers of the attempts that \<open>_reserve_attempt\<close> admits, in order.\<close>

fun admitted :: "(string \<Rightarrow> string) \<Rightarrow> (string \<times> int) list \<Rightarrow> auth_store \<Rightarrow> string list" where
  "admitted dg [] s = []"
| "admitted dg ((p, t) # as) s = (case reserve_attempt dg p t s of
     (Inr _, s') \<Rightarrow> p # admitted dg as s' | (Inl _, s') \<Rightarrow> admitted dg as s')"

definition rows_of :: "auth_store \<Rightarrow> attempt_row list" where
  "rows_of s = (case as_file s of None \<Rightarrow> [] | Some db \<Rightarrow> ad_attempts db)"

definition expired :: "int \<Rightarrow> attempt_row \<Rightarrow> bool" where
  "expired t r = (at_start r \<le> t - 60 \<or> t < at_start r)"

text \<open>
  What a bucket of limit \<open>L\<close> may still admit in the minute from \<open>t0\<close> on, seen at time \<open>t\<close>: a
  window opened within the minute only has its rest, an older one its rest and one more window.
\<close>

definition budget :: "int \<Rightarrow> string \<Rightarrow> nat \<Rightarrow> attempt_row list \<Rightarrow> int \<Rightarrow> nat" where
  "budget t0 b L rows t = (case find (\<lambda>r. at_bucket r = b) rows of
     None \<Rightarrow> L
   | Some r \<Rightarrow> if expired t r then L else if t0 \<le> at_start r then L - at_count r else (L - at_count r) + L)"

lemma budget_bound: "budget t0 b L rows t \<le> 2 * L" "budget t0 b L [] t = L"
  by (auto simp: budget_def split: option.splits)

lemma budget_later:
  "t0 \<le> t \<Longrightarrow> t \<le> t' \<Longrightarrow> t' < t0 + 60 \<Longrightarrow> budget t0 b L rows t' \<le> budget t0 b L rows t"
  by (auto simp: budget_def expired_def split: option.splits)

lemma find_live:
  assumes "distinct (map at_bucket rows)"
  shows "find (\<lambda>r. at_bucket r = b) (live_attempts t rows) =
    (case find (\<lambda>r. at_bucket r = b) rows of None \<Rightarrow> None | Some r \<Rightarrow> if expired t r then None else Some r)"
  using assms
proof (induction rows)
  case (Cons r rows)
  have "at_bucket r = b \<Longrightarrow> find (\<lambda>r. at_bucket r = b) (live_attempts t rows) = None"
    using Cons.prems by (auto simp: find_None_iff live_attempts_def image_iff)
  then show ?case using Cons by (auto simp: live_attempts_def expired_def)
qed (simp add: live_attempts_def)

lemma budget_live: "distinct (map at_bucket rows) \<Longrightarrow> t0 \<le> t \<Longrightarrow> budget t0 b L (live_attempts t rows) t = budget t0 b L rows t"
  by (simp add: budget_def find_live split: option.splits)

lemma budget_take:
  assumes "take_bucket t (b, L) rows = Inr rows'" "\<And>r. find (\<lambda>r. at_bucket r = b) rows = Some r \<Longrightarrow> \<not> expired t r"
    and "t0 \<le> t" "t < t0 + 60" "0 < L"
  shows "budget t0 b L rows' t + 1 \<le> budget t0 b L rows t"
proof (cases "find (\<lambda>r. at_bucket r = b) rows")
  case None
  then have "rows' = bump b t rows" using assms(1) by (simp add: take_bucket_def)
  then show ?thesis using None assms(3-5) by (simp add: budget_def find_bump expired_def)
next
  case (Some r)
  then have "rows' = bump b t rows" "at_count r < L" "\<not> expired t r"
    using assms(1,2) by (auto simp: take_bucket_def split: if_splits)
  then show ?thesis using Some by (auto simp: budget_def find_bump expired_def)
qed

lemma budget_other: "take_bucket t (b', L') rows = Inr rows' \<Longrightarrow> b \<noteq> b' \<Longrightarrow> budget t0 b L rows' t = budget t0 b L rows t"
  by (auto simp: take_bucket_def budget_def find_bump split: option.splits if_splits)

text \<open>One admitted attempt costs its own buckets one unit and no other bucket anything.\<close>

lemma reserve_budget:
  assumes "reserve_attempt dg p t s = (Inr a, s')" "holds attempts_ok s" "t0 \<le> t" "t < t0 + 60"
    and hex: "dg (''peer:'' @ p) \<noteq> ''global''"
  shows "budget t0 ''global'' 20 (rows_of s') t + 1 \<le> budget t0 ''global'' 20 (rows_of s) t"
    and "b \<noteq> ''global'' \<Longrightarrow> budget t0 b 5 (rows_of s') t + (if b = dg (''peer:'' @ p) then 1 else 0) \<le> budget t0 b 5 (rows_of s) t"
    and "holds attempts_ok s'"
proof -
  obtain db rows1 rows2 where db: "as_file s = Some db" "s' = s\<lparr>as_file := Some (db\<lparr>ad_attempts := rows2\<rparr>)\<rparr>"
    and t1: "take_bucket t (''global'', 20) (live_attempts t (ad_attempts db)) = Inr rows1"
    and t2: "take_bucket t (dg (''peer:'' @ p), 5) rows1 = Inr rows2"
    using assms(1) by (auto simp: reserve_attempt_def with_db_Inr reserve_tx_def rbind_Inr_iff split: option.splits)
  have dst: "distinct (map at_bucket (ad_attempts db))" using assms(2) db(1) by (simp add: holds_def attempts_ok_def)
  have live: "find (\<lambda>r. at_bucket r = b) (live_attempts t (ad_attempts db)) = Some r \<Longrightarrow> \<not> expired t r" for b r
    using find_live [OF dst, of b t] by (auto split: option.splits if_splits)
  have live1: "find (\<lambda>r. at_bucket r = b) rows1 = Some r \<Longrightarrow> b \<noteq> ''global'' \<Longrightarrow> \<not> expired t r" for b r
    using t1 live by (auto simp: take_bucket_def find_bump split: option.splits if_splits)
  have rows: "rows_of s = ad_attempts db" "rows_of s' = rows2" using db by (simp_all add: rows_of_def)
  show "budget t0 ''global'' 20 (rows_of s') t + 1 \<le> budget t0 ''global'' 20 (rows_of s) t"
    using budget_take [OF t1 live assms(3,4)] budget_other [OF t2 hex [symmetric]] budget_live [OF dst assms(3)] rows by simp
  show "holds attempts_ok s'" using reserve_tx_attempts assms(1,2) with_db_keeps [OF reserve_tx_attempts assms(2)]
    by (metis reserve_attempt_def sndI)
  show "budget t0 b 5 (rows_of s') t + (if b = dg (''peer:'' @ p) then 1 else 0) \<le> budget t0 b 5 (rows_of s) t"
    if "b \<noteq> ''global''"
    using budget_take [OF t2 live1 [OF _ hex] assms(3,4)] budget_other [OF t2, of b t0 5]
      budget_other [OF t1 that, of t0 5] budget_live [OF dst assms(3), of b 5] rows
    by (cases "b = dg (''peer:'' @ p)") simp_all
qed

lemma reserve_refused: "reserve_attempt dg p t s = (Inl e, s') \<Longrightarrow> s' = s"
  by (auto simp: reserve_attempt_def with_db_def split: if_splits option.splits sum.splits prod.splits)

lemma admitted_budget:
  assumes "\<And>x. dg x \<noteq> ''global''" "holds attempts_ok s" "sorted (t # map snd as)" "t0 \<le> t" "\<forall>a \<in> set as. snd a < t0 + 60" "t < t0 + 60"
  shows "length (admitted dg as s) \<le> budget t0 ''global'' 20 (rows_of s) t \<and>
    length (filter (\<lambda>q. dg (''peer:'' @ q) = dg (''peer:'' @ p)) (admitted dg as s)) \<le> budget t0 (dg (''peer:'' @ p)) 5 (rows_of s) t"
  using assms(2-)
proof (induction as arbitrary: s t)
  case (Cons a as)
  obtain q u where a: "a = (q, u)" by (cases a)
  have u: "t \<le> u" "t0 \<le> u" "u < t0 + 60" "sorted (u # map snd as)" using Cons.prems a by auto
  let ?b = "dg (''peer:'' @ p)"
  have later: "budget t0 b L (rows_of s) u \<le> budget t0 b L (rows_of s) t" for b L
    using budget_later [of t0 t u] Cons.prems(3) u by simp
  show ?case
  proof (cases "reserve_attempt dg q u s")
    case (Pair r s')
    show ?thesis
    proof (cases r)
      case (Inl e)
      then have "s' = s" using reserve_refused Pair by blast
      then show ?thesis using Cons.IH [of s u] Cons.prems u later [of "''global''" 20] later [of ?b 5] Pair Inl a
        by (auto intro: le_trans)
    next
      case (Inr v)
      note rb = reserve_budget [OF Pair [unfolded Inr] Cons.prems(1) u(2,3) assms(1)]
      note ih = Cons.IH [of s' u, OF rb(3) u(4,2) _ u(3)]
      show ?thesis using ih rb(1) rb(2) [OF assms(1), of "''peer:'' @ p"] later [of "''global''" 20] later [of ?b 5] Cons.prems(4) Pair Inr a
        by (auto split: if_splits)
    qed
  qed
qed simp

section \<open>Property\<close>


definition example_digest64 :: "string \<Rightarrow> string" where
  "example_digest64 x = take 64 (x @ replicate 64 CHR ''0'')"

definition example_auth :: auth_store where
  "example_auth = snd (bootstrap ''root'' ''a-long-password'' ''hash'' 5 \<lparr>as_private = True, as_file = None\<rparr>)"

lemma example_auth_ok: "holds auth_ok example_auth"
  using wf_store.step_preserves [of "(OBootstrap ''root'' ''a-long-password'' ''hash'', 5)" "\<lparr>as_private = True, as_file = None\<rparr>"]
  by (simp add: example_auth_def wf_op_def holds_def)


end
