(* ===== verification/AdminProperties.thy ===== *)
theory AdminProperties
  imports AdminThrottle
begin

text \<open>Properties of the administrator store and of automation tokens.\<close>

section \<open>Revocation\<close>

definition no_grants :: "auth_db \<Rightarrow> bool" where
  "no_grants db = (ad_sessions db = [] \<and> (case ad_tokens db of None \<Rightarrow> True | Some rows \<Rightarrow> list_all tk_revoked rows))"

fun is_grant :: "auth_op \<Rightarrow> bool" where
  "is_grant (OFinish _ _) = True"
| "is_grant (OIssue _ _ _ _ _ _) = True"
| "is_grant _ = False"

lemma no_grants_frame [simp]:
  "no_grants (audit c n db) = no_grants db" "no_grants (db\<lparr>ad_attempts := x\<rparr>) = no_grants db"
  "no_grants (db\<lparr>ad_admin := y\<rparr>) = no_grants db"
  by (simp_all add: no_grants_def)

lemma no_grants_row:
  "no_grants db \<Longrightarrow> ad_tokens db = Some rows \<Longrightarrow> (\<And>t. tk_revoked t \<Longrightarrow> tk_revoked (f t)) \<Longrightarrow>
     no_grants (db\<lparr>ad_tokens := Some (set_row i f rows)\<rparr>)"
  by (auto simp: no_grants_def list_all_iff dest!: set_row_set)

lemma record_of_revoked: "record_of row = Inr r \<Longrightarrow> tr_revoked r = tk_revoked row"
  by (auto simp: record_of_def split: option.splits sum.splits if_splits)

lemma no_session: "no_grants db \<Longrightarrow> session_in_transaction dg c touch now db = Inr (r, db') \<Longrightarrow> r = None \<and> db' = db"
  by (auto simp: session_in_transaction_def no_grants_def rbind_Inr_iff split: if_splits)

lemma no_token: "no_grants db \<Longrightarrow> verify_tx dg t touch now db = Inr (r, db') \<Longrightarrow> r = None \<and> db' = db"
  by (auto simp: verify_tx_def no_grants_def rbind_Inr_iff usable_def list_all_iff find_Some_iff split: option.splits if_splits)
    (metis nth_mem record_of_revoked)+

lemma no_rotation: "no_grants db \<Longrightarrow> rotate_tx dg i c sec now db = Inr (r, db') \<Longrightarrow> r = None \<and> db' = db"
  by (erule rotate_tx_cases)
    (auto simp: no_grants_def usable_def list_all_iff find_Some_iff, (metis nth_mem record_of_revoked)+)

interpretation no_grant_store: store_invariant no_grants "\<lambda>op. \<not> is_grant (fst op)" dg hs for dg hs
proof
  show "no_grants new_file" by (simp add: new_file_def no_grants_def)
  show "tx_keeps no_grants (bootstrap_tx u h n)" for n u h
    by (rule tx_keepsI) (auto simp: no_grants_def bootstrap_tx_def split: if_splits)
  show "tx_keeps no_grants (reset_tx u h n)" for u h n
    by (rule tx_keepsI) (auto simp: reset_tx_def rbind_Inr_iff no_grants_def list_all_iff split: option.splits if_splits)
  show "tx_keeps no_grants (startup_tx now)" "tx_keeps no_grants (logout_tx dg c now)" for now c
    by (rule tx_keepsI; auto simp: startup_tx_def logout_tx_def rbind_Inr_iff no_grants_def)+
  show "tx_keeps no_grants (reserve_tx dg p n)" for p n
    by (rule tx_keepsI) (auto simp: reserve_tx_def rbind_Inr_iff split: option.splits)
  show "tx_keeps no_grants (revoke_tx dg i c n)" for i c n
    by (rule tx_keepsI) (auto simp: revoke_tx_def rbind_Inr_iff intro!: no_grants_row dest!: authority_same split: if_splits)
  show "tx_keeps no_grants (session_in_transaction dg c touch n)" "tx_keeps no_grants (verify_tx dg t touch n)"
      "tx_keeps no_grants (rotate_tx dg i d sec n)" for c t touch n i d sec
    using no_session no_token no_rotation unfolding tx_keeps_def by metis+
qed simp_all

lemma reset_revokes_run:
  assumes "reset_password u p h now s = (Inr (), s1)" "list_all (\<lambda>op. \<not> is_grant (fst op)) ops"
  shows "fst (session_of dg c touch t (auth_run dg hs ops s1)) \<noteq> Inr (Some x) \<and>
    fst (verify_token dg tok touch t (auth_run dg hs ops s1)) \<noteq> Inr (Some y) \<and>
    (snd stored \<noteq> h \<longrightarrow> fst (finish_login dg hs rq t stored s1) \<noteq> Inr z)"
proof -
  obtain db where s1: "as_file s1 = Some db" "no_grants db" "\<exists>v. ad_admin db = Some (v, h)"
    using assms(1)
    by (auto simp: reset_password_def with_db_Inr reset_tx_def rbind_Inr_iff no_grants_def list_all_iff split: sum.splits option.splits if_splits)
  have g: "holds no_grants (auth_run dg hs ops s1)"
    by (rule no_grant_store.run_preserves [OF assms(2)]) (use s1 in \<open>simp add: holds_def\<close>)
  have "fst (session_of dg c touch t (auth_run dg hs ops s1)) \<noteq> Inr (Some x)"
    using g by (auto simp: session_of_def with_db_def holds_def dest!: no_session split: option.splits sum.splits)
  moreover have "fst (verify_token dg tok touch t (auth_run dg hs ops s1)) \<noteq> Inr (Some y)"
    using g by (auto simp: verify_token_def with_db_def holds_def dest!: no_token split: option.splits sum.splits)
  moreover have "snd stored \<noteq> h \<Longrightarrow> fst (finish_login dg hs rq t stored s1) \<noteq> Inr z"
    using s1 by (auto simp: finish_login_def abind_def araise_def with_db_def finish_tx_def need_base_def require_def split: sum.splits)
  ultimately show ?thesis by blast
qed


section \<open>Properties\<close>

text \<open>
  C30. The store stays well-formed. Whatever operations run in whatever order, starting without
  a file, the store holds at most 20 sessions with distinct digests, each expiring exactly eight
  hours after its creation and last seen no earlier; attempt counters between 1 and 20, one per
  bucket; at most 256 tokens with distinct identifiers and digests, each a valid record; and at
  most 1000 audit rows in increasing order. The generated identifiers are 32 hexadecimal digits,
  as \<open>secrets.token_hex(16)\<close> makes them.
\<close>

theorem auth_store_invariant:
  assumes "list_all wf_op ops"
  shows "holds auth_ok (auth_run dg hs ops \<lparr>as_private = pr, as_file = None\<rparr>)"
  by (rule wf_store.run_preserves [OF assms]) (simp add: holds_def)

definition example_hasher :: hasher where
  "example_hasher = \<lparr>hs_verify = (\<lambda>h p. if h = p then Match else VerificationError), hs_needs_rehash = (\<lambda>_. False)\<rparr>"

definition example_boot :: "(auth_op \<times> int) list" where
  "example_boot = [(OBootstrap ''root'' ''a-long-password'' ''hash'', 5)]"

theorem auth_store_invariant_witness:
  "holds auth_ok (auth_run id example_hasher example_boot \<lparr>as_private = True, as_file = None\<rparr>)"
  by (rule auth_store_invariant) (simp add: example_boot_def wf_op_def)

text \<open>
  C31. A password reset revokes every grant. After a successful reset, through any further
  operations that neither complete a login nor issue a token, no cookie has a session and no
  token verifies; and a login that had read other credentials before the reset is refused
  afterwards, so a concurrent reset wins.
\<close>

theorem reset_revokes_grants:
  assumes "reset_password u p h now s = (Inr (), s1)" "list_all (\<lambda>op. \<not> is_grant (fst op)) ops"
  shows "fst (session_of dg c touch t (auth_run dg hs ops s1)) \<noteq> Inr (Some x) \<and>
    fst (verify_token dg tok touch t (auth_run dg hs ops s1)) \<noteq> Inr (Some y) \<and>
    (snd stored \<noteq> h \<longrightarrow> fst (finish_login dg hs rq t stored s1) \<noteq> Inr z)"
  using reset_revokes_run [OF assms] .

theorem reset_revokes_grants_witness:
  "\<exists>s1. reset_password ''root'' ''another-password'' ''hash2'' 9 example_auth = (Inr (), s1) \<and>
     (\<forall>x. fst (session_of id (replicate 43 CHR ''x'') True 9 s1) \<noteq> Inr (Some x))"
proof -
  have "fst (reset_password ''root'' ''another-password'' ''hash2'' 9 example_auth) = Inr ()" by code_simp
  then obtain s1 where s1: "reset_password ''root'' ''another-password'' ''hash2'' 9 example_auth = (Inr (), s1)"
    by (metis prod.collapse)
  show ?thesis using reset_revokes_grants [OF s1, of "[]" id "replicate 43 CHR ''x''" True 9 example_hasher] s1
    by (simp add: auth_run_def)
qed

section \<open>Tokens\<close>

lemma token_text_shape: "is_token_id i \<Longrightarrow> full_class is_urlsafe 43 secret \<Longrightarrow> is_token (token_text i secret)"
proof -
  assume i: "is_token_id i" and sec: "full_class is_urlsafe 43 secret"
  have "length i = 32" using i by (simp add: is_token_id_def)
  then show ?thesis using i sec by (simp add: is_token_def token_text_def)
qed

definition issued_row :: "(string \<Rightarrow> string) \<Rightarrow> token_record \<Rightarrow> string \<Rightarrow> token_row" where
  "issued_row dg r token = \<lparr>tk_id = tr_id r, tk_digest = dg token, tk_name = tr_name r,
     tk_scopes = Some (VList (map VStr (filter (\<lambda>x. x \<in> set (tr_scopes r)) SCOPES))), tk_created = tr_created_at r,
     tk_expires = tr_expires_at r, tk_last_used = None, tk_revoked = False\<rparr>"

lemma issue_result:
  assumes "issue dg name scopes life cookie i secret now s = (Inr (r, tok), s1)" "is_token_id i"
  shows "as_private s" "as_private s1" "tok = token_text i secret" "60 \<le> life" "life \<le> MAX_LIFETIME"
    "\<exists>db rows. as_file s1 = Some db \<and> ad_version db = 1 \<and> ad_base db \<and> ad_admin db \<noteq> None \<and>
       ad_tokens db = Some (rows @ [issued_row dg r tok]) \<and> i \<notin> set (map tk_id rows) \<and> dg tok \<notin> set (map tk_digest rows)"
    "record_of (issued_row dg r tok) = Inr (r\<lparr>tr_scopes := filter (\<lambda>x. x \<in> set (tr_scopes r)) SCOPES\<rparr>)"
    "tr_id r = i" "tr_created_at r = now" "tr_expires_at r = now + life" "tr_last_used r = None" "\<not> tr_revoked r"
    "set (tr_scopes r) \<subseteq> set SCOPES"
proof -
  obtain allowed where al: "scopes_of scopes = Inr allowed" "is_token_name name" "60 \<le> life" "life \<le> MAX_LIFETIME"
      "r = \<lparr>tr_id = i, tr_name = name, tr_scopes = allowed, tr_created_at = now, tr_expires_at = now + life, tr_last_used = None, tr_revoked = False\<rparr>"
      "tok = token_text i secret" "with_db (issue_tx dg cookie r tok now) s = (Inr (), s1)"
    using assms(1) by (auto simp: issue_def Let_def abind_def areturn_def split: sum.splits if_splits prod.splits)
  obtain db db' where db: "as_private s" "as_file s = Some db" "issue_tx dg cookie r tok now db = Inr ((), db')" "s1 = s\<lparr>as_file := Some db'\<rparr>"
    using al(7) by (auto simp: with_db_Inr)
  then show "as_private s" "as_private s1" "tok = token_text i secret" "60 \<le> life" "life \<le> MAX_LIFETIME" using al by simp_all
  show "tr_id r = i" "tr_created_at r = now" "tr_expires_at r = now + life" "tr_last_used r = None" "\<not> tr_revoked r" using al(5) by simp_all
  have al1: "scopes_of scopes = Inr (tr_scopes r)" using al by simp
  show "set (tr_scopes r) \<subseteq> set SCOPES" using scopes_of_printed [OF al1] by simp
  show "record_of (issued_row dg r tok) = Inr (r\<lparr>tr_scopes := filter (\<lambda>x. x \<in> set (tr_scopes r)) SCOPES\<rparr>)"
    using scopes_of_printed [OF al1] al assms(2) by (simp add: record_of_def issued_row_def)
  show "\<exists>db rows. as_file s1 = Some db \<and> ad_version db = 1 \<and> ad_base db \<and> ad_admin db \<noteq> None \<and>
       ad_tokens db = Some (rows @ [issued_row dg r tok]) \<and> i \<notin> set (map tk_id rows) \<and> dg tok \<notin> set (map tk_digest rows)"
    using db(3,4) al(5) by (auto simp: issue_tx_def issued_row_def rbind_Inr_iff dest!: authority_same split: if_splits)
qed

text \<open>What \<open>verify\<close> answers for the row with the token's digest.\<close>

lemma verify_token_row:
  assumes "is_token tok" "as_private s" "as_file s = Some db" "ad_version db = 1" "ad_base db" "ad_admin db \<noteq> None"
    and "ad_tokens db = Some rows" "find (\<lambda>t. tk_digest t = dg tok) rows = Some row" "record_of row = Inr r"
  shows "usable r t \<Longrightarrow> verify_token dg tok False t s = (Inr (Some r), s)"
    and "\<not> usable r t \<Longrightarrow> fst (verify_token dg tok touch t s) = Inr None"
  using assms by (auto simp: verify_token_def with_db_def verify_tx_def require_schema_def need_base_def tokens_table_def)

lemma verify_unknown:
  assumes "as_private s" "as_file s = Some db" "ad_version db = 1" "ad_base db"
    and "ad_tokens db = Some rows" "dg tok \<notin> set (map tk_digest rows)"
  shows "fst (verify_token dg tok touch t s) = Inr None"
proof -
  have "find (\<lambda>t. tk_digest t = dg tok) rows = None" using assms(6) by (auto simp: find_None_iff image_iff)
  then show ?thesis using assms
    by (simp add: verify_token_def with_db_def verify_tx_def require_schema_def need_base_def tokens_table_def split: option.splits)
qed


text \<open>The store right after an issue: the new row is the last one and shares no key with the others.\<close>

definition last_token :: "(string \<Rightarrow> string) \<Rightarrow> auth_store \<Rightarrow> token_record \<Rightarrow> string \<Rightarrow> auth_db \<Rightarrow> token_row list \<Rightarrow> bool" where
  "last_token dg s r tok db rows = (as_private s \<and> as_file s = Some db \<and> ad_version db = 1 \<and> ad_base db \<and> ad_admin db \<noteq> None \<and>
     ad_tokens db = Some (rows @ [issued_row dg r tok]) \<and> tr_id r \<notin> set (map tk_id rows) \<and> dg tok \<notin> set (map tk_digest rows) \<and>
     is_token tok \<and> is_token_id (tr_id r))"

definition stored_record :: "token_record \<Rightarrow> token_record" where
  "stored_record r = r\<lparr>tr_scopes := filter (\<lambda>x. x \<in> set (tr_scopes r)) SCOPES\<rparr>"

lemma last_token_rows:
  assumes "last_token dg s r tok db rows"
  shows "find (\<lambda>t. tk_digest t = dg tok) (rows @ [(issued_row dg r tok)\<lparr>tk_revoked := b\<rparr>]) = Some ((issued_row dg r tok)\<lparr>tk_revoked := b\<rparr>)"
    and "find (\<lambda>t. tk_id t = tr_id r) (rows @ [issued_row dg r tok]) = Some (issued_row dg r tok)"
    and "set_row (tr_id r) f (rows @ [issued_row dg r tok]) = rows @ [f (issued_row dg r tok)]"
proof -
  have other: "tk_id x \<noteq> tr_id r \<and> tk_digest x \<noteq> dg tok" if "x \<in> set rows" for x
    using assms that by (auto simp: last_token_def image_iff)
  show "find (\<lambda>t. tk_digest t = dg tok) (rows @ [(issued_row dg r tok)\<lparr>tk_revoked := b\<rparr>]) = Some ((issued_row dg r tok)\<lparr>tk_revoked := b\<rparr>)"
    "find (\<lambda>t. tk_id t = tr_id r) (rows @ [issued_row dg r tok]) = Some (issued_row dg r tok)"
    by (rule find_snoc; use other in \<open>auto simp: issued_row_def\<close>)+
  show "set_row (tr_id r) f (rows @ [issued_row dg r tok]) = rows @ [f (issued_row dg r tok)]"
    using other by (auto simp: set_row_def issued_row_def intro!: map_idI)
qed

lemma token_verifies:
  assumes "last_token dg s r tok db rows" "record_of (issued_row dg r tok) = Inr (stored_record r)"
  shows "usable (stored_record r) t \<Longrightarrow> verify_token dg tok False t s = (Inr (Some (stored_record r)), s)"
    and "\<not> usable (stored_record r) t \<Longrightarrow> fst (verify_token dg tok touch t s) = Inr None"
proof -
  have "find (\<lambda>t. tk_digest t = dg tok) (rows @ [issued_row dg r tok]) = Some (issued_row dg r tok)"
    using last_token_rows(1) [OF assms(1), of "tk_revoked (issued_row dg r tok)"] by simp
  then show "usable (stored_record r) t \<Longrightarrow> verify_token dg tok False t s = (Inr (Some (stored_record r)), s)"
    "\<not> usable (stored_record r) t \<Longrightarrow> fst (verify_token dg tok touch t s) = Inr None"
    using assms verify_token_row [of tok s db "rows @ [issued_row dg r tok]" dg "issued_row dg r tok" "stored_record r"]
    by (auto simp: last_token_def)
qed

lemma record_of_revoking: "record_of row = Inr r \<Longrightarrow> record_of (row\<lparr>tk_revoked := b\<rparr>) = Inr (r\<lparr>tr_revoked := b\<rparr>)"
  by (auto simp: record_of_def split: option.splits sum.splits if_splits)

lemma token_revoked:
  assumes lt: "last_token dg s r tok db rows" and rec: "record_of (issued_row dg r tok) = Inr (stored_record r)"
  shows "fst (verify_token dg tok touch t (snd (revoke_token dg (tr_id r) None u s))) = Inr None"
proof -
  let ?row' = "(issued_row dg r tok)\<lparr>tk_revoked := True\<rparr>"
  let ?db = "audit ''API_TOKEN_REVOKED'' u (db\<lparr>ad_tokens := Some (rows @ [?row'])\<rparr>)"
  have "\<exists>t \<in> set (rows @ [issued_row dg r tok]). tk_id t = tr_id r \<and> \<not> tk_revoked t" by (auto simp: issued_row_def)
  then have s2: "snd (revoke_token dg (tr_id r) None u s) = s\<lparr>as_file := Some ?db\<rparr>"
    using lt last_token_rows(3) [OF lt]
    by (simp add: last_token_def revoke_token_def with_db_def revoke_tx_def authority_def require_schema_def tokens_table_def)
  show ?thesis unfolding s2 using lt last_token_rows(1) [OF lt, of True] record_of_revoking [OF rec]
    by (intro verify_token_row(2) [where db = ?db and rows = "rows @ [?row']" and row = ?row' and r = "(stored_record r)\<lparr>tr_revoked := True\<rparr>"])
      (simp_all add: last_token_def usable_def)
qed

lemma token_rotated:
  assumes lt: "last_token dg s r tok db rows" and rec: "record_of (issued_row dg r tok) = Inr (stored_record r)"
    and rr: "rotate_token dg (tr_id r) None secret u s = (Inr (Some (r2, tok2)), s2)" and sec: "full_class is_urlsafe 43 secret"
  shows "usable (stored_record r) u \<and> r2 = (stored_record r)\<lparr>tr_last_used := None\<rparr> \<and> tok2 = token_text (tr_id r) secret \<and>
    (\<exists>db2. last_token dg s2 (r\<lparr>tr_last_used := None\<rparr>) tok2 db2 rows)"
proof -
  obtain db2 where d2: "rotate_tx dg (tr_id r) None secret u db = Inr (Some (r2, tok2), db2)" "s2 = s\<lparr>as_file := Some db2\<rparr>"
    using rr lt by (auto simp: last_token_def rotate_token_def with_db_Inr)
  have id: "tr_id (stored_record r) = tr_id r" by (simp add: stored_record_def)
  let ?row' = "(issued_row dg r tok)\<lparr>tk_digest := dg (token_text (tr_id r) secret), tk_last_used := None\<rparr>"
  from d2(1) have d: "usable (stored_record r) u" "r2 = (stored_record r)\<lparr>tr_last_used := None\<rparr>" "tok2 = token_text (tr_id r) secret"
      "\<not> (\<exists>t \<in> set (rows @ [issued_row dg r tok]). tk_id t \<noteq> tr_id r \<and> tk_digest t = dg (token_text (tr_id r) secret))"
      "db2 = audit ''API_TOKEN_ROTATED'' u (db\<lparr>ad_tokens := Some (rows @ [?row'])\<rparr>)"
    by (rule rotate_tx_cases; use lt last_token_rows(2,3) [OF lt] rec id in \<open>auto simp: last_token_def\<close>)+
  have "?row' = issued_row dg (r\<lparr>tr_last_used := None\<rparr>) tok2" by (simp add: issued_row_def d(3))
  moreover have "tk_digest x \<noteq> dg tok2" if "x \<in> set rows" for x
  proof -
    have "tk_id x \<noteq> tr_id r" using lt that by (auto simp: last_token_def image_iff)
    then show ?thesis using d(3,4) that by (metis UnCI set_append)
  qed
  then have "dg tok2 \<notin> set (map tk_digest rows)" by fastforce
  ultimately have "last_token dg s2 (r\<lparr>tr_last_used := None\<rparr>) tok2 db2 rows"
    using lt d(3,5) d2(2) token_text_shape sec by (simp add: last_token_def)
  then show ?thesis using d by blast
qed

text \<open>
  C33. The life of a token. An issued token verifies with the requested scopes, which are known
  ones, from its issue until it expires, 60 seconds to 90 days later, and not before or after;
  once revoked it is never accepted; and a rotation that succeeds replaces it by a token that is
  accepted in its place, under the same identifier and expiry.
\<close>

theorem token_life:
  assumes "issue dg name scopes life cookie i secret now s = (Inr (r, tok), s1)" "is_token_id i"
    and "full_class is_urlsafe 43 secret" "full_class is_urlsafe 43 secret2" "dg (token_text i secret2) \<noteq> dg tok"
  shows "(\<exists>r'. set (tr_scopes r') = set (tr_scopes r) \<and> set (tr_scopes r) \<subseteq> set SCOPES \<and> tr_id r' = i \<and>
      (\<forall>t. now \<le> t \<and> t < now + life \<longrightarrow> verify_token dg tok False t s1 = (Inr (Some r'), s1)) \<and>
      (\<forall>t. \<not> (now \<le> t \<and> t < now + life) \<longrightarrow> fst (verify_token dg tok touch t s1) = Inr None)) \<and>
    60 \<le> life \<and> life \<le> MAX_LIFETIME \<and>
    fst (verify_token dg tok touch t (snd (revoke_token dg i None u s1))) = Inr None \<and>
    (\<forall>r2 tok2 s2. rotate_token dg i None secret2 u s1 = (Inr (Some (r2, tok2)), s2) \<longrightarrow>
      fst (verify_token dg tok touch t s2) = Inr None \<and> tr_expires_at r2 = now + life \<and>
      (u \<le> t \<and> t < now + life \<longrightarrow> (\<exists>r3. verify_token dg tok2 False t s2 = (Inr (Some r3), s2) \<and> tr_id r3 = i \<and> set (tr_scopes r3) = set (tr_scopes r))))"
proof -
  note res = issue_result [OF assms(1,2)]
  obtain db rows where lt: "last_token dg s1 r tok db rows"
    using res(2,3,6,8) token_text_shape [OF assms(2,3)] assms(2) by (auto simp: last_token_def)
  have rec: "record_of (issued_row dg r tok) = Inr (stored_record r)" using res(7) by (simp add: stored_record_def)
  have sr: "set (tr_scopes (stored_record r)) = set (tr_scopes r)" "tr_id (stored_record r) = i" "tr_expires_at (stored_record r) = now + life"
    using res(8,10,13) by (auto simp: stored_record_def)
  have us: "usable (stored_record r) t \<longleftrightarrow> now \<le> t \<and> t < now + life" for t
    using res(9-12) by (auto simp: usable_def stored_record_def)
  have first: "\<exists>r'. set (tr_scopes r') = set (tr_scopes r) \<and> set (tr_scopes r) \<subseteq> set SCOPES \<and> tr_id r' = i \<and>
      (\<forall>t. now \<le> t \<and> t < now + life \<longrightarrow> verify_token dg tok False t s1 = (Inr (Some r'), s1)) \<and>
      (\<forall>t. \<not> (now \<le> t \<and> t < now + life) \<longrightarrow> fst (verify_token dg tok touch t s1) = Inr None)"
    using sr res(13) token_verifies [OF lt rec] us by (intro exI [of _ "stored_record r"]) simp
  have rot: "fst (verify_token dg tok touch t s2) = Inr None \<and> tr_expires_at r2 = now + life \<and>
      (u \<le> t \<and> t < now + life \<longrightarrow> (\<exists>r3. verify_token dg tok2 False t s2 = (Inr (Some r3), s2) \<and> tr_id r3 = i \<and> set (tr_scopes r3) = set (tr_scopes r)))"
    if rr: "rotate_token dg i None secret2 u s1 = (Inr (Some (r2, tok2)), s2)" for r2 tok2 s2
  proof -
    obtain db2 where tr: "usable (stored_record r) u" "r2 = (stored_record r)\<lparr>tr_last_used := None\<rparr>" "tok2 = token_text i secret2"
        "last_token dg s2 (r\<lparr>tr_last_used := None\<rparr>) tok2 db2 rows"
      using token_rotated [OF lt rec rr [folded res(8)] assms(4)] res(8) by blast
    have r: "r\<lparr>tr_last_used := None\<rparr> = r" using res(11) by simp
    have rec2: "record_of (issued_row dg r tok2) = Inr (stored_record r)"
      using rec by (auto simp: record_of_def issued_row_def split: option.splits sum.splits if_splits)
    have "dg tok \<notin> set (map tk_digest (rows @ [issued_row dg r tok2]))"
      using lt assms(5) tr(3) by (auto simp: last_token_def issued_row_def)
    then have "fst (verify_token dg tok touch t s2) = Inr None"
      using tr(4) verify_unknown [of s2 db2 "rows @ [issued_row dg r tok2]" dg tok touch t] by (simp add: last_token_def r)
    moreover have "tr_expires_at r2 = now + life" using sr(3) tr(2) by simp
    moreover have "verify_token dg tok2 False t s2 = (Inr (Some (stored_record r)), s2)" if "u \<le> t \<and> t < now + life"
      using token_verifies(1) [OF tr(4) [unfolded r] rec2] us tr(1) that by simp
    ultimately show ?thesis using sr(1,2) by blast
  qed
  have rev: "fst (verify_token dg tok touch t (snd (revoke_token dg i None u s1))) = Inr None"
    using token_revoked [OF lt rec, of touch t u] res(8) by simp
  show ?thesis by (intro conjI first rev allI impI; (rule res(4,5))?; use rot in blast)
qed

definition example_secret :: "char \<Rightarrow> string" where
  "example_secret c = replicate 43 c"

definition example_id :: string where
  "example_id = replicate 32 CHR ''a''"

theorem token_life_witness:
  "\<exists>r tok s1. issue id ''bot'' (VList [VStr ''read'']) 600 None example_id (example_secret CHR ''x'') 10 example_auth = (Inr (r, tok), s1) \<and>
     fst (verify_token id tok True 20 (snd (revoke_token id example_id None 15 s1))) = Inr None"
proof -
  have "\<not> isl (fst (issue id ''bot'' (VList [VStr ''read'']) 600 None example_id (example_secret CHR ''x'') 10 example_auth))" by code_simp
  then obtain r tok s1 where i: "issue id ''bot'' (VList [VStr ''read'']) 600 None example_id (example_secret CHR ''x'') 10 example_auth = (Inr (r, tok), s1)"
    by (cases "issue id ''bot'' (VList [VStr ''read'']) 600 None example_id (example_secret CHR ''x'') 10 example_auth"; cases "fst (issue id ''bot'' (VList [VStr ''read'']) 600 None example_id (example_secret CHR ''x'') 10 example_auth)") auto
  have sh: "is_token_id example_id" "full_class is_urlsafe 43 (example_secret CHR ''x'')" "full_class is_urlsafe 43 (example_secret CHR ''y'')"
    by code_simp+
  have "token_text example_id (example_secret CHR ''y'') \<noteq> token_text example_id (example_secret CHR ''x'')" by code_simp
  then have "id (token_text example_id (example_secret CHR ''y'')) \<noteq> id tok" using issue_result(3) [OF i sh(1)] by simp
  then show ?thesis using token_life [OF i sh, of True 20 15] i by blast
qed

end
