(* ===== verification/AdminBoundary.thy ===== *)
theory AdminBoundary
  imports AdminProperties
begin

text \<open>
  The authorization boundary (app/core/admin_boundary.py) with the route selection
  (app/core/route_policy.py) and the automation contract (app/core/token_policy.py) it asks.
  Starlette's matching of one route is the function in a \<open>route_context\<close>: the path parameters of
  a full match, or nothing. \<open>urlsplit\<close> is a function parameter. Header names are lower case, as
  Starlette presents them. The store is asked twice per request; \<open>between\<close> is whatever other
  requests do to it in the meantime.
\<close>

section \<open>Routes\<close>

datatype route_kind = APIRoute | Mount | OtherRoute

record base_route =
  br_id :: nat
  br_kind :: route_kind
  br_module :: string
  br_name :: string
  br_path :: "string option"

record http_request =
  rq_method :: string
  rq_scheme :: string
  rq_headers :: "(string \<times> string) list"
  rq_cookies :: "(string \<times> string) list"
  rq_target :: string

record route_context =
  rc_route :: base_route
  rc_path :: string
  rc_match :: "http_request \<Rightarrow> (string \<times> string) list option"

record selected =
  sl_route :: base_route
  sl_path :: string
  sl_params :: "(string \<times> string) list"

fun selected_route :: "route_context list \<Rightarrow> http_request \<Rightarrow> selected option" where
  "selected_route [] rq = None"
| "selected_route (c # cs) rq = (case rc_match c rq of
     Some params \<Rightarrow> Some \<lparr>sl_route = rc_route c, sl_path = rc_path c, sl_params = params\<rparr>
   | None \<Rightarrow> selected_route cs rq)"

text \<open>Python's \<open>is\<close> on route objects is equality of \<open>br_id\<close>.\<close>

definition explicitly_registered :: "selected option \<Rightarrow> base_route list \<Rightarrow> bool" where
  "explicitly_registered sel allowed = (case sel of None \<Rightarrow> False
     | Some sl \<Rightarrow> list_ex (\<lambda>r. br_id (sl_route sl) = br_id r \<and> Some (sl_path sl) = br_path r) allowed)"

section \<open>The automation contract\<close>

definition CONTRACTS :: "((string \<times> string \<times> string \<times> string) \<times> string) list" where
  "CONTRACTS = [
     ((''system_api'', ''api_version'', ''/api/version'', ''GET''), ''read''),
     ((''system_api'', ''health'', ''/api/health'', ''GET''), ''read''),
     ((''api'', ''device_status_badges'', ''/api/devices/status-badges'', ''GET''), ''read''),
     ((''api'', ''device_ui_capabilities'', ''/api/devices/ui-capabilities'', ''GET''), ''read''),
     ((''stations_presets'', ''get_presets'', ''/api/presets/{device_id}'', ''GET''), ''presets''),
     ((''multiroom'', ''multiroom_scenarios'', ''/api/multiroom/scenarios'', ''GET''), ''multiroom''),
     ((''multiroom'', ''multiroom_methods'', ''/api/multiroom/methods'', ''GET''), ''multiroom''),
     ((''api'', ''diagnostics_telemetry_summary'', ''/api/diagnostics/telemetry/summary'', ''GET''), ''diagnostics''),
     ((''api'', ''set_device_setting'', ''/api/devices/{device_id}/settings/{setting}'', ''POST''), ''playback''),
     ((''api'', ''apply_changed_device_settings'', ''/api/devices/{device_id}/settings-apply'', ''POST''), ''admin''),
     ((''api'', ''rename_device'', ''/api/devices/{device_id}/rename'', ''POST''), ''admin'')]"

definition ROUTERS :: string where
  "ROUTERS = ''basswiesn.app.routers.''"

definition required_scope :: "route_context list \<Rightarrow> http_request \<Rightarrow> string option" where
  "required_scope routes rq = (case selected_route routes rq of
     None \<Rightarrow> None
   | Some sl \<Rightarrow>
       if br_kind (sl_route sl) \<noteq> APIRoute \<or> take (length ROUTERS) (br_module (sl_route sl)) \<noteq> ROUTERS then None
       else (case map_of CONTRACTS (drop (length ROUTERS) (br_module (sl_route sl)), br_name (sl_route sl), sl_path sl, rq_method rq) of
           None \<Rightarrow> None
         | Some grant \<Rightarrow> if grant = ''playback'' \<and> map_of (sl_params sl) ''setting'' \<noteq> Some ''volume'' then None else Some grant))"

section \<open>Origins\<close>

record url_parts =
  up_scheme :: string
  up_hostname :: "string option"
  up_username :: "string option"
  up_password :: "string option"
  up_port :: "nat option"
  up_path :: string
  up_query :: string
  up_fragment :: string

definition truthy :: "string option \<Rightarrow> bool" where
  "truthy s = (case s of None \<Rightarrow> False | Some t \<Rightarrow> t \<noteq> [])"

text \<open>\<open>urlsplit\<close> gives nothing where it or its \<open>port\<close> raises \<open>ValueError\<close>.\<close>

definition origin :: "(string \<Rightarrow> url_parts option) \<Rightarrow> string \<Rightarrow> string" where
  "origin urlsplit v = (case urlsplit v of
     None \<Rightarrow> []
   | Some u \<Rightarrow>
       if up_scheme u \<notin> {''http'', ''https''} \<or> \<not> truthy (up_hostname u) \<or> truthy (up_username u) \<or> truthy (up_password u) then []
       else if up_path u \<notin> {[], ''/''} \<or> up_query u \<noteq> [] \<or> up_fragment u \<noteq> [] then []
       else (let port = (case up_port u of Some n \<Rightarrow> if n = 0 then (if up_scheme u = ''https'' then 443 else 80) else n
                  | None \<Rightarrow> if up_scheme u = ''https'' then 443 else 80);
                 host = lower (the (up_hostname u))
             in if list_ex is_space host \<or> list_ex (\<lambda>c. of_char c = (92 :: nat)) host then []
                else (let host' = (if CHR '':'' \<in> set host then ''['' @ host @ '']'' else host)
                      in up_scheme u @ ''://'' @ host' @ '':'' @ digits_of_nat port)))"

definition header :: "http_request \<Rightarrow> string \<Rightarrow> string" where
  "header rq k = (case map_of (rq_headers rq) k of None \<Rightarrow> [] | Some v \<Rightarrow> v)"

definition headers_of :: "http_request \<Rightarrow> string \<Rightarrow> string list" where
  "headers_of rq k = map snd (filter (\<lambda>h. fst h = k) (rq_headers rq))"

definition has_header :: "http_request \<Rightarrow> string \<Rightarrow> bool" where
  "has_header rq k = (k \<in> set (map fst (rq_headers rq)))"

definition request_origin :: "(string \<Rightarrow> url_parts option) \<Rightarrow> http_request \<Rightarrow> string" where
  "request_origin urlsplit rq = origin urlsplit (rq_scheme rq @ ''://'' @ header rq ''host'')"

section \<open>The boundary\<close>

record boundary =
  bd_required :: bool
  bd_web :: bool
  bd_allow_http :: bool
  bd_origins :: "string list"
  bd_anonymous :: "base_route list"
  bd_routes :: "route_context list"
  bd_public_health :: "base_route list"
  bd_public_login :: "base_route list"

definition COOKIE :: string where
  "COOKIE = ''basswiesn_admin_session''"

definition SAFE_METHODS :: "string list" where
  "SAFE_METHODS = [''GET'', ''HEAD'', ''OPTIONS'']"

datatype grant = Public | Anonymous | Login | TokenGrant token_record | SessionGrant admin_session

datatype decision = Deny string nat | RedirectLogin | Pass grant

definition mk_origins :: "(string \<Rightarrow> url_parts option) \<Rightarrow> string list \<Rightarrow> string list" where
  "mk_origins urlsplit configured = map (origin urlsplit) configured"

definition anonymous :: "boundary \<Rightarrow> http_request \<Rightarrow> bool" where
  "anonymous b rq = (let sel = selected_route (bd_routes b) rq in
     explicitly_registered sel (bd_anonymous b) \<and>
     (case sel of None \<Rightarrow> False | Some sl \<Rightarrow> br_kind (sl_route sl) \<noteq> Mount \<or> rq_method rq \<in> {''GET'', ''HEAD''}))"

text \<open>What one request reads from the outside: the digest, the clock at each question, the meantime.\<close>

record surroundings =
  sd_digest :: "string \<Rightarrow> string"
  sd_urlsplit :: "string \<Rightarrow> url_parts option"
  sd_now1 :: int
  sd_now2 :: int
  sd_between :: "auth_store \<Rightarrow> auth_store"

definition authorize_token :: "boundary \<Rightarrow> surroundings \<Rightarrow> http_request \<Rightarrow> string list \<Rightarrow> auth_store \<Rightarrow> decision \<times> auth_store" where
  "authorize_token b sd rq authorization s =
     (if \<not> bd_web b \<or> length authorization \<noteq> 1 \<or> has_header rq ''cookie'' \<or> has_header rq ''origin'' \<or> has_header rq ''sec-fetch-site''
      then (Deny ''TOKEN_CONTEXT_DENIED'' 403, s)
      else (case split_on CHR '' '' (hd authorization) of
          [kind, tok] \<Rightarrow>
            if lower kind \<noteq> ''bearer'' then (Deny ''TOKEN_INVALID'' 401, s)
            else (case verify_token (sd_digest sd) tok False (sd_now1 sd) s of
                (Inl _, s1) \<Rightarrow> (Deny ''AUTH_UNAVAILABLE'' 503, s1)
              | (Inr None, s1) \<Rightarrow> (Deny ''TOKEN_INVALID'' 401, s1)
              | (Inr (Some p), s1) \<Rightarrow>
                  (case required_scope (bd_routes b) rq of
                     None \<Rightarrow> (Deny ''TOKEN_SCOPE_DENIED'' 403, s1)
                   | Some needed \<Rightarrow>
                       if needed \<notin> set (tr_scopes p) then (Deny ''TOKEN_SCOPE_DENIED'' 403, s1)
                       else (case verify_token (sd_digest sd) tok True (sd_now2 sd) (sd_between sd s1) of
                           (Inl _, s2) \<Rightarrow> (Deny ''AUTH_UNAVAILABLE'' 503, s2)
                         | (Inr None, s2) \<Rightarrow> (Deny ''TOKEN_INVALID'' 401, s2)
                         | (Inr (Some p2), s2) \<Rightarrow> (Pass (TokenGrant p2), s2))))
        | _ \<Rightarrow> (Deny ''TOKEN_INVALID'' 401, s)))"

definition authorize_session :: "boundary \<Rightarrow> surroundings \<Rightarrow> http_request \<Rightarrow> auth_store \<Rightarrow> decision \<times> auth_store" where
  "authorize_session b sd rq s =
     (let cookie = (case map_of (rq_cookies rq) COOKIE of None \<Rightarrow> [] | Some c \<Rightarrow> c) in
      case session_of (sd_digest sd) cookie False (sd_now1 sd) s of
        (Inl _, s1) \<Rightarrow> (Deny ''AUTH_UNAVAILABLE'' 503, s1)
      | (Inr None, s1) \<Rightarrow>
          (if bd_web b \<and> rq_method rq = ''GET'' \<and> contains_text ''text/html'' (header rq ''accept'') then RedirectLogin
           else Deny ''AUTH_REQUIRED'' 401, s1)
      | (Inr (Some session), s1) \<Rightarrow>
          if rq_method rq \<notin> set SAFE_METHODS \<and> header rq ''x-basswiesn-csrf'' \<noteq> ss_csrf_token session
          then (Deny ''AUTH_CSRF'' 403, s1)
          else (case session_of (sd_digest sd) cookie True (sd_now2 sd) (sd_between sd s1) of
              (Inl _, s2) \<Rightarrow> (Deny ''AUTH_UNAVAILABLE'' 503, s2)
            | (Inr None, s2) \<Rightarrow> (Deny ''AUTH_REQUIRED'' 401, s2)
            | (Inr (Some active), s2) \<Rightarrow> (Pass (SessionGrant active), s2)))"

definition authorize :: "boundary \<Rightarrow> surroundings \<Rightarrow> http_request \<Rightarrow> auth_store \<Rightarrow> decision \<times> auth_store" where
  "authorize b sd rq s =
     (let method = rq_method rq; sel = selected_route (bd_routes b) rq; current = request_origin (sd_urlsplit sd) rq;
          authorization = headers_of rq ''authorization'' in
      if method = ''GET'' \<and> explicitly_registered sel (bd_public_health b) then (Pass Public, s)
      else if anonymous b rq
      then (if authorization \<noteq> [] then (Deny ''TOKEN_ROUTE_DENIED'' 403, s)
            else if method \<notin> set SAFE_METHODS \<and> (header rq ''origin'' \<noteq> [] \<or> header rq ''sec-fetch-site'' \<noteq> [])
            then (Deny ''DEVICE_BROWSER_WRITE_DENIED'' 403, s) else (Pass Anonymous, s))
      else if bd_origins b = [] \<or> [] \<in> set (bd_origins b) then (Deny ''AUTH_UNAVAILABLE'' 503, s)
      else if current \<notin> set (bd_origins b) then (Deny ''AUTH_ORIGIN'' 403, s)
      else if rq_scheme rq \<noteq> ''https'' \<and> \<not> bd_allow_http b then (Deny ''AUTH_TLS_REQUIRED'' 403, s)
      else if authorization \<noteq> [] then authorize_token b sd rq authorization s
      else if method \<notin> set SAFE_METHODS \<and> origin (sd_urlsplit sd) (header rq ''origin'') \<noteq> current then (Deny ''AUTH_ORIGIN'' 403, s)
      else if bd_web b \<and> explicitly_registered sel (bd_public_login b) then (Pass Login, s)
      else authorize_session b sd rq s)"

datatype scope_type = Http | Websocket | OtherScope

datatype outcome = Forward grant | ForwardUnchecked | ForwardDevice | Respond decision | WebsocketClose

text \<open>\<open>__call__\<close>: who handles the request. A registered device route goes through the device ingress.\<close>

definition boundary_call :: "boundary \<Rightarrow> surroundings \<Rightarrow> scope_type \<Rightarrow> http_request \<Rightarrow> auth_store \<Rightarrow> outcome \<times> auth_store" where
  "boundary_call b sd ty rq s =
     (if \<not> bd_required b \<or> ty = OtherScope then (ForwardUnchecked, s)
      else if ty = Websocket then (WebsocketClose, s)
      else (case authorize b sd rq s of
          (Pass g, s') \<Rightarrow>
            (case selected_route (bd_routes b) rq of
               Some sl \<Rightarrow> if anonymous b rq \<and> br_kind (sl_route sl) \<noteq> Mount then (ForwardDevice, s') else (Forward g, s')
             | None \<Rightarrow> (Forward g, s'))
        | (d, s') \<Rightarrow> (Respond d, s')))"

end
