(* ===== verification/BoundaryProperties.thy ===== *)
theory BoundaryProperties
  imports AdminBoundary
begin

text \<open>Properties of the authorization boundary over the administrator store.\<close>

section \<open>What the store vouches for\<close>

definition live_token :: "(string \<Rightarrow> string) \<Rightarrow> string \<Rightarrow> int \<Rightarrow> auth_store \<Rightarrow> token_row \<Rightarrow> bool" where
  "live_token dg tok t s row = (case as_file s of None \<Rightarrow> False
     | Some db \<Rightarrow> as_private s \<and> ad_admin db \<noteq> None \<and> (case ad_tokens db of None \<Rightarrow> False | Some rows \<Rightarrow> row \<in> set rows) \<and>
         tk_digest row = dg tok \<and> \<not> tk_revoked row \<and> tk_created row \<le> t \<and> t < tk_expires row \<and>
         tk_expires row \<le> tk_created row + MAX_LIFETIME)"

definition live_session :: "(string \<Rightarrow> string) \<Rightarrow> string \<Rightarrow> int \<Rightarrow> auth_store \<Rightarrow> session_row \<Rightarrow> bool" where
  "live_session dg cookie t s row = (case as_file s of None \<Rightarrow> False
     | Some db \<Rightarrow> as_private s \<and> ad_admin db \<noteq> None \<and> row \<in> set (ad_sessions db) \<and> sr_digest row = dg cookie \<and>
         t < sr_expires row \<and> t - IDLE_SECONDS < sr_seen row \<and> sr_seen row \<le> t)"

lemma find_in: "find P xs = Some x \<Longrightarrow> x \<in> set xs \<and> P x"
  by (auto simp: find_Some_iff)

lemma record_of_fields:
  "record_of row = Inr r \<Longrightarrow> tr_revoked r = tk_revoked row \<and> tr_created_at r = tk_created row \<and> tr_expires_at r = tk_expires row \<and>
     tk_expires row \<le> tk_created row + MAX_LIFETIME"
  by (auto simp: record_of_def split: option.splits sum.splits if_splits)

lemma verify_sound:
  assumes "verify_token dg tok touch t s = (Inr (Some r), s')"
  shows "\<exists>row p. live_token dg tok t s row \<and> record_of row = Inr p \<and> tr_scopes r = tr_scopes p"
proof -
  obtain db db' where db: "as_private s" "as_file s = Some db" "verify_tx dg tok touch t db = Inr (Some r, db')"
    using assms by (auto simp: verify_token_def with_db_Inr split: if_splits)
  then obtain rows row p where v: "ad_tokens db = Some rows" "find (\<lambda>t. tk_digest t = dg tok) rows = Some row" "ad_admin db \<noteq> None"
      "record_of row = Inr p" "usable p t" "tr_scopes r = tr_scopes p"
    by (auto simp: verify_tx_def rbind_Inr_iff split: option.splits if_splits)
  then show ?thesis using db(1,2) find_in [OF v(2)] record_of_fields [OF v(4)]
    by (intro exI [of _ row] exI [of _ p]) (auto simp: live_token_def usable_def)
qed

lemma session_sound:
  assumes "session_of dg cookie touch t s = (Inr (Some x), s')"
  shows "(\<exists>row. live_session dg cookie t s row) \<and> ss_csrf_token x = csrf dg cookie"
proof -
  obtain db db' where db: "as_private s" "as_file s = Some db" "session_in_transaction dg cookie touch t db = Inr (Some x, db')"
    using assms by (auto simp: session_of_def with_db_Inr split: if_splits)
  then obtain row where v: "find (\<lambda>r. sr_digest r = dg cookie) (ad_sessions db) = Some row" "ad_admin db \<noteq> None"
      "\<not> (sr_expires row \<le> t \<or> sr_seen row \<le> t - IDLE_SECONDS \<or> t < sr_seen row)" "ss_csrf_token x = csrf dg cookie"
    by (auto simp: session_in_transaction_def rbind_Inr_iff split: option.splits if_splits)
  then show ?thesis using db(1,2) find_in [OF v(1)] by (auto simp: live_session_def)
qed

lemma contract_scopes:
  "required_scope routes rq = Some sc \<Longrightarrow> rq_method rq = ''GET'' \<or> sc \<in> {''playback'', ''admin''}"
proof -
  assume "required_scope routes rq = Some sc"
  then obtain m f p where "map_of CONTRACTS (m, f, p, rq_method rq) = Some sc"
    by (auto simp: required_scope_def split: option.splits if_splits)
  moreover have "\<forall>c \<in> set CONTRACTS. snd (snd (snd (fst c))) = ''GET'' \<or> snd c \<in> {''playback'', ''admin''}" by code_simp
  ultimately show ?thesis by (force dest!: map_of_SomeD)
qed

definition cookie_of :: "http_request \<Rightarrow> string" where
  "cookie_of rq = (case map_of (rq_cookies rq) COOKIE of None \<Rightarrow> [] | Some c \<Rightarrow> c)"

definition unsafe :: "http_request \<Rightarrow> bool" where
  "unsafe rq = (rq_method rq \<notin> set SAFE_METHODS)"

definition same_origin :: "surroundings \<Rightarrow> http_request \<Rightarrow> bool" where
  "same_origin sd rq = (origin (sd_urlsplit sd) (header rq ''origin'') = request_origin (sd_urlsplit sd) rq)"

definition trusted :: "boundary \<Rightarrow> surroundings \<Rightarrow> http_request \<Rightarrow> bool" where
  "trusted b sd rq = (request_origin (sd_urlsplit sd) rq \<in> set (bd_origins b) \<and> (rq_scheme rq = ''https'' \<or> bd_allow_http b))"

text \<open>The stores at the two questions of a request.\<close>

definition asked_again :: "surroundings \<Rightarrow> auth_store \<Rightarrow> auth_store \<Rightarrow> bool" where
  "asked_again sd s s2 = (\<exists>s1. s2 = sd_between sd s1 \<and> (s1 = s \<or> (\<exists>c. s1 = snd (session_of (sd_digest sd) c False (sd_now1 sd) s)) \<or>
     (\<exists>t. s1 = snd (verify_token (sd_digest sd) t False (sd_now1 sd) s))))"

lemma token_pass:
  assumes "authorize_token b sd rq au s = (Pass g, s')"
  shows "\<exists>tok p r s2 row1 row2 sc. g = TokenGrant r \<and> bd_web b \<and> \<not> has_header rq ''cookie'' \<and> \<not> has_header rq ''origin'' \<and>
    live_token (sd_digest sd) tok (sd_now1 sd) s row1 \<and> record_of row1 = Inr p \<and>
    required_scope (bd_routes b) rq = Some sc \<and> sc \<in> set (tr_scopes p) \<and>
    asked_again sd s s2 \<and> live_token (sd_digest sd) tok (sd_now2 sd) s2 row2"
proof -
  obtain k tok p s1 sc r where v: "split_on CHR '' '' (hd au) = [k, tok]" "bd_web b" "\<not> has_header rq ''cookie''" "\<not> has_header rq ''origin''"
      "verify_token (sd_digest sd) tok False (sd_now1 sd) s = (Inr (Some p), s1)" "required_scope (bd_routes b) rq = Some sc" "sc \<in> set (tr_scopes p)"
      "verify_token (sd_digest sd) tok True (sd_now2 sd) (sd_between sd s1) = (Inr (Some r), s')" "g = TokenGrant r"
    using assms by (auto simp: authorize_token_def split: if_splits list.splits prod.splits sum.splits option.splits)
  have "asked_again sd s (sd_between sd s1)" unfolding asked_again_def using v(5) by (metis sndI)
  then show ?thesis using verify_sound [OF v(5)] verify_sound [OF v(8)] v by metis
qed

lemma session_pass:
  assumes "authorize_session b sd rq s = (Pass g, s')"
  shows "\<exists>x s2 row1 row2. g = SessionGrant x \<and> live_session (sd_digest sd) (cookie_of rq) (sd_now1 sd) s row1 \<and>
    (unsafe rq \<longrightarrow> header rq ''x-basswiesn-csrf'' = csrf (sd_digest sd) (cookie_of rq)) \<and>
    asked_again sd s s2 \<and> live_session (sd_digest sd) (cookie_of rq) (sd_now2 sd) s2 row2"
proof -
  obtain x0 s1 x where v: "session_of (sd_digest sd) (cookie_of rq) False (sd_now1 sd) s = (Inr (Some x0), s1)"
      "unsafe rq \<longrightarrow> header rq ''x-basswiesn-csrf'' = ss_csrf_token x0"
      "session_of (sd_digest sd) (cookie_of rq) True (sd_now2 sd) (sd_between sd s1) = (Inr (Some x), s')" "g = SessionGrant x"
    using assms by (auto simp: authorize_session_def cookie_of_def unsafe_def Let_def split: if_splits prod.splits sum.splits option.splits)
  have "asked_again sd s (sd_between sd s1)" unfolding asked_again_def using v(1) by (metis sndI)
  then show ?thesis using session_sound [OF v(1)] session_sound [OF v(3)] v(2,4) by metis
qed

section \<open>Properties\<close>


definition example_health :: base_route where
  "example_health = \<lparr>br_id = 1, br_kind = APIRoute, br_module = ''basswiesn.app.routers.system_api'', br_name = ''health'', br_path = Some ''/api/health''\<rparr>"

definition example_boundary :: boundary where
  "example_boundary = \<lparr>bd_required = True, bd_web = True, bd_allow_http = False, bd_origins = [''https://radio:443''], bd_anonymous = [],
     bd_routes = [\<lparr>rc_route = example_health, rc_path = ''/api/health'', rc_match = (\<lambda>rq. if rq_target rq = ''/api/health'' then Some [] else None)\<rparr>],
     bd_public_health = [example_health], bd_public_login = []\<rparr>"

definition example_sd :: surroundings where
  "example_sd = \<lparr>sd_digest = id, sd_urlsplit = (\<lambda>_. None), sd_now1 = 20, sd_now2 = 20, sd_between = id\<rparr>"

definition example_http :: http_request where
  "example_http = \<lparr>rq_method = ''GET'', rq_scheme = ''https'', rq_headers = [], rq_cookies = [], rq_target = ''/api/health''\<rparr>"


text \<open>
  A reset closes the boundary. After a successful password reset, and through any operations
  that neither complete a login nor issue a token, no session and no token of before gets a
  request through, whatever happens while it is being decided: only health, device and login
  routes do.
\<close>

lemma boundary_after_reset:
  assumes "reset_password u p h now s0 = (Inr (), s1)" "list_all (\<lambda>op. \<not> is_grant (fst op)) before"
    and "authorize b sd rq (auth_run (sd_digest sd) hs before s1) = (Pass g, s2)"
  shows "g = Public \<or> g = Anonymous \<or> g = Login"
proof -
  let ?s = "auth_run (sd_digest sd) hs before s1"
  have "fst (session_of (sd_digest sd) c False t ?s) \<noteq> Inr (Some x)" "fst (verify_token (sd_digest sd) k False t ?s) \<noteq> Inr (Some y)" for c t x k y
    using reset_revokes_run [OF assms(1,2)] by blast+
  then have "authorize_session b sd rq ?s \<noteq> (Pass g, s2)" "authorize_token b sd rq (headers_of rq ''authorization'') ?s \<noteq> (Pass g, s2)"
    by (auto simp: authorize_session_def authorize_token_def Let_def split: if_splits prod.splits sum.splits option.splits list.splits) (metis fst_conv)+
  then show ?thesis using assms(3) by (auto simp: authorize_def Let_def split: if_splits)
qed

end
