(* ===== verification/DeviceIngress.thy ===== *)
theory DeviceIngress
  imports Prelude
begin

text \<open>
  Device-protocol ingress: the exclusive slots and the token bucket shared by all listeners
  (app/core/ingress_budget.py over app/services/device_ownership.py), the inventory bindings of
  app/core/protocol_identity.py, and the sequence of checks before a device request reaches a
  handler (app/core/device_ingress.py). A held lock file is its name in \<open>is_held\<close>; whether the lock
  directory passes its ownership checks is \<open>is_locks_ok\<close>. \<open>sha256\<close>, \<open>ipaddress\<close> and the XML parser are
  function parameters; numbers are exact rationals.
\<close>

section \<open>Slots\<close>

datatype lock_err = DeviceBusy | DeviceLockUnavailable

record ingress_state =
  is_held :: "string list"
  is_locks_ok :: bool
  is_sqlite :: bool
  is_rows :: "(string \<times> pyval option) list"

definition lock_leaf :: "(string \<Rightarrow> string) \<Rightarrow> string \<Rightarrow> lock_err + string" where
  "lock_leaf digest device_id = (let identity = upper (strip device_id) in
     if identity = [] \<or> 128 < length identity then Inl DeviceLockUnavailable else Inr (digest identity @ ''.lock''))"

text \<open>\<open>acquire\<close> with \<open>timeout=0\<close>: one attempt, which either takes the free lock or finds it busy.\<close>

definition acquire_now :: "string \<Rightarrow> (ingress_state, lock_err, string) act" where
  "acquire_now leaf st = (if \<not> is_locks_ok st then (Inl DeviceLockUnavailable, st)
     else if leaf \<in> set (is_held st) then (Inl DeviceBusy, st)
     else (Inr leaf, st\<lparr>is_held := leaf # is_held st\<rparr>))"

definition release_slot :: "string \<Rightarrow> ingress_state \<Rightarrow> ingress_state" where
  "release_slot leaf st = st\<lparr>is_held := remove1 leaf (is_held st)\<rparr>"

fun slot_from :: "(string \<Rightarrow> string) \<Rightarrow> string \<Rightarrow> nat list \<Rightarrow> (ingress_state, lock_err, string option) act" where
  "slot_from digest ns [] st = (Inr None, st)"
| "slot_from digest ns (i # is) st = (case lock_leaf digest (ns @ '':'' @ digits_of_nat i) of
     Inl e \<Rightarrow> (Inl e, st)
   | Inr leaf \<Rightarrow>
       (case acquire_now leaf st of
          (Inr l, st') \<Rightarrow> (Inr (Some l), st')
        | (Inl DeviceBusy, st') \<Rightarrow> slot_from digest ns is st'
        | (Inl DeviceLockUnavailable, st') \<Rightarrow> (Inl DeviceLockUnavailable, st')))"

definition slot_of :: "(string \<Rightarrow> string) \<Rightarrow> string \<Rightarrow> nat \<Rightarrow> (ingress_state, lock_err, string option) act" where
  "slot_of digest ns n = slot_from digest ns [0..<n]"

section \<open>Rate\<close>

record ingress_budget =
  ib_burst :: rat
  ib_rate :: rat
  ib_max_active :: nat
  ib_max_total :: nat

datatype ingress_err = IngressBudgetUnavailable

definition mk_budget :: "pyfloat \<Rightarrow> pyfloat \<Rightarrow> int \<Rightarrow> int \<Rightarrow> ingress_err + ingress_budget" where
  "mk_budget burst rate max_active max_total = (case (burst, rate) of
     (Finite b, Finite r) \<Rightarrow>
       if 1 \<le> b \<and> 0 < r \<and> 1 \<le> max_active \<and> max_active \<le> 32 \<and> 1 \<le> max_total \<and> max_total \<le> 32
       then Inr \<lparr>ib_burst = b, ib_rate = r, ib_max_active = nat max_active, ib_max_total = nat max_total\<rparr>
       else Inl IngressBudgetUnavailable
   | _ \<Rightarrow> Inl IngressBudgetUnavailable)"

definition budget_key :: "(string \<Rightarrow> string) \<Rightarrow> string \<Rightarrow> string" where
  "budget_key digest peer = ''device-ingress-budget:'' @ digest peer"

definition read_bucket :: "ingress_budget \<Rightarrow> pyval \<Rightarrow> ingress_err + rat \<times> rat" where
  "read_bucket b v = (case v of
     VDict kvs \<Rightarrow>
       if \<not> keys_are kvs [''version'', ''tokens'', ''observed''] \<or> map_of kvs ''version'' \<noteq> Some (VInt 1)
       then Inl IngressBudgetUnavailable
       else (case (map_of kvs ''tokens'', map_of kvs ''observed'') of
           (Some t, Some ob) \<Rightarrow>
             (case (finite_number t, finite_number ob) of
                (Inr (Some tokens), Inr (Some observed)) \<Rightarrow>
                  if \<not> (0 \<le> tokens \<and> tokens \<le> ib_burst b) \<or> observed < 0 then Inl IngressBudgetUnavailable
                  else Inr (tokens, observed)
              | _ \<Rightarrow> Inl IngressBudgetUnavailable)
         | _ \<Rightarrow> Inl IngressBudgetUnavailable)
   | _ \<Rightarrow> Inl IngressBudgetUnavailable)"

definition bucket_value :: "rat \<Rightarrow> rat \<Rightarrow> pyval" where
  "bucket_value tokens observed =
     VDict [(''version'', VInt 1), (''tokens'', VFloat (Finite tokens)), (''observed'', VFloat (Finite observed))]"

definition put_row :: "string \<Rightarrow> pyval \<Rightarrow> (string \<times> pyval option) list \<Rightarrow> (string \<times> pyval option) list" where
  "put_row k v rows = (k, Some v) # filter (\<lambda>r. fst r \<noteq> k) rows"

definition reserve_rate :: "(string \<Rightarrow> string) \<Rightarrow> ingress_budget \<Rightarrow> pyfloat \<Rightarrow> string \<Rightarrow> (ingress_state, ingress_err, bool) act" where
  "reserve_rate digest b clock peer st = (case clock of
     Finite now \<Rightarrow>
       if now < 0 \<or> \<not> is_sqlite st then (Inl IngressBudgetUnavailable, st)
       else (let key = budget_key digest peer;
                 grant = (\<lambda>tokens. if tokens < 1 then (Inr False, st)
                   else (Inr True, st\<lparr>is_rows := put_row key (bucket_value (tokens - 1) now) (is_rows st)\<rparr>))
             in case map_of (is_rows st) key of
                  None \<Rightarrow> grant (ib_burst b)
                | Some None \<Rightarrow> (Inl IngressBudgetUnavailable, st)
                | Some (Some v) \<Rightarrow>
                    (case read_bucket b v of
                       Inl e \<Rightarrow> (Inl e, st)
                     | Inr (tokens, observed) \<Rightarrow>
                         if now < observed then (Inr False, st)
                         else grant (min (ib_burst b) (tokens + (now - observed) * ib_rate b))))
   | _ \<Rightarrow> (Inl IngressBudgetUnavailable, st))"

section \<open>Leases\<close>

definition release_all :: "string list \<Rightarrow> ingress_state \<Rightarrow> ingress_state" where
  "release_all slots st = fold release_slot (rev slots) st"

text \<open>Every way out but a granted lease releases the slots taken so far; an exception becomes \<open>IngressBudgetUnavailable\<close>.\<close>

definition acquire_lease ::
    "(string \<Rightarrow> string) \<Rightarrow> ingress_budget \<Rightarrow> pyfloat \<Rightarrow> string \<Rightarrow> (ingress_state, ingress_err, string list option) act" where
  "acquire_lease digest b clock peer st = (case slot_of digest ''global'' (ib_max_total b) st of
     (Inl _, st1) \<Rightarrow> (Inl IngressBudgetUnavailable, st1)
   | (Inr None, st1) \<Rightarrow> (Inr None, st1)
   | (Inr (Some g), st1) \<Rightarrow>
       (case slot_of digest (''peer:'' @ digest peer) (ib_max_active b) st1 of
          (Inl _, st2) \<Rightarrow> (Inl IngressBudgetUnavailable, release_all [g] st2)
        | (Inr None, st2) \<Rightarrow> (Inr None, release_all [g] st2)
        | (Inr (Some p), st2) \<Rightarrow>
            (case reserve_rate digest b clock peer st2 of
               (Inl e, st3) \<Rightarrow> (Inl e, release_all [g, p] st3)
             | (Inr False, st3) \<Rightarrow> (Inr None, release_all [g, p] st3)
             | (Inr True, st3) \<Rightarrow> (Inr (Some [g, p]), st3))))"

section \<open>Identity\<close>

record ip_addr =
  ip_text :: string
  ip_mapped :: "string option"
  ip_unspecified :: bool
  ip_multicast :: bool

text \<open>\<open>ip_address\<close> parses an address; the attributes of the mapped IPv4 address are those of its own parse.\<close>

definition canonical_peer :: "(string \<Rightarrow> ip_addr option) \<Rightarrow> string \<Rightarrow> string" where
  "canonical_peer ip_address v = (if CHR ''%'' \<in> set v then [] else (case ip_address v of
     None \<Rightarrow> []
   | Some a \<Rightarrow>
       (case (case ip_mapped a of None \<Rightarrow> Some a | Some m \<Rightarrow> ip_address m) of
          None \<Rightarrow> []
        | Some x \<Rightarrow> if ip_unspecified x \<or> ip_multicast x then [] else ip_text x)))"

record xml_root =
  xr_tag :: string
  xr_attrs :: "(string \<times> string) list"
  xr_children :: "(string \<times> string option) list"

record inventory_device =
  dv_id :: string
  dv_ip :: string
  dv_info :: string

definition account_from_info :: "(string \<Rightarrow> xml_root option) \<Rightarrow> string \<Rightarrow> string" where
  "account_from_info parse xml = (case parse xml of
     None \<Rightarrow> []
   | Some doc \<Rightarrow>
       (case filter (\<lambda>c. fst c = ''margeAccountUUID'') (xr_children doc) of
          [(_, text)] \<Rightarrow> if xr_tag doc \<noteq> ''info'' then []
            else (let v = strip (case text of None \<Rightarrow> [] | Some t \<Rightarrow> t) in if length v \<le> 128 then v else [])
        | _ \<Rightarrow> []))"

definition registration_device_id :: "(string \<Rightarrow> xml_root option) \<Rightarrow> string \<Rightarrow> pyerr + string" where
  "registration_device_id parse body = (case parse body of
     None \<Rightarrow> Inl ValueError
   | Some doc \<Rightarrow>
       (let identifier = strip (case map_of (xr_attrs doc) ''deviceid'' of None \<Rightarrow> [] | Some v \<Rightarrow> v)
        in if xr_tag doc \<noteq> ''device'' \<or> identifier = [] \<or> 128 < length identifier then Inl ValueError else Inr identifier))"

definition cached_device_peer :: "(string \<Rightarrow> ip_addr option) \<Rightarrow> inventory_device list \<Rightarrow> string \<Rightarrow> string option" where
  "cached_device_peer ip_address rows device_id =
     (case filter (\<lambda>d. upper (dv_id d) = upper device_id) rows of
        [d] \<Rightarrow> (let peer = canonical_peer ip_address (dv_ip d) in
          if peer = [] \<or> length (filter (\<lambda>x. canonical_peer ip_address (dv_ip x) = peer) rows) \<noteq> 1 then None else Some peer)
      | _ \<Rightarrow> None)"

definition cached_account_binding ::
    "(string \<Rightarrow> ip_addr option) \<Rightarrow> (string \<Rightarrow> xml_root option) \<Rightarrow> inventory_device list \<Rightarrow> string \<Rightarrow> string \<Rightarrow> string option \<Rightarrow> bool" where
  "cached_account_binding ip_address parse rows peer account_id device_id =
     (case filter (\<lambda>d. canonical_peer ip_address (dv_ip d) = peer) rows of
        [d] \<Rightarrow> account_id \<noteq> [] \<and> (case device_id of None \<Rightarrow> True | Some i \<Rightarrow> upper (dv_id d) = upper i) \<and>
          account_from_info parse (dv_info d) = account_id
      | _ \<Rightarrow> False)"


section \<open>The request\<close>

definition MAX_BODY :: nat where "MAX_BODY = 1024 * 1024"
definition MAX_HEADERS :: nat where "MAX_HEADERS = 16 * 1024"
definition MAX_TARGET :: nat where "MAX_TARGET = 8192"

definition device_limits :: "ingress_err + ingress_budget" where
  "device_limits = mk_budget (Finite 120) (Finite 2) 4 32"

text \<open>What \<open>receive\<close> yields in order; a list that ends early means that nothing more came within the time limit.\<close>

datatype receive_event = Disconnect | Chunk string bool

record device_request =
  dq_client :: string
  dq_headers :: "(string \<times> string) list"
  dq_target_size :: nat
  dq_events :: "receive_event list"
  dq_device_id :: "string option"
  dq_account_id :: "string option"
  dq_registration :: bool

datatype ingress_result = Reject string nat | Gone | Handle string string

record ingress_env =
  ie_digest :: "string \<Rightarrow> string"
  ie_ip_address :: "string \<Rightarrow> ip_addr option"
  ie_parse_xml :: "string \<Rightarrow> xml_root option"
  ie_inventory :: "inventory_device list option"
  ie_clock :: pyfloat

definition mk_peers :: "(string \<Rightarrow> ip_addr option) \<Rightarrow> string list \<Rightarrow> string list" where
  "mk_peers ip_address configured = (let normalized = map (canonical_peer ip_address) configured in
     if normalized \<noteq> [] \<and> length normalized \<le> 256 \<and> [] \<notin> set normalized then normalized else [])"

definition lengths_of :: "device_request \<Rightarrow> string list" where
  "lengths_of rq = map snd (filter (\<lambda>h. upper (fst h) = ''CONTENT-LENGTH'') (dq_headers rq))"

definition encodings_of :: "device_request \<Rightarrow> string list" where
  "encodings_of rq = map snd (filter (\<lambda>h. upper (fst h) = ''CONTENT-ENCODING'') (dq_headers rq))"

definition bad_framing :: "device_request \<Rightarrow> bool" where
  "bad_framing rq = (1 < length (lengths_of rq) \<or> list_ex (\<lambda>v. v = [] \<or> \<not> list_all is_digit v \<or> 10 < length v) (lengths_of rq) \<or>
     list_ex (\<lambda>v. upper (strip v) \<noteq> ''IDENTITY'') (encodings_of rq))"

definition declared :: "device_request \<Rightarrow> nat option" where
  "declared rq = (case lengths_of rq of v # _ \<Rightarrow> Some (nat_of_digits v) | [] \<Rightarrow> None)"

fun read_body :: "receive_event list \<Rightarrow> string \<Rightarrow> ingress_result + string" where
  "read_body [] body = Inl (Reject ''DEVICE_REQUEST_TIMEOUT'' 408)"
| "read_body (Disconnect # es) body = Inl Gone"
| "read_body (Chunk c cont # es) body =
     (if MAX_BODY < length body + length c then Inl (Reject ''DEVICE_REQUEST_TOO_LARGE'' 413)
      else if cont then read_body es (body @ c) else Inr (body @ c))"

definition effective_id :: "ingress_env \<Rightarrow> device_request \<Rightarrow> string \<Rightarrow> ingress_result + string option" where
  "effective_id env rq body =
     (if dq_registration rq
      then (case registration_device_id (ie_parse_xml env) body of
          Inl _ \<Rightarrow> Inl (Reject ''DEVICE_REGISTRATION_INVALID'' 400)
        | Inr body_id \<Rightarrow> if dq_device_id rq \<noteq> None \<and> dq_device_id rq \<noteq> Some body_id
            then Inl (Reject ''DEVICE_IDENTITY_DENIED'' 403) else Inr (Some body_id))
      else Inr (dq_device_id rq))"

definition check_device :: "ingress_env \<Rightarrow> string \<Rightarrow> string option \<Rightarrow> ingress_result + unit" where
  "check_device env peer device_id = (case device_id of
     None \<Rightarrow> Inr ()
   | Some i \<Rightarrow>
       if i = [] \<or> 128 < length i then Inl (Reject ''DEVICE_IDENTITY_DENIED'' 403)
       else (case ie_inventory env of
           None \<Rightarrow> Inl (Reject ''DEVICE_IDENTITY_UNAVAILABLE'' 503)
         | Some rows \<Rightarrow>
             (case cached_device_peer (ie_ip_address env) rows i of
                None \<Rightarrow> Inl (Reject ''DEVICE_IDENTITY_DENIED'' 403)
              | Some known \<Rightarrow> if canonical_peer (ie_ip_address env) known \<noteq> peer
                  then Inl (Reject ''DEVICE_IDENTITY_DENIED'' 403) else Inr ())))"

definition check_account :: "ingress_env \<Rightarrow> string \<Rightarrow> string option \<Rightarrow> string option \<Rightarrow> ingress_result + unit" where
  "check_account env peer account_id device_id = (case account_id of
     None \<Rightarrow> Inr ()
   | Some a \<Rightarrow>
       if a = [] \<or> 128 < length a then Inl (Reject ''DEVICE_ACCOUNT_DENIED'' 403)
       else (case ie_inventory env of
           None \<Rightarrow> Inl (Reject ''DEVICE_ACCOUNT_UNAVAILABLE'' 503)
         | Some rows \<Rightarrow> if cached_account_binding (ie_ip_address env) (ie_parse_xml env) rows peer a device_id
             then Inr () else Inl (Reject ''DEVICE_ACCOUNT_DENIED'' 403)))"

definition admitted_request :: "ingress_env \<Rightarrow> device_request \<Rightarrow> string \<Rightarrow> ingress_result" where
  "admitted_request env rq peer = (case
     rbind (read_body (dq_events rq) []) (\<lambda>body.
     rbind (if declared rq \<noteq> None \<and> declared rq \<noteq> Some (length body) then Inl (Reject ''DEVICE_REQUEST_FRAMING'' 400) else Inr ()) (\<lambda>_.
     rbind (effective_id env rq body) (\<lambda>device_id.
     rbind (check_device env peer device_id) (\<lambda>_.
     rbind (check_account env peer (dq_account_id rq) device_id) (\<lambda>_.
     Inr (Handle peer body)))))) of Inl r \<Rightarrow> r | Inr r \<Rightarrow> r)"

text \<open>\<open>__call__\<close>: the lease is held from its acquisition to the end of the request, whatever that end is.\<close>

definition device_ingress :: "ingress_env \<Rightarrow> string list \<Rightarrow> device_request \<Rightarrow> ingress_state \<Rightarrow> ingress_result \<times> ingress_state" where
  "device_ingress env peers rq st =
     (let peer = canonical_peer (ie_ip_address env) (dq_client rq) in
      if peers = [] then (Reject ''DEVICE_PEER_POLICY_UNAVAILABLE'' 503, st)
      else if peer \<notin> set peers then (Reject ''DEVICE_PEER_DENIED'' 403, st)
      else if MAX_HEADERS < sum_list (map (\<lambda>h. length (fst h) + length (snd h)) (dq_headers rq)) \<or> MAX_TARGET < dq_target_size rq
      then (Reject ''DEVICE_REQUEST_TOO_LARGE'' 413, st)
      else if bad_framing rq then (Reject ''DEVICE_REQUEST_FRAMING'' 400, st)
      else if (case declared rq of None \<Rightarrow> False | Some n \<Rightarrow> MAX_BODY < n) then (Reject ''DEVICE_REQUEST_TOO_LARGE'' 413, st)
      else (case device_limits of
          Inl _ \<Rightarrow> (Reject ''DEVICE_BUDGET_UNAVAILABLE'' 503, st)
        | Inr b \<Rightarrow>
            (case acquire_lease (ie_digest env) b (ie_clock env) peer st of
               (Inl _, st') \<Rightarrow> (Reject ''DEVICE_BUDGET_UNAVAILABLE'' 503, st')
             | (Inr None, st') \<Rightarrow> (Reject ''DEVICE_RATE_LIMITED'' 429, st')
             | (Inr (Some slots), st') \<Rightarrow> (admitted_request env rq peer, release_all slots st'))))"

end
