(* ===== verification/IngressProperties.thy ===== *)
theory IngressProperties
  imports DeviceIngress "HOL-Library.Multiset"
begin

text \<open>Bounds of the device ingress: slots, rate and what reaches a handler.\<close>

section \<open>Rate\<close>

definition row_of :: "string \<Rightarrow> ingress_state \<Rightarrow> pyval option option" where
  "row_of k st = map_of (is_rows st) k"

lemma put_row_lookup: "map_of (put_row k v rows) k' = (if k' = k then Some (Some v) else map_of rows k')"
  by (induction rows) (auto simp: put_row_def)

lemma read_bucket_value: "0 \<le> t \<Longrightarrow> t \<le> ib_burst b \<Longrightarrow> 0 \<le> ob \<Longrightarrow> read_bucket b (bucket_value t ob) = Inr (t, ob)"
  by (auto simp: read_bucket_def bucket_value_def keys_are_def)

text \<open>One grant: the bucket refills with time, is capped by the burst and pays one token.\<close>

lemma reserve_granted:
  assumes "reserve_rate dg b c p st = (Inr True, st')" "1 \<le> ib_burst b"
  obtains now t where "c = Finite now" "row_of (budget_key dg p) st' = Some (Some (bucket_value t now))" "0 \<le> t" "t \<le> ib_burst b - 1" "0 \<le> now"
    "\<forall>t0 ob. row_of (budget_key dg p) st = Some (Some (bucket_value t0 ob)) \<and> 0 \<le> t0 \<and> t0 \<le> ib_burst b \<and> 0 \<le> ob \<longrightarrow>
       ob \<le> now \<and> t \<le> t0 + (now - ob) * ib_rate b - 1"
    "\<forall>k. k \<noteq> budget_key dg p \<longrightarrow> row_of k st' = row_of k st"
proof -
  let ?k = "budget_key dg p"
  obtain now where c: "c = Finite now" "0 \<le> now" "is_sqlite st"
    using assms(1) by (auto simp: reserve_rate_def split: pyfloat.splits if_splits)
  have "\<exists>tokens. 1 \<le> tokens \<and> tokens \<le> ib_burst b \<and>
      st' = st\<lparr>is_rows := put_row ?k (bucket_value (tokens - 1) now) (is_rows st)\<rparr> \<and>
      (map_of (is_rows st) ?k = None \<or> (\<exists>v t0 ob. map_of (is_rows st) ?k = Some (Some v) \<and> read_bucket b v = Inr (t0, ob) \<and> ob \<le> now \<and>
         tokens = min (ib_burst b) (t0 + (now - ob) * ib_rate b)))"
  proof (cases "map_of (is_rows st) ?k")
    case None
    then show ?thesis using assms c by (auto simp: reserve_rate_def Let_def split: if_splits)
  next
    case (Some o')
    then obtain v where v: "o' = Some v" using assms c by (cases o') (auto simp: reserve_rate_def Let_def)
    obtain t0 ob where rb: "read_bucket b v = Inr (t0, ob)"
      using assms(1) c Some v by (cases "read_bucket b v") (auto simp: reserve_rate_def Let_def)
    then show ?thesis using assms(1) c Some v by (intro exI [of _ "min (ib_burst b) (t0 + (now - ob) * ib_rate b)"])
        (auto simp: reserve_rate_def Let_def split: if_splits)
  qed
  then obtain tokens where n: "c = Finite now" "0 \<le> now" "1 \<le> tokens" "tokens \<le> ib_burst b"
      "st' = st\<lparr>is_rows := put_row ?k (bucket_value (tokens - 1) now) (is_rows st)\<rparr>"
      "map_of (is_rows st) ?k = None \<or> (\<exists>v t0 ob. map_of (is_rows st) ?k = Some (Some v) \<and> read_bucket b v = Inr (t0, ob) \<and> ob \<le> now \<and>
         tokens = min (ib_burst b) (t0 + (now - ob) * ib_rate b))"
    using c by blast
  show ?thesis
  proof (rule that [of now "tokens - 1"])
    show "\<forall>t0 ob. row_of ?k st = Some (Some (bucket_value t0 ob)) \<and> 0 \<le> t0 \<and> t0 \<le> ib_burst b \<and> 0 \<le> ob \<longrightarrow>
       ob \<le> now \<and> tokens - 1 \<le> t0 + (now - ob) * ib_rate b - 1"
      using n(6) by (auto simp: row_of_def read_bucket_value)
  qed (use n in \<open>auto simp: row_of_def put_row_lookup\<close>)
qed

lemma rate_refused: "reserve_rate dg b c p st = (r, st') \<Longrightarrow> r \<noteq> Inr True \<Longrightarrow> st' = st"
  by (auto simp: reserve_rate_def Let_def split: pyfloat.splits if_splits option.splits sum.splits prod.splits)

text \<open>The times at which requests of one bucket are granted, among requests of any peers.\<close>

fun granted :: "(string \<Rightarrow> string) \<Rightarrow> ingress_budget \<Rightarrow> string \<Rightarrow> (string \<times> pyfloat) list \<Rightarrow> ingress_state \<Rightarrow> rat list" where
  "granted dg b k [] st = []"
| "granted dg b k ((p, c) # cs) st = (case reserve_rate dg b c p st of (r, st') \<Rightarrow>
     (case c of Finite now \<Rightarrow> if r = Inr True \<and> budget_key dg p = k then [now] else [] | _ \<Rightarrow> []) @ granted dg b k cs st')"

lemma granted_from_bucket:
  assumes "1 \<le> ib_burst b" "0 < ib_rate b" "row_of k st = Some (Some (bucket_value t ob))" "0 \<le> t" "t \<le> ib_burst b" "0 \<le> ob"
  shows "granted dg b k cs st = [] \<or>
    of_nat (length (granted dg b k cs st)) \<le> t + ib_rate b * (last (granted dg b k cs st) - ob) \<and> ob \<le> last (granted dg b k cs st)"
  using assms(3-)
proof (induction cs arbitrary: st t ob)
  case (Cons a cs)
  obtain p c where a: "a = (p, c)" by (cases a)
  obtain r st' where r: "reserve_rate dg b c p st = (r, st')" by (cases "reserve_rate dg b c p st")
  show ?case
  proof (cases "r = Inr True")
    case False
    then have "st' = st" using rate_refused [OF r] by simp
    then have same: "granted dg b k (a # cs) st = granted dg b k cs st" using False r a by (simp split: pyfloat.splits)
    show ?thesis unfolding same by (rule Cons.IH [OF Cons.prems])
  next
    case True
    obtain now t' where g: "c = Finite now" "row_of (budget_key dg p) st' = Some (Some (bucket_value t' now))" "0 \<le> t'" "t' \<le> ib_burst b - 1" "0 \<le> now"
        "\<forall>t0 ob. row_of (budget_key dg p) st = Some (Some (bucket_value t0 ob)) \<and> 0 \<le> t0 \<and> t0 \<le> ib_burst b \<and> 0 \<le> ob \<longrightarrow>
           ob \<le> now \<and> t' \<le> t0 + (now - ob) * ib_rate b - 1"
        "\<forall>k. k \<noteq> budget_key dg p \<longrightarrow> row_of k st' = row_of k st"
      by (rule reserve_granted [OF r [unfolded True] assms(1)])
    show ?thesis
    proof (cases "budget_key dg p = k")
      case False
      then have "granted dg b k (a # cs) st = granted dg b k cs st'" using r a g(1) by simp
      then show ?thesis using Cons.IH [of st' t ob] Cons.prems g(7) False by simp
    next
      case k: True
      have cost: "ob \<le> now" "t' \<le> t + (now - ob) * ib_rate b - 1" using g(6) Cons.prems k by blast+
      have eq: "granted dg b k (a # cs) st = now # granted dg b k cs st'" using r a g(1) True k by simp
      have "t' \<le> ib_burst b" using g(4) by simp
      with Cons.IH [of st' t' now] g(2,3,5) k have ih: "granted dg b k cs st' = [] \<or>
          of_nat (length (granted dg b k cs st')) \<le> t' + ib_rate b * (last (granted dg b k cs st') - now) \<and> now \<le> last (granted dg b k cs st')"
        by simp
      show ?thesis
      proof (cases "granted dg b k cs st' = []")
        case True
        then show ?thesis using cost g(3) by (simp add: eq algebra_simps)
      next
        case False
        then have "1 + of_nat (length (granted dg b k cs st')) \<le> 1 + t' + ib_rate b * (last (granted dg b k cs st') - now)" using ih by simp
        also have "\<dots> \<le> t + ib_rate b * (last (granted dg b k cs st') - ob)" using cost(2) by (simp add: algebra_simps)
        finally show ?thesis using ih cost(1) False by (auto simp: eq)
      qed
    qed
  qed
qed simp

lemma granted_bound:
  assumes "1 \<le> ib_burst b" "0 < ib_rate b" "granted dg b k cs st = g # gs"
  shows "of_nat (length (g # gs)) \<le> ib_burst b + ib_rate b * (last (g # gs) - g)"
  using assms(3)
proof (induction cs arbitrary: st)
  case (Cons a cs)
  obtain p c where a: "a = (p, c)" by (cases a)
  obtain r st' where r: "reserve_rate dg b c p st = (r, st')" by (cases "reserve_rate dg b c p st")
  show ?case
  proof (cases "r = Inr True \<and> budget_key dg p = k")
    case False
    then have "granted dg b k (a # cs) st = granted dg b k cs st'" using r a by (auto split: pyfloat.splits)
    then show ?thesis using Cons by simp
  next
    case True
    obtain now t' where n: "c = Finite now" "row_of (budget_key dg p) st' = Some (Some (bucket_value t' now))" "0 \<le> t'" "t' \<le> ib_burst b - 1" "0 \<le> now"
      using reserve_granted [OF r [unfolded conjunct1 [OF True]] assms(1)] by metis
    have eq: "now = g" "granted dg b k cs st' = gs" using Cons.prems r a n(1) True by auto
    have "gs = [] \<or> of_nat (length gs) \<le> t' + ib_rate b * (last gs - now)"
      using granted_from_bucket [OF assms(1,2), of k st' t' now dg cs] n True eq by auto
    then show ?thesis using n(4) assms(1) eq by auto
  qed
qed simp


section \<open>Slots\<close>

definition leaves :: "(string \<Rightarrow> string) \<Rightarrow> string \<Rightarrow> nat \<Rightarrow> string set" where
  "leaves dg ns n = {l. \<exists>i < n. lock_leaf dg (ns @ '':'' @ digits_of_nat i) = Inr l}"

lemma leaves_card: "finite (leaves dg ns n) \<and> card (leaves dg ns n) \<le> n"
proof -
  let ?f = "\<lambda>i. case lock_leaf dg (ns @ '':'' @ digits_of_nat i) of Inr l \<Rightarrow> l | Inl _ \<Rightarrow> []"
  have sub: "leaves dg ns n \<subseteq> ?f ` {..<n}" by (force simp: leaves_def)
  then have "card (leaves dg ns n) \<le> card (?f ` {..<n})" by (intro card_mono) simp_all
  also have "\<dots> \<le> n" using card_image_le [of "{..<n}" ?f] by simp
  finally show ?thesis using sub finite_subset by blast
qed

lemma slot_from_result:
  "slot_from dg ns is st = (r, st') \<Longrightarrow> (case r of
     Inr (Some l) \<Rightarrow> l \<notin> set (is_held st) \<and> st' = st\<lparr>is_held := l # is_held st\<rparr> \<and> (\<exists>i \<in> set is. lock_leaf dg (ns @ '':'' @ digits_of_nat i) = Inr l)
   | _ \<Rightarrow> st' = st)"
proof (induction "is")
  case (Cons i "is")
  show ?case
  proof (cases "lock_leaf dg (ns @ '':'' @ digits_of_nat i)")
    case (Inr leaf)
    then show ?thesis
    proof (cases "is_locks_ok st \<and> leaf \<in> set (is_held st)")
      case True
      then have "slot_from dg ns is st = (r, st')" using Cons.prems Inr by (simp add: acquire_now_def)
      then show ?thesis using Cons.IH by (auto split: sum.splits option.splits)
    qed (use Cons.prems Inr in \<open>auto simp: acquire_now_def split: if_splits\<close>)
  qed (use Cons.prems in auto)
qed auto

lemma slot_of_result:
  assumes "slot_of dg ns n st = (r, st')"
  shows "(\<exists>l. r = Inr (Some l) \<and> l \<notin> set (is_held st) \<and> st' = st\<lparr>is_held := l # is_held st\<rparr> \<and> l \<in> leaves dg ns n) \<or>
    (st' = st \<and> (\<forall>l. r \<noteq> Inr (Some l)))"
  using slot_from_result [of dg ns "[0..<n]" st r st'] assms
  by (auto simp: slot_of_def leaves_def split: sum.splits option.splits)

lemma reserve_held: "reserve_rate dg b c p st = (r, st') \<Longrightarrow> is_held st' = is_held st"
  by (auto simp: reserve_rate_def Let_def split: pyfloat.splits if_splits option.splits sum.splits prod.splits)

lemma release_two: "g \<notin> set h \<Longrightarrow> p \<notin> set (g # h) \<Longrightarrow> is_held st = p # g # h \<Longrightarrow> is_held (release_all [g, p] st) = h"
  by (simp add: release_all_def release_slot_def)

lemma acquire_result:
  assumes "acquire_lease dg b c p st = (r, st')"
  shows "(\<exists>g q. r = Inr (Some [g, q]) \<and> is_held st' = q # g # is_held st \<and> g \<notin> set (is_held st) \<and> q \<notin> set (g # is_held st) \<and>
      g \<in> leaves dg ''global'' (ib_max_total b) \<and> q \<in> leaves dg (''peer:'' @ dg p) (ib_max_active b)) \<or>
    (is_held st' = is_held st \<and> (\<forall>l. r \<noteq> Inr (Some l)))"
proof -
  obtain r1 st1 where s1: "slot_of dg ''global'' (ib_max_total b) st = (r1, st1)" by fastforce
  show ?thesis
  proof (cases "\<exists>g. r1 = Inr (Some g)")
    case False
    then have "st1 = st" using slot_of_result [OF s1] by auto
    then show ?thesis using assms s1 False by (auto simp: acquire_lease_def split: sum.splits option.splits)
  next
    case True
    then obtain g where g: "r1 = Inr (Some g)" "g \<notin> set (is_held st)" "st1 = st\<lparr>is_held := g # is_held st\<rparr>" "g \<in> leaves dg ''global'' (ib_max_total b)"
      using slot_of_result [OF s1] by auto
    obtain r2 st2 where s2: "slot_of dg (''peer:'' @ dg p) (ib_max_active b) st1 = (r2, st2)" by fastforce
    show ?thesis
    proof (cases "\<exists>q. r2 = Inr (Some q)")
      case False
      then have "st2 = st1" using slot_of_result [OF s2] by auto
      then show ?thesis using assms s1 s2 g False
        by (auto simp: acquire_lease_def release_all_def release_slot_def split: sum.splits option.splits)
    next
      case True
      then obtain q where q: "r2 = Inr (Some q)" "q \<notin> set (g # is_held st)" "is_held st2 = q # g # is_held st"
          "q \<in> leaves dg (''peer:'' @ dg p) (ib_max_active b)"
        using slot_of_result [OF s2] g(3) by auto
      obtain r3 st3 where s3: "reserve_rate dg b c p st2 = (r3, st3)" by fastforce
      have h3: "is_held st3 = q # g # is_held st" using reserve_held [OF s3] q(3) by simp
      show ?thesis using assms s1 s2 s3 g q h3 release_two [OF g(2) q(2) h3]
        by (auto simp: acquire_lease_def split: sum.splits option.splits bool.splits)
    qed
  qed
qed

text \<open>The leases that requests hold at the same time.\<close>

inductive concurrent :: "(string \<Rightarrow> string) \<Rightarrow> ingress_budget \<Rightarrow> (string \<times> string list) list \<Rightarrow> ingress_state \<Rightarrow> bool" for dg b where
  idle: "is_held st = [] \<Longrightarrow> concurrent dg b [] st"
| granted: "concurrent dg b ls st \<Longrightarrow> acquire_lease dg b c p st = (Inr (Some l), st') \<Longrightarrow> concurrent dg b ((p, l) # ls) st'"
| refused: "concurrent dg b ls st \<Longrightarrow> acquire_lease dg b c p st = (r, st') \<Longrightarrow> \<forall>l. r \<noteq> Inr (Some l) \<Longrightarrow> concurrent dg b ls st'"
| released: "concurrent dg b (ls @ (p, l) # ms) st \<Longrightarrow> concurrent dg b (ls @ ms) (release_all l st)"

definition lease_shape :: "(string \<Rightarrow> string) \<Rightarrow> ingress_budget \<Rightarrow> string \<times> string list \<Rightarrow> bool" where
  "lease_shape dg b l = (\<exists>g q. snd l = [g, q] \<and> g \<in> leaves dg ''global'' (ib_max_total b) \<and> q \<in> leaves dg (''peer:'' @ dg (fst l)) (ib_max_active b))"

lemma concurrent_inv:
  assumes "concurrent dg b ls st"
  shows "mset (is_held st) = mset (concat (map snd ls)) \<and> distinct (is_held st) \<and> (\<forall>l \<in> set ls. lease_shape dg b l)"
  using assms
proof induction
  case (granted ls st c p l st')
  then show ?case using acquire_result [OF granted.hyps(2)] by (auto simp: lease_shape_def)
next
  case (refused ls st c p r st')
  then show ?case using acquire_result [OF refused.hyps(2)] by auto
next
  case (released ls p l ms st)
  obtain g q where l: "l = [g, q]" using released.IH by (auto simp: lease_shape_def)
  have "is_held (release_all l st) = remove1 g (remove1 q (is_held st))" by (simp add: l release_all_def release_slot_def)
  then show ?case using released.IH by (auto simp: l)
qed simp

lemma slots_bound:
  assumes "concurrent dg b ls st"
  shows "length ls \<le> ib_max_total b \<and> length (filter (\<lambda>l. fst l = p) ls) \<le> ib_max_active b"
proof -
  note inv = concurrent_inv [OF assms]
  have d: "distinct (concat (map snd ls))" using inv by (metis mset_eq_imp_distinct_iff)
  have pick: "distinct (map f ls')" if sub: "set ls' \<subseteq> set ls" "distinct (concat (map snd ls'))" and mem: "\<And>l. l \<in> set ls \<Longrightarrow> f l \<in> set (snd l)" for f ls'
    using sub
  proof (induction ls')
    case (Cons a ls')
    have "f a \<noteq> f x" if x: "x \<in> set ls'" for x
    proof
      assume "f a = f x"
      then have "f a \<in> set (snd a)" "f a \<in> set (concat (map snd ls'))"
        using mem [of a] mem [of x] Cons.prems(1) x by auto
      then show False using Cons.prems(2) by auto
    qed
    then show ?case using Cons by auto
  qed simp
  have sh: "length (snd l) = 2" "hd (snd l) \<in> leaves dg ''global'' (ib_max_total b)" "last (snd l) \<in> leaves dg (''peer:'' @ dg (fst l)) (ib_max_active b)"
      "hd (snd l) \<in> set (snd l)" "last (snd l) \<in> set (snd l)" if "l \<in> set ls" for l
    using inv that by (fastforce simp: lease_shape_def)+
  have "distinct (map (\<lambda>l. hd (snd l)) ls)" by (rule pick) (use d sh in auto)
  then have "length ls = card (set (map (\<lambda>l. hd (snd l)) ls))" using distinct_card by fastforce
  also have "\<dots> \<le> card (leaves dg ''global'' (ib_max_total b))" using sh leaves_card by (intro card_mono) auto
  finally have total: "length ls \<le> ib_max_total b" using leaves_card le_trans by blast
  let ?ls = "filter (\<lambda>l. fst l = p) ls"
  have "distinct (concat (map snd (filter P ls)))" for P using d by (induction ls) auto
  then have "distinct (map (\<lambda>l. last (snd l)) ?ls)" by (intro pick) (use sh in auto)
  then have "length ?ls = card (set (map (\<lambda>l. last (snd l)) ?ls))" using distinct_card by fastforce
  also have "\<dots> \<le> card (leaves dg (''peer:'' @ dg p) (ib_max_active b))" using sh leaves_card by (intro card_mono) auto
  finally show ?thesis using total leaves_card le_trans by blast
qed


section \<open>What reaches a handler\<close>

lemma read_body_bound: "length body \<le> MAX_BODY \<Longrightarrow> read_body es body = Inr out \<Longrightarrow> length out \<le> MAX_BODY"
  by (induction es body rule: read_body.induct) (auto split: if_splits)

lemma release_lease:
  assumes "acquire_lease dg b c p st = (Inr (Some slots), st')"
  shows "is_held (release_all slots st') = is_held st"
  using acquire_result [OF assms] release_two by auto

lemma cached_device_unique:
  assumes "cached_device_peer ip rows i = Some peer"
  shows "\<exists>d \<in> set rows. upper (dv_id d) = upper i \<and> canonical_peer ip (dv_ip d) = peer \<and>
    filter (\<lambda>x. upper (dv_id x) = upper i) rows = [d] \<and> length (filter (\<lambda>x. canonical_peer ip (dv_ip x) = peer) rows) = 1"
proof -
  obtain d where d: "filter (\<lambda>x. upper (dv_id x) = upper i) rows = [d]" "canonical_peer ip (dv_ip d) = peer"
      "length (filter (\<lambda>x. canonical_peer ip (dv_ip x) = peer) rows) = 1"
    using assms by (auto simp: cached_device_peer_def Let_def split: list.splits if_splits)
  have "d \<in> set rows \<and> upper (dv_id d) = upper i" using d(1) by (auto simp: filter_eq_Cons_iff)
  then show ?thesis using d by auto
qed

text \<open>
  C36. Device traffic is bounded. However requests of any peers interleave, at most the
  configured number of leases exists at once, in total and per peer, since each holds lock files
  no other holds; and the grants of one peer over any time span number at most the burst plus the
  refill of that span, whatever the stored bucket was before the first one and wherever the clock
  went: a clock that goes backwards grants nothing.
\<close>

theorem ingress_bounded:
  assumes "mk_budget (Finite burst) (Finite rate) max_active max_total = Inr b"
  shows "(concurrent dg b ls st \<longrightarrow> int (length ls) \<le> max_total \<and> int (length (filter (\<lambda>l. fst l = p) ls)) \<le> max_active \<and>
      distinct (concat (map snd ls))) \<and>
    (granted dg b (budget_key dg p) cs st = g # gs \<longrightarrow> of_nat (length (g # gs)) \<le> burst + rate * (last (g # gs) - g))"
proof -
  have b: "ib_burst b = burst" "ib_rate b = rate" "int (ib_max_active b) = max_active" "int (ib_max_total b) = max_total" "1 \<le> burst" "0 < rate"
    using assms by (auto simp: mk_budget_def split: if_splits)
  have "concurrent dg b ls st \<Longrightarrow> distinct (concat (map snd ls))"
    using concurrent_inv [of dg b ls st] by (metis mset_eq_imp_distinct_iff)
  then show ?thesis using slots_bound [of dg b ls st p] granted_bound [of b dg "budget_key dg p" cs st g gs] b by auto
qed

definition example_ingress :: ingress_state where
  "example_ingress = \<lparr>is_held = [], is_locks_ok = True, is_sqlite = True, is_rows = []\<rparr>"

theorem ingress_bounded_witness:
  "\<exists>b. mk_budget (Finite 2) (Finite 1) 4 32 = Inr b \<and>
     granted id b (budget_key id ''p'') [(''p'', Finite 5), (''p'', Finite 5), (''p'', Finite 5)] example_ingress = [5, 5] \<and>
     of_nat (length [5, 5 :: rat]) \<le> (2 :: rat) + 1 * (5 - 5)"
proof -
  obtain b where b: "mk_budget (Finite 2) (Finite 1) 4 32 = Inr b" by (simp add: mk_budget_def)
  then have "granted id b (budget_key id ''p'') [(''p'', Finite 5), (''p'', Finite 5), (''p'', Finite 5)] example_ingress = [5, 5]"
    by (auto simp: mk_budget_def example_ingress_def reserve_rate_def budget_key_def Let_def put_row_def read_bucket_def bucket_value_def keys_are_def)
  then show ?thesis using ingress_bounded [OF b, where dg = id and p = "''p''" and cs = "[(''p'', Finite 5), (''p'', Finite 5), (''p'', Finite 5)]"
      and st = example_ingress and g = 5 and gs = "[5]"] b
    by simp
qed

text \<open>
  C37. What reaches a device handler. A request is handed on only for a configured peer, with a
  body of at most one MiB that has exactly its declared length; a device identity, from the path
  or from the registration body, belongs to exactly one inventory row, whose address no other row
  shares and which is the peer's; an account is the one of the peer's only row. Whatever happens
  to the request, no lock is left behind.
\<close>

theorem ingress_guard:
  assumes "device_ingress env peers rq st = (r, st')"
  shows "is_held st' = is_held st \<and>
    (\<forall>peer body. r = Handle peer body \<longrightarrow>
       peer = canonical_peer (ie_ip_address env) (dq_client rq) \<and> peer \<in> set peers \<and> length body \<le> MAX_BODY \<and>
       (declared rq = None \<or> declared rq = Some (length body)) \<and>
       (\<exists>device_id. effective_id env rq body = Inr device_id \<and>
         (\<forall>i. device_id = Some i \<longrightarrow> (\<exists>rows d. ie_inventory env = Some rows \<and> filter (\<lambda>x. upper (dv_id x) = upper i) rows = [d] \<and>
            length (filter (\<lambda>x. canonical_peer (ie_ip_address env) (dv_ip x) = canonical_peer (ie_ip_address env) (dv_ip d)) rows) = 1 \<and>
            canonical_peer (ie_ip_address env) (canonical_peer (ie_ip_address env) (dv_ip d)) = peer)) \<and>
         (\<forall>a. dq_account_id rq = Some a \<longrightarrow> a \<noteq> [] \<and> (\<exists>rows. ie_inventory env = Some rows \<and>
            cached_account_binding (ie_ip_address env) (ie_parse_xml env) rows peer a device_id))))"
proof -
  let ?peer = "canonical_peer (ie_ip_address env) (dq_client rq)"
  have held: "is_held st' = is_held st"
    using assms acquire_result [of "ie_digest env" _ "ie_clock env" ?peer st] release_lease [of "ie_digest env" _ "ie_clock env" ?peer st]
    by (fastforce simp: device_ingress_def Let_def split: if_splits sum.splits option.splits prod.splits)
  have handled: "?peer \<in> set peers \<and> admitted_request env rq ?peer = r" if "r = Handle peer body" for peer body
    using assms that by (auto simp: device_ingress_def Let_def split: if_splits sum.splits option.splits prod.splits)
  have checks: "peer = p \<and> length body \<le> MAX_BODY \<and> (declared rq = None \<or> declared rq = Some (length body)) \<and>
      (\<exists>device_id. effective_id env rq body = Inr device_id \<and> check_device env p device_id = Inr () \<and> check_account env p (dq_account_id rq) device_id = Inr ())"
    if "admitted_request env rq p = Handle peer body" for p peer body
  proof -
    have noh: "read_body es bs \<noteq> Inl (Handle x y)" for es bs x y by (induction es bs rule: read_body.induct) auto
    have "effective_id env rq bd \<noteq> Inl (Handle x y)" "check_device env p di \<noteq> Inl (Handle x y)" "check_account env p ac di \<noteq> Inl (Handle x y)" for bd x y di ac
      by (auto simp: effective_id_def check_device_def check_account_def split: option.splits sum.splits)
    then show ?thesis using that noh read_body_bound [of "[]" "dq_events rq"]
      by (auto simp: admitted_request_def rbind_def split: sum.splits if_splits)
  qed
  show ?thesis
  proof (intro conjI allI impI held)
    fix peer body
    assume h: "r = Handle peer body"
    note c = checks [of ?peer peer body] handled [OF h]
    show "peer = ?peer" "peer \<in> set peers" "length body \<le> MAX_BODY" "declared rq = None \<or> declared rq = Some (length body)"
      using c h by auto
    show "\<exists>device_id. effective_id env rq body = Inr device_id \<and>
         (\<forall>i. device_id = Some i \<longrightarrow> (\<exists>rows d. ie_inventory env = Some rows \<and> filter (\<lambda>x. upper (dv_id x) = upper i) rows = [d] \<and>
            length (filter (\<lambda>x. canonical_peer (ie_ip_address env) (dv_ip x) = canonical_peer (ie_ip_address env) (dv_ip d)) rows) = 1 \<and>
            canonical_peer (ie_ip_address env) (canonical_peer (ie_ip_address env) (dv_ip d)) = peer)) \<and>
         (\<forall>a. dq_account_id rq = Some a \<longrightarrow> a \<noteq> [] \<and> (\<exists>rows. ie_inventory env = Some rows \<and>
            cached_account_binding (ie_ip_address env) (ie_parse_xml env) rows peer a device_id))"
      using c h by (fastforce simp: check_device_def check_account_def dest!: cached_device_unique split: option.splits if_splits)
  qed
qed


definition example_ip :: "string \<Rightarrow> ip_addr option" where
  "example_ip v = (if v = ''10.0.0.7'' then Some \<lparr>ip_text = v, ip_mapped = None, ip_unspecified = False, ip_multicast = False\<rparr> else None)"

definition example_env :: ingress_env where
  "example_env = \<lparr>ie_digest = id, ie_ip_address = example_ip, ie_parse_xml = (\<lambda>_. None),
     ie_inventory = Some [\<lparr>dv_id = ''A1'', dv_ip = ''10.0.0.7'', dv_info = []\<rparr>], ie_clock = Finite 5\<rparr>"

definition example_device_request :: device_request where
  "example_device_request = \<lparr>dq_client = ''10.0.0.7'', dq_headers = [], dq_target_size = 10, dq_events = [Chunk ''hi'' False],
     dq_device_id = Some ''a1'', dq_account_id = None, dq_registration = False\<rparr>"

theorem ingress_guard_witness:
  "\<exists>st'. device_ingress example_env [''10.0.0.7''] example_device_request example_ingress = (Handle ''10.0.0.7'' ''hi'', st') \<and>
     is_held st' = [] \<and> ''10.0.0.7'' \<in> set [''10.0.0.7'']"
proof -
  have lim: "device_limits = Inr \<lparr>ib_burst = 120, ib_rate = 2, ib_max_active = 4, ib_max_total = 32\<rparr>"
    by (simp add: device_limits_def mk_budget_def)
  have peer: "canonical_peer example_ip ''10.0.0.7'' = ''10.0.0.7''" by code_simp
  have low: "upper ''a1'' = ''A1''" "upper ''A1'' = ''A1''" by code_simp+
  have "admitted_request example_env example_device_request ''10.0.0.7'' = Handle ''10.0.0.7'' ''hi''"
    by (simp add: admitted_request_def example_env_def example_device_request_def MAX_BODY_def declared_def lengths_of_def
        effective_id_def check_device_def check_account_def cached_device_peer_def peer low)
  moreover have "case fst (acquire_lease id \<lparr>ib_burst = 120, ib_rate = 2, ib_max_active = 4, ib_max_total = 32\<rparr> (Finite 5) ''10.0.0.7'' example_ingress)
      of Inr (Some l) \<Rightarrow> True | _ \<Rightarrow> False" by code_simp
  then obtain l st where "acquire_lease id \<lparr>ib_burst = 120, ib_rate = 2, ib_max_active = 4, ib_max_total = 32\<rparr> (Finite 5) ''10.0.0.7'' example_ingress = (Inr (Some l), st)"
    by (auto split: sum.splits option.splits) (metis prod.collapse)
  ultimately have "fst (device_ingress example_env [''10.0.0.7''] example_device_request example_ingress) = Handle ''10.0.0.7'' ''hi''"
    by (simp add: device_ingress_def Let_def example_env_def example_device_request_def peer lim MAX_HEADERS_def MAX_TARGET_def
        bad_framing_def declared_def lengths_of_def encodings_of_def)
  then obtain st' where d: "device_ingress example_env [''10.0.0.7''] example_device_request example_ingress = (Handle ''10.0.0.7'' ''hi'', st')"
    by (metis prod.collapse)
  show ?thesis using ingress_guard [OF d] d by (auto simp: example_ingress_def)
qed

end
