(* ===== verification/Reporting.thy ===== *)
theory Reporting
  imports Prelude
begin

text \<open>
  The reporting scheduler (app/services/reporting_scheduler.py): the bounded queue of one
  session, the delivery of its head with retries and back-off, and the tasks that fire it. Times
  are microseconds. The HTTP answer is an argument; so is what other coroutines do to the session
  while the answer is awaited, as a list of the operations they can call. \<open>urlsplit\<close> is a function
  parameter that gives nothing where it raises. Saving to the store changes nothing in memory and
  is left out. A text is decoded to a number as \<open>int\<close> does for ASCII digits.
\<close>

section \<open>Data\<close>

definition REPORT_QUEUE_CAPACITY :: nat where "REPORT_QUEUE_CAPACITY = 20"
definition REPORT_MAX_RETRIES :: nat where "REPORT_MAX_RETRIES = 5"
definition REPORT_MAX_ATTEMPTS :: nat where "REPORT_MAX_ATTEMPTS = 1 + REPORT_MAX_RETRIES"

datatype reporting_status = IDLE | QUEUED | SENDING | SUCCESS | RETRY_WAIT | DEGRADED | FAILED | RECOVERED

datatype reporting_err = ReportingQueueFull | ReportingCancelled | BadReportUrl | IndexError

record report_payload =
  rp_timeStamp :: int
  rp_eventType :: string
  rp_reason :: string
  rp_timeIntoTrack :: int
  rp_playbackDelay :: int
  rp_absolutePlayPoint :: string
  rp_reasonSubCode :: string

record queue_item =
  qi_id :: string
  qi_payload :: report_payload
  qi_attempts :: nat
  qi_due_at :: "int option"
  qi_last_error :: "string option"
  qi_created_at :: int

record reporting_session =
  rs_report_url :: "string option"
  rs_status :: reporting_status
  rs_queue :: "queue_item list"
  rs_next_due_at :: "int option"
  rs_last_http_status :: "int option"
  rs_last_success_at :: "int option"
  rs_last_failure :: "string option"
  rs_semantic_persistent_error :: bool
  rs_generation :: nat

definition new_session :: reporting_session where
  "new_session = \<lparr>rs_report_url = None, rs_status = IDLE, rs_queue = [], rs_next_due_at = None, rs_last_http_status = None,
     rs_last_success_at = None, rs_last_failure = None, rs_semantic_persistent_error = False, rs_generation = 0\<rparr>"

record reporting_result =
  rr_status :: reporting_status
  rr_queue_depth :: nat
  rr_retry_count :: nat
  rr_next_due_at :: "int option"
  rr_last_http_status :: "int option"
  rr_embedded :: "(string \<times> pyval) list option"

definition retry_count :: "reporting_session \<Rightarrow> nat" where
  "retry_count s = (case rs_queue s of [] \<Rightarrow> 0 | i # _ \<Rightarrow> qi_attempts i - 1)"

definition result_of :: "(string \<times> pyval) list option \<Rightarrow> reporting_session \<Rightarrow> reporting_result" where
  "result_of embedded s = \<lparr>rr_status = rs_status s, rr_queue_depth = length (rs_queue s), rr_retry_count = retry_count s,
     rr_next_due_at = rs_next_due_at s, rr_last_http_status = rs_last_http_status s, rr_embedded = embedded\<rparr>"

section \<open>Reading answers\<close>

record split_url =
  su_scheme :: string
  su_hostname :: "string option"
  su_username :: "string option"
  su_password :: "string option"

definition report_url :: "(string \<Rightarrow> split_url option) \<Rightarrow> string \<Rightarrow> pyerr + string option" where
  "report_url urlsplit v = (let text = strip v in
     if text = [] then Inr None
     else (case urlsplit text of
         None \<Rightarrow> Inl ValueError
       | Some u \<Rightarrow> if su_scheme u \<notin> {''http'', ''https''} \<or> su_hostname u \<in> {None, Some []} \<or> su_username u \<noteq> None \<or> su_password u \<noteq> None
           then Inr None else Inr (Some text)))"

text \<open>A JSON value that is not a string never reads as an http URL: its \<open>str\<close> starts with another character.\<close>

definition report_url_of :: "(string \<Rightarrow> split_url option) \<Rightarrow> pyval \<Rightarrow> pyerr + string option" where
  "report_url_of urlsplit v = (case v of VStr s \<Rightarrow> report_url urlsplit s | _ \<Rightarrow> Inr None)"

definition entry :: "(string \<times> pyval) list \<Rightarrow> string \<Rightarrow> pyval" where
  "entry d k = (case map_of d k of None \<Rightarrow> VNone | Some v \<Rightarrow> v)"

definition reporting_link :: "(string \<Rightarrow> split_url option) \<Rightarrow> (string \<times> pyval) list \<Rightarrow> pyerr + string option" where
  "reporting_link urlsplit body = (case entry body ''_links'' of
     VDict links \<Rightarrow>
       (case entry links ''bmx_reporting'' of
          VDict link \<Rightarrow> report_url_of urlsplit (entry link ''href'')
        | v \<Rightarrow> report_url_of urlsplit v)
   | _ \<Rightarrow> Inr None)"

definition embedded_now_playing :: "(string \<times> pyval) list \<Rightarrow> (string \<times> pyval) list option" where
  "embedded_now_playing body = (case entry body ''_embedded'' of
     VDict e \<Rightarrow> (case (if truth (entry e ''bmx_nowplaying'') then entry e ''bmx_nowplaying'' else entry e ''nowPlaying'') of
         VDict d \<Rightarrow> Some d | _ \<Rightarrow> None)
   | _ \<Rightarrow> None)"

text \<open>\<open>ValueError\<close> and \<open>TypeError\<close> are caught; the \<open>OverflowError\<close> of an infinite number is not.\<close>

definition uint32_seconds :: "pyval \<Rightarrow> pyerr + int option" where
  "uint32_seconds v = (let keep = (\<lambda>i. if i \<le> 0 \<or> 2 ^ 32 - 1 < i then None else Some i) in
     case v of
       VNone \<Rightarrow> Inr None
     | VBool _ \<Rightarrow> Inr None
     | _ \<Rightarrow> (case py_int v of Inr i \<Rightarrow> Inr (keep i) | Inl OverflowError \<Rightarrow> Inl OverflowError | Inl _ \<Rightarrow> Inr None))"

section \<open>Session operations\<close>

definition mk_backoff :: "int list \<Rightarrow> pyerr + int list" where
  "mk_backoff seconds = (if length seconds < REPORT_MAX_RETRIES then Inl ValueError else Inr (map (max 0) seconds))"

definition enqueue ::
    "(string \<Rightarrow> split_url option) \<Rightarrow> string \<Rightarrow> report_payload \<Rightarrow> string option \<Rightarrow> int option \<Rightarrow> int \<Rightarrow> (reporting_session, reporting_err, unit) act" where
  "enqueue urlsplit item_id payload url due_at created s =
     (if REPORT_QUEUE_CAPACITY \<le> length (rs_queue s)
      then (Inl ReportingQueueFull, s\<lparr>rs_status := DEGRADED, rs_last_failure := Some ''REPORT_QUEUE_FULL''\<rparr>)
      else (case (case url of None \<Rightarrow> Inr None | Some u \<Rightarrow> report_url urlsplit u) of
          Inl _ \<Rightarrow> (Inl BadReportUrl, s)
        | Inr candidate \<Rightarrow>
            if url \<noteq> None \<and> candidate = None then (Inl BadReportUrl, s)
            else (let item = \<lparr>qi_id = item_id, qi_payload = payload, qi_attempts = 0,
                    qi_due_at = Some (case due_at of None \<Rightarrow> created | Some d \<Rightarrow> d), qi_last_error = None, qi_created_at = created\<rparr>;
                    queue = rs_queue s @ [item]
              in (Inr (), s\<lparr>rs_report_url := (if candidate \<noteq> None then candidate else rs_report_url s), rs_queue := queue,
                    rs_status := QUEUED, rs_next_due_at := qi_due_at (hd queue)\<rparr>))))"

definition update_report_url :: "(string \<Rightarrow> split_url option) \<Rightarrow> string \<Rightarrow> (reporting_session, reporting_err, unit) act" where
  "update_report_url urlsplit url s = (case report_url urlsplit url of
     Inr (Some u) \<Rightarrow>
       (let s1 = s\<lparr>rs_report_url := Some u\<rparr> in
        (Inr (), if rs_last_failure s = Some ''REPORT_URL_REFRESH_REQUIRED''
           then s1\<lparr>rs_last_failure := None, rs_status := (if rs_queue s = [] then IDLE else QUEUED)\<rparr> else s1))
   | _ \<Rightarrow> (Inl BadReportUrl, s))"

definition mark_semantic_error :: "bool \<Rightarrow> reporting_session \<Rightarrow> reporting_session" where
  "mark_semantic_error persistent s = s\<lparr>rs_semantic_persistent_error := persistent, rs_status := DEGRADED,
     rs_last_failure := Some (if persistent then ''PERSISTENT_BMX_ERROR'' else ''TEMPORARY_BMX_ERROR'')\<rparr>"

definition cancel_session :: "bool \<Rightarrow> reporting_session \<Rightarrow> reporting_session" where
  "cancel_session clear_queue s = s\<lparr>rs_generation := rs_generation s + 1, rs_queue := (if clear_queue then [] else rs_queue s),
     rs_status := IDLE, rs_next_due_at := None\<rparr>"

definition restore :: "reporting_session \<Rightarrow> reporting_session" where
  "restore s = (if rs_queue s \<noteq> [] \<and> rs_status s = IDLE then s\<lparr>rs_status := QUEUED\<rparr> else s)"

text \<open>What other coroutines can do to a session while an answer is awaited.\<close>

datatype reporting_op = Enqueue string report_payload "string option" "int option" int | UpdateUrl string | SemanticError bool | Cancel bool

fun session_step :: "(string \<Rightarrow> split_url option) \<Rightarrow> reporting_op \<Rightarrow> reporting_session \<Rightarrow> reporting_session" where
  "session_step us (Enqueue i p u d c) s = snd (enqueue us i p u d c s)"
| "session_step us (UpdateUrl u) s = snd (update_report_url us u s)"
| "session_step us (SemanticError p) s = mark_semantic_error p s"
| "session_step us (Cancel c) s = cancel_session c s"

section \<open>Delivery\<close>

datatype answer = Answer int "pyval option" | TransportError string

definition body_of :: "pyval option \<Rightarrow> (string \<times> pyval) list" where
  "body_of v = (case v of Some (VDict d) \<Rightarrow> d | _ \<Rightarrow> [])"

definition err_name :: "pyerr \<Rightarrow> string" where
  "err_name e = (case e of ValueError \<Rightarrow> ''ValueError'' | OverflowError \<Rightarrow> ''OverflowError'' | TypeError \<Rightarrow> ''TypeError''
     | KeyError \<Rightarrow> ''KeyError'' | RuntimeError \<Rightarrow> ''RuntimeError'' | StopIteration \<Rightarrow> ''StopIteration'' | AssertionError \<Rightarrow> ''AssertionError'')"

text \<open>
  The head of the queue, materialized when a timed report is due, with the session it leaves;
  or the session that only waits.
\<close>

definition timed_item :: "string \<Rightarrow> int \<Rightarrow> queue_item" where
  "timed_item item_id observed = \<lparr>qi_id = item_id, qi_payload = \<lparr>rp_timeStamp = observed, rp_eventType = ''timed'', rp_reason = [],
     rp_timeIntoTrack = 0, rp_playbackDelay = 0, rp_absolutePlayPoint = [], rp_reasonSubCode = []\<rparr>, qi_attempts = 0,
     qi_due_at = Some observed, qi_last_error = None, qi_created_at = observed\<rparr>"

definition due_item :: "string \<Rightarrow> int \<Rightarrow> reporting_session \<Rightarrow> reporting_session + queue_item \<times> reporting_session" where
  "due_item timed_id observed s =
     (let s1 = (if rs_queue s = [] \<and> (case rs_next_due_at s of None \<Rightarrow> False | Some d \<Rightarrow> d \<le> observed)
               then s\<lparr>rs_queue := [timed_item timed_id observed], rs_status := QUEUED\<rparr> else s)
      in case rs_queue s1 of
           [] \<Rightarrow> Inl (s\<lparr>rs_status := IDLE\<rparr>)
         | item # _ \<Rightarrow>
             if (case qi_due_at item of None \<Rightarrow> False | Some d \<Rightarrow> observed < d)
             then Inl (s1\<lparr>rs_status := (if qi_attempts item = 0 then QUEUED else RETRY_WAIT), rs_next_due_at := qi_due_at item\<rparr>)
             else if rs_report_url s1 \<in> {None, Some []}
             then Inl (s1\<lparr>rs_status := FAILED, rs_last_failure := Some ''REPORT_URL_MISSING''\<rparr>)
             else Inr (item, s1))"

text \<open>
  The code after a status of 200. It either completes, or an exception leaves the session as it
  was changed so far; the flag says whether the head had already been taken off the queue.
\<close>

definition accepted ::
    "(string \<Rightarrow> split_url option) \<Rightarrow> int \<Rightarrow> reporting_status \<Rightarrow> nat \<Rightarrow> (string \<times> pyval) list \<Rightarrow> reporting_session \<Rightarrow>
     (pyerr \<times> bool \<times> reporting_session) + reporting_session" where
  "accepted urlsplit observed previous attempts body s = (case reporting_link urlsplit body of
     Inl e \<Rightarrow> Inl (e, False, s)
   | Inr replacement \<Rightarrow>
       (let s1 = s\<lparr>rs_report_url := (if replacement \<in> {None, Some []} then rs_report_url s else replacement), rs_queue := tl (rs_queue s),
              rs_last_success_at := Some observed, rs_last_failure := None, rs_semantic_persistent_error := False,
              rs_status := (if previous \<in> {RETRY_WAIT, DEGRADED, FAILED} \<or> 1 < attempts then RECOVERED else SUCCESS)\<rparr>
        in case uint32_seconds (entry body ''nextReportIn'') of
             Inl e \<Rightarrow> Inl (e, True, s1)
           | Inr hint \<Rightarrow>
               Inr (case rs_queue s1 of
                   [] \<Rightarrow> s1\<lparr>rs_next_due_at := map_option (\<lambda>h. observed + h * 1000000) hint\<rparr>
                 | i # is \<Rightarrow> (let i' = i\<lparr>qi_due_at := (case qi_due_at i of None \<Rightarrow> Some observed | d \<Rightarrow> d)\<rparr>
                     in s1\<lparr>rs_queue := i' # is, rs_next_due_at := qi_due_at i'\<rparr>))))"

text \<open>
  A failed attempt of \<open>item\<close>; \<open>popped\<close> says that it is no longer the head of the queue. On the last
  attempt the code pops the head, whatever it is.
\<close>

definition failed_attempt ::
    "int list \<Rightarrow> int \<Rightarrow> string \<Rightarrow> bool \<Rightarrow> queue_item \<Rightarrow> (reporting_session, reporting_err, reporting_result) act" where
  "failed_attempt backoff observed failure popped item s =
     (let item1 = item\<lparr>qi_last_error := Some failure\<rparr>;
          put = (\<lambda>it q. if popped then q else it # tl q);
          s1 = s\<lparr>rs_last_failure := Some failure, rs_queue := put item1 (rs_queue s)\<rparr>
      in if REPORT_MAX_ATTEMPTS \<le> qi_attempts item
         then (case rs_queue s1 of
             [] \<Rightarrow> (Inl IndexError, s1)
           | _ # rest \<Rightarrow> (let s2 = s1\<lparr>rs_queue := rest, rs_status := FAILED,
                 rs_next_due_at := (case rest of [] \<Rightarrow> None | i # _ \<Rightarrow> qi_due_at i)\<rparr> in (Inr (result_of None s2), s2)))
         else (let due = Some (observed + (backoff ! (qi_attempts item - 1)) * 1000000);
                   s2 = s1\<lparr>rs_queue := put (item1\<lparr>qi_due_at := due\<rparr>) (rs_queue s1), rs_status := RETRY_WAIT, rs_next_due_at := due\<rparr>
               in (Inr (result_of None s2), s2)))"

text \<open>
  \<open>process_due\<close>. The attempt is counted before the request is sent; an answer is only used if no
  cancellation happened in the meantime, a transport error always. \<open>item\<close> stays the head of the
  queue unless a cancellation cleared the queue.
\<close>

definition process_due ::
    "(string \<Rightarrow> split_url option) \<Rightarrow> int list \<Rightarrow> string \<Rightarrow> int \<Rightarrow> reporting_op list \<Rightarrow> answer \<Rightarrow> (reporting_session, reporting_err, reporting_result) act" where
  "process_due urlsplit backoff timed_id observed meanwhile answer s = (case due_item timed_id observed s of
     Inl s1 \<Rightarrow> (Inr (result_of None s1), s1)
   | Inr (item0, s1) \<Rightarrow>
       (let item = item0\<lparr>qi_attempts := qi_attempts item0 + 1\<rparr>;
            s2 = s1\<lparr>rs_status := SENDING, rs_queue := item # tl (rs_queue s1)\<rparr>;
            s3 = fold (session_step urlsplit) meanwhile s2
        in case answer of
             TransportError name \<Rightarrow>
               failed_attempt backoff observed (''TRANSPORT_'' @ name) (Cancel True \<in> set meanwhile) item (s3\<lparr>rs_last_http_status := None\<rparr>)
           | Answer status json \<Rightarrow>
               if rs_generation s3 \<noteq> rs_generation s1 then (Inl ReportingCancelled, s3)
               else (let s4 = s3\<lparr>rs_last_http_status := Some status\<rparr> in
                 if status = 200
                 then (case accepted urlsplit observed (rs_status s1) (qi_attempts item) (body_of json) s4 of
                     Inr s5 \<Rightarrow> (Inr (result_of (embedded_now_playing (body_of json)) s5), s5)
                   | Inl (e, popped, s5) \<Rightarrow>
                       failed_attempt backoff observed (''TRANSPORT_'' @ err_name e) popped item (s5\<lparr>rs_last_http_status := None\<rparr>))
                 else failed_attempt backoff observed (''HTTP_'' @ digits_of_nat (nat status)) False item s4)))"

end
