(* ===== verification/ReportingProperties.thy ===== *)
theory ReportingProperties
  imports Reporting
begin

text \<open>Properties of report delivery.\<close>

section \<open>The queue invariant\<close>

definition queue_ok :: "reporting_session \<Rightarrow> bool" where
  "queue_ok s = (length (rs_queue s) \<le> REPORT_QUEUE_CAPACITY \<and> list_all (\<lambda>i. qi_attempts i < REPORT_MAX_ATTEMPTS) (rs_queue s) \<and>
     list_all (\<lambda>i. qi_attempts i = 0) (tl (rs_queue s)))"

fun no_cancel :: "reporting_op \<Rightarrow> bool" where
  "no_cancel (Cancel _) = False"
| "no_cancel _ = True"

text \<open>While an answer is awaited without cancellation, the queue only grows at its end, and not past its capacity.\<close>

lemma step_appends:
  assumes "no_cancel op" "rs_queue s \<noteq> []" "length (rs_queue s) \<le> REPORT_QUEUE_CAPACITY"
  shows "\<exists>new. rs_queue (session_step us op s) = rs_queue s @ new \<and> list_all (\<lambda>i. qi_attempts i = 0) new \<and>
    length (rs_queue s @ new) \<le> REPORT_QUEUE_CAPACITY \<and> rs_generation (session_step us op s) = rs_generation s"
  using assms
  by (cases op) (auto simp: enqueue_def update_report_url_def mark_semantic_error_def Let_def split: option.splits sum.splits if_splits)

lemma meanwhile_appends:
  assumes "list_all no_cancel ops" "rs_queue s \<noteq> []" "length (rs_queue s) \<le> REPORT_QUEUE_CAPACITY"
  shows "\<exists>new. rs_queue (fold (session_step us) ops s) = rs_queue s @ new \<and> list_all (\<lambda>i. qi_attempts i = 0) new \<and>
    length (rs_queue s @ new) \<le> REPORT_QUEUE_CAPACITY \<and> rs_generation (fold (session_step us) ops s) = rs_generation s"
  using assms
proof (induction ops arbitrary: s)
  case (Cons op ops)
  obtain a where a: "rs_queue (session_step us op s) = rs_queue s @ a" "list_all (\<lambda>i. qi_attempts i = 0) a"
      "length (rs_queue s @ a) \<le> REPORT_QUEUE_CAPACITY" "rs_generation (session_step us op s) = rs_generation s"
    using step_appends [of op s us] Cons.prems by auto
  obtain c where c: "rs_queue (fold (session_step us) ops (session_step us op s)) = rs_queue (session_step us op s) @ c"
      "list_all (\<lambda>i. qi_attempts i = 0) c" "length (rs_queue (session_step us op s) @ c) \<le> REPORT_QUEUE_CAPACITY"
      "rs_generation (fold (session_step us) ops (session_step us op s)) = rs_generation (session_step us op s)"
    using Cons.IH [of "session_step us op s"] Cons.prems a by auto
  show ?case by (rule exI [of _ "a @ c"]) (use a c in auto)
qed simp

lemma due_item_Inr:
  assumes "due_item tid ob s = Inr (item, s1)"
  shows "rs_queue s1 \<noteq> []" "item = hd (rs_queue s1)" "rs_queue s1 = (if rs_queue s = [] then [timed_item tid ob] else rs_queue s)"
    "rs_generation s1 = rs_generation s"
  using assms by (auto simp: due_item_def Let_def split: list.splits option.splits if_splits)

lemma due_item_Inl: "due_item tid ob s = Inl s1 \<Longrightarrow> rs_queue s1 = rs_queue s \<or> (rs_queue s = [] \<and> rs_queue s1 = [timed_item tid ob])"
  by (auto simp: due_item_def Let_def split: list.splits option.splits if_splits)

text \<open>The three ways a delivery can leave the queue it found, \<open>tried\<close> being the head with its new attempt.\<close>

lemma failed_queue:
  assumes "failed_attempt bk ob f False item s = (r, s')" "rs_queue s \<noteq> []"
  shows "if REPORT_MAX_ATTEMPTS \<le> qi_attempts item then rs_queue s' = tl (rs_queue s)
    else (\<exists>i. qi_attempts i = qi_attempts item \<and> qi_id i = qi_id item \<and> rs_queue s' = i # tl (rs_queue s))"
  using assms by (auto simp: failed_attempt_def Let_def split: if_splits)

lemma accepted_queue:
  assumes "accepted us ob pr n body s = Inr s'"
  shows "map qi_id (rs_queue s') = map qi_id (tl (rs_queue s)) \<and> map qi_attempts (rs_queue s') = map qi_attempts (tl (rs_queue s))"
  using assms by (auto simp: accepted_def Let_def split: sum.splits list.splits)

lemma accepted_raises: "accepted us ob pr n body s = Inl (e, popped, s') \<Longrightarrow> \<not> popped \<Longrightarrow> rs_queue s' = rs_queue s"
  by (auto simp: accepted_def Let_def split: sum.splits list.splits)

lemma uint32_overflow: "uint32_seconds v = Inl e \<Longrightarrow> v = VFloat Infinite"
proof (cases v)
  case (VFloat f)
  then show "uint32_seconds v = Inl e \<Longrightarrow> ?thesis" by (cases f) (auto simp: uint32_seconds_def Let_def)
qed (auto simp: uint32_seconds_def Let_def split: option.splits)

lemma accepted_overflow: "accepted us ob pr n body s = Inl (e, True, s') \<Longrightarrow> entry body ''nextReportIn'' = VFloat Infinite"
  by (auto simp: accepted_def Let_def dest: uint32_overflow split: sum.splits list.splits)

definition finite_hint :: "answer \<Rightarrow> bool" where
  "finite_hint a = (case a of Answer _ json \<Rightarrow> entry (body_of json) ''nextReportIn'' \<noteq> VFloat Infinite | TransportError _ \<Rightarrow> True)"

definition head_removed :: "reporting_session \<Rightarrow> queue_item list \<Rightarrow> reporting_session \<Rightarrow> bool" where
  "head_removed s new s' = (map qi_id (rs_queue s') = map qi_id (tl (rs_queue s) @ new) \<and>
     map qi_attempts (rs_queue s') = map qi_attempts (tl (rs_queue s) @ new))"

definition head_kept :: "queue_item \<Rightarrow> reporting_session \<Rightarrow> queue_item list \<Rightarrow> reporting_session \<Rightarrow> bool" where
  "head_kept item s new s' = (map qi_id (rs_queue s') = map qi_id (rs_queue s @ new) \<and>
     map qi_attempts (rs_queue s') = (qi_attempts item + 1) # map qi_attempts (tl (rs_queue s) @ new))"

lemma delivery_queue:
  assumes "process_due us bk tid ob ops a s = (r, s')" "due_item tid ob s = Inr (item, s1)" "list_all no_cancel ops" "finite_hint a" "queue_ok s"
  shows "\<exists>new. list_all (\<lambda>i. qi_attempts i = 0) new \<and> length (rs_queue s1 @ new) \<le> REPORT_QUEUE_CAPACITY \<and> (ops = [] \<longrightarrow> new = []) \<and>
    (head_removed s1 new s' \<and> ((\<exists>j. a = Answer 200 j) \<or> REPORT_MAX_ATTEMPTS \<le> qi_attempts item + 1) \<or>
     head_kept item s1 new s' \<and> qi_attempts item + 1 < REPORT_MAX_ATTEMPTS)"
proof -
  let ?item = "item\<lparr>qi_attempts := qi_attempts item + 1\<rparr>"
  define s2 where "s2 = s1\<lparr>rs_status := SENDING, rs_queue := ?item # tl (rs_queue s1)\<rparr>"
  define s3 where "s3 = fold (session_step us) ops s2"
  note di = due_item_Inr [OF assms(2)]
  have len: "length (rs_queue s2) \<le> REPORT_QUEUE_CAPACITY" "length (rs_queue s2) = length (rs_queue s1)"
    using assms(5) di by (cases "rs_queue s1"; auto simp: s2_def queue_ok_def REPORT_QUEUE_CAPACITY_def)+
  obtain new where new: "rs_queue s3 = (?item # tl (rs_queue s1)) @ new" "list_all (\<lambda>i. qi_attempts i = 0) new"
      "length (rs_queue s2 @ new) \<le> REPORT_QUEUE_CAPACITY" "rs_generation s3 = rs_generation s1"
    using meanwhile_appends [OF assms(3), of s2 us] len(1) by (auto simp: s2_def s3_def)
  have alone: "ops = [] \<longrightarrow> new = []" using new(1) by (auto simp: s3_def s2_def)
  have nc: "Cancel True \<notin> set ops" using assms(3) by (auto simp: list_all_iff)
  have res: "(r, s') = (case a of
      TransportError name \<Rightarrow> failed_attempt bk ob (''TRANSPORT_'' @ name) False ?item (s3\<lparr>rs_last_http_status := None\<rparr>)
    | Answer status json \<Rightarrow> (let s4 = s3\<lparr>rs_last_http_status := Some status\<rparr> in
        if status = 200
        then (case accepted us ob (rs_status s1) (qi_attempts ?item) (body_of json) s4 of
            Inr s5 \<Rightarrow> (Inr (result_of (embedded_now_playing (body_of json)) s5), s5)
          | Inl (e, popped, s5) \<Rightarrow> failed_attempt bk ob (''TRANSPORT_'' @ err_name e) popped ?item (s5\<lparr>rs_last_http_status := None\<rparr>))
        else failed_attempt bk ob (''HTTP_'' @ digits_of_nat (nat status)) False ?item s4))"
    unfolding assms(1) [symmetric] using assms(2) new(4) nc by (cases a) (simp_all add: process_due_def Let_def s2_def s3_def split: sum.splits prod.splits)
  have q1: "rs_queue s1 = item # tl (rs_queue s1)" using di(1,2) by (cases "rs_queue s1") auto
  have failed: ?thesis if "failed_attempt bk ob f False ?item t = (r, s')" "rs_queue t = rs_queue s3" for f t
  proof -
    have "map qi_id (rs_queue s1 @ new) = qi_id item # map qi_id (tl (rs_queue s1) @ new)" by (subst q1) simp
    then show ?thesis using failed_queue [OF that(1)] that(2) new len(2) alone
      by (intro exI [of _ new]) (auto simp: head_removed_def head_kept_def split: if_splits)
  qed
  show ?thesis
  proof (cases a)
    case (TransportError name)
    then show ?thesis using res failed by simp
  next
    case (Answer status json)
    show ?thesis
    proof (cases "status = 200")
      case False
      then show ?thesis using res Answer
        by (intro failed [where t = "s3\<lparr>rs_last_http_status := Some status\<rparr>" and f = "''HTTP_'' @ digits_of_nat (nat status)"]) (auto simp: Let_def)
    next
      case ok: True
      let ?acc = "accepted us ob (rs_status s1) (qi_attempts ?item) (body_of json) (s3\<lparr>rs_last_http_status := Some status\<rparr>)"
      show ?thesis
      proof (cases ?acc)
        case (Inr s5)
        then have "s' = s5" using res Answer ok by simp
        then show ?thesis using accepted_queue [OF Inr] new len(2) alone Answer ok by (intro exI [of _ new]) (simp add: head_removed_def)
      next
        case (Inl x)
        obtain e popped s5 where x: "x = (e, popped, s5)" by (cases x)
        have np: "\<not> popped" using accepted_overflow Inl x assms(4) Answer by (auto simp: finite_hint_def)
        then have "rs_queue s5 = rs_queue s3" using accepted_raises Inl x by fastforce
        then show ?thesis using res Answer ok Inl x np by (intro failed [where t = "s5\<lparr>rs_last_http_status := None\<rparr>"]) auto
      qed
    qed
  qed
qed


section \<open>Runs\<close>

datatype reporting_event = Do reporting_op | Deliver string int "reporting_op list" answer

fun reporting_step :: "(string \<Rightarrow> split_url option) \<Rightarrow> int list \<Rightarrow> reporting_event \<Rightarrow> reporting_session \<Rightarrow> reporting_session" where
  "reporting_step us bk (Do op) s = session_step us op s"
| "reporting_step us bk (Deliver tid ob ops a) s = snd (process_due us bk tid ob ops a s)"

text \<open>No cancellation while an answer is awaited, and no infinite hint in an answer.\<close>

fun regular :: "reporting_event \<Rightarrow> bool" where
  "regular (Do _) = True"
| "regular (Deliver _ _ ops a) = (list_all no_cancel ops \<and> finite_hint a)"

lemma queue_ok_by_maps:
  "queue_ok s \<longleftrightarrow> length (map qi_attempts (rs_queue s)) \<le> REPORT_QUEUE_CAPACITY \<and> list_all (\<lambda>n. n < REPORT_MAX_ATTEMPTS) (map qi_attempts (rs_queue s)) \<and>
     list_all (\<lambda>n. n = 0) (tl (map qi_attempts (rs_queue s)))"
  by (simp add: queue_ok_def list_all_iff map_tl [symmetric])

lemma due_queue_ok: "due_item tid ob s = Inr (item, s1) \<Longrightarrow> queue_ok s \<Longrightarrow> queue_ok s1"
  using due_item_Inr(3) [of tid ob s item s1]
  by (auto simp: queue_ok_def timed_item_def REPORT_QUEUE_CAPACITY_def REPORT_MAX_ATTEMPTS_def)

lemma session_step_ok: "queue_ok s \<Longrightarrow> queue_ok (session_step us op s)"
proof (cases "rs_queue s")
  case Nil
  then show ?thesis
    by (cases op) (auto simp: queue_ok_def enqueue_def update_report_url_def mark_semantic_error_def cancel_session_def Let_def
      REPORT_QUEUE_CAPACITY_def REPORT_MAX_ATTEMPTS_def split: option.splits sum.splits if_splits)
next
  case (Cons i rest)
  assume ok: "queue_ok s"
  show ?thesis
  proof (cases "no_cancel op")
    case True
    then obtain new where "rs_queue (session_step us op s) = rs_queue s @ new" "list_all (\<lambda>i. qi_attempts i = 0) new"
        "length (rs_queue s @ new) \<le> REPORT_QUEUE_CAPACITY"
      using step_appends [of op s us] Cons ok by (auto simp: queue_ok_def)
    then show ?thesis using ok Cons by (auto simp: queue_ok_def list_all_iff REPORT_MAX_ATTEMPTS_def)
  next
    case False
    then show ?thesis using ok by (cases op) (auto simp: queue_ok_def cancel_session_def)
  qed
qed

lemma zeros: "list_all (\<lambda>n. n = 0) xs \<Longrightarrow> list_all (\<lambda>n. n < REPORT_MAX_ATTEMPTS) xs \<and> list_all (\<lambda>n. n = 0) (tl xs)"
  by (cases xs) (auto simp: list_all_iff REPORT_MAX_ATTEMPTS_def)

lemma delivery_ok:
  assumes "queue_ok s" "list_all no_cancel ops" "finite_hint a"
  shows "queue_ok (snd (process_due us bk tid ob ops a s))"
proof (cases "due_item tid ob s")
  case (Inl s1)
  then show ?thesis using due_item_Inl [OF Inl] assms(1)
    by (auto simp: process_due_def queue_ok_def timed_item_def REPORT_QUEUE_CAPACITY_def REPORT_MAX_ATTEMPTS_def)
next
  case (Inr x)
  obtain item s1 where x: "x = (item, s1)" by (cases x)
  obtain r s' where p: "process_due us bk tid ob ops a s = (r, s')" by fastforce
  have ok: "queue_ok s1" using due_queue_ok [OF Inr [unfolded x] assms(1)] .
  have q1: "rs_queue s1 \<noteq> []" using due_item_Inr(1) [OF Inr [unfolded x]] .
  obtain new where new: "list_all (\<lambda>i. qi_attempts i = 0) new" "length (rs_queue s1 @ new) \<le> REPORT_QUEUE_CAPACITY"
      "head_removed s1 new s' \<or> head_kept item s1 new s' \<and> qi_attempts item + 1 < REPORT_MAX_ATTEMPTS"
    using delivery_queue [OF p Inr [unfolded x] assms(2,3,1)] by blast
  have z: "list_all (\<lambda>n. n = 0) (map qi_attempts (tl (rs_queue s1) @ new))" using ok new(1) by (auto simp: queue_ok_def list_all_iff)
  have "length (map qi_attempts (tl (rs_queue s1) @ new)) < REPORT_QUEUE_CAPACITY" using new(2) q1 by (cases "rs_queue s1") auto
  then have "length (map qi_attempts (rs_queue s')) \<le> REPORT_QUEUE_CAPACITY \<and> list_all (\<lambda>n. n < REPORT_MAX_ATTEMPTS) (map qi_attempts (rs_queue s')) \<and>
      list_all (\<lambda>n. n = 0) (tl (map qi_attempts (rs_queue s')))"
    using new(3)
  proof (elim disjE conjE)
    assume hr: "head_removed s1 new s'"
      and l: "length (map qi_attempts (tl (rs_queue s1) @ new)) < REPORT_QUEUE_CAPACITY"
    have eq: "map qi_attempts (rs_queue s') = map qi_attempts (tl (rs_queue s1) @ new)" using hr by (simp add: head_removed_def)
    show ?thesis unfolding eq using less_imp_le [OF l] zeros [OF z] by (intro conjI) blast+
  next
    assume hk: "head_kept item s1 new s'"
      and l: "length (map qi_attempts (tl (rs_queue s1) @ new)) < REPORT_QUEUE_CAPACITY" "qi_attempts item + 1 < REPORT_MAX_ATTEMPTS"
    have eq: "map qi_attempts (rs_queue s') = (qi_attempts item + 1) # map qi_attempts (tl (rs_queue s1) @ new)" using hk by (simp add: head_kept_def)
    have "length ((qi_attempts item + 1) # xs) \<le> REPORT_QUEUE_CAPACITY" if "length xs < REPORT_QUEUE_CAPACITY" for xs using that by simp
    then show ?thesis unfolding eq list.pred_inject list.sel using l zeros [OF z] z by blast
  qed
  then have "queue_ok s'" unfolding queue_ok_by_maps .
  then show ?thesis by (simp add: p)
qed

section \<open>Properties\<close>

text \<open>What is left to try: every report counts its remaining attempts.\<close>

definition pending_attempts :: "reporting_session \<Rightarrow> nat" where
  "pending_attempts s = sum_list (map (\<lambda>i. REPORT_MAX_ATTEMPTS - qi_attempts i) (rs_queue s))"



definition example_payload :: report_payload where
  "example_payload = \<lparr>rp_timeStamp = 5, rp_eventType = ''play'', rp_reason = [], rp_timeIntoTrack = 0, rp_playbackDelay = 0,
     rp_absolutePlayPoint = [], rp_reasonSubCode = []\<rparr>"

definition example_split :: "string \<Rightarrow> split_url option" where
  "example_split u = Some \<lparr>su_scheme = ''https'', su_hostname = Some ''h'', su_username = None, su_password = None\<rparr>"

definition example_events :: "reporting_event list" where
  "example_events = [Do (Enqueue ''a'' example_payload (Some ''https://h/r'') None 5), Do (Enqueue ''b'' example_payload None None 6)]"

definition example_reporting :: reporting_session where
  "example_reporting = fold (reporting_step example_split [5, 15, 60, 300, 900]) example_events new_session"


text \<open>
  An infinite hint loses reports. JSON answers may carry an infinite number. When an accepted
  report's answer has one in \<open>nextReportIn\<close>, the exception is raised after the report was taken off
  the queue and its success noted: the session is left waiting to retry a report that is gone, and
  on the sixth attempt the next report is dropped although it was never sent; with no next report
  an \<open>IndexError\<close> escapes.
\<close>

lemma infinite_hint_drops_reports:
  assumes "due_item tid ob s = Inr (item, s)" "rs_queue s = item # rest"
  shows "(let (r, s') = process_due us bk tid ob [] (Answer 200 (Some (VDict [(''nextReportIn'', VFloat Infinite)]))) s in
     rs_last_success_at s' = Some ob \<and> rs_last_failure s' = Some ''TRANSPORT_OverflowError'' \<and>
     (if qi_attempts item + 1 < REPORT_MAX_ATTEMPTS then rs_queue s' = rest \<and> rs_status s' = RETRY_WAIT
      else rs_queue s' = tl rest \<and> (rest = [] \<longrightarrow> r = Inl IndexError)))"
  using assms
  by (cases rest) (auto simp: process_due_def Let_def accepted_def body_of_def reporting_link_def entry_def uint32_seconds_def
      failed_attempt_def err_name_def)

end
