(* ===== verification/DevicePolicy.thy ===== *)
theory DevicePolicy
  imports Prelude
begin

text \<open>
  The interaction policy of a device (app/services/device_policy.py): its class from override and
  model text, its circuit state from failures and the retry time, and what background work may do
  to it. A dictionary value is a \<open>pyval\<close>; \<open>parse_time\<close> is \<open>datetime.fromisoformat\<close> as the code wraps
  it. The retry time of a policy is kept as an instant instead of its ISO text.
\<close>

section \<open>Data\<close>

datatype device_class = PORTABLE | STATIONARY | UNKNOWN_CLASS
datatype safe_mode = SM_AUTO | SM_ALWAYS | SM_DISABLED
datatype polling_profile = PP_AUTO | ACTIVE_PLAYBACK | IDLE_ONLINE | STANDBY_PROFILE | PORTABLE_BATTERY | OFFLINE_BACKOFF | SETUP_PROFILE | MANUAL_DIAGNOSTICS
datatype circuit = CLOSED | HALF_OPEN | OPEN

record device =
  de_id :: string
  de_model :: string
  de_name :: string
  de_info_xml :: string
  de_capabilities_xml :: string
  de_class_override :: string
  de_safe_mode :: string
  de_profile_override :: string
  de_failure_count :: pyval
  de_reachable :: bool
  de_auto_restore_allowed :: "bool option"
  de_battery_poll_allowed :: bool
  de_maintenance_actions_allowed :: bool

record runtime_state =
  ru_consecutive_failures :: pyval
  ru_failure_count :: pyval
  ru_next_retry_at :: pyval
  ru_current_source :: string
  ru_playback_state :: string
  ru_play_status :: string

record capabilities =
  ca_battery :: bool
  ca_multiroom :: "bool option"
  ca_clock_display :: "bool option"
  ca_source :: string

record policy =
  po_device_id :: string
  po_device_class :: device_class
  po_safe_mode_active :: bool
  po_safe_mode_setting :: safe_mode
  po_polling_profile :: polling_profile
  po_circuit :: circuit
  po_failure_count :: int
  po_backoff_seconds :: int
  po_next_retry_at :: "int option"
  po_allow_auto_wakeup :: bool
  po_allow_automatic_power_key :: bool
  po_allow_preset_restore :: bool
  po_allow_invalid_source_recovery :: bool
  po_allow_battery_poll :: bool
  po_allow_maintenance_actions :: bool
  po_low_risk_probe_interval_seconds :: int
  po_skip_reason :: string
  po_suspected_state :: string
  po_capabilities :: capabilities

record poll_decision =
  pd_allowed :: bool
  pd_profile :: polling_profile
  pd_reason :: string
  pd_low_risk_only :: bool

section \<open>Reading settings\<close>

definition clean :: "string \<Rightarrow> string \<Rightarrow> string" where
  "clean v fallback = (let text = lower (strip v) in if text = [] then fallback else text)"

definition parse_safe_mode :: "string \<Rightarrow> safe_mode" where
  "parse_safe_mode v = (let text = clean v ''auto'' in
     if text \<in> {''true'', ''on'', ''always_on'', ''forced''} then SM_ALWAYS
     else if text \<in> {''false'', ''off'', ''never''} then SM_DISABLED
     else if text = ''always'' then SM_ALWAYS else if text = ''disabled'' then SM_DISABLED else SM_AUTO)"

definition PROFILES :: "(string \<times> polling_profile) list" where
  "PROFILES = [(''auto'', PP_AUTO), (''active_playback'', ACTIVE_PLAYBACK), (''idle_online'', IDLE_ONLINE), (''standby'', STANDBY_PROFILE),
     (''portable_battery'', PORTABLE_BATTERY), (''offline_backoff'', OFFLINE_BACKOFF), (''setup'', SETUP_PROFILE),
     (''manual_diagnostics'', MANUAL_DIAGNOSTICS)]"

definition parse_profile :: "string \<Rightarrow> polling_profile" where
  "parse_profile v = (case map_of PROFILES (clean v ''auto'') of None \<Rightarrow> PP_AUTO | Some p \<Rightarrow> p)"

fun join_words :: "string list \<Rightarrow> string" where
  "join_words [] = []"
| "join_words [w] = w"
| "join_words (w # ws) = w @ '' '' @ join_words ws"

definition combined_device_text :: "device \<Rightarrow> string" where
  "combined_device_text d = lower (join_words (filter (\<lambda>p. p \<noteq> []) [de_model d, de_name d, de_info_xml d, de_capabilities_xml d]))"

definition mentions :: "string list \<Rightarrow> string \<Rightarrow> bool" where
  "mentions tokens text = list_ex (\<lambda>t. contains_text t text) tokens"

definition STATIONARY_TOKENS :: "string list" where
  "STATIONARY_TOKENS = [''soundtouch 10'', ''soundtouch 20'', ''soundtouch 30'', ''soundtouch 300'', ''wave soundtouch'',
     ''soundtouch wireless link'', ''soundtouch sa-'', ''cinemate'', ''lifestyle'', ''st10'', ''st20'', ''st30'', ''rhino'', ''spotty'',
     ''mojo'', ''ginger'', ''burns'', ''lisa'']"

definition classify_device :: "device \<Rightarrow> device_class" where
  "classify_device d = (let override = clean (de_class_override d) ''auto''; text = combined_device_text d in
     if override = ''portable'' then PORTABLE
     else if override \<in> {''stationary'', ''fixed''} then STATIONARY
     else if override = ''unknown'' then UNKNOWN_CLASS
     else if mentions [''soundtouch portable'', ''portable'', ''taigan''] text then PORTABLE
     else if mentions STATIONARY_TOKENS text then STATIONARY
     else UNKNOWN_CLASS)"

definition capabilities_for_device :: "device \<Rightarrow> device_class \<Rightarrow> capabilities" where
  "capabilities_for_device d cls = \<lparr>ca_battery = False, ca_multiroom = (if cls = UNKNOWN_CLASS then None else Some True),
     ca_clock_display = (if mentions [''portable'', ''soundtouch 20'', ''soundtouch 30'', ''wave''] (combined_device_text d) then Some True else None),
     ca_source = (if cls \<noteq> UNKNOWN_CLASS then ''model_library'' else ''unknown'')\<rparr>"

section \<open>Failures and circuit\<close>

text \<open>\<open>int(value or 0)\<close> with \<open>TypeError\<close> and \<open>ValueError\<close> read as zero; an infinite value raises.\<close>

definition parsed_failures :: "pyval \<Rightarrow> pyerr + int" where
  "parsed_failures v = (case py_int (if truth v then v else VInt 0) of
     Inr i \<Rightarrow> Inr i | Inl OverflowError \<Rightarrow> Inl OverflowError | Inl _ \<Rightarrow> Inr 0)"

definition failures :: "device \<Rightarrow> runtime_state \<Rightarrow> pyerr + int" where
  "failures d ru = rbind (rmap parsed_failures [ru_consecutive_failures ru, ru_failure_count ru, de_failure_count d]) (\<lambda>xs. Inr (foldr max (tl xs) (hd xs)))"

definition recommended_backoff_seconds :: "int \<Rightarrow> int" where
  "recommended_backoff_seconds n = (if n \<le> 0 then 0 else [0, 0, 5 * 60, 15 * 60, 30 * 60, 60 * 60] ! nat (min (n - 1) 5))"

definition circuit_state :: "int \<Rightarrow> int option \<Rightarrow> int \<Rightarrow> circuit" where
  "circuit_state n retry now =
     (if 5 \<le> n then (case retry of Some t \<Rightarrow> if t \<le> now then HALF_OPEN else OPEN | None \<Rightarrow> OPEN)
      else if 0 < n then HALF_OPEN else CLOSED)"

definition runtime_profile :: "device \<Rightarrow> runtime_state \<Rightarrow> circuit \<Rightarrow> polling_profile" where
  "runtime_profile d ru c = (let override = parse_profile (de_profile_override d);
       source = upper (ru_current_source ru);
       state = upper (if ru_playback_state ru \<noteq> [] then ru_playback_state ru else ru_play_status ru)
     in if override \<noteq> PP_AUTO then override
        else if c = OPEN then OFFLINE_BACKOFF
        else if source = ''STANDBY'' then STANDBY_PROFILE
        else if state = ''PLAY_STATE'' \<and> source \<notin> {[], ''STANDBY'', ''INVALID_SOURCE''} then ACTIVE_PLAYBACK
        else if de_reachable d then IDLE_ONLINE else OFFLINE_BACKOFF)"

section \<open>The policy\<close>

definition policy_for_device :: "(pyval \<Rightarrow> int option) \<Rightarrow> int \<Rightarrow> device \<Rightarrow> runtime_state \<Rightarrow> int \<Rightarrow> pyerr + policy" where
  "policy_for_device parse_time low_risk_interval d ru now = rbind (failures d ru) (\<lambda>n.
     (let cls = classify_device d; setting = parse_safe_mode (de_safe_mode d);
          retry0 = (if truth (ru_next_retry_at ru) then parse_time (ru_next_retry_at ru) else None);
          c = circuit_state n retry0 now;
          safe = (setting = SM_ALWAYS \<or> (setting = SM_AUTO \<and> c = OPEN));
          retry = (if c = OPEN \<and> retry0 = None then Some (now + recommended_backoff_seconds (max n 1) * 1000000) else retry0);
          caps = capabilities_for_device d cls;
          wake = (\<not> safe \<and> c \<noteq> OPEN)
      in Inr \<lparr>po_device_id = de_id d, po_device_class = cls, po_safe_mode_active = safe, po_safe_mode_setting = setting,
           po_polling_profile = runtime_profile d ru c, po_circuit = c, po_failure_count = n,
           po_backoff_seconds = recommended_backoff_seconds n, po_next_retry_at = retry,
           po_allow_auto_wakeup = wake, po_allow_automatic_power_key = wake,
           po_allow_preset_restore = (de_auto_restore_allowed d \<noteq> Some False \<and> \<not> safe),
           po_allow_invalid_source_recovery = (\<not> safe \<and> c \<noteq> OPEN),
           po_allow_battery_poll = (de_battery_poll_allowed d \<and> ca_battery caps \<and> \<not> safe),
           po_allow_maintenance_actions = (de_maintenance_actions_allowed d \<and> \<not> safe),
           po_low_risk_probe_interval_seconds = low_risk_interval,
           po_skip_reason = (if c = OPEN then ''circuit breaker open''
             else if \<not> de_reachable d then ''device currently marked unreachable'' else []),
           po_suspected_state = (if c = OPEN then ''offline_or_unreachable'' else if \<not> de_reachable d then ''offline'' else ''online''),
           po_capabilities = caps\<rparr>))"

definition should_poll :: "policy \<Rightarrow> int \<Rightarrow> poll_decision" where
  "should_poll p now =
     (if (case po_next_retry_at p of None \<Rightarrow> False | Some t \<Rightarrow> now < t)
      then \<lparr>pd_allowed = False, pd_profile = po_polling_profile p, pd_reason = ''backoff active'', pd_low_risk_only = True\<rparr>
      else if po_safe_mode_active p
      then \<lparr>pd_allowed = False, pd_profile = po_polling_profile p, pd_reason = ''safe mode active'', pd_low_risk_only = True\<rparr>
      else \<lparr>pd_allowed = True, pd_profile = po_polling_profile p,
             pd_reason = (if po_skip_reason p = [] then ''poll allowed'' else po_skip_reason p),
             pd_low_risk_only = (po_circuit p = HALF_OPEN)\<rparr>)"

section \<open>Properties\<close>

lemma backoff_bounds: "0 \<le> recommended_backoff_seconds n \<and> recommended_backoff_seconds n \<le> 3600"
proof -
  have "nat (min (n - 1) 5) \<in> {0, 1, 2, 3, 4, 5}" if "0 < n" using that by auto
  then show ?thesis by (auto simp: recommended_backoff_seconds_def)
qed

lemma backoff_mono: "m \<le> n \<Longrightarrow> recommended_backoff_seconds m \<le> recommended_backoff_seconds n"
proof (cases "0 < m")
  case True
  assume mn: "m \<le> n"
  have "sorted [0, 0, 5 * 60, 15 * 60, 30 * 60, 60 * 60 :: int]" by simp
  moreover have "nat (min (m - 1) 5) \<le> nat (min (n - 1) 5)" "nat (min (n - 1) 5) < 6" using mn by auto
  ultimately have "[0, 0, 5 * 60, 15 * 60, 30 * 60, 60 * 60 :: int] ! nat (min (m - 1) 5) \<le> [0, 0, 5 * 60, 15 * 60, 30 * 60, 60 * 60] ! nat (min (n - 1) 5)"
    by (intro sorted_nth_mono) simp_all
  then show ?thesis using True mn by (simp add: recommended_backoff_seconds_def)
qed (use backoff_bounds in \<open>simp add: recommended_backoff_seconds_def\<close>)

lemma policy_fields:
  assumes "policy_for_device pt low d ru now = Inr p"
  shows "\<exists>n. failures d ru = Inr n \<and> po_failure_count p = n \<and> po_circuit p = circuit_state n (if truth (ru_next_retry_at ru) then pt (ru_next_retry_at ru) else None) now"
  using assms by (auto simp: policy_for_device_def rbind_Inr_iff Let_def)

text \<open>
  Background work leaves a failing device alone. With safe mode active a policy allows no
  wake-up, power key, preset restore, source recovery, battery poll or maintenance; an open circuit
  allows no wake-up, power key or source recovery, sets safe mode unless it is disabled, and
  always names a later retry time: no poll happens before it. The circuit opens exactly from five
  failures on until the retry time, from which the device is polled again at low risk unless safe
  mode is always on. The back-off grows with the failures and never exceeds an hour.
\<close>

theorem policy_protects_device:
  assumes "policy_for_device pt low d ru now = Inr p"
  shows "(po_safe_mode_active p \<longrightarrow> \<not> po_allow_auto_wakeup p \<and> \<not> po_allow_automatic_power_key p \<and> \<not> po_allow_preset_restore p \<and>
      \<not> po_allow_invalid_source_recovery p \<and> \<not> po_allow_battery_poll p \<and> \<not> po_allow_maintenance_actions p \<and> \<not> pd_allowed (should_poll p t)) \<and>
    (po_circuit p = OPEN \<longrightarrow> \<not> po_allow_auto_wakeup p \<and> \<not> po_allow_automatic_power_key p \<and> \<not> po_allow_invalid_source_recovery p \<and>
      (po_safe_mode_active p \<or> po_safe_mode_setting p = SM_DISABLED) \<and>
      (\<exists>r. po_next_retry_at p = Some r \<and> now < r \<and> (\<forall>u < r. \<not> pd_allowed (should_poll p u)))) \<and>
    (po_circuit p = OPEN \<longleftrightarrow> 5 \<le> po_failure_count p \<and> (\<forall>r. truth (ru_next_retry_at ru) \<and> pt (ru_next_retry_at ru) = Some r \<longrightarrow> now < r)) \<and>
    (truth (ru_next_retry_at ru) \<and> pt (ru_next_retry_at ru) = Some r \<and> r \<le> now \<and> 0 < po_failure_count p \<and> po_safe_mode_setting p \<noteq> SM_ALWAYS \<longrightarrow>
      pd_allowed (should_poll p now) \<and> pd_low_risk_only (should_poll p now)) \<and>
    0 \<le> po_backoff_seconds p \<and> po_backoff_seconds p \<le> 3600 \<and>
    (m \<le> po_failure_count p \<longrightarrow> recommended_backoff_seconds m \<le> po_backoff_seconds p)"
proof -
  obtain n where n: "failures d ru = Inr n" using assms by (auto simp: policy_for_device_def rbind_Inr_iff)
  define retry0 where "retry0 = (if truth (ru_next_retry_at ru) then pt (ru_next_retry_at ru) else None)"
  define c where "c = circuit_state n retry0 now"
  have f: "po_failure_count p = n" "po_circuit p = c" "po_safe_mode_setting p = parse_safe_mode (de_safe_mode d)"
      "po_safe_mode_active p = (parse_safe_mode (de_safe_mode d) = SM_ALWAYS \<or> (parse_safe_mode (de_safe_mode d) = SM_AUTO \<and> c = OPEN))"
      "po_next_retry_at p = (if c = OPEN \<and> retry0 = None then Some (now + recommended_backoff_seconds (max n 1) * 1000000) else retry0)"
      "po_backoff_seconds p = recommended_backoff_seconds n"
      "po_allow_auto_wakeup p = (\<not> po_safe_mode_active p \<and> c \<noteq> OPEN)" "po_allow_automatic_power_key p = (\<not> po_safe_mode_active p \<and> c \<noteq> OPEN)"
      "po_allow_invalid_source_recovery p = (\<not> po_safe_mode_active p \<and> c \<noteq> OPEN)" "po_safe_mode_active p \<longrightarrow> \<not> po_allow_preset_restore p"
      "po_safe_mode_active p \<longrightarrow> \<not> po_allow_battery_poll p \<and> \<not> po_allow_maintenance_actions p"
    using assms n by (auto simp: policy_for_device_def Let_def retry0_def c_def)
  have open_iff: "c = OPEN \<longleftrightarrow> 5 \<le> n \<and> (\<forall>r. retry0 = Some r \<longrightarrow> now < r)" by (auto simp: c_def circuit_state_def split: option.splits)
  have long: "5 \<le> n \<Longrightarrow> 1800 \<le> recommended_backoff_seconds (max n 1)"
    using backoff_mono [of 5 "max n 1"] by (simp add: recommended_backoff_seconds_def)
  have later: "\<exists>r. po_next_retry_at p = Some r \<and> now < r \<and> (\<forall>u < r. \<not> pd_allowed (should_poll p u))" if op: "c = OPEN"
  proof -
    obtain r where "po_next_retry_at p = Some r" "now < r" using op open_iff long f(5) by (cases retry0) auto
    then show ?thesis by (auto simp: should_poll_def)
  qed
  have again: "pd_allowed (should_poll p now) \<and> pd_low_risk_only (should_poll p now)"
    if "retry0 = Some r" "r \<le> now" "0 < n" "po_safe_mode_setting p \<noteq> SM_ALWAYS"
    using that f open_iff by (auto simp: should_poll_def c_def circuit_state_def)
  have "po_safe_mode_active p \<longrightarrow> \<not> pd_allowed (should_poll p t)" by (auto simp: should_poll_def)
  then show ?thesis using f later again open_iff backoff_bounds [of n] backoff_mono [of m n] unfolding retry0_def
    by (cases "parse_safe_mode (de_safe_mode d)") (auto split: if_splits)
qed

definition example_device :: device where
  "example_device = \<lparr>de_id = ''A1'', de_model = ''SoundTouch 10'', de_name = ''Kitchen'', de_info_xml = [], de_capabilities_xml = [],
     de_class_override = [], de_safe_mode = ''auto'', de_profile_override = [], de_failure_count = VInt 6, de_reachable = True,
     de_auto_restore_allowed = None, de_battery_poll_allowed = True, de_maintenance_actions_allowed = True\<rparr>"

definition example_runtime :: runtime_state where
  "example_runtime = \<lparr>ru_consecutive_failures = VNone, ru_failure_count = VStr ''x'', ru_next_retry_at = VNone,
     ru_current_source = [], ru_playback_state = [], ru_play_status = []\<rparr>"

theorem policy_protects_device_witness:
  "\<exists>p. policy_for_device (\<lambda>_. None) 300 example_device example_runtime 0 = Inr p \<and> po_circuit p = OPEN \<and> \<not> pd_allowed (should_poll p 5)"
proof -
  have "int_text ''x'' = None" by code_simp
  then have "failures example_device example_runtime = Inr 6"
    by (simp add: failures_def parsed_failures_def example_device_def example_runtime_def)
  then obtain p where p: "policy_for_device (\<lambda>_. None) 300 example_device example_runtime 0 = Inr p"
    by (simp add: policy_for_device_def Let_def)
  have "parse_safe_mode ''auto'' = SM_AUTO" by code_simp
  moreover have "po_circuit p = OPEN" "po_safe_mode_setting p = parse_safe_mode ''auto''"
    using p \<open>failures example_device example_runtime = Inr 6\<close>
    by (auto simp: policy_for_device_def Let_def circuit_state_def example_device_def split: option.splits)
  ultimately show ?thesis using policy_protects_device [OF p, of 5 0 0] p by auto
qed

end
