(* ===== verification/NetworkPolicy.thy ===== *)
theory NetworkPolicy
  imports Prelude "HOL-Library.Char_ord" "HOL-Library.List_Lexorder"
begin

text \<open>
  Which network targets may be contacted: the protected devices
  (app/services/protected_devices.py) and the checks of outgoing URLs with the pinning of the
  checked address (app/services/network_security.py). An address is its version and number. What
  the code uses of \<open>ipaddress\<close> (parsing, printing, the table of global networks), of name resolution,
  of \<open>urlsplit\<close> and of the idna codec are the functions of a record \<open>net\<close>; \<open>urlsplit\<close> gives nothing where
  it or its \<open>port\<close> raises \<open>ValueError\<close>. The policy is read anew for every question; a part that cannot
  be read is \<open>None\<close>. Log entries and the details of error responses are not modelled.
\<close>

section \<open>Addresses\<close>

datatype ip = V4 int | V6 int "string option"

record split_result =
  sp_scheme :: string
  sp_netloc :: string
  sp_hostname :: "string option"
  sp_username :: "string option"
  sp_password :: "string option"
  sp_port :: "nat option"
  sp_path :: string
  sp_query :: string

record net =
  nt_parse :: "string \<Rightarrow> ip option"
  nt_text :: "ip \<Rightarrow> string"
  nt_global :: "ip \<Rightarrow> bool"
  nt_getaddrinfo :: "string \<Rightarrow> string list option"
  nt_urlsplit :: "string \<Rightarrow> split_result option"
  nt_idna :: "string \<Rightarrow> string option"

fun ipv4_mapped :: "ip \<Rightarrow> ip option" where
  "ipv4_mapped (V6 n _) = (if n div 2 ^ 32 = 0xFFFF then Some (V4 (n mod 2 ^ 32)) else None)"
| "ipv4_mapped (V4 _) = None"

definition unmapped :: "ip \<Rightarrow> ip" where
  "unmapped a = (case ipv4_mapped a of None \<Rightarrow> a | Some m \<Rightarrow> m)"

fun ip_version :: "ip \<Rightarrow> nat" where
  "ip_version (V4 _) = 4"
| "ip_version (V6 _ _) = 6"

definition normalize_ip :: "net \<Rightarrow> string \<Rightarrow> string" where
  "normalize_ip net v = (case nt_parse net (strip v) of None \<Rightarrow> strip v | Some a \<Rightarrow> nt_text net (unmapped a))"

definition normalize_device_id :: "string \<Rightarrow> string" where
  "normalize_device_id v = upper (strip v)"

section \<open>The protection policy\<close>

datatype protection_err = ProtectionPolicyUnavailable | ProtectedDevice

record protection =
  pr_env_ips :: "string list"
  pr_env_ids :: "string list"
  pr_setting_ips :: "string option option"
  pr_setting_ids :: "string option option"
  pr_devices :: "(string \<times> string) list option"

definition IMMUTABLE_PROTECTED_IPS :: "string list" where "IMMUTABLE_PROTECTED_IPS = []"
definition IMMUTABLE_PROTECTED_DEVICE_IDS :: "string list" where "IMMUTABLE_PROTECTED_DEVICE_IDS = []"

text \<open>The non-empty parts \<open>re.split\<close> leaves for the separators white space, comma and semicolon.\<close>

definition is_separator :: "char \<Rightarrow> bool" where
  "is_separator c = (is_space c \<or> c = CHR '','' \<or> c = CHR '';'')"

fun tokens_from :: "string \<Rightarrow> string \<Rightarrow> string list" where
  "tokens_from acc [] = (if acc = [] then [] else [rev acc])"
| "tokens_from acc (c # cs) = (if is_separator c then (if acc = [] then [] else [rev acc]) @ tokens_from [] cs else tokens_from (c # acc) cs)"

definition list_tokens_of :: "string \<Rightarrow> string list" where
  "list_tokens_of v = tokens_from [] v"

definition parse_ip_list :: "net \<Rightarrow> string \<Rightarrow> string list" where
  "parse_ip_list net v = map (normalize_ip net) (filter (\<lambda>item. nt_parse net item \<noteq> None) (list_tokens_of (strip v)))"

definition row_text :: "string option \<Rightarrow> string" where
  "row_text row = (case row of None \<Rightarrow> [] | Some v \<Rightarrow> v)"

definition settings_table_protected_ips :: "net \<Rightarrow> protection \<Rightarrow> protection_err + string list" where
  "settings_table_protected_ips net p = (case pr_setting_ips p of
     None \<Rightarrow> Inl ProtectionPolicyUnavailable | Some row \<Rightarrow> Inr (parse_ip_list net (row_text row)))"

definition settings_table_protected_ids :: "protection \<Rightarrow> protection_err + string list" where
  "settings_table_protected_ids p = (case pr_setting_ids p of
     None \<Rightarrow> Inl ProtectionPolicyUnavailable
   | Some row \<Rightarrow> Inr (filter (\<lambda>i. i \<noteq> []) (map normalize_device_id (list_tokens_of (row_text row)))))"

definition protected_device_ips :: "net \<Rightarrow> protection \<Rightarrow> protection_err + string list" where
  "protected_device_ips net p = rbind (settings_table_protected_ips net p) (\<lambda>stored.
     Inr (map (normalize_ip net) (filter (\<lambda>i. i \<noteq> [])
       (IMMUTABLE_PROTECTED_IPS @ map (normalize_ip net) (filter (\<lambda>i. strip i \<noteq> []) (pr_env_ips p)) @ stored))))"

definition protected_device_ids :: "protection \<Rightarrow> protection_err + string list" where
  "protected_device_ids p = rbind (settings_table_protected_ids p) (\<lambda>stored.
     Inr (IMMUTABLE_PROTECTED_DEVICE_IDS @ filter (\<lambda>i. i \<noteq> []) (map normalize_device_id (pr_env_ids p)) @ stored))"

text \<open>The address stored for a device: \<open>Inl\<close> when the lookup failed.\<close>

definition device_row_by_id :: "protection \<Rightarrow> string \<Rightarrow> unit + string option" where
  "device_row_by_id p device_id = (let i = normalize_device_id device_id in
     if i = [] then Inr None
     else (case pr_devices p of None \<Rightarrow> Inl () | Some rows \<Rightarrow> Inr (map_option snd (find (\<lambda>r. fst r = i) rows))))"

definition is_device_access_protected :: "net \<Rightarrow> protection \<Rightarrow> string \<Rightarrow> string \<Rightarrow> protection_err + bool" where
  "is_device_access_protected net p ip_address device_id =
     (let nip = normalize_ip net ip_address; nid = normalize_device_id device_id in
      rbind (protected_device_ips net p) (\<lambda>ips.
        if nip \<in> set IMMUTABLE_PROTECTED_IPS then Inr True
        else rbind (protected_device_ids p) (\<lambda>ids.
          if nid \<in> set ids then Inr True
          else if nip \<noteq> [] \<and> nip \<in> set ips then Inr True
          else if nid = [] then Inr False
          else (case device_row_by_id p nid of
              Inl _ \<Rightarrow> Inr True
            | Inr None \<Rightarrow> Inr False
            | Inr (Some row) \<Rightarrow> (let rip = normalize_ip net row in
                Inr (rip \<in> set ips \<or> (nip \<noteq> [] \<and> rip \<noteq> [] \<and> rip \<noteq> nip)))))))"

definition is_protected_ip :: "net \<Rightarrow> protection \<Rightarrow> string \<Rightarrow> protection_err + bool" where
  "is_protected_ip net p v = rbind (protected_device_ips net p) (\<lambda>ips. Inr (normalize_ip net v \<in> set ips))"

definition is_explicit_discovery_target_protected :: "net \<Rightarrow> protection \<Rightarrow> string \<Rightarrow> string \<Rightarrow> protection_err + bool" where
  "is_explicit_discovery_target_protected net p ip_address advertised =
     rbind (protected_device_ips net p) (\<lambda>ips. if normalize_ip net ip_address \<in> set ips then Inr True
       else rbind (protected_device_ids p) (\<lambda>ids. Inr (normalize_device_id advertised \<in> set ids)))"

definition first_protected_ip :: "net \<Rightarrow> protection \<Rightarrow> string list \<Rightarrow> protection_err + string option" where
  "first_protected_ip net p vs = rbind (protected_device_ips net p) (\<lambda>ips.
     Inr (find (\<lambda>n. n \<noteq> [] \<and> n \<in> set ips) (map (normalize_ip net) vs)))"

record stored_device =
  sd_device_id :: string
  sd_ip_address :: string

definition is_protected_device :: "net \<Rightarrow> protection \<Rightarrow> stored_device option \<Rightarrow> protection_err + bool" where
  "is_protected_device net p device = (case device of
     None \<Rightarrow> Inr False
   | Some d \<Rightarrow>
       if normalize_ip net (sd_ip_address d) \<in> set IMMUTABLE_PROTECTED_IPS then Inr True
       else rbind (is_protected_ip net p (sd_ip_address d)) (\<lambda>hit.
         if hit then Inr True
         else (let nid = normalize_device_id (sd_device_id d); nip = normalize_ip net (sd_ip_address d) in
           if nid = [] then Inr False
           else rbind (protected_device_ids p) (\<lambda>ids.
             if nid \<in> set ids then Inr True
             else (case device_row_by_id p nid of
                 Inl _ \<Rightarrow> Inr True
               | Inr None \<Rightarrow> Inr False
               | Inr (Some row) \<Rightarrow> (let rip = normalize_ip net row in
                   rbind (protected_device_ips net p) (\<lambda>ips. Inr (rip \<in> set ips \<or> (rip \<noteq> [] \<and> nip \<noteq> [] \<and> rip \<noteq> nip)))))))))"

fun filter_unprotected_devices :: "net \<Rightarrow> protection \<Rightarrow> stored_device list \<Rightarrow> protection_err + stored_device list" where
  "filter_unprotected_devices net p [] = Inr []"
| "filter_unprotected_devices net p (d # ds) = rbind (is_protected_device net p (Some d)) (\<lambda>hit.
     rbind (filter_unprotected_devices net p ds) (\<lambda>rest. Inr (if hit then rest else d # rest)))"

definition reject_protected_device_access :: "net \<Rightarrow> protection \<Rightarrow> string \<Rightarrow> string \<Rightarrow> protection_err + unit" where
  "reject_protected_device_access net p ip_address device_id =
     rbind (is_device_access_protected net p ip_address device_id) (\<lambda>hit. require (\<not> hit) ProtectedDevice)"

definition require_unprotected_device :: "net \<Rightarrow> protection \<Rightarrow> stored_device option \<Rightarrow> protection_err + unit" where
  "require_unprotected_device net p device = (if device = None then Inr ()
     else rbind (is_protected_device net p device) (\<lambda>hit. require (\<not> hit) ProtectedDevice))"

definition reject_protected_write_ip :: "net \<Rightarrow> protection \<Rightarrow> string \<Rightarrow> string \<Rightarrow> protection_err + unit" where
  "reject_protected_write_ip net p ip_address device_id = reject_protected_device_access net p ip_address device_id"

section \<open>Address classes\<close>

definition in_v4 :: "int \<Rightarrow> nat \<Rightarrow> int \<Rightarrow> bool" where
  "in_v4 base prefix n = (n div 2 ^ (32 - prefix) = base div 2 ^ (32 - prefix))"

definition v4 :: "int \<Rightarrow> int \<Rightarrow> int \<Rightarrow> int \<Rightarrow> int" where
  "v4 a b c d = ((a * 256 + b) * 256 + c) * 256 + d"

definition METADATA_ADDRESSES :: "ip list" where
  "METADATA_ADDRESSES = [V4 (v4 169 254 169 254)]"

definition is_test_net :: "int \<Rightarrow> bool" where
  "is_test_net n = (in_v4 (v4 192 0 2 0) 24 n \<or> in_v4 (v4 198 51 100 0) 24 n \<or> in_v4 (v4 203 0 113 0) 24 n)"

definition is_local_lan :: "ip \<Rightarrow> bool" where
  "is_local_lan a = (case a of
     V6 _ _ \<Rightarrow> False
   | V4 n \<Rightarrow> in_v4 (v4 10 0 0 0) 8 n \<or> in_v4 (v4 172 16 0 0) 12 n \<or> in_v4 (v4 192 168 0 0) 16 n \<or> is_test_net n)"

text \<open>Loopback, link-local, multicast or unspecified.\<close>

fun special_address :: "ip \<Rightarrow> bool" where
  "special_address (V4 n) = (in_v4 (v4 127 0 0 0) 8 n \<or> in_v4 (v4 169 254 0 0) 16 n \<or> in_v4 (v4 224 0 0 0) 4 n \<or> n = 0)"
| "special_address (V6 n _) = (n = 1 \<or> n div 2 ^ 118 = 0xFE80 div 64 \<or> n div 2 ^ 120 = 0xFF \<or> n = 0)"

text \<open>6to4, Teredo, a scope identifier, or one of the two NAT64 prefixes.\<close>

fun translated :: "ip \<Rightarrow> bool" where
  "translated (V4 _) = False"
| "translated (V6 n scope) = (n div 2 ^ 112 = 0x2002 \<or> n div 2 ^ 96 = 0x20010000 \<or> scope \<notin> {None, Some []} \<or>
     n div 2 ^ 32 = 0x64FF9B * 2 ^ 64 \<or> n div 2 ^ 80 = 0x64FF9B0001)"

definition is_blocked_outbound :: "net \<Rightarrow> ip \<Rightarrow> bool" where
  "is_blocked_outbound net address = (let a = unmapped address in
     translated a \<or> special_address a \<or> a \<in> set METADATA_ADDRESSES \<or> \<not> nt_global net a)"

section \<open>URLs\<close>

definition http_parts :: "net \<Rightarrow> string \<Rightarrow> pyerr + split_result" where
  "http_parts net url =
     (if url = [] \<or> list_ex (\<lambda>c. of_char c = (92 :: nat) \<or> is_space c \<or> of_char c < (32 :: nat) \<or> of_char c = (127 :: nat)) url then Inl ValueError
      else (case nt_urlsplit net url of
          None \<Rightarrow> Inl ValueError
        | Some u \<Rightarrow>
            if sp_scheme u \<notin> {''http'', ''https''} \<or> sp_hostname u \<in> {None, Some []} \<or> sp_username u \<noteq> None \<or> sp_password u \<noteq> None
               \<or> (case sp_port u of None \<Rightarrow> False | Some n \<Rightarrow> \<not> (1 \<le> n \<and> n \<le> 65535))
               \<or> (sp_netloc u \<noteq> [] \<and> last (sp_netloc u) = CHR '':'') \<or> CHR ''%'' \<in> set (sp_netloc u)
            then Inl ValueError else Inr u))"

definition default_port :: "split_result \<Rightarrow> nat" where
  "default_port u = (if sp_scheme u = ''https'' then 443 else 80)"

definition effective_port :: "split_result \<Rightarrow> nat" where
  "effective_port u = (case sp_port u of None \<Rightarrow> default_port u | Some n \<Rightarrow> n)"

record url_validation =
  uv_ok :: bool
  uv_reason :: string
  uv_hostname :: string
  uv_addresses :: "string list"
  uv_scheme :: string
  uv_port :: "nat option"

definition refusal :: "string \<Rightarrow> url_validation" where
  "refusal reason = \<lparr>uv_ok = False, uv_reason = reason, uv_hostname = [], uv_addresses = [], uv_scheme = [], uv_port = None\<rparr>"

text \<open>\<open>_resolve\<close>: nothing where \<open>getaddrinfo\<close> raises.\<close>

definition resolve :: "net \<Rightarrow> string \<Rightarrow> ip list option" where
  "resolve net hostname = (case nt_parse net hostname of
     Some a \<Rightarrow> Some [a]
   | None \<Rightarrow> (case nt_getaddrinfo net hostname of
       None \<Rightarrow> None
     | Some infos \<Rightarrow> Some (sort_key (nt_text net) (remdups (List.map_filter (nt_parse net) infos)))))"

definition validate_outbound_http_url ::
    "net \<Rightarrow> protection \<Rightarrow> string \<Rightarrow> string list option \<Rightarrow> bool \<Rightarrow> protection_err + url_validation" where
  "validate_outbound_http_url net p url allowed_hosts public_only =
     (let allowed = filter (\<lambda>h. h \<noteq> []) (map (\<lambda>h. lower (strip h)) (case allowed_hosts of None \<Rightarrow> [] | Some hs \<Rightarrow> hs)) in
      case http_parts net url of
        Inl _ \<Rightarrow> Inr (refusal ''invalid HTTP URL authority'')
      | Inr u \<Rightarrow>
          (let host = lower (the (sp_hostname u));
               no = (\<lambda>reason. (refusal reason)\<lparr>uv_hostname := host, uv_scheme := sp_scheme u, uv_port := Some (effective_port u)\<rparr>) in
           if allowed \<noteq> [] \<and> host \<notin> set allowed then Inr (no ''host is not in allowlist'')
           else (case resolve net host of
               None \<Rightarrow> Inr (no ''DNS resolution failed'')
             | Some [] \<Rightarrow> Inr (no ''host did not resolve'')
             | Some addresses \<Rightarrow>
                 (let texts = map (nt_text net) addresses in
                  rbind (first_protected_ip net p texts) (\<lambda>hit.
                    if hit \<noteq> None then Inr ((no ''URL resolves to a protected device address'')\<lparr>uv_addresses := texts\<rparr>)
                    else if public_only \<and> list_ex (is_blocked_outbound net) addresses
                    then Inr ((no ''URL resolves to a blocked local, private, link-local or metadata address'')\<lparr>uv_addresses := texts\<rparr>)
                    else Inr \<lparr>uv_ok = True, uv_reason = ''ok'', uv_hostname = host, uv_addresses = texts, uv_scheme = sp_scheme u,
                           uv_port = Some (effective_port u)\<rparr>)))))"

definition is_bracket :: "char \<Rightarrow> bool" where
  "is_bracket c = (c = CHR ''['' \<or> c = CHR '']'')"

definition strip_brackets :: "string \<Rightarrow> string" where
  "strip_brackets s = rev (dropWhile is_bracket (rev (dropWhile is_bracket s)))"

definition validate_outbound_host :: "net \<Rightarrow> protection \<Rightarrow> string \<Rightarrow> nat option \<Rightarrow> protection_err + url_validation" where
  "validate_outbound_host net p host port =
     (let hostname = lower (strip_brackets (strip host));
          no = (\<lambda>reason. (refusal reason)\<lparr>uv_hostname := hostname, uv_port := port\<rparr>) in
      if hostname = [] then Inr (no ''missing host'')
      else (case resolve net hostname of
          None \<Rightarrow> Inr (no ''DNS resolution failed'')
        | Some [] \<Rightarrow> Inr (no ''host did not resolve'')
        | Some addresses \<Rightarrow>
            (let texts = map (nt_text net) addresses in
             rbind (first_protected_ip net p texts) (\<lambda>hit.
               Inr (if hit \<noteq> None then (no ''host resolves to a protected device address'')\<lparr>uv_addresses := texts\<rparr>
                 else (no ''ok'')\<lparr>uv_ok := True, uv_addresses := texts\<rparr>)))))"

record pinned =
  pt_url :: string
  pt_host :: string
  pt_sni :: "string option"

definition literal :: "net \<Rightarrow> ip \<Rightarrow> string" where
  "literal net a = (if ip_version a = 6 then ''['' @ nt_text net a @ '']'' else nt_text net a)"

definition port_suffix :: "nat option \<Rightarrow> string" where
  "port_suffix port = (case port of None \<Rightarrow> [] | Some n \<Rightarrow> '':'' @ digits_of_nat n)"

text \<open>\<open>urlunsplit\<close> for a non-empty authority and without a fragment.\<close>

definition urlunsplit :: "string \<Rightarrow> string \<Rightarrow> string \<Rightarrow> string \<Rightarrow> string" where
  "urlunsplit scheme netloc path query =
     scheme @ ''://'' @ netloc @ (if path \<noteq> [] \<and> hd path \<noteq> CHR ''/'' then ''/'' else []) @ path @ (if query = [] then [] else ''?'' @ query)"

definition chosen_address :: "net \<Rightarrow> string list \<Rightarrow> pyerr + ip" where
  "chosen_address net texts = rbind (rmap (\<lambda>t. case nt_parse net t of None \<Rightarrow> Inl ValueError | Some a \<Rightarrow> Inr a) texts) (\<lambda>addresses.
     case find (\<lambda>a. ip_version a = 4) addresses of
       Some a \<Rightarrow> Inr a
     | None \<Rightarrow> (case addresses of [] \<Rightarrow> Inl ValueError | a # _ \<Rightarrow> Inr a))"

definition pinned_http_target :: "net \<Rightarrow> string \<Rightarrow> url_validation \<Rightarrow> pyerr + pinned" where
  "pinned_http_target net url v =
     (if \<not> uv_ok v \<or> uv_addresses v = [] then Inl ValueError
      else rbind (http_parts net url) (\<lambda>u.
        let hostname = the (sp_hostname u) in
        if lower hostname \<noteq> lower (uv_hostname v) then Inl ValueError
        else if uv_port v = None \<or> sp_scheme u \<noteq> uv_scheme v \<or> Some (effective_port u) \<noteq> uv_port v then Inl ValueError
        else rbind (chosen_address net (uv_addresses v)) (\<lambda>a.
          let literal_host = CHR '':'' \<in> set hostname in
          rbind (if literal_host then Inr (''['' @ hostname @ '']'') else (case nt_idna net hostname of None \<Rightarrow> Inl ValueError | Some h \<Rightarrow> Inr h)) (\<lambda>display.
            Inr \<lparr>pt_url = urlunsplit (sp_scheme u) (literal net a @ port_suffix (sp_port u)) (if sp_path u = [] then ''/'' else sp_path u) (sp_query u),
                 pt_host = (if sp_port u \<in> {None, Some (default_port u)} then display else display @ port_suffix (sp_port u)),
                 pt_sni = (if sp_scheme u = ''https'' \<and> \<not> literal_host then nt_idna net hostname else None)\<rparr>))))"

definition validate_local_soundtouch_url :: "net \<Rightarrow> protection \<Rightarrow> string \<Rightarrow> nat list option \<Rightarrow> protection_err + url_validation" where
  "validate_local_soundtouch_url net p url allowed_ports =
     (let ports = (case allowed_ports of None \<Rightarrow> [80, 8090] | Some ps \<Rightarrow> ps) in
      case http_parts net url of
        Inl _ \<Rightarrow> Inr (refusal ''invalid descriptor URL authority'')
      | Inr u \<Rightarrow>
          if sp_scheme u \<noteq> ''http'' then Inr ((refusal ''only local http descriptor URLs are allowed'')\<lparr>uv_scheme := sp_scheme u\<rparr>)
          else (let host = the (sp_hostname u); port = (case sp_port u of None \<Rightarrow> 80 | Some n \<Rightarrow> n);
               no = (\<lambda>reason. (refusal reason)\<lparr>uv_hostname := host, uv_scheme := sp_scheme u, uv_port := Some port\<rparr>) in
           if port \<notin> set ports then Inr (no ''unexpected SoundTouch descriptor port'')
           else (case resolve net host of
               None \<Rightarrow> Inr (no ''DNS resolution failed'')
             | Some [] \<Rightarrow> Inr (no ''host did not resolve'')
             | Some addresses \<Rightarrow>
                 (let texts = map (nt_text net) addresses in
                  rbind (first_protected_ip net p texts) (\<lambda>hit.
                    Inr (if hit \<noteq> None then (no ''descriptor URL resolves to a protected device address'')\<lparr>uv_addresses := texts\<rparr>
                      else if \<not> list_all is_local_lan addresses then (no ''descriptor URL must resolve to a local LAN address'')\<lparr>uv_addresses := texts\<rparr>
                      else (no ''ok'')\<lparr>uv_ok := True, uv_addresses := texts\<rparr>))))))"

definition validate_public_callback_url :: "net \<Rightarrow> protection \<Rightarrow> string \<Rightarrow> string list option \<Rightarrow> protection_err + url_validation" where
  "validate_public_callback_url net p url allowed_hosts = validate_outbound_http_url net p url allowed_hosts True"

definition host_in_optional_allowlist :: "string \<Rightarrow> string list \<Rightarrow> bool" where
  "host_in_optional_allowlist host allowed_hosts = (let h = lower host in h \<noteq> [] \<and> (allowed_hosts = [] \<or> h \<in> set (map lower allowed_hosts)))"

section \<open>Lemmas\<close>

lemma unmapped_idem [simp]: "unmapped (unmapped a) = unmapped a"
  by (cases a) (auto simp: unmapped_def)

lemma normalize_device_id_idem [simp]: "normalize_device_id (normalize_device_id v) = normalize_device_id v"
  by (simp add: normalize_device_id_def strip_upper)

lemma normalize_ip_parsed: "nt_parse net (strip v) = Some a \<Longrightarrow> normalize_ip net v = nt_text net (unmapped a)"
  by (simp add: normalize_ip_def)

lemma strip_no_space: "\<forall>c \<in> set s. \<not> is_space c \<Longrightarrow> strip s = s"
proof -
  have d: "\<forall>c \<in> set xs. \<not> is_space c \<Longrightarrow> dropWhile is_space xs = xs" for xs by (cases xs) auto
  then show "\<forall>c \<in> set s. \<not> is_space c \<Longrightarrow> strip s = s" using d [of s] d [of "rev s"] by (simp add: strip_def)
qed

lemma tokens_no_separator: "e \<in> set (tokens_from acc cs) \<Longrightarrow> \<forall>c \<in> set acc. \<not> is_separator c \<Longrightarrow> \<forall>c \<in> set e. \<not> is_separator c"
  by (induction acc cs rule: tokens_from.induct) (auto split: if_splits)

lemma token_strip: "e \<in> set (list_tokens_of v) \<Longrightarrow> strip e = e"
  using tokens_no_separator [of e "[]" v] by (auto simp: list_tokens_of_def is_separator_def intro: strip_no_space)

text \<open>Every configured spelling of an address ends up in the list under its canonical text.\<close>

definition configured_ips :: "protection \<Rightarrow> string list" where
  "configured_ips p = filter (\<lambda>i. strip i \<noteq> []) (pr_env_ips p) @
     (case pr_setting_ips p of Some row \<Rightarrow> list_tokens_of (strip (row_text row)) | None \<Rightarrow> [])"

lemma configured_ip_listed:
  assumes "protected_device_ips net p = Inr ips" "e \<in> set (configured_ips p)" "nt_parse net (strip e) = Some b"
    and "nt_parse net (strip (nt_text net (unmapped b))) = Some (unmapped b)" "nt_text net (unmapped b) \<noteq> []"
  shows "nt_text net (unmapped b) \<in> set ips"
proof -
  obtain stored where st: "settings_table_protected_ips net p = Inr stored"
      "ips = map (normalize_ip net) (filter (\<lambda>i. i \<noteq> []) (IMMUTABLE_PROTECTED_IPS @ map (normalize_ip net) (filter (\<lambda>i. strip i \<noteq> []) (pr_env_ips p)) @ stored))"
    using assms(1) by (auto simp: protected_device_ips_def rbind_Inr_iff)
  have n: "normalize_ip net e = nt_text net (unmapped b)" by (rule normalize_ip_parsed [OF assms(3)])
  have nn: "normalize_ip net (nt_text net (unmapped b)) = nt_text net (unmapped b)" using normalize_ip_parsed [OF assms(4)] by simp
  have "normalize_ip net e \<in> set (map (normalize_ip net) (filter (\<lambda>i. strip i \<noteq> []) (pr_env_ips p)) @ stored)"
    using assms(2,3) st(1) token_strip [of e]
    by (auto simp: configured_ips_def settings_table_protected_ips_def parse_ip_list_def split: option.splits)
  then show ?thesis using n nn assms(5) unfolding st(2) by (force simp: image_iff)
qed

definition configured_ids :: "protection \<Rightarrow> string list" where
  "configured_ids p = pr_env_ids p @ (case pr_setting_ids p of Some row \<Rightarrow> list_tokens_of (row_text row) | None \<Rightarrow> [])"

lemma configured_id_listed:
  "protected_device_ids p = Inr ids \<Longrightarrow> set ids = {i \<in> normalize_device_id ` set (configured_ids p). i \<noteq> []}"
  by (auto simp: protected_device_ids_def configured_ids_def settings_table_protected_ids_def IMMUTABLE_PROTECTED_DEVICE_IDS_def
      rbind_Inr_iff split: option.splits)

lemma access_allowed:
  assumes "reject_protected_device_access net p ip i = Inr ()"
  obtains ips ids where "protected_device_ips net p = Inr ips" "protected_device_ids p = Inr ids"
    "normalize_device_id i \<notin> set ids" "normalize_ip net ip \<notin> set ips \<or> normalize_ip net ip = []"
    "normalize_device_id i \<noteq> [] \<Longrightarrow> pr_devices p \<noteq> None"
    "\<And>rows row. normalize_device_id i \<noteq> [] \<Longrightarrow> pr_devices p = Some rows \<Longrightarrow> find (\<lambda>r. fst r = normalize_device_id i) rows = Some row \<Longrightarrow>
       normalize_ip net (snd row) \<notin> set ips \<and> (normalize_ip net ip \<noteq> [] \<and> normalize_ip net (snd row) \<noteq> [] \<longrightarrow> normalize_ip net (snd row) = normalize_ip net ip)"
proof -
  obtain ips ids where b: "protected_device_ips net p = Inr ips" "protected_device_ids p = Inr ids"
    using assms by (auto simp: reject_protected_device_access_def is_device_access_protected_def Let_def rbind_Inr_iff IMMUTABLE_PROTECTED_IPS_def)
  then show thesis using assms
    by (intro that [of ips ids])
       (auto simp: reject_protected_device_access_def is_device_access_protected_def Let_def rbind_Inr_iff IMMUTABLE_PROTECTED_IPS_def
         device_row_by_id_def split: if_splits option.splits sum.splits)
qed

lemma find_None_filter: "find P xs = None \<longleftrightarrow> (\<forall>x \<in> set xs. \<not> P x)"
  by (induction xs) auto

lemma first_protected_None:
  assumes "first_protected_ip net p texts = Inr None"
  obtains ips where "protected_device_ips net p = Inr ips" "\<forall>t \<in> set texts. normalize_ip net t = [] \<or> normalize_ip net t \<notin> set ips"
  using assms by (auto simp: first_protected_ip_def rbind_Inr_iff find_None_filter)

lemma validated_url:
  assumes "validate_outbound_http_url net p url hosts public_only = Inr v" "uv_ok v"
  obtains u addrs where "http_parts net url = Inr u" "uv_hostname v = lower (the (sp_hostname u))" "uv_scheme v = sp_scheme u"
    "uv_port v = Some (effective_port u)" "resolve net (uv_hostname v) = Some addrs" "addrs \<noteq> []" "uv_addresses v = map (nt_text net) addrs"
    "first_protected_ip net p (uv_addresses v) = Inr None" "public_only \<Longrightarrow> \<forall>a \<in> set addrs. \<not> is_blocked_outbound net a"
proof -
  obtain u where u: "http_parts net url = Inr u"
    using assms by (cases "http_parts net url") (auto simp: validate_outbound_http_url_def refusal_def)
  obtain addrs where a: "resolve net (lower (the (sp_hostname u))) = Some addrs" "addrs \<noteq> []"
    using assms u by (cases "resolve net (lower (the (sp_hostname u)))")
      (auto simp: validate_outbound_http_url_def refusal_def Let_def split: if_splits list.splits)
  obtain x xs where xs: "addrs = x # xs" using a(2) by (cases addrs) auto
  let ?texts = "map (nt_text net) addrs" and ?allowed = "filter (\<lambda>h. h \<noteq> []) (map (\<lambda>h. lower (strip h)) (case hosts of None \<Rightarrow> [] | Some hs \<Rightarrow> hs))"
  have al: "\<not> (?allowed \<noteq> [] \<and> lower (the (sp_hostname u)) \<notin> set ?allowed)"
  proof
    assume "?allowed \<noteq> [] \<and> lower (the (sp_hostname u)) \<notin> set ?allowed"
    then have "\<exists>w. validate_outbound_http_url net p url hosts public_only = Inr w \<and> \<not> uv_ok w"
      unfolding validate_outbound_http_url_def Let_def u sum.case refusal_def by (simp only: if_True) simp
    then show False using assms by auto
  qed
  obtain hit where h: "first_protected_ip net p ?texts = Inr hit"
    using assms(1) unfolding validate_outbound_http_url_def Let_def u sum.case if_not_P [OF al] a(1) xs
    by (cases "first_protected_ip net p (map (nt_text net) (x # xs))") simp_all
  have v: "(if hit \<noteq> None then (refusal ''URL resolves to a protected device address'')
          \<lparr>uv_hostname := lower (the (sp_hostname u)), uv_scheme := sp_scheme u, uv_port := Some (effective_port u), uv_addresses := ?texts\<rparr>
      else if public_only \<and> list_ex (is_blocked_outbound net) addrs then (refusal ''URL resolves to a blocked local, private, link-local or metadata address'')
          \<lparr>uv_hostname := lower (the (sp_hostname u)), uv_scheme := sp_scheme u, uv_port := Some (effective_port u), uv_addresses := ?texts\<rparr>
      else \<lparr>uv_ok = True, uv_reason = ''ok'', uv_hostname = lower (the (sp_hostname u)), uv_addresses = ?texts, uv_scheme = sp_scheme u,
             uv_port = Some (effective_port u)\<rparr>) = v"
    using assms(1) h unfolding validate_outbound_http_url_def Let_def u sum.case if_not_P [OF al] a(1) xs
    by (auto split: if_splits)
  show thesis
    using v assms(2) u a h by (intro that [of u addrs]) (auto simp: refusal_def list_ex_iff split: if_splits)
qed

lemma chosen_address_in:
  assumes "chosen_address net (map (nt_text net) addrs) = Inr a" "\<forall>x \<in> set addrs. nt_parse net (nt_text net x) = Some x"
  shows "a \<in> set addrs" "x \<in> set addrs \<Longrightarrow> ip_version x = 4 \<Longrightarrow> ip_version a = 4"
proof -
  let ?f = "\<lambda>t. case nt_parse net t of None \<Rightarrow> Inl ValueError | Some a \<Rightarrow> Inr a"
  have "rmap ?f (map (nt_text net) addrs) = Inr addrs" using assms(2) by (induction addrs) auto
  then have c: "(case find (\<lambda>a. ip_version a = 4) addrs of Some a \<Rightarrow> Inr a | None \<Rightarrow> (case addrs of [] \<Rightarrow> Inl ValueError | a # _ \<Rightarrow> Inr a)) = Inr a"
    using assms(1) by (simp add: chosen_address_def)
  then show "a \<in> set addrs" by (auto simp: find_Some_iff split: option.splits list.splits)
  show "x \<in> set addrs \<Longrightarrow> ip_version x = 4 \<Longrightarrow> ip_version a = 4"
    using c by (auto simp: find_Some_iff find_None_filter split: option.splits)
qed

section \<open>Properties\<close>

text \<open>
  C28. Protection fails closed. Access to an address and an optional identity is allowed only if the
  whole policy and the inventory could be read, no configured entry spells the same address, mapped
  IPv6 spellings included, the identity is in no list, and the stored address of the identity is
  neither protected nor another one than the given address. (Printing an address and parsing it gives
  it back.)
\<close>

theorem protection_fails_closed:
  assumes "reject_protected_device_access net p ip i = Inr ()" "nt_parse net (strip ip) = Some a"
    and "nt_parse net (strip (nt_text net (unmapped a))) = Some (unmapped a)" "nt_text net (unmapped a) \<noteq> []"
  shows "pr_setting_ips p \<noteq> None \<and> pr_setting_ids p \<noteq> None \<and>
    (\<forall>e \<in> set (configured_ips p). \<forall>b. nt_parse net (strip e) = Some b \<longrightarrow> unmapped b \<noteq> unmapped a) \<and>
    (normalize_device_id i \<noteq> [] \<longrightarrow> normalize_device_id i \<notin> normalize_device_id ` set (configured_ids p) \<and>
      (\<exists>rows. pr_devices p = Some rows \<and> (\<forall>row. find (\<lambda>r. fst r = normalize_device_id i) rows = Some row \<longrightarrow>
        (\<forall>b. nt_parse net (strip (snd row)) = Some b \<and> nt_text net (unmapped b) \<noteq> [] \<longrightarrow> nt_text net (unmapped b) = nt_text net (unmapped a)))))"
proof -
  obtain ips ids where b: "protected_device_ips net p = Inr ips" "protected_device_ids p = Inr ids"
    "normalize_device_id i \<notin> set ids" "normalize_ip net ip \<notin> set ips \<or> normalize_ip net ip = []"
    "normalize_device_id i \<noteq> [] \<Longrightarrow> pr_devices p \<noteq> None"
    "\<And>rows row. normalize_device_id i \<noteq> [] \<Longrightarrow> pr_devices p = Some rows \<Longrightarrow> find (\<lambda>r. fst r = normalize_device_id i) rows = Some row \<Longrightarrow>
       normalize_ip net (snd row) \<notin> set ips \<and> (normalize_ip net ip \<noteq> [] \<and> normalize_ip net (snd row) \<noteq> [] \<longrightarrow> normalize_ip net (snd row) = normalize_ip net ip)"
    using access_allowed [OF assms(1)] by blast
  have ip: "normalize_ip net ip = nt_text net (unmapped a)" by (rule normalize_ip_parsed [OF assms(2)])
  have settings: "pr_setting_ips p \<noteq> None" "pr_setting_ids p \<noteq> None"
    using b(1,2) by (auto simp: protected_device_ips_def protected_device_ids_def settings_table_protected_ips_def settings_table_protected_ids_def
        rbind_Inr_iff split: option.splits)
  have "unmapped c \<noteq> unmapped a" if "e \<in> set (configured_ips p)" "nt_parse net (strip e) = Some c" for e c
    using configured_ip_listed [OF b(1) that] b(4) ip assms(3,4) by auto
  moreover have "normalize_device_id i \<notin> normalize_device_id ` set (configured_ids p)" if "normalize_device_id i \<noteq> []"
    using configured_id_listed [OF b(2)] b(3) that by blast
  moreover have "nt_text net (unmapped c) = nt_text net (unmapped a)"
    if "normalize_device_id i \<noteq> []" "pr_devices p = Some rows" "find (\<lambda>r. fst r = normalize_device_id i) rows = Some row"
      "nt_parse net (strip (snd row)) = Some c" "nt_text net (unmapped c) \<noteq> []" for rows row c
    using b(6) [OF that(1-3)] ip assms(4) normalize_ip_parsed [OF that(4)] that(5) by auto
  ultimately show ?thesis using settings b(5) by blast
qed

text \<open>A small network: one radio in the LAN, with its mapped spelling, and one public host.\<close>

definition example_net :: net where
  "example_net = \<lparr>nt_parse = (\<lambda>t. if t = ''8.8.8.8'' then Some (V4 (v4 8 8 8 8)) else if t = ''10.0.0.1'' then Some (V4 (v4 10 0 0 1))
       else if t = ''::ffff:a00:1'' then Some (V6 (0xFFFF * 2 ^ 32 + v4 10 0 0 1) None) else None),
     nt_text = (\<lambda>a. if a = V4 (v4 8 8 8 8) then ''8.8.8.8'' else if a = V4 (v4 10 0 0 1) then ''10.0.0.1'' else ''::ffff:a00:1''),
     nt_global = (\<lambda>a. a = V4 (v4 8 8 8 8)),
     nt_getaddrinfo = (\<lambda>h. if h = ''radio.example'' then Some [''8.8.8.8'', ''8.8.8.8''] else None),
     nt_urlsplit = (\<lambda>u. if u = ''http://Radio.example/x'' then Some \<lparr>sp_scheme = ''http'', sp_netloc = ''Radio.example'', sp_hostname = Some ''radio.example'',
       sp_username = None, sp_password = None, sp_port = None, sp_path = ''/x'', sp_query = []\<rparr> else None),
     nt_idna = Some\<rparr>"

definition example_protection :: protection where
  "example_protection = \<lparr>pr_env_ips = [], pr_env_ids = [], pr_setting_ips = Some (Some '' 10.0.0.1; junk''), pr_setting_ids = Some None,
     pr_devices = Some [(''A1'', ''8.8.8.8'')]\<rparr>"

theorem protection_fails_closed_witness:
  "reject_protected_device_access example_net example_protection ''8.8.8.8'' ''a1'' = Inr () \<and>
   Some (V4 (v4 8 8 8 8)) \<notin> (\<lambda>e. nt_parse example_net (strip e)) ` set (configured_ips example_protection) \<and>
   reject_protected_device_access example_net example_protection ''::ffff:a00:1'' ''a1'' = Inl ProtectedDevice"
proof -
  have ok: "reject_protected_device_access example_net example_protection ''8.8.8.8'' ''a1'' = Inr ()" by code_simp
  have pr: "nt_parse example_net (strip ''8.8.8.8'') = Some (V4 (v4 8 8 8 8))" by code_simp
  have rt: "nt_parse example_net (strip (nt_text example_net (unmapped (V4 (v4 8 8 8 8))))) = Some (unmapped (V4 (v4 8 8 8 8)))" by code_simp
  have ne: "nt_text example_net (unmapped (V4 (v4 8 8 8 8))) \<noteq> []" by code_simp
  have no: "reject_protected_device_access example_net example_protection ''::ffff:a00:1'' ''a1'' = Inl ProtectedDevice" by code_simp
  have "\<forall>e \<in> set (configured_ips example_protection). nt_parse example_net (strip e) \<noteq> Some (V4 (v4 8 8 8 8))"
    using protection_fails_closed [OF ok pr rt ne] by blast
  then have "Some (V4 (v4 8 8 8 8)) \<notin> (\<lambda>e. nt_parse example_net (strip e)) ` set (configured_ips example_protection)"
    by (simp add: image_iff) metis
  then show ?thesis using ok no by blast
qed

text \<open>
  C16. What is checked is what is contacted. A URL is approved only if every address its host
  resolves to is unprotected, in any spelling, and, for public targets, none is local, translated,
  link-local or a metadata address; and a request pinned to an approval, for whatever URL, goes to one
  of exactly these addresses, an IPv4 one if there is any, under the scheme, host and port that were
  approved: a second name resolution has no influence.
\<close>

theorem outbound_pinned:
  assumes "validate_outbound_http_url net p url hosts public_only = Inr v" "uv_ok v" "resolve net (uv_hostname v) = Some addrs"
    and "\<forall>a \<in> set addrs. nt_parse net (nt_text net a) = Some a \<and> strip (nt_text net a) = nt_text net a \<and> nt_text net (unmapped a) \<noteq> []"
  shows "addrs \<noteq> [] \<and> (\<exists>ips. protected_device_ips net p = Inr ips \<and> (\<forall>a \<in> set addrs. nt_text net (unmapped a) \<notin> set ips)) \<and>
    (public_only \<longrightarrow> (\<forall>a \<in> set addrs. \<not> translated (unmapped a) \<and> \<not> special_address (unmapped a) \<and>
       unmapped a \<notin> set METADATA_ADDRESSES \<and> nt_global net (unmapped a))) \<and>
    (pinned_http_target net url' v = Inr t \<longrightarrow> (\<exists>u a. http_parts net url' = Inr u \<and> a \<in> set addrs \<and>
       ((\<exists>x \<in> set addrs. ip_version x = 4) \<longrightarrow> ip_version a = 4) \<and>
       lower (the (sp_hostname u)) = lower (uv_hostname v) \<and> sp_scheme u = uv_scheme v \<and> Some (effective_port u) = uv_port v \<and>
       pt_url t = urlunsplit (sp_scheme u) (literal net a @ port_suffix (sp_port u)) (if sp_path u = [] then ''/'' else sp_path u) (sp_query u)))"
proof -
  obtain u where b: "addrs \<noteq> []" "uv_addresses v = map (nt_text net) addrs" "first_protected_ip net p (uv_addresses v) = Inr None"
      "public_only \<Longrightarrow> \<forall>a \<in> set addrs. \<not> is_blocked_outbound net a"
    using validated_url [OF assms(1,2)] assms(3) by (metis option.inject)
  obtain ips where ips: "protected_device_ips net p = Inr ips" "\<forall>t \<in> set (uv_addresses v). normalize_ip net t = [] \<or> normalize_ip net t \<notin> set ips"
    using first_protected_None [OF b(3)] by blast
  have "nt_text net (unmapped a) \<notin> set ips" if "a \<in> set addrs" for a
    using ips(2) that assms(4) normalize_ip_parsed [of net "nt_text net a" a] unfolding b(2) by (metis image_eqI list.set_map)
  moreover have "\<not> translated (unmapped a) \<and> \<not> special_address (unmapped a) \<and> unmapped a \<notin> set METADATA_ADDRESSES \<and> nt_global net (unmapped a)"
    if "public_only" "a \<in> set addrs" for a
    using b(4) that by (auto simp: is_blocked_outbound_def Let_def)
  moreover have "\<exists>u a. http_parts net url' = Inr u \<and> a \<in> set addrs \<and> ((\<exists>x \<in> set addrs. ip_version x = 4) \<longrightarrow> ip_version a = 4) \<and>
       lower (the (sp_hostname u)) = lower (uv_hostname v) \<and> sp_scheme u = uv_scheme v \<and> Some (effective_port u) = uv_port v \<and>
       pt_url t = urlunsplit (sp_scheme u) (literal net a @ port_suffix (sp_port u)) (if sp_path u = [] then ''/'' else sp_path u) (sp_query u)"
    if pin: "pinned_http_target net url' v = Inr t"
  proof -
    obtain u' a where "http_parts net url' = Inr u'" "chosen_address net (uv_addresses v) = Inr a"
       "lower (the (sp_hostname u')) = lower (uv_hostname v)" "sp_scheme u' = uv_scheme v" "Some (effective_port u') = uv_port v"
       "pt_url t = urlunsplit (sp_scheme u') (literal net a @ port_suffix (sp_port u')) (if sp_path u' = [] then ''/'' else sp_path u') (sp_query u')"
      using pin by (auto simp: pinned_http_target_def rbind_Inr_iff Let_def split: if_splits)
    then show ?thesis using chosen_address_in [of net addrs a] assms(4) b(2) by (intro exI [of _ u'] exI [of _ a]) auto
  qed
  ultimately show ?thesis using b(1) ips(1) by blast
qed

theorem outbound_pinned_witness:
  "\<exists>v t. validate_outbound_http_url example_net example_protection ''http://Radio.example/x'' None True = Inr v \<and>
     pinned_http_target example_net ''http://Radio.example/x'' v = Inr t \<and> pt_url t = ''http://8.8.8.8/x'' \<and>
     \<not> special_address (V4 (v4 8 8 8 8))"
proof -
  let ?v = "\<lparr>uv_ok = True, uv_reason = ''ok'', uv_hostname = ''radio.example'', uv_addresses = [''8.8.8.8''], uv_scheme = ''http'', uv_port = Some 80\<rparr>"
  have v: "validate_outbound_http_url example_net example_protection ''http://Radio.example/x'' None True = Inr ?v" by code_simp
  have r: "resolve example_net (uv_hostname ?v) = Some [V4 (v4 8 8 8 8)]" by code_simp
  have rt: "\<forall>a \<in> set [V4 (v4 8 8 8 8)]. nt_parse example_net (nt_text example_net a) = Some a \<and> strip (nt_text example_net a) = nt_text example_net a \<and>
      nt_text example_net (unmapped a) \<noteq> []" by code_simp
  have "\<exists>t. pinned_http_target example_net ''http://Radio.example/x'' ?v = Inr t \<and> pt_url t = ''http://8.8.8.8/x''"
    by (rule exI [of _ "\<lparr>pt_url = ''http://8.8.8.8/x'', pt_host = ''radio.example'', pt_sni = None\<rparr>"]) code_simp
  then show ?thesis using v outbound_pinned [OF v _ r rt] by (auto simp: unmapped_def)
qed

end
