(* ===== verification/RadioReboots.thy ===== *)
theory RadioReboots
  imports NetworkPolicy SetupLease
begin

text \<open>
  Reboot batches (app/services/radio_reboots.py, the manager and its schedule). Several batches may
  run at once, in this and in other worker processes, over one database. A batch advances from one
  \<open>await\<close> to the next: each step takes what was awaited as its input, and everything up to the next
  \<open>await\<close> happens at once. The radio behind a target is the environment: whether its backup, its
  fresh readings, its restart command and its verification succeed are inputs of the steps; what
  the code reads of the backup XML is \<open>radio_view\<close>. \<open>sy_trace\<close> records, in order, every job a batch writes
  to the database and every restart command it gives. Times are microseconds; the local time of a time zone is
  a function parameter. Device locks, the disk quota and error messages are one outcome, \<open>Preflight\<close>;
  a failing database is not modelled.
\<close>

section \<open>Data\<close>

record target =
  tg_device_id :: string
  tg_ip_address :: string
  tg_name :: string

record reboot_result =
  re_device_id :: string
  re_name :: string
  re_status :: string
  re_backup_sha256 :: string
  re_verified :: "bool option"

record reboot_job =
  jb_id :: string
  jb_status :: string
  jb_device_ids :: "string list"
  jb_scheduled :: bool
  jb_results :: "reboot_result list"

record device_row =
  dr_device_id :: string
  dr_ip_address :: string
  dr_name :: string

datatype claim = ClaimedBy string | Skipped

record reboot_db =
  rb_jobs :: "(string \<times> reboot_job) list"
  rb_active :: "(string \<times> int) option"
  rb_setup :: lease_table
  rb_occurrences :: "(string \<times> claim) list"
  rb_devices :: "device_row list"
  rb_telnet :: "string list"

datatype reboot_err = BadSelection | ProtectedTarget | PolicyUnavailable | Refused | Stopping

section \<open>The schedule\<close>

record schedule =
  sc_enabled :: bool
  sc_device_ids :: "string list"
  sc_time :: string
  sc_weekdays :: "int list"
  sc_timezone :: string

definition schedule_default :: schedule where
  "schedule_default = \<lparr>sc_enabled = False, sc_device_ids = [], sc_time = ''04:00'', sc_weekdays = [0, 1, 2, 3, 4, 5, 6], sc_timezone = ''Europe/Berlin''\<rparr>"

record local_time =
  lt_weekday :: int
  lt_clock :: string
  lt_date :: string

definition schedule_occurrence :: "(string \<Rightarrow> int \<Rightarrow> local_time) \<Rightarrow> schedule \<Rightarrow> int \<Rightarrow> string option" where
  "schedule_occurrence zone sc instant =
     (if \<not> sc_enabled sc then None
      else (let local = zone (sc_timezone sc) instant in
        if lt_weekday local \<notin> set (sc_weekdays sc) \<or> lt_clock local \<noteq> sc_time sc then None
        else Some (lt_date local @ ''@'' @ sc_timezone sc)))"

section \<open>Starting a batch\<close>

definition resolve_target :: "net \<Rightarrow> protection \<Rightarrow> reboot_db \<Rightarrow> string \<Rightarrow> reboot_err + target" where
  "resolve_target net p db i = (case find (\<lambda>d. dr_device_id d = i) (rb_devices db) of
     None \<Rightarrow> Inl BadSelection
   | Some d \<Rightarrow>
       (case require_unprotected_device net p (Some \<lparr>sd_device_id = dr_device_id d, sd_ip_address = dr_ip_address d\<rparr>) of
          Inl ProtectedDevice \<Rightarrow> Inl ProtectedTarget
        | Inl ProtectionPolicyUnavailable \<Rightarrow> Inl PolicyUnavailable
        | Inr _ \<Rightarrow> if nt_parse net (dr_ip_address d) = None then Inl BadSelection
            else Inr \<lparr>tg_device_id = dr_device_id d, tg_ip_address = dr_ip_address d,
                   tg_name = (if dr_name d = [] then dr_device_id d else dr_name d)\<rparr>))"

definition resolve_targets :: "net \<Rightarrow> protection \<Rightarrow> reboot_db \<Rightarrow> string list \<Rightarrow> reboot_err + target list" where
  "resolve_targets net p db ids =
     (if \<not> (1 \<le> length ids \<and> length ids \<le> 16) \<or> \<not> distinct ids then Inl BadSelection else rmap (resolve_target net p db) ids)"

definition LEASE :: int where "LEASE = 20 * 60 * 1000000"

definition put_job :: "reboot_job \<Rightarrow> (string \<times> reboot_job) list \<Rightarrow> (string \<times> reboot_job) list" where
  "put_job j jobs = (jb_id j, j) # filter (\<lambda>kv. fst kv \<noteq> jb_id j) jobs"

definition interrupt_previous :: "string \<Rightarrow> reboot_db \<Rightarrow> reboot_db" where
  "interrupt_previous i db = (case map_of (rb_jobs db) i of None \<Rightarrow> db
     | Some j \<Rightarrow> db\<lparr>rb_jobs := put_job (j\<lparr>jb_status := ''INTERRUPTED_NO_REPLAY''\<rparr>) (rb_jobs db)\<rparr>)"

definition batch_owner :: "string \<Rightarrow> string" where
  "batch_owner i = ''radio-reboot:'' @ i"

definition take_setup_lease :: "string \<Rightarrow> int \<Rightarrow> lease_table \<Rightarrow> lease_table option" where
  "take_setup_lease i now table =
     (let mine = \<lparr>owner_id = batch_owner i, job_id = i, expires_at = Some (now + LEASE)\<rparr> in
      case table of
        None \<Rightarrow> Some (Some mine)
      | Some row \<Rightarrow> if expires_at row = None \<or> not_after (expires_at row) now \<or> owner_id row = [] then Some (Some mine) else None)"

definition new_reboot_job :: "string \<Rightarrow> string list \<Rightarrow> bool \<Rightarrow> reboot_job" where
  "new_reboot_job i ids scheduled = \<lparr>jb_id = i, jb_status = ''PREPARING'', jb_device_ids = ids, jb_scheduled = scheduled, jb_results = []\<rparr>"

text \<open>\<open>start\<close> up to its commit. A raised exception leaves the transaction uncommitted.\<close>

definition start_tx ::
    "net \<Rightarrow> protection \<Rightarrow> string list \<Rightarrow> string \<Rightarrow> string list \<Rightarrow> string option \<Rightarrow> int \<Rightarrow> reboot_db \<Rightarrow> reboot_err + (reboot_job \<times> target list) \<times> reboot_db" where
  "start_tx net p locked i ids occurrence now db = rbind (resolve_targets net p db ids) (\<lambda>targets.
     if list_ex (\<lambda>d. d \<in> set (rb_telnet db)) ids then Inl Refused
     else if list_ex (\<lambda>t. tg_device_id t \<in> set locked) targets then Inl Refused
     else if (case rb_active db of None \<Rightarrow> False | Some (_, e) \<Rightarrow> now < e) then Inl Refused
     else (let db1 = (case rb_active db of None \<Rightarrow> db | Some (previous, _) \<Rightarrow> interrupt_previous previous db);
               job = new_reboot_job i ids (occurrence \<noteq> None) in
       case take_setup_lease i now (rb_setup db1) of
         None \<Rightarrow> Inl Refused
       | Some setup \<Rightarrow>
           if occurrence \<notin> {None, Some []} \<and> the occurrence \<in> fst ` set (rb_occurrences db1) then Inl Refused
           else Inr ((job, targets), db1\<lparr>rb_active := Some (i, now + LEASE), rb_setup := setup,
                  rb_occurrences := (if occurrence \<in> {None, Some []} then rb_occurrences db1 else (the occurrence, ClaimedBy i) # rb_occurrences db1),
                  rb_jobs := put_job job (rb_jobs db1)\<rparr>)))"

section \<open>Batches\<close>

record radio_view =
  rv_source :: string
  rv_zone_master :: string
  rv_zone_members :: nat

definition standby :: "radio_view \<Rightarrow> bool" where
  "standby v = (upper (rv_source v) = ''STANDBY'')"

definition in_zone :: "radio_view \<Rightarrow> bool" where
  "in_zone v = (rv_zone_master v \<noteq> [] \<or> rv_zone_members v \<noteq> 0)"

datatype task_phase = Queued | Sending | Verifying | Finished

datatype stage = Created | Locking | Backup nat | Recheck nat | Dispatch "task_phase list" | Done

record batch =
  ba_job :: reboot_job
  ba_targets :: "target list"
  ba_allow_interrupt :: bool
  ba_stage :: stage

datatype reboot_event = Saved reboot_job | Commanded string string

record reboot_system =
  sy_db :: reboot_db
  sy_batches :: "batch list"
  sy_stopping :: bool
  sy_trace :: "reboot_event list"

definition persist :: "reboot_job \<Rightarrow> reboot_system \<Rightarrow> reboot_system" where
  "persist j sy = sy\<lparr>sy_db := (sy_db sy)\<lparr>rb_jobs := put_job j (rb_jobs (sy_db sy))\<rparr>, sy_trace := sy_trace sy @ [Saved j]\<rparr>"

definition put_batch :: "batch \<Rightarrow> reboot_system \<Rightarrow> reboot_system" where
  "put_batch b sy = sy\<lparr>sy_batches := map (\<lambda>x. if jb_id (ba_job x) = jb_id (ba_job b) then b else x) (sy_batches sy)\<rparr>"

text \<open>The \<open>finally\<close> block: the job is written and whatever the batch still owns is given back.\<close>

definition give_back :: "string \<Rightarrow> reboot_db \<Rightarrow> reboot_db" where
  "give_back i db = db\<lparr>
     rb_active := (case rb_active db of Some (owner, e) \<Rightarrow> if owner = i then None else Some (owner, e) | None \<Rightarrow> None),
     rb_setup := map_option (\<lambda>row. if owner_id row = batch_owner i then \<lparr>owner_id = [], job_id = [], expires_at = None\<rparr> else row) (rb_setup db)\<rparr>"

definition finish :: "string \<Rightarrow> batch \<Rightarrow> reboot_system \<Rightarrow> reboot_system" where
  "finish status b sy = (let j = (ba_job b)\<lparr>jb_status := status\<rparr>; sy1 = persist j (put_batch (b\<lparr>ba_job := j, ba_stage := Done\<rparr>) sy) in
     sy1\<lparr>sy_db := give_back (jb_id j) (sy_db sy1)\<rparr>)"

text \<open>An exception that reaches the outer handler, and a cancellation.\<close>

definition fail_batch :: "batch \<Rightarrow> reboot_system \<Rightarrow> reboot_system" where
  "fail_batch b sy = finish (if jb_status (ba_job b) = ''PREPARING'' then ''BLOCKED_NO_REBOOT'' else ''PARTIAL_OR_UNCONFIRMED'') b sy"

definition blocked :: "batch \<Rightarrow> radio_view \<Rightarrow> bool" where
  "blocked b v = (in_zone v \<or> (\<not> standby v \<and> (jb_scheduled (ba_job b) \<or> \<not> ba_allow_interrupt b)))"

definition after_backup :: "nat \<Rightarrow> batch \<Rightarrow> stage" where
  "after_backup i b = (if Suc i < length (ba_targets b) then Backup (Suc i) else Recheck 0)"

definition backup_step :: "nat \<Rightarrow> (string \<times> radio_view) option \<Rightarrow> batch \<Rightarrow> reboot_system \<Rightarrow> reboot_system" where
  "backup_step i outcome b sy = (case outcome of
     None \<Rightarrow> fail_batch b sy
   | Some (sha, view) \<Rightarrow>
       if blocked b view then fail_batch b sy
       else (let t = ba_targets b ! i;
                 r = \<lparr>re_device_id = tg_device_id t, re_name = tg_name t, re_status = ''BACKED_UP'', re_backup_sha256 = sha, re_verified = None\<rparr>;
                 j = (ba_job b)\<lparr>jb_results := jb_results (ba_job b) @ [r]\<rparr>
             in persist j (put_batch (b\<lparr>ba_job := j, ba_stage := after_backup i b\<rparr>) sy)))"

definition recheck_step :: "nat \<Rightarrow> radio_view option \<Rightarrow> net \<Rightarrow> protection \<Rightarrow> batch \<Rightarrow> reboot_system \<Rightarrow> reboot_system" where
  "recheck_step i outcome net p b sy = (case outcome of
     None \<Rightarrow> fail_batch b sy
   | Some view \<Rightarrow>
       if blocked b view then fail_batch b sy
       else (let t = ba_targets b ! i in
         case resolve_targets net p (sy_db sy) [tg_device_id t] of
           Inl _ \<Rightarrow> fail_batch b sy
         | Inr ts \<Rightarrow>
             if tg_ip_address (hd ts) \<noteq> tg_ip_address t then fail_batch b sy
             else if Suc i < length (ba_targets b) then put_batch (b\<lparr>ba_stage := Recheck (Suc i)\<rparr>) sy
             else (let j = (ba_job b)\<lparr>jb_status := ''DISPATCHING''\<rparr> in
               persist j (put_batch (b\<lparr>ba_job := j, ba_stage := Dispatch (map (\<lambda>_. Queued) (ba_targets b))\<rparr>) sy))))"

definition set_result :: "nat \<Rightarrow> (reboot_result \<Rightarrow> reboot_result) \<Rightarrow> reboot_job \<Rightarrow> reboot_job" where
  "set_result k f j = j\<lparr>jb_results := (jb_results j)[k := f (jb_results j ! k)]\<rparr>"

text \<open>One step of task \<open>k\<close>: its new phase, and what it does to its result and to the trace.\<close>

definition task_update :: "nat \<Rightarrow> task_phase list \<Rightarrow> task_phase \<Rightarrow> (reboot_result \<Rightarrow> reboot_result) \<Rightarrow> batch \<Rightarrow> reboot_system \<Rightarrow> batch \<times> reboot_system" where
  "task_update k phases ph f b sy = (let j = set_result k f (ba_job b); b' = b\<lparr>ba_job := j, ba_stage := Dispatch (phases[k := ph])\<rparr>
     in (b', persist j (put_batch b' sy)))"

definition holds_lease :: "string \<Rightarrow> int \<Rightarrow> reboot_db \<Rightarrow> bool" where
  "holds_lease i now db = (case rb_active db of Some (owner, e) \<Rightarrow> owner = i \<and> now < e | None \<Rightarrow> False)"

text \<open>After the last task the gathered batch is closed.\<close>

definition gather :: "batch \<times> reboot_system \<Rightarrow> reboot_system" where
  "gather bs = (case bs of (b, sy) \<Rightarrow> (case ba_stage b of
     Dispatch phases \<Rightarrow> if list_all (\<lambda>ph. ph = Finished) phases
       then finish (if list_all (\<lambda>r. re_verified r = Some True) (jb_results (ba_job b)) then ''VERIFIED'' else ''PARTIAL_OR_UNCONFIRMED'') b sy
       else sy
   | _ \<Rightarrow> sy))"

datatype task_input = Turn int | SendDone bool | VerifyDone "(string \<times> bool) option"

definition task_step :: "nat \<Rightarrow> task_input \<Rightarrow> task_phase list \<Rightarrow> batch \<Rightarrow> reboot_system \<Rightarrow> reboot_system" where
  "task_step k input phases b sy = (case (phases ! k, input) of
     (Queued, Turn now) \<Rightarrow>
       if 4 \<le> length (filter (\<lambda>ph. ph = Sending) phases) then sy
       else if \<not> holds_lease (jb_id (ba_job b)) now (sy_db sy)
       then gather (task_update k phases Finished (\<lambda>r. r\<lparr>re_status := ''COMMAND_UNCONFIRMED_NO_RETRY''\<rparr>) b sy)
       else (case task_update k phases Sending (\<lambda>r. r\<lparr>re_status := ''COMMAND_ATTEMPTED''\<rparr>) b sy of
          (b', sy') \<Rightarrow> sy'\<lparr>sy_trace := sy_trace sy' @ [Commanded (jb_id (ba_job b)) (tg_device_id (ba_targets b ! k))]\<rparr>)
   | (Sending, SendDone True) \<Rightarrow> snd (task_update k phases Verifying (\<lambda>r. r\<lparr>re_status := ''WAITING_FOR_RESTART''\<rparr>) b sy)
   | (Sending, SendDone False) \<Rightarrow> gather (task_update k phases Finished (\<lambda>r. r\<lparr>re_status := ''COMMAND_UNCONFIRMED_NO_RETRY''\<rparr>) b sy)
   | (Verifying, VerifyDone (Some (status, verified))) \<Rightarrow>
       gather (task_update k phases Finished (\<lambda>r. r\<lparr>re_status := status, re_verified := Some verified\<rparr>) b sy)
   | (Verifying, VerifyDone None) \<Rightarrow>
       gather (task_update k phases Finished (\<lambda>r. r\<lparr>re_status := ''VERIFICATION_FAILED'', re_verified := Some False\<rparr>) b sy)
   | _ \<Rightarrow> sy)"

datatype batch_input =
    Begin
  | Preflight bool
  | BackupDone "(string \<times> radio_view) option"
  | RecheckDone "radio_view option" net protection
  | Task nat task_input
  | Expired
  | Cancelled

text \<open>A task that is cancelled before its first step never enters the \<open>try\<close> block.\<close>

definition batch_step :: "batch_input \<Rightarrow> batch \<Rightarrow> reboot_system \<Rightarrow> reboot_system" where
  "batch_step input b sy = (case (ba_stage b, input) of
     (Done, _) \<Rightarrow> sy
   | (Created, Begin) \<Rightarrow> put_batch (b\<lparr>ba_stage := Locking\<rparr>) sy
   | (Created, Cancelled) \<Rightarrow> put_batch (b\<lparr>ba_stage := Done\<rparr>) sy
   | (Created, _) \<Rightarrow> sy
   | (_, Cancelled) \<Rightarrow> finish ''INTERRUPTED_NO_REPLAY'' b sy
   | (_, Expired) \<Rightarrow> fail_batch b sy
   | (Locking, Preflight ok) \<Rightarrow> if ok then put_batch (b\<lparr>ba_stage := Backup 0\<rparr>) sy else fail_batch b sy
   | (Backup i, BackupDone outcome) \<Rightarrow> backup_step i outcome b sy
   | (Recheck i, RecheckDone outcome net p) \<Rightarrow> recheck_step i outcome net p b sy
   | (Dispatch phases, Task k t) \<Rightarrow> if k < length phases then task_step k t phases b sy else sy
   | _ \<Rightarrow> sy)"

section \<open>The manager\<close>

definition start_batch ::
    "net \<Rightarrow> protection \<Rightarrow> string list \<Rightarrow> string \<Rightarrow> string list \<Rightarrow> bool \<Rightarrow> string option \<Rightarrow> int \<Rightarrow> (reboot_system, reboot_err, reboot_job) act" where
  "start_batch net p locked i ids allow_interrupt occurrence now sy =
     (if sy_stopping sy then (Inl Stopping, sy)
      else (case start_tx net p locked i ids occurrence now (sy_db sy) of
          Inl e \<Rightarrow> (Inl e, sy)
        | Inr ((job, targets), db) \<Rightarrow>
            (Inr job, sy\<lparr>sy_db := db, sy_trace := sy_trace sy @ [Saved job],
               sy_batches := sy_batches sy @ [\<lparr>ba_job = job, ba_targets = targets, ba_allow_interrupt = allow_interrupt, ba_stage = Created\<rparr>]\<rparr>)))"

text \<open>\<open>tick\<close>: an occurrence that cannot be started is skipped for good, unless the failure is not one of those it catches.\<close>

definition tick ::
    "(string \<Rightarrow> int \<Rightarrow> local_time) \<Rightarrow> net \<Rightarrow> protection \<Rightarrow> string list \<Rightarrow> string \<Rightarrow> schedule option \<Rightarrow> int \<Rightarrow> (reboot_system, reboot_err, unit) act" where
  "tick zone net p locked i stored now sy =
     (let sc = (case stored of None \<Rightarrow> schedule_default | Some s \<Rightarrow> s) in
      case schedule_occurrence zone sc now of
        None \<Rightarrow> (Inr (), sy)
      | Some occurrence \<Rightarrow>
          if occurrence \<in> fst ` set (rb_occurrences (sy_db sy)) then (Inr (), sy)
          else (case start_batch net p locked i (sc_device_ids sc) False (Some occurrence) now sy of
              (Inr _, sy') \<Rightarrow> (Inr (), sy')
            | (Inl e, sy') \<Rightarrow>
                if e \<in> {Stopping, PolicyUnavailable} then (Inl e, sy')
                else (Inr (), sy'\<lparr>sy_db := (sy_db sy')\<lparr>rb_occurrences := (occurrence, Skipped) # rb_occurrences (sy_db sy')\<rparr>\<rparr>)))"

text \<open>
  What can happen: a request or the schedule starts a batch, a batch advances, the inventory or the
  unfinished Telnet jobs change, the setup coordinator changes its lease, the manager stops.
\<close>

datatype manager_event =
    Start net protection "string list" string "string list" bool int
  | Tick "string \<Rightarrow> int \<Rightarrow> local_time" net protection "string list" string "schedule option" int
  | Advance string batch_input
  | Inventory "device_row list" "string list"
  | SetupChange lease_table
  | Stop

fun manager_step :: "manager_event \<Rightarrow> reboot_system \<Rightarrow> reboot_system" where
  "manager_step (Start net p locked i ids allow now) sy = snd (start_batch net p locked i ids allow None now sy)"
| "manager_step (Tick zone net p locked i stored now) sy = snd (tick zone net p locked i stored now sy)"
| "manager_step (Advance i input) sy = (case find (\<lambda>b. jb_id (ba_job b) = i) (sy_batches sy) of None \<Rightarrow> sy | Some b \<Rightarrow> batch_step input b sy)"
| "manager_step (Inventory ds ts) sy = sy\<lparr>sy_db := (sy_db sy)\<lparr>rb_devices := ds, rb_telnet := ts\<rparr>\<rparr>"
| "manager_step (SetupChange t) sy = sy\<lparr>sy_db := (sy_db sy)\<lparr>rb_setup := t\<rparr>\<rparr>"
| "manager_step Stop sy = sy\<lparr>sy_stopping := True\<rparr>"

definition manager_run :: "manager_event list \<Rightarrow> reboot_system \<Rightarrow> reboot_system" where
  "manager_run es sy = fold manager_step es sy"

definition empty_system :: reboot_system where
  "empty_system = \<lparr>sy_db = \<lparr>rb_jobs = [], rb_active = None, rb_setup = None, rb_occurrences = [], rb_devices = [], rb_telnet = []\<rparr>,
     sy_batches = [], sy_stopping = False, sy_trace = []\<rparr>"

end
