(* ===== verification/RebootLaws.thy ===== *)
theory RebootLaws
  imports RadioReboots
begin

text \<open>
  Reboot batches: the invariant of all batches and of the trace, and what it says about restart
  commands, leases and scheduled occurrences.
\<close>

section \<open>The invariant\<close>

abbreviation batch_id :: "batch \<Rightarrow> string" where
  "batch_id b \<equiv> jb_id (ba_job b)"

definition backed_up :: "reboot_job \<Rightarrow> bool" where
  "backed_up j = list_all (\<lambda>r. re_status r = ''BACKED_UP'') (jb_results j)"

definition result_ids :: "reboot_job \<Rightarrow> string list" where
  "result_ids j = map re_device_id (jb_results j)"

definition wf_batch :: "batch \<Rightarrow> bool" where
  "wf_batch b = (let j = ba_job b; n = length (ba_targets b) in
     distinct (jb_device_ids j) \<and> map tg_device_id (ba_targets b) = jb_device_ids j \<and> 0 < n \<and>
     (case ba_stage b of
        Created \<Rightarrow> jb_status j = ''PREPARING'' \<and> jb_results j = []
      | Locking \<Rightarrow> jb_status j = ''PREPARING'' \<and> jb_results j = []
      | Backup i \<Rightarrow> jb_status j = ''PREPARING'' \<and> i < n \<and> result_ids j = take i (jb_device_ids j) \<and> backed_up j
      | Recheck i \<Rightarrow> jb_status j = ''PREPARING'' \<and> i < n \<and> result_ids j = jb_device_ids j \<and> backed_up j
      | Dispatch phases \<Rightarrow> jb_status j = ''DISPATCHING'' \<and> length phases = n \<and> result_ids j = jb_device_ids j
      | Done \<Rightarrow> True))"

text \<open>The restart of a device has been attempted by a batch.\<close>

definition attempted :: "batch \<Rightarrow> string \<Rightarrow> bool" where
  "attempted b d = (\<exists>k < length (ba_targets b). tg_device_id (ba_targets b ! k) = d \<and>
     (case ba_stage b of Dispatch phases \<Rightarrow> phases ! k \<noteq> Queued | Done \<Rightarrow> True | _ \<Rightarrow> False))"

text \<open>A job on record with a backup of each of its devices.\<close>

definition all_backed_up :: "string \<Rightarrow> string list \<Rightarrow> reboot_event list \<Rightarrow> bool" where
  "all_backed_up i ids tr = (\<exists>j. Saved j \<in> set tr \<and> jb_id j = i \<and> jb_device_ids j = ids \<and> jb_status j = ''DISPATCHING'' \<and>
     result_ids j = ids \<and> backed_up j)"

text \<open>What precedes a restart command.\<close>

definition justified :: "reboot_event list \<Rightarrow> string \<Rightarrow> string \<Rightarrow> bool" where
  "justified pre i d = (Commanded i d \<notin> set pre \<and> pre \<noteq> [] \<and>
     (\<exists>j r. last pre = Saved j \<and> jb_id j = i \<and> jb_status j = ''DISPATCHING'' \<and> r \<in> set (jb_results j) \<and> re_device_id r = d \<and>
        re_status r = ''COMMAND_ATTEMPTED'' \<and> result_ids j = jb_device_ids j \<and> all_backed_up i (jb_device_ids j) pre))"

definition write_ahead :: "reboot_event list \<Rightarrow> bool" where
  "write_ahead tr = (\<forall>pre post i d. tr = pre @ Commanded i d # post \<longrightarrow> justified pre i d)"

lemma write_ahead_saved: "write_ahead tr \<Longrightarrow> write_ahead (tr @ [Saved j])"
  unfolding write_ahead_def
proof (intro allI impI)
  fix pre post i d
  assume w: "\<forall>pre post i d. tr = pre @ Commanded i d # post \<longrightarrow> justified pre i d" and e: "tr @ [Saved j] = pre @ Commanded i d # post"
  then obtain post' where "tr = pre @ Commanded i d # post'" by (cases post rule: rev_cases) auto
  then show "justified pre i d" using w by blast
qed

lemma write_ahead_commanded: "write_ahead tr \<Longrightarrow> justified tr i d \<Longrightarrow> write_ahead (tr @ [Commanded i d])"
  unfolding write_ahead_def
proof (intro allI impI)
  fix pre post i' d'
  assume w: "\<forall>pre post i d. tr = pre @ Commanded i d # post \<longrightarrow> justified pre i d" and jf: "justified tr i d"
    and e: "tr @ [Commanded i d] = pre @ Commanded i' d' # post"
  show "justified pre i' d'"
  proof (cases post rule: rev_cases)
    case Nil
    then show ?thesis using e jf by simp
  next
    case (snoc ps x)
    then have "tr = pre @ Commanded i' d' # ps" using e by simp
    then show ?thesis using w by blast
  qed
qed

lemma all_backed_up_mono: "all_backed_up i ids tr \<Longrightarrow> all_backed_up i ids (tr @ evs)"
  by (auto simp: all_backed_up_def)

definition dispatching :: "batch \<Rightarrow> bool" where
  "dispatching b = (case ba_stage b of Dispatch _ \<Rightarrow> True | _ \<Rightarrow> False)"

definition batches_ok :: "reboot_system \<Rightarrow> bool" where
  "batches_ok sy = (distinct (map batch_id (sy_batches sy)) \<and>
     (\<forall>b \<in> set (sy_batches sy). wf_batch b \<and> (dispatching b \<longrightarrow> all_backed_up (batch_id b) (jb_device_ids (ba_job b)) (sy_trace sy))) \<and>
     (\<forall>i d. Commanded i d \<in> set (sy_trace sy) \<longrightarrow> (\<exists>b \<in> set (sy_batches sy). batch_id b = i \<and> attempted b d)) \<and>
     write_ahead (sy_trace sy))"

section \<open>Steps of a batch\<close>

lemma put_batch_set:
  assumes "batch_id b' = batch_id b" "b \<in> set (sy_batches sy)" "distinct (map batch_id (sy_batches sy))"
  shows "set (sy_batches (put_batch b' sy)) = insert b' (set (sy_batches sy) - {b})" "map batch_id (sy_batches (put_batch b' sy)) = map batch_id (sy_batches sy)"
proof -
  have "x = b" if "x \<in> set (sy_batches sy)" "batch_id x = batch_id b" for x
    using assms(2,3) that by (auto simp: distinct_map inj_on_def)
  then show "set (sy_batches (put_batch b' sy)) = insert b' (set (sy_batches sy) - {b})"
    using assms(1,2) by (auto simp: put_batch_def image_iff)
  show "map batch_id (sy_batches (put_batch b' sy)) = map batch_id (sy_batches sy)"
    using assms(1) by (auto simp: put_batch_def)
qed

lemma batches_ok_put:
  assumes "batches_ok sy" "b \<in> set (sy_batches sy)" "batch_id b' = batch_id b" "wf_batch b'"
    and "dispatching b' \<Longrightarrow> all_backed_up (batch_id b) (jb_device_ids (ba_job b')) (sy_trace sy @ evs)"
    and "\<And>d. attempted b d \<Longrightarrow> attempted b' d" "write_ahead (sy_trace sy @ evs)"
    and "\<And>i d. Commanded i d \<in> set evs \<Longrightarrow> i = batch_id b \<and> attempted b' d"
    and "sy_batches sy' = sy_batches (put_batch b' sy)" "sy_trace sy' = sy_trace sy @ evs"
  shows "batches_ok sy'" "b' \<in> set (sy_batches sy')"
proof -
  note d = assms(1) [unfolded batches_ok_def]
  note s = put_batch_set [OF assms(3,2) conjunct1 [OF d]]
  show "b' \<in> set (sy_batches sy')" using s assms(9) by simp
  have "wf_batch x \<and> (dispatching x \<longrightarrow> all_backed_up (batch_id x) (jb_device_ids (ba_job x)) (sy_trace sy @ evs))" if "x \<in> set (sy_batches sy')" for x
    using that d assms(3-5,9) s all_backed_up_mono by auto
  moreover have "\<exists>x \<in> set (sy_batches sy'). batch_id x = i \<and> attempted x dv" if c: "Commanded i dv \<in> set (sy_trace sy @ evs)" for i dv
  proof (cases "Commanded i dv \<in> set evs")
    case True
    then show ?thesis using assms(3,8,9) s by auto
  next
    case False
    then obtain x where "x \<in> set (sy_batches sy)" "batch_id x = i" "attempted x dv" using c d by (metis Un_iff set_append)
    then show ?thesis using assms(3,6,9) s by (cases "x = b") auto
  qed
  ultimately show "batches_ok sy'" using d s assms(7,9,10) by (auto simp: batches_ok_def)
qed

lemma persist_simps [simp]: "sy_batches (persist j sy) = sy_batches sy" "sy_trace (persist j sy) = sy_trace sy @ [Saved j]"
  by (simp_all add: persist_def)

lemma put_batch_trace [simp]: "sy_trace (put_batch b sy) = sy_trace sy"
  by (simp add: put_batch_def)

lemma attempted_Done: "attempted b d \<Longrightarrow> ba_targets b' = ba_targets b \<Longrightarrow> ba_stage b' = Done \<Longrightarrow> attempted b' d"
  by (auto simp: attempted_def)

lemma finish_ok:
  assumes "batches_ok sy" "b \<in> set (sy_batches sy)"
  shows "batches_ok (finish status b sy)"
proof (rule batches_ok_put(1) [OF assms, where b' = "b\<lparr>ba_job := (ba_job b)\<lparr>jb_status := status\<rparr>, ba_stage := Done\<rparr>"
      and evs = "[Saved ((ba_job b)\<lparr>jb_status := status\<rparr>)]"])
  show "wf_batch (b\<lparr>ba_job := (ba_job b)\<lparr>jb_status := status\<rparr>, ba_stage := Done\<rparr>)"
    using assms by (auto simp: batches_ok_def wf_batch_def Let_def)
  show "write_ahead (sy_trace sy @ [Saved ((ba_job b)\<lparr>jb_status := status\<rparr>)])"
    using assms(1) write_ahead_saved by (auto simp: batches_ok_def)
  show "attempted b d \<Longrightarrow> attempted (b\<lparr>ba_job := (ba_job b)\<lparr>jb_status := status\<rparr>, ba_stage := Done\<rparr>) d" for d
    by (rule attempted_Done) simp_all
qed (simp_all add: finish_def Let_def dispatching_def)

lemma fail_batch_ok: "batches_ok sy \<Longrightarrow> b \<in> set (sy_batches sy) \<Longrightarrow> batches_ok (fail_batch b sy)"
  by (simp add: fail_batch_def finish_ok)

lemma gather_ok: "batches_ok sy \<Longrightarrow> b \<in> set (sy_batches sy) \<Longrightarrow> batches_ok (gather (b, sy))"
  by (simp add: gather_def finish_ok split: stage.split)

lemma backup_step_ok:
  assumes "batches_ok sy" "b \<in> set (sy_batches sy)" "ba_stage b = Backup i"
  shows "batches_ok (backup_step i outcome b sy)"
proof (cases outcome)
  case None
  then show ?thesis using assms fail_batch_ok by (simp add: backup_step_def)
next
  case (Some x)
  obtain sha view where x: "x = (sha, view)" by (cases x)
  show ?thesis
  proof (cases "blocked b view")
    case True
    then show ?thesis using assms fail_batch_ok Some x by (simp add: backup_step_def)
  next
    case False
    let ?t = "ba_targets b ! i"
    let ?r = "\<lparr>re_device_id = tg_device_id ?t, re_name = tg_name ?t, re_status = ''BACKED_UP'', re_backup_sha256 = sha, re_verified = None\<rparr>"
    let ?j = "(ba_job b)\<lparr>jb_results := jb_results (ba_job b) @ [?r]\<rparr>"
    let ?b = "b\<lparr>ba_job := ?j, ba_stage := after_backup i b\<rparr>"
    have wf: "distinct (jb_device_ids (ba_job b))" "map tg_device_id (ba_targets b) = jb_device_ids (ba_job b)" "i < length (ba_targets b)"
        "jb_status (ba_job b) = ''PREPARING''" "result_ids (ba_job b) = take i (jb_device_ids (ba_job b))" "backed_up (ba_job b)"
      using assms by (auto simp: batches_ok_def wf_batch_def Let_def)
    have "take i (jb_device_ids (ba_job b)) @ [tg_device_id ?t] = take (Suc i) (jb_device_ids (ba_job b))"
      using wf(3) unfolding wf(2) [symmetric] by (simp add: take_Suc_conv_app_nth)
    moreover have "\<not> Suc i < length (ba_targets b) \<Longrightarrow> take (Suc i) (jb_device_ids (ba_job b)) = jb_device_ids (ba_job b)"
      unfolding wf(2) [symmetric] by simp
    ultimately have w: "wf_batch ?b"
      using wf by (auto simp: wf_batch_def Let_def after_backup_def result_ids_def backed_up_def)
    have step: "backup_step i outcome b sy = persist ?j (put_batch ?b sy)"
      using False Some x by (simp add: backup_step_def Let_def)
    show ?thesis unfolding step
    proof (rule batches_ok_put(1) [OF assms(1,2), where b' = ?b and evs = "[Saved ?j]"])
      show "write_ahead (sy_trace sy @ [Saved ?j])" using assms(1) write_ahead_saved by (auto simp: batches_ok_def)
    qed (use w assms(3) in \<open>auto simp: dispatching_def attempted_def after_backup_def split: if_splits\<close>)
  qed
qed

lemma recheck_step_ok:
  assumes "batches_ok sy" "b \<in> set (sy_batches sy)" "ba_stage b = Recheck i"
  shows "batches_ok (recheck_step i outcome net p b sy)"
proof -
  let ?j = "(ba_job b)\<lparr>jb_status := ''DISPATCHING''\<rparr>"
  let ?b = "b\<lparr>ba_job := ?j, ba_stage := Dispatch (map (\<lambda>_. Queued) (ba_targets b))\<rparr>"
  have wf: "wf_batch b" "result_ids (ba_job b) = jb_device_ids (ba_job b)" "backed_up (ba_job b)"
    using assms by (auto simp: batches_ok_def wf_batch_def Let_def)
  have next_ok: "batches_ok (put_batch (b\<lparr>ba_stage := Recheck (Suc i)\<rparr>) sy)" if "Suc i < length (ba_targets b)"
  proof (rule batches_ok_put(1) [OF assms(1,2), where b' = "b\<lparr>ba_stage := Recheck (Suc i)\<rparr>" and evs = "[]"])
    show "write_ahead (sy_trace sy @ [])" using assms(1) by (simp add: batches_ok_def)
  qed (use wf assms(3) that in \<open>auto simp: dispatching_def attempted_def wf_batch_def Let_def\<close>)
  have go_ok: "batches_ok (persist ?j (put_batch ?b sy))"
  proof (rule batches_ok_put(1) [OF assms(1,2), where b' = ?b and evs = "[Saved ?j]"])
    show "write_ahead (sy_trace sy @ [Saved ?j])" using assms(1) write_ahead_saved by (auto simp: batches_ok_def)
    show "all_backed_up (batch_id b) (jb_device_ids (ba_job ?b)) (sy_trace sy @ [Saved ?j])"
      using wf by (auto simp: all_backed_up_def result_ids_def backed_up_def)
  qed (use wf assms(3) in \<open>auto simp: dispatching_def attempted_def wf_batch_def Let_def result_ids_def\<close>)
  show ?thesis
    using next_ok go_ok fail_batch_ok [OF assms(1,2)] by (auto simp: recheck_step_def Let_def split: option.splits sum.splits)
qed

section \<open>Steps of a task\<close>

lemma set_result_ids:
  assumes "\<And>r. re_device_id (f r) = re_device_id r"
  shows "result_ids (set_result k f j) = result_ids j"
  by (cases "k < length (jb_results j)") (auto simp: result_ids_def set_result_def assms nth_list_update intro: nth_equalityI)

lemma task_update_ok:
  assumes "batches_ok sy" "b \<in> set (sy_batches sy)" "ba_stage b = Dispatch phases" "k < length phases" "ph \<noteq> Queued"
    and "\<And>r. re_device_id (f r) = re_device_id r" "task_update k phases ph f b sy = (b', sy')"
  shows "batches_ok sy'" "b' \<in> set (sy_batches sy')" "batch_id b' = batch_id b" "ba_targets b' = ba_targets b"
    "ba_stage b' = Dispatch (phases[k := ph])" "wf_batch b'"
proof -
  let ?j = "set_result k f (ba_job b)"
  let ?b = "b\<lparr>ba_job := ?j, ba_stage := Dispatch (phases[k := ph])\<rparr>"
  have b': "b' = ?b" "sy' = persist ?j (put_batch ?b sy)" using assms(7) by (auto simp: task_update_def Let_def)
  have wf: "wf_batch b" "dispatching b" using assms(1-3) by (auto simp: batches_ok_def dispatching_def)
  have same: "jb_id ?j = batch_id b" "jb_device_ids ?j = jb_device_ids (ba_job b)" "jb_status ?j = jb_status (ba_job b)"
    by (simp_all add: set_result_def)
  have w: "wf_batch ?b" using wf(1) assms(3) set_result_ids [OF assms(6)] same by (auto simp: wf_batch_def Let_def)
  have at: "attempted b d \<Longrightarrow> attempted ?b d" for d
    using assms(3-5) by (auto simp: attempted_def nth_list_update)
  note put = batches_ok_put [OF assms(1,2), where b' = ?b and evs = "[Saved ?j]" and sy' = sy']
  have e: "all_backed_up (batch_id b) (jb_device_ids (ba_job ?b)) (sy_trace sy @ [Saved ?j])"
    using assms(1,2) wf(2) all_backed_up_mono same by (auto simp: batches_ok_def)
  have wa: "write_ahead (sy_trace sy @ [Saved ?j])" using assms(1) write_ahead_saved by (auto simp: batches_ok_def)
  show "batches_ok sy'" "b' \<in> set (sy_batches sy')"
    using put [OF _ w e at wa] same b' by auto
  show "batch_id b' = batch_id b" "ba_targets b' = ba_targets b" "ba_stage b' = Dispatch (phases[k := ph])" "wf_batch b'"
    using b' same w by auto
qed

text \<open>The command of a queued task, right after its attempt was written down.\<close>

lemma command_ok:
  assumes "batches_ok sy" "b \<in> set (sy_batches sy)" "ba_stage b = Dispatch phases" "k < length phases" "phases ! k = Queued"
    and "task_update k phases Sending (\<lambda>r. r\<lparr>re_status := ''COMMAND_ATTEMPTED''\<rparr>) b sy = (b', sy')"
  shows "batches_ok (sy'\<lparr>sy_trace := sy_trace sy' @ [Commanded (batch_id b) (tg_device_id (ba_targets b ! k))]\<rparr>)"
proof -
  let ?f = "\<lambda>r. r\<lparr>re_status := ''COMMAND_ATTEMPTED''\<rparr>" and ?d = "tg_device_id (ba_targets b ! k)"
  let ?j = "set_result k ?f (ba_job b)"
  note ok = task_update_ok [OF assms(1-4) _ _ assms(6), simplified]
  have wf: "distinct (jb_device_ids (ba_job b))" "map tg_device_id (ba_targets b) = jb_device_ids (ba_job b)" "k < length (ba_targets b)"
      "jb_status (ba_job b) = ''DISPATCHING''" "result_ids (ba_job b) = jb_device_ids (ba_job b)"
    using assms(1-4) by (auto simp: batches_ok_def wf_batch_def Let_def)
  have tr: "sy_trace sy' = sy_trace sy @ [Saved ?j]" using assms(6) by (auto simp: task_update_def Let_def)
  have len: "length (jb_results (ba_job b)) = length (ba_targets b)" using arg_cong [OF wf(5), of length] arg_cong [OF wf(2), of length] by (simp add: result_ids_def)
  have dev: "re_device_id (jb_results (ba_job b) ! k) = ?d"
    using wf(2,3,5) len unfolding result_ids_def by (metis nth_map)
  have "Commanded (batch_id b) ?d \<notin> set (sy_trace sy)"
  proof
    assume "Commanded (batch_id b) ?d \<in> set (sy_trace sy)"
    then obtain x where "x \<in> set (sy_batches sy)" "batch_id x = batch_id b" "attempted x ?d"
      using assms(1) unfolding batches_ok_def by blast
    then have "attempted b ?d" using assms(1,2) by (auto simp: batches_ok_def distinct_map inj_on_def)
    then obtain k' where k': "k' < length (ba_targets b)" "tg_device_id (ba_targets b ! k') = ?d" "phases ! k' \<noteq> Queued"
      using assms(3) by (auto simp: attempted_def)
    have "k' = k" using wf(1-3) k'(1,2) by (metis distinct_conv_nth length_map nth_map)
    then show False using k'(3) assms(5) by simp
  qed
  moreover have "?f (jb_results (ba_job b) ! k) \<in> set (jb_results ?j)"
    using wf(3) len by (simp add: set_result_def set_update_memI)
  moreover have "all_backed_up (batch_id b) (jb_device_ids ?j) (sy_trace sy')"
    using assms(1-3) all_backed_up_mono by (auto simp: batches_ok_def dispatching_def set_result_def tr)
  ultimately have jf: "justified (sy_trace sy') (batch_id b) ?d"
    unfolding justified_def using wf(4,5) dev set_result_ids [of ?f k "ba_job b"]
    by (intro conjI exI [of _ ?j] exI [of _ "?f (jb_results (ba_job b) ! k)"]) (simp_all add: tr set_result_def)
  have wa: "write_ahead (sy_trace sy')" using ok(1) by (simp add: batches_ok_def)
  have at: "attempted b' ?d" using ok(4,5) wf(3) assms(4) by (auto simp: attempted_def)
  have "sy_batches sy' = sy_batches (put_batch b' sy')"
    using ok(1,2) by (auto simp: put_batch_def batches_ok_def distinct_map inj_on_def intro: map_idI [symmetric])
  then show ?thesis
    using batches_ok_put(1) [OF ok(1,2), where b' = b' and evs = "[Commanded (batch_id b) ?d]"
        and sy' = "sy'\<lparr>sy_trace := sy_trace sy' @ [Commanded (batch_id b) ?d]\<rparr>"] ok write_ahead_commanded [OF wa jf] at all_backed_up_mono
    by (auto simp: batches_ok_def)
qed

lemma task_step_ok:
  assumes "batches_ok sy" "b \<in> set (sy_batches sy)" "ba_stage b = Dispatch phases" "k < length phases"
  shows "batches_ok (task_step k input phases b sy)"
proof -
  have up: "batches_ok (gather (task_update k phases ph f b sy))" "batches_ok (snd (task_update k phases ph f b sy))"
    if "ph \<noteq> Queued" "\<And>r. re_device_id (f r) = re_device_id r" for ph f
    using task_update_ok(1,2) [OF assms that] gather_ok by (metis prod.collapse)+
  have cmd: "batches_ok (case task_update k phases Sending (\<lambda>r. r\<lparr>re_status := ''COMMAND_ATTEMPTED''\<rparr>) b sy of
      (b', sy') \<Rightarrow> sy'\<lparr>sy_trace := sy_trace sy' @ [Commanded (batch_id b) (tg_device_id (ba_targets b ! k))]\<rparr>)" if "phases ! k = Queued"
    using command_ok [OF assms that] by (simp split: prod.split)
  show ?thesis using assms(1) up cmd
    by (simp add: task_step_def split: task_phase.split task_input.split bool.split option.split prod.split)
qed

lemma batch_step_ok:
  assumes "batches_ok sy" "b \<in> set (sy_batches sy)"
  shows "batches_ok (batch_step input b sy)"
proof -
  have pre: "batches_ok (put_batch (b\<lparr>ba_stage := st\<rparr>) sy)"
    if st: "ba_stage b = Created \<and> st \<in> {Locking, Done} \<or> ba_stage b = Locking \<and> st = Backup 0" for st
  proof (rule batches_ok_put(1) [OF assms, where b' = "b\<lparr>ba_stage := st\<rparr>" and evs = "[]"])
    have "wf_batch b" using assms by (simp add: batches_ok_def)
    then show "wf_batch (b\<lparr>ba_stage := st\<rparr>)" using st by (auto simp: wf_batch_def Let_def result_ids_def backed_up_def)
    show "write_ahead (sy_trace sy @ [])" using assms(1) by (simp add: batches_ok_def)
  qed (use st in \<open>auto simp: dispatching_def attempted_def\<close>)
  show ?thesis
    using assms pre finish_ok [OF assms] fail_batch_ok [OF assms] backup_step_ok [OF assms] recheck_step_ok [OF assms] task_step_ok [OF assms]
    by (simp add: batch_step_def split: stage.split batch_input.split)
qed

section \<open>The manager\<close>

lemma resolve_targets_ids:
  assumes "resolve_targets net p db ids = Inr ts"
  shows "map tg_device_id ts = ids" "distinct ids" "ts \<noteq> []"
proof -
  have r: "rmap (resolve_target net p db) ids = Inr ts" "distinct ids" "1 \<le> length ids"
    using assms by (auto simp: resolve_targets_def split: if_splits)
  have one: "tg_device_id t = i" if "resolve_target net p db i = Inr t" for i t
    using that by (auto simp: resolve_target_def find_Some_iff split: option.splits sum.splits protection_err.splits if_splits)
  have "length ts = length ids" by (rule rmap_Inr_length [OF r(1)])
  then show "map tg_device_id ts = ids" using one rmap_Inr_nth [OF r(1)] by (simp add: list_eq_iff_nth_eq)
  show "distinct ids" "ts \<noteq> []" using r \<open>length ts = length ids\<close> by auto
qed

lemma start_tx_Inr:
  assumes "start_tx net p locked i ids occ now db = Inr ((job, ts), db')"
  obtains db1 lease where "resolve_targets net p db ids = Inr ts" "job = new_reboot_job i ids (occ \<noteq> None)"
    "case rb_active db of None \<Rightarrow> True | Some (_, e) \<Rightarrow> e \<le> now" "rb_setup db1 = rb_setup db" "rb_occurrences db1 = rb_occurrences db"
    "take_setup_lease i now (rb_setup db) = Some lease"
    "occ \<in> {None, Some []} \<or> the occ \<notin> fst ` set (rb_occurrences db)"
    "db' = db1\<lparr>rb_active := Some (i, now + LEASE), rb_setup := lease,
                  rb_occurrences := (if occ \<in> {None, Some []} then rb_occurrences db1 else (the occ, ClaimedBy i) # rb_occurrences db1),
                  rb_jobs := put_job job (rb_jobs db1)\<rparr>"
proof -
  let ?db1 = "case rb_active db of None \<Rightarrow> db | Some (previous, _) \<Rightarrow> interrupt_previous previous db"
  have same: "rb_setup ?db1 = rb_setup db" "rb_occurrences ?db1 = rb_occurrences db"
    by (auto simp: interrupt_previous_def split: option.splits)
  obtain ts' where t: "resolve_targets net p db ids = Inr ts'" using assms by (auto simp: start_tx_def rbind_Inr_iff)
  have act: "\<not> (case rb_active db of None \<Rightarrow> False | Some (_, e) \<Rightarrow> now < e)"
    using assms t by (auto simp: start_tx_def split: if_splits)
  obtain lease where su: "take_setup_lease i now (rb_setup db) = Some lease"
    using assms t same by (cases "take_setup_lease i now (rb_setup db)") (auto simp: start_tx_def Let_def split: if_splits)
  have "occ \<in> {None, Some []} \<or> the occ \<notin> fst ` set (rb_occurrences db)"
    using assms t su same by (auto simp: start_tx_def Let_def split: if_splits)
  moreover have "ts' = ts \<and> job = new_reboot_job i ids (occ \<noteq> None) \<and> db' = ?db1\<lparr>rb_active := Some (i, now + LEASE), rb_setup := lease,
                  rb_occurrences := (if occ \<in> {None, Some []} then rb_occurrences ?db1 else (the occ, ClaimedBy i) # rb_occurrences ?db1),
                  rb_jobs := put_job job (rb_jobs ?db1)\<rparr>"
    using assms t su same unfolding start_tx_def Let_def by (auto split: if_splits)
  moreover have "case rb_active db of None \<Rightarrow> True | Some (_, e) \<Rightarrow> e \<le> now" using act by (auto split: option.splits)
  ultimately show thesis using that t su same by blast
qed

lemma start_batch_ok:
  assumes "batches_ok sy" "i \<notin> set (map batch_id (sy_batches sy))" "start_batch net p locked i ids allow occ now sy = (r, sy')"
  shows "batches_ok sy' \<and> set (map batch_id (sy_batches sy')) \<subseteq> insert i (set (map batch_id (sy_batches sy)))"
proof (cases "sy_stopping sy \<or> isl (start_tx net p locked i ids occ now (sy_db sy))")
  case True
  then show ?thesis using assms by (auto simp: start_batch_def split: sum.splits if_splits)
next
  case False
  then obtain job ts db where tx: "start_tx net p locked i ids occ now (sy_db sy) = Inr ((job, ts), db)"
    by (cases "start_tx net p locked i ids occ now (sy_db sy)") auto
  let ?b = "\<lparr>ba_job = job, ba_targets = ts, ba_allow_interrupt = allow, ba_stage = Created\<rparr>"
  have sy': "sy' = sy\<lparr>sy_db := db, sy_trace := sy_trace sy @ [Saved job], sy_batches := sy_batches sy @ [?b]\<rparr>"
    using assms(3) False tx by (simp add: start_batch_def)
  have job: "resolve_targets net p (sy_db sy) ids = Inr ts" "job = new_reboot_job i ids (occ \<noteq> None)" using start_tx_Inr [OF tx] by blast+
  have "wf_batch ?b" using resolve_targets_ids [OF job(1)] job(2) by (auto simp: wf_batch_def Let_def new_reboot_job_def)
  moreover have "write_ahead (sy_trace sy @ [Saved job])" using assms(1) write_ahead_saved by (auto simp: batches_ok_def)
  ultimately show ?thesis
    using assms(1,2) all_backed_up_mono job(2) unfolding sy' by (fastforce simp: batches_ok_def dispatching_def new_reboot_job_def)
qed

fun event_ids :: "manager_event \<Rightarrow> string list" where
  "event_ids (Start net p locked i ids allow now) = [i]"
| "event_ids (Tick zone net p locked i stored now) = [i]"
| "event_ids _ = []"

lemma batches_ok_db: "batches_ok (sy\<lparr>sy_db := db\<rparr>) = batches_ok sy"
  by (simp add: batches_ok_def)

lemma batch_ids_step: "map batch_id (sy_batches (batch_step input b sy)) = map batch_id (sy_batches sy)"
proof -
  have put: "map batch_id (sy_batches (put_batch b' sy0)) = map batch_id (sy_batches sy0)" for b' sy0
    by (simp add: put_batch_def)
  have fin: "map batch_id (sy_batches (finish st b' sy0)) = map batch_id (sy_batches sy0)" for st b' sy0
    by (simp add: finish_def Let_def put)
  have ga: "map batch_id (sy_batches (gather (b', sy0))) = map batch_id (sy_batches sy0)" for b' sy0
    by (simp add: gather_def fin split: stage.split)
  have up: "map batch_id (sy_batches (gather (task_update k phases ph f b sy))) = map batch_id (sy_batches sy)"
      "map batch_id (sy_batches (snd (task_update k phases ph f b sy))) = map batch_id (sy_batches sy)" for k phases ph f
    by (simp_all add: task_update_def Let_def ga put)
  have task: "map batch_id (sy_batches (task_step k t phases b sy)) = map batch_id (sy_batches sy)" for k t phases
    using up(2) [of k phases Sending] by (simp add: task_step_def up case_prod_beta split: task_phase.split task_input.split bool.split option.split)
  have bk: "map batch_id (sy_batches (backup_step k x b sy)) = map batch_id (sy_batches sy)" for k x
    by (simp add: backup_step_def fail_batch_def fin put Let_def split: option.split prod.split)
  have re: "map batch_id (sy_batches (recheck_step k x net p b sy)) = map batch_id (sy_batches sy)" for k x net p
    by (simp add: recheck_step_def fail_batch_def fin put Let_def split: option.split sum.split)
  show ?thesis by (simp add: batch_step_def fin fail_batch_def put task bk re split: stage.split batch_input.split)
qed

lemma manager_step_ok:
  assumes "batches_ok sy" "set (event_ids e) \<inter> set (map batch_id (sy_batches sy)) = {}"
  shows "batches_ok (manager_step e sy) \<and> set (map batch_id (sy_batches (manager_step e sy))) \<subseteq> set (event_ids e) \<union> set (map batch_id (sy_batches sy))"
proof (cases e)
  case (Start net p locked i ids allow now)
  then show ?thesis using start_batch_ok [of sy i net p locked ids allow None now "fst x" "snd x" for x] assms by auto
next
  case (Tick zone net p locked i stored now)
  have st: "batches_ok (snd (start_batch net p locked i ids False (Some oc) now sy)) \<and>
      set (map batch_id (sy_batches (snd (start_batch net p locked i ids False (Some oc) now sy)))) \<subseteq> insert i (set (map batch_id (sy_batches sy)))" for ids oc
    using start_batch_ok [OF assms(1), of i net p locked ids False "Some oc" now] assms(2) Tick by (metis event_ids.simps(2) disjoint_insert(1) inf_commute list.set(2) prod.collapse)
  then show ?thesis using assms(1) unfolding Tick
    by (auto simp: tick_def Let_def batches_ok_db split: option.splits if_splits prod.splits sum.splits) (metis (no_types, lifting) insertE snd_conv subsetD image_eqI)+
next
  case (Advance i input)
  then show ?thesis using assms batch_ids_step [of input]
    by (auto simp: find_Some_iff batch_step_ok split: option.splits) (metis batch_ids_step image_eqI image_set)+
qed (use assms in \<open>auto simp: batches_ok_db batches_ok_def\<close>)

lemma manager_run_ok:
  assumes "batches_ok sy" "distinct (concat (map event_ids es))" "set (concat (map event_ids es)) \<inter> set (map batch_id (sy_batches sy)) = {}"
  shows "batches_ok (manager_run es sy)"
  using assms
proof (induction es arbitrary: sy)
  case Nil
  then show ?case by (simp add: manager_run_def)
next
  case (Cons e es)
  have ids: "set (event_ids e) \<inter> set (map batch_id (sy_batches sy)) = {}" using Cons.prems(3) by auto
  note st = manager_step_ok [OF Cons.prems(1) ids]
  have "set (concat (map event_ids es)) \<inter> set (map batch_id (sy_batches (manager_step e sy))) = {}"
    using conjunct2 [OF st] Cons.prems(2,3) by (simp del: set_map set_concat) blast
  then show ?case using Cons.IH [of "manager_step e sy"] st Cons.prems(2) by (simp add: manager_run_def)
qed

lemma tick_claims:
  assumes "schedule_occurrence zone sc u = Some x" "tick zone net p locked i (Some sc) u sy = (Inr (), sy2)"
  shows "x \<in> fst ` set (rb_occurrences (sy_db sy2))"
proof (cases "x \<in> fst ` set (rb_occurrences (sy_db sy))")
  case True
  then show ?thesis using assms by (simp add: tick_def)
next
  case False
  have x: "x \<noteq> []" using assms(1) by (auto simp: schedule_occurrence_def Let_def split: if_splits)
  obtain r sy' where s: "start_batch net p locked i (sc_device_ids sc) False (Some x) u sy = (r, sy')"
    by (cases "start_batch net p locked i (sc_device_ids sc) False (Some x) u sy")
  show ?thesis
  proof (cases r)
    case (Inl e)
    then show ?thesis using assms False s by (auto simp: tick_def split: if_splits)
  next
    case (Inr job)
    obtain ts db where tx: "start_tx net p locked i (sc_device_ids sc) (Some x) u (sy_db sy) = Inr ((job, ts), db)" and db: "sy_db sy' = db"
      using s Inr by (auto simp: start_batch_def split: if_splits sum.splits)
    have "(x, ClaimedBy i) \<in> set (rb_occurrences db)" by (rule start_tx_Inr [OF tx]) (use x in auto)
    moreover have "sy2 = sy'" using assms False s Inr by (simp add: tick_def)
    ultimately show ?thesis using db by force
  qed
qed

section \<open>Properties\<close>

text \<open>
  C35. A radio is restarted only on record, once. However batches of several workers interleave, are
  cancelled, expire or lose their lease, every restart command directly follows the database write
  that says it is attempted; before it the batch wrote down, when it began to dispatch, a successful
  backup of every radio of the batch; and no batch commands a radio twice. (Identifiers of batches are
  distinct, as those of \<open>uuid4\<close> are.)
\<close>

theorem reboots_on_record:
  assumes "distinct (concat (map event_ids es))" "sy_trace (manager_run es empty_system) = pre @ Commanded i d # post"
  shows "Commanded i d \<notin> set (pre @ post) \<and> pre \<noteq> [] \<and>
    (\<exists>j r. last pre = Saved j \<and> jb_id j = i \<and> jb_status j = ''DISPATCHING'' \<and> r \<in> set (jb_results j) \<and> re_device_id r = d \<and>
      re_status r = ''COMMAND_ATTEMPTED'' \<and>
      (\<exists>j0. Saved j0 \<in> set pre \<and> jb_id j0 = i \<and> jb_device_ids j0 = jb_device_ids j \<and> jb_status j0 = ''DISPATCHING'' \<and>
         map re_device_id (jb_results j0) = jb_device_ids j \<and> (\<forall>r0 \<in> set (jb_results j0). re_status r0 = ''BACKED_UP'')))"
proof -
  have "batches_ok empty_system" by (simp add: batches_ok_def empty_system_def write_ahead_def)
  then have wa: "write_ahead (pre @ Commanded i d # post)"
    using manager_run_ok [of empty_system es] assms by (simp add: batches_ok_def empty_system_def)
  have jf: "justified pre i d" using wa unfolding write_ahead_def by blast
  have "Commanded i d \<notin> set post"
  proof
    assume "Commanded i d \<in> set post"
    then obtain us vs where "post = us @ Commanded i d # vs" by (meson split_list)
    then have "justified (pre @ Commanded i d # us) i d" using wa unfolding write_ahead_def by (metis append_Cons append_assoc)
    then show False by (simp add: justified_def)
  qed
  then show ?thesis using jf unfolding justified_def all_backed_up_def result_ids_def backed_up_def list_all_iff by auto
qed

definition example_view :: radio_view where
  "example_view = \<lparr>rv_source = ''STANDBY'', rv_zone_master = [], rv_zone_members = 0\<rparr>"

definition example_start :: manager_event where
  "example_start = Start example_net example_protection [] ''x'' [''A1''] False 5"

text \<open>One radio is backed up, checked again and restarted.\<close>

definition example_events :: "manager_event list" where
  "example_events = [Inventory [\<lparr>dr_device_id = ''A1'', dr_ip_address = ''8.8.8.8'', dr_name = []\<rparr>] [], example_start,
     Advance ''x'' Begin, Advance ''x'' (Preflight True), Advance ''x'' (BackupDone (Some (''sha'', example_view))),
     Advance ''x'' (RecheckDone (Some example_view) example_net example_protection), Advance ''x'' (Task 0 (Turn 6))]"

theorem reboots_on_record_witness:
  "\<exists>pre j. sy_trace (manager_run example_events empty_system) = pre @ [Commanded ''x'' ''A1''] \<and> last pre = Saved j \<and> jb_status j = ''DISPATCHING''"
proof -
  let ?tr = "sy_trace (manager_run example_events empty_system)"
  have d: "distinct (concat (map event_ids example_events))" by (simp add: example_events_def example_start_def)
  have "?tr = butlast ?tr @ [Commanded ''x'' ''A1'']" by code_simp
  then show ?thesis using reboots_on_record [OF d, of "butlast ?tr" "''x''" "''A1''" "[]"] by metis
qed



end
