(* ===== verification/DeviceLocks.thy ===== *)
theory DeviceLocks
  imports DeviceIngress "HOL-Library.Char_ord" "HOL-Library.List_Lexorder"
begin

text \<open>
  Transaction ownership of several radios (app/services/device_transactions.py over
  app/services/device_ownership.py): any number of tasks, of one worker or of several, open
  transactions, wait for the lock of one device after the other, open further transactions inside
  them and close them again, interleaved at every attempt to take a lock. A lock file is named by the
  identity it is derived from; distinct identities have distinct files.
\<close>

section \<open>Tasks and their transactions\<close>

record frame =
  fr_targets :: "string list"
  fr_wait :: "string list"
  fr_acquired :: "string list"
  fr_token :: "string list option option"

record task =
  tk_frames :: "frame list"
  tk_active :: "string list option"

record locks =
  lk_owner :: "string \<Rightarrow> nat option"
  lk_tasks :: "nat \<Rightarrow> task"

definition normalized :: "string list \<Rightarrow> string list" where
  "normalized targets = sort (remdups (map (\<lambda>v. upper (strip v)) targets))"

definition owned_by :: "locks \<Rightarrow> nat \<Rightarrow> string \<Rightarrow> bool" where
  "owned_by s t d = (lk_owner s d = Some t)"

definition waiting :: "task \<Rightarrow> bool" where
  "waiting k = (case tk_frames k of f # _ \<Rightarrow> fr_wait f \<noteq> [] | [] \<Rightarrow> False)"

definition put_task :: "nat \<Rightarrow> task \<Rightarrow> locks \<Rightarrow> locks" where
  "put_task t k s = s\<lparr>lk_tasks := (lk_tasks s)(t := k)\<rparr>"

text \<open>\<open>_active.set\<close> once the last lock is held: an inner transaction keeps the set of the outermost.\<close>

definition enter :: "frame \<Rightarrow> frame list \<Rightarrow> task \<Rightarrow> task" where
  "enter f fs k = (if fr_wait f = []
     then k\<lparr>tk_frames := f\<lparr>fr_token := Some (tk_active k)\<rparr> # fs,
            tk_active := Some (case tk_active k of None \<Rightarrow> fr_targets f | Some a \<Rightarrow> a)\<rparr>
     else k\<lparr>tk_frames := f # fs\<rparr>)"

definition open_transaction :: "nat \<Rightarrow> string list \<Rightarrow> (locks, lock_err, unit) act" where
  "open_transaction t targets s = (let ids = normalized targets; k = lk_tasks s t in
     if ids = [] \<or> list_ex (\<lambda>d. d = [] \<or> 128 < length d) ids then (Inl DeviceLockUnavailable, s)
     else if (case tk_active k of Some a \<Rightarrow> \<not> list_all (\<lambda>d. d \<in> set a) ids | None \<Rightarrow> False) then (Inl DeviceBusy, s)
     else if list_ex (owned_by s t) ids \<and> \<not> list_all (owned_by s t) ids then (Inl DeviceBusy, s)
     else (Inr (), put_task t (enter \<lparr>fr_targets = ids, fr_wait = filter (\<lambda>d. \<not> owned_by s t d) ids,
        fr_acquired = [], fr_token = None\<rparr> (tk_frames k) k) s))"

text \<open>The \<open>finally\<close> block: the context variable is restored and every acquired lock released.\<close>

definition close_frame :: "nat \<Rightarrow> locks \<Rightarrow> locks" where
  "close_frame t s = (let k = lk_tasks s t in case tk_frames k of
     [] \<Rightarrow> s
   | f # fs \<Rightarrow> put_task t \<lparr>tk_frames = fs, tk_active = (case fr_token f of None \<Rightarrow> tk_active k | Some old \<Rightarrow> old)\<rparr>
       (s\<lparr>lk_owner := (\<lambda>d. if d \<in> set (fr_acquired f) then None else lk_owner s d)\<rparr>))"

text \<open>
  One round of the loop in \<open>acquire\<close> for the next lock: take it if it is free, give up at the
  deadline, or sleep. A file or directory that fails its checks ends the transaction as well.
\<close>

definition poll_lock :: "nat \<Rightarrow> bool \<Rightarrow> bool \<Rightarrow> (locks, lock_err, unit) act" where
  "poll_lock t usable late s = (let k = lk_tasks s t in case tk_frames k of
     [] \<Rightarrow> (Inr (), s)
   | f # fs \<Rightarrow> (case fr_wait f of
       [] \<Rightarrow> (Inr (), s)
     | d # ds \<Rightarrow>
         if \<not> usable then (Inl DeviceLockUnavailable, close_frame t s)
         else if lk_owner s d = None
         then (Inr (), put_task t (enter (f\<lparr>fr_wait := ds, fr_acquired := d # fr_acquired f\<rparr>) fs k)
           (s\<lparr>lk_owner := (lk_owner s)(d \<mapsto> t)\<rparr>))
         else if late then (Inl DeviceBusy, close_frame t s)
         else (Inr (), s)))"

text \<open>
  What a task may do next: only a task that does not wait runs its own code, only one that waits
  polls, and a cancellation reaches it in either state.
\<close>

datatype lock_action = Open nat "string list" | Poll nat bool bool | Leave nat

fun lock_step :: "lock_action \<Rightarrow> (locks, lock_err, unit) act" where
  "lock_step (Open t targets) s = (if waiting (lk_tasks s t) then (Inr (), s) else open_transaction t targets s)"
| "lock_step (Poll t usable late) s = poll_lock t usable late s"
| "lock_step (Leave t) s = (Inr (), close_frame t s)"

definition lock_run :: "lock_action list \<Rightarrow> locks \<Rightarrow> locks" where
  "lock_run = fold (\<lambda>a s. snd (lock_step a s))"

definition no_locks :: locks where
  "no_locks = \<lparr>lk_owner = (\<lambda>_. None), lk_tasks = (\<lambda>_. \<lparr>tk_frames = [], tk_active = None\<rparr>)\<rparr>"

section \<open>The invariant\<close>

text \<open>
  The outermost transaction of a task holds its locks in order, the inner ones borrow them.
\<close>

definition outer_ok :: "frame \<Rightarrow> bool" where
  "outer_ok f = (sorted (fr_targets f) \<and> distinct (fr_targets f) \<and> fr_targets f \<noteq> [] \<and>
     rev (fr_acquired f) @ fr_wait f = fr_targets f \<and>
     fr_token f = (if fr_wait f = [] then Some None else None))"

definition inner_ok :: "frame \<Rightarrow> frame \<Rightarrow> bool" where
  "inner_ok outer f = (set (fr_targets f) \<subseteq> set (fr_targets outer) \<and> fr_wait f = [] \<and> fr_acquired f = [] \<and>
     fr_token f = Some (Some (fr_targets outer)))"

definition task_ok :: "task \<Rightarrow> bool" where
  "task_ok k = (case rev (tk_frames k) of
     [] \<Rightarrow> tk_active k = None
   | o' # gs \<Rightarrow> outer_ok o' \<and> list_all (inner_ok o') gs \<and> (gs \<noteq> [] \<longrightarrow> fr_wait o' = []) \<and>
       tk_active k = (if fr_wait o' = [] then Some (fr_targets o') else None))"

definition task_holds :: "task \<Rightarrow> string set" where
  "task_holds k = (\<Union>f \<in> set (tk_frames k). set (fr_acquired f))"

definition locks_ok :: "locks \<Rightarrow> bool" where
  "locks_ok s = ((\<forall>t. task_ok (lk_tasks s t)) \<and>
     (\<forall>t d. lk_owner s d = Some t \<longleftrightarrow> d \<in> task_holds (lk_tasks s t)) \<and>
     finite {t. tk_frames (lk_tasks s t) \<noteq> []})"

lemma task_okE [consumes 1, case_names idle alone nested]:
  assumes "task_ok k"
  obtains "tk_frames k = []" "tk_active k = None"
  | f where "tk_frames k = [f]" "outer_ok f" "tk_active k = (if fr_wait f = [] then Some (fr_targets f) else None)"
  | f gs outer where "tk_frames k = f # gs @ [outer]" "inner_ok outer f" "list_all (inner_ok outer) gs" "outer_ok outer"
      "fr_wait outer = []" "tk_active k = Some (fr_targets outer)"
proof (cases "rev (tk_frames k)")
  case Nil
  then show thesis using assms that(1) by (simp add: task_ok_def)
next
  case (Cons outer rest)
  then have fr: "tk_frames k = rev rest @ [outer]" by (metis rev.simps(2) rev_rev_ident)
  show thesis
  proof (cases "rev rest")
    case Nil
    then show thesis using assms fr Cons that(2) [of outer] by (simp add: task_ok_def)
  next
    case C: (Cons f gs)
    then have "rest = rev gs @ [f]" by (metis rev.simps(2) rev_rev_ident)
    then show thesis using assms fr Cons C that(3) [of f gs outer] by (simp add: task_ok_def)
  qed
qed

lemma task_ok_simps:
  "task_ok \<lparr>tk_frames = [], tk_active = None\<rparr>"
  "task_ok \<lparr>tk_frames = fs @ [outer], tk_active = a\<rparr> \<longleftrightarrow> outer_ok outer \<and> list_all (inner_ok outer) (rev fs) \<and>
     (fs \<noteq> [] \<longrightarrow> fr_wait outer = []) \<and> a = (if fr_wait outer = [] then Some (fr_targets outer) else None)"
  by (simp_all add: task_ok_def)

lemma inner_holds: "list_all (inner_ok outer) gs \<Longrightarrow> (\<Union>f \<in> set gs. set (fr_acquired f)) = {}"
  by (auto simp: list_all_iff inner_ok_def)

lemma normalized_sorted [simp]: "sorted (normalized ts)" "distinct (normalized ts)"
  by (simp_all add: normalized_def)

lemma put_task_simps [simp]:
  "lk_tasks (put_task t k s) = (lk_tasks s)(t := k)" "lk_owner (put_task t k s) = lk_owner s"
  by (simp_all add: put_task_def)

lemma locks_ok_put:
  assumes "locks_ok s" "task_ok k" "\<And>d. own d = Some t \<longleftrightarrow> d \<in> task_holds k"
    and "\<And>d u. u \<noteq> t \<Longrightarrow> own d = Some u \<longleftrightarrow> lk_owner s d = Some u"
  shows "locks_ok (put_task t k (s\<lparr>lk_owner := own\<rparr>))"
proof -
  have "finite {u. tk_frames (((lk_tasks s)(t := k)) u) \<noteq> []}"
    by (rule finite_subset [of _ "insert t {u. tk_frames (lk_tasks s u) \<noteq> []}"]) (use assms(1) in \<open>auto simp: locks_ok_def\<close>)
  then show ?thesis using assms by (auto simp: locks_ok_def)
qed

lemma locks_okD:
  assumes "locks_ok s"
  shows "task_ok (lk_tasks s t)" "lk_owner s d = Some t \<longleftrightarrow> d \<in> task_holds (lk_tasks s t)"
    "finite {t. tk_frames (lk_tasks s t) \<noteq> []}"
  using assms by (simp_all add: locks_ok_def)

lemma holds_targets:
  assumes "task_ok k" "\<not> waiting k" "f \<in> set (tk_frames k)"
  shows "set (fr_targets f) \<subseteq> task_holds k"
  using assms(1)
proof (cases rule: task_okE)
  case idle
  then show ?thesis using assms(3) by simp
next
  case (alone g)
  then have "rev (fr_acquired g) = fr_targets g" using assms(2) by (simp add: outer_ok_def waiting_def)
  then have "set (fr_acquired g) = set (fr_targets g)" by (metis set_rev)
  then show ?thesis using alone assms(3) by (simp add: task_holds_def)
next
  case (nested g gs outer)
  then have "rev (fr_acquired outer) = fr_targets outer" by (simp add: outer_ok_def)
  then have "set (fr_acquired outer) = set (fr_targets outer)" by (metis set_rev)
  moreover have "set (fr_targets f) \<subseteq> set (fr_targets outer)"
    using nested assms(3) by (auto simp: inner_ok_def list_all_iff)
  ultimately show ?thesis using nested by (auto simp: task_holds_def)
qed

lemma open_ok:
  assumes ok: "locks_ok s" and idle: "\<not> waiting (lk_tasks s t)"
  shows "locks_ok (snd (open_transaction t ts s))"
proof (cases "fst (open_transaction t ts s)")
  case (Inl e)
  then have "snd (open_transaction t ts s) = s" by (auto simp: open_transaction_def Let_def split: if_splits)
  then show ?thesis using ok by simp
next
  case (Inr u)
  let ?k = "lk_tasks s t" and ?ids = "normalized ts"
  let ?f = "\<lparr>fr_targets = ?ids, fr_wait = filter (\<lambda>d. \<not> owned_by s t d) ?ids, fr_acquired = [], fr_token = None\<rparr>"
  have r: "snd (open_transaction t ts s) = put_task t (enter ?f (tk_frames ?k) ?k) s" "?ids \<noteq> []"
    and act: "\<And>a. tk_active ?k = Some a \<Longrightarrow> set ?ids \<subseteq> set a"
    using Inr by (auto simp: open_transaction_def Let_def list_all_iff split: if_splits option.splits)
  have own: "owned_by s t d \<longleftrightarrow> d \<in> task_holds ?k" for d using locks_okD(2) [OF ok] by (simp add: owned_by_def)
  have same: "task_holds (enter ?f (tk_frames ?k) ?k) = task_holds ?k"
    by (simp add: task_holds_def enter_def)
  have "task_ok (enter ?f (tk_frames ?k) ?k)"
    using locks_okD(1) [OF ok, of t]
  proof (cases rule: task_okE)
    case idle
    then have "filter (\<lambda>d. \<not> owned_by s t d) ?ids = ?ids" using own by (simp add: task_holds_def filter_id_conv)
    then show ?thesis using idle r(2) task_ok_simps(2) [of "[]"] by (simp add: enter_def outer_ok_def task_ok_def)
  next
    case (alone g)
    then have a: "tk_active ?k = Some (fr_targets g)" "fr_wait g = []" using idle by (simp_all add: waiting_def)
    then have "set ?ids \<subseteq> task_holds ?k" using act holds_targets [OF locks_okD(1) [OF ok] idle, of g] alone(1) by simp
    then have "filter (\<lambda>d. \<not> owned_by s t d) ?ids = []" using own by (auto simp: filter_empty_conv)
    then show ?thesis using alone a act by (simp add: enter_def task_ok_def inner_ok_def)
  next
    case (nested g gs outer)
    have "set ?ids \<subseteq> task_holds ?k"
      using act nested holds_targets [OF locks_okD(1) [OF ok] idle, of outer] by simp
    then have "filter (\<lambda>d. \<not> owned_by s t d) ?ids = []" using own by (auto simp: filter_empty_conv)
    then show ?thesis using nested act by (simp add: enter_def task_ok_def) (simp add: inner_ok_def)
  qed
  then have "locks_ok (put_task t (enter ?f (tk_frames ?k) ?k) (s\<lparr>lk_owner := lk_owner s\<rparr>))"
    using locks_okD(2) [OF ok] by (intro locks_ok_put [OF ok]) (simp_all add: same)
  then show ?thesis using r(1) by simp
qed

lemma close_ok:
  assumes ok: "locks_ok s"
  shows "locks_ok (close_frame t s)"
proof (cases "tk_frames (lk_tasks s t)")
  case Nil
  then show ?thesis using ok by (simp add: close_frame_def)
next
  case (Cons f fs)
  let ?k = "lk_tasks s t"
  let ?k' = "\<lparr>tk_frames = fs, tk_active = (case fr_token f of None \<Rightarrow> tk_active ?k | Some old \<Rightarrow> old)\<rparr>"
  let ?own = "\<lambda>d. if d \<in> set (fr_acquired f) then None else lk_owner s d"
  have own: "lk_owner s d = Some u \<longleftrightarrow> d \<in> task_holds (lk_tasks s u)" for d u by (rule locks_okD(2) [OF ok])
  have k': "task_ok ?k' \<and> task_holds ?k' = task_holds ?k - set (fr_acquired f)"
    using locks_okD(1) [OF ok, of t]
  proof (cases rule: task_okE)
    case idle
    then show ?thesis using Cons by simp
  next
    case (alone g)
    then show ?thesis using Cons by (auto simp: task_ok_def task_holds_def outer_ok_def)
  next
    case (nested g gs outer)
    then have "fs = gs @ [outer]" "f = g" using Cons by simp_all
    then show ?thesis using nested Cons
      by (auto simp: task_ok_def task_holds_def inner_ok_def list_all_iff)
  qed
  have "lk_owner s d = Some t" if "d \<in> set (fr_acquired f)" for d
    using own [of d t] Cons that by (simp add: task_holds_def)
  then have "locks_ok (put_task t ?k' (s\<lparr>lk_owner := ?own\<rparr>))"
    using k' by (intro locks_ok_put [OF ok]) (auto simp: own [symmetric])
  then show ?thesis using Cons by (simp add: close_frame_def)
qed

lemma poll_ok:
  assumes ok: "locks_ok s"
  shows "locks_ok (snd (poll_lock t usable late s))"
proof (cases "tk_frames (lk_tasks s t)")
  case Nil
  then show ?thesis using ok by (simp add: poll_lock_def)
next
  case (Cons f fs)
  show ?thesis
  proof (cases "fr_wait f")
    case Nil
    then show ?thesis using ok Cons by (simp add: poll_lock_def)
  next
    case W: (Cons d ds)
    let ?k = "lk_tasks s t" and ?f = "f\<lparr>fr_wait := ds, fr_acquired := d # fr_acquired f\<rparr>"
    have own: "lk_owner s e = Some u \<longleftrightarrow> e \<in> task_holds (lk_tasks s u)" for e u by (rule locks_okD(2) [OF ok])
    have f: "fs = []" "outer_ok f" "tk_active ?k = None"
      using locks_okD(1) [OF ok, of t] Cons W
      by (cases rule: task_okE; simp add: inner_ok_def)+
    show ?thesis
    proof (cases "usable \<and> lk_owner s d = None")
      case True
      have "outer_ok (if ds = [] then ?f\<lparr>fr_token := Some None\<rparr> else ?f)"
        using f(2) W by (auto simp: outer_ok_def)
      then have "task_ok (enter ?f fs ?k)" using f by (auto simp: enter_def task_ok_def split: if_splits)
      moreover have "task_holds (enter ?f fs ?k) = insert d (task_holds ?k)"
        using Cons f(1) by (simp add: task_holds_def enter_def)
      ultimately have "locks_ok (put_task t (enter ?f fs ?k) (s\<lparr>lk_owner := (lk_owner s)(d \<mapsto> t)\<rparr>))"
        using True by (intro locks_ok_put [OF ok]) (auto simp: own [symmetric])
      then show ?thesis using Cons W True by (simp add: poll_lock_def)
    next
      case False
      then show ?thesis using Cons W ok close_ok [OF ok] by (auto simp: poll_lock_def)
    qed
  qed
qed

lemma step_ok: "locks_ok s \<Longrightarrow> locks_ok (snd (lock_step a s))"
  by (cases a) (simp_all add: open_ok poll_ok close_ok)

lemma run_ok: "locks_ok s \<Longrightarrow> locks_ok (lock_run acts s)"
  unfolding lock_run_def by (induction acts arbitrary: s) (simp_all add: step_ok)

lemma no_locks_ok: "locks_ok no_locks"
  by (simp add: locks_ok_def no_locks_def task_ok_def task_holds_def)

section \<open>No circular wait\<close>

text \<open>A waiting task holds only locks that precede the one it waits for.\<close>

lemma waits_in_order:
  assumes "task_ok k" "tk_frames k = f # fs" "fr_wait f = d # ds" "e \<in> task_holds k"
  shows "e < d"
  using assms(1)
proof (cases rule: task_okE)
  case (alone g)
  then have g: "g = f" "fs = []" using assms(2) by simp_all
  then have "fr_targets f = rev (fr_acquired f) @ d # ds" "sorted (fr_targets f)" "distinct (fr_targets f)"
    using alone(2) assms(3) by (auto simp: outer_ok_def)
  then have "\<forall>x \<in> set (fr_acquired f). x \<le> d" "d \<notin> set (fr_acquired f)" by (auto simp: sorted_append)
  then show ?thesis using assms(2,4) g by (auto simp: task_holds_def order.strict_iff_order)
qed (use assms(2,3) in \<open>auto simp: inner_ok_def\<close>)

definition next_lock :: "locks \<Rightarrow> nat \<Rightarrow> string option" where
  "next_lock s t = (case tk_frames (lk_tasks s t) of f # _ \<Rightarrow> (case fr_wait f of d # _ \<Rightarrow> Some d | [] \<Rightarrow> None) | [] \<Rightarrow> None)"

text \<open>A task is able to go on if it runs inside its transaction or if the lock it waits for is free.\<close>

definition can_go_on :: "locks \<Rightarrow> nat \<Rightarrow> bool" where
  "can_go_on s t = (tk_frames (lk_tasks s t) \<noteq> [] \<and> (case next_lock s t of None \<Rightarrow> True | Some d \<Rightarrow> lk_owner s d = None))"

lemma next_lockE:
  assumes "next_lock s t = Some d"
  obtains f fs ds where "tk_frames (lk_tasks s t) = f # fs" "fr_wait f = d # ds"
  using assms by (auto simp: next_lock_def split: list.splits)

lemma owner_goes_on:
  assumes ok: "locks_ok s" and "lk_owner s d = Some u" "\<not> can_go_on s u"
  shows "\<exists>e. next_lock s u = Some e \<and> d < e"
proof -
  have h: "d \<in> task_holds (lk_tasks s u)" using locks_okD(2) [OF ok] assms(2) by blast
  then have "tk_frames (lk_tasks s u) \<noteq> []" by (auto simp: task_holds_def)
  then obtain e where e: "next_lock s u = Some e" using assms(3) by (auto simp: can_go_on_def split: option.splits)
  then show ?thesis using waits_in_order [OF locks_okD(1) [OF ok]] h by (metis next_lockE)
qed

lemma someone_goes_on:
  assumes ok: "locks_ok s" and "tk_frames (lk_tasks s t) \<noteq> []"
  shows "\<exists>u. can_go_on s u"
proof (rule ccontr)
  assume none: "\<nexists>u. can_go_on s u"
  let ?B = "{t. tk_frames (lk_tasks s t) \<noteq> []}" and ?N = "\<lambda>t. the (next_lock s t)"
  have blocked: "\<exists>e u. next_lock s v = Some e \<and> lk_owner s e = Some u" if "v \<in> ?B" for v
  proof -
    have "\<not> can_go_on s v" "tk_frames (lk_tasks s v) \<noteq> []" using none that by auto
    then show ?thesis by (auto simp: can_go_on_def split: option.splits)
  qed
  have fin: "finite (?N ` ?B)" and ne: "?N ` ?B \<noteq> {}" using locks_okD(3) [OF ok] assms(2) by auto
  obtain v where v: "v \<in> ?B" "?N v = Max (?N ` ?B)" using Max_in [OF fin ne] by auto
  obtain e u where e: "next_lock s v = Some e" "lk_owner s e = Some u" using blocked [OF v(1)] by blast
  obtain e' where e': "next_lock s u = Some e'" "e < e'" using owner_goes_on [OF ok e(2)] none by blast
  then have "u \<in> ?B" by (auto elim: next_lockE)
  then have "e' \<le> Max (?N ` ?B)" using fin e'(1) by (metis Max_ge imageI option.sel)
  then show False using e(1) e'(2) v(2) by simp
qed

text \<open>
  C24. Radios are owned, exclusively, in full and without deadlock. Whatever transactions any number
  of tasks open, nest, abandon and close, and however their waits interleave: a task that runs inside
  a transaction owns every radio of every transaction it has open, and nobody else does; a task with
  no transaction owns nothing; and as long as any transaction is open, some task either runs or finds
  the lock it waits for free, so waiting is never circular.
\<close>

theorem radios_owned_without_deadlock:
  fixes acts :: "lock_action list"
  defines "s \<equiv> lock_run acts no_locks"
  shows "(\<forall>t f d. \<not> waiting (lk_tasks s t) \<and> f \<in> set (tk_frames (lk_tasks s t)) \<and> d \<in> set (fr_targets f) \<longrightarrow> lk_owner s d = Some t) \<and>
    (\<forall>t d. lk_owner s d = Some t \<longrightarrow> tk_frames (lk_tasks s t) \<noteq> []) \<and>
    (\<forall>t. tk_frames (lk_tasks s t) \<noteq> [] \<longrightarrow> (\<exists>u. can_go_on s u))"
proof (intro conjI allI impI)
  have ok: "locks_ok s" unfolding s_def by (rule run_ok [OF no_locks_ok])
  show "lk_owner s d = Some t" if "\<not> waiting (lk_tasks s t) \<and> f \<in> set (tk_frames (lk_tasks s t)) \<and> d \<in> set (fr_targets f)" for t f d
    using holds_targets [OF locks_okD(1) [OF ok]] that locks_okD(2) [OF ok] by blast
  show "tk_frames (lk_tasks s t) \<noteq> []" if "lk_owner s d = Some t" for t d
    using locks_okD(2) [OF ok] that by (fastforce simp: task_holds_def)
  show "\<exists>u. can_go_on s u" if "tk_frames (lk_tasks s t) \<noteq> []" for t
    by (rule someone_goes_on [OF ok that])
qed

definition example_waits :: "lock_action list" where
  "example_waits = [Open 1 [''b'', '' a''], Open 2 [''B''], Poll 1 True False, Poll 2 True False, Poll 1 True False]"

theorem radios_owned_without_deadlock_witness:
  "tk_frames (lk_tasks (lock_run example_waits no_locks) 1) \<noteq> [] \<and> next_lock (lock_run example_waits no_locks) 1 = Some ''B'' \<and>
   lk_owner (lock_run example_waits no_locks) ''B'' = Some 2 \<and> (\<exists>u. can_go_on (lock_run example_waits no_locks) u)"
proof -
  have a: "tk_frames (lk_tasks (lock_run example_waits no_locks) 1) \<noteq> []" by code_simp
  have "next_lock (lock_run example_waits no_locks) 1 = Some ''B''" "lk_owner (lock_run example_waits no_locks) ''B'' = Some 2"
    by code_simp+
  then show ?thesis using radios_owned_without_deadlock [of example_waits] a by blast
qed

end
