(* ===== verification/RadioIO.thy ===== *)
theory RadioIO
  imports NetworkPolicy DeviceIngress "HOL-Library.Product_Lexorder"
begin

text \<open>
  What every verified write to a radio is made of: reading and writing over HTTP, the injected guard,
  the protection policy, rows added to the database and committed. The radios, the database and
  everything else that happens while a task waits are a world of an arbitrary type, and each operation
  asks it for an outcome, a fault included. What the task does is kept in a log. The second half
  states the contract of app/services/action_journal.py for radio writes: each write is preceded by
  its own committed intent.
\<close>

section \<open>XML\<close>

text \<open>
  An element as the parser returns it. A missing text reads as the empty one, as in \<open>node.text or ""\<close>.
\<close>

datatype xml = Elem (xm_tag: string) (xm_attrs: "(string \<times> string) list") (xm_text: string) (xm_children: "xml list")

definition attr :: "xml \<Rightarrow> string \<Rightarrow> string option" where
  "attr x k = map_of (xm_attrs x) k"

definition attr_or :: "xml \<Rightarrow> string \<Rightarrow> string \<Rightarrow> string" where
  "attr_or x k d = (case attr x k of Some v \<Rightarrow> v | None \<Rightarrow> d)"

definition findall :: "xml \<Rightarrow> string \<Rightarrow> xml list" where
  "findall x tag = filter (\<lambda>c. xm_tag c = tag) (xm_children x)"

definition findtext :: "xml \<Rightarrow> string \<Rightarrow> string option" where
  "findtext x tag = (case findall x tag of c # _ \<Rightarrow> Some (xm_text c) | [] \<Rightarrow> None)"

text \<open>\<open>.//tag\<close>: the first such element below the root, in document order.\<close>

fun below :: "xml \<Rightarrow> xml list" where
  "below (Elem t a x cs) = concat (map (\<lambda>c. c # below c) cs)"

definition findtext_below :: "xml \<Rightarrow> string \<Rightarrow> string option" where
  "findtext_below x tag = (case filter (\<lambda>c. xm_tag c = tag) (below x) of c # _ \<Rightarrow> Some (xm_text c) | [] \<Rightarrow> None)"

section \<open>Radios and the world\<close>

record radio =
  ra_id :: string
  ra_ip :: string
  ra_model :: string
  ra_firmware :: string
  ra_info :: string
  ra_name :: string

definition device_fingerprint :: "radio \<Rightarrow> string \<times> string \<times> string \<times> string \<times> string" where
  "device_fingerprint r = (ra_id r, ra_ip r, ra_model r, ra_firmware r, ra_info r)"

text \<open>
  The exceptions a handler can tell apart, and the error a transaction raises itself: its code and
  whether a write had been attempted, which is what \<open>reconciliation_required\<close> reports.
\<close>

datatype fault = TransportError | StatusError | IdentityMismatch | OtherError | CancelledError

datatype exc = Fault fault | Raised string bool

record 'w env =
  en_get :: "radio \<Rightarrow> string \<Rightarrow> 'w \<Rightarrow> (fault + string) \<times> 'w"
  en_post :: "radio \<Rightarrow> string \<Rightarrow> string \<Rightarrow> 'w \<Rightarrow> (fault + string) \<times> 'w"
  en_guard :: "radio \<Rightarrow> 'w \<Rightarrow> (fault + radio) \<times> 'w"
  en_refresh :: "radio \<Rightarrow> 'w \<Rightarrow> (fault + radio) \<times> 'w"
  en_lock :: "string list \<Rightarrow> 'w \<Rightarrow> (fault + unit) \<times> 'w"
  en_owned :: "string \<Rightarrow> 'w \<Rightarrow> bool"
  en_sleep :: "'w \<Rightarrow> bool \<times> 'w"
  en_flush :: "'w \<Rightarrow> (fault + nat) \<times> 'w"
  en_commit :: "'w \<Rightarrow> (fault + unit) \<times> 'w"
  en_stored :: "nat \<Rightarrow> 'w \<Rightarrow> (string \<times> string) option"
  en_known :: "'w \<Rightarrow> radio list"
  en_setting :: "string \<Rightarrow> 'w \<Rightarrow> string option"
  en_runtime :: "string \<Rightarrow> 'w \<Rightarrow> pyval option"
  en_policy :: "'w \<Rightarrow> protection"
  en_net :: net
  en_ip :: "string \<Rightarrow> ip_addr option"
  en_parse :: "string \<Rightarrow> xml option"
  en_print :: "xml \<Rightarrow> string"
  en_sha :: "string \<Rightarrow> string"
  en_dumps :: "pyval \<Rightarrow> string"

record action_row =
  aj_job :: string
  aj_device :: string
  aj_action :: string
  aj_phase :: string
  aj_backup_ref :: string
  aj_verified :: bool

datatype db_row = BackupRow nat string string string | ActionRow action_row | DeviceRow string string string | SettingRow string string
  | RuntimeRow string pyval

datatype io_event =
    Got string string "fault + string"
  | Put string string string
  | Guarded string
  | Slept
  | Owned "string list"
  | Committed "db_row list"

record 'w io =
  io_world :: 'w
  io_log :: "io_event list"
  io_pending :: "db_row list"

type_synonym ('w, 'a) iact = "('w io, exc, 'a) act"

definition lift :: "fault + 'a \<Rightarrow> exc + 'a" where
  "lift r = (case r of Inl f \<Rightarrow> Inl (Fault f) | Inr a \<Rightarrow> Inr a)"

definition note_event :: "io_event \<Rightarrow> 'w \<Rightarrow> 'w io \<Rightarrow> 'w io" where
  "note_event e w s = s\<lparr>io_world := w, io_log := io_log s @ [e]\<rparr>"

definition get_xml :: "'w env \<Rightarrow> radio \<Rightarrow> string \<Rightarrow> ('w, string) iact" where
  "get_xml env r path s = (case en_get env r path (io_world s) of
     (a, w) \<Rightarrow> (lift a, note_event (Got (ra_id r) path a) w s))"

definition post_xml :: "'w env \<Rightarrow> radio \<Rightarrow> string \<Rightarrow> string \<Rightarrow> ('w, string) iact" where
  "post_xml env r path body s = (case en_post env r path body (io_world s) of
     (a, w) \<Rightarrow> (lift a, note_event (Put (ra_id r) path body) w s))"

definition guard :: "'w env \<Rightarrow> radio \<Rightarrow> ('w, radio) iact" where
  "guard env r s = (case en_guard env r (io_world s) of (a, w) \<Rightarrow> (lift a, note_event (Guarded (ra_id r)) w s))"

text \<open>\<open>db.refresh\<close>: the stored row as it is now.\<close>

definition refresh_row :: "'w env \<Rightarrow> radio \<Rightarrow> ('w, radio) iact" where
  "refresh_row env r s = (case en_refresh env r (io_world s) of (a, w) \<Rightarrow> (lift a, s\<lparr>io_world := w\<rparr>))"

text \<open>The only exception out of a sleep is a cancellation.\<close>

definition sleep :: "'w env \<Rightarrow> ('w, unit) iact" where
  "sleep env s = (case en_sleep env (io_world s) of
     (cancelled, w) \<Rightarrow> (if cancelled then Inl (Fault CancelledError) else Inr (), note_event Slept w s))"

text \<open>Entering \<open>device_transaction\<close>: every radio named is owned until the transaction ends.\<close>

definition own_radios :: "'w env \<Rightarrow> string list \<Rightarrow> ('w, unit) iact" where
  "own_radios env ids s = (case en_lock env ids (io_world s) of (a, w) \<Rightarrow> (lift a, note_event (Owned ids) w s))"

text \<open>\<open>db.add\<close> and \<open>db.flush\<close>: the row is sent to the database, which gives a backup its identifier.\<close>

definition add_row :: "'w env \<Rightarrow> (nat \<Rightarrow> db_row) \<Rightarrow> ('w, nat) iact" where
  "add_row env row s = (case en_flush env (io_world s) of
     (Inl f, w) \<Rightarrow> (Inl (Fault f), s\<lparr>io_world := w\<rparr>)
   | (Inr n, w) \<Rightarrow> (Inr n, s\<lparr>io_world := w, io_pending := io_pending s @ [row n]\<rparr>))"

definition commit :: "'w env \<Rightarrow> ('w, unit) iact" where
  "commit env s = (case en_commit env (io_world s) of
     (Inl f, w) \<Rightarrow> (Inl (Fault f), s\<lparr>io_world := w\<rparr>)
   | (Inr _, w) \<Rightarrow> (Inr (), (note_event (Committed (io_pending s)) w s)\<lparr>io_pending := []\<rparr>))"

definition rollback :: "'w io \<Rightarrow> 'w io" where
  "rollback s = s\<lparr>io_pending := []\<rparr>"

text \<open>
  Fields of \<open>record_action\<close> that are only a text for the reader of the journal are left out; the
  others are cut to the width of their column.
\<close>

definition cut_row :: "action_row \<Rightarrow> action_row" where
  "cut_row row = row\<lparr>aj_job := take 80 (aj_job row), aj_device := take 128 (aj_device row), aj_action := take 64 (aj_action row),
     aj_phase := take 64 (aj_phase row), aj_backup_ref := take 512 (aj_backup_ref row)\<rparr>"

definition record_action :: "'w env \<Rightarrow> action_row \<Rightarrow> ('w, unit) iact" where
  "record_action env row = abind (add_row env (\<lambda>_. ActionRow (cut_row row))) (\<lambda>_. areturn ())"

text \<open>
  \<open>record_transport_attempt\<close> writes one row in a session of its own and contains every failure to do
  so. The radio is given by its identity, never only by its address.
\<close>

definition record_transport_attempt :: "'w env \<Rightarrow> action_row \<Rightarrow> 'w io \<Rightarrow> 'w io" where
  "record_transport_attempt env row s = (case en_commit env (io_world s) of
     (Inl _, w) \<Rightarrow> s\<lparr>io_world := w\<rparr>
   | (Inr _, w) \<Rightarrow> note_event (Committed [ActionRow (cut_row (row\<lparr>aj_device := upper (strip (aj_device row))\<rparr>))]) w s)"

text \<open>The texts radios answered, as the tree \<open>json.dumps\<close> prints.\<close>

definition text_tree :: "(string \<times> string) list \<Rightarrow> pyval" where
  "text_tree raw = VDict (map (\<lambda>(k, t). (k, VStr t)) raw)"

definition texts_tree :: "(string \<times> (string \<times> string) list) list \<Rightarrow> pyval" where
  "texts_tree before = VDict (map (\<lambda>(k, raw). (k, text_tree raw)) before)"

text \<open>A backup is flushed, committed by the caller and read again: its digest must not have changed.\<close>

definition stored_intact :: "'w env \<Rightarrow> nat \<Rightarrow> string \<Rightarrow> 'w io \<Rightarrow> bool" where
  "stored_intact env n digest s = (case en_stored env n (io_world s) of None \<Rightarrow> False | Some (_, c) \<Rightarrow> en_sha env c = digest)"

definition parse :: "'w env \<Rightarrow> string \<Rightarrow> exc + xml" where
  "parse env text = (case en_parse env text of None \<Rightarrow> Inl (Fault OtherError) | Some x \<Rightarrow> Inr x)"

definition stored_row :: "radio \<Rightarrow> stored_device" where
  "stored_row r = \<lparr>sd_device_id = ra_id r, sd_ip_address = ra_ip r\<rparr>"

definition unprotected :: "'w env \<Rightarrow> radio \<Rightarrow> ('w, unit) iact" where
  "unprotected env r s = (case require_unprotected_device (en_net env) (en_policy env (io_world s)) (Some (stored_row r)) of
     Inl _ \<Rightarrow> (Inl (Fault OtherError), s) | Inr _ \<Rightarrow> (Inr (), s))"

section \<open>Control flow\<close>

definition catching :: "('s, 'e, 'a) act \<Rightarrow> ('e \<Rightarrow> ('s, 'e, 'a) act) \<Rightarrow> ('s, 'e, 'a) act" where
  "catching m h s = (case m s of (Inl e, t) \<Rightarrow> h e t | (Inr a, t) \<Rightarrow> (Inr a, t))"

definition lift_result :: "exc + 'a \<Rightarrow> ('w, 'a) iact" where
  "lift_result r s = (r, s)"

text \<open>\<open>except Exception\<close> does not catch a cancellation.\<close>

definition is_exception :: "exc \<Rightarrow> bool" where
  "is_exception e = (e \<noteq> Fault CancelledError)"

primrec each :: "('a \<Rightarrow> ('s, 'e, 'b) act) \<Rightarrow> 'a list \<Rightarrow> ('s, 'e, 'b list) act" where
  "each f [] = areturn []"
| "each f (x # xs) = abind (f x) (\<lambda>y. abind (each f xs) (\<lambda>ys. areturn (y # ys)))"

section \<open>Calm actions\<close>

text \<open>What most steps of a transaction are: they read, guard and sleep, but write and commit nothing.\<close>

fun calm_event :: "io_event \<Rightarrow> bool" where
  "calm_event (Put _ _ _) = False"
| "calm_event (Committed _) = False"
| "calm_event _ = True"

definition calm :: "('w, 'a) iact \<Rightarrow> bool" where
  "calm m = (\<forall>s. \<exists>ev. io_log (snd (m s)) = io_log s @ ev \<and> list_all calm_event ev)"

named_theorems calm_intros \<open>actions that neither write nor commit\<close>

lemma calmI: "(\<And>s. \<exists>ev. io_log (snd (m s)) = io_log s @ ev \<and> list_all calm_event ev) \<Longrightarrow> calm m"
  by (simp add: calm_def)

lemma calmE:
  assumes "calm m" "m s = (r, t)"
  obtains ev where "io_log t = io_log s @ ev" "list_all calm_event ev"
  using assms by (metis calm_def snd_conv)

lemma calm_bind [calm_intros]:
  assumes "calm m" "\<And>a. calm (f a)"
  shows "calm (abind m f)"
proof (rule calmI)
  fix s
  obtain r t where m: "m s = (r, t)" by (cases "m s")
  obtain ev where ev: "io_log t = io_log s @ ev" "list_all calm_event ev" using calmE [OF assms(1) m] .
  show "\<exists>ev. io_log (snd (abind m f s)) = io_log s @ ev \<and> list_all calm_event ev"
  proof (cases r)
    case (Inl e)
    then show ?thesis using m ev by (simp add: abind_def)
  next
    case (Inr a)
    obtain ev' where "io_log (snd (f a t)) = io_log t @ ev'" "list_all calm_event ev'"
      using assms(2) [of a] by (auto simp: calm_def)
    then show ?thesis using m ev Inr by (intro exI [of _ "ev @ ev'"]) (simp add: abind_def)
  qed
qed

lemma calm_catching [calm_intros]:
  assumes "calm m" "\<And>e. calm (h e)"
  shows "calm (catching m h)"
proof (rule calmI)
  fix s
  obtain r t where m: "m s = (r, t)" by (cases "m s")
  obtain ev where ev: "io_log t = io_log s @ ev" "list_all calm_event ev" using calmE [OF assms(1) m] .
  show "\<exists>ev. io_log (snd (catching m h s)) = io_log s @ ev \<and> list_all calm_event ev"
  proof (cases r)
    case (Inr a)
    then show ?thesis using m ev by (simp add: catching_def)
  next
    case (Inl e)
    obtain ev' where "io_log (snd (h e t)) = io_log t @ ev'" "list_all calm_event ev'"
      using assms(2) [of e] by (auto simp: calm_def)
    then show ?thesis using m ev Inl by (intro exI [of _ "ev @ ev'"]) (simp add: catching_def)
  qed
qed

lemma calm_same: "(\<And>s. io_log (snd (m s)) = io_log s) \<Longrightarrow> calm m"
  by (rule calmI) auto

lemma calm_basic [calm_intros]:
  "calm (areturn a)" "calm (araise e)" "calm (lift_result res)" "calm (get_xml env r path)" "calm (guard env r)"
  "calm (sleep env)" "calm (own_radios env ids)" "calm (add_row env row)" "calm (unprotected env r)" "calm (\<lambda>s. (x, rollback s))" "calm (refresh_row env r)"
  by (rule calmI; auto simp: areturn_def araise_def lift_result_def get_xml_def guard_def sleep_def own_radios_def add_row_def unprotected_def
      rollback_def refresh_row_def note_event_def split: prod.splits sum.splits)+

lemma calm_record [calm_intros]: "calm (record_action env row)"
  unfolding record_action_def by (intro calm_intros)

lemma calm_each [calm_intros]: "(\<And>x. calm (f x)) \<Longrightarrow> calm (each f xs)"
  by (induction xs) (auto intro!: calm_intros)

lemma calm_split [calm_intros]:
  "calm m \<Longrightarrow> calm n \<Longrightarrow> calm (if b then m else n)"
  "(\<And>x y. calm (f x y)) \<Longrightarrow> calm (case p of (x, y) \<Rightarrow> f x y)"
  by (simp_all split: prod.split)

section \<open>Actions that write nothing\<close>

text \<open>
  The part of a transaction before its write: it may commit its backup and its intent, writes nothing
  to a radio, and raises no error that claims a write was attempted.
\<close>

definition is_put :: "io_event \<Rightarrow> bool" where
  "is_put e = (case e of Put _ _ _ \<Rightarrow> True | _ \<Rightarrow> False)"

definition blames :: "exc \<Rightarrow> bool" where
  "blames e = (case e of Raised _ b \<Rightarrow> b | Fault _ \<Rightarrow> False)"

definition untouched :: "('w, 'a) iact \<Rightarrow> bool" where
  "untouched m = (\<forall>s. (\<exists>ev. io_log (snd (m s)) = io_log s @ ev \<and> \<not> list_ex is_put ev) \<and>
     (case fst (m s) of Inl e \<Rightarrow> \<not> blames e | Inr _ \<Rightarrow> True))"

named_theorems untouched_intros \<open>actions that write nothing to a radio\<close>

lemma untouchedE:
  assumes "untouched m" "m s = (r, t)"
  obtains ev where "io_log t = io_log s @ ev" "\<not> list_ex is_put ev" "\<And>e. r = Inl e \<Longrightarrow> \<not> blames e"
  using assms unfolding untouched_def by (metis (mono_tags, lifting) fst_conv old.sum.simps(5) snd_conv)

lemma calm_no_put: "list_all calm_event ev \<Longrightarrow> \<not> list_ex is_put ev"
proof (induction ev)
  case (Cons e ev)
  then show ?case by (cases e) (simp_all add: is_put_def)
qed simp

lemma untouchedI:
  assumes "calm m" "\<And>s e. fst (m s) = Inl e \<Longrightarrow> \<not> blames e"
  shows "untouched m"
  using assms calm_no_put unfolding untouched_def calm_def by (metis (no_types, lifting) sum.case_eq_if sum.collapse(1))

lemma untouched_bind [untouched_intros]:
  assumes "untouched m" "\<And>a. untouched (f a)"
  shows "untouched (abind m f)"
  unfolding untouched_def
proof
  fix s
  obtain r t where m: "m s = (r, t)" by (cases "m s")
  obtain ev where ev: "io_log t = io_log s @ ev" "\<not> list_ex is_put ev" "\<And>e. r = Inl e \<Longrightarrow> \<not> blames e"
    using untouchedE [OF assms(1) m] by blast
  show "(\<exists>ev. io_log (snd (abind m f s)) = io_log s @ ev \<and> \<not> list_ex is_put ev) \<and>
    (case fst (abind m f s) of Inl e \<Rightarrow> \<not> blames e | Inr _ \<Rightarrow> True)"
  proof (cases r)
    case (Inl e)
    then show ?thesis using m ev by (simp add: abind_def)
  next
    case (Inr a)
    obtain r' t' where f: "f a t = (r', t')" by (cases "f a t")
    obtain ev' where "io_log t' = io_log t @ ev'" "\<not> list_ex is_put ev'" "\<And>e. r' = Inl e \<Longrightarrow> \<not> blames e"
      using untouchedE [OF assms(2) f] by blast
    then show ?thesis using m ev f Inr by (cases r') (auto simp: abind_def intro!: exI [of _ "ev @ ev'"])
  qed
qed

lemma untouched_catching [untouched_intros]:
  assumes "untouched m" "\<And>e. \<not> blames e \<Longrightarrow> untouched (h e)"
  shows "untouched (catching m h)"
  unfolding untouched_def
proof
  fix s
  obtain r t where m: "m s = (r, t)" by (cases "m s")
  obtain ev where ev: "io_log t = io_log s @ ev" "\<not> list_ex is_put ev" "\<And>e. r = Inl e \<Longrightarrow> \<not> blames e"
    using untouchedE [OF assms(1) m] by blast
  show "(\<exists>ev. io_log (snd (catching m h s)) = io_log s @ ev \<and> \<not> list_ex is_put ev) \<and>
    (case fst (catching m h s) of Inl e \<Rightarrow> \<not> blames e | Inr _ \<Rightarrow> True)"
  proof (cases r)
    case (Inr a)
    then show ?thesis using m ev by (simp add: catching_def)
  next
    case (Inl e)
    obtain r' t' where f: "h e t = (r', t')" by (cases "h e t")
    obtain ev' where "io_log t' = io_log t @ ev'" "\<not> list_ex is_put ev'" "\<And>e. r' = Inl e \<Longrightarrow> \<not> blames e"
      using untouchedE [OF assms(2) f] ev(3) [OF Inl] by blast
    then show ?thesis using m ev f Inl by (cases r') (auto simp: catching_def intro!: exI [of _ "ev @ ev'"])
  qed
qed

lemma blames_simps [simp]: "\<not> blames (Fault f)" "blames (Raised c b) \<longleftrightarrow> b"
  by (simp_all add: blames_def)

lemma untouched_raise [untouched_intros]: "\<not> blames e \<Longrightarrow> untouched (araise e)"
  by (simp add: untouched_def araise_def)

lemma untouched_basic [untouched_intros]:
  "untouched (areturn a)" "untouched (get_xml env r path)" "untouched (guard env r)" "untouched (own_radios env ids)"
  "untouched (sleep env)" "untouched (add_row env row)" "untouched (unprotected env r)" "untouched (commit env)"
  "untouched (lift_result (parse env text))" "untouched (refresh_row env r)"
  by (auto simp: untouched_def areturn_def refresh_row_def get_xml_def guard_def own_radios_def sleep_def add_row_def unprotected_def commit_def
      lift_result_def parse_def note_event_def lift_def is_put_def split: prod.splits sum.splits option.splits)

lemma untouched_record [untouched_intros]: "untouched (record_action env row)"
  unfolding record_action_def by (intro untouched_intros)

lemma attempt_log: "\<exists>ev. io_log (record_transport_attempt env row s) = io_log s @ ev \<and> \<not> list_ex is_put ev"
  by (auto simp: record_transport_attempt_def note_event_def is_put_def split: prod.split sum.split)

lemma untouched_each [untouched_intros]: "(\<And>x. untouched (f x)) \<Longrightarrow> untouched (each f xs)"
  by (induction xs) (auto intro!: untouched_intros)

lemma untouched_split [untouched_intros]:
  "untouched m \<Longrightarrow> untouched n \<Longrightarrow> untouched (if b then m else n)"
  "(\<And>x y. untouched (f x y)) \<Longrightarrow> untouched (case p of (x, y) \<Rightarrow> f x y)"
  by (simp_all split: prod.split)

lemma untouched_result: "(\<And>e. res = Inl e \<Longrightarrow> \<not> blames e) \<Longrightarrow> untouched (lift_result res)"
  by (cases res) (simp_all add: untouched_def lift_result_def)

section \<open>The writes of a transaction\<close>

definition puts :: "io_event list \<Rightarrow> io_event list" where
  "puts ev = filter is_put ev"

lemma puts_simps [simp]: "puts [] = []" "puts (xs @ ys) = puts xs @ puts ys" "puts (e # es) = (if is_put e then e # puts es else puts es)"
  by (simp_all add: puts_def)

lemma puts_none: "\<not> list_ex is_put ev \<longleftrightarrow> puts ev = []"
  by (induction ev) auto

text \<open>A new log is the old one and what was added to it; \<open>written\<close> are the writes among that.\<close>

definition written :: "'w io \<Rightarrow> 'w io \<Rightarrow> io_event list" where
  "written s t = puts (drop (length (io_log s)) (io_log t))"

definition extends :: "'w io \<Rightarrow> 'w io \<Rightarrow> bool" where
  "extends s t = (take (length (io_log s)) (io_log t) = io_log s)"

lemma extends_iff: "extends s t \<longleftrightarrow> (\<exists>ev. io_log t = io_log s @ ev)"
  unfolding extends_def by (metis append_eq_conv_conj append_take_drop_id)

lemma written_append: "io_log t = io_log s @ ev \<Longrightarrow> written s t = puts ev"
  by (simp add: written_def)

lemma written_trans: "extends s t \<Longrightarrow> extends t u \<Longrightarrow> extends s u \<and> written s u = written s t @ written t u"
  by (auto simp: extends_iff written_append)

lemma untouched_written: "untouched m \<Longrightarrow> m s = (r, t) \<Longrightarrow> extends s t \<and> written s t = [] \<and> (\<forall>e. r = Inl e \<longrightarrow> \<not> blames e)"
  by (erule (1) untouchedE) (auto simp: extends_iff written_append puts_none)

lemma calm_written: "calm m \<Longrightarrow> m s = (r, t) \<Longrightarrow> extends s t \<and> written s t = []"
  by (erule (1) calmE) (auto simp: extends_iff written_append puts_none [symmetric] calm_no_put)

text \<open>Results that carry no claim of an attempted write.\<close>

definition harmless :: "exc + 'a \<Rightarrow> bool" where
  "harmless r = (\<forall>e. r = Inl e \<longrightarrow> \<not> blames e)"

named_theorems harmless_intros \<open>results whose errors claim no write\<close>

lemma harmless_basic [harmless_intros]: "harmless (Inr a)" "harmless (Inl (Fault f))" "harmless (parse env t)"
  by (auto simp: harmless_def parse_def split: option.splits)

lemma harmless_simps [simp]: "harmless (Inr a)" "harmless (Inl e) \<longleftrightarrow> \<not> blames e"
  by (auto simp: harmless_def)

lemma harmless_rbind [harmless_intros]: "harmless r \<Longrightarrow> (\<And>a. harmless (f a)) \<Longrightarrow> harmless (rbind r f)"
  by (cases r) (auto simp: harmless_def)

lemma harmless_split [harmless_intros]:
  "harmless r \<Longrightarrow> harmless q \<Longrightarrow> harmless (if b then r else q)"
  "harmless r \<Longrightarrow> (\<And>x. harmless (f x)) \<Longrightarrow> harmless (case o' of None \<Rightarrow> r | Some x \<Rightarrow> f x)"
  "harmless r \<Longrightarrow> (\<And>x xs. harmless (g x xs)) \<Longrightarrow> harmless (case l of [] \<Rightarrow> r | x # xs \<Rightarrow> g x xs)"
  by (simp_all split: option.split list.split)

lemma untouched_harmless [untouched_intros]: "harmless r \<Longrightarrow> untouched (lift_result r)"
  by (rule untouched_result) (simp add: harmless_def)

text \<open>Results and actions that raise nothing of their own.\<close>

definition faulty :: "exc + 'a \<Rightarrow> bool" where
  "faulty r = (\<forall>e. r = Inl e \<longrightarrow> (\<exists>f. e = Fault f))"

definition raises_faults :: "('w, 'a) iact \<Rightarrow> bool" where
  "raises_faults m = (\<forall>s. faulty (fst (m s)))"

named_theorems plain_intros \<open>results and actions that raise nothing of their own\<close>

lemma faulty_basic [plain_intros]: "faulty (Inr a)" "faulty (Inl (Fault f))" "faulty (parse env t)" "faulty (lift x)"
  by (auto simp: faulty_def parse_def lift_def split: option.splits sum.splits)

lemma faulty_simps [simp]: "faulty (Inr a)" "faulty (Inl e) \<longleftrightarrow> (\<exists>f. e = Fault f)"
  by (auto simp: faulty_def)

lemma faulty_rbind [plain_intros]: "faulty r \<Longrightarrow> (\<And>a. faulty (f a)) \<Longrightarrow> faulty (rbind r f)"
  by (cases r) (auto simp: faulty_def)

lemma faulty_split [plain_intros]:
  "faulty r \<Longrightarrow> faulty q \<Longrightarrow> faulty (if b then r else q)"
  "faulty r \<Longrightarrow> (\<And>x. faulty (f x)) \<Longrightarrow> faulty (case o' of None \<Rightarrow> r | Some x \<Rightarrow> f x)"
  "faulty r \<Longrightarrow> (\<And>x xs. faulty (g x xs)) \<Longrightarrow> faulty (case l of [] \<Rightarrow> r | x # xs \<Rightarrow> g x xs)"
  by (simp_all split: option.split list.split)

lemma faulty_harmless: "faulty r \<Longrightarrow> harmless r"
  by (auto simp: faulty_def harmless_def)

lemma plain_bind [plain_intros]:
  assumes "raises_faults m" "\<And>a. raises_faults (f a)"
  shows "raises_faults (abind m f)"
  unfolding raises_faults_def
proof
  fix s
  obtain r t where m: "m s = (r, t)" by (cases "m s")
  show "faulty (fst (abind m f s))"
    using assms m unfolding raises_faults_def by (cases r) (auto simp: abind_def faulty_def dest: spec [of _ s])
qed

lemma plain_basic [plain_intros]:
  "raises_faults (areturn a)" "raises_faults (araise (Fault x))" "faulty res \<Longrightarrow> raises_faults (lift_result res)" "raises_faults (get_xml env r path)" "raises_faults (post_xml env r path body)"
  "raises_faults (guard env r)" "raises_faults (add_row env row)" "raises_faults (commit env)" "raises_faults (unprotected env r)" "raises_faults (own_radios env ids)"
  "raises_faults (refresh_row env r)"
  by (auto simp: refresh_row_def raises_faults_def faulty_def areturn_def araise_def lift_result_def get_xml_def post_xml_def guard_def add_row_def commit_def unprotected_def
      own_radios_def lift_def split: prod.splits sum.splits)

lemma plain_record [plain_intros]: "raises_faults (record_action env row)"
  unfolding record_action_def by (intro plain_intros)

lemma plain_split [plain_intros]:
  "raises_faults m \<Longrightarrow> raises_faults n \<Longrightarrow> raises_faults (if b then m else n)"
  "(\<And>x y. raises_faults (g x y)) \<Longrightarrow> raises_faults (case p of (x, y) \<Rightarrow> g x y)"
  by (simp_all split: prod.split)

lemma raises_faultsE:
  assumes "raises_faults m" "m s = (Inl e, t)"
  obtains f where "e = Fault f"
  using assms unfolding raises_faults_def faulty_def by (metis fst_conv)

section \<open>What an action does and how it ends\<close>

text \<open>
  \<open>yields P m\<close>: whatever the world does, the result of \<open>m\<close> and the events it adds to the log are
  related by \<open>P\<close>.
\<close>

definition added :: "'w io \<Rightarrow> 'w io \<Rightarrow> io_event list" where
  "added s t = drop (length (io_log s)) (io_log t)"

lemma added_append: "io_log t = io_log s @ ev \<Longrightarrow> added s t = ev"
  by (simp add: added_def)

lemma added_trans: "extends s t \<Longrightarrow> extends t u \<Longrightarrow> extends s u \<and> added s u = added s t @ added t u"
  by (auto simp: extends_iff added_append)

definition yields :: "(exc + 'a \<Rightarrow> io_event list \<Rightarrow> bool) \<Rightarrow> ('w, 'a) iact \<Rightarrow> bool" where
  "yields P m = (\<forall>s. extends s (snd (m s)) \<and> P (fst (m s)) (added s (snd (m s))))"

lemma yieldsD: "yields P m \<Longrightarrow> m s = (r, t) \<Longrightarrow> extends s t \<and> P r (added s t)"
  unfolding yields_def by (metis fst_conv snd_conv)

lemma yieldsI: "(\<And>s r t. m s = (r, t) \<Longrightarrow> extends s t \<and> P r (added s t)) \<Longrightarrow> yields P m"
  unfolding yields_def by (metis prod.collapse)

lemma yields_weaken: "yields P m \<Longrightarrow> (\<And>r w. P r w \<Longrightarrow> Q r w) \<Longrightarrow> yields Q m"
  by (auto simp: yields_def)

lemma yields_bind:
  assumes "yields P m" "\<And>a w. P (Inr a) w \<Longrightarrow> yields (\<lambda>r w'. Q r (w @ w')) (f a)" "\<And>e w. P (Inl e) w \<Longrightarrow> Q (Inl e) w"
  shows "yields Q (abind m f)"
proof (rule yieldsI)
  fix s r t
  assume run: "abind m f s = (r, t)"
  obtain x u where m: "m s = (x, u)" by (cases "m s")
  have P: "extends s u" "P x (added s u)" using yieldsD [OF assms(1) m] by auto
  show "extends s t \<and> Q r (added s t)"
  proof (cases x)
    case (Inl e)
    then show ?thesis using run m P assms(3) by (auto simp: abind_def)
  next
    case (Inr a)
    then have "f a u = (r, t)" using run m by (simp add: abind_def)
    with yieldsD [OF assms(2)] P Inr have "extends u t" "Q r (added s u @ added u t)" by auto
    then show ?thesis using added_trans [OF P(1)] by simp
  qed
qed

lemma yields_catching:
  assumes "yields P m" "\<And>e w. P (Inl e) w \<Longrightarrow> yields (\<lambda>r w'. Q r (w @ w')) (h e)" "\<And>a w. P (Inr a) w \<Longrightarrow> Q (Inr a) w"
  shows "yields Q (catching m h)"
proof (rule yieldsI)
  fix s r t
  assume run: "catching m h s = (r, t)"
  obtain x u where m: "m s = (x, u)" by (cases "m s")
  have P: "extends s u" "P x (added s u)" using yieldsD [OF assms(1) m] by auto
  show "extends s t \<and> Q r (added s t)"
  proof (cases x)
    case (Inr a)
    then show ?thesis using run m P assms(3) by (auto simp: catching_def)
  next
    case (Inl e)
    then have "h e u = (r, t)" using run m by (simp add: catching_def)
    with yieldsD [OF assms(2)] P Inl have "extends u t" "Q r (added s u @ added u t)" by auto
    then show ?thesis using added_trans [OF P(1)] by simp
  qed
qed

lemma same_log: "io_log t = io_log s \<Longrightarrow> extends s t \<and> added s t = []"
  by (simp add: extends_def added_def)

lemma yields_return: "P (Inr a) [] \<Longrightarrow> yields P (areturn a)"
  by (simp add: yields_def areturn_def same_log)

lemma yields_raise: "P (Inl e) [] \<Longrightarrow> yields P (araise e)"
  by (simp add: yields_def araise_def same_log)

lemma yields_untouched: "untouched m \<Longrightarrow> yields (\<lambda>r ev. puts ev = [] \<and> harmless r) m"
  by (rule yieldsI, drule (1) untouched_written) (auto simp: harmless_def written_def added_def)

lemma yields_plain: "untouched m \<Longrightarrow> raises_faults m \<Longrightarrow> yields (\<lambda>r ev. puts ev = [] \<and> faulty r) m"
  by (rule yieldsI, drule (1) untouched_written) (metis added_def fst_conv raises_faults_def written_def)

lemma yields_get: "yields (\<lambda>a ev. puts ev = [] \<and> faulty a \<and> (\<forall>x. a = Inr x \<longrightarrow> ev = [Got (ra_id r) path (Inr x)])) (get_xml env r path)"
  by (rule yieldsI)
     (auto simp: get_xml_def note_event_def extends_def added_def is_put_def faulty_def lift_def split: prod.splits sum.splits)

lemma yields_post: "yields (\<lambda>a ev. ev = [Put (ra_id r) path body] \<and> faulty a) (post_xml env r path body)"
  by (rule yieldsI)
     (auto simp: post_xml_def note_event_def extends_def added_def faulty_def lift_def split: prod.splits sum.splits)

lemma yields_result: "P res [] \<Longrightarrow> yields P (lift_result res)"
  by (simp add: yields_def lift_result_def same_log)

lemma yields_split:
  "(b \<Longrightarrow> yields P m) \<Longrightarrow> (\<not> b \<Longrightarrow> yields P n) \<Longrightarrow> yields P (if b then m else n)"
  "(\<And>x y. p = (x, y) \<Longrightarrow> yields P (f x y)) \<Longrightarrow> yields P (case p of (x, y) \<Rightarrow> f x y)"
  by (simp_all split: prod.split)

section \<open>Contract: each write has its own committed intent\<close>

definition INTENTS :: "string list" where
  "INTENTS = [''ZONE_INTENT'', ''ZONE_CREATION_WRITE_INTENT'', ''settings_intent'', ''direct_select_intent'']"

fun intent_of :: "db_row \<Rightarrow> string option" where
  "intent_of (ActionRow a) = (if aj_phase a \<in> set INTENTS then Some (aj_device a) else None)"
| "intent_of _ = None"

text \<open>The radio whose intent has been committed and not yet been used by a write.\<close>

definition intents :: "db_row list \<Rightarrow> string list" where
  "intents rows = List.map_filter intent_of rows"

fun arm :: "string option \<Rightarrow> io_event \<Rightarrow> string option" where
  "arm a (Committed rows) = (if intents rows = [] then a else Some (last (intents rows)))"
| "arm a (Put _ _ _) = None"
| "arm a _ = a"

fun permitted :: "string option \<Rightarrow> io_event \<Rightarrow> bool" where
  "permitted a (Put d _ _) = (a = Some (take 128 d))"
| "permitted a _ = True"

primrec journalled :: "string option \<Rightarrow> io_event list \<Rightarrow> bool" where
  "journalled a [] = True"
| "journalled a (e # es) = (permitted a e \<and> journalled (arm a e) es)"

definition armed :: "'w io \<Rightarrow> string option" where
  "armed s = foldl arm None (io_log s)"

definition safe :: "'w io \<Rightarrow> bool" where
  "safe s = journalled None (io_log s)"

lemma intents_simps [simp]:
  "intents [] = []" "intents (xs @ ys) = intents xs @ intents ys"
  "intents (row # rows) = (case intent_of row of None \<Rightarrow> intents rows | Some d \<Rightarrow> d # intents rows)"
  by (simp_all add: intents_def map_filter_def split: option.split)

lemma intents_row:
  "d \<in> set (intents rows) \<Longrightarrow> \<exists>row. ActionRow row \<in> set rows \<and> aj_phase row \<in> set INTENTS \<and> aj_device row = d"
  by (induction rows) (auto split: option.splits if_splits elim!: intent_of.elims)

lemma journalled_append: "journalled a (xs @ ys) \<longleftrightarrow> journalled a xs \<and> journalled (foldl arm a xs) ys"
  by (induction xs arbitrary: a) auto

lemma calm_arm: "list_all calm_event es \<Longrightarrow> foldl arm a es = a \<and> journalled a es"
proof (induction es)
  case Nil
  then show ?case by simp
next
  case (Cons e es)
  then show ?case by (cases e) auto
qed

lemma calm_safe:
  assumes "calm m" "m s = (r, t)"
  shows "safe t \<longleftrightarrow> safe s" "armed t = armed s"
proof -
  obtain ev where "io_log t = io_log s @ ev" "list_all calm_event ev" using calmE [OF assms] .
  then show "safe t \<longleftrightarrow> safe s" "armed t = armed s"
    using calm_arm by (auto simp: safe_def armed_def journalled_append)
qed

text \<open>Rules for the triples of the prelude.\<close>

named_theorems safe_rules \<open>how actions change what has been journalled\<close>

lemma triple_calm [safe_rules]:
  fixes m :: "('w, 'a) iact"
  assumes "calm m"
  shows "triple (\<lambda>s. safe s \<and> armed s = a) m (\<lambda>_ s. safe s \<and> armed s = a) (\<lambda>_ s. safe s)"
  unfolding triple_def
proof (intro allI impI)
  fix s :: "'w io"
  assume "safe s \<and> armed s = a"
  then show "case m s of (Inl e, t) \<Rightarrow> safe t | (Inr b, t) \<Rightarrow> safe t \<and> armed t = a"
    using calm_safe [OF assms] by (cases "m s"; cases "fst (m s)") auto
qed

lemma keeps_calm: "calm m \<Longrightarrow> keeps safe m"
  using calm_safe(1) by (metis keeps_def prod.collapse)

lemma keeps_commit: "keeps safe (commit env)"
  by (auto simp: keeps_def commit_def safe_def note_event_def journalled_append split: prod.splits sum.splits)

lemma safe_attempt: "safe s \<Longrightarrow> safe (record_transport_attempt env row s)"
  by (auto simp: record_transport_attempt_def note_event_def safe_def journalled_append split: prod.split sum.split)

lemma keeps_each: "(\<And>x. keeps P (f x)) \<Longrightarrow> keeps P (each f xs)"
  by (induction xs) (auto intro!: keeps_bind keeps_trivial)

lemma keeps_catching: "keeps P m \<Longrightarrow> (\<And>e. keeps P (h e)) \<Longrightarrow> keeps P (catching m h)"
  by (fastforce simp: keeps_def catching_def split: prod.splits sum.splits)

lemma triple_keeps: "keeps P m \<Longrightarrow> triple P m (\<lambda>_. P) (\<lambda>_. P)"
  by (fastforce simp: keeps_def triple_def split: prod.splits sum.splits)

lemma keeps_triple: "triple P m (\<lambda>_. P) (\<lambda>_. P) \<Longrightarrow> keeps P m"
proof (rule keepsI)
  fix s
  assume "triple P m (\<lambda>_. P) (\<lambda>_. P)" "P s"
  then have "case m s of (Inl e, t) \<Rightarrow> P t | (Inr a, t) \<Rightarrow> P t" by (simp add: triple_def)
  then show "P (snd (m s))" by (auto split: prod.splits sum.splits)
qed

lemma triple_weaken:
  "triple P m Q E \<Longrightarrow> (\<And>s. P' s \<Longrightarrow> P s) \<Longrightarrow> (\<And>a s. Q a s \<Longrightarrow> Q' a s) \<Longrightarrow> (\<And>e s. E e s \<Longrightarrow> E' e s) \<Longrightarrow> triple P' m Q' E'"
  by (fastforce simp: triple_def split: prod.splits sum.splits)

lemma triple_catching:
  assumes "triple P m Q R" "\<And>e. triple (R e) (h e) Q E"
  shows "triple P (catching m h) Q E"
  unfolding triple_def
proof (intro allI impI)
  fix s
  assume "P s"
  then have "case m s of (Inl e, t) \<Rightarrow> R e t | (Inr a, t) \<Rightarrow> Q a t" using assms(1) by (simp add: triple_def)
  then show "case catching m h s of (Inl e, t) \<Rightarrow> E e t | (Inr a, t) \<Rightarrow> Q a t"
    using assms(2) by (cases "m s"; cases "fst (m s)") (auto simp: catching_def triple_def)
qed

lemma triple_split:
  "(b \<Longrightarrow> triple P m Q E) \<Longrightarrow> (\<not> b \<Longrightarrow> triple P n Q E) \<Longrightarrow> triple P (if b then m else n) Q E"
  "(\<And>x y. p = (x, y) \<Longrightarrow> triple P (f x y) Q E) \<Longrightarrow> triple P (case p of (x, y) \<Rightarrow> f x y) Q E"
  by (simp_all split: prod.split)

lemma safe_rollback [simp]: "safe (rollback s) = safe s"
  by (simp add: safe_def rollback_def)

lemma keeps_split: "keeps P m \<Longrightarrow> keeps P n \<Longrightarrow> keeps P (if b then m else n)" "(\<And>x y. keeps P (f x y)) \<Longrightarrow> keeps P (case p of (x, y) \<Rightarrow> f x y)"
  by (simp_all split: prod.split)

text \<open>An intent row, committed, permits one write to its radio.\<close>

lemma triple_record_intent:
  assumes "aj_phase row \<in> set INTENTS" "aj_device row = d"
  shows "triple safe (abind (record_action env row) (\<lambda>_. commit env)) (\<lambda>_ s. safe s \<and> armed s = Some (take 128 d)) (\<lambda>_. safe)"
proof -
  have "take 64 (aj_phase row) = aj_phase row" using assms(1) by (auto simp: INTENTS_def)
  then show ?thesis using assms
    by (auto simp: triple_def abind_def record_action_def cut_row_def add_row_def commit_def areturn_def note_event_def safe_def armed_def
        journalled_append split: prod.splits sum.splits)
qed

lemma triple_post: "triple (\<lambda>s. safe s \<and> armed s = Some (take 128 (ra_id r))) (post_xml env r path body) (\<lambda>_. safe) (\<lambda>_. safe)"
  by (auto simp: triple_def post_xml_def note_event_def safe_def armed_def journalled_append split: prod.splits sum.splits)

text \<open>What the scan says about a log: before a write, its intent was committed after the write before.\<close>

lemma armed_intent:
  "foldl arm None es = Some d \<Longrightarrow>
    \<exists>xs rows ys. es = xs @ Committed rows # ys \<and> d \<in> set (intents rows) \<and> \<not> list_ex is_put ys"
proof (induction es rule: rev_induct)
  case Nil
  then show ?case by simp
next
  case (snoc e es)
  show ?case
  proof (cases "e = Put (case e of Put x _ _ \<Rightarrow> x) (case e of Put _ x _ \<Rightarrow> x) (case e of Put _ _ x \<Rightarrow> x)")
    case True
    then show ?thesis using snoc.prems by (cases e) auto
  next
    case not_put: False
    then have np: "\<not> is_put e" by (cases e) (auto simp: is_put_def)
    show ?thesis
    proof (cases "foldl arm None es = Some d")
      case True
      then obtain xs rows ys where "es = xs @ Committed rows # ys" "d \<in> set (intents rows)" "\<not> list_ex is_put ys"
        using snoc.IH by blast
      then show ?thesis using np by (intro exI [of _ xs] exI [of _ rows] exI [of _ "ys @ [e]"]) simp
    next
      case False
      then obtain rows where "e = Committed rows" "d \<in> set (intents rows)" "intents rows \<noteq> []"
        using snoc.prems by (cases e) (auto split: if_splits)
      then show ?thesis by (intro exI [of _ es] exI [of _ rows] exI [of _ "[]"]) simp
    qed
  qed
qed

lemma journalled_write:
  assumes "journalled None (pre @ Put d p x # post)"
  shows "\<exists>xs rows ys. pre = xs @ Committed rows # ys \<and> take 128 d \<in> set (intents rows) \<and> \<not> list_ex is_put ys"
  using assms armed_intent [of pre] by (simp add: journalled_append)

locale radio_transaction =
  fixes tx :: "'i \<Rightarrow> ('w, 'a) iact"
  assumes safe_tx: "keeps safe (tx i)"
begin

definition after_jobs :: "'i list \<Rightarrow> 'w io \<Rightarrow> 'w io" where
  "after_jobs is s = fold (\<lambda>i s. snd (tx i s)) is s"

lemma after_jobs_safe: "safe s \<Longrightarrow> safe (after_jobs is s)"
  unfolding after_jobs_def by (induction "is" arbitrary: s) (simp_all add: keepsD [OF safe_tx])

lemma write_has_intent:
  assumes "safe s" "io_log (after_jobs is s) = pre @ Put d p x # post"
  shows "\<exists>xs rows ys. pre = xs @ Committed rows # ys \<and> take 128 d \<in> set (intents rows) \<and> \<not> list_ex is_put ys"
  using after_jobs_safe [OF assms(1), of "is"] assms(2) by (intro journalled_write) (simp add: safe_def)

end

end
