(* ===== verification/RadioIdentity.thy ===== *)
theory RadioIdentity
  imports RadioIO
begin

text \<open>
  Which radio answers: the approved hardware profiles
  (app/services/setup_rebuild/profiles/detection.py, stationary.py, portable.py) and the identity
  check in front of every write (\<open>verify_settings_identity\<close> of app/services/device_settings_writer.py).
\<close>

section \<open>Profiles\<close>

record device_facts =
  df_model :: string
  df_firmware :: string
  df_product_id :: string
  df_variant :: string
  df_platform :: string

record ssh_profile =
  sp_key :: string
  sp_models :: "string list"
  sp_firmwares :: "string list"
  sp_product_id :: string
  sp_variants :: "string list"
  sp_platforms :: "string list"

definition ST20_LEGACY_PROFILE :: ssh_profile where
  "ST20_LEGACY_PROFILE = \<lparr>sp_key = ''soundtouch-20-scm-27.0.6.46330.5043500'', sp_models = [''soundtouch 20''],
     sp_firmwares = [''27.0.6.46330.5043500''], sp_product_id = ''0x0923'', sp_variants = [''spotty''], sp_platforms = [''scm'']\<rparr>"

definition ST30_LEGACY_PROFILE :: ssh_profile where
  "ST30_LEGACY_PROFILE = \<lparr>sp_key = ''soundtouch-30-scm-27.0.6.46330.5043500'', sp_models = [''soundtouch 30''],
     sp_firmwares = [''27.0.6.46330.5043500''], sp_product_id = ''0x0924'', sp_variants = [''mojo''], sp_platforms = [''scm'']\<rparr>"

definition ST20_SERIES_III_PROFILE :: ssh_profile where
  "ST20_SERIES_III_PROFILE = \<lparr>sp_key = ''soundtouch-20-sm2-27.0.6.46330.5043500'', sp_models = [''soundtouch 20''],
     sp_firmwares = [''27.0.6.46330.5043500''], sp_product_id = ''0x093B'', sp_variants = [''spotty''], sp_platforms = [''sm2'']\<rparr>"

definition ST30_SERIES_III_PROFILE :: ssh_profile where
  "ST30_SERIES_III_PROFILE = \<lparr>sp_key = ''soundtouch-30-sm2-27.0.6.46330.5043500'', sp_models = [''soundtouch 30''],
     sp_firmwares = [''27.0.6.46330.5043500''], sp_product_id = ''0x093C'', sp_variants = [''mojo''], sp_platforms = [''sm2'']\<rparr>"

definition PORTABLE_PROFILE :: ssh_profile where
  "PORTABLE_PROFILE = \<lparr>sp_key = ''soundtouch-portable-scm-27.0.6.46330.5043500'', sp_models = [''soundtouch portable'', ''portable''],
     sp_firmwares = [''27.0.6.46330.5043500''], sp_product_id = ''0x0925'', sp_variants = [''taigan''], sp_platforms = [''scm'']\<rparr>"

definition all_profiles :: "ssh_profile list" where
  "all_profiles = [ST20_LEGACY_PROFILE, ST30_LEGACY_PROFILE, ST20_SERIES_III_PROFILE, ST30_SERIES_III_PROFILE, PORTABLE_PROFILE]"

text \<open>\<open>str.split()\<close> and \<open>" ".join\<close>.\<close>

fun words_from :: "string \<Rightarrow> string \<Rightarrow> string list" where
  "words_from w [] = (if w = [] then [] else [w])"
| "words_from w (c # cs) = (if is_space c then (if w = [] then words_from [] cs else w # words_from [] cs) else words_from (w @ [c]) cs)"

definition words :: "string \<Rightarrow> string list" where
  "words s = words_from [] s"

fun join_spaces :: "string list \<Rightarrow> string" where
  "join_spaces [] = []"
| "join_spaces [w] = w"
| "join_spaces (w # ws) = w @ '' '' @ join_spaces ws"

definition normalized_text :: "string \<Rightarrow> string" where
  "normalized_text v = join_spaces (words (map (\<lambda>c. if c = CHR ''_'' then CHR '' '' else c) (lower v)))"

definition firmware_build :: "string \<Rightarrow> string" where
  "firmware_build v = (case words (strip v) of [] \<Rightarrow> [] | p # _ \<Rightarrow> p)"

definition product_code :: "string \<Rightarrow> string" where
  "product_code v = (let cleaned = upper (strip v) in
     if cleaned \<noteq> [] \<and> take 2 cleaned \<noteq> ''0X'' then ''0X'' @ cleaned else cleaned)"

definition detect_profile :: "device_facts \<Rightarrow> ssh_profile option" where
  "detect_profile facts = (let
     model = normalized_text (df_model facts);
     firmware = firmware_build (df_firmware facts);
     variant = normalized_text (df_variant facts);
     platform = normalized_text (df_platform facts);
     observed = product_code (df_product_id facts);
     model_profiles = filter (\<lambda>p. list_ex (\<lambda>pattern. contains_text pattern model) (sp_models p)) all_profiles;
     build_profiles = filter (\<lambda>p. firmware \<in> set (sp_firmwares p)) model_profiles;
     variant_profiles = filter (\<lambda>p. variant \<in> set (sp_variants p)) build_profiles;
     platform_profiles = filter (\<lambda>p. platform \<in> set (sp_platforms p)) variant_profiles in
     if model_profiles = [] \<or> firmware = [] \<or> build_profiles = [] \<or> variant = [] \<or> variant_profiles = [] \<or> platform = [] then None
     else case platform_profiles of
       [p] \<Rightarrow> if observed \<noteq> [] \<and> observed \<noteq> product_code (sp_product_id p) then None else Some p
     | _ \<Rightarrow> None)"

section \<open>Identity\<close>

definition text_at :: "xml \<Rightarrow> string \<Rightarrow> string" where
  "text_at x tag = strip (case findtext x tag of Some t \<Rightarrow> t | None \<Rightarrow> [])"

definition facts_of :: "xml \<Rightarrow> device_facts" where
  "facts_of node = \<lparr>df_model = text_at node ''type'',
     df_firmware = strip (case findtext_below node ''softwareVersion'' of Some t \<Rightarrow> t | None \<Rightarrow> []),
     df_product_id = (case filter (\<lambda>tag. case findtext node tag of Some t \<Rightarrow> t \<noteq> [] | None \<Rightarrow> False)
         [''productID'', ''productId'', ''product_id'', ''productCode''] of tag # _ \<Rightarrow> text_at node tag | [] \<Rightarrow> []),
     df_variant = text_at node ''variant'', df_platform = text_at node ''moduleType''\<rparr>"

definition names_radio :: "radio \<Rightarrow> xml \<Rightarrow> bool" where
  "names_radio r node = (xm_tag node = ''info'' \<and> upper (strip (attr_or node ''deviceID'' [])) = upper (strip (ra_id r)))"

definition hardware :: "device_facts \<Rightarrow> string \<times> string \<times> string \<times> string" where
  "hardware f = (lower (df_model f), df_firmware f, lower (df_variant f), lower (df_platform f))"

definition identity_key :: "radio \<Rightarrow> xml \<Rightarrow> xml \<Rightarrow> exc + string" where
  "identity_key r answer cached = (let live = facts_of answer; old = facts_of cached in
     if ra_model r = [] \<or> ra_firmware r = [] then Inl (Fault OtherError)
     else if lower (df_model live) \<noteq> lower (strip (ra_model r)) \<or> df_firmware live \<noteq> strip (ra_firmware r) then Inl (Fault IdentityMismatch)
     else if hardware live \<noteq> hardware old then Inl (Fault IdentityMismatch)
     else (case (detect_profile live, detect_profile old) of
         (Some p, Some q) \<Rightarrow> if sp_key p = sp_key q then Inr (sp_key p) else Inl (Fault IdentityMismatch)
       | _ \<Rightarrow> Inl (Fault OtherError)))"

definition verify_settings_identity :: "'w env \<Rightarrow> radio \<Rightarrow> string \<Rightarrow> ('w, string) iact" where
  "verify_settings_identity env r text =
     abind (lift_result (parse env text)) (\<lambda>answer.
     abind (lift_result (parse env (ra_info r))) (\<lambda>cached.
       if \<not> names_radio r answer \<or> \<not> names_radio r cached then araise (Fault IdentityMismatch)
       else abind (unprotected env r) (\<lambda>_. lift_result (identity_key r answer cached))))"

lemma calm_identity [calm_intros]: "calm (verify_settings_identity env r text)"
  unfolding verify_settings_identity_def by (intro calm_intros)

lemma faulty_identity [plain_intros]: "faulty (identity_key r answer cached)"
  by (auto simp: faulty_def identity_key_def Let_def split: option.splits)

lemma plain_identity [plain_intros]: "raises_faults (verify_settings_identity env r text)"
  unfolding verify_settings_identity_def by (intro plain_intros)

lemma untouched_identity [untouched_intros]: "untouched (verify_settings_identity env r text)"
  unfolding verify_settings_identity_def by (intro untouched_intros harmless_intros faulty_harmless faulty_identity) simp

text \<open>What the check has established when it returns.\<close>

lemma identity_verified:
  assumes "verify_settings_identity env r text s = (Inr key, t)"
  obtains answer p where "t = s" "en_parse env text = Some answer" "names_radio r answer"
    "require_unprotected_device (en_net env) (en_policy env (io_world s)) (Some (stored_row r)) = Inr ()"
    "detect_profile (facts_of answer) = Some p" "sp_key p = key" "df_firmware (facts_of answer) = strip (ra_firmware r)"
proof -
  obtain answer where answer: "en_parse env text = Some answer"
    using assms by (cases "en_parse env text") (auto simp: verify_settings_identity_def parse_def lift_result_def abind_def)
  obtain cached where cached: "en_parse env (ra_info r) = Some cached"
    using assms answer by (cases "en_parse env (ra_info r)") (auto simp: verify_settings_identity_def parse_def lift_result_def abind_def)
  have n: "names_radio r answer"
    using assms answer cached by (auto simp: verify_settings_identity_def parse_def lift_result_def abind_def araise_def split: if_splits)
  have u: "require_unprotected_device (en_net env) (en_policy env (io_world s)) (Some (stored_row r)) = Inr ()"
    and k: "identity_key r answer cached = Inr key" and t: "t = s"
    using assms answer cached
    by (auto simp: verify_settings_identity_def parse_def lift_result_def abind_def araise_def unprotected_def split: if_splits sum.splits)
  obtain p where "detect_profile (facts_of answer) = Some p" "sp_key p = key" "df_firmware (facts_of answer) = strip (ra_firmware r)"
    using k by (auto simp: identity_key_def Let_def split: if_splits option.splits)
  then show thesis using that t answer n u by blast
qed

text \<open>
  An approved radio runs exactly the researched build, and is one of the five profiles: its model,
  variant and platform are those of the profile, and a product number it reports is the profile's.
\<close>

lemma profile_is_exact:
  assumes "detect_profile f = Some p"
  shows "p \<in> set all_profiles" "firmware_build (df_firmware f) = ''27.0.6.46330.5043500''"
    "normalized_text (df_variant f) \<in> set (sp_variants p)" "normalized_text (df_platform f) \<in> set (sp_platforms p)"
    "product_code (df_product_id f) \<in> {[], product_code (sp_product_id p)}"
proof -
  obtain q where q: "filter (\<lambda>p. normalized_text (df_platform f) \<in> set (sp_platforms p))
      (filter (\<lambda>p. normalized_text (df_variant f) \<in> set (sp_variants p))
        (filter (\<lambda>p. firmware_build (df_firmware f) \<in> set (sp_firmwares p))
          (filter (\<lambda>p. list_ex (\<lambda>pattern. contains_text pattern (normalized_text (df_model f))) (sp_models p)) all_profiles))) = [q]"
    and o: "q = p" "product_code (df_product_id f) \<in> {[], product_code (sp_product_id p)}"
    using assms by (auto simp: detect_profile_def Let_def split: if_splits list.splits)
  have "p \<in> set [q]" using o(1) by simp
  then have m: "p \<in> set all_profiles" "firmware_build (df_firmware f) \<in> set (sp_firmwares p)"
    "normalized_text (df_variant f) \<in> set (sp_variants p)" "normalized_text (df_platform f) \<in> set (sp_platforms p)"
    unfolding q [symmetric] by simp_all
  moreover have "sp_firmwares p = [''27.0.6.46330.5043500'']"
    using m(1) by (auto simp: all_profiles_def ST20_LEGACY_PROFILE_def ST30_LEGACY_PROFILE_def ST20_SERIES_III_PROFILE_def
        ST30_SERIES_III_PROFILE_def PORTABLE_PROFILE_def)
  ultimately show "p \<in> set all_profiles" "firmware_build (df_firmware f) = ''27.0.6.46330.5043500''"
    "normalized_text (df_variant f) \<in> set (sp_variants p)" "normalized_text (df_platform f) \<in> set (sp_platforms p)"
    "product_code (df_product_id f) \<in> {[], product_code (sp_product_id p)}"
    using o(2) by simp_all
qed

section \<open>Two radios\<close>

definition example_info :: "string \<Rightarrow> xml" where
  "example_info i = Elem ''info'' [(''deviceID'', i)] [] [Elem ''type'' [] ''SoundTouch 20'' [],
     Elem ''components'' [] [] [Elem ''component'' [] [] [Elem ''softwareVersion'' [] ''27.0.6.46330.5043500'' []]],
     Elem ''variant'' [] ''spotty'' [], Elem ''moduleType'' [] ''scm'' []]"

definition example_radio :: "string \<Rightarrow> string \<Rightarrow> radio" where
  "example_radio i ip = \<lparr>ra_id = i, ra_ip = ip, ra_model = ''SoundTouch 20'', ra_firmware = ''27.0.6.46330.5043500'', ra_info = ''info '' @ i, ra_name = i\<rparr>"

text \<open>The world counts the writes; an answer is named by its path, the radio and that count.\<close>

definition example_parse :: "(string \<Rightarrow> xml option) \<Rightarrow> string \<Rightarrow> xml option" where
  "example_parse others t = (if t = ''info A1'' then Some (example_info ''A1'') else if t = ''info B2'' then Some (example_info ''B2'') else others t)"

definition example_env :: "(string \<Rightarrow> string \<Rightarrow> nat \<Rightarrow> string) \<Rightarrow> (string \<Rightarrow> xml option) \<Rightarrow> nat env" where
  "example_env answer others = \<lparr>en_get = (\<lambda>r path w. (Inr (if path = ''/info'' then ra_info r else answer (ra_id r) path w), w)),
     en_post = (\<lambda>r path x w. (Inr ''ok'', Suc w)), en_guard = (\<lambda>r w. (Inr r, w)), en_refresh = (\<lambda>r w. (Inr r, w)), en_lock = (\<lambda>_ w. (Inr (), w)),
     en_owned = (\<lambda>_ _. True), en_sleep = (\<lambda>w. (False, w)), en_flush = (\<lambda>w. (Inr 7, w)), en_commit = (\<lambda>w. (Inr (), w)), en_stored = (\<lambda>_ _. Some (''A1'', ''kept'')),
     en_known = (\<lambda>_. [example_radio ''A1'' ''8.8.8.8'', example_radio ''B2'' ''b'']), en_setting = (\<lambda>_ _. None), en_runtime = (\<lambda>_ _. None), en_policy = (\<lambda>_. example_protection), en_net = example_net,
     en_ip = (\<lambda>t. Some \<lparr>ip_text = t, ip_mapped = None, ip_unspecified = False, ip_multicast = False\<rparr>),
     en_parse = example_parse others, en_print = (\<lambda>_. ''sent''), en_sha = (\<lambda>_. ''digest''), en_dumps = (\<lambda>_. ''kept'')\<rparr>"

definition example_start :: "nat io" where
  "example_start = \<lparr>io_world = 0, io_log = [], io_pending = []\<rparr>"

text \<open>Either radio passes the identity check, so that the examples below need not evaluate it each time.\<close>

definition example_radios :: "radio list" where
  "example_radios = [example_radio ''A1'' ''8.8.8.8'', example_radio ''B2'' ''b'']"

lemma example_radio_simps [simp]:
  "ra_id (example_radio i ip) = i" "ra_ip (example_radio i ip) = ip" "ra_info (example_radio i ip) = ''info '' @ i" "ra_name (example_radio i ip) = i"
  by (simp_all add: example_radio_def)

lemma example_env_simps [simp]:
  "en_get (example_env f g) r path w = (Inr (if path = ''/info'' then ra_info r else f (ra_id r) path w), w)"
  "en_post (example_env f g) r path x w = (Inr ''ok'', Suc w)" "en_guard (example_env f g) r w = (Inr r, w)"
  "en_lock (example_env f g) ids w = (Inr (), w)" "en_owned (example_env f g) d w" "en_sleep (example_env f g) w = (False, w)" "en_flush (example_env f g) w = (Inr 7, w)"
  "en_commit (example_env f g) w = (Inr (), w)" "en_stored (example_env f g) n w = Some (''A1'', ''kept'')" "en_known (example_env f g) w = example_radios"
  "en_setting (example_env f g) k w = None" "en_runtime (example_env f g) k w = None" "en_refresh (example_env f g) r w = (Inr r, w)" "en_policy (example_env f g) w = example_protection" "en_net (example_env f g) = example_net" "en_parse (example_env f g) = example_parse g"
  "en_print (example_env f g) y = ''sent''" "en_sha (example_env f g) t = ''digest''" "en_dumps (example_env f g) b = ''kept''"
  by (simp_all add: example_env_def example_radios_def)

lemma example_peer [simp]: "CHR ''%'' \<notin> set t \<Longrightarrow> canonical_peer (en_ip (example_env f g)) t = t"
  by (simp add: canonical_peer_def example_env_def)

lemma example_unprotected:
  "r \<in> set example_radios \<Longrightarrow> require_unprotected_device example_net example_protection (Some (stored_row r)) = Inr ()"
proof -
  have "list_all (\<lambda>r. require_unprotected_device example_net example_protection (Some (stored_row r)) = Inr ()) example_radios" by code_simp
  then show "r \<in> set example_radios \<Longrightarrow> require_unprotected_device example_net example_protection (Some (stored_row r)) = Inr ()"
    by (simp add: list_all_iff)
qed

lemma example_profile: "detect_profile (facts_of (example_info i)) = Some ST20_LEGACY_PROFILE"
proof -
  have "facts_of (example_info i) = facts_of (example_info [])" by (simp add: facts_of_def text_at_def findtext_def findtext_below_def findall_def example_info_def)
  moreover have "detect_profile (facts_of (example_info [])) = Some ST20_LEGACY_PROFILE" by code_simp
  ultimately show ?thesis by simp
qed

lemma example_identity:
  assumes "r \<in> set example_radios"
  shows "verify_settings_identity (example_env f g) r (ra_info r) s = (Inr (sp_key ST20_LEGACY_PROFILE), s)"
    "unprotected (example_env f g) r s = (Inr (), s)"
proof -
  show u: "unprotected (example_env f g) r s = (Inr (), s)" using assms by (simp add: unprotected_def example_unprotected)
  obtain i ip where r: "r = example_radio i ip" "i = ''A1'' \<or> i = ''B2''" using assms by (auto simp: example_radios_def)
  have p: "example_parse g (''info '' @ i) = Some (example_info i)" using r(2) by (auto simp: example_parse_def)
  have n: "names_radio r (example_info i)" using r by (simp add: names_radio_def example_info_def attr_or_def attr_def)
  have "df_model (facts_of (example_info i)) = ''SoundTouch 20''" "df_firmware (facts_of (example_info i)) = ''27.0.6.46330.5043500''"
    by (simp_all add: facts_of_def text_at_def findtext_def findtext_below_def findall_def example_info_def strip_def is_space_def)
  then have "identity_key r (example_info i) (example_info i) = Inr (sp_key ST20_LEGACY_PROFILE)"
    using r(1) example_profile [of i] by (simp add: identity_key_def example_radio_def strip_def is_space_def)
  then show "verify_settings_identity (example_env f g) r (ra_info r) s = (Inr (sp_key ST20_LEGACY_PROFILE), s)"
    using r(1) p n u by (simp add: verify_settings_identity_def abind_def lift_result_def parse_def)
qed

end
