(* ===== verification/ZoneChanges.thy ===== *)
theory ZoneChanges
  imports RadioIdentity
begin

text \<open>
  Removing a member from a multiroom zone, or clearing it (app/services/zone_changes.py): the zone a
  radio reports, the radios a change affects, and the transaction around the one write. The stored
  row of each radio is a value that was read when the transaction began; the guard returns the row as
  it is now, and a changed targeting field ends the transaction.
\<close>

section \<open>Zones\<close>

record zone =
  zo_master :: string
  zo_members :: "(string \<times> string) list"

definition zone_of_xml :: "string \<Rightarrow> xml \<Rightarrow> exc + zone" where
  "zone_of_xml device_id node = (let
     members = sort (map (\<lambda>m. (upper (strip (xm_text m)), attr_or m ''ipaddress'' [])) (findall node ''member''));
     ids = map fst members;
     master = upper (strip (attr_or node ''master'' [])) in
     if xm_tag node \<noteq> ''zone'' then Inl (Fault OtherError)
     else if device_id \<noteq> [] \<and> (case attr node ''deviceID'' of None \<Rightarrow> False | Some c \<Rightarrow> upper (strip c) \<noteq> upper device_id)
     then Inl (Fault OtherError)
     else if [] \<in> set ids \<or> \<not> distinct ids then Inl (Fault OtherError)
     else if members \<noteq> [] \<and> master = [] then Inl (Fault OtherError)
     else Inr \<lparr>zo_master = master, zo_members = members\<rparr>)"

definition zone_parse :: "'w env \<Rightarrow> string \<Rightarrow> string \<Rightarrow> exc + zone" where
  "zone_parse env device_id text = rbind (parse env text) (zone_of_xml device_id)"

definition standalone :: "zone \<Rightarrow> string \<Rightarrow> bool" where
  "standalone z identity = ((zo_master z = [] \<or> zo_master z = upper identity) \<and>
     list_all (\<lambda>m. fst m = upper identity) (zo_members z))"

text \<open>A later entry of a dict replaces an earlier one with the same key, but keeps its place.\<close>

definition set_key :: "string \<Rightarrow> 'v \<Rightarrow> (string \<times> 'v) list \<Rightarrow> (string \<times> 'v) list" where
  "set_key k v d = (if k \<in> fst ` set d then map (\<lambda>e. if fst e = k then (k, v) else e) d else d @ [(k, v)])"

definition peers_of :: "'w env \<Rightarrow> (string \<times> string) list \<Rightarrow> (string \<times> string) list" where
  "peers_of env selected = fold (\<lambda>e d. set_key (upper (fst e)) (canonical_peer (en_ip env) (snd e)) d) selected []"

definition require_selected_scope :: "'w env \<Rightarrow> zone \<Rightarrow> (string \<times> string) list \<Rightarrow> exc + unit" where
  "require_selected_scope env z selected = (let peers = peers_of env selected in
     if zo_master z \<noteq> [] \<and> zo_master z \<notin> fst ` set peers then Inl (Raised ''ZONE_FORMER_COORDINATOR_NOT_SELECTED'' False)
     else if list_ex (\<lambda>m. case map_of peers (fst m) of None \<Rightarrow> True
         | Some p \<Rightarrow> snd m \<noteq> [] \<and> canonical_peer (en_ip env) (snd m) \<noteq> p) (zo_members z)
     then Inl (Raised ''ZONE_UNSELECTED_PARTICIPANT'' False)
     else Inr ())"

definition read_zone :: "'w env \<Rightarrow> radio \<Rightarrow> ('w, zone \<times> (string \<times> string) list) iact" where
  "read_zone env r =
     abind (unprotected env r) (\<lambda>_.
     abind (get_xml env r ''/info'') (\<lambda>info.
     abind (verify_settings_identity env r info) (\<lambda>_.
     abind (get_xml env r ''/getZone'') (\<lambda>text.
     abind (lift_result (zone_parse env (ra_id r) text)) (\<lambda>z.
       areturn (z, [(''/info'', info), (''/getZone'', text)]))))))"

lemma faulty_zone [plain_intros]: "faulty (zone_parse env i t)"
  unfolding zone_parse_def zone_of_xml_def Let_def by (intro plain_intros)

section \<open>The transaction\<close>

definition same_radio :: "string \<Rightarrow> radio \<Rightarrow> bool" where
  "same_radio k r = (upper (ra_id r) = k)"

definition participants_of :: "'w env \<Rightarrow> radio \<Rightarrow> zone \<Rightarrow> 'w \<Rightarrow> exc + radio list" where
  "participants_of env master expected w =
     (if zo_master expected \<noteq> [] \<and> zo_master expected \<noteq> upper (ra_id master) then Inl (Raised ''ZONE_COORDINATOR_CHANGED'' False)
      else rbind (rmap (\<lambda>m. case find (same_radio (fst m)) (rev (en_known env w)) of
            None \<Rightarrow> Inl (Raised ''ZONE_UNKNOWN_PARTICIPANT'' False)
          | Some r \<Rightarrow> if snd m \<noteq> [] \<and> canonical_peer (en_ip env) (snd m) \<noteq> canonical_peer (en_ip env) (ra_ip r)
              then Inl (Raised ''ZONE_UNKNOWN_PARTICIPANT'' False) else Inr (fst m, r)) (zo_members expected))
        (\<lambda>found. Inr (map snd (fold (\<lambda>e d. set_key (fst e) (snd e) d) found [(upper (ra_id master), master)]))))"

definition zone_payload :: "radio \<Rightarrow> radio list \<Rightarrow> xml" where
  "zone_payload master remaining = Elem ''zone'' [(''master'', ra_id master)] []
     (map (\<lambda>r. Elem ''member'' [(''ipaddress'', ra_ip r)] (ra_id r) []) remaining)"

definition guard_current :: "'w env \<Rightarrow> radio \<Rightarrow> ('w, unit) iact" where
  "guard_current env r = abind (guard env r) (\<lambda>now.
     if device_fingerprint now \<noteq> device_fingerprint r then araise (Raised ''ZONE_TARGET_CHANGED'' False) else areturn ())"

text \<open>\<open>except ZoneChangeError: raise\<close>, then \<open>except Exception\<close> with a code of its own.\<close>

definition translating :: "string \<Rightarrow> ('w, 'a) iact \<Rightarrow> ('w, 'a) iact" where
  "translating code m = catching m (\<lambda>e. case e of
     Raised c b \<Rightarrow> araise (Raised c b)
   | Fault f \<Rightarrow> if f = CancelledError then araise (Fault f) else araise (Raised code False))"

definition back_up :: "'w env \<Rightarrow> radio \<Rightarrow> zone \<Rightarrow> (string \<times> string) list \<Rightarrow> radio \<Rightarrow> ('w, string \<times> (string \<times> string) list) iact" where
  "back_up env master expected targets r =
     abind (guard_current env r) (\<lambda>_.
     abind (read_zone env r) (\<lambda>(z, raw).
     abind (lift_result (require_selected_scope env z targets)) (\<lambda>_.
       if ra_id r = ra_id master \<and> z \<noteq> expected then araise (Raised ''ZONE_PRECONDITION_CHANGED'' False)
       else if zo_master z \<noteq> upper (ra_id master) \<and> \<not> standalone z (ra_id r) then araise (Raised ''ZONE_CONFLICTING_TOPOLOGY'' False)
       else areturn (ra_id r, raw))))"

definition raw_zone :: "(string \<times> (string \<times> string) list) list \<Rightarrow> radio \<Rightarrow> string" where
  "raw_zone before r = (case map_of before (ra_id r) of None \<Rightarrow> [] | Some raw \<Rightarrow> (case map_of raw ''/getZone'' of None \<Rightarrow> [] | Some t \<Rightarrow> t))"

definition recheck :: "'w env \<Rightarrow> (string \<times> (string \<times> string) list) list \<Rightarrow> radio \<Rightarrow> ('w, unit) iact" where
  "recheck env before r =
     abind (guard_current env r) (\<lambda>_.
     abind (read_zone env r) (\<lambda>(z, _).
     abind (lift_result (zone_parse env [] (raw_zone before r))) (\<lambda>old.
       if z \<noteq> old then araise (Raised ''ZONE_PRECONDITION_CHANGED'' False) else areturn ())))"

definition backup_ref :: "nat \<Rightarrow> string" where
  "backup_ref n = ''config_backup:'' @ digits_of_nat n"

definition zone_action :: "radio option \<Rightarrow> string" where
  "zone_action remove = (if remove = None then ''zone_clear'' else ''zone_remove'')"

definition zone_row :: "string \<Rightarrow> radio \<Rightarrow> radio option \<Rightarrow> nat \<Rightarrow> string \<Rightarrow> bool \<Rightarrow> action_row" where
  "zone_row job master remove n phase ok = \<lparr>aj_job = job, aj_device = ra_id master, aj_action = zone_action remove,
     aj_phase = phase, aj_backup_ref = backup_ref n, aj_verified = ok\<rparr>"

text \<open>The backup and the intent are one commit; what it stored is read again before anything is written.\<close>

definition zone_intent :: "'w env \<Rightarrow> string \<Rightarrow> radio \<Rightarrow> radio option \<Rightarrow> (string \<times> (string \<times> string) list) list \<Rightarrow> ('w, nat) iact" where
  "zone_intent env job master remove before = (let content = en_dumps env (texts_tree before) in
     abind (add_row env (\<lambda>n. BackupRow n (ra_id master) (job @ ''/before.json'') content)) (\<lambda>n.
     abind (abind (record_action env (zone_row job master remove n ''ZONE_INTENT'' False)) (\<lambda>_. commit env)) (\<lambda>_ s.
       if stored_intact env n (en_sha env content) s then (Inr n, s) else (Inl (Raised ''ZONE_BACKUP_INTEGRITY'' False), s))))"

definition remaining_of :: "radio \<Rightarrow> radio option \<Rightarrow> radio list \<Rightarrow> radio list" where
  "remaining_of master remove ps = (case remove of
     None \<Rightarrow> []
   | Some x \<Rightarrow> filter (\<lambda>r. ra_id r \<noteq> ra_id master \<and> ra_id r \<noteq> ra_id x) ps)"

definition zone_participants :: "'w env \<Rightarrow> radio \<Rightarrow> zone \<Rightarrow> ('w, radio list) iact" where
  "zone_participants env master expected s = (participants_of env master expected (io_world s), s)"

definition zone_preflight :: "'w env \<Rightarrow> radio \<Rightarrow> zone \<Rightarrow> radio option \<Rightarrow> ('w, radio list) iact" where
  "zone_preflight env master expected remove =
     abind (zone_participants env master expected) (\<lambda>ps.
       if (case remove of Some x \<Rightarrow> upper (ra_id x) = upper (ra_id master) | None \<Rightarrow> False)
       then araise (Raised ''ZONE_CANNOT_REMOVE_COORDINATOR'' False)
       else if (case remove of Some x \<Rightarrow> ra_id x \<notin> ra_id ` set ps | None \<Rightarrow> False)
       then araise (Raised ''ZONE_MEMBER_NOT_PRESENT'' False)
       else abind (each (guard_current env) ps) (\<lambda>_. abind (own_radios env (map ra_id ps)) (\<lambda>_. areturn ps)))"

definition zone_before :: "'w env \<Rightarrow> string \<Rightarrow> radio \<Rightarrow> zone \<Rightarrow> radio option \<Rightarrow> radio list \<Rightarrow> ('w, nat) iact" where
  "zone_before env job master expected remove ps =
     abind (translating ''ZONE_BACKUP_UNAVAILABLE'' (each (back_up env master expected (map (\<lambda>r. (ra_id r, ra_ip r)) ps)) ps)) (\<lambda>before.
     abind (zone_intent env job master remove before) (\<lambda>n.
     abind (translating ''ZONE_PRECONDITION_UNAVAILABLE'' (each (recheck env before) ps)) (\<lambda>_. areturn n)))"

text \<open>The write: a transport error leaves its effect open, any other error counts as a refusal.\<close>

definition zone_write :: "'w env \<Rightarrow> radio \<Rightarrow> radio list \<Rightarrow> string \<Rightarrow> ('w, string \<times> bool) iact" where
  "zone_write env master ps body =
     abind (each (guard_current env) ps) (\<lambda>_.
       catching (abind (post_xml env master ''/setZone'' body) (\<lambda>response. areturn (response, False)))
         (\<lambda>e. if e = Fault CancelledError then araise e else areturn ([], e \<noteq> Fault TransportError)))"

definition zone_ok :: "radio \<Rightarrow> string set \<Rightarrow> radio \<Rightarrow> zone \<Rightarrow> bool" where
  "zone_ok master desired r z =
     (if ra_id r = ra_id master
      then if desired \<noteq> {} then zo_master z = upper (ra_id master) \<and> fst ` set (zo_members z) - {upper (ra_id master)} = desired
           else standalone z (ra_id r)
      else if upper (ra_id r) \<in> desired
      then zo_master z = upper (ra_id master) \<and> fst ` set (zo_members z) \<subseteq> insert (upper (ra_id master)) desired
      else standalone z (ra_id r))"

definition observe_zone :: "'w env \<Rightarrow> radio \<Rightarrow> string set \<Rightarrow> (string \<times> string) list \<Rightarrow> radio \<Rightarrow> ('w, bool) iact" where
  "observe_zone env master desired targets r = catching
     (abind (guard_current env r) (\<lambda>_.
      abind (read_zone env r) (\<lambda>(z, _).
      abind (lift_result (require_selected_scope env z targets)) (\<lambda>_. areturn (zone_ok master desired r z)))))
     (\<lambda>e. if is_exception e then areturn False else araise e)"

primrec readback :: "'w env \<Rightarrow> (radio \<Rightarrow> ('w, bool) iact) \<Rightarrow> radio list \<Rightarrow> nat \<Rightarrow> ('w, bool) iact" where
  "readback env look ps 0 = areturn False"
| "readback env look ps (Suc n) = abind (sleep env) (\<lambda>_. abind (each look ps) (\<lambda>oks.
     if list_all (\<lambda>b. b) oks then areturn True else readback env look ps n))"

record zone_result =
  zr_response :: string
  zr_xml :: string
  zr_backup_ref :: string
  zr_remaining :: "string list"

definition zone_after :: "'w env \<Rightarrow> string \<Rightarrow> radio \<Rightarrow> radio option \<Rightarrow> radio list \<Rightarrow> nat \<Rightarrow> string \<Rightarrow> string \<times> bool \<Rightarrow> ('w, zone_result) iact" where
  "zone_after env job master remove ps n body sent = (let
     desired = (\<lambda>r. upper (ra_id r)) ` set (remaining_of master remove ps);
     targets = map (\<lambda>r. (ra_id r, ra_ip r)) ps in
     abind (readback env (observe_zone env master desired targets) ps 10) (\<lambda>all_ok.
     let verified = all_ok \<and> \<not> snd sent in
     abind (catching (abind (record_action env (zone_row job master remove n (if verified then ''VERIFIED'' else ''READBACK_MISMATCH'') verified))
         (\<lambda>_. commit env))
       (\<lambda>e s. if is_exception e then (Inl (Raised ''ZONE_FINAL_RECORD_FAILED'' True), rollback s) else (Inl e, s))) (\<lambda>_.
       if verified then areturn \<lparr>zr_response = fst sent, zr_xml = body, zr_backup_ref = backup_ref n,
         zr_remaining = map ra_name (remaining_of master remove ps)\<rparr>
       else araise (Raised ''ZONE_READBACK_MISMATCH'' True))))"

definition change_zone :: "'w env \<Rightarrow> string \<Rightarrow> radio \<Rightarrow> zone \<Rightarrow> radio option \<Rightarrow> ('w, zone_result) iact" where
  "change_zone env job master expected remove =
     abind (zone_preflight env master expected remove) (\<lambda>ps.
     abind (zone_before env job master expected remove ps) (\<lambda>n.
     let body = en_print env (zone_payload master (remaining_of master remove ps)) in
     abind (zone_write env master ps body) (\<lambda>sent. zone_after env job master remove ps n body sent)))"

section \<open>Before and after the write\<close>

lemma zone_parse_faults: "zone_parse env d text = Inl e \<Longrightarrow> e = Fault OtherError"
  by (auto simp: zone_parse_def parse_def zone_of_xml_def Let_def split: option.splits if_splits)

lemma scope_blames: "require_selected_scope env z sel = Inl e \<Longrightarrow> \<not> blames e"
  by (auto simp: require_selected_scope_def Let_def split: if_splits)

lemma harmless_zone [harmless_intros]: "harmless (zone_parse env d text)" "harmless (require_selected_scope env z sel)"
  using zone_parse_faults scope_blames by (fastforce simp: harmless_def)+

lemma untouched_read_zone [untouched_intros]: "untouched (read_zone env r)"
  unfolding read_zone_def by (intro untouched_intros harmless_intros)

lemma calm_read_zone [calm_intros]: "calm (read_zone env r)"
  unfolding read_zone_def by (intro calm_intros)

lemma untouched_guard [untouched_intros]: "untouched (guard_current env r)"
  unfolding guard_current_def by (intro untouched_intros) simp

lemma calm_guard [calm_intros]: "calm (guard_current env r)"
  unfolding guard_current_def by (intro calm_intros)

lemma untouched_translating [untouched_intros]: "untouched m \<Longrightarrow> untouched (translating code m)"
  unfolding translating_def by (rule untouched_catching) (auto intro!: untouched_raise split: exc.splits if_splits)

lemma calm_translating [calm_intros]: "calm m \<Longrightarrow> calm (translating code m)"
  unfolding translating_def by (rule calm_catching) (auto intro: calm_intros split: exc.splits)

lemma untouched_intact: "untouched (\<lambda>s. if stored_intact env n d s then (Inr a, s) else (Inl (Raised c False), s))"
  by (simp add: untouched_def)

lemma untouched_zone_intent [untouched_intros]: "untouched (zone_intent env job master remove before)"
  unfolding zone_intent_def Let_def by (intro untouched_intros untouched_intact)

lemma participants_blame: "participants_of env master expected w = Inl e \<Longrightarrow> \<not> blames e"
proof -
  have r: "rmap (\<lambda>m. case find (same_radio (fst m)) (rev (en_known env w)) of
            None \<Rightarrow> Inl (Raised ''ZONE_UNKNOWN_PARTICIPANT'' False)
          | Some r \<Rightarrow> if snd m \<noteq> [] \<and> canonical_peer (en_ip env) (snd m) \<noteq> canonical_peer (en_ip env) (ra_ip r)
              then Inl (Raised ''ZONE_UNKNOWN_PARTICIPANT'' False) else Inr (fst m, r)) ms = Inl e' \<Longrightarrow> \<not> blames e'" for ms e'
    by (induction ms) (auto simp: rbind_def split: option.splits if_splits sum.splits)
  assume "participants_of env master expected w = Inl e"
  then show "\<not> blames e"
    using r by (auto simp: participants_of_def rbind_def split: if_splits sum.splits)
qed

lemma untouched_participants [untouched_intros]: "untouched (zone_participants env master expected)"
  using participants_blame by (fastforce simp: untouched_def zone_participants_def split: sum.splits)

lemma untouched_preflight [untouched_intros]: "untouched (zone_preflight env master expected remove)"
  unfolding zone_preflight_def by (intro untouched_intros) simp_all

lemma untouched_before: "untouched (zone_before env job master expected remove ps)"
  unfolding zone_before_def back_up_def recheck_def by (intro untouched_intros harmless_intros) simp_all

text \<open>When the guards let the write through, each radio was guarded, and nothing else happened in between.\<close>

lemma guards_log:
  assumes "each (guard_current env) ps s = (Inr us, t)"
  shows "io_log t = io_log s @ map (\<lambda>r. Guarded (ra_id r)) ps"
  using assms
proof (induction ps arbitrary: s us)
  case Nil
  then show ?case by (simp add: areturn_def)
next
  case (Cons r ps)
  obtain t' where g: "guard_current env r s = (Inr (), t')" and l: "io_log t' = io_log s @ [Guarded (ra_id r)]"
    using Cons.prems
    by (auto simp: abind_def guard_current_def guard_def lift_def note_event_def areturn_def araise_def split: prod.splits sum.splits if_splits)
  then obtain us' where "each (guard_current env) ps t' = (Inr us', t)"
    using Cons.prems by (auto simp: abind_def areturn_def split: prod.splits sum.splits)
  then show ?case using Cons.IH l by simp
qed

text \<open>A radio that was found in order answered, at that moment, with the wanted zone.\<close>

definition shows_zone :: "'w env \<Rightarrow> radio \<Rightarrow> string set \<Rightarrow> io_event list \<Rightarrow> radio \<Rightarrow> bool" where
  "shows_zone env master desired ev r = (\<exists>text z. Got (ra_id r) ''/getZone'' (Inr text) \<in> set ev \<and>
     zone_parse env (ra_id r) text = Inr z \<and> zone_ok master desired r z)"

lemma read_zone_got:
  assumes "read_zone env r s = (Inr (z, raw), t)"
  shows "\<exists>ev text. io_log t = io_log s @ ev \<and> Got (ra_id r) ''/getZone'' (Inr text) \<in> set ev \<and> zone_parse env (ra_id r) text = Inr z"
proof -
  obtain s1 where s1: "unprotected env r s = (Inr (), s1)"
    using assms by (auto simp: read_zone_def abind_def split: prod.splits sum.splits)
  obtain info s2 where s2: "get_xml env r ''/info'' s1 = (Inr info, s2)"
    using assms s1 by (auto simp: read_zone_def abind_def split: prod.splits sum.splits)
  obtain key s3 where s3: "verify_settings_identity env r info s2 = (Inr key, s3)"
    using assms s1 s2 by (auto simp: read_zone_def abind_def split: prod.splits sum.splits)
  obtain zt s4 where s4: "get_xml env r ''/getZone'' s3 = (Inr zt, s4)"
    using assms s1 s2 s3 by (auto simp: read_zone_def abind_def split: prod.splits sum.splits)
  have z: "zone_parse env (ra_id r) zt = Inr z" "t = s4"
    using assms s1 s2 s3 s4 by (auto simp: read_zone_def abind_def lift_result_def areturn_def split: prod.splits sum.splits)
  obtain e1 where e1: "io_log s1 = io_log s @ e1" using calmE [OF calm_basic(9) s1] .
  obtain e2 where e2: "io_log s2 = io_log s1 @ e2" using calmE [OF calm_basic(4) s2] .
  obtain e3 where e3: "io_log s3 = io_log s2 @ e3" using calmE [OF calm_identity s3] .
  have "io_log s4 = io_log s3 @ [Got (ra_id r) ''/getZone'' (Inr zt)]"
    using s4 by (auto simp: get_xml_def note_event_def lift_def split: prod.splits sum.splits)
  then show ?thesis using e1 e2 e3 z by (intro exI [of _ "e1 @ e2 @ e3 @ [Got (ra_id r) ''/getZone'' (Inr zt)]"]) auto
qed

lemma shows_zone_append:
  "shows_zone env master desired ev r \<Longrightarrow> shows_zone env master desired (ev' @ ev) r"
  "shows_zone env master desired ev r \<Longrightarrow> shows_zone env master desired (ev @ ev') r"
  unfolding shows_zone_def by auto

lemma observe_shows:
  assumes "observe_zone env master desired targets r s = (Inr True, t)"
  shows "\<exists>ev. io_log t = io_log s @ ev \<and> shows_zone env master desired ev r"
proof -
  obtain s1 where s1: "guard_current env r s = (Inr (), s1)"
    using assms by (auto simp: observe_zone_def catching_def abind_def areturn_def araise_def split: prod.splits sum.splits if_splits)
  obtain z raw s2 where s2: "read_zone env r s1 = (Inr (z, raw), s2)"
    using assms s1 by (auto simp: observe_zone_def catching_def abind_def areturn_def araise_def split: prod.splits sum.splits if_splits)
  have "zone_ok master desired r z" "t = s2"
    using assms s1 s2
    by (auto simp: observe_zone_def catching_def abind_def areturn_def araise_def lift_result_def split: prod.splits sum.splits if_splits)
  moreover obtain e1 where "io_log s1 = io_log s @ e1" using calmE [OF calm_guard s1] .
  moreover obtain e2 where e2: "io_log s2 = io_log s1 @ e2" "\<exists>zt. Got (ra_id r) ''/getZone'' (Inr zt) \<in> set e2 \<and> zone_parse env (ra_id r) zt = Inr z"
    using read_zone_got [OF s2] by blast
  ultimately have "shows_zone env master desired (e1 @ e2) r" "io_log t = io_log s @ e1 @ e2"
    by (auto simp: shows_zone_def)
  then show ?thesis by blast
qed

lemma calm_observe [calm_intros]: "calm (observe_zone env master desired targets r)"
  unfolding observe_zone_def by (intro calm_intros)

lemma each_shows:
  assumes "each (observe_zone env master desired targets) ps s = (Inr oks, t)" "list_all (\<lambda>b. b) oks"
  shows "\<exists>ev. io_log t = io_log s @ ev \<and> (\<forall>r \<in> set ps. shows_zone env master desired ev r)"
  using assms
proof (induction ps arbitrary: s oks)
  case Nil
  then show ?case by (simp add: areturn_def)
next
  case (Cons r ps)
  obtain ok s1 where s1: "observe_zone env master desired targets r s = (Inr ok, s1)"
    using Cons.prems(1) by (auto simp: abind_def split: prod.splits sum.splits)
  obtain oks' where s2: "each (observe_zone env master desired targets) ps s1 = (Inr oks', t)" "oks = ok # oks'"
    using Cons.prems(1) s1 by (auto simp: abind_def areturn_def split: prod.splits sum.splits)
  then have "ok" "list_all (\<lambda>b. b) oks'" using Cons.prems(2) by simp_all
  then obtain e1 e2 where e: "io_log s1 = io_log s @ e1" "shows_zone env master desired e1 r"
    "io_log t = io_log s1 @ e2" "\<forall>q \<in> set ps. shows_zone env master desired e2 q"
    using observe_shows [of env master desired targets r s s1] s1 Cons.IH [OF s2(1)] by auto
  then show ?case by (intro exI [of _ "e1 @ e2"]) (auto intro: shows_zone_append)
qed

lemma readback_shows:
  assumes "readback env (observe_zone env master desired targets) ps n s = (Inr True, t)"
  shows "\<exists>ev. io_log t = io_log s @ ev \<and> (\<forall>r \<in> set ps. shows_zone env master desired ev r)"
  using assms
proof (induction n arbitrary: s)
  case 0
  then show ?case by (simp add: areturn_def)
next
  case (Suc n)
  obtain s1 where s1: "sleep env s = (Inr (), s1)"
    using Suc.prems by (auto simp: abind_def split: prod.splits sum.splits)
  obtain oks s2 where s2: "each (observe_zone env master desired targets) ps s1 = (Inr oks, s2)"
    using Suc.prems s1 by (auto simp: abind_def split: prod.splits sum.splits)
  obtain e1 where e1: "io_log s1 = io_log s @ e1" using calmE [OF calm_basic(6) s1] .
  show ?case
  proof (cases "list_all (\<lambda>b. b) oks")
    case True
    then have "t = s2" using Suc.prems s1 s2 by (simp add: abind_def areturn_def)
    moreover obtain e2 where e2: "io_log s2 = io_log s1 @ e2" "\<forall>r \<in> set ps. shows_zone env master desired e2 r"
      using each_shows [OF s2 True] by blast
    moreover have "\<forall>r \<in> set ps. shows_zone env master desired (e1 @ e2) r" using e2(2) by (auto intro: shows_zone_append)
    ultimately show ?thesis using e1 by (intro exI [of _ "e1 @ e2"]) simp
  next
    case False
    then have "readback env (observe_zone env master desired targets) ps n s2 = (Inr True, t)"
      using Suc.prems s1 s2 by (simp add: abind_def)
    then obtain e3 where e3: "io_log t = io_log s2 @ e3" "\<forall>r \<in> set ps. shows_zone env master desired e3 r" using Suc.IH by blast
    obtain e2 where e2: "io_log s2 = io_log s1 @ e2" using calmE [OF calm_each [OF calm_observe] s2] .
    have "\<forall>r \<in> set ps. shows_zone env master desired (e1 @ e2 @ e3) r" using e3(2) by (auto intro: shows_zone_append)
    then show ?thesis using e1 e2 e3(1) by (intro exI [of _ "e1 @ e2 @ e3"]) simp
  qed
qed

lemma calm_readback [calm_intros]: "(\<And>r. calm (look r)) \<Longrightarrow> calm (readback env look ps n)"
  by (induction n) (auto intro!: calm_intros)

lemma readback_cancelled:
  assumes "readback env (observe_zone env master desired targets) ps n s = (Inl e, t)"
  shows "e = Fault CancelledError"
proof -
  have o: "observe_zone env master desired targets r s = (Inl e, t) \<Longrightarrow> e = Fault CancelledError" for r s e t
    by (auto simp: observe_zone_def catching_def is_exception_def areturn_def araise_def split: prod.splits sum.splits if_splits)
  have "each (observe_zone env master desired targets) qs s = (Inl e, t) \<Longrightarrow> e = Fault CancelledError" for qs s e t
    by (induction qs arbitrary: s) (auto simp: areturn_def abind_def split: prod.splits sum.splits dest: o)
  then show ?thesis using assms
    by (induction n arbitrary: s) (auto simp: areturn_def abind_def sleep_def split: prod.splits sum.splits if_splits)
qed

text \<open>A record of the result that fails is reported as a write that needs reconciliation.\<close>

lemma final_outcome:
  assumes "untouched m"
    and "catching m (\<lambda>e s. if is_exception e then (Inl (Raised c True), rollback s) else (Inl e, s)) s = (r, t)"
  shows "\<exists>ev. io_log t = io_log s @ ev \<and> \<not> list_ex is_put ev" "r = Inl e \<Longrightarrow> blames e \<or> e = Fault CancelledError"
proof -
  obtain a s1 where s1: "m s = (a, s1)" by (cases "m s")
  obtain ev where "io_log s1 = io_log s @ ev" "\<not> list_ex is_put ev" using untouchedE [OF assms(1) s1] by blast
  moreover have "io_log t = io_log s1" "r = Inl e \<Longrightarrow> blames e \<or> e = Fault CancelledError"
    using assms(2) s1 by (auto simp: catching_def is_exception_def rollback_def split: sum.splits if_splits)
  ultimately show "\<exists>ev. io_log t = io_log s @ ev \<and> \<not> list_ex is_put ev" "r = Inl e \<Longrightarrow> blames e \<or> e = Fault CancelledError"
    by auto
qed

lemma after_outcome:
  assumes "zone_after env job master remove ps n body sent s = (r, t)"
  shows "\<exists>ev. io_log t = io_log s @ ev \<and> \<not> list_ex is_put ev \<and>
    (case r of Inl e \<Rightarrow> blames e \<or> e = Fault CancelledError
     | Inr _ \<Rightarrow> \<not> snd sent \<and> (\<forall>p \<in> set ps. shows_zone env master ((\<lambda>r. upper (ra_id r)) ` set (remaining_of master remove ps)) ev p))"
proof -
  let ?d = "(\<lambda>r. upper (ra_id r)) ` set (remaining_of master remove ps)"
  let ?rb = "readback env (observe_zone env master ?d (map (\<lambda>r. (ra_id r, ra_ip r)) ps)) ps 10"
  obtain b s1 where s1: "?rb s = (b, s1)" by (cases "?rb s")
  obtain e1 where e1: "io_log s1 = io_log s @ e1" "list_all calm_event e1"
    using calmE [OF calm_readback [OF calm_observe] s1] .
  show ?thesis
  proof (cases b)
    case (Inl e)
    then have "r = Inl e" "t = s1" using assms s1 by (simp_all add: zone_after_def Let_def abind_def)
    moreover have "e = Fault CancelledError" using readback_cancelled s1 Inl by blast
    ultimately show ?thesis using e1 calm_no_put by (intro exI [of _ e1]) auto
  next
    case (Inr all_ok)
    let ?v = "all_ok \<and> \<not> snd sent"
    let ?rec = "catching (abind (record_action env (zone_row job master remove n (if ?v then ''VERIFIED'' else ''READBACK_MISMATCH'') ?v))
         (\<lambda>_. commit env)) (\<lambda>e s. if is_exception e then (Inl (Raised ''ZONE_FINAL_RECORD_FAILED'' True), rollback s) else (Inl e, s))"
    obtain c s2 where s2: "?rec s1 = (c, s2)" by (cases "?rec s1")
    have "\<exists>e2. io_log s2 = io_log s1 @ e2 \<and> \<not> list_ex is_put e2"
      and c: "\<And>e. c = Inl e \<Longrightarrow> blames e \<or> e = Fault CancelledError"
      using final_outcome [OF untouched_bind [OF untouched_record untouched_basic(8)] s2] by blast+
    then obtain e2 where e2: "io_log s2 = io_log s1 @ e2" "\<not> list_ex is_put e2" by blast
    have t: "t = s2" "r = (case c of Inl e \<Rightarrow> Inl e | Inr _ \<Rightarrow> if ?v then Inr \<lparr>zr_response = fst sent, zr_xml = body, zr_backup_ref = backup_ref n,
         zr_remaining = map ra_name (remaining_of master remove ps)\<rparr> else Inl (Raised ''ZONE_READBACK_MISMATCH'' True))"
      using assms s1 Inr s2 by (auto simp: zone_after_def Let_def abind_def areturn_def araise_def split: sum.splits if_splits)
    have "\<forall>p \<in> set ps. shows_zone env master ?d (e1 @ e2) p" if ?v
    proof -
      have "?rb s = (Inr True, s1)" using s1 Inr that by simp
      then show ?thesis using readback_shows [of env master ?d] e1(1) by (force intro: shows_zone_append)
    qed
    then show ?thesis using t c e1 e2 calm_no_put by (intro exI [of _ "e1 @ e2"]) (auto split: sum.splits if_splits)
  qed
qed

section \<open>The backup\<close>

text \<open>The backup holds, for each radio, the two answers it gave.\<close>

definition backs_up :: "io_event list \<Rightarrow> string \<times> (string \<times> string) list \<Rightarrow> bool" where
  "backs_up ev b = (\<exists>info zt. snd b = [(''/info'', info), (''/getZone'', zt)] \<and>
     Got (fst b) ''/info'' (Inr info) \<in> set ev \<and> Got (fst b) ''/getZone'' (Inr zt) \<in> set ev)"

lemma backs_up_append: "backs_up ev b \<Longrightarrow> backs_up (ev' @ ev) b" "backs_up ev b \<Longrightarrow> backs_up (ev @ ev') b"
  unfolding backs_up_def by auto

lemma read_zone_raw:
  assumes "read_zone env r s = (Inr (z, raw), t)"
  shows "\<exists>ev. io_log t = io_log s @ ev \<and> backs_up ev (ra_id r, raw)"
proof -
  obtain s1 where s1: "unprotected env r s = (Inr (), s1)"
    using assms by (auto simp: read_zone_def abind_def split: prod.splits sum.splits)
  obtain info s2 where s2: "get_xml env r ''/info'' s1 = (Inr info, s2)"
    using assms s1 by (auto simp: read_zone_def abind_def split: prod.splits sum.splits)
  obtain key s3 where s3: "verify_settings_identity env r info s2 = (Inr key, s3)"
    using assms s1 s2 by (auto simp: read_zone_def abind_def split: prod.splits sum.splits)
  obtain zt s4 where s4: "get_xml env r ''/getZone'' s3 = (Inr zt, s4)"
    using assms s1 s2 s3 by (auto simp: read_zone_def abind_def split: prod.splits sum.splits)
  have raw: "raw = [(''/info'', info), (''/getZone'', zt)]" "t = s4"
    using assms s1 s2 s3 s4 by (auto simp: read_zone_def abind_def lift_result_def areturn_def split: prod.splits sum.splits)
  have "s1 = s" using s1 by (auto simp: unprotected_def split: sum.splits)
  moreover have "s3 = s2" using identity_verified [OF s3] by blast
  moreover have "io_log s2 = io_log s1 @ [Got (ra_id r) ''/info'' (Inr info)]" "io_log s4 = io_log s3 @ [Got (ra_id r) ''/getZone'' (Inr zt)]"
    using s2 s4 by (auto simp: get_xml_def note_event_def lift_def split: prod.splits sum.splits)
  ultimately show ?thesis using raw by (simp add: backs_up_def)
qed

lemma back_up_covers:
  assumes "back_up env master expected targets r s = (Inr b, t)"
  shows "fst b = ra_id r \<and> (\<exists>ev. io_log t = io_log s @ ev \<and> backs_up ev b)"
proof -
  obtain s1 where s1: "guard_current env r s = (Inr (), s1)"
    using assms by (auto simp: back_up_def abind_def split: prod.splits sum.splits)
  obtain z raw s2 where s2: "read_zone env r s1 = (Inr (z, raw), s2)"
    using assms s1 by (auto simp: back_up_def abind_def split: prod.splits sum.splits)
  have b: "b = (ra_id r, raw)" "t = s2"
    using assms s1 s2 by (auto simp: back_up_def abind_def lift_result_def areturn_def araise_def split: prod.splits sum.splits if_splits)
  obtain e1 where "io_log s1 = io_log s @ e1" using calmE [OF calm_guard s1] .
  then show ?thesis using read_zone_raw [OF s2] b by (auto intro: backs_up_append)
qed

lemma each_back_up:
  assumes "each (back_up env master expected targets) ps s = (Inr before, t)"
  shows "map fst before = map ra_id ps \<and> (\<exists>ev. io_log t = io_log s @ ev \<and> (\<forall>b \<in> set before. backs_up ev b))"
  using assms
proof (induction ps arbitrary: s before)
  case Nil
  then show ?case by (simp add: areturn_def)
next
  case (Cons r ps)
  obtain b s1 where s1: "back_up env master expected targets r s = (Inr b, s1)"
    using Cons.prems by (auto simp: abind_def split: prod.splits sum.splits)
  obtain bs where bs: "each (back_up env master expected targets) ps s1 = (Inr bs, t)" "before = b # bs"
    using Cons.prems s1 by (auto simp: abind_def areturn_def split: prod.splits sum.splits)
  obtain e1 e2 where "io_log s1 = io_log s @ e1" "backs_up e1 b" "fst b = ra_id r"
    "io_log t = io_log s1 @ e2" "\<forall>b \<in> set bs. backs_up e2 b" "map fst bs = map ra_id ps"
    using back_up_covers [OF s1] Cons.IH [OF bs(1)] by blast
  then show ?case using bs(2) by (auto intro: backs_up_append intro!: exI [of _ "e1 @ e2"])
qed

definition zone_on_record :: "'w env \<Rightarrow> string \<Rightarrow> radio \<Rightarrow> radio option \<Rightarrow> radio list \<Rightarrow> nat \<Rightarrow> io_event list \<Rightarrow> bool" where
  "zone_on_record env job master remove ps n ev = (\<exists>before rows xs ys. ev = xs @ Committed rows # ys \<and>
     map fst before = map ra_id ps \<and> (\<forall>b \<in> set before. backs_up xs b) \<and>
     BackupRow n (ra_id master) (job @ ''/before.json'') (en_dumps env (texts_tree before)) \<in> set rows \<and> take 128 (ra_id master) \<in> set (intents rows))"

lemma translating_Inr: "translating code m s = (Inr a, t) \<Longrightarrow> m s = (Inr a, t)"
  by (auto simp: translating_def catching_def araise_def split: prod.splits sum.splits exc.splits if_splits)

lemma intent_commits:
  assumes "zone_intent env job master remove before s = (Inr n, t)"
  shows "\<exists>rows. io_log t = io_log s @ [Committed rows] \<and> take 128 (ra_id master) \<in> set (intents rows) \<and>
    BackupRow n (ra_id master) (job @ ''/before.json'') (en_dumps env (texts_tree before)) \<in> set rows"
  using assms
  by (auto simp: zone_intent_def Let_def abind_def add_row_def record_action_def cut_row_def commit_def areturn_def note_event_def zone_row_def
      INTENTS_def split: prod.splits sum.splits if_splits)

lemma before_on_record:
  assumes "zone_before env job master expected remove ps s = (Inr n, t)"
  shows "\<exists>ev. io_log t = io_log s @ ev \<and> zone_on_record env job master remove ps n ev"
proof -
  let ?targets = "map (\<lambda>r. (ra_id r, ra_ip r)) ps"
  obtain before s1 where s1: "translating ''ZONE_BACKUP_UNAVAILABLE'' (each (back_up env master expected ?targets) ps) s = (Inr before, s1)"
    using assms by (auto simp: zone_before_def abind_def split: prod.splits sum.splits)
  obtain m s2 where s2: "zone_intent env job master remove before s1 = (Inr m, s2)"
    using assms s1 by (auto simp: zone_before_def abind_def split: prod.splits sum.splits)
  obtain us where s3: "translating ''ZONE_PRECONDITION_UNAVAILABLE'' (each (recheck env before) ps) s2 = (Inr us, t)" and n: "n = m"
    using assms s1 s2 by (auto simp: zone_before_def abind_def areturn_def split: prod.splits sum.splits)
  obtain e1 where e1: "map fst before = map ra_id ps" "io_log s1 = io_log s @ e1" "\<forall>b \<in> set before. backs_up e1 b"
    using each_back_up [OF translating_Inr [OF s1]] by blast
  obtain rows where e2: "io_log s2 = io_log s1 @ [Committed rows]" "take 128 (ra_id master) \<in> set (intents rows)"
    "BackupRow m (ra_id master) (job @ ''/before.json'') (en_dumps env (texts_tree before)) \<in> set rows"
    using intent_commits [OF s2] by blast
  have "calm (recheck env before r)" for r unfolding recheck_def by (intro calm_intros)
  then obtain e3 where "io_log t = io_log s2 @ e3"
    using calmE [OF calm_translating [OF calm_each] s3] by blast
  then show ?thesis unfolding zone_on_record_def
    using e1 e2 n by (intro exI [of _ "e1 @ Committed rows # e3"] conjI exI [of _ before] exI [of _ rows] exI [of _ e1] exI [of _ e3]) simp_all
qed

section \<open>The whole transaction\<close>

lemma write_outcome:
  assumes "zone_write env master ps body s = (r, t)"
  shows "(\<exists>ev. io_log t = io_log s @ ev \<and> \<not> list_ex is_put ev \<and> (\<exists>e. r = Inl e \<and> \<not> blames e)) \<or>
    (io_log t = io_log s @ map (\<lambda>p. Guarded (ra_id p)) ps @ [Put (ra_id master) ''/setZone'' body] \<and>
      (\<forall>e. r = Inl e \<longrightarrow> e = Fault CancelledError))"
proof -
  obtain g s1 where s1: "each (guard_current env) ps s = (g, s1)" by (cases "each (guard_current env) ps s")
  show ?thesis
  proof (cases g)
    case (Inl e)
    moreover obtain ev where "io_log s1 = io_log s @ ev" "\<not> list_ex is_put ev" "\<And>e. g = Inl e \<Longrightarrow> \<not> blames e"
      using untouchedE [OF untouched_each [OF untouched_guard] s1] by blast
    ultimately show ?thesis using assms s1 by (auto simp: zone_write_def abind_def)
  next
    case (Inr us)
    then have "io_log s1 = io_log s @ map (\<lambda>p. Guarded (ra_id p)) ps" using guards_log s1 by blast
    moreover have "io_log t = io_log s1 @ [Put (ra_id master) ''/setZone'' body] \<and> (\<forall>e. r = Inl e \<longrightarrow> e = Fault CancelledError)"
      using assms s1 Inr by (auto simp: zone_write_def abind_def catching_def post_xml_def note_event_def areturn_def araise_def
          split: prod.splits sum.splits if_splits)
    ultimately show ?thesis by simp
  qed
qed

lemma preflight_participants:
  "zone_preflight env master expected remove s = (Inr ps, t) \<Longrightarrow> participants_of env master expected (io_world s) = Inr ps"
  by (auto simp: zone_preflight_def zone_participants_def abind_def areturn_def araise_def split: prod.splits sum.splits if_splits)

text \<open>From the guards on: nothing is written, or the outcome of the write is what the readback says.\<close>

lemma sent_outcome:
  assumes "abind (zone_write env master ps body) (zone_after env job master remove ps n body) s = (r, t)"
  shows "\<exists>ev. io_log t = io_log s @ ev \<and>
    (\<not> list_ex is_put ev \<and> (\<exists>e. r = Inl e \<and> \<not> blames e) \<or>
     (\<exists>post. ev = map (\<lambda>p. Guarded (ra_id p)) ps @ Put (ra_id master) ''/setZone'' body # post \<and> \<not> list_ex is_put post \<and>
        (case r of Inl e \<Rightarrow> blames e \<or> e = Fault CancelledError
         | Inr z \<Rightarrow> \<forall>p \<in> set ps. shows_zone env master ((\<lambda>r. upper (ra_id r)) ` set (remaining_of master remove ps)) post p)))"
proof -
  obtain c s1 where s1: "zone_write env master ps body s = (c, s1)" by (cases "zone_write env master ps body s")
  have rest: "(r, t) = (case c of Inl e \<Rightarrow> (Inl e, s1) | Inr sent \<Rightarrow> zone_after env job master remove ps n body sent s1)"
    using assms s1 by (auto simp: abind_def split: sum.splits)
  consider (no) ev e where "io_log s1 = io_log s @ ev" "\<not> list_ex is_put ev" "c = Inl e" "\<not> blames e"
    | (put) "io_log s1 = io_log s @ map (\<lambda>p. Guarded (ra_id p)) ps @ [Put (ra_id master) ''/setZone'' body]"
      "\<And>e. c = Inl e \<Longrightarrow> e = Fault CancelledError"
    using write_outcome [OF s1] by blast
  then show ?thesis
  proof cases
    case no
    then show ?thesis using rest by auto
  next
    case put
    obtain e2 where "io_log t = io_log s1 @ e2" "\<not> list_ex is_put e2"
      "case r of Inl e \<Rightarrow> blames e \<or> e = Fault CancelledError
       | Inr z \<Rightarrow> \<forall>p \<in> set ps. shows_zone env master ((\<lambda>r. upper (ra_id r)) ` set (remaining_of master remove ps)) e2 p"
    proof (cases c)
      case (Inl e)
      then show thesis using that [of "[]"] rest put(2) by simp
    next
      case (Inr sent)
      then have "zone_after env job master remove ps n body sent s1 = (r, t)" using rest by simp
      from after_outcome [OF this] show thesis using that by (elim exE conjE) (auto split: sum.splits)
    qed
    then show ?thesis using put(1) by auto
  qed
qed

lemma triple_intent:
  "triple safe (zone_intent env job master remove before) (\<lambda>_ s. safe s \<and> armed s = Some (take 128 (ra_id master))) (\<lambda>_. safe)"
  unfolding zone_intent_def Let_def
proof (rule triple_bind [OF triple_keeps [OF keeps_calm [OF calm_basic(8)]]], rule triple_bind)
  show "triple safe (abind (record_action env (zone_row job master remove n ''ZONE_INTENT'' False)) (\<lambda>_. commit env))
      (\<lambda>_ s. safe s \<and> armed s = Some (take 128 (ra_id master))) (\<lambda>_. safe)" for n
    by (rule triple_record_intent) (simp_all add: zone_row_def INTENTS_def)
qed (simp add: triple_def)

lemma safe_change_zone: "keeps safe (change_zone env job master expected remove)"
proof -
  let ?A = "\<lambda>s. safe s \<and> armed s = Some (take 128 (ra_id master))"
  have pre: "keeps safe (zone_preflight env master expected remove)"
  proof (rule keeps_calm)
    have "calm (zone_participants env master expected)" by (rule calm_same) (simp add: zone_participants_def)
    then show "calm (zone_preflight env master expected remove)" unfolding zone_preflight_def by (intro calm_intros)
  qed
  have before: "triple safe (zone_before env job master expected remove ps) (\<lambda>_. ?A) (\<lambda>_. safe)" for ps
    unfolding zone_before_def
  proof (rule triple_bind [OF triple_keeps [OF keeps_calm]], rule_tac [2] triple_bind [OF triple_intent triple_calm])
    show "calm (translating c (each (back_up env master expected targets) ps))" for c targets
      unfolding back_up_def by (intro calm_intros)
    show "calm (abind (translating c (each (recheck env before) ps)) (\<lambda>_. areturn n))" for c before and n :: nat
      unfolding recheck_def by (intro calm_intros)
  qed
  have written: "triple ?A (zone_write env master ps body) (\<lambda>_. safe) (\<lambda>_. safe)" for ps body
    unfolding zone_write_def
  proof (rule triple_bind [OF triple_calm [OF calm_each [OF calm_guard]]])
    show "triple ?A (catching (abind (post_xml env master ''/setZone'' body) (\<lambda>response. areturn (response, False)))
       (\<lambda>e. if e = Fault CancelledError then araise e else areturn ([], e \<noteq> Fault TransportError))) (\<lambda>_. safe) (\<lambda>_. safe)"
      using triple_post [of master env "''/setZone''" body]
      by (auto simp: triple_def catching_def abind_def areturn_def araise_def split: prod.splits sum.splits)
  qed
  have after: "keeps safe (zone_after env job master remove ps n body sent)" for ps n body sent
    unfolding zone_after_def Let_def
    by (intro keeps_bind keeps_catching keeps_commit keeps_calm [OF calm_record] keeps_calm [OF calm_readback [OF calm_observe]])
       (auto simp: keeps_def safe_def rollback_def areturn_def araise_def)
  show ?thesis unfolding change_zone_def Let_def
    by (rule keeps_triple) (intro triple_bind [OF triple_keeps [OF pre]] triple_bind [OF before] triple_bind [OF written] triple_keeps [OF after])
qed


definition example_zone :: "string \<Rightarrow> xml option" where
  "example_zone t = (if t = ''grouped'' then Some (Elem ''zone'' [(''master'', ''A1'')] [] [Elem ''member'' [(''ipaddress'', ''b'')] ''B2'' []])
     else if t = ''alone'' then Some (Elem ''zone'' [] [] []) else None)"

definition example_zone_env :: "nat env" where
  "example_zone_env = example_env (\<lambda>_ _ w. if w = 0 then ''grouped'' else ''alone'') example_zone"

lemma example_read_zone:
  assumes "r \<in> set example_radios"
  shows "read_zone (example_env f g) r s = (let zt = f (ra_id r) ''/getZone'' (io_world s) in
     (rbind (zone_parse (example_env f g) (ra_id r) zt) (\<lambda>z. Inr (z, [(''/info'', ra_info r), (''/getZone'', zt)])),
      s\<lparr>io_log := io_log s @ [Got (ra_id r) ''/info'' (Inr (ra_info r)), Got (ra_id r) ''/getZone'' (Inr zt)]\<rparr>))"
  using assms
  by (simp add: read_zone_def abind_def get_xml_def lift_def note_event_def example_identity lift_result_def areturn_def Let_def rbind_def split: sum.split)

lemma example_guard: "guard_current (example_env f g) r s = (Inr (), s\<lparr>io_log := io_log s @ [Guarded (ra_id r)]\<rparr>)"
  by (simp add: guard_current_def abind_def guard_def lift_def note_event_def areturn_def)

lemmas io_unfold = abind_def catching_def areturn_def araise_def lift_result_def lift_def note_event_def example_guard example_read_zone
  translating_def own_radios_def add_row_def record_action_def commit_def stored_intact_def post_xml_def sleep_def


end
