(* ===== verification/DirectSelection.thy ===== *)
theory DirectSelection
  imports ZoneChanges
begin

text \<open>
  Playing one station on one radio (app/services/direct_selection.py), with the playback state it
  caches (app/services/device_state.py): what \<open>/now_playing\<close>, \<open>/volume\<close> and \<open>/sources\<close> say, and the
  transaction around the one \<open>/select\<close>. A parser never returns an empty text, so an element without a
  text and one with an empty text are the same.
\<close>

section \<open>What a radio reports\<close>

record selection =
  se_source :: string
  se_account :: string
  se_location :: string
  se_status :: string

definition malformed :: "exc + 'a" where
  "malformed = Inl (Fault OtherError)"

definition selection_root :: "'w env \<Rightarrow> string \<Rightarrow> string \<Rightarrow> string \<Rightarrow> exc + xml" where
  "selection_root env t tag identity =
     (if t = [] \<or> length t > 131072 then malformed
      else rbind (parse env t) (\<lambda>x.
        if xm_tag x \<noteq> tag then malformed
        else if identity \<noteq> [] \<and> (case attr x ''deviceID'' of None \<Rightarrow> False | Some c \<Rightarrow> upper (strip c) \<noteq> upper identity)
        then Inl (Fault IdentityMismatch)
        else Inr x))"

definition selection_content :: "xml \<Rightarrow> selection" where
  "selection_content x = \<lparr>se_source = attr_or x ''source'' [], se_account = attr_or x ''sourceAccount'' [],
     se_location = attr_or x ''location'' [], se_status = []\<rparr>"

definition no_selection :: selection where
  "no_selection = \<lparr>se_source = [], se_account = [], se_location = [], se_status = []\<rparr>"

definition selection_of_xml :: "bool \<Rightarrow> xml \<Rightarrow> exc + selection" where
  "selection_of_xml allow_pending x = (let
     items = findall x ''ContentItem''; statuses = findall x ''playStatus'';
     item = (case items of [] \<Rightarrow> no_selection | i # _ \<Rightarrow> selection_content i);
     source = attr_or x ''source'' [] in
     if length items > 1 \<or> length statuses > 1 then malformed
     else if source = [] \<or> se_source item \<noteq> [] \<and> se_source item \<noteq> source then malformed
     else if allow_pending \<and> source = ''LOCAL_INTERNET_RADIO'' \<and> (items = [] \<or> se_source item = []) then
       (if statuses \<noteq> [] \<and> xm_text (hd statuses) = [] then malformed
        else Inr (no_selection\<lparr>se_source := source, se_status := ''UNCONFIRMED_STATE''\<rparr>))
     else rbind (case statuses of
         [] \<Rightarrow> if length items \<noteq> 1 \<or> se_source item \<noteq> source then malformed
           else if source = ''STANDBY'' then Inr ''STOP_STATE''
           else if source = ''INVALID_SOURCE'' then Inr ''INVALID_SOURCE''
           else if allow_pending then Inr ''UNCONFIRMED_STATE''
           else malformed
       | p # _ \<Rightarrow> if xm_text p = [] \<or> source = ''STANDBY'' \<and> xm_text p \<noteq> ''STOP_STATE'' then malformed else Inr (xm_text p))
       (\<lambda>status. Inr \<lparr>se_source = source, se_account = se_account item, se_location = se_location item, se_status = status\<rparr>))"

definition selection_read :: "'w env \<Rightarrow> string \<Rightarrow> string \<Rightarrow> bool \<Rightarrow> exc + selection" where
  "selection_read env t identity allow_pending = rbind (selection_root env t ''nowPlaying'' identity) (selection_of_xml allow_pending)"

definition same_content :: "selection \<Rightarrow> selection \<Rightarrow> bool" where
  "same_content a b = (se_source a = se_source b \<and> se_account a = se_account b \<and> se_location a = se_location b)"

definition volume_read :: "'w env \<Rightarrow> string \<Rightarrow> string \<Rightarrow> exc + nat \<times> bool" where
  "volume_read env t identity = rbind (selection_root env t ''volume'' identity) (\<lambda>x.
     case (findall x ''actualvolume'', findall x ''muteenabled'') of
       ([v], [m]) \<Rightarrow> if xm_text v = [] \<or> \<not> list_all is_digit (xm_text v) \<or> length (xm_text v) > 4300 \<or> nat_of_digits (xm_text v) > 100 \<or> xm_text m \<notin> {''true'', ''false''} then malformed
         else Inr (nat_of_digits (xm_text v), xm_text m = ''true'')
     | _ \<Rightarrow> malformed)"

definition source_ready :: "'w env \<Rightarrow> string \<Rightarrow> string \<Rightarrow> selection \<Rightarrow> exc + unit" where
  "source_ready env t identity desired = rbind (selection_root env t ''sources'' identity) (\<lambda>x.
     case filter (\<lambda>n. xm_tag n \<in> {''source'', ''sourceItem''} \<and> attr n ''source'' = Some (se_source desired) \<and>
         attr_or n ''sourceAccount'' [] = se_account desired) (xm_children x) of
       [n] \<Rightarrow> if attr n ''status'' = Some ''READY'' then Inr () else malformed
     | _ \<Rightarrow> malformed)"

section \<open>The cached playback state\<close>

definition METADATA_TAGS :: "string list" where
  "METADATA_TAGS = [''track'', ''title'', ''artist'', ''album'', ''imageurl'', ''arturl'', ''art'']"

definition local_tag :: "string \<Rightarrow> string" where
  "local_tag t = lower (rev (takeWhile (\<lambda>c. c \<noteq> CHR ''}'') (rev t)))"

definition now_playing_fields :: "xml \<Rightarrow> (string \<times> pyval) list" where
  "now_playing_fields x = fold (\<lambda>c d. if xm_text c \<noteq> [] then set_key (xm_tag c) (VStr (strip (xm_text c))) d
     else if local_tag (xm_tag c) \<in> set METADATA_TAGS then set_key (xm_tag c) VNone d else d) (xm_children x) []"

definition runtime_from_now_playing :: "'w env \<Rightarrow> string \<Rightarrow> (string \<times> pyval) list" where
  "runtime_from_now_playing env t = (case en_parse env t of
     None \<Rightarrow> []
   | Some x \<Rightarrow> (let content = filter (\<lambda>c. xm_tag c = ''ContentItem'') (below x) in
       [(''current_source'', VStr (if attr_or x ''source'' [] \<noteq> [] then attr_or x ''source'' []
           else (case content of [] \<Rightarrow> [] | c # _ \<Rightarrow> attr_or c ''source'' []))),
        (''playback_state'', VStr (case findtext x ''playStatus'' of Some p \<Rightarrow> p | None \<Rightarrow> attr_or x ''playStatus'' [])),
        (''now_playing'', VDict (now_playing_fields x)),
        (''selected_content_item'', VDict (case content of [] \<Rightarrow> [] | c # _ \<Rightarrow> map (\<lambda>(k, v). (k, VStr v)) (xm_attrs c)))]))"

definition runtime_state_key :: "string \<Rightarrow> string" where
  "runtime_state_key d = ''device:'' @ d @ '':runtime_state''"

text \<open>\<open>dict.update\<close> on the stored value; a stored list or number has no such method.\<close>

definition cache_selection :: "'w env \<Rightarrow> radio \<Rightarrow> string \<Rightarrow> ('w, unit) iact" where
  "cache_selection env r t s = (case (case en_runtime env (runtime_state_key (ra_id r)) (io_world s) of None \<Rightarrow> VDict [] | Some v \<Rightarrow> v) of
     VDict d \<Rightarrow> (Inr (), s\<lparr>io_pending := io_pending s @ [RuntimeRow (runtime_state_key (ra_id r))
       (VDict (fold (\<lambda>(k, v) d. set_key k v d) (runtime_from_now_playing env t @ [(''current_preset'', VNone)]) d))]\<rparr>)
   | _ \<Rightarrow> (Inl (Fault OtherError), s))"

section \<open>The transaction\<close>

definition unchanged_target :: "'w env \<Rightarrow> radio \<Rightarrow> ('w, radio) iact" where
  "unchanged_target env r = abind (refresh_row env r) (\<lambda>now.
     if device_fingerprint now \<noteq> device_fingerprint r then araise (Fault IdentityMismatch) else guard env now)"

definition url_safe :: "'w env \<Rightarrow> 'w \<Rightarrow> string \<Rightarrow> bool" where
  "url_safe env w u = (u = [] \<or> (case validate_outbound_http_url (en_net env) (en_policy env w) u None False of Inr v \<Rightarrow> uv_ok v | Inl _ \<Rightarrow> False))"

definition requested :: "'w env \<Rightarrow> 'w \<Rightarrow> string \<Rightarrow> exc + selection" where
  "requested env w t = rbind (selection_root env t ''ContentItem'' []) (\<lambda>item. let desired = selection_content item in
     if se_source desired \<noteq> ''LOCAL_INTERNET_RADIO'' \<or> se_account desired \<noteq> [] \<or> attr item ''type'' \<noteq> Some ''stationurl'' then malformed
     else if se_location desired = [] \<or> \<not> list_all (url_safe env w) (se_location desired # map xm_text (findall item ''containerArt'')) then malformed
     else Inr desired)"

definition observed_state :: "'w env \<Rightarrow> radio \<Rightarrow> selection \<Rightarrow> (string \<times> string) list \<Rightarrow> exc + selection \<times> zone \<times> nat \<times> bool" where
  "observed_state env r desired raw = (let answer = (\<lambda>p. case map_of raw p of Some t \<Rightarrow> t | None \<Rightarrow> []) in
     rbind (source_ready env (answer ''/sources'') (ra_id r) desired) (\<lambda>_.
     rbind (zone_parse env (ra_id r) (answer ''/getZone'')) (\<lambda>z.
     if \<not> standalone z (ra_id r) then malformed
     else rbind (selection_read env (answer ''/now_playing'') (ra_id r) False) (\<lambda>sel.
     rbind (volume_read env (answer ''/volume'') (ra_id r)) (\<lambda>v. Inr (sel, z, v))))))"

definition radio_snapshot :: "'w env \<Rightarrow> radio \<Rightarrow> selection \<Rightarrow> ('w, (string \<times> string) list \<times> selection \<times> zone \<times> nat \<times> bool) iact" where
  "radio_snapshot env r desired =
     abind (unchanged_target env r) (\<lambda>now.
     abind (get_xml env r ''/info'') (\<lambda>info.
     abind (lift_result (selection_root env info ''info'' (ra_id r))) (\<lambda>_.
     abind (verify_settings_identity env now info) (\<lambda>_.
     abind (each (\<lambda>p. abind (unchanged_target env r) (\<lambda>_. abind (get_xml env r p) (\<lambda>t. areturn (p, t))))
       [''/sources'', ''/getZone'', ''/now_playing'', ''/volume'']) (\<lambda>raw.
     abind (unchanged_target env r) (\<lambda>_.
     abind (lift_result (observed_state env r desired ((''/info'', info) # raw))) (\<lambda>state. areturn ((''/info'', info) # raw, state))))))))"

definition selection_row :: "string \<Rightarrow> radio \<Rightarrow> string \<Rightarrow> string \<Rightarrow> bool \<Rightarrow> action_row" where
  "selection_row job r ref phase ok = \<lparr>aj_job = job, aj_device = ra_id r, aj_action = ''direct_select'', aj_phase = phase,
     aj_backup_ref = ref, aj_verified = ok\<rparr>"

text \<open>
  The one handler of the transaction, for each value of \<open>code\<close> and \<open>attempted\<close> it may find. A
  \<open>Raised\<close> here is a \<open>ValueError\<close> directly after an assignment to \<open>code\<close>.
\<close>

definition selection_failure :: "'w env \<Rightarrow> string \<Rightarrow> radio \<Rightarrow> string \<Rightarrow> string \<Rightarrow> bool \<Rightarrow> exc \<Rightarrow> 'w io \<Rightarrow> (exc + 'a) \<times> 'w io" where
  "selection_failure env job r ref code attempted e s =
     (Inl (case e of Raised c _ \<Rightarrow> Raised c attempted
       | Fault f \<Rightarrow> if f = CancelledError then e else Raised (if f = IdentityMismatch then ''IDENTITY_MISMATCH'' else code) attempted),
      record_transport_attempt env (selection_row job r ref (if attempted then ''direct_select_diverged'' else ''direct_select_blocked'') False) (rollback s))"

text \<open>\<open>expected_previous\<close>: not given, not the dict of a selection, or one.\<close>

definition select_preflight :: "'w env \<Rightarrow> string \<Rightarrow> selection option option \<Rightarrow> radio \<Rightarrow>
    ('w, selection \<times> (string \<times> string) list \<times> selection \<times> zone \<times> nat \<times> bool) iact" where
  "select_preflight env xml expected r =
     abind (\<lambda>s. (requested env (io_world s) xml, s)) (\<lambda>desired.
     abind (radio_snapshot env r desired) (\<lambda>(raw, before, rest).
       if expected \<noteq> None \<and> expected \<noteq> Some (Some before) then araise (Raised ''WRITE_PRECONDITION_FAILED'' False)
       else areturn (desired, raw, before, rest)))"

definition selection_backup :: "'w env \<Rightarrow> radio \<Rightarrow> (string \<times> string) list \<Rightarrow> string" where
  "selection_backup env r raw = en_dumps env (VDict [(''schema'', VInt 1), (''device_id'', VStr (ra_id r)), (''http'', text_tree raw)])"

definition selection_ref :: "'w env \<Rightarrow> nat \<Rightarrow> string \<Rightarrow> string" where
  "selection_ref env n content = ''config-backup:'' @ digits_of_nat n @ '':sha256:'' @ en_sha env content"

definition select_intent :: "'w env \<Rightarrow> string \<Rightarrow> radio \<Rightarrow> string \<Rightarrow> ('w, unit) iact" where
  "select_intent env job r ref = abind (record_action env (selection_row job r ref ''direct_select_intent'' False)) (\<lambda>_. commit env)"

definition select_recheck :: "'w env \<Rightarrow> radio \<Rightarrow> selection \<Rightarrow> selection \<times> zone \<times> nat \<times> bool \<Rightarrow> nat \<Rightarrow> string \<Rightarrow> ('w, unit) iact" where
  "select_recheck env r desired before n content =
     abind (radio_snapshot env r desired) (\<lambda>(_, current).
       if current \<noteq> before then araise (Fault OtherError)
       else abind (\<lambda>s. case en_stored env n (io_world s) of
           None \<Rightarrow> (Inl (Fault OtherError), s)
         | Some (d, c) \<Rightarrow> if d \<noteq> ra_id r \<or> en_sha env c \<noteq> en_sha env content then (Inl (Fault OtherError), s) else (Inr (), s)) (\<lambda>_.
         abind (unchanged_target env r) (\<lambda>_. areturn ())))"

record selection_result =
  sr_readback :: selection
  sr_verified :: bool
  sr_pending :: bool
  sr_uncertain :: bool

definition select_write :: "'w env \<Rightarrow> string \<Rightarrow> radio \<Rightarrow> selection \<Rightarrow> zone \<times> nat \<times> bool \<Rightarrow>
    ('w, string \<times> selection_result) iact" where
  "select_write env xml r desired kept =
     abind (catching (abind (post_xml env r ''/select'' xml) (\<lambda>_. areturn False)) (\<lambda>e. if is_exception e then areturn True else araise e)) (\<lambda>uncertain.
     abind (radio_snapshot env r desired) (\<lambda>(raw, actual, rest).
       if \<not> same_content actual desired \<or> rest \<noteq> kept then araise (Raised ''WRITE_READBACK_MISMATCH'' True)
       else if se_status actual \<notin> {''PLAY_STATE'', ''BUFFERING'', ''BUFFERING_STATE''} then araise (Raised ''PLAYBACK_NOT_CONFIRMED'' True)
       else areturn (case map_of raw ''/now_playing'' of Some t \<Rightarrow> t | None \<Rightarrow> [],
         \<lparr>sr_readback = actual, sr_verified = (se_status actual = ''PLAY_STATE''), sr_pending = (se_status actual \<noteq> ''PLAY_STATE''), sr_uncertain = uncertain\<rparr>)))"

definition select_finish :: "'w env \<Rightarrow> string \<Rightarrow> radio \<Rightarrow> string \<Rightarrow> string \<Rightarrow> bool \<Rightarrow> ('w, unit) iact" where
  "select_finish env job r ref playing verified =
     abind (record_action env (selection_row job r ref ''direct_select_readback'' verified)) (\<lambda>_.
     abind (cache_selection env r playing) (\<lambda>_. commit env))"

definition select_direct :: "'w env \<Rightarrow> string \<Rightarrow> string \<Rightarrow> selection option option \<Rightarrow> radio \<Rightarrow> ('w, selection_result) iact" where
  "select_direct env job xml expected device =
     abind (own_radios env [ra_id device]) (\<lambda>_.
     abind (guard env device) (\<lambda>r.
     abind (catching (select_preflight env xml expected r) (selection_failure env job r [] ''SELECTION_PREFLIGHT_FAILED'' False)) (\<lambda>(desired, raw, before, kept).
     let content = selection_backup env r raw in
     abind (catching (add_row env (\<lambda>n. BackupRow n (ra_id r) ''http8090:direct-select-start'' content))
       (selection_failure env job r [] ''SELECTION_BACKUP_FAILED'' False)) (\<lambda>n. let ref = selection_ref env n content in
     abind (catching (select_intent env job r ref) (selection_failure env job r ref ''SELECTION_BACKUP_FAILED'' False)) (\<lambda>_.
     abind (catching (select_recheck env r desired (before, kept) n content) (selection_failure env job r ref ''WRITE_PRECONDITION_FAILED'' False)) (\<lambda>_.
     abind (catching (select_write env xml r desired kept) (selection_failure env job r ref ''SELECTION_READBACK_FAILED'' True)) (\<lambda>(playing, result).
     abind (catching (select_finish env job r ref playing (sr_verified result)) (selection_failure env job r ref ''SELECTION_RESULT_COMMIT_FAILED'' True)) (\<lambda>_.
       areturn result))))))))"

section \<open>What the transaction does\<close>

lemma faulty_malformed [plain_intros]: "faulty malformed"
  by (simp add: malformed_def)

lemma faulty_root [plain_intros]: "faulty (selection_root env t tag identity)"
  unfolding selection_root_def by (intro plain_intros)

lemma faulty_selection [plain_intros]: "faulty (selection_of_xml b x)"
  unfolding selection_of_xml_def Let_def by (intro plain_intros)

lemma faulty_readings [plain_intros]:
  "faulty (selection_read env t i b)" "faulty (volume_read env t i)" "faulty (source_ready env t i d)" "faulty (requested env w t)"
  unfolding selection_read_def volume_read_def source_ready_def requested_def Let_def case_prod_conv by (intro plain_intros)+

lemma faulty_state [plain_intros]: "faulty (observed_state env r desired raw)"
  unfolding observed_state_def Let_def by (intro plain_intros)

lemma untouched_target [untouched_intros]: "untouched (unchanged_target env r)"
  unfolding unchanged_target_def by (intro untouched_intros) simp

text \<open>The texts a radio answered during a stretch of the log.\<close>

definition answered :: "radio \<Rightarrow> (string \<times> string) list \<Rightarrow> io_event list \<Rightarrow> bool" where
  "answered r raw ev = list_all (\<lambda>(p, t). Got (ra_id r) p (Inr t) \<in> set ev) raw"

lemma answered_append: "answered r raw ev \<Longrightarrow> answered r raw (ev @ ev')" "answered r raw ev \<Longrightarrow> answered r raw (ev' @ ev)"
  by (auto simp: answered_def list_all_iff)

lemma yields_answers:
  "yields (\<lambda>a ev. puts ev = [] \<and> harmless a \<and> (\<forall>raw. a = Inr raw \<longrightarrow> answered r raw ev))
     (each (\<lambda>p. abind (unchanged_target env r) (\<lambda>_. abind (get_xml env r p) (\<lambda>t. areturn (p, t)))) ps)"
proof (induction ps)
  case Nil
  show ?case by (simp add: yields_return answered_def)
next
  case (Cons p ps)
  have one: "yields (\<lambda>a ev. puts ev = [] \<and> harmless a \<and> (\<forall>x. a = Inr x \<longrightarrow> answered r [x] ev))
      (abind (unchanged_target env r) (\<lambda>_. abind (get_xml env r p) (\<lambda>t. areturn (p, t))))"
    by (intro yields_bind [OF yields_untouched [OF untouched_target]] yields_bind [OF yields_get] yields_return) (auto simp: answered_def)
  show ?case unfolding each.simps
    by (intro yields_bind [OF one] yields_bind [OF Cons.IH] yields_return)
       (auto simp: answered_def list_all_iff)
qed

lemma yields_snapshot:
  "yields (\<lambda>a ev. puts ev = [] \<and> harmless a \<and> (\<forall>raw st. a = Inr (raw, st) \<longrightarrow> answered r raw ev \<and> observed_state env r desired raw = Inr st))
     (radio_snapshot env r desired)"
proof -
  have o: "yields (\<lambda>a ev. puts ev = [] \<and> harmless a) (unchanged_target env r)" "yields (\<lambda>a ev. puts ev = [] \<and> harmless a) (verify_settings_identity env q info)"
      "yields (\<lambda>a ev. puts ev = [] \<and> harmless a) (lift_result (selection_root env info tag i))" for q info tag i
    by (intro yields_untouched untouched_intros faulty_harmless plain_intros)+
  have st: "yields (\<lambda>a ev. ev = [] \<and> harmless a \<and> observed_state env r desired raw = a) (lift_result (observed_state env r desired raw))" for raw
    by (rule yields_result) (simp add: faulty_harmless faulty_state)
  show ?thesis unfolding radio_snapshot_def
    by (intro yields_bind [OF o(1)] yields_bind [OF o(2)] yields_bind [OF o(3)] yields_bind [OF yields_get] yields_bind [OF yields_answers]
        yields_bind [OF st] yields_return) (auto simp: answered_def list_all_iff)
qed

text \<open>The handler reports a write exactly if it was attempted.\<close>

definition told :: "bool \<Rightarrow> exc + 'a \<Rightarrow> bool" where
  "told b a = (\<forall>e. a = Inl e \<longrightarrow> e = Fault CancelledError \<or> (\<exists>c. e = Raised c b))"

lemma yields_failing:
  fixes r :: radio
  shows "yields (\<lambda>a ev. puts ev = [] \<and> (\<exists>e. a = Inl e) \<and> told attempted a) (selection_failure env job r ref code attempted e)"
proof (rule yieldsI)
  fix s a t
  assume run: "selection_failure env job r ref code attempted e s = (a, t)"
  obtain ev where "io_log (record_transport_attempt env (selection_row job r ref (if attempted then ''direct_select_diverged'' else ''direct_select_blocked'') False) (rollback s)) =
      io_log s @ ev" "puts ev = []"
    using attempt_log [of env _ "rollback s"] by (auto simp: rollback_def puts_none)
  then show "extends s t \<and> puts (added s t) = [] \<and> (\<exists>e. a = Inl e) \<and> told attempted a"
    using run by (cases e) (auto simp: selection_failure_def told_def extends_iff added_append split: if_splits)
qed

lemma yields_before:
  assumes "yields (\<lambda>a ev. puts ev = [] \<and> (\<forall>x. a = Inr x \<longrightarrow> P x ev)) m"
  shows "yields (\<lambda>a ev. puts ev = [] \<and> told False a \<and> (\<forall>x. a = Inr x \<longrightarrow> P x ev)) (catching m (selection_failure env job r ref code False))"
  by (rule yields_catching [OF assms]) (auto simp: told_def intro: yields_weaken [OF yields_failing])

lemma yields_after:
  assumes "yields (\<lambda>a ev. puts ev = w \<and> (\<forall>x. a = Inr x \<longrightarrow> P x ev)) m"
  shows "yields (\<lambda>a ev. puts ev = w \<and> told True a \<and> (\<forall>x. a = Inr x \<longrightarrow> P x ev)) (catching m (selection_failure env job r ref code True))"
  by (rule yields_catching [OF assms]) (auto simp: told_def intro: yields_weaken [OF yields_failing])

lemma yields_quiet: "untouched m \<Longrightarrow> yields (\<lambda>a ev. puts ev = [] \<and> (\<forall>x. a = Inr x \<longrightarrow> True)) m"
  by (rule yields_weaken [OF yields_untouched]) auto

definition preflighted :: "'w env \<Rightarrow> string \<Rightarrow> radio \<Rightarrow> selection \<times> (string \<times> string) list \<times> selection \<times> zone \<times> nat \<times> bool \<Rightarrow> io_event list \<Rightarrow> bool" where
  "preflighted env xml r x ev = (case x of (desired, raw, st) \<Rightarrow> (\<exists>w. requested env w xml = Inr desired) \<and> answered r raw ev \<and> observed_state env r desired raw = Inr st)"

lemma yields_select_preflight:
  "yields (\<lambda>a ev. puts ev = [] \<and> (\<forall>x. a = Inr x \<longrightarrow> preflighted env xml r x ev)) (select_preflight env xml expected r)"
proof -
  have req: "yields (\<lambda>a ev. ev = [] \<and> (\<exists>w. requested env w xml = a)) (\<lambda>s. (requested env (io_world s) xml, s))"
    by (auto simp: yields_def same_log)
  show ?thesis unfolding select_preflight_def
    by (intro yields_bind [OF req] yields_bind [OF yields_snapshot] yields_split yields_raise yields_return) (auto simp: preflighted_def)
qed

definition played :: "'w env \<Rightarrow> string \<Rightarrow> radio \<Rightarrow> selection \<Rightarrow> zone \<times> nat \<times> bool \<Rightarrow> string \<times> selection_result \<Rightarrow> io_event list \<Rightarrow> bool" where
  "played env xml r desired kept x ev = (case x of (_, res) \<Rightarrow> \<exists>post raw. ev = Put (ra_id r) ''/select'' xml # post \<and> answered r raw post \<and>
     observed_state env r desired raw = Inr (sr_readback res, kept) \<and> same_content (sr_readback res) desired \<and>
     sr_verified res = (se_status (sr_readback res) = ''PLAY_STATE'') \<and> sr_pending res = (se_status (sr_readback res) \<in> {''BUFFERING'', ''BUFFERING_STATE''}) \<and>
     (sr_verified res \<or> sr_pending res))"

lemma yields_select_write:
  "yields (\<lambda>a ev. puts ev = [Put (ra_id r) ''/select'' xml] \<and> (\<forall>x. a = Inr x \<longrightarrow> played env xml r desired kept x ev)) (select_write env xml r desired kept)"
proof -
  have "yields (\<lambda>a ev. ev = [Put (ra_id r) ''/select'' xml] \<and> faulty a) (abind (post_xml env r ''/select'' xml) (\<lambda>_. areturn False))"
    by (intro yields_bind [OF yields_post] yields_return) auto
  then have sent: "yields (\<lambda>a ev. ev = [Put (ra_id r) ''/select'' xml]) (catching (abind (post_xml env r ''/select'' xml) (\<lambda>_. areturn False))
      (\<lambda>e. if is_exception e then areturn True else araise e))"
    by (rule yields_catching) (auto intro!: yields_return yields_raise)
  show ?thesis unfolding select_write_def
    by (intro yields_bind [OF sent] yields_bind [OF yields_snapshot] yields_split yields_raise yields_return) (auto simp: played_def is_put_def)
qed

lemma untouched_finish: "untouched (select_finish env job r ref playing verified)"
proof -
  have "untouched (cache_selection env r playing)"
    by (auto simp: untouched_def cache_selection_def split: option.splits pyval.splits)
  then show ?thesis unfolding select_finish_def by (intro untouched_intros)
qed

lemma untouched_recheck: "untouched (select_recheck env r desired before n content)"
proof -
  have "untouched (radio_snapshot env r desired)"
    unfolding radio_snapshot_def by (intro untouched_intros faulty_harmless plain_intros)
  moreover have "untouched (\<lambda>s. case en_stored env n (io_world s) of None \<Rightarrow> (Inl (Fault OtherError), s)
     | Some (d, c) \<Rightarrow> if d \<noteq> ra_id r \<or> en_sha env c \<noteq> en_sha env content then (Inl (Fault OtherError), s) else (Inr (), s))"
    by (auto simp: untouched_def split: option.splits)
  ultimately show ?thesis unfolding select_recheck_def by (intro untouched_intros) auto
qed

definition selection_shown :: "'w env \<Rightarrow> radio \<Rightarrow> string \<Rightarrow> selection_result \<Rightarrow> io_event list \<Rightarrow> bool" where
  "selection_shown env device xml res ev = (\<exists>r desired before kept raw raw' pre post.
     (\<exists>w. fst (en_guard env device w) = Inr r) \<and> ev = pre @ Put (ra_id r) ''/select'' xml # post \<and> puts pre = [] \<and> puts post = [] \<and> (\<exists>w. requested env w xml = Inr desired) \<and>
     answered r raw pre \<and> observed_state env r desired raw = Inr (before, kept) \<and>
     answered r raw' post \<and> observed_state env r desired raw' = Inr (sr_readback res, kept) \<and>
     same_content (sr_readback res) desired \<and> sr_verified res = (se_status (sr_readback res) = ''PLAY_STATE'') \<and>
     sr_pending res = (se_status (sr_readback res) \<in> {''BUFFERING'', ''BUFFERING_STATE''}) \<and> (sr_verified res \<or> sr_pending res))"

lemma shownI:
  assumes "preflighted env xml r (desired, raw, before, kept) pre" "played env xml r desired kept (playing, res) ev"
    "puts pre = []" "puts pre0 = []" "puts pre' = []" "puts post = []" "puts ev = [Put (ra_id r) ''/select'' xml]" "fst (en_guard env device w) = Inr r"
  shows "selection_shown env device xml res (pre0 @ pre @ pre' @ ev @ post)"
proof -
  obtain ev' raw' where ev: "ev = Put (ra_id r) ''/select'' xml # ev'" "answered r raw' ev'" "observed_state env r desired raw' = Inr (sr_readback res, kept)"
    "same_content (sr_readback res) desired" "sr_verified res = (se_status (sr_readback res) = ''PLAY_STATE'')"
    "sr_pending res = (se_status (sr_readback res) \<in> {''BUFFERING'', ''BUFFERING_STATE''})" "sr_verified res \<or> sr_pending res"
    using assms(2) unfolding played_def by auto
  show ?thesis unfolding selection_shown_def
  proof (intro exI conjI)
    show "fst (en_guard env device w) = Inr r" by (rule assms(8))
    show "pre0 @ pre @ pre' @ ev @ post = (pre0 @ pre @ pre') @ Put (ra_id r) ''/select'' xml # ev' @ post" using ev(1) by simp
    show "requested env (SOME w. requested env w xml = Inr desired) xml = Inr desired"
      using assms(1) unfolding preflighted_def by (auto intro: someI)
    show "answered r raw (pre0 @ pre @ pre')" "observed_state env r desired raw = Inr (before, kept)"
      using assms(1) by (auto simp: preflighted_def intro: answered_append)
    show "answered r raw' (ev' @ post)" using ev(2) by (rule answered_append)
  qed (use assms ev in \<open>auto simp: is_put_def\<close>)
qed

lemma select_direct_end:
  "yields (\<lambda>a ev. case a of Inr res \<Rightarrow> selection_shown env device xml res ev | Inl (Raised c b) \<Rightarrow> b \<longleftrightarrow> puts ev \<noteq> []
     | Inl (Fault f) \<Rightarrow> f = CancelledError \<or> puts ev = []) (select_direct env job xml expected device)"
proof -
  have basic: "yields (\<lambda>a ev. puts ev = [] \<and> faulty a) (own_radios env ids)" for ids
    by (intro yields_plain untouched_intros plain_intros)
  have guarded: "yields (\<lambda>a ev. puts ev = [] \<and> faulty a \<and> (\<forall>r. a = Inr r \<longrightarrow> (\<exists>w. fst (en_guard env device w) = Inr r))) (guard env device)"
    by (rule yieldsI) (auto simp: guard_def note_event_def extends_def added_def is_put_def faulty_def lift_def split: prod.splits sum.splits, metis fst_conv)
  have intent: "untouched (select_intent env job r ref)" for r ref unfolding select_intent_def by (intro untouched_intros)
  note parts = yields_before [OF yields_select_preflight] yields_before [OF yields_quiet [OF untouched_basic(6)]]
    yields_before [OF yields_quiet [OF intent]] yields_before [OF yields_quiet [OF untouched_recheck]]
    yields_after [OF yields_select_write] yields_after [OF yields_quiet [OF untouched_finish]]
  have shown: "selection_shown env device xml res (w1 @ w2 @ pre @ w3 @ w4 @ w5 @ ev @ w6)"
    if "preflighted env xml r (desired, raw, before, kept) pre" "played env xml r desired kept (playing, res) ev"
      "puts pre = []" "puts w1 = []" "puts w2 = []" "puts w3 = []" "puts w4 = []" "puts w5 = []" "puts w6 = []" "puts ev = [Put (ra_id r) ''/select'' xml]"
      "fst (en_guard env device w) = Inr r"
    for r desired raw before kept pre playing res ev w1 w2 w3 w4 w5 w6 w
    using shownI [OF that(1,2,3), of "w1 @ w2" "w3 @ w4 @ w5" w6 device w] that by simp
  show ?thesis unfolding select_direct_def Let_def
    by (intro yields_bind [OF basic] yields_bind [OF guarded] yields_bind [OF parts(1)] yields_split yields_bind [OF parts(2)] yields_bind [OF parts(3)]
       yields_bind [OF parts(4)] yields_bind [OF parts(5)] yields_bind [OF parts(6)] yields_return)
      (auto simp: told_def intro: shown split: exc.splits)
qed

lemma safe_select_direct: "keeps safe (select_direct env job xml expected device)"
proof -
  let ?A = "\<lambda>(r::radio) s. safe s \<and> armed s = Some (take 128 (ra_id r))"
  have caught: "triple P (catching m (selection_failure env job r ref code b)) Q (\<lambda>_. safe)" if "triple P m Q (\<lambda>_. safe)"
    for P r ref code b and m :: "('a, 'c) iact" and Q
    by (rule triple_catching [OF that]) (simp add: triple_def selection_failure_def safe_attempt)
  have calm_snapshot: "calm (radio_snapshot env r desired)" for r desired
    unfolding radio_snapshot_def unchanged_target_def by (intro calm_intros)
  have reread: "triple safe (radio_snapshot env r desired) (\<lambda>_. safe) (\<lambda>_. safe)" for r desired
    by (intro triple_keeps keeps_calm calm_snapshot)
  have pre: "triple safe (select_preflight env xml expected r) (\<lambda>_. safe) (\<lambda>_. safe)" for r
    unfolding select_preflight_def by (intro triple_keeps keeps_calm calm_intros calm_snapshot) (rule calm_same, simp)
  have add: "triple safe (add_row env row) (\<lambda>_. safe) (\<lambda>_. safe)" for row
    by (intro triple_keeps keeps_calm calm_intros)
  have intent: "triple safe (select_intent env job r ref) (\<lambda>_. ?A r) (\<lambda>_. safe)" for r ref
    unfolding select_intent_def by (rule triple_record_intent) (simp_all add: selection_row_def INTENTS_def)
  have recheck: "triple (?A r) (select_recheck env r desired before n content) (\<lambda>_. ?A r) (\<lambda>_. safe)" for r desired before n content
  proof (rule triple_calm)
    have "calm (\<lambda>s. case en_stored env n (io_world s) of None \<Rightarrow> (Inl (Fault OtherError), s)
       | Some (d, c) \<Rightarrow> if d \<noteq> ra_id r \<or> en_sha env c \<noteq> en_sha env content then (Inl (Fault OtherError), s) else (Inr (), s))"
      by (rule calm_same) (simp split: option.split)
    then show "calm (select_recheck env r desired before n content)"
      unfolding select_recheck_def unchanged_target_def by (intro calm_intros calm_snapshot)
  qed
  have sent: "triple (?A r) (select_write env xml r desired kept) (\<lambda>_. safe) (\<lambda>_. safe)" for r desired kept
    unfolding select_write_def
  proof (rule triple_bind)
    show "triple (?A r) (catching (abind (post_xml env r ''/select'' xml) (\<lambda>_. areturn False)) (\<lambda>e. if is_exception e then areturn True else araise e))
        (\<lambda>_. safe) (\<lambda>_. safe)"
      by (rule triple_catching [OF triple_bind [OF triple_post]]) (auto intro!: triple_return triple_raise)
  qed (auto intro!: triple_bind [OF reread] triple_split triple_return triple_raise)
  have finish: "triple safe (select_finish env job r ref playing verified) (\<lambda>_. safe) (\<lambda>_. safe)" for r ref playing verified
    unfolding select_finish_def
    by (intro triple_keeps keeps_bind keeps_commit keeps_calm [OF calm_record] keeps_calm [OF calm_same])
       (auto simp: cache_selection_def split: option.split pyval.split)
  show ?thesis unfolding select_direct_def Let_def
    by (rule keeps_triple, intro triple_bind [OF triple_keeps [OF keeps_calm [OF calm_basic(7)]]] triple_bind [OF triple_keeps [OF keeps_calm [OF calm_basic(5)]]]
        triple_bind [OF caught [OF pre]] triple_bind [OF caught [OF add]] triple_bind [OF caught [OF intent]] triple_bind [OF caught [OF recheck]]
        triple_bind [OF caught [OF sent]] triple_bind [OF caught [OF finish]] triple_split triple_return)
qed

section \<open>Property\<close>

text \<open>
  C15. A station is selected by one write that disturbs nothing else. Whatever the radio, the database
  and the cancellation of the task do, a success means: a single \<open>/select\<close>, to the row that passed the
  guard; before it the radio stood
  alone and offered the source; after it the radio answered with the requested content, playing for a
  verified result and buffering for a pending one, with the same zone, volume and mute as before. A
  \<open>SelectionError\<close> asks for reconciliation exactly if the write was attempted, and any other exception
  but a cancellation means that nothing was written.
\<close>

theorem selection_verified:
  assumes "select_direct env job xml expected device s = (a, t)"
  shows "\<exists>ev. io_log t = io_log s @ ev \<and> (case a of
     Inr res \<Rightarrow> \<exists>r desired before kept raw raw' pre post. (\<exists>w. fst (en_guard env device w) = Inr r) \<and>
       ev = pre @ Put (ra_id r) ''/select'' xml # post \<and> puts pre = [] \<and> puts post = [] \<and> (\<exists>w. requested env w xml = Inr desired) \<and>
       answered r raw pre \<and> observed_state env r desired raw = Inr (before, kept) \<and>
       answered r raw' post \<and> observed_state env r desired raw' = Inr (sr_readback res, kept) \<and>
       same_content (sr_readback res) desired \<and> sr_verified res = (se_status (sr_readback res) = ''PLAY_STATE'') \<and>
       sr_pending res = (se_status (sr_readback res) \<in> {''BUFFERING'', ''BUFFERING_STATE''}) \<and> (sr_verified res \<or> sr_pending res)
   | Inl (Raised c b) \<Rightarrow> b \<longleftrightarrow> puts ev \<noteq> []
   | Inl (Fault f) \<Rightarrow> f = CancelledError \<or> puts ev = [])"
proof -
  obtain ev where ev: "io_log t = io_log s @ ev" using yieldsD [OF select_direct_end assms] by (auto simp: extends_iff)
  show ?thesis using yieldsD [OF select_direct_end assms] unfolding added_append [OF ev] selection_shown_def
    by (intro exI [of _ ev] conjI ev) (rule conjunct2)
qed

text \<open>A radio in standby that plays the station once it has been selected.\<close>

definition example_playing :: "string \<Rightarrow> xml option" where
  "example_playing t = (
     if t = ''item'' then Some (Elem ''ContentItem'' [(''source'', ''LOCAL_INTERNET_RADIO''), (''type'', ''stationurl''), (''location'', ''http://Radio.example/x'')] [] [])
     else if t = ''/sources'' then Some (Elem ''sources'' [] [] [Elem ''sourceItem'' [(''source'', ''LOCAL_INTERNET_RADIO''), (''status'', ''READY'')] [] []])
     else if t = ''/getZone'' then Some (Elem ''zone'' [] [] [])
     else if t = ''/volume'' then Some (Elem ''volume'' [] [] [Elem ''actualvolume'' [] ''20'' [], Elem ''muteenabled'' [] ''false'' []])
     else if t = ''/now_playing'' then Some (Elem ''nowPlaying'' [(''source'', ''STANDBY'')] [] [Elem ''ContentItem'' [(''source'', ''STANDBY'')] [] []])
     else if t = ''playing'' then Some (Elem ''nowPlaying'' [(''source'', ''LOCAL_INTERNET_RADIO'')] [] [
       Elem ''ContentItem'' [(''source'', ''LOCAL_INTERNET_RADIO''), (''location'', ''http://Radio.example/x'')] [] [], Elem ''playStatus'' [] ''PLAY_STATE'' []])
     else None)"

definition example_select_env :: "nat env" where
  "example_select_env = example_env (\<lambda>_ path w. if w \<noteq> 0 \<and> path = ''/now_playing'' then ''playing'' else path) example_playing"

definition example_station :: selection where
  "example_station = \<lparr>se_source = ''LOCAL_INTERNET_RADIO'', se_account = [], se_location = ''http://Radio.example/x'', se_status = []\<rparr>"

definition example_raw :: "nat \<Rightarrow> (string \<times> string) list" where
  "example_raw w = [(''/info'', ''info A1''), (''/sources'', ''/sources''), (''/getZone'', ''/getZone''),
     (''/now_playing'', if w = 0 then ''/now_playing'' else ''playing''), (''/volume'', ''/volume'')]"

lemma example_target: "unchanged_target (example_env f g) r s = (Inr r, s\<lparr>io_log := io_log s @ [Guarded (ra_id r)]\<rparr>)"
  by (simp add: unchanged_target_def abind_def refresh_row_def guard_def lift_def note_event_def)

lemma example_snapshot:
  assumes "observed_state example_select_env (example_radio ''A1'' ''8.8.8.8'') example_station (example_raw (io_world s)) = Inr st"
  shows "\<exists>t. radio_snapshot example_select_env (example_radio ''A1'' ''8.8.8.8'') example_station s = (Inr (example_raw (io_world s), st), t) \<and> io_world t = io_world s"
proof -
  have r: "example_radio ''A1'' ''8.8.8.8'' \<in> set example_radios" by (simp add: example_radios_def)
  have "selection_root example_select_env ''info A1'' ''info'' ''A1'' = Inr (example_info ''A1'')"
    by (simp add: selection_root_def parse_def example_select_env_def example_parse_def example_info_def attr_def strip_def is_space_def)
  then show ?thesis
    using assms unfolding radio_snapshot_def
    by (cases "io_world s = 0") (auto simp: example_select_env_def abind_def example_target get_xml_def lift_def note_event_def lift_result_def areturn_def
        example_identity(1) [OF r, simplified] example_raw_def)
qed

lemma example_state:
  "observed_state example_select_env (example_radio ''A1'' ''8.8.8.8'') example_station (example_raw w) = Inr (if w = 0 then \<lparr>se_source = ''STANDBY'', se_account = [],
     se_location = [], se_status = ''STOP_STATE''\<rparr> else example_station\<lparr>se_status := ''PLAY_STATE''\<rparr>, \<lparr>zo_master = [], zo_members = []\<rparr>, 20, False)"
  by (simp add: observed_state_def source_ready_def selection_root_def parse_def example_select_env_def example_parse_def example_playing_def example_raw_def
      example_station_def attr_def attr_or_def zone_parse_def zone_of_xml_def findall_def standalone_def selection_read_def selection_of_xml_def selection_content_def
      no_selection_def volume_read_def Let_def is_digit_def nat_of_digits_def digit_value_def strip_def upper_def)

lemma example_requested: "requested example_select_env 0 ''item'' = Inr example_station"
proof -
  have "url_safe example_select_env 0 ''http://Radio.example/x''" by code_simp
  then show ?thesis
    by (simp add: requested_def selection_root_def parse_def example_select_env_def example_parse_def example_playing_def selection_content_def attr_or_def attr_def
        example_station_def findall_def Let_def)
qed

lemma example_selected:
  obtains res t where "select_direct example_select_env ''job'' ''item'' None (example_radio ''A1'' ''8.8.8.8'') example_start = (Inr res, t)"
proof -
  let ?r = "example_radio ''A1'' ''8.8.8.8''" and ?e = example_select_env
  obtain s1 where s1: "own_radios ?e [ra_id ?r] example_start = (Inr (), s1)" "io_world s1 = 0"
    by (simp add: own_radios_def example_select_env_def lift_def note_event_def example_start_def)
  obtain s2 where s2: "guard ?e ?r s1 = (Inr ?r, s2)" "io_world s2 = 0"
    using s1(2) by (simp add: guard_def example_select_env_def lift_def note_event_def)
  obtain s3 where s3: "radio_snapshot ?e ?r example_station s2 = (Inr (example_raw 0, \<lparr>se_source = ''STANDBY'', se_account = [], se_location = [], se_status = ''STOP_STATE''\<rparr>,
      \<lparr>zo_master = [], zo_members = []\<rparr>, 20, False), s3)" "io_world s3 = 0"
    using example_snapshot [OF example_state, of s2] s2(2) by auto
  note unfolds = example_select_env_def abind_def catching_def add_row_def record_action_def commit_def areturn_def note_event_def lift_def post_xml_def
    is_exception_def example_target
  have pre: "select_preflight ?e ''item'' None ?r s2 = (Inr (example_station, example_raw 0, \<lparr>se_source = ''STANDBY'', se_account = [], se_location = [],
      se_status = ''STOP_STATE''\<rparr>, \<lparr>zo_master = [], zo_members = []\<rparr>, 20, False), s3)"
    using s2(2) s3(1) example_requested by (simp add: select_preflight_def abind_def areturn_def)
  have row: "\<exists>t. add_row ?e x s = (Inr 7, t) \<and> io_world t = io_world s" for x s by (simp add: unfolds)
  have intent: "\<exists>t. select_intent ?e job ?r ref s = (Inr (), t) \<and> io_world t = io_world s" for job ref s
    by (simp add: select_intent_def unfolds)
  have again: "\<exists>t. select_recheck ?e ?r example_station (\<lparr>se_source = ''STANDBY'', se_account = [], se_location = [],
      se_status = ''STOP_STATE''\<rparr>, \<lparr>zo_master = [], zo_members = []\<rparr>, 20, False) n content s = (Inr (), t) \<and> io_world t = 0" if w: "io_world s = 0" for n content s
    using example_snapshot [OF example_state, of s] w by (auto simp: select_recheck_def unfolds)
  have sent: "\<exists>p res t. select_write ?e ''item'' ?r example_station (\<lparr>zo_master = [], zo_members = []\<rparr>, 20, False) s = (Inr (p, res), t)" if w: "io_world s = 0" for s
  proof -
    obtain u where u: "post_xml ?e ?r ''/select'' ''item'' s = (Inr ''ok'', u)" "io_world u = 1" using w by (simp add: unfolds)
    then show ?thesis using example_snapshot [OF example_state, of u]
      by (auto simp: select_write_def abind_def catching_def areturn_def same_content_def example_station_def)
  qed
  have fin: "\<exists>t. select_finish ?e job ?r ref p b s = (Inr (), t)" for job ref p b s
    by (simp add: select_finish_def cache_selection_def unfolds)
  obtain s4 where s4: "add_row ?e (\<lambda>n. BackupRow n (ra_id ?r) ''http8090:direct-select-start'' (selection_backup ?e ?r (example_raw 0))) s3 = (Inr 7, s4)" "io_world s4 = 0"
    using row [of "\<lambda>n. BackupRow n (ra_id ?r) ''http8090:direct-select-start'' (selection_backup ?e ?r (example_raw 0))" s3] s3(2) by auto
  let ?ref = "selection_ref ?e 7 (selection_backup ?e ?r (example_raw 0))"
  obtain s5 where s5: "select_intent ?e ''job'' ?r ?ref s4 = (Inr (), s5)" "io_world s5 = 0" using intent [of "''job''" ?ref s4] s4(2) by auto
  obtain s6 where s6: "select_recheck ?e ?r example_station (\<lparr>se_source = ''STANDBY'', se_account = [], se_location = [],
      se_status = ''STOP_STATE''\<rparr>, \<lparr>zo_master = [], zo_members = []\<rparr>, 20, False) 7 (selection_backup ?e ?r (example_raw 0)) s5 = (Inr (), s6)" "io_world s6 = 0"
    using again [OF s5(2)] by blast
  obtain p res s7 where s7: "select_write ?e ''item'' ?r example_station (\<lparr>zo_master = [], zo_members = []\<rparr>, 20, False) s6 = (Inr (p, res), s7)"
    using sent [OF s6(2)] by blast
  obtain s8 where s8: "select_finish ?e ''job'' ?r ?ref p (sr_verified res) s7 = (Inr (), s8)" using fin by blast
  show thesis
    by (rule that [of res s8]) (simp add: select_direct_def abind_def catching_def Let_def areturn_def s1(1) [simplified] s2(1) pre s4(1) [simplified] s5(1) s6(1) s7 s8)
qed

theorem selection_verified_witness:
  "\<exists>pre post. io_log (snd (select_direct example_select_env ''job'' ''item'' None (example_radio ''A1'' ''8.8.8.8'') example_start)) =
     pre @ Put ''A1'' ''/select'' ''item'' # post \<and> puts pre = [] \<and> puts post = []"
proof -
  obtain res t where run: "select_direct example_select_env ''job'' ''item'' None (example_radio ''A1'' ''8.8.8.8'') example_start = (Inr res, t)"
    using example_selected .
  have g: "fst (en_guard example_select_env (example_radio ''A1'' ''8.8.8.8'') w) = Inr (example_radio ''A1'' ''8.8.8.8'')" for w
    by (simp add: example_select_env_def)
  show ?thesis using selection_verified [OF run] unfolding g run by (auto simp: example_start_def)
qed

end
