(* ===== verification/SettingsContract.thy ===== *)
theory SettingsContract
  imports RadioIdentity
begin

text \<open>
  The settings of a radio (app/services/settings_contract.py): from a requested value to the document
  that is sent, and from the answer of a radio back to a value. \<open>show\<close> is Python's \<open>str\<close> of a float, a
  list or a dict, \<open>print\<close> the serializer of an element; \<open>int\<close> refuses more than 4300 digits.
\<close>

section \<open>Values\<close>

datatype setting_value = SStr string | SInt int | SBool bool | SDict "(string \<times> string) list"

record setting_plan =
  pl_setting :: string
  pl_path :: string
  pl_read_path :: string
  pl_xml :: string
  pl_expected :: setting_value

definition text_of_int :: "int \<Rightarrow> string" where
  "text_of_int i = (if i < 0 then CHR ''-'' # digits_of_nat (nat (- i)) else digits_of_nat (nat i))"

fun py_str :: "(pyval \<Rightarrow> string) \<Rightarrow> pyval \<Rightarrow> string" where
  "py_str show VNone = ''None''"
| "py_str show (VBool b) = (if b then ''True'' else ''False'')"
| "py_str show (VInt i) = text_of_int i"
| "py_str show (VStr s) = s"
| "py_str show v = show v"

definition dict_get :: "(string \<times> string) list \<Rightarrow> string \<Rightarrow> string option" where
  "dict_get d k = map_of d k"

definition matches_value :: "setting_plan \<Rightarrow> setting_value \<Rightarrow> bool" where
  "matches_value p actual = (case pl_expected p of
     SDict want \<Rightarrow> (case actual of SDict have' \<Rightarrow> list_all (\<lambda>(k, v). dict_get have' k = Some v) want | _ \<Rightarrow> False)
   | v \<Rightarrow> actual = v)"

fun py_of :: "setting_value \<Rightarrow> pyval" where
  "py_of (SStr s) = VStr s"
| "py_of (SInt i) = VInt i"
| "py_of (SBool b) = VBool b"
| "py_of (SDict d) = VDict (map (\<lambda>(k, v). (k, VStr v)) d)"

definition matches_previous :: "setting_plan \<Rightarrow> setting_value \<Rightarrow> pyval \<Rightarrow> bool" where
  "matches_previous p actual previous = (if pl_setting p = ''clockConfig''
     then (case (pl_expected p, actual, previous) of
         (SDict want, SDict have', VDict old) \<Rightarrow> old \<noteq> [] \<and> list_all (\<lambda>(k, _). k \<in> fst ` set old) want \<and>
           list_all (\<lambda>(k, v). case v of VStr t \<Rightarrow> dict_get have' k = Some t | _ \<Rightarrow> False) old
       | _ \<Rightarrow> False)
     else py_of actual = previous)"

section \<open>Requests\<close>

definition value_error :: exc where
  "value_error = Fault OtherError"

definition device_name :: "(pyval \<Rightarrow> string) \<Rightarrow> pyval \<Rightarrow> exc + string" where
  "device_name show v = (let name = strip (if truth v then py_str show v else []) in
     if name = [] \<or> 63 < length name \<or> list_ex (\<lambda>c. c \<in> set ''<>\"&'') name \<or> list_ex (\<lambda>c. (of_char c :: nat) < 32) name
     then Inl value_error else Inr name)"

definition is_integer_text :: "string \<Rightarrow> bool" where
  "is_integer_text t = (let d = (case t of c # cs \<Rightarrow> if c = CHR ''-'' then cs else t | [] \<Rightarrow> []) in d \<noteq> [] \<and> list_all is_digit d \<and> length d \<le> 4300)"

definition integer_of_text :: "string \<Rightarrow> int" where
  "integer_of_text t = (case t of c # cs \<Rightarrow> if c = CHR ''-'' then - int (nat_of_digits cs) else int (nat_of_digits t) | [] \<Rightarrow> 0)"

definition parse_integer :: "string \<Rightarrow> exc + int" where
  "parse_integer t = (if is_integer_text t then Inr (integer_of_text t) else Inl value_error)"

definition setting_integer :: "(pyval \<Rightarrow> string) \<Rightarrow> pyval \<Rightarrow> exc + int" where
  "setting_integer show v = (case v of VBool _ \<Rightarrow> Inl value_error | _ \<Rightarrow> parse_integer (py_str show v))"

definition parse_boolean :: "string \<Rightarrow> exc + bool" where
  "parse_boolean t = (let s = lower t in
     if s \<in> set [''true'', ''on'', ''1'', ''yes''] then Inr True
     else if s \<in> set [''false'', ''off'', ''0'', ''no''] then Inr False else Inl value_error)"

definition bool_text :: "bool \<Rightarrow> string" where
  "bool_text b = (if b then ''true'' else ''false'')"

definition LANGUAGE_IDS :: "(string \<times> int) list" where
  "LANGUAGE_IDS = [(''da'', 1), (''de'', 2), (''en'', 3), (''es'', 4), (''fr'', 5), (''it'', 6), (''nl'', 7), (''sv'', 8), (''ja'', 9),
     (''zh_hans'', 10), (''zh_hant'', 11), (''ko'', 12), (''th'', 13), (''cs'', 15), (''fi'', 16), (''el'', 17), (''no'', 18), (''nb'', 18),
     (''pl'', 19), (''pt'', 20), (''ro'', 21), (''ru'', 22), (''sl'', 23), (''tr'', 24), (''hu'', 25)]"

definition LANGUAGE_CODES_BY_ID :: "(int \<times> string) list" where
  "LANGUAGE_CODES_BY_ID = map (\<lambda>(k, v). (v, k)) (filter (\<lambda>(k, v). k \<noteq> ''nb'') LANGUAGE_IDS)"

definition TIME_ZONES :: "string list" where
  "TIME_ZONES = [''UTC'', ''Europe/Berlin'', ''Europe/Vienna'', ''Europe/Zurich'', ''Europe/London'', ''Europe/Paris'', ''Europe/Rome'',
     ''Europe/Madrid'', ''America/New_York'', ''America/Chicago'', ''America/Denver'', ''America/Los_Angeles'', ''Asia/Tokyo'', ''Australia/Sydney'']"

definition clock_field :: "(pyval \<Rightarrow> string) \<Rightarrow> string \<times> pyval \<Rightarrow> exc + (string \<times> string)" where
  "clock_field show kv = (case kv of (k, v) \<Rightarrow>
     if k = ''timezoneInfo'' then (if py_str show v \<in> set TIME_ZONES then Inr (k, py_str show v) else Inl value_error)
     else if k = ''timeFormat'' then (if py_str show v \<in> set [''TIME_FORMAT_24HOUR_ID'', ''TIME_FORMAT_12HOUR_ID''] then Inr (k, py_str show v) else Inl value_error)
     else if k = ''userEnable'' then rbind (parse_boolean (py_str show v)) (\<lambda>b. Inr (k, bool_text b))
     else rbind (setting_integer show v) (\<lambda>i. Inr (k, text_of_int i)))"

definition CLOCK_FIELDS :: "string list" where
  "CLOCK_FIELDS = [''timezoneInfo'', ''timeFormat'', ''userOffsetMinute'', ''brightnessLevel'', ''userUtcTime'', ''userEnable'']"

definition integer_range :: "string \<Rightarrow> int \<times> int" where
  "integer_range s = (if s = ''volume'' then (0, 100) else if s = ''bass'' then (-9, 0) else (0, 1440))"

definition element :: "string \<Rightarrow> string \<Rightarrow> string" where
  "element tag body = ''<'' @ tag @ ''>'' @ body @ ''</'' @ tag @ ''>''"

definition plan_of :: "string \<Rightarrow> string \<Rightarrow> string \<Rightarrow> setting_value \<Rightarrow> setting_plan" where
  "plan_of s path x e = \<lparr>pl_setting = s, pl_path = path, pl_read_path = path, pl_xml = x, pl_expected = e\<rparr>"

definition plan_name :: "(pyval \<Rightarrow> string) \<Rightarrow> pyval \<Rightarrow> exc + setting_plan" where
  "plan_name show v = rbind (device_name show v) (\<lambda>n. Inr ((plan_of ''name'' ''/name'' (element ''name'' n) (SStr n))\<lparr>pl_read_path := ''/info''\<rparr>))"

definition plan_integer :: "(pyval \<Rightarrow> string) \<Rightarrow> string \<Rightarrow> pyval \<Rightarrow> exc + setting_plan" where
  "plan_integer show s v = rbind (setting_integer show v) (\<lambda>i.
     let tag = (if s = ''auto_standby_minutes'' then ''systemtimeout'' else s) in
     if fst (integer_range s) \<le> i \<and> i \<le> snd (integer_range s) then Inr (plan_of s (''/'' @ tag) (element tag (text_of_int i)) (SInt i)) else Inl value_error)"

definition plan_boolean :: "(pyval \<Rightarrow> string) \<Rightarrow> string \<Rightarrow> pyval \<Rightarrow> exc + setting_plan" where
  "plan_boolean show s v = rbind (parse_boolean (py_str show v)) (\<lambda>b.
     Inr (if s = ''clockDisplay''
       then plan_of s ''/clockDisplay'' (''<clockDisplay><clockConfig userEnable=\"'' @ bool_text b @ ''\" /></clockDisplay>'') (SBool b)
       else plan_of s ''/systemtimeout'' (element ''systemtimeout'' (element ''powersaving_enabled'' (bool_text b))) (SBool b)))"

definition plan_clock :: "(pyval \<Rightarrow> string) \<Rightarrow> (xml \<Rightarrow> string) \<Rightarrow> pyval \<Rightarrow> exc + setting_plan" where
  "plan_clock show print v = (case v of
     VDict d \<Rightarrow> if d = [] \<or> list_ex (\<lambda>(k, _). k \<notin> set CLOCK_FIELDS) d then Inl value_error
       else rbind (rmap (clock_field show) d) (\<lambda>cfg.
         Inr (plan_of ''clockConfig'' ''/clockDisplay'' (print (Elem ''clockDisplay'' [] [] [Elem ''clockConfig'' cfg [] []])) (SDict cfg)))
   | _ \<Rightarrow> Inl value_error)"

definition plan_language :: "(pyval \<Rightarrow> string) \<Rightarrow> pyval \<Rightarrow> exc + setting_plan" where
  "plan_language show v = (case map_of LANGUAGE_IDS (py_str show v) of
     None \<Rightarrow> Inl value_error
   | Some n \<Rightarrow> (case map_of LANGUAGE_CODES_BY_ID n of
       None \<Rightarrow> Inl value_error
     | Some code \<Rightarrow> Inr (plan_of ''language'' ''/language'' (element ''sysLanguage'' (text_of_int n)) (SStr code))))"

definition plan_latency :: "pyval \<Rightarrow> exc + setting_plan" where
  "plan_latency v = (case v of
     VStr m \<Rightarrow> if m \<in> set [''SYNC_TO_ZONE'', ''SYNC_TO_ROOM'']
       then Inr (plan_of ''rebroadcastlatencymode'' ''/rebroadcastlatencymode'' (''<rebroadcastlatencymode mode=\"'' @ m @ ''\" />'') (SStr m))
       else Inl value_error
   | _ \<Rightarrow> Inl value_error)"

definition plan_setting :: "(pyval \<Rightarrow> string) \<Rightarrow> (xml \<Rightarrow> string) \<Rightarrow> string \<Rightarrow> pyval \<Rightarrow> exc + setting_plan" where
  "plan_setting show print s v =
     (if s = ''name'' then plan_name show v
      else if s \<in> set [''volume'', ''bass'', ''systemtimeout'', ''auto_standby_minutes''] then plan_integer show s v
      else if s = ''clockDisplay'' \<or> s = ''powersaving'' then plan_boolean show s v
      else if s = ''clockConfig'' then plan_clock show print v
      else if s = ''language'' then plan_language show v
      else if s = ''rebroadcastlatencymode'' then plan_latency v
      else Inl value_error)"

section \<open>Answers\<close>

definition text_integer :: "string option \<Rightarrow> exc + int" where
  "text_integer t = (case t of None \<Rightarrow> Inl value_error | Some x \<Rightarrow> parse_integer x)"

definition text_boolean :: "string option \<Rightarrow> exc + bool" where
  "text_boolean t = (case t of None \<Rightarrow> Inl value_error | Some x \<Rightarrow> parse_boolean x)"

definition answer_tag :: "string \<Rightarrow> string" where
  "answer_tag s = (if s = ''name'' then ''info'' else if s = ''language'' then ''sysLanguage'' else if s = ''clockConfig'' then ''clockDisplay''
     else if s = ''powersaving'' \<or> s = ''auto_standby_minutes'' then ''systemtimeout'' else s)"

definition setting_of_xml :: "string \<Rightarrow> xml \<Rightarrow> exc + setting_value" where
  "setting_of_xml s x =
     (if xm_tag x \<noteq> answer_tag s then Inl value_error
      else if s = ''volume'' \<or> s = ''bass'' then rbind (text_integer (findtext x (''actual'' @ s))) (\<lambda>i. Inr (SInt i))
      else if s = ''name'' then (case findtext x ''name'' of None \<Rightarrow> Inl value_error | Some t \<Rightarrow> Inr (SStr t))
      else if s = ''clockDisplay'' \<or> s = ''clockConfig'' then (case findall x ''clockConfig'' of
          [] \<Rightarrow> Inl value_error
        | c # _ \<Rightarrow> if s = ''clockDisplay'' then rbind (text_boolean (attr c ''userEnable'')) (\<lambda>b. Inr (SBool b)) else Inr (SDict (xm_attrs c)))
      else if s = ''language'' then rbind (parse_integer (strip (xm_text x))) (\<lambda>n. Inr (SStr (case map_of LANGUAGE_CODES_BY_ID n of
          Some c \<Rightarrow> c | None \<Rightarrow> ''id:'' @ text_of_int n)))
      else if s = ''powersaving'' then rbind (text_boolean (findtext x ''powersaving_enabled'')) (\<lambda>b. Inr (SBool b))
      else if s = ''rebroadcastlatencymode'' then (case attr x ''mode'' of
          None \<Rightarrow> Inl value_error
        | Some m \<Rightarrow> if m \<in> set [''SYNC_TO_ZONE'', ''SYNC_TO_ROOM''] then Inr (SStr m) else Inl value_error)
      else if s = ''systemtimeout'' \<or> s = ''auto_standby_minutes'' then rbind (parse_integer (strip (xm_text x))) (\<lambda>i. Inr (SInt i))
      else Inl value_error)"

definition read_setting :: "'w env \<Rightarrow> string \<Rightarrow> string \<Rightarrow> exc + setting_value" where
  "read_setting env s t = rbind (parse env t) (setting_of_xml s)"

section \<open>What is asked for is what is read\<close>

lemma digits_integer: "n < 10 ^ k \<Longrightarrow> 0 < k \<Longrightarrow> k \<le> 4300 \<Longrightarrow> parse_integer (digits_of_nat n) = Inr (int n)"
proof -
  assume "n < 10 ^ k" "0 < k" "k \<le> 4300"
  then have l: "length (digits_of_nat n) \<le> 4300" using length_digits_of_nat [of n k] le_trans by blast
  obtain c cs where d: "digits_of_nat n = c # cs" using digits_of_nat_not_Nil by (metis list.exhaust)
  then have "is_digit c" using digits_of_nat_digits [of n] by simp
  then have "c \<noteq> CHR ''-''" by (auto simp: is_digit_def)
  then show ?thesis using d l digits_of_nat_digits [of n] nat_of_digits_of_nat [of n]
    by (simp add: parse_integer_def is_integer_text_def integer_of_text_def)
qed

lemma text_of_int_back:
  assumes "0 \<le> i" "i < 10 ^ 4"
  shows "parse_integer (text_of_int i) = Inr i" "strip (text_of_int i) = text_of_int i"
proof -
  have "nat i < 10 ^ 4" using assms by simp
  then show "parse_integer (text_of_int i) = Inr i" using digits_integer [of "nat i" 4] assms(1) by (simp add: text_of_int_def)
  have "\<not> is_space c" if "c \<in> set (digits_of_nat (nat i))" for c
  proof -
    have "is_digit c" using that digits_of_nat_digits [of "nat i"] by (simp add: list_all_iff)
    then show ?thesis by (auto simp: is_digit_def is_space_def Let_def)
  qed
  then have "dropWhile is_space ds = ds" if "set ds \<subseteq> set (digits_of_nat (nat i))" for ds
    using that by (cases ds) auto
  then show "strip (text_of_int i) = text_of_int i" using assms(1) by (simp add: strip_def text_of_int_def)
qed

lemma bool_text_back: "parse_boolean (bool_text b) = Inr b"
  by (cases b) (simp_all add: parse_boolean_def bool_text_def lower_def lower_char_def Let_def)

lemma language_back:
  assumes "map_of LANGUAGE_IDS c = Some n" "map_of LANGUAGE_CODES_BY_ID n = Some code"
  shows "0 \<le> n" "n < 10 ^ 4" "map_of LANGUAGE_IDS code = Some n"
proof -
  have "list_all (\<lambda>(c, n). 0 \<le> n \<and> n < 10 ^ 4 \<and> (case map_of LANGUAGE_CODES_BY_ID n of None \<Rightarrow> False | Some code \<Rightarrow> map_of LANGUAGE_IDS code = Some n)) LANGUAGE_IDS"
    by code_simp
  then have "0 \<le> n \<and> n < 10 ^ 4 \<and> map_of LANGUAGE_IDS code = Some n"
    using map_of_SomeD [OF assms(1)] assms(2) by (fastforce simp: list_all_iff)
  then show "0 \<le> n" "n < 10 ^ 4" "map_of LANGUAGE_IDS code = Some n" by simp_all
qed

text \<open>The settings a radio reports in the form in which they are set, and the element that form denotes.\<close>

definition ECHOED :: "string list" where
  "ECHOED = [''systemtimeout'', ''auto_standby_minutes'', ''clockDisplay'', ''powersaving'', ''clockConfig'', ''language'', ''rebroadcastlatencymode'']"

definition document :: "setting_plan \<Rightarrow> xml" where
  "document p = (case pl_expected p of
     SInt i \<Rightarrow> Elem ''systemtimeout'' [] (text_of_int i) []
   | SBool b \<Rightarrow> if pl_setting p = ''clockDisplay'' then Elem ''clockDisplay'' [] [] [Elem ''clockConfig'' [(''userEnable'', bool_text b)] [] []]
       else Elem ''systemtimeout'' [] [] [Elem ''powersaving_enabled'' [] (bool_text b) []]
   | SDict d \<Rightarrow> Elem ''clockDisplay'' [] [] [Elem ''clockConfig'' d [] []]
   | SStr t \<Rightarrow> if pl_setting p = ''language'' then Elem ''sysLanguage'' [] (text_of_int (the (map_of LANGUAGE_IDS t))) []
       else Elem ''rebroadcastlatencymode'' [(''mode'', t)] [] [])"

lemma clock_fields_keep_keys: "rmap (clock_field show) d = Inr cfg \<Longrightarrow> map fst cfg = map fst d"
proof (induction d arbitrary: cfg)
  case (Cons kv d)
  obtain k v where kv: "kv = (k, v)" by (cases kv)
  have "fst y = k" if "clock_field show (k, v) = Inr y" for y
    using that by (auto simp: clock_field_def rbind_Inr_iff split: if_splits)
  then show ?case using Cons kv by (auto simp: rbind_Inr_iff)
qed simp

lemma matches_own:
  assumes "\<And>d. pl_expected p = SDict d \<Longrightarrow> distinct (map fst d)"
  shows "matches_value p (pl_expected p)"
  using assms by (auto simp: matches_value_def list_all_iff dict_get_def split: setting_value.splits)

lemma plan_settingE [consumes 1, case_names name integer boolean clock language latency]:
  assumes "plan_setting show print s v = Inr p"
  obtains n where "s = ''name''" "device_name show v = Inr n" "p = (plan_of s ''/name'' (element ''name'' n) (SStr n))\<lparr>pl_read_path := ''/info''\<rparr>"
  | i tag where "s \<in> set [''volume'', ''bass'', ''systemtimeout'', ''auto_standby_minutes'']" "fst (integer_range s) \<le> i" "i \<le> snd (integer_range s)"
      "p = plan_of s (''/'' @ tag) (element tag (text_of_int i)) (SInt i)"
  | b path x where "s = ''clockDisplay'' \<or> s = ''powersaving''" "p = plan_of s path x (SBool b)"
  | d cfg x where "s = ''clockConfig''" "v = VDict d" "rmap (clock_field show) d = Inr cfg" "p = plan_of s ''/clockDisplay'' x (SDict cfg)"
  | n code x where "s = ''language''" "map_of LANGUAGE_IDS (py_str show v) = Some n" "map_of LANGUAGE_CODES_BY_ID n = Some code"
      "p = plan_of s ''/language'' x (SStr code)"
  | m x where "s = ''rebroadcastlatencymode''" "m \<in> set [''SYNC_TO_ZONE'', ''SYNC_TO_ROOM'']" "p = plan_of s ''/rebroadcastlatencymode'' x (SStr m)"
proof -
  consider "s = ''name''" | "s \<in> set [''volume'', ''bass'', ''systemtimeout'', ''auto_standby_minutes'']" | "s = ''clockDisplay'' \<or> s = ''powersaving''"
    | "s = ''clockConfig''" | "s = ''language''" | "s = ''rebroadcastlatencymode''"
    using assms unfolding plan_setting_def by (metis Inl_not_Inr)
  then show thesis
  proof cases
    case 1
    then show thesis using assms that(1) by (auto simp: plan_setting_def plan_name_def rbind_Inr_iff)
  next
    case 2
    then have "plan_integer show s v = Inr p" using assms by (auto simp: plan_setting_def)
    then show thesis using 2 that(2) by (auto simp: plan_integer_def rbind_Inr_iff Let_def split: if_splits)
  next
    case 3
    then have "plan_boolean show s v = Inr p" using assms by (auto simp: plan_setting_def)
    then show thesis using 3 that(3) by (auto simp: plan_boolean_def rbind_Inr_iff)
  next
    case 4
    then have "plan_clock show print v = Inr p" using assms by (simp add: plan_setting_def)
    then show thesis using 4 that(4) by (auto simp: plan_clock_def rbind_Inr_iff split: pyval.splits if_splits)
  next
    case 5
    then have "plan_language show v = Inr p" using assms by (simp add: plan_setting_def)
    then show thesis using 5 that(5) by (auto simp: plan_language_def split: option.splits)
  next
    case 6
    then have "plan_latency v = Inr p" using assms by (simp add: plan_setting_def)
    then show thesis using 6 that(6) by (auto simp: plan_latency_def split: pyval.splits if_splits)
  qed
qed

lemmas document_simps = document_def plan_of_def setting_of_xml_def answer_tag_def findall_def findtext_def attr_def text_boolean_def bool_text_back

lemma plan_reads_back:
  assumes "plan_setting show print s v = Inr p" "s \<in> set ECHOED"
  shows "setting_of_xml s (document p) = Inr (pl_expected p)"
  using assms(1)
proof (cases rule: plan_settingE)
  case name
  then show ?thesis using assms(2) by (simp add: ECHOED_def)
next
  case (integer i tag)
  then have "s = ''systemtimeout'' \<or> s = ''auto_standby_minutes''" using assms(2) by (auto simp: ECHOED_def)
  moreover have "0 \<le> i" "i < 10 ^ 4" using integer(2,3) calculation by (auto simp: integer_range_def)
  ultimately show ?thesis using integer(4) by (elim disjE) (simp_all add: document_simps text_of_int_back)
next
  case (boolean b path x)
  then show ?thesis by (elim disjE) (simp_all add: document_simps)
next
  case (clock d cfg x)
  then show ?thesis by (simp add: document_simps)
next
  case (language n code x)
  then show ?thesis using language_back [OF language(2,3)] by (simp add: document_simps text_of_int_back)
next
  case (latency m x)
  then show ?thesis by (auto simp: document_simps)
qed


definition example_language :: setting_plan where
  "example_language = plan_of ''language'' ''/language'' ''<sysLanguage>18</sysLanguage>'' (SStr ''no'')"

definition example_language_env :: "nat env" where
  "example_language_env = example_env (\<lambda>_ _ _. []) (\<lambda>t. if t = pl_xml example_language then Some (document example_language) else None)"


end
