(* ===== verification/SettingsWriter.thy ===== *)
theory SettingsWriter
  imports SettingsContract
begin

text \<open>
  Verified changes of settings (app/services/device_settings_writer.py): one radio with a list of
  planned settings, and one setting for a list of radios. The stored row is the one the caller passes;
  within a transaction only a verified rename changes it.
\<close>

section \<open>One planned setting\<close>

record change =
  ch_plan :: setting_plan
  ch_before :: setting_value
  ch_after :: setting_value
  ch_response :: string
  ch_uncertain :: bool

definition read_value :: "'w env \<Rightarrow> setting_plan \<Rightarrow> string \<Rightarrow> radio \<Rightarrow> exc + setting_value" where
  "read_value env p t r = rbind (parse env t) (\<lambda>x.
     if (case attr x ''deviceID'' of None \<Rightarrow> False | Some i \<Rightarrow> upper (strip i) \<noteq> upper (strip (ra_id r))) then Inl (Fault IdentityMismatch)
     else read_setting env (pl_setting p) t)"

text \<open>A clock reports times that advance: only the fields to be overwritten count.\<close>

definition precondition_matches :: "setting_plan \<Rightarrow> setting_value \<Rightarrow> setting_value \<Rightarrow> bool" where
  "precondition_matches p previous current =
     (case (pl_setting p = ''clockConfig'', current, previous, pl_expected p) of
        (True, SDict now, SDict old, SDict want) \<Rightarrow> list_all (\<lambda>(k, v). dict_get now k = dict_get old k \<or> dict_get now k = Some v) want
      | _ \<Rightarrow> current = previous)"

definition setting_row :: "string \<Rightarrow> radio \<Rightarrow> setting_plan \<Rightarrow> string \<Rightarrow> string \<Rightarrow> bool \<Rightarrow> action_row" where
  "setting_row job r p ref phase ok = \<lparr>aj_job = job, aj_device = ra_id r, aj_action = ''setting:'' @ pl_setting p, aj_phase = phase,
     aj_backup_ref = ref, aj_verified = ok\<rparr>"

text \<open>Identity and value as the radio reports them now.\<close>

definition fetch :: "'w env \<Rightarrow> radio \<Rightarrow> setting_plan \<Rightarrow> ('w, string \<times> setting_value) iact" where
  "fetch env r p =
     abind (get_xml env r ''/info'') (\<lambda>info.
     abind (verify_settings_identity env r info) (\<lambda>_.
     abind (if pl_read_path p = ''/info'' then areturn info else get_xml env r (pl_read_path p)) (\<lambda>t.
     abind (lift_result (read_value env p t r)) (\<lambda>v. areturn (info, v)))))"

definition arm_plan :: "'w env \<Rightarrow> string \<Rightarrow> radio \<Rightarrow> setting_plan \<Rightarrow> string \<Rightarrow> setting_value \<Rightarrow> bool \<Rightarrow> ('w, setting_value option) iact" where
  "arm_plan env job r p ref previous changed =
     abind (guard env r) (\<lambda>_.
     abind (fetch env r p) (\<lambda>(_, current).
       if \<not> precondition_matches p previous current then araise (Raised ''WRITE_PRECONDITION_FAILED'' changed)
       else if matches_value p current then areturn None
       else abind (abind (record_action env (setting_row job r p ref ''settings_intent'' False)) (\<lambda>_. commit env)) (\<lambda>_. areturn (Some current))))"

definition rename :: "setting_plan \<Rightarrow> setting_value \<Rightarrow> string \<Rightarrow> radio \<Rightarrow> radio" where
  "rename p v info r = (case (pl_setting p = ''name'', v) of (True, SStr n) \<Rightarrow> r\<lparr>ra_name := n, ra_info := info\<rparr> | _ \<Rightarrow> r)"

text \<open>\<open>device.name\<close> and \<open>device.info_xml\<close> are part of the commit that records the verified change.\<close>

definition stage_rename :: "setting_plan \<Rightarrow> setting_value \<Rightarrow> string \<Rightarrow> radio \<Rightarrow> ('w, unit) iact" where
  "stage_rename p v info r s = (Inr (), if pl_setting p = ''name''
     then s\<lparr>io_pending := io_pending s @ [DeviceRow (ra_id r) (ra_name (rename p v info r)) info]\<rparr> else s)"

definition confirm :: "'w env \<Rightarrow> string \<Rightarrow> radio \<Rightarrow> setting_plan \<Rightarrow> string \<Rightarrow> ('w, string \<times> setting_value) iact" where
  "confirm env job r p ref =
     abind (fetch env r p) (\<lambda>(info, observed).
       if \<not> matches_value p observed then araise (Raised ''WRITE_READBACK_MISMATCH'' True)
       else abind (record_action env (setting_row job r p ref ''settings_verified'' True)) (\<lambda>_.
         abind (stage_rename p observed info r) (\<lambda>_. abind (commit env) (\<lambda>_. areturn (info, observed)))))"

definition send :: "'w env \<Rightarrow> radio \<Rightarrow> setting_plan \<Rightarrow> ('w, string \<times> bool) iact" where
  "send env r p = catching (abind (post_xml env r (pl_path p) (pl_xml p)) (\<lambda>response. areturn (response, False)))
     (\<lambda>e. if e = Fault TransportError \<or> e = Fault StatusError then areturn ([], True) else araise e)"

text \<open>The handler around both halves: the error says whether this setting or an earlier one was written.\<close>

definition settle :: "'w env \<Rightarrow> string \<Rightarrow> radio \<Rightarrow> setting_plan \<Rightarrow> string \<Rightarrow> bool \<Rightarrow> bool \<Rightarrow> exc \<Rightarrow> 'w io \<Rightarrow> (exc + 'a) \<times> 'w io" where
  "settle env job r p ref changed attempted e s = (if e = Fault CancelledError then (Inl e, s)
     else (Inl (case e of Raised c b \<Rightarrow> Raised c b
         | Fault f \<Rightarrow> Raised (if f = IdentityMismatch then ''IDENTITY_MISMATCH'' else ''SETTINGS_VERIFICATION_FAILED'') (attempted \<or> changed)),
       record_transport_attempt env (setting_row job r p ref (if attempted then ''settings_diverged'' else ''settings_blocked'') False) (rollback s)))"

definition apply_plan :: "'w env \<Rightarrow> string \<Rightarrow> setting_plan \<Rightarrow> string \<Rightarrow> setting_value \<Rightarrow> bool \<Rightarrow> radio \<Rightarrow> ('w, radio \<times> change option) iact" where
  "apply_plan env job p ref previous changed r =
     abind (catching (arm_plan env job r p ref previous changed) (settle env job r p ref changed False)) (\<lambda>armed_value. case armed_value of
       None \<Rightarrow> areturn (r, None)
     | Some current \<Rightarrow>
         catching (abind (send env r p) (\<lambda>(response, uncertain).
           abind (confirm env job r p ref) (\<lambda>(info, observed).
             areturn (rename p observed info r, Some \<lparr>ch_plan = p, ch_before = current, ch_after = observed, ch_response = response, ch_uncertain = uncertain\<rparr>))))
           (settle env job r p ref changed True))"

section \<open>One radio\<close>

type_synonym setting_raw = "(string \<times> string) list"

record settings_result =
  st_changed :: "change list"
  st_unchanged :: "string list"
  st_art :: "(string \<times> string) option"

fun read_plans :: "'w env \<Rightarrow> radio \<Rightarrow> (string \<times> pyval) list option \<Rightarrow> setting_plan list \<Rightarrow> setting_raw \<Rightarrow> (string \<times> setting_value) list \<Rightarrow>
    ('w, setting_raw \<times> (string \<times> setting_value) list) iact" where
  "read_plans env r expected [] raw before = areturn (raw, before)"
| "read_plans env r expected (p # ps) raw before =
     abind (case map_of raw (pl_read_path p) of Some t \<Rightarrow> areturn t | None \<Rightarrow> get_xml env r (pl_read_path p)) (\<lambda>t.
     abind (lift_result (read_value env p t r)) (\<lambda>v.
       if (case expected of None \<Rightarrow> False | Some ex \<Rightarrow> (case map_of ex (pl_setting p) of None \<Rightarrow> False | Some old \<Rightarrow> \<not> matches_previous p v old))
       then araise (Raised ''WRITE_PRECONDITION_FAILED'' False)
       else read_plans env r expected ps (if pl_read_path p \<in> fst ` set raw then raw else raw @ [(pl_read_path p, t)])
         (if pl_setting p \<in> fst ` set before then map (\<lambda>e. if fst e = pl_setting p then (pl_setting p, v) else e) before else before @ [(pl_setting p, v)])))"

definition store_backups :: "'w env \<Rightarrow> radio \<Rightarrow> setting_raw \<Rightarrow> ('w, (string \<times> nat) list) iact" where
  "store_backups env r raw =
     abind (each (\<lambda>(path, t). abind (add_row env (\<lambda>n. BackupRow n (ra_id r) (''http8090:'' @ path) t)) (\<lambda>n. areturn (path, n))) raw) (\<lambda>ids.
     abind (commit env) (\<lambda>_ s.
       if list_all (\<lambda>((path, n), (_, t)). stored_intact env n (en_sha env t) s) (zip ids raw) then (Inr ids, s) else (Inl (Fault OtherError), s)))"

definition preflight :: "'w env \<Rightarrow> radio \<Rightarrow> (string \<times> pyval) list option \<Rightarrow> setting_plan list \<Rightarrow>
    ('w, (string \<times> setting_value) list \<times> (string \<times> nat) list) iact" where
  "preflight env r expected plans = catching
     (abind (get_xml env r ''/info'') (\<lambda>info.
      abind (verify_settings_identity env r info) (\<lambda>_.
      abind (read_plans env r expected plans [(''/info'', info)] []) (\<lambda>(raw, before).
      abind (store_backups env r raw) (\<lambda>ids. areturn (before, ids))))))
     (\<lambda>e s. if e = Fault CancelledError then (Inl e, s) else (Inl (case e of Raised c b \<Rightarrow> Raised c b
        | Fault f \<Rightarrow> Raised (if f = IdentityMismatch then ''IDENTITY_MISMATCH'' else ''SETTINGS_PREFLIGHT_FAILED'') False), rollback s))"

definition plan_ref :: "(string \<times> nat) list \<Rightarrow> setting_plan \<Rightarrow> string" where
  "plan_ref ids p = ''config-backup:'' @ (case map_of ids (pl_read_path p) of Some n \<Rightarrow> digits_of_nat n | None \<Rightarrow> [])"

definition value_before :: "(string \<times> setting_value) list \<Rightarrow> setting_plan \<Rightarrow> setting_value" where
  "value_before before p = (case map_of before (pl_setting p) of Some v \<Rightarrow> v | None \<Rightarrow> SStr [])"

fun apply_plans :: "'w env \<Rightarrow> string \<Rightarrow> (string \<times> setting_value) list \<Rightarrow> (string \<times> nat) list \<Rightarrow> setting_plan list \<Rightarrow> radio \<Rightarrow> change list \<Rightarrow> string list \<Rightarrow>
    ('w, change list \<times> string list) iact" where
  "apply_plans env job before ids [] r changed unchanged = areturn (changed, unchanged)"
| "apply_plans env job before ids (p # ps) r changed unchanged =
     abind (apply_plan env job p (plan_ref ids p) (value_before before p) (changed \<noteq> []) r) (\<lambda>(r', c). case c of
       None \<Rightarrow> apply_plans env job before ids ps r' changed (unchanged @ [pl_setting p])
     | Some ch \<Rightarrow> apply_plans env job before ids ps r' (changed @ [ch]) unchanged)"

definition art_key :: "radio \<Rightarrow> string" where
  "art_key r = ''station_art_mode:'' @ ra_id r"

definition art_current :: "'w env \<Rightarrow> radio \<Rightarrow> 'w io \<Rightarrow> string" where
  "art_current env r s = (case en_setting env (art_key r) (io_world s) of Some v \<Rightarrow> v | None \<Rightarrow> ''radio_symbol'')"

definition check_art :: "'w env \<Rightarrow> radio \<Rightarrow> (string \<times> pyval) list option \<Rightarrow> string option \<Rightarrow> ('w, unit) iact" where
  "check_art env r expected art s = (case (art, expected) of
     (Some _, Some ex) \<Rightarrow> (case map_of ex ''station_art_mode'' of
         None \<Rightarrow> (Inr (), s)
       | Some v \<Rightarrow> if VStr (art_current env r s) \<noteq> v then (Inl (Raised ''WRITE_PRECONDITION_FAILED'' False), s) else (Inr (), s))
   | _ \<Rightarrow> (Inr (), s))"

definition save_art :: "'w env \<Rightarrow> radio \<Rightarrow> string option \<Rightarrow> bool \<Rightarrow> ('w, (string \<times> string) option) iact" where
  "save_art env r art changed s = (case art of
     None \<Rightarrow> (Inr None, s)
   | Some mode \<Rightarrow> (let current = art_current env r s in
       if current = mode then (Inr None, s)
       else catching (abind (commit env) (\<lambda>_. areturn (Some (current, mode))))
         (\<lambda>e t. if is_exception e then (Inl (Raised ''SETTINGS_LOCAL_COMMIT_FAILED'' changed), rollback t) else (Inl e, t))
         (s\<lparr>io_pending := io_pending s @ [SettingRow (art_key r) mode]\<rparr>)))"

definition apply_settings :: "'w env \<Rightarrow> string \<Rightarrow> setting_plan list \<Rightarrow> (string \<times> pyval) list option \<Rightarrow> string option \<Rightarrow> radio \<Rightarrow> ('w, settings_result) iact" where
  "apply_settings env job plans expected art r =
     abind (own_radios env [ra_id r]) (\<lambda>_.
     abind (check_art env r expected art) (\<lambda>_.
     abind (if plans = [] then areturn ([], [])
       else abind (guard env r) (\<lambda>_.
         abind (preflight env r expected plans) (\<lambda>(before, ids). apply_plans env job before ids plans r [] []))) (\<lambda>(changed, unchanged).
     abind (save_art env r art (changed \<noteq> [])) (\<lambda>saved.
       areturn \<lparr>st_changed = changed, st_unchanged = unchanged, st_art = saved\<rparr>))))"

section \<open>Several radios\<close>

definition batch_preflight :: "'w env \<Rightarrow> setting_plan \<Rightarrow> radio \<Rightarrow> ('w, string \<times> setting_value) iact" where
  "batch_preflight env p r = catching (abind (fetch env r p) (\<lambda>(_, v). areturn (ra_id r, v)))
     (\<lambda>e. if e = Fault CancelledError then araise e
       else araise (Raised (if e = Fault IdentityMismatch then ''IDENTITY_MISMATCH'' else ''SETTINGS_PREFLIGHT_FAILED'') False))"

fun batch_apply :: "'w env \<Rightarrow> (radio \<Rightarrow> string) \<Rightarrow> setting_plan \<Rightarrow> (string \<times> setting_value) list \<Rightarrow> radio list \<Rightarrow> settings_result list \<Rightarrow>
    ('w, settings_result list) iact" where
  "batch_apply env job p previous [] results = areturn results"
| "batch_apply env job p previous (r # rs) results =
     abind (catching (apply_settings env (job r) [p] (Some [(pl_setting p, py_of (case map_of previous (ra_id r) of Some v \<Rightarrow> v | None \<Rightarrow> SStr []))]) None r)
       (\<lambda>e. if e = Fault CancelledError then araise e
         else araise (case e of Raised c b \<Rightarrow> Raised c (b \<or> list_ex (\<lambda>x. st_changed x \<noteq> []) results) | Fault _ \<Rightarrow> Raised ''SETTINGS_BATCH_INTERRUPTED'' True)))
       (\<lambda>x. batch_apply env job p previous rs (results @ [x]))"

definition apply_settings_batch :: "'w env \<Rightarrow> (radio \<Rightarrow> string) \<Rightarrow> setting_plan \<Rightarrow> radio list \<Rightarrow> ('w, settings_result list) iact" where
  "apply_settings_batch env job p devices =
     (if devices = [] \<or> \<not> distinct (map ra_id devices) then araise value_error
      else abind (own_radios env (map ra_id devices)) (\<lambda>_.
        abind (each (guard env) devices) (\<lambda>_.
        abind (each (batch_preflight env p) devices) (\<lambda>previous. batch_apply env job p previous devices []))))"

section \<open>What a transaction writes and reports\<close>

lemma faulty_values [plain_intros]: "faulty (text_integer t)" "faulty (parse_integer x)" "faulty (text_boolean t)" "faulty (parse_boolean x)"
  by (auto simp: text_integer_def parse_integer_def text_boolean_def parse_boolean_def value_error_def Let_def faulty_def split: option.splits if_splits)

lemma faulty_setting [plain_intros]: "faulty (setting_of_xml st x)"
  unfolding setting_of_xml_def value_error_def by (intro plain_intros)

lemma faulty_read_value [plain_intros]: "faulty (read_value env p t r)"
  unfolding read_value_def read_setting_def by (intro plain_intros)

lemma plain_fetch [plain_intros]: "raises_faults (fetch env r p)"
  unfolding fetch_def by (intro plain_intros)

lemma calm_fetch [calm_intros]: "calm (fetch env r p)"
  unfolding fetch_def by (intro calm_intros)

lemma untouched_fetch [untouched_intros]: "untouched (fetch env r p)"
  unfolding fetch_def by (intro untouched_intros faulty_harmless faulty_read_value)

lemma yields_fetch:
  "yields (\<lambda>a ev. puts ev = [] \<and> faulty a \<and> (\<forall>info v. a = Inr (info, v) \<longrightarrow>
     (\<exists>x. Got (ra_id r) (pl_read_path p) (Inr x) \<in> set ev \<and> read_value env p x r = Inr v))) (fetch env r p)"
proof -
  have identity: "yields (\<lambda>a ev. puts ev = [] \<and> faulty a) (verify_settings_identity env r x)" for x
    by (rule yields_plain) (intro untouched_intros plain_intros)+
  have again: "yields (\<lambda>a ev. puts ev = [] \<and> faulty a \<and> (\<forall>x. a = Inr x \<longrightarrow>
      (pl_read_path p = ''/info'' \<and> x = info \<or> Got (ra_id r) (pl_read_path p) (Inr x) \<in> set ev)))
      (if pl_read_path p = ''/info'' then areturn info else get_xml env r (pl_read_path p))" for info
    using yields_get [of r "pl_read_path p" env]
    by (auto intro!: yields_return faulty_basic elim!: yields_weaken)
  have val: "yields (\<lambda>a ev. puts ev = [] \<and> faulty a \<and> (\<forall>y v. a = Inr (y, v) \<longrightarrow> read_value env p x r = Inr v))
      (abind (lift_result (read_value env p x r)) (\<lambda>v. areturn (info, v)))" for x info
    using faulty_read_value [of env p x r]
    by (intro yields_bind [OF yields_result [of "\<lambda>a ev. ev = [] \<and> read_value env p x r = a"]] yields_return) auto
  show ?thesis unfolding fetch_def
    by (intro yields_bind [OF yields_get] yields_bind [OF identity] yields_bind [OF again] yields_weaken [OF val]) auto
qed

text \<open>The first half writes nothing; its own refusal repeats whether an earlier setting was changed.\<close>

lemma yields_arm:
  "yields (\<lambda>a ev. puts ev = [] \<and> (\<forall>c b. a = Inl (Raised c b) \<longrightarrow> b = changed)) (arm_plan env job r p ref previous changed)"
proof -
  have g: "yields (\<lambda>a ev. puts ev = [] \<and> faulty a) (guard env r)"
    by (rule yields_plain) (intro untouched_intros plain_intros)+
  have i: "yields (\<lambda>a ev. puts ev = [] \<and> faulty a)
     (abind (abind (record_action env (setting_row job r p ref ''settings_intent'' False)) (\<lambda>_. commit env)) (\<lambda>_. areturn (Some v)))" for v
    by (rule yields_plain) (intro untouched_intros plain_intros)+
  show ?thesis unfolding arm_plan_def
    by (intro yields_bind [OF g] yields_bind [OF yields_fetch] yields_split yields_raise yields_return yields_weaken [OF i]) auto
qed

text \<open>A change that the radio confirmed: it was written, and an answer after that showed the wanted value.\<close>

definition plan_put :: "string \<Rightarrow> setting_plan \<Rightarrow> io_event" where
  "plan_put d p = Put d (pl_path p) (pl_xml p)"

definition confirmed :: "'w env \<Rightarrow> radio \<Rightarrow> change \<Rightarrow> io_event list \<Rightarrow> bool" where
  "confirmed env r ch ev = (matches_value (ch_plan ch) (ch_after ch) \<and> (\<exists>pre post x. ev = pre @ plan_put (ra_id r) (ch_plan ch) # post \<and>
     Got (ra_id r) (pl_read_path (ch_plan ch)) (Inr x) \<in> set post \<and> read_value env (ch_plan ch) x r = Inr (ch_after ch)))"

lemma confirmed_append:
  assumes "confirmed env r ch ev"
  shows "confirmed env r ch (ev @ ev')" "confirmed env r ch (ev' @ ev)"
  using assms unfolding confirmed_def by (metis append.assoc append_Cons Un_iff set_append)+

lemma confirmedI:
  "ch_plan ch = p \<Longrightarrow> matches_value p (ch_after ch) \<Longrightarrow> Got (ra_id r) (pl_read_path p) (Inr x) \<in> set post \<Longrightarrow>
    read_value env p x r = Inr (ch_after ch) \<Longrightarrow> confirmed env r ch (plan_put (ra_id r) p # post)"
  unfolding confirmed_def by (metis append_Nil)

lemma puts_plan [simp]: "is_put (plan_put d p)"
  by (simp add: plan_put_def is_put_def)

definition plan_ends :: "'w env \<Rightarrow> radio \<Rightarrow> setting_plan \<Rightarrow> bool \<Rightarrow> exc + radio \<times> change option \<Rightarrow> io_event list \<Rightarrow> bool" where
  "plan_ends env r p changed a ev = (case a of
     Inr (r', None) \<Rightarrow> puts ev = [] \<and> r' = r
   | Inr (r', Some ch) \<Rightarrow> puts ev = [plan_put (ra_id r) p] \<and> ra_id r' = ra_id r \<and> ch_plan ch = p \<and> confirmed env r ch ev
   | Inl (Raised c b) \<Rightarrow> puts ev \<in> {[], [plan_put (ra_id r) p]} \<and> (b \<longleftrightarrow> changed \<or> puts ev \<noteq> [])
   | Inl (Fault f) \<Rightarrow> puts ev \<in> {[], [plan_put (ra_id r) p]} \<and> f = CancelledError)"

lemma rename_id [simp]: "ra_id (rename p v info r) = ra_id r"
  by (simp add: rename_def split: setting_value.split bool.split)

text \<open>The error the handler turns an exception into.\<close>

definition settled_as :: "bool \<Rightarrow> exc \<Rightarrow> exc \<Rightarrow> bool" where
  "settled_as told e e' = (case e of Raised c b \<Rightarrow> e' = e | Fault f \<Rightarrow> if f = CancelledError then e' = e else (\<exists>c. e' = Raised c told))"

lemma yields_settle:
  fixes r :: radio
  shows "yields (\<lambda>a ev. puts ev = [] \<and> (\<exists>e'. a = Inl e' \<and> settled_as (attempted \<or> changed) e e')) (settle env job r p ref changed attempted e)"
proof (rule yieldsI)
  fix s a t
  assume run: "settle env job r p ref changed attempted e s = (a, t)"
  obtain ev where "io_log (record_transport_attempt env (setting_row job r p ref (if attempted then ''settings_diverged'' else ''settings_blocked'') False) (rollback s)) =
      io_log s @ ev" "puts ev = []"
    using attempt_log [of env _ "rollback s"] by (auto simp: rollback_def puts_none)
  then show "extends s t \<and> puts (added s t) = [] \<and> (\<exists>e'. a = Inl e' \<and> settled_as (attempted \<or> changed) e e')"
    using run same_log [of s s] by (cases e) (auto simp: settle_def settled_as_def extends_iff added_append split: if_splits)
qed

lemma yields_send: "yields (\<lambda>a ev. ev = [plan_put (ra_id r) p] \<and> faulty a) (send env r p)"
proof -
  have "yields (\<lambda>a ev. ev = [plan_put (ra_id r) p] \<and> faulty a) (abind (post_xml env r (pl_path p) (pl_xml p)) (\<lambda>response. areturn (response, False)))"
    unfolding plan_put_def by (intro yields_bind [OF yields_post] yields_return) auto
  then show ?thesis unfolding send_def by (rule yields_catching) (auto intro!: yields_return yields_raise)
qed

lemma yields_confirm:
  "yields (\<lambda>a ev. puts ev = [] \<and> (\<forall>c b. a = Inl (Raised c b) \<longrightarrow> b) \<and> (\<forall>info v. a = Inr (info, v) \<longrightarrow> matches_value p v \<and>
     (\<exists>x. Got (ra_id r) (pl_read_path p) (Inr x) \<in> set ev \<and> read_value env p x r = Inr v))) (confirm env job r p ref)"
proof -
  have a: "yields (\<lambda>a ev. puts ev = [] \<and> faulty a) (record_action env row)" "yields (\<lambda>a ev. puts ev = [] \<and> faulty a) (commit env)" for row
    by (intro yields_plain untouched_intros plain_intros)+
  have b: "yields (\<lambda>a ev. puts ev = [] \<and> faulty a) (stage_rename p v info r)" for v info
    by (rule yields_plain) (simp_all add: untouched_def raises_faults_def stage_rename_def)
  show ?thesis unfolding confirm_def
    by (intro yields_bind [OF yields_fetch] yields_split yields_raise yields_bind [OF a(1)] yields_bind [OF a(2)] yields_bind [OF b] yields_return) auto
qed

lemma apply_plan_ends: "yields (plan_ends env r p changed) (apply_plan env job p ref previous changed r)"
proof -
  have first: "yields (\<lambda>a ev. puts ev = [] \<and> (\<forall>e. a = Inl e \<longrightarrow> e = Fault CancelledError \<or> (\<exists>c. e = Raised c changed)))
      (catching (arm_plan env job r p ref previous changed) (settle env job r p ref changed False))"
    by (rule yields_catching [OF yields_arm]) (auto simp: settled_as_def intro!: yields_weaken [OF yields_settle] split: exc.splits if_splits)
  have second: "yields (\<lambda>a ev. puts ev = [plan_put (ra_id r) p] \<and> (case a of Inr (r', None) \<Rightarrow> False
       | Inr (r', Some ch) \<Rightarrow> ra_id r' = ra_id r \<and> ch_plan ch = p \<and> confirmed env r ch ev
       | Inl (Raised c b) \<Rightarrow> b | Inl (Fault f) \<Rightarrow> True)) (abind (send env r p) (\<lambda>(response, uncertain).
           abind (confirm env job r p ref) (\<lambda>(info, observed).
             areturn (rename p observed info r, Some \<lparr>ch_plan = p, ch_before = current, ch_after = observed, ch_response = response, ch_uncertain = uncertain\<rparr>))))"
      for current
    by (intro yields_bind [OF yields_send] yields_split yields_bind [OF yields_confirm] yields_return)
       (auto intro: confirmedI split: exc.split)
  have third: "yields (\<lambda>a ev. puts ev = [plan_put (ra_id r) p] \<and> (case a of Inr (r', None) \<Rightarrow> False
       | Inr (r', Some ch) \<Rightarrow> ra_id r' = ra_id r \<and> ch_plan ch = p \<and> confirmed env r ch ev
       | Inl (Raised c b) \<Rightarrow> b | Inl (Fault f) \<Rightarrow> f = CancelledError)) (catching (abind (send env r p) (\<lambda>(response, uncertain).
           abind (confirm env job r p ref) (\<lambda>(info, observed).
             areturn (rename p observed info r, Some \<lparr>ch_plan = p, ch_before = current, ch_after = observed, ch_response = response, ch_uncertain = uncertain\<rparr>))))
         (settle env job r p ref changed True))"
      for current
    by (rule yields_catching [OF second])
       (auto simp: settled_as_def intro!: yields_weaken [OF yields_settle] split: exc.splits if_splits option.splits)
  show ?thesis unfolding apply_plan_def
    by (rule yields_bind [OF first])
       (auto simp: plan_ends_def intro!: yields_return yields_weaken [OF third] confirmed_append(2) split: option.splits sum.splits exc.splits)
qed

lemma confirmed_id:
  assumes "ra_id r' = ra_id r"
  shows "confirmed env r' = confirmed env r"
proof -
  have "read_value env p x r' = read_value env p x r" for p x unfolding read_value_def assms ..
  then show ?thesis using assms by (simp add: confirmed_def fun_eq_iff)
qed

text \<open>
  A list of settings for one radio, \<open>cs\<close> already changed: the writes are those of the settings that
  changed, in the order of the plans, and the error says whether there was any.
\<close>

definition plans_done :: "'w env \<Rightarrow> radio \<Rightarrow> setting_plan list \<Rightarrow> change list \<Rightarrow> setting_plan list \<Rightarrow> io_event list \<Rightarrow> bool" where
  "plans_done env r ps new same ev = (ps \<in> shuffles (map ch_plan new) same \<and>
     puts ev = map (\<lambda>ch. plan_put (ra_id r) (ch_plan ch)) new \<and> (\<forall>ch \<in> set new. confirmed env r ch ev))"

definition plans_end :: "'w env \<Rightarrow> radio \<Rightarrow> setting_plan list \<Rightarrow> change list \<Rightarrow> string list \<Rightarrow> exc + change list \<times> string list \<Rightarrow> io_event list \<Rightarrow> bool" where
  "plans_end env r ps cs us a ev = (case a of
     Inr (cs', us') \<Rightarrow> \<exists>new same. cs' = cs @ new \<and> us' = us @ map pl_setting same \<and> plans_done env r ps new same ev
   | Inl (Raised c b) \<Rightarrow> b \<longleftrightarrow> cs \<noteq> [] \<or> puts ev \<noteq> []
   | Inl (Fault f) \<Rightarrow> f = CancelledError)"

lemma plans_end_id:
  assumes "ra_id r' = ra_id r"
  shows "plans_end env r' = plans_end env r"
  unfolding plans_end_def [abs_def] plans_done_def confirmed_id [OF assms] assms ..

lemma done_same: "plans_done env r ps new same ev \<Longrightarrow> puts ev' = [] \<Longrightarrow> plans_done env r (p # ps) new (p # same) (ev' @ ev)"
  by (auto simp: plans_done_def intro: Cons_in_shuffles_rightI confirmed_append)

lemma done_changed:
  "plans_done env r ps new same ev \<Longrightarrow> puts ev' = [plan_put (ra_id r) (ch_plan ch)] \<Longrightarrow> confirmed env r ch ev' \<Longrightarrow>
    plans_done env r (ch_plan ch # ps) (ch # new) same (ev' @ ev)"
  by (auto simp: plans_done_def intro: Cons_in_shuffles_leftI confirmed_append)

lemma plans_end_same:
  assumes "plans_end env r ps cs (us @ [pl_setting p]) a ev" "puts ev' = []"
  shows "plans_end env r (p # ps) cs us a (ev' @ ev)"
proof (cases a)
  case (Inl e)
  then show ?thesis using assms by (cases e) (auto simp: plans_end_def)
next
  case (Inr x)
  then obtain new same where "x = (cs @ new, us @ pl_setting p # map pl_setting same)" "plans_done env r ps new same ev"
    using assms(1) by (cases x) (auto simp: plans_end_def)
  then show ?thesis using done_same [OF _ assms(2)] Inr
    by (auto simp: plans_end_def intro!: exI [of _ new] exI [of _ "p # same"])
qed

lemma plans_end_changed:
  assumes "plans_end env r ps (cs @ [ch]) us a ev" "puts ev' = [plan_put (ra_id r) (ch_plan ch)]" "confirmed env r ch ev'"
  shows "plans_end env r (ch_plan ch # ps) cs us a (ev' @ ev)"
proof (cases a)
  case (Inl e)
  then show ?thesis using assms by (cases e) (auto simp: plans_end_def)
next
  case (Inr x)
  then obtain new same where "x = (cs @ ch # new, us @ map pl_setting same)" "plans_done env r ps new same ev"
    using assms(1) by (cases x) (auto simp: plans_end_def)
  then show ?thesis using done_changed [OF _ assms(2,3)] Inr
    by (auto simp: plans_end_def intro!: exI [of _ "ch # new"] exI [of _ same])
qed

lemma apply_plans_end: "yields (plans_end env r ps cs us) (apply_plans env job before ids ps r cs us)"
proof (induction ps arbitrary: r cs us)
  case Nil
  show ?case by (auto simp: plans_end_def plans_done_def intro!: yields_return exI [of _ "[]"])
next
  case (Cons p ps)
  show ?case unfolding apply_plans.simps
  proof (rule yields_bind [OF apply_plan_ends])
    fix x ev'
    assume x: "plan_ends env r p (cs \<noteq> []) (Inr x) ev'"
    obtain r' c where rc: "x = (r', c)" by (cases x)
    show "yields (\<lambda>a ev. plans_end env r (p # ps) cs us a (ev' @ ev)) (case x of (r', c) \<Rightarrow> case c of
       None \<Rightarrow> apply_plans env job before ids ps r' cs (us @ [pl_setting p])
     | Some ch \<Rightarrow> apply_plans env job before ids ps r' (cs @ [ch]) us)"
    proof (cases c)
      case None
      then show ?thesis using x rc by (auto simp: plan_ends_def intro!: yields_weaken [OF Cons.IH] plans_end_same)
    next
      case (Some ch)
      then show ?thesis using x rc
        by (auto simp: plan_ends_def dest!: plans_end_id [of r' r env] intro!: yields_weaken [OF Cons.IH] plans_end_changed)
    qed
  qed (auto simp: plan_ends_def plans_end_def split: exc.splits)
qed

text \<open>Everything before the first setting writes nothing and says so.\<close>

lemma untouched_plans [untouched_intros]: "untouched (read_plans env r expected ps raw before)"
proof (induction ps arbitrary: raw before)
  case (Cons p ps)
  have "untouched (case map_of raw (pl_read_path p) of Some t \<Rightarrow> areturn t | None \<Rightarrow> get_xml env r (pl_read_path p))"
    by (simp add: untouched_intros split: option.split)
  then show ?case unfolding read_plans.simps
    by (intro untouched_intros Cons.IH faulty_harmless faulty_read_value) (simp_all add: untouched_intros Cons.IH)
qed (simp add: untouched_intros)

lemma untouched_store [untouched_intros]: "untouched (store_backups env r raw)"
proof -
  have "untouched (\<lambda>s. if P s then (Inr ids, s) else (Inl (Fault OtherError), s))" for P :: "'a io \<Rightarrow> bool" and ids :: "(string \<times> nat) list"
    by (simp add: untouched_def)
  then show ?thesis unfolding store_backups_def by (intro untouched_intros)
qed

lemma yields_preflight:
  "yields (\<lambda>a ev. puts ev = [] \<and> (\<forall>e. a = Inl e \<longrightarrow> e = Fault CancelledError \<or> (\<exists>c. e = Raised c False))) (preflight env r expected plans)"
  unfolding preflight_def
proof (rule yields_catching)
  show "yields (\<lambda>a ev. puts ev = [] \<and> harmless a) (abind (get_xml env r ''/info'') (\<lambda>info.
      abind (verify_settings_identity env r info) (\<lambda>_.
      abind (read_plans env r expected plans [(''/info'', info)] []) (\<lambda>(raw, before).
      abind (store_backups env r raw) (\<lambda>ids. areturn (before, ids))))))"
    by (intro yields_untouched untouched_intros)
qed (auto simp: yields_def rollback_def extends_def added_def split: exc.split)

lemma yields_check_art: "yields (\<lambda>a ev. puts ev = [] \<and> (\<forall>e. a = Inl e \<longrightarrow> (\<exists>c. e = Raised c False))) (check_art env r expected art)"
  by (simp add: yields_def check_art_def same_log split: option.split)

lemma yields_save_art:
  "yields (\<lambda>a ev. puts ev = [] \<and> (\<forall>e. a = Inl e \<longrightarrow> e = Fault CancelledError \<or> (\<exists>c. e = Raised c changed))) (save_art env r art changed)"
proof (rule yieldsI)
  fix s a t
  assume run: "save_art env r art changed s = (a, t)"
  then consider "io_log t = io_log s" "\<And>e. a = Inl e \<Longrightarrow> e = Fault CancelledError \<or> (\<exists>c. e = Raised c changed)"
    | rows x where "io_log t = io_log s @ [Committed rows]" "a = Inr x"
    by (auto simp: save_art_def Let_def catching_def abind_def commit_def areturn_def note_event_def rollback_def is_exception_def
        split: option.splits if_splits prod.splits sum.splits)
  then show "extends s t \<and> puts (added s t) = [] \<and> (\<forall>e. a = Inl e \<longrightarrow> e = Fault CancelledError \<or> (\<exists>c. e = Raised c changed))"
    by cases (auto simp: same_log extends_iff added_append is_put_def)
qed

definition settings_end :: "'w env \<Rightarrow> radio \<Rightarrow> setting_plan list \<Rightarrow> exc + settings_result \<Rightarrow> io_event list \<Rightarrow> bool" where
  "settings_end env r plans a ev = (case a of
     Inr res \<Rightarrow> \<exists>same. st_unchanged res = map pl_setting same \<and> plans_done env r plans (st_changed res) same ev
   | Inl (Raised c b) \<Rightarrow> b \<longleftrightarrow> puts ev \<noteq> []
   | Inl (Fault f) \<Rightarrow> f = CancelledError \<or> puts ev = [])"

lemma done_wrap:
  "plans_done env r ps new same ev \<Longrightarrow> puts pre = [] \<Longrightarrow> puts pre' = [] \<Longrightarrow> puts post = [] \<Longrightarrow> plans_done env r ps new same (pre @ pre' @ ev @ post)"
  by (auto simp: plans_done_def intro: confirmed_append)

lemma done_puts: "plans_done env r ps new same ev \<Longrightarrow> puts ev = [] \<longleftrightarrow> new = []"
  by (simp add: plans_done_def)

lemma apply_settings_end: "yields (settings_end env r plans) (apply_settings env job plans expected art r)"
proof -
  have basic: "yields (\<lambda>a ev. puts ev = [] \<and> faulty a) (own_radios env ids)" "yields (\<lambda>a ev. puts ev = [] \<and> faulty a) (guard env r)" for ids
    by (intro yields_plain untouched_intros plain_intros)+
  let ?P = "\<lambda>a ev. case a of Inr (cs, us) \<Rightarrow> \<exists>same. us = map pl_setting same \<and> plans_done env r plans cs same ev
     | Inl (Raised c b) \<Rightarrow> b \<longleftrightarrow> puts ev \<noteq> [] | Inl (Fault f) \<Rightarrow> f = CancelledError \<or> puts ev = []"
  have radio: "yields ?P (if plans = [] then areturn ([], [])
       else abind (guard env r) (\<lambda>_.
         abind (preflight env r expected plans) (\<lambda>(before, ids). apply_plans env job before ids plans r [] [])))"
    by (intro yields_split yields_bind [OF basic(2)] yields_bind [OF yields_preflight] yields_weaken [OF apply_plans_end] yields_return)
       (auto simp: plans_end_def plans_done_def intro: confirmed_append split: sum.splits exc.splits)
  show ?thesis unfolding apply_settings_def
    by (intro yields_bind [OF basic(1)] yields_bind [OF yields_check_art] yields_bind [OF radio] yields_split yields_bind [OF yields_save_art] yields_return)
       (auto simp: settings_end_def done_puts intro: done_wrap split: exc.splits)
qed

text \<open>Several radios: the first failure ends the batch and reports any write, also those of earlier radios.\<close>

definition batch_done :: "'w env \<Rightarrow> setting_plan \<Rightarrow> radio list \<Rightarrow> settings_result list \<Rightarrow> io_event list \<Rightarrow> bool" where
  "batch_done env p rs new ev = (puts ev = concat (map2 (\<lambda>r x. map (\<lambda>_. plan_put (ra_id r) p) (st_changed x)) rs new) \<and>
     list_all2 (\<lambda>r x. \<forall>ch \<in> set (st_changed x). ch_plan ch = p \<and> confirmed env r ch ev) rs new)"

definition batch_end :: "'w env \<Rightarrow> setting_plan \<Rightarrow> radio list \<Rightarrow> settings_result list \<Rightarrow> exc + settings_result list \<Rightarrow> io_event list \<Rightarrow> bool" where
  "batch_end env p rs results a ev = (case a of
     Inr res \<Rightarrow> \<exists>new. res = results @ new \<and> batch_done env p rs new ev
   | Inl (Raised c b) \<Rightarrow> puts ev \<noteq> [] \<or> list_ex (\<lambda>x. st_changed x \<noteq> []) results \<longrightarrow> b
   | Inl (Fault f) \<Rightarrow> f = CancelledError)"

lemma single_plan:
  assumes "plans_done env r [p] cs same ev" "ch \<in> set cs"
  shows "ch_plan ch = p" "confirmed env r ch ev"
  using assms set_shuffles [of "[p]" "map ch_plan cs" same] by (auto simp: plans_done_def)

lemma batch_cons:
  assumes x: "settings_end env r [p] (Inr x) ev'" and rest: "batch_end env p rs (results @ [x]) a ev"
  shows "batch_end env p (r # rs) results a (ev' @ ev)"
proof -
  obtain same where d: "plans_done env r [p] (st_changed x) same ev'" using x by (auto simp: settings_end_def)
  then have p: "puts ev' = map (\<lambda>_. plan_put (ra_id r) p) (st_changed x)"
    using single_plan(1) [OF d] by (simp add: plans_done_def)
  show ?thesis
  proof (cases a)
    case (Inl e)
    then show ?thesis using rest p by (cases e) (auto simp: batch_end_def)
  next
    case (Inr res)
    then obtain new where new: "res = results @ x # new" "batch_done env p rs new ev" using rest by (auto simp: batch_end_def)
    then have "batch_done env p (r # rs) (x # new) (ev' @ ev)"
      using p single_plan [OF d] by (auto simp: batch_done_def confirmed_append elim!: list_all2_mono)
    then show ?thesis using Inr new(1) by (auto simp: batch_end_def)
  qed
qed

lemma yields_batch: "yields (batch_end env p rs results) (batch_apply env job p previous rs results)"
proof (induction rs arbitrary: results)
  case Nil
  show ?case by (simp add: batch_end_def batch_done_def yields_return)
next
  case (Cons r rs)
  show ?case unfolding batch_apply.simps
  proof (rule yields_bind [OF yields_catching [where Q = "\<lambda>a ev. case a of Inr x \<Rightarrow> settings_end env r [p] (Inr x) ev | Inl e \<Rightarrow> batch_end env p (r # rs) results (Inl e) ev"]],
      rule apply_settings_end)
    show "yields (\<lambda>a w'. case a of Inr x \<Rightarrow> settings_end env r [p] (Inr x) (w @ w') | Inl e \<Rightarrow> batch_end env p (r # rs) results (Inl e) (w @ w'))
       (if e = Fault CancelledError then araise e
        else araise (case e of Raised c b \<Rightarrow> Raised c (b \<or> list_ex (\<lambda>x. st_changed x \<noteq> []) results) | Fault _ \<Rightarrow> Raised ''SETTINGS_BATCH_INTERRUPTED'' True))"
      if "settings_end env r [p] (Inl e) w" for e w
      using that by (cases e) (auto simp: settings_end_def batch_end_def intro!: yields_raise)
  qed (auto intro!: yields_weaken [OF Cons.IH] batch_cons)
qed

text \<open>The batch as a whole: its guards and its first reading of all radios write nothing.\<close>

lemma batch_verified:
  "yields (\<lambda>a ev. case a of Inr res \<Rightarrow> batch_done env p devices res ev | Inl (Raised c b) \<Rightarrow> puts ev \<noteq> [] \<longrightarrow> b
     | Inl (Fault f) \<Rightarrow> f = CancelledError \<or> puts ev = []) (apply_settings_batch env job p devices)"
proof -
  have one: "untouched (batch_preflight env p r)" for r
    unfolding batch_preflight_def by (intro untouched_intros) auto
  have each: "yields (\<lambda>a ev. puts ev = [] \<and> harmless a) (own_radios env ids)" "yields (\<lambda>a ev. puts ev = [] \<and> harmless a) (each (guard env) devices)"
      "yields (\<lambda>a ev. puts ev = [] \<and> harmless a) (each (batch_preflight env p) devices)" for ids
    by (intro yields_untouched untouched_intros one)+
  have drop: "batch_done env p devices res (w @ w' @ w'' @ ev)" if "puts w = []" "puts w' = []" "puts w'' = []" "batch_done env p devices res ev" for w w' w'' res ev
    using that by (auto simp: batch_done_def confirmed_append elim!: list_all2_mono)
  show ?thesis unfolding apply_settings_batch_def
    by (intro yields_split yields_raise yields_bind [OF each(1)] yields_bind [OF each(2)] yields_bind [OF each(3)] yields_weaken [OF yields_batch])
       (auto simp: value_error_def batch_end_def drop split: exc.splits sum.splits)
qed

section \<open>The intent before each write\<close>

lemma keeps_settle: "keeps safe (settle env job r p ref changed attempted e)"
  by (simp add: keeps_def settle_def safe_attempt)

lemma safe_apply_plan: "keeps safe (apply_plan env job p ref previous changed r)"
proof -
  let ?A = "\<lambda>s. safe s \<and> armed s = Some (take 128 (ra_id r))"
  have intent: "triple safe (abind (record_action env (setting_row job r p ref ''settings_intent'' False)) (\<lambda>_. commit env)) (\<lambda>_. ?A) (\<lambda>_. safe)"
    by (rule triple_record_intent) (simp_all add: setting_row_def INTENTS_def)
  have arm: "triple safe (arm_plan env job r p ref previous changed) (\<lambda>v s. safe s \<and> (v \<noteq> None \<longrightarrow> ?A s)) (\<lambda>_. safe)"
    unfolding arm_plan_def
    by (intro triple_bind [OF triple_keeps [OF keeps_calm [OF calm_basic(5)]]] triple_bind [OF triple_keeps [OF keeps_calm [OF calm_fetch]]])
       (auto intro!: triple_raise triple_return triple_bind [OF intent])
  have first: "triple safe (catching (arm_plan env job r p ref previous changed) (settle env job r p ref changed False))
      (\<lambda>v s. safe s \<and> (v \<noteq> None \<longrightarrow> ?A s)) (\<lambda>_. safe)"
    by (rule triple_catching [OF arm]) (simp add: triple_def settle_def safe_attempt)
  have sent: "triple ?A (send env r p) (\<lambda>_. safe) (\<lambda>_. safe)" unfolding send_def
    by (rule triple_catching [OF triple_bind [OF triple_post]]) (auto intro!: triple_return triple_raise)
  have confirm: "keeps safe (confirm env job r p ref)" unfolding confirm_def
    by (intro keeps_bind keeps_split keeps_calm [OF calm_fetch] keeps_trivial keeps_calm [OF calm_record] keeps_commit keeps_calm [OF calm_same])
       (simp add: stage_rename_def)
  have second: "triple ?A (catching (abind (send env r p) (\<lambda>(response, uncertain).
           abind (confirm env job r p ref) (\<lambda>(info, observed).
             areturn (rename p observed info r, Some \<lparr>ch_plan = p, ch_before = current, ch_after = observed, ch_response = response, ch_uncertain = uncertain\<rparr>))))
         (settle env job r p ref changed True)) (\<lambda>_. safe) (\<lambda>_. safe)" for current
    by (intro triple_catching [where R = "\<lambda>_. safe"] triple_bind [OF sent] triple_split triple_bind [OF triple_keeps [OF confirm]] triple_return
        triple_keeps keeps_settle)
  have "triple safe (apply_plan env job p ref previous changed r) (\<lambda>_. safe) (\<lambda>_. safe)" unfolding apply_plan_def
    by (rule triple_bind [OF first]) (auto intro!: triple_return triple_weaken [OF second] split: option.split)
  then show ?thesis by (rule keeps_triple)
qed

lemma safe_apply_plans: "keeps safe (apply_plans env job before ids ps r cs us)"
proof (induction ps arbitrary: r cs us)
  case (Cons p ps)
  show ?case unfolding apply_plans.simps
    by (rule keeps_bind [OF safe_apply_plan]) (auto simp: Cons.IH split: option.split)
qed (simp add: keeps_trivial)

lemma calm_plans: "calm (read_plans env r expected ps raw before)"
proof (induction ps arbitrary: raw before)
  case (Cons p ps)
  have "calm (case map_of raw (pl_read_path p) of Some t \<Rightarrow> areturn t | None \<Rightarrow> get_xml env r (pl_read_path p))"
    by (simp add: calm_intros split: option.split)
  then show ?case unfolding read_plans.simps by (intro calm_intros Cons.IH)
qed (simp add: calm_intros)

lemma safe_apply_settings: "keeps safe (apply_settings env job plans expected art r)"
proof -
  have pre: "keeps safe (preflight env r expected plans)" unfolding preflight_def store_backups_def
    by (intro keeps_catching keeps_bind keeps_split keeps_commit keeps_trivial keeps_calm [OF calm_plans] keeps_calm [OF calm_each] keeps_calm [OF calm_identity]
        keeps_calm [OF calm_basic(4)] calm_intros) (auto simp: keeps_def)
  have "keeps safe (check_art env r expected art)" by (auto simp: keeps_def check_art_def split: option.splits)
  moreover have "keeps safe (save_art env r art changed)" for changed
    by (auto simp: keeps_def save_art_def Let_def catching_def abind_def commit_def areturn_def note_event_def safe_def journalled_append rollback_def
        split: option.splits prod.splits sum.splits)
  ultimately show ?thesis unfolding apply_settings_def
    by (intro keeps_bind keeps_split keeps_trivial pre safe_apply_plans keeps_calm [OF calm_basic(7)] keeps_calm [OF calm_basic(5)])
qed

lemma safe_batch_apply: "keeps safe (batch_apply env job p previous rs results)"
proof (induction rs arbitrary: results)
  case (Cons r rs)
  show ?case unfolding batch_apply.simps
    by (intro keeps_bind keeps_catching safe_apply_settings Cons.IH keeps_split keeps_trivial)
qed (simp add: keeps_trivial)

lemma safe_apply_settings_batch: "keeps safe (apply_settings_batch env job p devices)"
  unfolding apply_settings_batch_def batch_preflight_def
  by (intro keeps_split keeps_trivial keeps_bind safe_batch_apply) (intro keeps_calm calm_intros)+

section \<open>Properties\<close>

text \<open>
  C13. Settings of a radio are written once each and reported as what the radio confirmed. Whatever the
  radio, the database and the cancellation of the task do, a success means: the plans are, in their
  order, those reported as changed and those reported as unchanged, the writes are exactly the changed
  ones in that order, and each of them was followed by an answer of the radio that shows the wanted
  value. An error raised by the transaction asks for reconciliation exactly if something was written,
  and any other exception but a cancellation means that nothing was.
\<close>

theorem settings_verified:
  assumes "apply_settings env job plans expected art r s = (a, t)"
  shows "\<exists>ev. io_log t = io_log s @ ev \<and> (case a of
     Inr res \<Rightarrow> \<exists>same. st_unchanged res = map pl_setting same \<and> plans \<in> shuffles (map ch_plan (st_changed res)) same \<and>
       puts ev = map (\<lambda>ch. plan_put (ra_id r) (ch_plan ch)) (st_changed res) \<and> (\<forall>ch \<in> set (st_changed res). confirmed env r ch ev)
   | Inl (Raised c b) \<Rightarrow> b \<longleftrightarrow> puts ev \<noteq> []
   | Inl (Fault f) \<Rightarrow> f = CancelledError \<or> puts ev = [])"
  using yieldsD [OF apply_settings_end assms] unfolding extends_iff
  by (elim conjE exE) (auto simp: settings_end_def plans_done_def added_append cong: sum.case_cong)

definition example_settings_env :: "nat env" where
  "example_settings_env = example_env (\<lambda>_ _ w. if w = 0 then ''old'' else ''new'') (\<lambda>t. if t = ''old'' then Some (Elem ''sysLanguage'' [] ''2'' [])
     else if t = ''new'' then Some (Elem ''sysLanguage'' [] ''18'' []) else None)"

theorem settings_verified_witness:
  "\<exists>ch. puts (io_log (snd (apply_settings example_settings_env ''job'' [example_language] None None (example_radio ''A1'' ''8.8.8.8'') example_start))) =
     [Put ''A1'' ''/language'' ''<sysLanguage>18</sysLanguage>''] \<and>
     confirmed example_settings_env (example_radio ''A1'' ''8.8.8.8'') ch
       (io_log (snd (apply_settings example_settings_env ''job'' [example_language] None None (example_radio ''A1'' ''8.8.8.8'') example_start)))"
proof -
  let ?r = "example_radio ''A1'' ''8.8.8.8''" and ?e = example_settings_env and ?p = example_language
  let ?run = "apply_settings ?e ''job'' [?p] None None ?r example_start"
  have "case fst ?run of Inr res \<Rightarrow> map ch_plan (st_changed res) = [?p] | Inl _ \<Rightarrow> False" by code_simp
  then obtain res t where run: "?run = (Inr res, t)" and p: "map ch_plan (st_changed res) = [?p]"
    by (cases ?run) (auto split: sum.splits)
  then obtain ch where ch: "st_changed res = [ch]" "ch_plan ch = ?p" by auto
  have "puts (io_log t) = [plan_put ''A1'' ?p] \<and> confirmed ?e ?r ch (io_log t)"
    using settings_verified [OF run] ch by (auto simp: example_start_def)
  then show ?thesis using run by (auto simp: plan_put_def example_language_def plan_of_def)
qed

end
