(* ===== verification/ZoneCreation.thy ===== *)
theory ZoneCreation
  imports SettingsWriter ZoneChanges
begin

text \<open>
  Creating a multiroom zone (app/services/zone_creation.py): a scope in which the existing
  orchestration runs with clients that check every read and every write. The scope's own object is
  part of the state. The code inside the scope is any sequence of requests, each chosen after the
  answer, or the exception, of the ones before. Texts that only go to the journal are left out.
\<close>

section \<open>The scope and its state\<close>

record creation =
  cr_ref :: string
  cr_before :: "(string \<times> (string \<times> string) list) list"
  cr_attempted :: bool
  cr_verification :: "(string \<times> bool) list"

type_synonym ('w, 'a) cact = "('w io \<times> creation, exc, 'a) act"

definition on_io :: "('w, 'a) iact \<Rightarrow> ('w, 'a) cact" where
  "on_io m x = (case m (fst x) of (a, t) \<Rightarrow> (a, (t, snd x)))"

definition on_creation :: "(creation \<Rightarrow> creation) \<Rightarrow> ('w, unit) cact" where
  "on_creation f x = (Inr (), (fst x, f (snd x)))"

definition fail :: "string \<Rightarrow> ('w, 'a) cact" where
  "fail code x = (Inl (Raised code (cr_attempted (snd x))), x)"

record scope =
  sc_job :: string
  sc_devices :: "radio list"

definition sc_master :: "scope \<Rightarrow> radio" where
  "sc_master sc = hd (sc_devices sc)"

definition sc_targets :: "scope \<Rightarrow> (string \<times> string) list" where
  "sc_targets sc = map (\<lambda>r. (ra_id r, ra_ip r)) (sc_devices sc)"

text \<open>The identities of everybody but the coordinator, as a set of the upper-case texts.\<close>

definition sc_wanted :: "scope \<Rightarrow> string set" where
  "sc_wanted sc = set (map (\<lambda>r. upper (ra_id r)) (sc_devices sc)) - {upper (ra_id (sc_master sc))}"

definition new_creation :: creation where
  "new_creation = \<lparr>cr_ref = [], cr_before = [], cr_attempted = False, cr_verification = []\<rparr>"

section \<open>Reading\<close>

datatype zone_value = ProfileKey string | ZoneState zone | SettingState setting_value

definition READS :: "string list" where
  "READS = [''/info'', ''/getZone'', ''/volume'', ''/rebroadcastlatencymode'']"

definition other_value :: "'w env \<Rightarrow> string \<Rightarrow> string \<Rightarrow> exc + zone_value" where
  "other_value env path t =
     (if path = ''/getZone'' then rbind (zone_parse env [] t) (\<lambda>z. Inr (ZoneState z))
      else rbind (read_setting env (drop 1 path) t) (\<lambda>v.
        if path = ''/volume'' \<and> (case v of SInt i \<Rightarrow> i < 0 \<or> 100 < i | _ \<Rightarrow> True) then Inl (Fault OtherError) else Inr (SettingState v)))"

definition claims_other :: "radio \<Rightarrow> xml \<Rightarrow> bool" where
  "claims_other r x = (case attr x ''deviceID'' of None \<Rightarrow> False | Some c \<Rightarrow> upper (strip c) \<noteq> upper (ra_id r))"

definition value_of :: "'w env \<Rightarrow> string \<Rightarrow> string \<Rightarrow> radio \<Rightarrow> ('w, zone_value) iact" where
  "value_of env path t r =
     abind (lift_result (parse env t)) (\<lambda>x.
       if claims_other r x then araise (Fault IdentityMismatch)
       else if path = ''/info'' then abind (verify_settings_identity env r t) (\<lambda>k. areturn (ProfileKey k))
       else lift_result (other_value env path t))"

definition read_zone_value :: "'w env \<Rightarrow> string \<Rightarrow> string \<Rightarrow> radio \<Rightarrow> ('w, zone_value) iact" where
  "read_zone_value env path t r =
     (if path \<notin> set READS then araise value_error
      else abind (if path = ''/volume'' then lift_result (rbind (parse env t) (\<lambda>x. if length (findall x ''actualvolume'') \<noteq> 1 then Inl value_error else Inr ()))
          else areturn ()) (\<lambda>_. value_of env path t r))"

definition guard_selected :: "'w env \<Rightarrow> radio \<Rightarrow> ('w, unit) cact" where
  "guard_selected env r =
     abind (on_io (guard env r)) (\<lambda>now.
       if device_fingerprint now \<noteq> device_fingerprint r then fail ''ZONE_CREATION_TARGET_CHANGED''
       else (\<lambda>x. if en_owned env (ra_id r) (io_world (fst x)) then (Inr (), x) else fail ''ZONE_CREATION_OWNERSHIP_REQUIRED'' x))"

definition read_selected :: "'w env \<Rightarrow> radio \<Rightarrow> string \<Rightarrow> ('w, string) cact" where
  "read_selected env r path =
     abind (guard_selected env r) (\<lambda>_.
     abind (on_io (get_xml env r ''/info'')) (\<lambda>info.
     abind (on_io (value_of env ''/info'' info r)) (\<lambda>_.
       if path = ''/info'' then areturn info
       else abind (on_io (get_xml env r path)) (\<lambda>t.
         if path \<in> set READS then abind (on_io (value_of env path t r)) (\<lambda>_. areturn t) else areturn t))))"

text \<open>A refused scope is an exception of another class than the scope's own.\<close>

definition scoped_zone :: "'w env \<Rightarrow> scope \<Rightarrow> string \<Rightarrow> exc + zone" where
  "scoped_zone env sc t = rbind (zone_parse env [] t) (\<lambda>z. case require_selected_scope env z (sc_targets sc) of
     Inl _ \<Rightarrow> Inl (Fault OtherError) | Inr _ \<Rightarrow> Inr z)"

section \<open>Preparation\<close>

definition read_state :: "'w env \<Rightarrow> scope \<Rightarrow> radio \<Rightarrow> ('w, string \<times> (string \<times> string) list) cact" where
  "read_state env sc r =
     abind (each (\<lambda>p. abind (read_selected env r p) (\<lambda>t. areturn (p, t))) READS) (\<lambda>state.
     abind (on_io (lift_result (scoped_zone env sc (case map_of state ''/getZone'' of Some t \<Rightarrow> t | None \<Rightarrow> [])))) (\<lambda>_.
       areturn (ra_id r, state)))"

definition creation_row :: "scope \<Rightarrow> creation \<Rightarrow> radio \<Rightarrow> string \<Rightarrow> bool \<Rightarrow> action_row" where
  "creation_row sc c r phase ok = \<lparr>aj_job = sc_job sc, aj_device = ra_id r, aj_action = ''multiroom_create'', aj_phase = phase,
     aj_backup_ref = cr_ref c, aj_verified = ok\<rparr>"

definition record_step :: "'w env \<Rightarrow> scope \<Rightarrow> radio \<Rightarrow> string \<Rightarrow> bool \<Rightarrow> ('w, unit) cact" where
  "record_step env sc r phase ok x = on_io (abind (record_action env (creation_row sc (snd x) r phase ok)) (\<lambda>_. commit env)) x"

definition store_before :: "'w env \<Rightarrow> scope \<Rightarrow> (string \<times> (string \<times> string) list) list \<Rightarrow> ('w, unit) cact" where
  "store_before env sc before = (let content = en_dumps env (VDict [(''devices'', texts_tree before)]) in
     abind (on_io (add_row env (\<lambda>n. BackupRow n (ra_id (sc_master sc)) (sc_job sc @ ''/before.json'') content))) (\<lambda>n.
     abind (on_creation (\<lambda>c. c\<lparr>cr_ref := backup_ref n\<rparr>)) (\<lambda>_.
     abind (record_step env sc (sc_master sc) ''ZONE_CREATION_INTENT'' False) (\<lambda>_ x.
       if stored_intact env n (en_sha env content) (fst x) then (Inr (), x) else fail ''ZONE_CREATION_BACKUP_INTEGRITY'' x))))"

definition same_as_before :: "'w env \<Rightarrow> (string \<times> string) list \<Rightarrow> radio \<Rightarrow> string \<Rightarrow> ('w, unit) cact" where
  "same_as_before env state r path =
     abind (read_selected env r path) (\<lambda>t.
     abind (on_io (value_of env path t r)) (\<lambda>now.
     abind (on_io (value_of env path (case map_of state path of Some old \<Rightarrow> old | None \<Rightarrow> []) r)) (\<lambda>old.
       if now \<noteq> old then fail ''ZONE_CREATION_PRECONDITION_CHANGED'' else areturn ())))"

definition prepare_creation :: "'w env \<Rightarrow> scope \<Rightarrow> ('w, unit) cact" where
  "prepare_creation env sc =
     abind (each (guard_selected env) (sc_devices sc)) (\<lambda>_.
     abind (each (read_state env sc) (sc_devices sc)) (\<lambda>before.
     abind (on_creation (\<lambda>c. c\<lparr>cr_before := before\<rparr>)) (\<lambda>_.
     abind (store_before env sc before) (\<lambda>_.
     abind (each (\<lambda>r. each (same_as_before env (case map_of before (ra_id r) of Some s \<Rightarrow> s | None \<Rightarrow> []) r) READS) (sc_devices sc)) (\<lambda>_.
       areturn ())))))"

section \<open>Writing\<close>

definition zone_seen :: "'w env \<Rightarrow> scope \<Rightarrow> zone \<Rightarrow> radio \<Rightarrow> zone \<Rightarrow> bool" where
  "zone_seen env sc expected r actual = (zo_master actual = zo_master expected \<and>
     isl (require_selected_scope env actual (sc_targets sc)) = False \<and>
     (upper (ra_id r) = zo_master expected \<longrightarrow> set (map fst (zo_members actual)) - {zo_master expected} = sc_wanted sc))"

definition see_zone :: "'w env \<Rightarrow> scope \<Rightarrow> zone \<Rightarrow> radio \<Rightarrow> ('w, bool) cact" where
  "see_zone env sc expected r =
     abind (read_selected env r ''/getZone'') (\<lambda>t.
     abind (on_io (lift_result (zone_parse env [] t))) (\<lambda>actual. let ok = zone_seen env sc expected r actual in
     abind (on_creation (\<lambda>c. c\<lparr>cr_verification := cr_verification c @ [(ra_id r, ok)]\<rparr>)) (\<lambda>_. areturn ok)))"

definition zone_matches :: "'w env \<Rightarrow> scope \<Rightarrow> zone \<Rightarrow> ('w, bool) cact" where
  "zone_matches env sc expected =
     (if zo_master expected \<noteq> upper (ra_id (sc_master sc)) then fail ''ZONE_CREATION_COORDINATOR_CHANGED''
      else if set (map fst (zo_members expected)) \<noteq> sc_wanted sc then fail ''ZONE_CREATION_TARGET_SET_CHANGED''
      else abind (on_creation (\<lambda>c. c\<lparr>cr_verification := []\<rparr>)) (\<lambda>_.
        abind (each (see_zone env sc expected) (sc_devices sc)) (\<lambda>oks. areturn (list_all id oks))))"

text \<open>\<open>int\<close> of a text: blanks around it, a sign, and single underscores between digits are accepted.\<close>

fun digit_groups :: "string \<Rightarrow> bool" where
  "digit_groups [] = False"
| "digit_groups [c] = is_digit c"
| "digit_groups (c # d # cs) = (is_digit c \<and> (if d = CHR ''_'' then digit_groups cs else digit_groups (d # cs)))"

definition int_of_text :: "string \<Rightarrow> exc + int" where
  "int_of_text t = (let u = strip t;
     ds = (case u of c # cs \<Rightarrow> if c = CHR ''-'' \<or> c = CHR ''+'' then cs else u | [] \<Rightarrow> []);
     n = int (nat_of_digits (filter is_digit ds)) in
     if digit_groups ds \<and> length (filter is_digit ds) \<le> 4300 then Inr (if hd u = CHR ''-'' then - n else n) else Inl value_error)"

definition expected_of :: "'w env \<Rightarrow> scope \<Rightarrow> radio \<Rightarrow> string \<Rightarrow> string \<Rightarrow> ('w, zone_value) cact" where
  "expected_of env sc r path body =
     abind (on_io (lift_result (parse env body))) (\<lambda>request.
       if path = ''/setZone'' then abind (on_io (lift_result (scoped_zone env sc body))) (\<lambda>z.
         if ra_id r \<noteq> ra_id (sc_master sc) then fail ''ZONE_CREATION_WRONG_COORDINATOR''
         else if zo_master z \<noteq> upper (ra_id (sc_master sc)) \<or> set (map fst (zo_members z)) \<noteq> sc_wanted sc then fail ''ZONE_CREATION_TARGET_SET_CHANGED''
         else areturn (ZoneState z))
       else if path = ''/volume'' \<and> xm_tag request = ''volume'' then abind (on_io (lift_result (int_of_text (xm_text request)))) (\<lambda>i.
         if i < 0 \<or> 100 < i then fail ''ZONE_CREATION_INVALID_VOLUME'' else areturn (SettingState (SInt i)))
       else if path = ''/rebroadcastlatencymode'' then on_io (value_of env path body r)
       else fail ''ZONE_CREATION_UNPLANNED_WRITE'')"

definition in_scope :: "'w env \<Rightarrow> scope \<Rightarrow> radio \<Rightarrow> ('w, unit) cact" where
  "in_scope env sc r = abind (read_selected env r ''/getZone'') (\<lambda>t. abind (on_io (lift_result (scoped_zone env sc t))) (\<lambda>_. areturn ()))"

definition send_step :: "'w env \<Rightarrow> radio \<Rightarrow> string \<Rightarrow> string \<Rightarrow> ('w, string \<times> bool) cact" where
  "send_step env r path body = on_io (catching (abind (post_xml env r path body) (\<lambda>response. areturn (response, False)))
     (\<lambda>e. if e = Fault CancelledError then araise e else areturn ([], e \<noteq> Fault TransportError)))"

definition matches_step :: "'w env \<Rightarrow> scope \<Rightarrow> radio \<Rightarrow> string \<Rightarrow> zone_value \<Rightarrow> ('w, bool) cact" where
  "matches_step env sc r path expected = catching
     (case expected of
        ZoneState z \<Rightarrow> zone_matches env sc z
      | _ \<Rightarrow> abind (read_selected env r path) (\<lambda>t. abind (on_io (value_of env path t r)) (\<lambda>v. areturn (v = expected))))
     (\<lambda>e. if e = Fault TransportError then areturn False else araise e)"

text \<open>At most four readings, with a pause after each but the last; only readings are repeated.\<close>

fun settle_step :: "'w env \<Rightarrow> ('w, bool) cact \<Rightarrow> nat \<Rightarrow> ('w, bool) cact" where
  "settle_step env m 0 = areturn False"
| "settle_step env m (Suc n) = abind m (\<lambda>ok. if ok then areturn True
     else if n = 0 then areturn False else abind (on_io (sleep env)) (\<lambda>_. settle_step env m n))"

text \<open>Everything before the write: what is asked for, the zones, the intent, the last guards.\<close>

definition step_checks :: "'w env \<Rightarrow> scope \<Rightarrow> radio \<Rightarrow> string \<Rightarrow> string \<Rightarrow> ('w, zone_value) cact" where
  "step_checks env sc r path body =
     abind (guard_selected env r) (\<lambda>_.
     abind (expected_of env sc r path body) (\<lambda>expected.
     abind (each (in_scope env sc) (sc_devices sc)) (\<lambda>_.
     abind (record_step env sc r ''ZONE_CREATION_WRITE_INTENT'' False) (\<lambda>_.
     abind (each (guard_selected env) (sc_devices sc)) (\<lambda>_.
     abind (read_selected env r ''/info'') (\<lambda>_. areturn expected))))))"

definition step_readback :: "'w env \<Rightarrow> scope \<Rightarrow> radio \<Rightarrow> string \<Rightarrow> zone_value \<Rightarrow> string \<times> bool \<Rightarrow> ('w, string) cact" where
  "step_readback env sc r path expected sent =
     abind (settle_step env (matches_step env sc r path expected) 4) (\<lambda>matched.
       if \<not> matched \<or> snd sent then fail ''ZONE_CREATION_READBACK_MISMATCH''
       else abind (record_step env sc r ''ZONE_CREATION_STEP_VERIFIED'' True) (\<lambda>_. areturn (fst sent)))"

definition post_selected :: "'w env \<Rightarrow> scope \<Rightarrow> radio \<Rightarrow> string \<Rightarrow> string \<Rightarrow> ('w, string) cact" where
  "post_selected env sc r path body =
     abind (step_checks env sc r path body) (\<lambda>expected.
     abind (on_creation (\<lambda>c. c\<lparr>cr_attempted := True\<rparr>)) (\<lambda>_.
     abind (send_step env r path body) (step_readback env sc r path expected)))"

section \<open>The scope\<close>

definition record_failure :: "'w env \<Rightarrow> scope \<Rightarrow> 'w io \<times> creation \<Rightarrow> 'w io \<times> creation" where
  "record_failure env sc x = (case record_step env sc (sc_master sc)
       (if cr_attempted (snd x) then ''ZONE_CREATION_DIVERGED'' else ''ZONE_CREATION_BLOCKED'') False (rollback (fst x), snd x) of
     (Inr _, y) \<Rightarrow> y | (Inl _, y) \<Rightarrow> (rollback (fst y), snd y))"

text \<open>What runs inside the scope.\<close>

datatype body = Done "exc option" | GetXml string string "exc + string \<Rightarrow> body" | PostXml string string string "exc + string \<Rightarrow> body"

definition creation_client :: "scope \<Rightarrow> string \<Rightarrow> (radio \<Rightarrow> ('w, string) cact) \<Rightarrow> ('w, string) cact" where
  "creation_client sc identity request = (case find (\<lambda>r. ra_id r = identity) (sc_devices sc) of
     None \<Rightarrow> fail ''ZONE_CREATION_UNSELECTED_TARGET'' | Some r \<Rightarrow> request r)"

definition then_run :: "('s, 'e, 'a) act \<Rightarrow> ('e + 'a \<Rightarrow> ('s, 'e, 'b) act) \<Rightarrow> ('s, 'e, 'b) act" where
  "then_run m k s = (case m s of (a, t) \<Rightarrow> k a t)"

primrec run_body :: "'w env \<Rightarrow> scope \<Rightarrow> body \<Rightarrow> ('w, unit) cact" where
  "run_body env sc (Done e) = (case e of None \<Rightarrow> areturn () | Some x \<Rightarrow> araise x)"
| "run_body env sc (GetXml i path k) = then_run (creation_client sc i (\<lambda>r. read_selected env r path)) (\<lambda>a. run_body env sc (k a))"
| "run_body env sc (PostXml i path x k) = then_run (creation_client sc i (\<lambda>r. post_selected env sc r path x)) (\<lambda>a. run_body env sc (k a))"

definition scope_failure :: "'w env \<Rightarrow> scope \<Rightarrow> string \<Rightarrow> exc \<Rightarrow> ('w, unit) cact" where
  "scope_failure env sc code e x = (let y = record_failure env sc x in
     case e of Raised c b \<Rightarrow> (Inl e, y) | Fault f \<Rightarrow> if f = CancelledError then (Inl e, y) else fail code y)"

definition creation_scope :: "'w env \<Rightarrow> bool \<Rightarrow> scope \<Rightarrow> body \<Rightarrow> ('w, unit) cact" where
  "creation_scope env active sc body =
     abind (each (\<lambda>r. on_io (guard env r)) (sc_devices sc)) (\<lambda>_.
       if sc_devices sc = [] \<or> \<not> distinct (map ra_id (sc_devices sc)) \<or> active then araise (Raised ''ZONE_CREATION_INVALID_SCOPE'' False)
       else abind (on_creation (\<lambda>_. new_creation)) (\<lambda>_.
         abind (catching (prepare_creation env sc) (\<lambda>e. if is_exception e then scope_failure env sc ''ZONE_CREATION_PREFLIGHT_FAILED'' e else araise e)) (\<lambda>_.
           catching (run_body env sc body) (scope_failure env sc ''ZONE_CREATION_FAILED''))))"

section \<open>Requests that write nothing\<close>

text \<open>
  As \<open>yields\<close>, for actions that also change the object of the scope: from the object \<open>c\<close>, the
  result, the object afterwards and the new events are related by \<open>P\<close>.
\<close>

definition cyields :: "creation \<Rightarrow> (exc + 'a \<Rightarrow> creation \<Rightarrow> io_event list \<Rightarrow> bool) \<Rightarrow> ('w, 'a) cact \<Rightarrow> bool" where
  "cyields c P m = (\<forall>s a t d. m (s, c) = (a, (t, d)) \<longrightarrow> extends s t \<and> P a d (added s t))"

lemma cyieldsD: "cyields c P m \<Longrightarrow> m (s, c) = (a, (t, d)) \<Longrightarrow> extends s t \<and> P a d (added s t)"
  by (simp add: cyields_def)

lemma cyieldsI: "(\<And>s a t d. m (s, c) = (a, (t, d)) \<Longrightarrow> extends s t \<and> P a d (added s t)) \<Longrightarrow> cyields c P m"
  by (simp add: cyields_def)

lemma cyields_weaken: "cyields c P m \<Longrightarrow> (\<And>a d w. P a d w \<Longrightarrow> Q a d w) \<Longrightarrow> cyields c Q m"
  by (auto simp: cyields_def)

lemma cyields_bind:
  assumes "cyields c P m" "\<And>a d w. P (Inr a) d w \<Longrightarrow> cyields d (\<lambda>r d' w'. Q r d' (w @ w')) (f a)" "\<And>e d w. P (Inl e) d w \<Longrightarrow> Q (Inl e) d w"
  shows "cyields c Q (abind m f)"
proof (rule cyieldsI)
  fix s a t d
  assume run: "abind m f (s, c) = (a, (t, d))"
  obtain x u d1 where m: "m (s, c) = (x, (u, d1))" by (metis prod.collapse)
  have P: "extends s u" "P x d1 (added s u)" using cyieldsD [OF assms(1) m] by auto
  show "extends s t \<and> Q a d (added s t)"
  proof (cases x)
    case (Inl e)
    then show ?thesis using run m P assms(3) by (auto simp: abind_def)
  next
    case (Inr b)
    then have "f b (u, d1) = (a, (t, d))" using run m by (simp add: abind_def)
    with cyieldsD [OF assms(2)] P Inr have "extends u t" "Q a d (added s u @ added u t)" by auto
    then show ?thesis using added_trans [OF P(1)] by simp
  qed
qed

lemma cyields_catching:
  assumes "cyields c P m" "\<And>e d w. P (Inl e) d w \<Longrightarrow> cyields d (\<lambda>r d' w'. Q r d' (w @ w')) (h e)" "\<And>a d w. P (Inr a) d w \<Longrightarrow> Q (Inr a) d w"
  shows "cyields c Q (catching m h)"
proof (rule cyieldsI)
  fix s a t d
  assume run: "catching m h (s, c) = (a, (t, d))"
  obtain x u d1 where m: "m (s, c) = (x, (u, d1))" by (metis prod.collapse)
  have P: "extends s u" "P x d1 (added s u)" using cyieldsD [OF assms(1) m] by auto
  show "extends s t \<and> Q a d (added s t)"
  proof (cases x)
    case (Inr b)
    then show ?thesis using run m P assms(3) by (auto simp: catching_def)
  next
    case (Inl e)
    then have "h e (u, d1) = (a, (t, d))" using run m by (simp add: catching_def)
    with cyieldsD [OF assms(2)] P Inl have "extends u t" "Q a d (added s u @ added u t)" by auto
    then show ?thesis using added_trans [OF P(1)] by simp
  qed
qed

lemma cyields_on_io: "yields P m \<Longrightarrow> cyields c (\<lambda>a d w. d = c \<and> P a w) (on_io m)"
  by (rule cyieldsI) (auto simp: on_io_def dest: yieldsD split: prod.splits)

lemma cyields_simple:
  "Q (Inr a) c [] \<Longrightarrow> cyields c Q (areturn a)" "Q (Inl e) c [] \<Longrightarrow> cyields c Q (araise e)"
  "Q (Inl (Raised code (cr_attempted c))) c [] \<Longrightarrow> cyields c Q (fail code)" "R (Inr ()) (g c) [] \<Longrightarrow> cyields c R (on_creation g)"
  by (rule cyieldsI; auto simp: areturn_def araise_def fail_def on_creation_def same_log)+

text \<open>Most of a scope: nothing is written, and errors of the scope's own repeat what its object says.\<close>

definition says :: "bool \<Rightarrow> exc + 'a \<Rightarrow> bool" where
  "says b a = (\<forall>k x. a = Inl (Raised k x) \<longrightarrow> x = b)"

definition silent :: "('w, 'a) cact \<Rightarrow> bool" where
  "silent m = (\<forall>c. cyields c (\<lambda>a d w. puts w = [] \<and> cr_attempted d = cr_attempted c \<and> says (cr_attempted c) a) m)"

named_theorems quiet_intros \<open>actions of a scope that write nothing\<close>

lemma silentD: "silent m \<Longrightarrow> cyields c (\<lambda>a d w. puts w = [] \<and> cr_attempted d = cr_attempted c \<and> says (cr_attempted c) a) m"
  by (simp add: silent_def)

lemma says_simps [simp]: "says b (Inr a)" "says b (Inl e) \<longleftrightarrow> (\<forall>k x. e = Raised k x \<longrightarrow> x = b)"
  by (auto simp: says_def)

lemma quiet_bind [quiet_intros]:
  assumes "silent m" "\<And>a. silent (f a)"
  shows "silent (abind m f)"
  unfolding silent_def by (intro allI cyields_bind [OF silentD [OF assms(1)]] cyields_weaken [OF silentD [OF assms(2)]]) (auto simp: says_def)

lemma quiet_catching [quiet_intros]:
  assumes "silent m" "\<And>e. silent (h e)"
  shows "silent (catching m h)"
  unfolding silent_def by (intro allI cyields_catching [OF silentD [OF assms(1)]] cyields_weaken [OF silentD [OF assms(2)]]) (auto simp: says_def)

lemma quiet_basic [quiet_intros]: "silent (areturn a)" "silent (araise (Fault f))" "silent (fail code)"
  unfolding silent_def by (intro allI, rule cyields_simple, simp)+

lemma quiet_creation [quiet_intros]: "(\<And>c. cr_attempted (g c) = cr_attempted c) \<Longrightarrow> silent (on_creation g)"
  unfolding silent_def by (intro allI cyields_simple(4)) simp

lemma quiet_on_io [quiet_intros]: "untouched m \<Longrightarrow> raises_faults m \<Longrightarrow> silent (on_io m)"
  unfolding silent_def by (intro allI cyields_weaken [OF cyields_on_io [OF yields_plain]]) (auto simp: says_def faulty_def)

lemma quiet_split [quiet_intros]:
  "silent m \<Longrightarrow> silent n \<Longrightarrow> silent (if b then m else n)" "(\<And>x y. silent (g x y)) \<Longrightarrow> silent (case p of (x, y) \<Rightarrow> g x y)"
  by (simp_all split: prod.split)

lemma quiet_each [quiet_intros]: "(\<And>x. silent (g x)) \<Longrightarrow> silent (each g xs)"
  by (induction xs) (auto intro!: quiet_intros)

lemma faulty_other [plain_intros]: "faulty (other_value env path t)"
  unfolding other_value_def read_setting_def by (intro plain_intros)

lemma faulty_scoped [plain_intros]: "faulty (scoped_zone env sc t)"
proof -
  have "faulty (case x of Inl _ \<Rightarrow> Inl (Fault OtherError) | Inr _ \<Rightarrow> Inr z)" for x :: "exc + unit" and z :: zone
    by (cases x) auto
  then show ?thesis unfolding scoped_zone_def by (intro plain_intros)
qed

lemma silent_value [untouched_intros, plain_intros]: "untouched (value_of env path t r)" "raises_faults (value_of env path t r)"
  unfolding value_of_def by (intro untouched_intros plain_intros faulty_harmless; simp)+

lemma quiet_check [quiet_intros]: "silent (\<lambda>x. if P x then (Inr (), x) else fail code x)"
  by (auto simp: silent_def fail_def same_log intro!: cyieldsI split: if_splits)

lemma quiet_reraise:
  assumes "silent m" "\<And>e. (\<exists>v. h e = areturn v) \<or> h e = araise e"
  shows "silent (catching m h)"
  unfolding silent_def
proof (intro allI cyields_catching [OF silentD [OF assms(1)]])
  fix c d :: creation and e w
  assume "puts w = [] \<and> cr_attempted d = cr_attempted c \<and> says (cr_attempted c) (Inl e :: exc + 'b)"
  then show "cyields d (\<lambda>a d' w'. puts (w @ w') = [] \<and> cr_attempted d' = cr_attempted c \<and> says (cr_attempted c) a) (h e)"
    using assms(2) [of e] by (auto intro!: cyields_simple)
qed simp

lemma quiet_guard [quiet_intros]: "silent (guard_selected env r)"
  unfolding guard_selected_def by (intro quiet_intros untouched_intros plain_intros)

lemma quiet_read [quiet_intros]: "silent (read_selected env r path)"
  unfolding read_selected_def by (intro quiet_intros untouched_intros plain_intros)

lemma quiet_result [quiet_intros]: "faulty res \<Longrightarrow> silent (on_io (lift_result res))"
  by (intro quiet_intros untouched_intros plain_intros faulty_harmless)

lemma quiet_step [quiet_intros]: "silent (record_step env sc r phase ok)"
proof -
  have "silent (on_io (abind (record_action env row) (\<lambda>_. commit env)))" for row
    by (intro quiet_intros untouched_intros plain_intros)
  then show ?thesis unfolding silent_def cyields_def record_step_def by auto
qed

lemma quiet_state [quiet_intros]: "silent (read_state env sc r)"
  unfolding read_state_def by (intro quiet_intros plain_intros)

lemma quiet_store [quiet_intros]: "silent (store_before env sc before)"
  unfolding store_before_def Let_def by (intro quiet_intros untouched_intros plain_intros) simp_all

lemma quiet_same [quiet_intros]: "silent (same_as_before env state r path)"
  unfolding same_as_before_def by (intro quiet_intros untouched_intros plain_intros)

lemma quiet_prepare [quiet_intros]: "silent (prepare_creation env sc)"
  unfolding prepare_creation_def by (intro quiet_intros) simp_all

lemma quiet_zone_matches [quiet_intros]: "silent (zone_matches env sc expected)"
  unfolding zone_matches_def see_zone_def Let_def by (intro quiet_intros plain_intros) simp_all

lemma faulty_int [plain_intros]: "faulty (int_of_text t)"
  by (simp add: int_of_text_def Let_def value_error_def)

lemma quiet_expected [quiet_intros]: "silent (expected_of env sc r path body)"
  unfolding expected_of_def by (intro quiet_intros untouched_intros plain_intros)

lemma quiet_in_scope [quiet_intros]: "silent (in_scope env sc r)"
  unfolding in_scope_def by (intro quiet_intros plain_intros)

lemma quiet_matches [quiet_intros]: "silent (matches_step env sc r path expected)"
proof -
  have other: "silent (abind (read_selected env r path) (\<lambda>t. abind (on_io (value_of env path t r)) (\<lambda>v. areturn (v = x))))" for x
    by (intro quiet_intros untouched_intros plain_intros)
  show ?thesis unfolding matches_step_def
    by (rule quiet_reraise) (auto split: zone_value.split intro: other quiet_zone_matches)
qed

lemma quiet_settle [quiet_intros]: "silent m \<Longrightarrow> silent (settle_step env m n)"
proof (induction n)
  case (Suc n)
  have "raises_faults (sleep env)" by (simp add: raises_faults_def sleep_def split: prod.split)
  then show ?case using Suc unfolding settle_step.simps by (intro quiet_intros untouched_intros)
qed (simp add: quiet_intros)

section \<open>A verified step\<close>

text \<open>What was read back after a write: the value at one radio, or the zone at every radio.\<close>

definition step_shown :: "'w env \<Rightarrow> scope \<Rightarrow> radio \<Rightarrow> string \<Rightarrow> zone_value \<Rightarrow> io_event list \<Rightarrow> bool" where
  "step_shown env sc r path expected ev = (case expected of
     ZoneState z \<Rightarrow> \<forall>q \<in> set (sc_devices sc). \<exists>t actual. Got (ra_id q) ''/getZone'' (Inr t) \<in> set ev \<and> zone_parse env [] t = Inr actual \<and> zone_seen env sc z q actual
   | v \<Rightarrow> \<exists>t. Got (ra_id r) path (Inr t) \<in> set ev \<and> other_value env path t = Inr v)"

lemma step_shown_mono: "step_shown env sc r path expected ev \<Longrightarrow> set ev \<subseteq> set ev' \<Longrightarrow> step_shown env sc r path expected ev'"
  unfolding step_shown_def by (cases expected) (fastforce simp: subset_iff)+

lemma cyields_both: "cyields c P m \<Longrightarrow> cyields c Q m \<Longrightarrow> cyields c (\<lambda>a d w. P a d w \<and> Q a d w) m"
  by (simp add: cyields_def)

abbreviation quietly :: "creation \<Rightarrow> exc + 'a \<Rightarrow> creation \<Rightarrow> io_event list \<Rightarrow> bool" where
  "quietly c a d w \<equiv> puts w = [] \<and> cr_attempted d = cr_attempted c \<and> says (cr_attempted c) a"

lemma cyields_any: "cyields c (\<lambda>_ _ _. True) m" if "silent m"
  using silentD [OF that] by (rule cyields_weaken) simp

lemma cyields_read:
  assumes "path \<noteq> ''/info''"
  shows "cyields c (\<lambda>a d w. \<forall>t. a = Inr t \<longrightarrow> Got (ra_id r) path (Inr t) \<in> set w) (read_selected env r path)"
proof -
  have g: "cyields c (\<lambda>_ _ _. True) (guard_selected env r)" "cyields c (\<lambda>_ _ _. True) (on_io (get_xml env r ''/info''))"
      "cyields c (\<lambda>_ _ _. True) (on_io (value_of env p t r))" for c p t
    by (intro cyields_any quiet_intros untouched_intros plain_intros)+
  show ?thesis unfolding read_selected_def using assms
    by (auto intro!: cyields_bind [OF g(1)] cyields_bind [OF g(2)] cyields_bind [OF g(3)] cyields_bind [OF cyields_on_io [OF yields_get]] cyields_simple)
qed

lemma cyields_value:
  assumes "path \<noteq> ''/info''"
  shows "cyields c (\<lambda>a d w. \<forall>v. a = Inr v \<longrightarrow> other_value env path t = Inr v) (on_io (value_of env path t r))"
proof -
  have "yields (\<lambda>a w. \<forall>v. a = Inr v \<longrightarrow> other_value env path t = Inr v) (value_of env path t r)"
    unfolding value_of_def using assms
    by (auto intro!: yields_bind [OF yields_result [of "\<lambda>a w. True"]] yields_raise yields_result)
  then show ?thesis by (rule cyields_weaken [OF cyields_on_io]) simp
qed

lemma cyields_see:
  "cyields c (\<lambda>a d w. a = Inr True \<longrightarrow> (\<exists>t actual. Got (ra_id q) ''/getZone'' (Inr t) \<in> set w \<and> zone_parse env [] t = Inr actual \<and> zone_seen env sc z q actual))
     (see_zone env sc z q)"
proof -
  have parse: "cyields c (\<lambda>a d w. zone_parse env [] t = a) (on_io (lift_result (zone_parse env [] t)))" for c t
    by (rule cyields_weaken [OF cyields_on_io [OF yields_result [of "\<lambda>a w. zone_parse env [] t = a"]]]) auto
  have r: "cyields c (\<lambda>a d w. \<forall>t. a = Inr t \<longrightarrow> Got (ra_id q) ''/getZone'' (Inr t) \<in> set w) (read_selected env q ''/getZone'')" for c
    by (rule cyields_read) simp
  show ?thesis unfolding see_zone_def Let_def
    by (intro cyields_bind [OF r] cyields_bind [OF parse] cyields_bind [OF cyields_simple(4) [of "\<lambda>_ _ _. True"]] cyields_simple) auto
qed

lemma cyields_each:
  assumes "\<And>c q. cyields c (\<lambda>a d w. a = Inr True \<longrightarrow> P q w) (g q)" "\<And>q w w'. P q w \<Longrightarrow> set w \<subseteq> set w' \<Longrightarrow> P q w'"
  shows "cyields c (\<lambda>a d w. \<forall>oks. a = Inr oks \<and> list_all id oks \<longrightarrow> (\<forall>q \<in> set qs. P q w)) (each g qs)"
proof (induction qs arbitrary: c)
  case Nil
  show ?case by (simp add: cyields_simple)
next
  case (Cons q qs)
  show ?case unfolding each.simps
    by (intro cyields_bind [OF assms(1)] cyields_bind [OF Cons.IH] cyields_simple) (auto intro: assms(2))
qed

lemma cyields_zone_matches: "cyields c (\<lambda>a d w. a = Inr True \<longrightarrow> step_shown env sc r path (ZoneState z) w) (zone_matches env sc z)"
proof -
  let ?P = "\<lambda>q w. \<exists>t actual. Got (ra_id q) ''/getZone'' (Inr t) \<in> set w \<and> zone_parse env [] t = Inr actual \<and> zone_seen env sc z q actual"
  have e: "cyields c (\<lambda>a d w. \<forall>oks. a = Inr oks \<and> list_all id oks \<longrightarrow> (\<forall>q \<in> set (sc_devices sc). ?P q w)) (each (see_zone env sc z) (sc_devices sc))" for c
    by (rule cyields_each [OF cyields_see]) blast
  have "cyields c (\<lambda>a d w. a = Inr True \<longrightarrow> (\<forall>q \<in> set (sc_devices sc). ?P q w))
      (abind (on_creation (\<lambda>c. c\<lparr>cr_verification := []\<rparr>)) (\<lambda>_. abind (each (see_zone env sc z) (sc_devices sc)) (\<lambda>oks. areturn (list_all id oks))))"
    by (intro cyields_bind [OF cyields_simple(4) [of "\<lambda>_ _ w. w = []"]] cyields_bind [OF e] cyields_simple) auto
  then show ?thesis unfolding zone_matches_def by (auto simp: step_shown_def intro!: cyields_simple elim!: cyields_weaken)
qed

lemma cyields_matches:
  assumes "\<forall>z. expected \<noteq> ZoneState z \<Longrightarrow> path \<noteq> ''/info''"
  shows "cyields c (\<lambda>a d w. a = Inr True \<longrightarrow> step_shown env sc r path expected w) (matches_step env sc r path expected)"
  unfolding matches_step_def
proof (rule cyields_catching)
  show "cyields c (\<lambda>a d w. a = Inr True \<longrightarrow> step_shown env sc r path expected w) (case expected of
        ZoneState z \<Rightarrow> zone_matches env sc z
      | _ \<Rightarrow> abind (read_selected env r path) (\<lambda>t. abind (on_io (value_of env path t r)) (\<lambda>v. areturn (v = expected))))"
  proof (cases "\<exists>z. expected = ZoneState z")
    case True
    then show ?thesis by (auto intro: cyields_zone_matches)
  next
    case False
    then have p: "path \<noteq> ''/info''" using assms by blast
    have "cyields c (\<lambda>a d w. a = Inr True \<longrightarrow> (\<exists>t. Got (ra_id r) path (Inr t) \<in> set w \<and> other_value env path t = Inr expected))
      (abind (read_selected env r path) (\<lambda>t. abind (on_io (value_of env path t r)) (\<lambda>v. areturn (v = expected))))"
      by (intro cyields_bind [OF cyields_read [OF p]] cyields_bind [OF cyields_value [OF p]] cyields_simple) auto
    then show ?thesis using False by (cases expected) (auto simp: step_shown_def)
  qed
qed (auto intro!: cyields_simple)

lemma cyields_settle:
  assumes "\<And>c. cyields c (\<lambda>a d w. a = Inr True \<longrightarrow> R w) m" "\<And>w w'. R w \<Longrightarrow> set w \<subseteq> set w' \<Longrightarrow> R w'"
  shows "cyields c (\<lambda>a d w. a = Inr True \<longrightarrow> R w) (settle_step env m n)"
proof (induction n arbitrary: c)
  case (Suc n)
  have pause: "cyields c (\<lambda>_ _ _. True) (on_io (sleep env))" for c
    by (rule cyields_weaken [OF cyields_on_io [OF yields_untouched]]) (auto intro: untouched_intros)
  have rest: "cyields c (\<lambda>a d w'. a = Inr True \<longrightarrow> R (w @ w')) (if ok then areturn True else if n = 0 then areturn False
      else abind (on_io (sleep env)) (\<lambda>_. settle_step env m n))" if "ok \<longrightarrow> R w" for ok w c
    using that by (auto intro!: cyields_simple cyields_bind [OF pause] cyields_weaken [OF Suc.IH] intro: assms(2))
  show ?case unfolding settle_step.simps by (intro cyields_bind [OF assms(1)] rest) auto
qed (simp add: cyields_simple)

text \<open>The writes a scope admits, with the value each of them asks for.\<close>

definition planned_step :: "'w env \<Rightarrow> scope \<Rightarrow> radio \<Rightarrow> string \<Rightarrow> string \<Rightarrow> zone_value \<Rightarrow> bool" where
  "planned_step env sc r path body expected =
     (if path = ''/setZone'' then ra_id r = ra_id (sc_master sc) \<and> (\<exists>z. expected = ZoneState z \<and> zone_parse env [] body = Inr z \<and>
         zo_master z = upper (ra_id (sc_master sc)) \<and> set (map fst (zo_members z)) = sc_wanted sc)
      else if path = ''/volume'' then \<exists>x i. parse env body = Inr x \<and> xm_tag x = ''volume'' \<and> int_of_text (xm_text x) = Inr i \<and>
         expected = SettingState (SInt i) \<and> 0 \<le> i \<and> i \<le> 100
      else path = ''/rebroadcastlatencymode'' \<and> other_value env path body = Inr expected)"

lemma scoped_zone_Inr:
  assumes "scoped_zone env sc t = Inr z"
  shows "zone_parse env [] t = Inr z"
proof -
  obtain a where a: "zone_parse env [] t = Inr a" "(case require_selected_scope env a (sc_targets sc) of Inl _ \<Rightarrow> Inl (Fault OtherError) | Inr _ \<Rightarrow> Inr a) = Inr z"
    using assms by (auto simp: scoped_zone_def rbind_Inr_iff)
  then show ?thesis by (cases "require_selected_scope env a (sc_targets sc)") auto
qed

lemma cyields_if: "(b \<Longrightarrow> cyields c P m) \<Longrightarrow> (\<not> b \<Longrightarrow> cyields c P n) \<Longrightarrow> cyields c P (if b then m else n)"
  by simp

lemma cyields_expected: "cyields c (\<lambda>a d w. \<forall>v. a = Inr v \<longrightarrow> planned_step env sc r path body v) (expected_of env sc r path body)"
proof -
  have lifted: "cyields c (\<lambda>a d w. res = a) (on_io (lift_result res))" for c and res :: "exc + 'b"
    by (rule cyields_weaken [OF cyields_on_io [OF yields_result [of "\<lambda>a w. res = a"]]]) auto
  have latency: "cyields c (\<lambda>a d w. \<forall>v. a = Inr v \<longrightarrow> planned_step env sc r ''/rebroadcastlatencymode'' body v)
      (on_io (value_of env ''/rebroadcastlatencymode'' body r))" for c
    by (rule cyields_weaken [OF cyields_value]) (auto simp: planned_step_def)
  show ?thesis unfolding expected_of_def
    by (intro cyields_bind [OF lifted] cyields_if cyields_simple)
       (auto simp: planned_step_def dest: scoped_zone_Inr intro: cyields_weaken [OF latency])
qed

text \<open>
  A write in a scope: either nothing is written and an exception says so; or the one planned write
  happens after everything else that could be refused, and a response is only returned when the value
  was read back after it.
\<close>

definition step_end :: "'w env \<Rightarrow> scope \<Rightarrow> radio \<Rightarrow> string \<Rightarrow> string \<Rightarrow> creation \<Rightarrow> exc + string \<Rightarrow> creation \<Rightarrow> io_event list \<Rightarrow> bool" where
  "step_end env sc r path body c a d ev =
     (puts ev = [] \<and> isl a \<and> cr_attempted d = cr_attempted c \<and> says (cr_attempted c) a \<or>
      (\<exists>pre post expected. ev = pre @ Put (ra_id r) path body # post \<and> puts pre = [] \<and> puts post = [] \<and> cr_attempted d \<and> says True a \<and>
         planned_step env sc r path body expected \<and> (\<forall>x. a = Inr x \<longrightarrow> step_shown env sc r path expected post)))"

lemma cyields_send:
  "cyields c (\<lambda>a d w. w = [Put (ra_id r) path body] \<and> d = c \<and> (\<forall>e. a = Inl e \<longrightarrow> e = Fault CancelledError)) (send_step env r path body)"
proof -
  have "yields (\<lambda>a w. w = [Put (ra_id r) path body] \<and> faulty a) (abind (post_xml env r path body) (\<lambda>response. areturn (response, False)))"
    by (intro yields_bind [OF yields_post] yields_return) auto
  then have "yields (\<lambda>a w. w = [Put (ra_id r) path body] \<and> (\<forall>e. a = Inl e \<longrightarrow> e = Fault CancelledError))
      (catching (abind (post_xml env r path body) (\<lambda>response. areturn (response, False)))
       (\<lambda>e. if e = Fault CancelledError then araise e else areturn ([], e \<noteq> Fault TransportError)))"
    by (rule yields_catching) (auto intro!: yields_return yields_raise)
  then show ?thesis unfolding send_step_def by (rule cyields_weaken [OF cyields_on_io]) auto
qed

lemma cyields_checks:
  "cyields c (\<lambda>a d w. quietly c a d w \<and> (\<forall>v. a = Inr v \<longrightarrow> planned_step env sc r path body v)) (step_checks env sc r path body)"
proof (rule cyields_both)
  show "cyields c (quietly c) (step_checks env sc r path body)"
    unfolding step_checks_def by (intro silentD quiet_intros)
  have any: "cyields d (\<lambda>_ _ _. True) (guard_selected env r)" "cyields d (\<lambda>_ _ _. True) (each (in_scope env sc) qs)"
      "cyields d (\<lambda>_ _ _. True) (record_step env sc r phase b)" "cyields d (\<lambda>_ _ _. True) (each (guard_selected env) qs)"
      "cyields d (\<lambda>_ _ _. True) (read_selected env r p)" for d phase b p qs
    by (intro cyields_any quiet_intros)+
  show "cyields c (\<lambda>a d w. \<forall>v. a = Inr v \<longrightarrow> planned_step env sc r path body v) (step_checks env sc r path body)"
    unfolding step_checks_def
    by (intro cyields_bind [OF any(1)] cyields_bind [OF cyields_expected] cyields_bind [OF any(2)] cyields_bind [OF any(3)] cyields_bind [OF any(4)]
        cyields_bind [OF any(5)] cyields_simple) auto
qed

lemma cyields_readback:
  assumes "cr_attempted c" "planned_step env sc r path body expected"
  shows "cyields c (\<lambda>a d w. puts w = [] \<and> cr_attempted d \<and> says True a \<and> (\<forall>x. a = Inr x \<longrightarrow> step_shown env sc r path expected w))
    (step_readback env sc r path expected sent)"
proof -
  have p: "path \<noteq> ''/info''" if "\<forall>z. expected \<noteq> ZoneState z" using assms(2) that by (auto simp: planned_step_def)
  have m: "cyields c (\<lambda>a d w. quietly c a d w \<and> (a = Inr True \<longrightarrow> step_shown env sc r path expected w))
      (settle_step env (matches_step env sc r path expected) 4)" for c
    by (intro cyields_both silentD quiet_settle quiet_matches cyields_settle cyields_matches p) (auto intro: step_shown_mono)
  show ?thesis using assms(1) unfolding step_readback_def
    by (intro cyields_bind [OF m] cyields_if cyields_bind [OF silentD [OF quiet_step]] cyields_simple) (auto intro: step_shown_mono)
qed

lemma post_ends: "cyields c (step_end env sc r path body c) (post_selected env sc r path body)"
  unfolding post_selected_def
proof (rule cyields_bind [OF cyields_checks])
  fix e d w
  assume "quietly c (Inl e) d w \<and> (\<forall>v. Inl e = Inr v \<longrightarrow> planned_step env sc r path body v)"
  then show "step_end env sc r path body c (Inl e) d w" by (simp add: step_end_def)
next
  fix expected d w
  assume "quietly c (Inr expected) d w \<and> (\<forall>v. Inr expected = Inr v \<longrightarrow> planned_step env sc r path body v)"
  then have pre: "puts w = []" "planned_step env sc r path body expected" by auto
  have flag: "cyields d (\<lambda>a d' w. w = [] \<and> cr_attempted d' \<and> a = Inr ()) (on_creation (\<lambda>c. c\<lparr>cr_attempted := True\<rparr>))"
    by (rule cyields_simple) simp
  have written: "step_end env sc r path body c a d' (w @ [] @ [Put (ra_id r) path body] @ w')"
    if "puts w' = []" "cr_attempted d'" "says True a" "\<forall>x. a = Inr x \<longrightarrow> step_shown env sc r path expected w'" for a d' w'
    unfolding step_end_def using pre that by (intro disjI2 exI [of _ w] exI [of _ w'] exI [of _ expected]) simp
  show "cyields d (\<lambda>a d' w'. step_end env sc r path body c a d' (w @ w'))
      (abind (on_creation (\<lambda>c. c\<lparr>cr_attempted := True\<rparr>)) (\<lambda>_. abind (send_step env r path body) (step_readback env sc r path expected)))"
    using pre written written [of "[]"]
    by (intro cyields_bind [OF flag] cyields_bind [OF cyields_send] cyields_weaken [OF cyields_readback]) auto
qed

section \<open>Everything inside a scope\<close>

lemma cyields_then:
  assumes "cyields c P m" "\<And>a d w. P a d w \<Longrightarrow> cyields d (\<lambda>r d' w'. Q r d' (w @ w')) (k a)"
  shows "cyields c Q (then_run m k)"
proof (rule cyieldsI)
  fix s a t d
  assume run: "then_run m k (s, c) = (a, (t, d))"
  obtain x u d1 where m: "m (s, c) = (x, (u, d1))" by (metis prod.collapse)
  have P: "extends s u" "P x d1 (added s u)" using cyieldsD [OF assms(1) m] by auto
  have "k x (u, d1) = (a, (t, d))" using run m by (simp add: then_run_def)
  with cyieldsD [OF assms(2) [OF P(2)]] have "extends u t" "Q a d (added s u @ added u t)" by auto
  then show "extends s t \<and> Q a d (added s t)" using added_trans [OF P(1)] by simp
qed

definition in_plan :: "'w env \<Rightarrow> scope \<Rightarrow> io_event \<Rightarrow> bool" where
  "in_plan env sc e = (\<exists>r path body expected. e = Put (ra_id r) path body \<and> r \<in> set (sc_devices sc) \<and> planned_step env sc r path body expected)"

lemma in_planI: "r \<in> set (sc_devices sc) \<Longrightarrow> planned_step env sc r path body expected \<Longrightarrow> in_plan env sc (Put (ra_id r) path body)"
  by (auto simp: in_plan_def)

text \<open>The exceptions the code inside the scope raises of itself.\<close>

primrec may_raise :: "body \<Rightarrow> exc \<Rightarrow> bool" where
  "may_raise (Done x) = (\<lambda>e. x = Some e)"
| "may_raise (GetXml i path k) = (\<lambda>e. \<exists>a. may_raise (k a) e)"
| "may_raise (PostXml i path x k) = (\<lambda>e. \<exists>a. may_raise (k a) e)"

definition contained :: "'w env \<Rightarrow> scope \<Rightarrow> creation \<Rightarrow> creation \<Rightarrow> io_event list \<Rightarrow> bool" where
  "contained env sc c d w = (cr_attempted d = (cr_attempted c \<or> puts w \<noteq> []) \<and> (\<forall>e \<in> set (puts w). in_plan env sc e))"

lemma contained_trans: "contained env sc c d w \<Longrightarrow> contained env sc d d' w' \<Longrightarrow> contained env sc c d' (w @ w')"
  by (auto simp: contained_def)

lemma quiet_contained: "silent m \<Longrightarrow> cyields c (\<lambda>a d w. contained env sc c d w) m"
  by (rule cyields_weaken [OF silentD]) (auto simp: contained_def)

lemma client_contained:
  assumes "\<And>r. r \<in> set (sc_devices sc) \<Longrightarrow> cyields c (\<lambda>a d w. contained env sc c d w) (request r)"
  shows "cyields c (\<lambda>a d w. contained env sc c d w) (creation_client sc i request)"
proof (cases "find (\<lambda>r. ra_id r = i) (sc_devices sc)")
  case None
  then show ?thesis by (simp add: creation_client_def quiet_contained quiet_basic)
next
  case (Some r)
  then have "r \<in> set (sc_devices sc)" by (auto simp: find_Some_iff)
  then show ?thesis using assms Some by (simp add: creation_client_def)
qed

lemma post_contained:
  assumes "r \<in> set (sc_devices sc)"
  shows "cyields c (\<lambda>a d w. contained env sc c d w) (post_selected env sc r path body)"
proof (rule cyields_weaken [OF post_ends])
  fix a d w
  assume "step_end env sc r path body c a d w"
  then show "contained env sc c d w"
    using assms in_planI unfolding step_end_def contained_def by (auto simp: is_put_def)
qed

lemma body_contained:
  "cyields c (\<lambda>a d w. contained env sc c d w \<and> (\<forall>e. a = Inl e \<longrightarrow> may_raise body e)) (run_body env sc body)"
proof (induction body arbitrary: c)
  case (Done x)
  then show ?case by (auto simp: contained_def intro!: cyields_simple split: option.split)
next
  case (GetXml i path k)
  have r: "cyields c (\<lambda>a d w. contained env sc c d w) (creation_client sc i (\<lambda>r. read_selected env r path))"
    by (intro client_contained quiet_contained quiet_intros)
  show ?case unfolding run_body.simps
    by (rule cyields_then [OF r], rule cyields_weaken [OF GetXml.IH [OF rangeI]]) (auto intro: contained_trans)
next
  case (PostXml i path x k)
  have r: "cyields c (\<lambda>a d w. contained env sc c d w) (creation_client sc i (\<lambda>r. post_selected env sc r path x))"
    by (intro client_contained post_contained)
  show ?case unfolding run_body.simps
    by (rule cyields_then [OF r], rule cyields_weaken [OF PostXml.IH [OF rangeI]]) (auto intro: contained_trans)
qed

lemma failure_recorded:
  assumes "record_failure env sc (s, c) = (t, d)"
  shows "extends s t \<and> puts (added s t) = [] \<and> cr_attempted d = cr_attempted c"
proof -
  have logs: "extends (rollback s) u = extends s u" "added (rollback s) u = added s u" "extends s (rollback u) = extends s u" "added s (rollback u) = added s u" for u
    by (simp_all add: extends_def added_def rollback_def)
  obtain a u d' where r: "record_step env sc (sc_master sc) (if cr_attempted c then ''ZONE_CREATION_DIVERGED'' else ''ZONE_CREATION_BLOCKED'') False (rollback s, c) = (a, (u, d'))"
    by (metis prod.collapse)
  show ?thesis using cyieldsD [OF silentD [OF quiet_step] r] assms r by (cases a) (auto simp: record_failure_def logs)
qed

lemma cyields_failure:
  "cyields c (\<lambda>a d w. puts w = [] \<and> cr_attempted d = cr_attempted c \<and> (\<exists>e'. a = Inl e' \<and>
     (e' = e \<and> (e = Fault CancelledError \<or> (\<exists>k b. e = Raised k b)) \<or> e' = Raised code (cr_attempted c)))) (scope_failure env sc code e)"
proof (rule cyieldsI)
  fix s a t d
  assume run: "scope_failure env sc code e (s, c) = (a, (t, d))"
  obtain u d' where r: "record_failure env sc (s, c) = (u, d')" by (cases "record_failure env sc (s, c)")
  show "extends s t \<and> puts (added s t) = [] \<and> cr_attempted d = cr_attempted c \<and> (\<exists>e'. a = Inl e' \<and>
     (e' = e \<and> (e = Fault CancelledError \<or> (\<exists>k b. e = Raised k b)) \<or> e' = Raised code (cr_attempted c)))"
    using failure_recorded [OF r] run r by (cases e) (auto simp: scope_failure_def fail_def Let_def split: if_splits)
qed

definition scope_end :: "'w env \<Rightarrow> scope \<Rightarrow> body \<Rightarrow> exc + unit \<Rightarrow> io_event list \<Rightarrow> bool" where
  "scope_end env sc body a w = ((\<forall>e \<in> set (puts w). in_plan env sc e) \<and>
     (\<forall>k b. a = Inl (Raised k b) \<longrightarrow> b = (puts w \<noteq> []) \<or> may_raise body (Raised k b)) \<and>
     (\<forall>f. a = Inl (Fault f) \<longrightarrow> f = CancelledError \<or> puts w = []))"

lemma scope_ends: "cyields c (\<lambda>a d w. scope_end env sc body a w) (creation_scope env active sc body)"
proof -
  have one: "cyields c (\<lambda>a d w. puts w = [] \<and> faulty a) (on_io (guard env r))" for c r
    by (rule cyields_weaken [OF cyields_on_io [OF yields_plain]]) (auto intro: untouched_intros plain_intros)
  have g: "cyields c (\<lambda>a d w. puts w = [] \<and> faulty a) (each (\<lambda>r. on_io (guard env r)) qs)" for c qs
  proof (induction qs arbitrary: c)
    case (Cons r qs)
    show ?case unfolding each.simps by (intro cyields_bind [OF one] cyields_bind [OF Cons.IH] cyields_simple) auto
  qed (simp add: cyields_simple)
  have fresh: "cyields c (\<lambda>a d w. a = Inr () \<and> d = new_creation \<and> w = []) (on_creation (\<lambda>_. new_creation))" for c
    by (rule cyields_simple) simp
  have prep: "cyields new_creation (\<lambda>a d w. puts w = [] \<and> \<not> cr_attempted d \<and> (\<forall>e. a = Inl e \<longrightarrow> e = Fault CancelledError \<or> (\<exists>k. e = Raised k False)))
     (catching (prepare_creation env sc) (\<lambda>e. if is_exception e then scope_failure env sc ''ZONE_CREATION_PREFLIGHT_FAILED'' e else araise e))"
    by (rule cyields_catching [OF silentD [OF quiet_prepare]])
       (auto simp: new_creation_def is_exception_def intro!: cyields_if cyields_weaken [OF cyields_failure] cyields_simple)
  have run: "cyields d (\<lambda>a d' w. scope_end env sc body a w) (catching (run_body env sc body) (scope_failure env sc ''ZONE_CREATION_FAILED''))" if "\<not> cr_attempted d" for d
    using that by (intro cyields_catching [OF body_contained] cyields_weaken [OF cyields_failure])
      (auto simp: scope_end_def contained_def)
  show ?thesis unfolding creation_scope_def
    by (intro cyields_bind [OF g] cyields_if cyields_bind [OF fresh] cyields_simple)
       (auto simp: scope_end_def new_creation_def intro!: cyields_bind [OF prep [unfolded new_creation_def]] cyields_weaken [OF run])
qed

section \<open>The intent before each write\<close>

definition kept :: "string option \<Rightarrow> 'w io \<times> creation \<Rightarrow> bool" where
  "kept a x = (safe (fst x) \<and> armed (fst x) = a)"

definition csafe :: "'w io \<times> creation \<Rightarrow> bool" where
  "csafe x = safe (fst x)"

text \<open>Requests that only read leave what the journal permits as it is.\<close>

named_theorems kept_intros \<open>actions of a scope that neither write nor commit\<close>

lemmas kept_basic [kept_intros] = keeps_bind keeps_trivial keeps_split keeps_each keeps_catching

lemma kept_on_io [kept_intros]:
  fixes m :: "('w, 'b) iact"
  assumes "calm m"
  shows "keeps (kept a) (on_io m)"
  unfolding keeps_def
proof (intro allI impI)
  fix x :: "'w io \<times> creation"
  assume "kept a x"
  obtain r t where m: "m (fst x) = (r, t)" by (cases "m (fst x)")
  then show "kept a (snd (on_io m x))" using calm_safe [OF assms m] \<open>kept a x\<close> by (simp add: kept_def on_io_def)
qed

lemma kept_scope [kept_intros]:
  "keeps (kept a) (fail code)" "keeps (kept a) (on_creation g)" "keeps (kept a) (\<lambda>x. if P x then (Inr (), x) else fail code x)"
  by (simp_all add: keeps_def kept_def fail_def on_creation_def)

lemma kept_csafe: "(\<And>a. keeps (kept a) m) \<Longrightarrow> keeps csafe m"
  by (simp add: keeps_def kept_def csafe_def)

lemma calm_value [calm_intros]: "calm (value_of env path t r)"
  unfolding value_of_def by (intro calm_intros)

lemma kept_read [kept_intros]: "keeps (kept a) (guard_selected env r)" "keeps (kept a) (read_selected env r path)"
  unfolding read_selected_def guard_selected_def by (intro kept_intros calm_intros)+

lemma kept_expected [kept_intros]: "keeps (kept a) (expected_of env sc r path body)"
  unfolding expected_of_def by (intro kept_intros calm_intros)

lemma kept_in_scope [kept_intros]: "keeps (kept a) (in_scope env sc r)"
  unfolding in_scope_def by (intro kept_intros calm_intros)

lemma kept_matches [kept_intros]: "keeps (kept a) (matches_step env sc r path expected)"
proof -
  have "keeps (kept a) (zone_matches env sc z)" for z
    unfolding zone_matches_def see_zone_def Let_def by (intro kept_intros calm_intros)
  moreover have "keeps (kept a) (abind (read_selected env r path) (\<lambda>t. abind (on_io (value_of env path t r)) (\<lambda>v. areturn (v = x))))" for x
    by (intro kept_intros calm_intros)
  ultimately show ?thesis unfolding matches_step_def by (intro kept_intros) (simp split: zone_value.split)
qed

lemma kept_settle [kept_intros]: "keeps (kept a) m \<Longrightarrow> keeps (kept a) (settle_step env m n)"
  by (induction n) (auto intro!: kept_intros calm_intros)

text \<open>Steps that commit.\<close>

lemma csafe_step: "keeps csafe (record_step env sc r phase ok)"
proof (rule keepsI)
  fix x :: "'a io \<times> creation"
  assume "csafe x"
  obtain a t where run: "abind (record_action env (creation_row sc (snd x) r phase ok)) (\<lambda>_. commit env) (fst x) = (a, t)" by (metis prod.collapse)
  have "keeps safe (abind (record_action env (creation_row sc (snd x) r phase ok)) (\<lambda>_. commit env))"
    by (intro keeps_bind keeps_calm [OF calm_record] keeps_commit)
  from keepsD [OF this, of "fst x"] show "csafe (snd (record_step env sc r phase ok x))"
    using \<open>csafe x\<close> run by (simp add: csafe_def record_step_def on_io_def)
qed

lemma triple_intent_step:
  "triple csafe (record_step env sc r ''ZONE_CREATION_WRITE_INTENT'' False) (\<lambda>_. kept (Some (take 128 (ra_id r)))) (\<lambda>_. csafe)"
  unfolding triple_def
proof (intro allI impI)
  fix x :: "'a io \<times> creation"
  assume "csafe x"
  let ?row = "creation_row sc (snd x) r ''ZONE_CREATION_WRITE_INTENT'' False"
  have t: "triple safe (abind (record_action env ?row) (\<lambda>_. commit env)) (\<lambda>_ s. safe s \<and> armed s = Some (take 128 (ra_id r))) (\<lambda>_. safe)"
    by (rule triple_record_intent) (simp_all add: creation_row_def INTENTS_def)
  obtain a t where "abind (record_action env ?row) (\<lambda>_. commit env) (fst x) = (a, t)" by (metis prod.collapse)
  then show "case record_step env sc r ''ZONE_CREATION_WRITE_INTENT'' False x of (Inl e, t) \<Rightarrow> csafe t | (Inr b, t) \<Rightarrow> kept (Some (take 128 (ra_id r))) t"
    using triple_apply [OF t, of "fst x" a t] \<open>csafe x\<close> by (cases a) (simp_all add: record_step_def on_io_def kept_def csafe_def)
qed

lemma triple_kept: "keeps (kept a) m \<Longrightarrow> triple (kept a) m (\<lambda>_. kept a) (\<lambda>_. csafe)"
  by (rule triple_weaken [OF triple_keeps [of "kept a"]]) (auto simp: kept_def csafe_def)

lemma triple_csafe: "(\<And>a. keeps (kept a) m) \<Longrightarrow> triple csafe m (\<lambda>_. csafe) (\<lambda>_. csafe)"
  by (rule triple_keeps [OF kept_csafe])

lemma safe_post: "keeps csafe (post_selected env sc r path body)"
proof -
  let ?A = "kept (Some (take 128 (ra_id r))) :: 'a io \<times> creation \<Rightarrow> bool"
  have checks: "triple csafe (step_checks env sc r path body) (\<lambda>_. ?A) (\<lambda>_. csafe)" unfolding step_checks_def
    by (intro triple_bind [OF triple_csafe] triple_bind [OF triple_intent_step] triple_bind [OF triple_kept] triple_return kept_intros)
  have flag: "triple ?A (on_creation (\<lambda>c. c\<lparr>cr_attempted := True\<rparr>)) (\<lambda>_. ?A) (\<lambda>_. csafe)" by (intro triple_kept kept_intros)
  have sent: "triple ?A (send_step env r path body) (\<lambda>_. csafe) (\<lambda>_. csafe)"
  proof -
    have "triple (\<lambda>s. safe s \<and> armed s = Some (take 128 (ra_id r))) (catching (abind (post_xml env r path body) (\<lambda>response. areturn (response, False)))
       (\<lambda>e. if e = Fault CancelledError then araise e else areturn ([], e \<noteq> Fault TransportError))) (\<lambda>_. safe) (\<lambda>_. safe)"
      by (rule triple_catching [OF triple_bind [OF triple_post]]) (auto intro!: triple_return triple_raise)
    then show ?thesis unfolding triple_def send_step_def kept_def csafe_def on_io_def by (fastforce split: prod.splits sum.splits)
  qed
  have readback: "triple csafe (step_readback env sc r path expected x) (\<lambda>_. csafe) (\<lambda>_. csafe)" for expected x
    unfolding step_readback_def by (intro triple_keeps keeps_bind keeps_split keeps_trivial csafe_step kept_csafe kept_intros)
  show ?thesis unfolding post_selected_def
    by (rule keeps_triple, intro triple_bind [OF checks] triple_bind [OF flag] triple_bind [OF sent] readback)
qed

lemma safe_body: "keeps csafe (run_body env sc body)"
proof (induction body)
  case (Done x)
  show ?case by (simp add: keeps_trivial split: option.split)
next
  case (GetXml i path k)
  have "keeps csafe (creation_client sc i (\<lambda>r. read_selected env r path))"
    by (auto simp: creation_client_def intro!: kept_csafe kept_intros split: option.split)
  then show ?case using GetXml.IH [OF rangeI] by (simp add: keeps_def then_run_def split: prod.split) (metis snd_conv)
next
  case (PostXml i path x k)
  have "keeps csafe (creation_client sc i (\<lambda>r. post_selected env sc r path x))"
    by (auto simp: creation_client_def intro!: safe_post kept_csafe kept_intros split: option.split)
  then show ?case using PostXml.IH [OF rangeI] by (simp add: keeps_def then_run_def split: prod.split) (metis snd_conv)
qed

lemma safe_creation_scope: "keeps csafe (creation_scope env active sc body)"
proof -
  have failure: "keeps csafe (scope_failure env sc code e)" for code e
  proof (rule keepsI)
    fix x :: "'a io \<times> creation"
    assume "csafe x"
    then have "csafe (rollback (fst x), snd x)" by (simp add: csafe_def)
    let ?m = "record_step env sc (sc_master sc) (if cr_attempted (snd x) then ''ZONE_CREATION_DIVERGED'' else ''ZONE_CREATION_BLOCKED'') False"
    obtain a y where run: "?m (rollback (fst x), snd x) = (a, y)" by (cases "?m (rollback (fst x), snd x)")
    have "csafe y" using keepsD [OF csafe_step, OF \<open>csafe (rollback (fst x), snd x)\<close>] run by (metis snd_conv)
    then have "csafe (record_failure env sc x)" using run by (cases a) (simp_all add: record_failure_def csafe_def)
    then show "csafe (snd (scope_failure env sc code e x))" by (simp add: scope_failure_def Let_def fail_def split: exc.split)
  qed
  have prep: "keeps csafe (prepare_creation env sc)"
    unfolding prepare_creation_def store_before_def read_state_def same_as_before_def Let_def
    by (intro keeps_bind keeps_each keeps_trivial csafe_step) (intro kept_csafe kept_intros calm_intros)+
  show ?thesis unfolding creation_scope_def
    by (intro prep keeps_bind keeps_split keeps_catching keeps_trivial safe_body failure) (intro kept_csafe kept_intros calm_intros)+
qed

section \<open>Property\<close>


text \<open>One radio whose volume is set to 20 inside a scope.\<close>

definition example_volume :: "string \<Rightarrow> xml option" where
  "example_volume t = (if t = ''/getZone'' then Some (Elem ''zone'' [] [] [])
     else if t = ''/volume'' then Some (Elem ''volume'' [] [] [Elem ''actualvolume'' [] ''10'' []])
     else if t = ''louder'' then Some (Elem ''volume'' [] [] [Elem ''actualvolume'' [] ''20'' []])
     else if t = ''/rebroadcastlatencymode'' then Some (Elem ''rebroadcastlatencymode'' [(''mode'', ''SYNC_TO_ZONE'')] [] [])
     else if t = ''body'' then Some (Elem ''volume'' [] ''20'' []) else None)"

definition example_answer :: "string \<Rightarrow> nat \<Rightarrow> string" where
  "example_answer path w = (if path = ''/volume'' \<and> w \<noteq> 0 then ''louder'' else path)"

definition example_volume_env :: "nat env" where
  "example_volume_env = example_env (\<lambda>_. example_answer) example_volume"

definition example_scope :: scope where
  "example_scope = \<lparr>sc_job = ''job'', sc_devices = [example_radio ''A1'' ''8.8.8.8'']\<rparr>"

definition example_body :: body where
  "example_body = PostXml ''A1'' ''/volume'' ''body'' (\<lambda>_. Done None)"

text \<open>An action that returns the value \<open>v\<close>, takes the count of writes from \<open>n\<close> to \<open>n'\<close> and logs the writes \<open>ps\<close>.\<close>

definition goes :: "nat \<Rightarrow> (nat, 'a) cact \<Rightarrow> 'a \<Rightarrow> nat \<Rightarrow> io_event list \<Rightarrow> bool" where
  "goes n m v n' ps = (\<forall>s c. io_world s = n \<longrightarrow> (\<exists>t d. m (s, c) = (Inr v, (t, d)) \<and> io_world t = n' \<and> puts (io_log t) = puts (io_log s) @ ps))"

lemma goesD: "goes n m v n' ps \<Longrightarrow> io_world s = n \<Longrightarrow> \<exists>t d. m (s, c) = (Inr v, (t, d)) \<and> io_world t = n' \<and> puts (io_log t) = puts (io_log s) @ ps"
  by (simp add: goes_def)

lemma goes_then:
  assumes "goes n m v k ps" "goes k (f (Inr v)) u n' qs" "ps @ qs = rs"
  shows "goes n (then_run m f) u n' rs"
  unfolding goes_def
proof (intro allI impI)
  fix s :: "nat io" and c
  assume "io_world s = n"
  then obtain t d where t: "m (s, c) = (Inr v, (t, d))" "io_world t = k" "puts (io_log t) = puts (io_log s) @ ps" using goesD [OF assms(1)] by blast
  obtain t' d' where "f (Inr v) (t, d) = (Inr u, (t', d'))" "io_world t' = n'" "puts (io_log t') = puts (io_log t) @ qs" using goesD [OF assms(2) t(2)] by blast
  then show "\<exists>t d. then_run m f (s, c) = (Inr u, t, d) \<and> io_world t = n' \<and> puts (io_log t) = puts (io_log s) @ rs"
    using t assms(3) by (auto simp: then_run_def)
qed

lemma goes_bind: "goes n m v k ps \<Longrightarrow> goes k (f v) u n' qs \<Longrightarrow> ps @ qs = rs \<Longrightarrow> goes n (abind m f) u n' rs"
  using goes_then [of n m v k ps "\<lambda>a. case a of Inl e \<Rightarrow> araise e | Inr b \<Rightarrow> f b" u n' qs rs]
  by (simp add: goes_def then_run_def abind_def araise_def split_def sum.case_distrib [of "\<lambda>g. g _"] cong: sum.case_cong)

lemma goes_catching: "goes n m v n' ps \<Longrightarrow> goes n (catching m h) v n' ps"
  unfolding goes_def catching_def by (metis (no_types, lifting) case_prod_conv old.sum.simps(6))

lemma goes_simple: "goes n (areturn v) v n []" "goes n (on_creation g) () n []"
  by (simp_all add: goes_def areturn_def on_creation_def)

lemma goes_pure: "(\<And>s. m s = (Inr v, s)) \<Longrightarrow> goes n (on_io m) v n []"
  by (simp add: goes_def on_io_def)

abbreviation "the_radio \<equiv> example_radio ''A1'' ''8.8.8.8''"

abbreviation "the_env \<equiv> example_volume_env"

lemma example_value:
  "value_of the_env ''/info'' ''info A1'' the_radio s = (Inr (ProfileKey (sp_key ST20_LEGACY_PROFILE)), s)"
  "value_of the_env ''/getZone'' ''/getZone'' the_radio s = (Inr (ZoneState \<lparr>zo_master = [], zo_members = []\<rparr>), s)"
  "value_of the_env ''/volume'' (example_answer ''/volume'' n) the_radio s = (Inr (SettingState (SInt (if n = 0 then 10 else 20))), s)"
  "value_of the_env ''/rebroadcastlatencymode'' ''/rebroadcastlatencymode'' the_radio s = (Inr (SettingState (SStr ''SYNC_TO_ZONE'')), s)"
proof -
  have r: "the_radio \<in> set example_radios" by (simp add: example_radios_def)
  show "value_of the_env ''/info'' ''info A1'' the_radio s = (Inr (ProfileKey (sp_key ST20_LEGACY_PROFILE)), s)"
    using example_identity(1) [OF r]
    by (simp add: value_of_def abind_def lift_result_def parse_def areturn_def example_volume_env_def example_parse_def example_info_def claims_other_def attr_def upper_def strip_def is_space_def)
  show "value_of the_env ''/getZone'' ''/getZone'' the_radio s = (Inr (ZoneState \<lparr>zo_master = [], zo_members = []\<rparr>), s)"
    by (simp add: value_of_def abind_def lift_result_def parse_def example_volume_env_def example_parse_def example_volume_def claims_other_def attr_def other_value_def
        zone_parse_def zone_of_xml_def attr_or_def findall_def strip_def upper_def)
  have "setting_of_xml ''volume'' (Elem ''volume'' [] [] [Elem ''actualvolume'' [] ''10'' []]) = Inr (SInt 10)"
    "setting_of_xml ''volume'' (Elem ''volume'' [] [] [Elem ''actualvolume'' [] ''20'' []]) = Inr (SInt 20)"
    "setting_of_xml ''rebroadcastlatencymode'' (Elem ''rebroadcastlatencymode'' [(''mode'', ''SYNC_TO_ZONE'')] [] []) = Inr (SStr ''SYNC_TO_ZONE'')"
    by code_simp+
  then show "value_of the_env ''/volume'' (example_answer ''/volume'' n) the_radio s = (Inr (SettingState (SInt (if n = 0 then 10 else 20))), s)"
    "value_of the_env ''/rebroadcastlatencymode'' ''/rebroadcastlatencymode'' the_radio s = (Inr (SettingState (SStr ''SYNC_TO_ZONE'')), s)"
    by (simp_all add: value_of_def abind_def lift_result_def parse_def example_volume_env_def example_parse_def example_volume_def example_answer_def claims_other_def attr_def
        other_value_def read_setting_def)
qed

lemma goes_guard: "goes n (guard_selected the_env r) () n []"
  by (simp add: goes_def guard_selected_def example_volume_env_def abind_def on_io_def guard_def lift_def note_event_def puts_def is_put_def)

lemma goes_get: "goes n (on_io (get_xml the_env the_radio path)) (if path = ''/info'' then ''info A1'' else example_answer path n) n []"
  by (simp add: goes_def on_io_def get_xml_def lift_def note_event_def example_volume_env_def puts_def is_put_def)

lemma goes_record: "goes n (record_step the_env sc r phase ok) () n []"
  by (simp add: goes_def record_step_def on_io_def abind_def record_action_def add_row_def commit_def lift_def note_event_def example_volume_env_def puts_def is_put_def areturn_def)

definition example_text :: "string \<Rightarrow> nat \<Rightarrow> string" where
  "example_text path n = (if path = ''/info'' then ''info A1'' else example_answer path n)"

definition example_reads :: "string \<Rightarrow> nat \<Rightarrow> zone_value" where
  "example_reads path n = (if path = ''/info'' then ProfileKey (sp_key ST20_LEGACY_PROFILE) else if path = ''/getZone'' then ZoneState \<lparr>zo_master = [], zo_members = []\<rparr>
     else if path = ''/volume'' then SettingState (SInt (if n = 0 then 10 else 20)) else SettingState (SStr ''SYNC_TO_ZONE''))"

lemma example_answers: "example_answer ''/getZone'' n = ''/getZone''" "example_answer ''/rebroadcastlatencymode'' n = ''/rebroadcastlatencymode''"
  by (simp_all add: example_answer_def)

lemma goes_value:
  assumes "path \<in> set READS"
  shows "goes n (on_io (value_of the_env path (example_text path m) the_radio)) (example_reads path m) n []"
proof (rule goes_pure)
  show "value_of the_env path (example_text path m) the_radio s = (Inr (example_reads path m), s)" for s
  proof -
    have "path = ''/info'' \<or> path = ''/getZone'' \<or> path = ''/volume'' \<or> path = ''/rebroadcastlatencymode''" using assms by (simp add: READS_def)
    then show ?thesis by (elim disjE) (simp_all add: example_text_def example_reads_def example_answers example_value)
  qed
qed

lemma goes_read:
  assumes "path \<in> set READS"
  shows "goes n (read_selected the_env the_radio path) (example_text path n) n []"
proof -
  have info: "goes n (on_io (value_of the_env ''/info'' ''info A1'' the_radio)) (example_reads ''/info'' n) n []"
    using goes_value [of "''/info''" n n] by (simp add: READS_def example_text_def)
  have get: "goes n (on_io (get_xml the_env the_radio p)) (example_text p n) n []" for p using goes_get by (simp add: example_text_def)
  have get_info: "goes n (on_io (get_xml the_env the_radio ''/info'')) ''info A1'' n []" using get [of "''/info''"] by (simp add: example_text_def)
  have last: "goes n (abind (on_io (get_xml the_env the_radio path)) (\<lambda>t. if path \<in> set READS then abind (on_io (value_of the_env path t the_radio)) (\<lambda>_. areturn t) else areturn t))
      (example_text path n) n []"
    using assms by (intro goes_bind [OF get]) (auto intro!: goes_bind [OF goes_value] goes_simple)
  have "goes n (if path = ''/info'' then areturn ''info A1'' else abind (on_io (get_xml the_env the_radio path)) (\<lambda>t.
      if path \<in> set READS then abind (on_io (value_of the_env path t the_radio)) (\<lambda>_. areturn t) else areturn t)) (example_text path n) n []"
  proof (cases "path = ''/info''")
    case True
    then show ?thesis by (simp add: example_text_def goes_simple)
  next
    case False
    show ?thesis unfolding if_not_P [OF False] by (rule last)
  qed
  then show ?thesis unfolding read_selected_def
    by (intro goes_bind [OF goes_guard] goes_bind [OF get_info] goes_bind [OF info]) auto
qed

lemma goes_each: "(\<And>x. x \<in> set xs \<Longrightarrow> goes n (g x) (h x) n []) \<Longrightarrow> goes n (each g xs) (map h xs) n []"
  by (induction xs) (auto intro!: goes_simple goes_bind)

lemma example_scoped: "scoped_zone the_env example_scope ''/getZone'' = Inr \<lparr>zo_master = [], zo_members = []\<rparr>"
  by (simp add: scoped_zone_def parse_def example_volume_env_def example_parse_def example_volume_def zone_parse_def zone_of_xml_def attr_def attr_or_def findall_def strip_def upper_def
      require_selected_scope_def Let_def)

lemma goes_scoped: "goes n (on_io (lift_result (scoped_zone the_env example_scope ''/getZone''))) \<lparr>zo_master = [], zo_members = []\<rparr> n []"
  by (rule goes_pure) (simp add: example_scoped lift_result_def)

lemma goes_state: "goes n (read_state the_env example_scope the_radio) (''A1'', map (\<lambda>p. (p, example_text p n)) READS) n []"
proof -
  have "goes n (each (\<lambda>p. abind (read_selected the_env the_radio p) (\<lambda>t. areturn (p, t))) READS) (map (\<lambda>p. (p, example_text p n)) READS) n []"
    by (rule goes_each) (auto intro!: goes_bind [OF goes_read] goes_simple)
  moreover have "map_of (map (\<lambda>p. (p, example_text p n)) READS) ''/getZone'' = Some ''/getZone''"
    by (simp add: READS_def example_text_def example_answer_def)
  ultimately show ?thesis unfolding read_state_def
    by (auto intro!: goes_bind [of n _ "map (\<lambda>p. (p, example_text p n)) READS"] goes_bind [OF goes_scoped] goes_simple)
qed

lemma goes_store: "goes n (store_before the_env example_scope before) () n []"
proof -
  have row: "goes n (on_io (add_row the_env f)) 7 n []" for f
    by (simp add: goes_def on_io_def add_row_def lift_def note_event_def example_volume_env_def puts_def is_put_def)
  have intact: "goes n (\<lambda>x. if stored_intact the_env 7 (en_sha the_env t) (fst x) then (Inr (), x) else fail code x) () n []" for t code
    by (simp add: goes_def stored_intact_def example_volume_env_def)
  show ?thesis unfolding store_before_def Let_def
    by (intro goes_bind [OF row] goes_bind [OF goes_simple(2)] goes_bind [OF goes_record]) (auto simp: intact)
qed

lemma goes_same:
  assumes "path \<in> set READS"
  shows "goes n (same_as_before the_env (map (\<lambda>p. (p, example_text p n)) READS) the_radio path) () n []"
proof -
  have "map_of (map (\<lambda>p. (p, example_text p n)) READS) path = Some (example_text path n)"
    using assms by (auto simp: READS_def)
  then show ?thesis unfolding same_as_before_def
    by (intro goes_bind [OF goes_read [OF assms]] goes_bind [OF goes_value [OF assms]]) (auto intro!: goes_bind [OF goes_value [OF assms]] goes_simple)
qed

lemma goes_prepare: "goes n (prepare_creation the_env example_scope) () n []"
proof -
  have ds: "sc_devices example_scope = [the_radio]" by (simp add: example_scope_def)
  have same: "goes n (each (same_as_before the_env (map (\<lambda>p. (p, example_text p n)) READS) the_radio) READS) (map (\<lambda>_. ()) READS) n []"
    by (rule goes_each) (rule goes_same)
  have again: "goes n (each (\<lambda>r. each (same_as_before the_env (case map_of [(''A1'', map (\<lambda>p. (p, example_text p n)) READS)] (ra_id r) of Some s \<Rightarrow> s | None \<Rightarrow> []) r) READS) [the_radio])
      [map (\<lambda>_. ()) READS] n []"
    using goes_each [of "[the_radio]" n _ "\<lambda>_. map (\<lambda>_. ()) READS"] same by simp
  have guards: "goes n (each (guard_selected the_env) [the_radio]) [()] n []" using goes_each [of "[the_radio]" n _ "\<lambda>_. ()"] goes_guard by simp
  have state: "goes n (each (read_state the_env example_scope) [the_radio]) [(''A1'', map (\<lambda>p. (p, example_text p n)) READS)] n []"
    using goes_each [of "[the_radio]" n _ "\<lambda>_. (''A1'', map (\<lambda>p. (p, example_text p n)) READS)"] goes_state by simp
  show ?thesis unfolding prepare_creation_def ds
    by (intro goes_bind [OF guards] goes_bind [OF state] goes_bind [OF goes_simple(2)] goes_bind [OF goes_store] goes_bind [OF again]) (auto simp: goes_simple)
qed

lemma goes_post: "goes 0 (post_selected the_env example_scope the_radio ''/volume'' ''body'') ''ok'' 1 [Put ''A1'' ''/volume'' ''body'']"
proof -
  have ds: "sc_devices example_scope = [the_radio]" by (simp add: example_scope_def)
  have z: "''/getZone'' \<in> set READS" "example_text ''/getZone'' 0 = ''/getZone''" and i: "''/info'' \<in> set READS" and v: "''/volume'' \<in> set READS"
    by (simp_all add: READS_def example_text_def example_answers)
  have "int_of_text ''20'' = Inr 20" by code_simp
  moreover have "parse the_env ''body'' = Inr (Elem ''volume'' [] ''20'' [])" by (simp add: parse_def example_volume_env_def example_parse_def example_volume_def)
  ultimately have e: "goes 0 (expected_of the_env example_scope the_radio ''/volume'' ''body'') (SettingState (SInt 20)) 0 []"
    by (simp add: goes_def expected_of_def abind_def on_io_def lift_result_def areturn_def)
  have "goes 0 (in_scope the_env example_scope the_radio) () 0 []" unfolding in_scope_def
    by (intro goes_bind [OF goes_read [OF z(1)]] goes_simple) (auto simp: z(2) intro!: goes_bind [OF goes_scoped] goes_simple)
  then have in_zone: "goes 0 (each (in_scope the_env example_scope) [the_radio]) [()] 0 []"
    using goes_each [of "[the_radio]" 0 _ "\<lambda>_. ()"] by simp
  have guards: "goes 0 (each (guard_selected the_env) [the_radio]) [()] 0 []" using goes_each [of "[the_radio]" 0 _ "\<lambda>_. ()"] goes_guard by simp
  have checks: "goes 0 (step_checks the_env example_scope the_radio ''/volume'' ''body'') (SettingState (SInt 20)) 0 []"
    unfolding step_checks_def ds
    by (intro goes_bind [OF goes_guard] goes_bind [OF e] goes_bind [OF in_zone] goes_bind [OF goes_record] goes_bind [OF guards] goes_bind [OF goes_read [OF i]]) (auto simp: goes_simple)
  have send: "goes 0 (send_step the_env the_radio ''/volume'' ''body'') (''ok'', False) 1 [Put ''A1'' ''/volume'' ''body'']"
    by (simp add: goes_def send_step_def on_io_def catching_def abind_def post_xml_def lift_def note_event_def example_volume_env_def areturn_def puts_def is_put_def)
  have "goes 1 (matches_step the_env example_scope the_radio ''/volume'' (SettingState (SInt 20))) True 1 []"
    unfolding matches_step_def zone_value.case
    by (intro goes_catching goes_bind [OF goes_read [OF v]] goes_bind [OF goes_value [OF v]]) (auto simp: example_reads_def goes_simple)
  then have settled: "goes 1 (settle_step the_env (matches_step the_env example_scope the_radio ''/volume'' (SettingState (SInt 20))) 4) True 1 []"
    unfolding numeral_eq_Suc pred_numeral_simps settle_step.simps by (rule goes_bind) (auto simp: goes_simple)
  have readback: "goes 1 (step_readback the_env example_scope the_radio ''/volume'' (SettingState (SInt 20)) (''ok'', False)) ''ok'' 1 []"
    unfolding step_readback_def by (intro goes_bind [OF settled]) (auto intro!: goes_bind [OF goes_record] goes_simple)
  show ?thesis unfolding post_selected_def
    by (intro goes_bind [OF checks] goes_bind [OF goes_simple(2)] goes_bind [OF send]) (auto simp: readback [simplified])
qed

lemma example_run: "goes 0 (creation_scope the_env False example_scope example_body) () 1 [Put ''A1'' ''/volume'' ''body'']"
proof -
  have ds: "sc_devices example_scope = [the_radio]" by (simp add: example_scope_def)
  have "goes 0 (on_io (guard the_env the_radio)) the_radio 0 []"
    by (simp add: goes_def on_io_def guard_def lift_def note_event_def example_volume_env_def puts_def is_put_def)
  then have guards: "goes 0 (each (\<lambda>r. on_io (guard the_env r)) [the_radio]) [the_radio] 0 []"
    using goes_each [of "[the_radio]" 0 _ "\<lambda>r. r"] by simp
  have "goes 0 (creation_client example_scope ''A1'' (\<lambda>r. post_selected the_env example_scope r ''/volume'' ''body'')) ''ok'' 1 [Put ''A1'' ''/volume'' ''body'']"
    using goes_post by (simp add: creation_client_def ds)
  then have body: "goes 0 (run_body the_env example_scope example_body) () 1 [Put ''A1'' ''/volume'' ''body'']"
    unfolding example_body_def run_body.simps by (rule goes_then) (auto simp: goes_simple)
  have rest: "goes 0 (abind (on_creation (\<lambda>_. new_creation)) (\<lambda>_. abind (catching (prepare_creation the_env example_scope) h) (\<lambda>_. catching (run_body the_env example_scope example_body) g)))
      () 1 [Put ''A1'' ''/volume'' ''body'']" for h g
    by (intro goes_bind [OF goes_simple(2)] goes_bind [OF goes_catching [OF goes_prepare]] goes_catching) (auto simp: body [simplified])
  have "\<not> ([the_radio] = [] \<or> \<not> distinct (map ra_id [the_radio]) \<or> False)" by simp
  then show ?thesis unfolding creation_scope_def ds
    by (intro goes_bind [OF guards]) (simp_all only: if_False rest append_Nil)
qed


end
