(* ===== verification/RadioTransactions.thy ===== *)
theory RadioTransactions
  imports DirectSelection ZoneCreation
begin

text \<open>
  The transactions that write to radios, as the steps of one history: creating a zone, changing one, settings
  of one radio or of several, selecting a station. Each of them keeps the contract of the journal, so that it
  holds for any sequence of them, over any behaviour of radios and database.
\<close>

datatype radio_job =
    ChangeZone string radio zone "radio option"
  | ApplySettings string "setting_plan list" "(string \<times> pyval) list option" "string option" radio
  | ApplySettingsBatch "radio \<Rightarrow> string" setting_plan "radio list"
  | SelectDirect string string "selection option option" radio
  | CreateZone bool scope body

definition create_zone :: "'w env \<Rightarrow> bool \<Rightarrow> scope \<Rightarrow> body \<Rightarrow> ('w, unit) iact" where
  "create_zone env active sc body s = (case creation_scope env active sc body (s, new_creation) of (a, (t, _)) \<Rightarrow> (a, t))"

lemma safe_create_zone: "keeps safe (create_zone env active sc body)"
proof (rule keepsI)
  fix s :: "'a io"
  assume "safe s"
  then have "csafe (s, new_creation)" by (simp add: csafe_def)
  then have "csafe (snd (creation_scope env active sc body (s, new_creation)))" by (rule keepsD [OF safe_creation_scope])
  then show "safe (snd (create_zone env active sc body s))" by (simp add: create_zone_def csafe_def split_def)
qed

fun run_job :: "'w env \<Rightarrow> radio_job \<Rightarrow> ('w, unit) iact" where
  "run_job env (ChangeZone job master expected remove) = abind (change_zone env job master expected remove) (\<lambda>_. areturn ())"
| "run_job env (ApplySettings job plans expected art r) = abind (apply_settings env job plans expected art r) (\<lambda>_. areturn ())"
| "run_job env (ApplySettingsBatch job p devices) = abind (apply_settings_batch env job p devices) (\<lambda>_. areturn ())"
| "run_job env (SelectDirect job xml expected r) = abind (select_direct env job xml expected r) (\<lambda>_. areturn ())"
| "run_job env (CreateZone active sc body) = create_zone env active sc body"

lemma safe_run_job: "keeps safe (run_job env j)"
  by (cases j) (auto intro!: keeps_bind keeps_trivial safe_change_zone safe_apply_settings safe_apply_settings_batch safe_select_direct safe_create_zone)

interpretation jobs: radio_transaction "run_job env" for env
  by unfold_locales (rule safe_run_job)

definition run_jobs :: "'w env \<Rightarrow> radio_job list \<Rightarrow> 'w io \<Rightarrow> 'w io" where
  "run_jobs env js s = fold (\<lambda>j s. snd (run_job env j s)) js s"

lemma run_jobs_after: "run_jobs env js s = jobs.after_jobs env js s"
  by (simp add: run_jobs_def jobs.after_jobs_def)

text \<open>
  C3. Every write to a radio is on record before it happens. In any history of zones created and
  changed, settings and selections, whatever radios and database do and whatever fails or is cancelled, each write is
  preceded by the commit of an intent that names its radio, and no other write lies between the two:
  an intent is used once.
\<close>

theorem writes_have_intents:
  assumes "io_log s = []" "io_log (run_jobs env js s) = pre @ Put d path body # post"
  shows "\<exists>xs rows ys. pre = xs @ Committed rows # ys \<and> puts ys = [] \<and>
    (\<exists>row. ActionRow row \<in> set rows \<and> aj_phase row \<in> set INTENTS \<and> aj_device row = take 128 d)"
proof -
  have "safe s" using assms(1) by (simp add: safe_def)
  then obtain xs rows ys where "pre = xs @ Committed rows # ys" "take 128 d \<in> set (intents rows)" "\<not> list_ex is_put ys"
    using jobs.write_has_intent assms(2) unfolding run_jobs_after by blast
  then show ?thesis using intents_row [of "take 128 d" rows] unfolding puts_none by blast
qed

theorem writes_have_intents_witness:
  "\<exists>pre post xs rows ys row. io_log (run_jobs example_select_env [SelectDirect ''job'' ''item'' None (example_radio ''A1'' ''8.8.8.8'')] example_start) =
     pre @ Put ''A1'' ''/select'' ''item'' # post \<and> pre = xs @ Committed rows # ys \<and> ActionRow row \<in> set rows \<and> aj_device row = ''A1''"
proof -
  let ?r = "example_radio ''A1'' ''8.8.8.8''" and ?e = example_select_env
  obtain res t where run: "select_direct ?e ''job'' ''item'' None ?r example_start = (Inr res, t)" using example_selected .
  have g: "fst (en_guard ?e ?r w) = Inr ?r" for w by (simp add: example_select_env_def)
  have start: "io_log example_start = []" by (simp add: example_start_def)
  obtain pre post where log: "io_log t = pre @ Put ''A1'' ''/select'' ''item'' # post"
    using yieldsD [OF select_direct_end run] unfolding selection_shown_def g by (auto simp: extends_iff added_append start)
  have jobs: "io_log (run_jobs ?e [SelectDirect ''job'' ''item'' None ?r] example_start) = io_log t"
    by (simp add: run_jobs_def abind_def run areturn_def)
  have "\<exists>xs rows ys. pre = xs @ Committed rows # ys \<and> puts ys = [] \<and>
      (\<exists>row. ActionRow row \<in> set rows \<and> aj_phase row \<in> set INTENTS \<and> aj_device row = take 128 ''A1'')"
    using log by (intro writes_have_intents [OF start, of ?e "[SelectDirect ''job'' ''item'' None ?r]"]) (simp only: jobs)
  then show ?thesis unfolding jobs log by fastforce
qed

end
