(* ===== verification/SetupCoordinator.thy ===== *)
theory SetupCoordinator
  imports SetupStates SetupLease SettingsContract "HOL-Library.AList" "HOL-Library.Sublist"
begin

text \<open>
  The setup coordinator (app/services/setup_rebuild/coordinator.py, with repository.py and the target
  of server_target.py): the plan shown to the user, the run of one radio through its states, the job
  over several radios, the review after a restart and the rollback.

  The adapter that talks to a radio, the clock, the locks, the cancel flag written by another request
  and the database are a world of any type, asked through the operations of \<open>setup_env\<close>. A commit
  that fails leaves the session unusable, so that everything after it, handlers included, fails too
  (\<open>Broken\<close>). A cancelled task raises what \<open>except Exception\<close> does not catch (\<open>Interrupted\<close>). Texts with
  umlauts are transliterated, texts of exceptions raised by the language itself are left out, and the columns \<open>created_at\<close> and
  \<open>updated_at\<close> are left out. Of an entry in the action journal the radio, the action, the phase and whether it
  is verified are kept.
\<close>

section \<open>Rows, operations and the world\<close>

type_synonym dict = "(string \<times> pyval) list"

record server_target =
  st_host :: string
  st_web :: int
  st_cloud :: int
  st_debug :: int

datatype operation =
    Identify | PresentationPreflight | PresentationPrepare | PresentationActivate | PresentationVerify
  | RestorePrepare | RestoreActivate | RestoreVerify | ConfigureDefaults | BackUp | SshStatus | ActivateSsh
  | PersistSsh | RebootVerifySsh | BackupRouting | Route server_target | RebootRadio | Reconnect
  | PairAccount server_target | ReadPresets | PlaybackTest server_target | RollBack

record radio_row =
  dv_device :: string
  dv_ip :: string
  dv_model :: string
  dv_state :: string
  dv_ssh_status :: string
  dv_profile_key :: string
  dv_routing_status :: string
  dv_backup_path :: string
  dv_backup_sha256 :: pyval
  dv_evidence :: dict
  dv_last_error :: string
  dv_recovery :: string

record job_row =
  jb_id :: string
  jb_status :: string
  jb_device_ids :: "string list"
  jb_plan :: "pyval option"
  jb_target :: "pyval option"
  jb_state :: string
  jb_device :: string
  jb_progress :: nat
  jb_error :: string
  jb_result :: dict
  jb_cancel :: bool
  jb_owner :: string
  jb_started :: "int option"
  jb_ended :: "int option"

text \<open>Exceptions: the two of the coordinator, any other with its class and text, and the two that escape every handler.\<close>

datatype setup_exc = CancellationRequested | LeaseLost | Failed string string | Interrupted | Broken

datatype lock_answer = Entered | Refused string | Killed

record 'w setup_env =
  se_call :: "operation \<Rightarrow> radio_row \<Rightarrow> 'w \<Rightarrow> (setup_exc + dict) \<times> 'w"
  se_pause :: "'w \<Rightarrow> bool \<times> 'w"
  se_lock :: "string \<Rightarrow> 'w \<Rightarrow> lock_answer \<times> 'w"
  se_commit :: "'w \<Rightarrow> bool \<times> 'w"
  se_cancel :: "'w \<Rightarrow> setup_exc + bool"
  se_beat :: "'w \<Rightarrow> bool"
  se_db_ok :: "'w \<Rightarrow> bool"
  se_now :: "'w \<Rightarrow> int"
  se_lease :: "'w \<Rightarrow> lease_table"
  se_put_lease :: "lease_table \<Rightarrow> 'w \<Rightarrow> 'w"
  se_net :: net
  se_policy :: "'w \<Rightarrow> protection"
  se_show :: "pyval \<Rightarrow> string"

datatype setup_event =
    Checked
  | Called operation string
  | Saved job_row "radio_row list"
  | Noted string string string bool

record 'w coordination =
  co_world :: 'w
  co_job :: job_row
  co_rows :: "radio_row list"
  co_saved :: "job_row \<times> radio_row list"
  co_watch :: lease_watch
  co_log :: "setup_event list"

type_synonym ('w, 'a) sact = "('w coordination, setup_exc, 'a) act"

section \<open>Reading dictionaries\<close>

definition get_or :: "dict \<Rightarrow> string \<Rightarrow> pyval \<Rightarrow> pyval" where
  "get_or d k v = (case map_of d k of None \<Rightarrow> v | Some x \<Rightarrow> x)"

abbreviation get_key :: "dict \<Rightarrow> string \<Rightarrow> pyval" where
  "get_key d k \<equiv> get_or d k VNone"

definition dict_or_empty :: "pyval \<Rightarrow> dict" where
  "dict_or_empty v = (case v of VDict d \<Rightarrow> d | _ \<Rightarrow> [])"

text \<open>A column of JSON text is what the parser makes of it; no value for a text that is not JSON.\<close>

definition load_json :: "pyval option \<Rightarrow> dict" where
  "load_json t = (case t of None \<Rightarrow> [] | Some v \<Rightarrow> dict_or_empty v)"

definition merged :: "dict \<Rightarrow> dict \<Rightarrow> dict" where
  "merged a b = AList.updates (map fst b) (map snd b) a"

definition FORBIDDEN :: "string list" where
  "FORBIDDEN = [''password'', ''secret'', ''token'', ''private_key'', ''command'']"

definition public_result :: "dict \<Rightarrow> dict" where
  "public_result v = filter (\<lambda>kv. \<not> list_ex (\<lambda>part. contains_text part (lower (fst kv))) FORBIDDEN) v"

section \<open>Single operations\<close>

definition cur :: "nat \<Rightarrow> 'w coordination \<Rightarrow> radio_row" where
  "cur i s = co_rows s ! i"

definition note_setup :: "setup_event \<Rightarrow> 'w coordination \<Rightarrow> 'w coordination" where
  "note_setup e s = s\<lparr>co_log := co_log s @ [e]\<rparr>"

definition on_row :: "nat \<Rightarrow> (radio_row \<Rightarrow> radio_row) \<Rightarrow> ('w, unit) sact" where
  "on_row i f s = (Inr (), s\<lparr>co_rows := (co_rows s)[i := f (cur i s)]\<rparr>)"

definition on_job :: "(job_row \<Rightarrow> job_row) \<Rightarrow> ('w, unit) sact" where
  "on_job f s = (Inr (), s\<lparr>co_job := f (co_job s)\<rparr>)"

definition stamp_job :: "'w setup_env \<Rightarrow> (int \<Rightarrow> job_row \<Rightarrow> job_row) \<Rightarrow> ('w, unit) sact" where
  "stamp_job env f s = on_job (f (se_now env (co_world s))) s"

definition save :: "'w setup_env \<Rightarrow> ('w, unit) sact" where
  "save env s = (case se_commit env (co_world s) of
     (True, w) \<Rightarrow> (Inr (), note_setup (Saved (co_job s) (co_rows s)) (s\<lparr>co_world := w, co_saved := (co_job s, co_rows s)\<rparr>))
   | (False, w) \<Rightarrow> (Inl Broken, s\<lparr>co_world := w\<rparr>))"

definition note_action :: "nat \<Rightarrow> string \<Rightarrow> string \<Rightarrow> bool \<Rightarrow> ('w, unit) sact" where
  "note_action i action phase verified s = (Inr (), note_setup (Noted (dv_device (cur i s)) action phase verified) s)"

definition call :: "'w setup_env \<Rightarrow> nat \<Rightarrow> operation \<Rightarrow> ('w, dict) sact" where
  "call env i op s = (case se_call env op (cur i s) (co_world s) of
     (r, w) \<Rightarrow> (r, note_setup (Called op (dv_device (cur i s))) (s\<lparr>co_world := w\<rparr>)))"

text \<open>\<open>asyncio.sleep(0, result=...)\<close>: no request, but a place where the task may be cancelled.\<close>

definition pause :: "'w setup_env \<Rightarrow> dict \<Rightarrow> ('w, dict) sact" where
  "pause env result s = (case se_pause env (co_world s) of
     (killed, w) \<Rightarrow> (if killed then Inl Interrupted else Inr result, s\<lparr>co_world := w\<rparr>))"

definition cancellation_requested :: "'w setup_env \<Rightarrow> ('w, bool) sact" where
  "cancellation_requested env s = (se_cancel env (co_world s), s)"

text \<open>The heartbeat runs beside the job and may have given the lease up by now.\<close>

definition lease_checkpoint :: "'w setup_env \<Rightarrow> ('w, unit) sact" where
  "lease_checkpoint env s = (let w = co_world s; watch = (co_watch s)\<lparr>lost := lost (co_watch s) \<or> se_beat env w\<rparr> in
     case checkpoint watch (se_now env w, se_lease env w, se_db_ok env w) of
       (Inl _, v) \<Rightarrow> (Inl LeaseLost, s\<lparr>co_watch := v\<rparr>) | (Inr _, v) \<Rightarrow> (Inr (), s\<lparr>co_watch := v\<rparr>))"

definition cancellation_checkpoint :: "'w setup_env \<Rightarrow> ('w, unit) sact" where
  "cancellation_checkpoint env = abind (lease_checkpoint env) (\<lambda>_. abind (cancellation_requested env) (\<lambda>cancel s.
     if cancel then (Inl CancellationRequested, s) else (Inr (), note_setup Checked s)))"

definition transition_text :: "string \<Rightarrow> setup_state \<Rightarrow> string" where
  "transition_text v t = ''invalid setup transition '' @ v @ '' -> '' @ state_value t"

definition transition_state :: "nat \<Rightarrow> setup_state \<Rightarrow> string \<Rightarrow> ('w, unit) sact" where
  "transition_state i target error s = (case transition (dv_state (cur i s)) (state_value target) of
     Inl _ \<Rightarrow> (Inl (Failed ''ValueError'' (transition_text (dv_state (cur i s)) target)), s)
   | Inr t \<Rightarrow> on_row i (\<lambda>r. r\<lparr>dv_state := state_value t, dv_last_error := error\<rparr>) s)"

definition STATE_PROGRESS :: "(setup_state \<times> nat) list" where
  "STATE_PROGRESS = [(S_ORIGINAL_PREPARED, 39), (S_ORIGINAL_CONFIGURED, 57), (S_ORIGINAL_VERIFIED, 95), (S_UNKNOWN, 0), (S_DISCOVERED, 5),
     (S_IDENTIFIED, 10), (S_PRESENTATION_PREFLIGHT, 12), (S_PRESENTATION_PREPARED, 39), (S_PRESENTATION_CONFIGURED, 57),
     (S_PRESENTATION_VERIFIED, 74), (S_BACKUP_PENDING, 15), (S_BACKUP_COMPLETE, 25), (S_SSH_STATUS_PENDING, 27),
     (S_SSH_ALREADY_ACTIVE, 29), (S_SSH_ACTIVATION_PENDING, 30), (S_SSH_TEMPORARY_ACTIVE, 32), (S_SSH_PERSISTENCE_PENDING, 34),
     (S_SSH_REBOOT_PENDING, 36), (S_SSH_VERIFIED, 38), (S_ROUTING_BACKUP_COMPLETE, 40), (S_BASSWIESN_ROUTE_PENDING, 45),
     (S_BASSWIESN_ROUTE_ACTIVE, 55), (S_RADIO_REBOOT_PENDING, 58), (S_RADIO_REBOOTED, 62), (S_RADIO_RECONNECT_PENDING, 65),
     (S_RADIO_REACHABLE, 72), (S_MARGE_ACCOUNT_PENDING, 76), (S_MARGE_ACCOUNT_ACTIVE, 84), (S_PRESETS_READABLE, 90),
     (S_PLAYBACK_READY, 96), (S_VERIFIED, 100)]"

definition update_progress :: "nat \<Rightarrow> setup_state \<Rightarrow> ('w, unit) sact" where
  "update_progress i target s = (case map_of STATE_PROGRESS target of
     None \<Rightarrow> (Inr (), s)
   | Some local \<Rightarrow> on_job (\<lambda>j. j\<lparr>jb_progress := min 100 ((i * 100 + local) div max 1 (length (co_rows s)))\<rparr>) s)"

definition transition_only :: "'w setup_env \<Rightarrow> nat \<Rightarrow> setup_state \<Rightarrow> ('w, unit) sact" where
  "transition_only env i target =
     abind (cancellation_checkpoint env) (\<lambda>_.
     abind (transition_state i target []) (\<lambda>_.
     abind (on_job (\<lambda>j. j\<lparr>jb_state := state_value target\<rparr>)) (\<lambda>_.
     abind (update_progress i target) (\<lambda>_.
     abind (save env) (\<lambda>_. cancellation_checkpoint env)))))"

text \<open>What an answer leaves in the row.\<close>

definition keep_result :: "(pyval \<Rightarrow> string) \<Rightarrow> dict \<Rightarrow> radio_row \<Rightarrow> radio_row" where
  "keep_result show result r = (let
     r1 = (case map_of result ''ssh_status'' of None \<Rightarrow> r | Some v \<Rightarrow> r\<lparr>dv_ssh_status := py_str show v\<rparr>);
     r2 = (case map_of result ''profile_key'' of None \<Rightarrow> r1 | Some v \<Rightarrow> r1\<lparr>dv_profile_key := py_str show v\<rparr>);
     r3 = (case map_of result ''routing_status'' of None \<Rightarrow> r2 | Some v \<Rightarrow> r2\<lparr>dv_routing_status := py_str show v\<rparr>)
     in if result = [] then r3 else r3\<lparr>dv_evidence := merged (dv_evidence r3) (public_result result)\<rparr>)"

definition step :: "'w setup_env \<Rightarrow> nat \<Rightarrow> setup_state \<Rightarrow> ('w, dict) sact \<Rightarrow> ('w, dict) sact" where
  "step env i target callback =
     abind (cancellation_checkpoint env) (\<lambda>_.
     abind callback (\<lambda>result.
     abind (transition_state i target []) (\<lambda>_.
     abind (on_job (\<lambda>j. j\<lparr>jb_state := state_value target\<rparr>)) (\<lambda>_.
     abind (update_progress i target) (\<lambda>_.
     abind (on_row i (keep_result (se_show env) result)) (\<lambda>_.
     abind (save env) (\<lambda>_.
     abind (cancellation_checkpoint env) (\<lambda>_. areturn result))))))))"

definition expect :: "bool \<Rightarrow> string \<Rightarrow> ('w, unit) sact" where
  "expect ok message = (if ok then areturn () else araise (Failed ''RuntimeError'' message))"

section \<open>The server target\<close>

definition err_class :: "pyerr \<Rightarrow> string" where
  "err_class e = (case e of ValueError \<Rightarrow> ''ValueError'' | TypeError \<Rightarrow> ''TypeError'' | OverflowError \<Rightarrow> ''OverflowError'' | _ \<Rightarrow> ''RuntimeError'')"

definition int_or_zero :: "pyval \<Rightarrow> setup_exc + int" where
  "int_or_zero v = (if truth v then (case py_int v of Inl e \<Rightarrow> Inl (Failed (err_class e) []) | Inr i \<Rightarrow> Inr i) else Inr 0)"

definition ports_of :: "pyval \<Rightarrow> setup_exc + dict" where
  "ports_of v = (if \<not> truth v then Inr [] else case v of VDict d \<Rightarrow> Inr d | _ \<Rightarrow> Inl (Failed ''AttributeError'' []))"

definition new_target :: "net \<Rightarrow> protection \<Rightarrow> string \<Rightarrow> int \<Rightarrow> int \<Rightarrow> int \<Rightarrow> setup_exc + server_target" where
  "new_target net p host web cloud debug = (case is_protected_ip net p host of
     Inl _ \<Rightarrow> Inl (Failed ''ProtectionPolicyError'' [])
   | Inr hit \<Rightarrow> if hit then Inl (Failed ''ValueError'' ''server target is a protected device address'')
       else Inr \<lparr>st_host = host, st_web = web, st_cloud = cloud, st_debug = debug\<rparr>)"

definition target_of :: "'w setup_env \<Rightarrow> ('w, server_target) sact" where
  "target_of env s = (let data = load_json (jb_target (co_job s)); host = get_key data ''host'' in
     (rbind (ports_of (get_key data ''ports'')) (\<lambda>ports.
      rbind (int_or_zero (get_key ports ''web'')) (\<lambda>web. rbind (int_or_zero (get_key ports ''cloud'')) (\<lambda>cloud.
      rbind (int_or_zero (get_key ports ''debug'')) (\<lambda>debug.
        new_target (se_net env) (se_policy env (co_world s)) (if truth host then py_str (se_show env) host else []) web cloud debug)))), s))"

section \<open>The plan\<close>

definition target_public :: "server_target \<Rightarrow> dict" where
  "target_public t = (let url = (\<lambda>port. VStr (''http://'' @ st_host t @ '':'' @ text_of_int port)) in
     [(''host'', VStr (st_host t)),
      (''ports'', VDict [(''web'', VInt (st_web t)), (''cloud'', VInt (st_cloud t)), (''debug'', VInt (st_debug t))]),
      (''urls'', VDict [(''web'', url (st_web t)), (''cloud'', url (st_cloud t)), (''debug'', url (st_debug t))])])"

definition plan_sequence :: "bool \<Rightarrow> bool \<Rightarrow> bool \<Rightarrow> bool \<Rightarrow> string list" where
  "plan_sequence patched ssh_required pair_account playback_test =
     [''identity''] @ (if patched then [''presentation_preflight''] else []) @ [''backup''] @
     (if ssh_required then [''ssh_status'', ''ssh_activation'', ''ssh_persistence'', ''ssh_reboot_verification''] else []) @
     (if patched then [''presentation_prepare''] else []) @ [''routing_backup'', ''routing''] @
     (if patched then [''presentation_activate''] else []) @ [''radio_reboot'', ''reconnect''] @
     [if patched then ''presentation_verify'' else ''configure_defaults''] @
     (if pair_account then [''local_account_pairing''] else []) @ [''preset_readback''] @
     (if playback_test then [''volume_1_playback''] else []) @ [''final_readback'']"

definition ORIGINAL_SEQUENCE :: "string list" where
  "ORIGINAL_SEQUENCE = [''identity'', ''presentation_preflight'', ''backup'', ''restore_prepare'', ''restore_activate'', ''radio_reboot'', ''reconnect'', ''restore_verify'']"

definition texts :: "string list \<Rightarrow> pyval" where
  "texts ts = VList (map VStr ts)"

definition SSH_REASONS :: "string list" where
  "SSH_REASONS = [''expliziter Expertenlauf'', ''Display und Bootlogo benoetigen vorab eingerichtetes SSH mit geprueftem Hostschluessel.'',
     ''Nicht erforderlich fuer normale Einrichtung.'', ''Originaldarstellung: gepruefte Sicherung und gepinntes Root-SSH erforderlich.'']"

definition original_plan :: "dict \<Rightarrow> dict \<Rightarrow> dict" where
  "original_plan options plan = merged plan [(''sequence'', texts ORIGINAL_SEQUENCE), (''existing_patches'', VStr ''REMOVE_DISPLAY_AND_LOGO_ONLY''),
     (''firmware_files_changed'', VBool True), (''radio_defaults'', VDict []), (''ssh_required'', VBool True), (''ssh_reason'', VStr (SSH_REASONS ! 3)),
     (''normal_transport_path'', texts [''HTTP 8090'', ''CLI 17000'', ''pinned SSH (presentation)'']), (''target_server_changed'', VBool False),
     (''options'', VDict (merged options [(''ssh_required'', VBool False), (''pair_account'', VBool False), (''playback_test'', VBool False)]))]"

definition preview :: "dict \<Rightarrow> string list \<Rightarrow> server_target \<Rightarrow> dict \<Rightarrow> setup_exc + dict" where
  "preview radio_defaults device_ids target options = (let
     normalized = map (\<lambda>d. upper (strip d)) device_ids;
     mode = get_or options ''presentation_mode'' (VStr ''normal'');
     patched = (mode = VStr ''patched'');
     ssh = truth (get_or options ''ssh_required'' (VBool False));
     pair = truth (get_or options ''pair_account'' (VBool True));
     play = truth (get_or options ''playback_test'' (VBool True));
     public = [(''presentation_mode'', mode), (''ssh_required'', VBool ssh), (''pair_account'', VBool pair), (''playback_test'', VBool play),
       (''simulation'', VBool (truth (get_or options ''simulation'' (VBool False))))];
     plan = [(''engine'', VStr ''setup-rebuild-v2''), (''sequence'', texts (plan_sequence patched ssh pair play)), (''device_ids'', texts normalized),
       (''target_server'', VDict (target_public target)), (''options'', VDict public),
       (''normal_transport_path'', texts ([''HTTP 8090'', ''CLI 17000''] @ (if patched then [''pinned SSH (presentation)''] else []))),
       (''ssh_required'', VBool (patched \<or> ssh)), (''ssh_reason'', VStr (SSH_REASONS ! (if ssh then 0 else if patched then 1 else 2))),
       (''maximum_audio_volume'', VInt 1), (''usb_required'', VBool False), (''factory_reset'', VBool False), (''firmware_flash'', VBool False),
       (''presentation_required'', texts (if patched then [''display'', ''bootlogo''] else [])), (''existing_patches'', VStr ''PRESERVE''),
       (''radio_defaults'', VDict radio_defaults), (''firmware_files_changed'', VBool patched), (''kernel_bootloader_changed'', VBool False),
       (''battery_action'', VStr ''keep'')] in
     if normalized = [] \<or> \<not> distinct normalized then Inl (Failed ''ValueError'' ''Bitte mindestens ein Radio genau einmal auswaehlen.'')
     else if mode \<notin> {VStr ''normal'', VStr ''patched'', VStr ''original''} then Inl (Failed ''ValueError'' ''Invalid presentation_mode'')
     else Inr (if mode = VStr ''original'' then original_plan public plan else plan))"

text \<open>The languages of a radio, and the defaults a plan shows.\<close>

definition radio_language :: "string \<Rightarrow> string" where
  "radio_language locale = (let
     code = map (\<lambda>c. if c = CHR ''_'' then CHR ''-'' else c) (hd (split_on CHR ''@'' (hd (split_on CHR ''.'' (lower (strip locale))))));
     parts = split_on CHR ''-'' code in
     if hd parts = ''zh'' then (if ''hant'' \<in> set parts \<or> (''hans'' \<notin> set parts \<and> list_ex (\<lambda>p. p \<in> {''tw'', ''hk'', ''mo''}) parts) then ''zh_hant'' else ''zh_hans'')
     else (let code = (if hd parts = ''nb'' then ''no'' else hd parts) in if code \<in> fst ` set LANGUAGE_IDS then code else ''en''))"

definition setup_defaults :: "string option \<Rightarrow> string option list \<Rightarrow> dict" where
  "setup_defaults web_language variables = (let
     from_env = (case find (\<lambda>v. v \<noteq> None \<and> v \<noteq> Some []) variables of Some (Some t) \<Rightarrow> t | _ \<Rightarrow> ''en'');
     locale = (case web_language of Some t \<Rightarrow> if t \<noteq> [] then t else from_env | None \<Rightarrow> from_env) in
     [(''language'', VStr (radio_language locale)), (''clockDisplay'', VBool True), (''display_mode'', VStr ''TRACK_ARTIST''), (''provider_clock'', VBool False),
      (''preserve_name_presets_battery'', VBool True), (''preserve_timezone_brightness_volume'', VBool True)])"

section \<open>The adapter of a dry run\<close>

text \<open>It touches no radio; most of its operations sleep first.\<close>

primrec dry_answer :: "operation \<Rightarrow> radio_row \<Rightarrow> dict" where
  "dry_answer Identify r = [(''device_id'', VStr (dv_device r)), (''model'', VStr (dv_model r)), (''firmware'', VStr ''dry-run''), (''verified'', VBool True)]"
| "dry_answer PresentationPreflight r = [(''presentation_preflight'', VStr ''SIMULATED''), (''dry_run'', VBool True)]"
| "dry_answer PresentationPrepare r = [(''presentation_prepared'', VBool True), (''presentation_mode'', VStr ''SIMULATED''), (''dry_run'', VBool True)]"
| "dry_answer PresentationActivate r = [(''presentation_changed'', VBool False), (''dry_run'', VBool True)]"
| "dry_answer PresentationVerify r = [(''presentation_verified'', VBool True), (''presentation_preferences_verified'', VBool True),
     (''presentation_evidence'', VStr ''SIMULATED_NOT_HARDWARE''), (''dry_run'', VBool True)]"
| "dry_answer RestorePrepare r = [(''restore_prepared'', VBool True), (''dry_run'', VBool True)]"
| "dry_answer RestoreActivate r = [(''restore_configured'', VBool True), (''dry_run'', VBool True)]"
| "dry_answer RestoreVerify r = [(''original_verified'', VBool True), (''evidence'', VStr ''SIMULATED_NOT_HARDWARE''), (''dry_run'', VBool True)]"
| "dry_answer ConfigureDefaults r = [(''radio_defaults_verified'', VBool True), (''evidence'', VStr ''SIMULATED_NOT_HARDWARE'')]"
| "dry_answer BackUp r = [(''backup_path'', VStr (''simulation://'' @ dv_device r @ ''/backup'')), (''sha256'', VDict []), (''verified'', VBool True)]"
| "dry_answer SshStatus r = [(''ssh_status'', VStr ''SSH_UNKNOWN''), (''already_active'', VBool True), (''profile_key'', VStr ''dry-run'')]"
| "dry_answer ActivateSsh r = [(''ssh_status'', VStr ''SSH_TEMPORARILY_ENABLED'')]"
| "dry_answer PersistSsh r = [(''ssh_status'', VStr ''SSH_PERSISTENTLY_ENABLED'')]"
| "dry_answer RebootVerifySsh r = [(''ssh_status'', VStr ''SSH_VERIFIED_AFTER_REBOOT''), (''verified'', VBool True)]"
| "dry_answer BackupRouting r = [(''routing_backup'', VBool True), (''sha256'', VDict [])]"
| "dry_answer (Route t) r = [(''routing_status'', VStr ''active''), (''target'', VDict (target_public t))]"
| "dry_answer RebootRadio r = [(''reboot_requested'', VBool True)]"
| "dry_answer Reconnect r = [(''reachable'', VBool True)]"
| "dry_answer (PairAccount t) r = [(''account_paired'', VBool True), (''account_changed'', VBool False), (''account_id'', VStr ''dry-run'')]"
| "dry_answer ReadPresets r = [(''presets_readable'', VBool True), (''count'', VInt 0)]"
| "dry_answer (PlaybackTest t) r = [(''playback_ready'', VBool True), (''volume'', VInt 1)]"
| "dry_answer RollBack r = [(''rolled_back'', VBool True), (''fully_restored'', VBool True), (''rollback_scope'', VStr ''SIMULATION'')]"

definition dry_call :: "('w \<Rightarrow> bool \<times> 'w) \<Rightarrow> operation \<Rightarrow> radio_row \<Rightarrow> 'w \<Rightarrow> (setup_exc + dict) \<times> 'w" where
  "dry_call nap op r w =
     (if op \<in> {PresentationPreflight, PresentationPrepare, PresentationActivate, PresentationVerify, RestorePrepare, RestoreActivate, RestoreVerify, ConfigureDefaults}
      then (Inr (dry_answer op r), w)
      else case nap w of (killed, w') \<Rightarrow> (if killed then Inl Interrupted else Inr (dry_answer op r), w'))"

section \<open>One radio\<close>

record setup_options =
  so_ssh :: bool
  so_pair :: bool
  so_play :: bool
  so_patched :: bool
  so_original :: bool

definition plan_options :: "dict \<Rightarrow> dict" where
  "plan_options plan = dict_or_empty (get_key plan ''options'')"

definition options_of :: "dict \<Rightarrow> setup_options" where
  "options_of plan = (let options = plan_options plan in
     \<lparr>so_ssh = truth (get_or options ''ssh_required'' (VBool False)), so_pair = truth (get_or options ''pair_account'' (VBool True)),
      so_play = truth (get_or options ''playback_test'' (VBool True)),
      so_patched = (get_or options ''presentation_mode'' (VStr (if truth (get_key plan ''presentation_required'') then ''patched'' else ''normal'')) = VStr ''patched''),
      so_original = (get_key options ''presentation_mode'' = VStr ''original'')\<rparr>)"

definition dry_plan :: "dict \<Rightarrow> bool" where
  "dry_plan plan = truth (get_or plan ''dry_run'' (VBool False))"

definition identify_and_back_up :: "'w setup_env \<Rightarrow> nat \<Rightarrow> setup_options \<Rightarrow> ('w, unit) sact" where
  "identify_and_back_up env i opt =
     abind (step env i S_DISCOVERED (call env i Identify)) (\<lambda>identity.
     abind (expect (get_key identity ''verified'' \<noteq> VBool False) ''Die Radio-Identitaet konnte nicht bestaetigt werden.'') (\<lambda>_.
     abind (transition_only env i S_IDENTIFIED) (\<lambda>_.
     abind (if so_patched opt \<or> so_original opt then step env i S_PRESENTATION_PREFLIGHT (call env i PresentationPreflight) else areturn []) (\<lambda>_.
     abind (transition_only env i S_BACKUP_PENDING) (\<lambda>_.
     abind (step env i S_BACKUP_COMPLETE (call env i BackUp)) (\<lambda>backup.
     abind (expect (get_key backup ''verified'' \<noteq> VBool False) ''Das Backup ist unvollstaendig; es wurde nichts geschrieben.'') (\<lambda>_.
     abind (on_row i (\<lambda>r. r\<lparr>dv_backup_path := (if truth (get_key backup ''backup_path'') then py_str (se_show env) (get_key backup ''backup_path'') else []),
         dv_backup_sha256 := (if truth (get_key backup ''sha256'') then get_key backup ''sha256'' else VDict [])\<rparr>)) (\<lambda>_.
       save env))))))))"

definition restore_original :: "'w setup_env \<Rightarrow> nat \<Rightarrow> bool \<Rightarrow> ('w, unit) sact" where
  "restore_original env i dry_run =
     abind (step env i S_ORIGINAL_PREPARED (call env i RestorePrepare)) (\<lambda>prepared.
     abind (expect (get_key prepared ''restore_prepared'' = VBool True) ''RESTORE_BACKUP_UNVERIFIED'') (\<lambda>_.
     abind (step env i S_ORIGINAL_CONFIGURED (call env i RestoreActivate)) (\<lambda>configured.
     abind (expect (get_key configured ''restore_configured'' = VBool True) ''RESTORE_CONFIGURATION_UNCONFIRMED'') (\<lambda>_.
     abind (transition_only env i S_RADIO_REBOOT_PENDING) (\<lambda>_.
     abind (step env i S_RADIO_REBOOTED (call env i RebootRadio)) (\<lambda>reboot.
     abind (expect (get_key reboot ''reboot_requested'' = VBool True) ''RESTORE_REBOOT_UNCONFIRMED'') (\<lambda>_.
     abind (transition_only env i S_RADIO_RECONNECT_PENDING) (\<lambda>_.
     abind (step env i S_RADIO_REACHABLE (call env i Reconnect)) (\<lambda>reachable.
     abind (expect (get_key reachable ''reachable'' = VBool True) ''RESTORE_RECONNECT_UNCONFIRMED'') (\<lambda>_.
     abind (step env i S_ORIGINAL_VERIFIED (call env i RestoreVerify)) (\<lambda>result.
     abind (expect (get_key result ''original_verified'' = VBool True) ''RESTORE_READBACK_UNVERIFIED'') (\<lambda>_.
     abind (step env i S_VERIFIED (pause env [(''verified'', VBool True), (''presentation_mode'', VStr ''original''), (''playback_test'', VStr ''not_requested'')])) (\<lambda>_.
       if dry_run then areturn () else abind (note_action i ''restore_original_presentation'' ''VERIFIED'' True) (\<lambda>_. save env))))))))))))))"

definition enable_ssh :: "'w setup_env \<Rightarrow> nat \<Rightarrow> ('w, unit) sact" where
  "enable_ssh env i =
     abind (transition_only env i S_SSH_STATUS_PENDING) (\<lambda>_.
     abind (step env i S_SSH_STATUS_PENDING (call env i SshStatus)) (\<lambda>status.
     abind (on_row i (\<lambda>r. r\<lparr>dv_ssh_status := (if truth (get_key status ''ssh_status'') then py_str (se_show env) (get_key status ''ssh_status'') else ''SSH_UNKNOWN''),
         dv_profile_key := (if truth (get_key status ''profile_key'') then py_str (se_show env) (get_key status ''profile_key'') else [])\<rparr>)) (\<lambda>_.
     abind (save env) (\<lambda>_.
     abind (if truth (get_key status ''already_active'') then transition_only env i S_SSH_ALREADY_ACTIVE
            else abind (transition_only env i S_SSH_ACTIVATION_PENDING) (\<lambda>_.
              abind (step env i S_SSH_TEMPORARY_ACTIVE (call env i ActivateSsh)) (\<lambda>_. areturn ()))) (\<lambda>_.
     abind (step env i S_SSH_PERSISTENCE_PENDING (call env i PersistSsh)) (\<lambda>_.
     abind (step env i S_SSH_REBOOT_PENDING (call env i RebootVerifySsh)) (\<lambda>reboot.
     abind (step env i S_SSH_VERIFIED (pause env reboot)) (\<lambda>verified.
       expect (get_key verified ''verified'' \<noteq> VBool False) ''SSH konnte nach dem Neustart nicht bestaetigt werden.''))))))))"

definition route_radio :: "'w setup_env \<Rightarrow> nat \<Rightarrow> setup_options \<Rightarrow> ('w, server_target) sact" where
  "route_radio env i opt =
     abind (if so_patched opt then abind (step env i S_PRESENTATION_PREPARED (call env i PresentationPrepare)) (\<lambda>prepared.
         expect (get_key prepared ''presentation_prepared'' = VBool True) ''PRESENTATION_BACKUP_UNVERIFIED'') else areturn ()) (\<lambda>_.
     abind (step env i S_ROUTING_BACKUP_COMPLETE (call env i BackupRouting)) (\<lambda>routing_backup.
     abind (expect (get_key routing_backup ''routing_backup'' \<noteq> VBool False) ''Die bisherigen Serverziele konnten nicht sicher gesichert werden.'') (\<lambda>_.
     abind (target_of env) (\<lambda>target.
     abind (transition_only env i S_BASSWIESN_ROUTE_PENDING) (\<lambda>_.
     abind (step env i S_BASSWIESN_ROUTE_ACTIVE (call env i (Route target))) (\<lambda>_.
     abind (if so_patched opt then step env i S_PRESENTATION_CONFIGURED (call env i PresentationActivate) else areturn []) (\<lambda>_.
       areturn target)))))))"

definition restart_radio :: "'w setup_env \<Rightarrow> nat \<Rightarrow> setup_options \<Rightarrow> ('w, unit) sact" where
  "restart_radio env i opt =
     abind (transition_only env i S_RADIO_REBOOT_PENDING) (\<lambda>_.
     abind (step env i S_RADIO_REBOOTED (call env i RebootRadio)) (\<lambda>reboot.
     abind (expect (get_key reboot ''reboot_requested'' \<noteq> VBool False) ''Der kontrollierte Radio-Neustart wurde nicht bestaetigt.'') (\<lambda>_.
     abind (transition_only env i S_RADIO_RECONNECT_PENDING) (\<lambda>_.
     abind (call env i Reconnect) (\<lambda>reconnect.
     abind (step env i S_RADIO_REACHABLE (pause env reconnect)) (\<lambda>reachable.
     abind (expect (get_key reachable ''reachable'' \<noteq> VBool False) ''Das Radio war nach der Umstellung nicht wieder erreichbar.'') (\<lambda>_.
       if so_patched opt then abind (step env i S_PRESENTATION_VERIFIED (call env i PresentationVerify)) (\<lambda>presentation.
         expect (get_key presentation ''presentation_verified'' = VBool True \<and> get_key presentation ''presentation_preferences_verified'' = VBool True)
           ''PRESENTATION_READBACK_UNVERIFIED'')
       else abind (step env i S_RADIO_REACHABLE (call env i ConfigureDefaults)) (\<lambda>defaults.
         expect (get_key defaults ''radio_defaults_verified'' = VBool True) ''SETUP_DEFAULTS_READBACK_UNVERIFIED''))))))))"

definition finish_radio :: "'w setup_env \<Rightarrow> nat \<Rightarrow> setup_options \<Rightarrow> server_target \<Rightarrow> ('w, unit) sact" where
  "finish_radio env i opt target =
     abind (if so_pair opt then abind (transition_only env i S_MARGE_ACCOUNT_PENDING) (\<lambda>_.
         abind (step env i S_MARGE_ACCOUNT_ACTIVE (call env i (PairAccount target))) (\<lambda>account.
         expect (get_key account ''account_paired'' \<noteq> VBool False) ''Das lokale Radio-Konto konnte nicht bestaetigt werden.''))
       else areturn ()) (\<lambda>_.
     abind (step env i S_PRESETS_READABLE (call env i ReadPresets)) (\<lambda>_.
     abind (if so_play opt then abind (step env i S_PLAYBACK_READY (call env i (PlaybackTest target))) (\<lambda>playback.
         expect (get_key playback ''playback_ready'' \<noteq> VBool False) ''Die Wiedergabepruefung bei Lautstaerke 1 war nicht erfolgreich.'')
       else areturn ()) (\<lambda>_.
     abind (step env i S_VERIFIED (pause env [(''verified'', VBool True), (''playback_test'', VStr (if so_play opt then ''passed'' else ''not_requested'')),
         (''ssh'', VStr (if so_ssh opt then ''expert'' else if so_patched opt then ''presentation'' else ''not_required'')),
         (''presentation_mode'', VStr (if so_patched opt then ''patched'' else ''normal''))])) (\<lambda>_. areturn ()))))"

definition set_up_radio :: "'w setup_env \<Rightarrow> nat \<Rightarrow> dict \<Rightarrow> ('w, unit) sact" where
  "set_up_radio env i plan = (let opt = options_of plan in
     abind (if so_ssh opt then enable_ssh env i
       else abind (on_row i (\<lambda>r. r\<lparr>dv_ssh_status := (if so_patched opt then ''PINNED_SSH_PRESENTATION'' else ''NOT_REQUIRED'')\<rparr>)) (\<lambda>_. save env)) (\<lambda>_.
     abind (route_radio env i opt) (\<lambda>target.
     abind (restart_radio env i opt) (\<lambda>_.
     abind (finish_radio env i opt target) (\<lambda>_.
       if dry_plan plan then areturn () else abind (note_action i ''setup_rebuild'' (state_value S_VERIFIED) True) (\<lambda>_. save env))))))"

definition device_body :: "'w setup_env \<Rightarrow> nat \<Rightarrow> bool \<Rightarrow> dict \<Rightarrow> ('w, unit) sact" where
  "device_body env i dry_run plan =
     abind (identify_and_back_up env i (options_of plan)) (\<lambda>_.
       if so_original (options_of plan) then restore_original env i dry_run else set_up_radio env i plan)"

definition CANCEL_TEXT :: string where
  "CANCEL_TEXT = ''Setup wurde auf Wunsch an einer sicheren Schrittgrenze abgebrochen. Der zuletzt gestartete Einzelschritt wurde dokumentiert; es wurde kein weiterer Geraetebefehl gesendet.''"

definition exc_text :: "setup_exc \<Rightarrow> string" where
  "exc_text e = (case e of CancellationRequested \<Rightarrow> CANCEL_TEXT
     | LeaseLost \<Rightarrow> ''SETUP_LEASE_LOST: no following device operation; readback/manual review required''
     | Failed cls t \<Rightarrow> if take 1000 t = [] then cls else take 1000 t | _ \<Rightarrow> [])"

definition unverified :: "radio_row \<Rightarrow> radio_row" where
  "unverified r = r\<lparr>dv_evidence := merged (dv_evidence r) [(''verified'', VBool False)]\<rparr>"

text \<open>A state from which there is no way to \<open>FAILED\<close> is overwritten.\<close>

definition force_failed :: "nat \<Rightarrow> string \<Rightarrow> ('w, unit) sact" where
  "force_failed i error = catching (transition_state i S_FAILED error) (\<lambda>_. on_row i (\<lambda>r. r\<lparr>dv_state := state_value S_FAILED\<rparr>))"

definition device_cancelled :: "'w setup_env \<Rightarrow> nat \<Rightarrow> ('w, unit) sact" where
  "device_cancelled env i =
     abind (on_row i (\<lambda>r. (unverified r)\<lparr>dv_last_error := take 1000 CANCEL_TEXT, dv_recovery := ''CANCELLED_AT_CHECKPOINT''\<rparr>)) (\<lambda>_.
     abind (\<lambda>s. if dv_state (cur i s) \<noteq> state_value S_VERIFIED then force_failed i (take 1000 CANCEL_TEXT) s else (Inr (), s)) (\<lambda>_.
     abind (\<lambda>s. stamp_job env (\<lambda>now j. j\<lparr>jb_status := ''cancelled'', jb_state := dv_state (cur i s), jb_error := dv_last_error (cur i s), jb_ended := Some now\<rparr>) s) (\<lambda>_.
       save env)))"

definition audio_lock :: "string \<Rightarrow> dict" where
  "audio_lock error = [(''audio_test_locked'', VBool True), (''audio_lock_reason'', VStr (take 500 error)), (''audio_lock_volume_limit'', VInt 1),
     (''audio_lock_recovery'', VStr ''manual review after STOP/STANDBY and volume-1 readback'')]"

definition device_failed :: "'w setup_env \<Rightarrow> nat \<Rightarrow> dict \<Rightarrow> setup_exc \<Rightarrow> ('w, unit) sact" where
  "device_failed env i plan e = (let error = exc_text e in
     abind (on_row i (\<lambda>r. (unverified r)\<lparr>dv_last_error := error\<rparr>)) (\<lambda>_.
     abind (if e = LeaseLost then abind (stamp_job env (\<lambda>now j. j\<lparr>jb_status := ''failed'', jb_ended := Some now\<rparr>)) (\<lambda>_.
         on_row i (\<lambda>r. r\<lparr>dv_recovery := ''LEASE_LOST_REVIEW_REQUIRED''\<rparr>)) else areturn ()) (\<lambda>_.
     abind (if take 18 error = ''VOLUME_SAFETY_LOCK'' then on_row i (\<lambda>r. r\<lparr>dv_evidence := merged (dv_evidence r) (audio_lock error)\<rparr>) else areturn ()) (\<lambda>_.
     abind (\<lambda>s. if dv_state (cur i s) \<noteq> state_value S_FAILED then force_failed i error s else (Inr (), s)) (\<lambda>_.
     abind (on_job (\<lambda>j. j\<lparr>jb_state := state_value S_FAILED, jb_error := error\<rparr>)) (\<lambda>_.
     abind (if dry_plan plan then areturn () else note_action i ''setup_rebuild'' (state_value S_FAILED) False) (\<lambda>_.
       save env)))))))"

definition run_device :: "'w setup_env \<Rightarrow> nat \<Rightarrow> bool \<Rightarrow> ('w, unit) sact" where
  "run_device env i dry_run s = (let plan = load_json (jb_plan (co_job s)) in
     catching (device_body env i dry_run plan) (\<lambda>e.
       if e = CancellationRequested then device_cancelled env i
       else if e = Interrupted \<or> e = Broken then araise e
       else device_failed env i plan e) s)"

end
