(* ===== verification/SetupRunLaws.thy ===== *)
theory SetupRunLaws
  imports SetupCoordinator
begin

text \<open>
  What the setup of one radio does, whatever adapter, database and other tasks answer: which operations
  it asks the adapter for and in which order, that each is asked for directly after the lease and the
  cancel flag were checked, and which states become durable.
\<close>

section \<open>The operations of a run\<close>

declare state_value.simps [simp del]

primrec ops :: "setup_event list \<Rightarrow> operation list" where
  "ops [] = []"
| "ops (e # es) = (case e of Called op d \<Rightarrow> op # ops es | _ \<Rightarrow> ops es)"

lemma ops_append [simp]: "ops (xs @ ys) = ops xs @ ops ys"
  by (induction xs) (auto split: setup_event.split)

definition done_with :: "nat \<Rightarrow> 'w coordination \<Rightarrow> bool" where
  "done_with i s = (dv_state (cur i s) = state_value S_VERIFIED)"

text \<open>
  From a state in which radio \<open>i\<close> is verified exactly if \<open>p\<close>: the operations an action adds, and whether
  the radio is verified then, satisfy \<open>R\<close> with the value if it returns and \<open>B\<close> if it raises.
\<close>

definition does :: "nat \<Rightarrow> bool \<Rightarrow> ('a \<Rightarrow> operation list \<Rightarrow> bool \<Rightarrow> bool) \<Rightarrow> (operation list \<Rightarrow> bool \<Rightarrow> bool) \<Rightarrow> ('w, 'a) sact \<Rightarrow> bool" where
  "does i p R B m = (\<forall>s a t. m s = (a, t) \<longrightarrow> done_with i s = p \<longrightarrow>
     (\<exists>ev. co_log t = co_log s @ ev \<and> (case a of Inr x \<Rightarrow> R x (ops ev) (done_with i t) | Inl _ \<Rightarrow> B (ops ev) (done_with i t))))"

lemma doesI:
  assumes "\<And>s a t. m s = (a, t) \<Longrightarrow> done_with i s = p \<Longrightarrow>
     \<exists>ev. co_log t = co_log s @ ev \<and> (case a of Inr x \<Rightarrow> R x (ops ev) (done_with i t) | Inl _ \<Rightarrow> B (ops ev) (done_with i t))"
  shows "does i p R B m"
  using assms by (simp add: does_def)

lemma doesD:
  assumes "does i p R B m" "m s = (a, t)" "done_with i s = p"
  obtains ev where "co_log t = co_log s @ ev" "case a of Inr x \<Rightarrow> R x (ops ev) (done_with i t) | Inl _ \<Rightarrow> B (ops ev) (done_with i t)"
  using assms unfolding does_def by blast

lemma does_weaken:
  "does i p R B m \<Longrightarrow> (\<And>a x v. R a x v \<Longrightarrow> R' a x v) \<Longrightarrow> (\<And>x v. B x v \<Longrightarrow> B' x v) \<Longrightarrow> does i p R' B' m"
proof (rule doesI)
  fix s a t
  assume w: "does i p R B m" "\<And>a x v. R a x v \<Longrightarrow> R' a x v" "\<And>x v. B x v \<Longrightarrow> B' x v" and run: "m s = (a, t)" "done_with i s = p"
  obtain ev where "co_log t = co_log s @ ev" "case a of Inr x \<Rightarrow> R x (ops ev) (done_with i t) | Inl _ \<Rightarrow> B (ops ev) (done_with i t)"
    using doesD [OF w(1) run] .
  then show "\<exists>ev. co_log t = co_log s @ ev \<and> (case a of Inr x \<Rightarrow> R' x (ops ev) (done_with i t) | Inl _ \<Rightarrow> B' (ops ev) (done_with i t))"
    using w(2,3) by (cases a) auto
qed

lemma does_bind:
  assumes "does i p R B m" "\<And>a x v. R a x v \<Longrightarrow> does i v (\<lambda>b y. R' b (x @ y)) (\<lambda>y. B' (x @ y)) (f a)" "\<And>x v. B x v \<Longrightarrow> B' x v"
  shows "does i p R' B' (abind m f)"
proof (rule doesI)
  fix s a t
  assume run: "abind m f s = (a, t)" and p: "done_with i s = p"
  obtain b u where m: "m s = (b, u)" by fastforce
  obtain x where x: "co_log u = co_log s @ x" "case b of Inr c \<Rightarrow> R c (ops x) (done_with i u) | Inl _ \<Rightarrow> B (ops x) (done_with i u)"
    using doesD [OF assms(1) m p] .
  show "\<exists>ev. co_log t = co_log s @ ev \<and> (case a of Inr x \<Rightarrow> R' x (ops ev) (done_with i t) | Inl _ \<Rightarrow> B' (ops ev) (done_with i t))"
  proof (cases b)
    case (Inl e)
    then have "a = Inl e" "t = u" using run m by (simp_all add: abind_def)
    then show ?thesis using x Inl assms(3) by auto
  next
    case (Inr c)
    then have f: "f c u = (a, t)" and R: "R c (ops x) (done_with i u)" using run m x(2) by (simp_all add: abind_def)
    obtain y where "co_log t = co_log u @ y" "case a of Inr d \<Rightarrow> R' d (ops x @ ops y) (done_with i t) | Inl _ \<Rightarrow> B' (ops x @ ops y) (done_with i t)"
      using doesD [OF assms(2) [OF R] f refl] .
    then show ?thesis using x(1) by (intro exI [of _ "x @ y"]) (simp only: ops_append append_assoc simp_thms)
  qed
qed

lemma does_simple: "R a [] p \<Longrightarrow> does i p R B (areturn a)" "B [] p \<Longrightarrow> does i p R B (araise e)"
  by (auto intro!: doesI simp: areturn_def araise_def)

text \<open>Exactly these operations, or the first of them, with the radio not verified.\<close>

abbreviation performs :: "nat \<Rightarrow> operation list \<Rightarrow> ('w, 'a) sact \<Rightarrow> bool" where
  "performs i xs m \<equiv> does i False (\<lambda>_ x v. x = xs \<and> \<not> v) (\<lambda>x v. prefix x xs \<and> \<not> v) m"

lemma performs_bind: "performs i xs m \<Longrightarrow> (\<And>a. performs i ys (f a)) \<Longrightarrow> performs i (xs @ ys) (abind m f)"
  by (rule does_bind, assumption) (auto elim!: does_weaken)

lemma performs_if: "performs i xs m \<Longrightarrow> performs i ys n \<Longrightarrow> performs i (if b then xs else ys) (if b then m else n)"
  by simp

lemma performs_return: "performs i [] (areturn a)"
  by (rule does_simple) simp

lemma performs_expect: "performs i [] (expect ok t)"
  by (auto simp: expect_def intro!: does_simple)

lemma quiet_act:
  assumes "\<And>s a t. m s = (a, t) \<Longrightarrow> \<exists>ev. co_log t = co_log s @ ev \<and> ops ev = [] \<and> done_with i t = done_with i s"
  shows "does i p (\<lambda>_ x v. x = [] \<and> v = p) (\<lambda>x v. x = [] \<and> v = p) m"
proof (rule doesI)
  fix s a t
  assume "m s = (a, t)" "done_with i s = p"
  then show "\<exists>ev. co_log t = co_log s @ ev \<and> (case a of Inr x \<Rightarrow> ops ev = [] \<and> done_with i t = p | Inl _ \<Rightarrow> ops ev = [] \<and> done_with i t = p)"
    using assms [of s a t] by (auto split: sum.split)
qed

lemma cur_simps [simp]:
  "cur i (s\<lparr>co_world := w\<rparr>) = cur i s" "cur i (s\<lparr>co_job := j\<rparr>) = cur i s" "cur i (s\<lparr>co_saved := x\<rparr>) = cur i s"
  "cur i (s\<lparr>co_watch := v\<rparr>) = cur i s" "cur i (s\<lparr>co_log := l\<rparr>) = cur i s" "cur i (note_setup e s) = cur i s" "co_log (note_setup e s) = co_log s @ [e]"
  by (simp_all add: cur_def note_setup_def)

lemma done_simps [simp]:
  "done_with i (s\<lparr>co_world := w\<rparr>) = done_with i s" "done_with i (s\<lparr>co_job := j\<rparr>) = done_with i s" "done_with i (s\<lparr>co_saved := x\<rparr>) = done_with i s"
  "done_with i (s\<lparr>co_watch := v\<rparr>) = done_with i s" "done_with i (note_setup e s) = done_with i s"
  by (simp_all add: done_with_def)

lemma cur_row: "cur i (s\<lparr>co_rows := (co_rows s)[i := r]\<rparr>) = (if i < length (co_rows s) then r else cur i s)"
  by (simp add: cur_def list_update_beyond)

lemma does_row: "(\<And>r. dv_state (f r) = dv_state r) \<Longrightarrow> does i p (\<lambda>_ x v. x = [] \<and> v = p) B (on_row i f)"
  by (rule doesI) (auto simp: on_row_def done_with_def cur_row)

lemma does_save: "does i p (\<lambda>_ x v. x = [] \<and> v = p) (\<lambda>x v. x = [] \<and> v = p) (save env)"
  by (rule quiet_act) (auto simp: save_def split: prod.splits bool.splits)

lemma does_job: "does i p (\<lambda>_ x v. x = [] \<and> v = p) B (on_job f)"
  by (rule doesI) (auto simp: on_job_def)

lemma does_progress: "does i p (\<lambda>_ x v. x = [] \<and> v = p) B (update_progress i target)"
  by (rule doesI) (auto simp: update_progress_def on_job_def split: option.splits)

lemma does_note: "does i p (\<lambda>_ x v. x = [] \<and> v = p) B (note_action i action phase b)"
  by (rule doesI) (auto simp: note_action_def)

lemma does_pause: "does i p (\<lambda>_ x v. x = [] \<and> v = p) (\<lambda>x v. x = [] \<and> v = p) (pause env d)"
  by (rule quiet_act) (auto simp: pause_def split: prod.splits)

lemma does_call: "performs i [op] (call env i op)"
  by (rule doesI) (auto simp: call_def split: prod.splits sum.splits)

lemma does_checkpoint: "does i p (\<lambda>_ x v. x = [] \<and> v = p) (\<lambda>x v. x = [] \<and> v = p) (cancellation_checkpoint env)"
  by (rule quiet_act) (auto simp: cancellation_checkpoint_def abind_def lease_checkpoint_def cancellation_requested_def Let_def split: prod.splits sum.splits if_splits)

lemma does_target: "does i p (\<lambda>_ x v. x = [] \<and> v = p) (\<lambda>x v. x = [] \<and> v = p) (target_of env)"
  by (rule quiet_act) (auto simp: target_of_def Let_def)

lemma transition_target: "transition v (state_value target) = Inr t \<Longrightarrow> t = target"
  by (auto simp: transition_def rbind_Inr_iff split: if_splits)

lemma does_transition:
  "does i p (\<lambda>_ x v. x = [] \<and> (v \<longrightarrow> p \<or> target = S_VERIFIED)) (\<lambda>x v. x = [] \<and> v = p) (transition_state i target error)"
proof (rule doesI)
  fix s a t
  assume run: "transition_state i target error s = (a, t)" "done_with i s = p"
  show "\<exists>ev. co_log t = co_log s @ ev \<and> (case a of Inr x \<Rightarrow> ops ev = [] \<and> (done_with i t \<longrightarrow> p \<or> target = S_VERIFIED) | Inl _ \<Rightarrow> ops ev = [] \<and> done_with i t = p)"
  proof (cases "transition (dv_state (cur i s)) (state_value target)")
    case (Inl e)
    then show ?thesis using run by (auto simp: transition_state_def)
  next
    case (Inr u)
    then have "u = target" by (rule transition_target)
    then show ?thesis using run Inr by (auto simp: transition_state_def on_row_def done_with_def cur_row)
  qed
qed

section \<open>Steps\<close>

text \<open>A step to a state other than \<open>VERIFIED\<close> asks for what its callback asks for.\<close>

lemmas step_parts = does_bind [OF does_checkpoint] does_bind [OF does_job] does_bind [OF does_progress] does_bind [OF does_save]

lemma performs_silent: "does i False (\<lambda>_ x v. x = [] \<and> v = False) B m \<Longrightarrow> (\<And>x v. B x v \<Longrightarrow> x = [] \<and> v = False) \<Longrightarrow> performs i [] m"
  by (erule does_weaken) auto

lemma performs_parts:
  "performs i [] (cancellation_checkpoint env)" "performs i [] (save env)" "performs i [] (on_job g)" "performs i [] (update_progress i target)"
  "performs i [] (note_action i action phase b)" "performs i [] (pause env d)" "performs i [] (target_of env)"
  by (rule does_weaken, rule does_checkpoint does_save does_job [of _ _ "\<lambda>x v. x = [] \<and> v = False"] does_progress [of _ _ "\<lambda>x v. x = [] \<and> v = False"]
      does_note [of _ _ "\<lambda>x v. x = [] \<and> v = False"] does_pause does_target; simp)+

lemma performs_row: "(\<And>r. dv_state (f r) = dv_state r) \<Longrightarrow> performs i [] (on_row i f)"
  by (rule does_weaken, rule does_row [of _ _ _ "\<lambda>x v. x = [] \<and> v = False"]) auto

lemma performs_transition: "target \<noteq> S_VERIFIED \<Longrightarrow> performs i [] (transition_state i target error)"
  by (rule does_weaken, rule does_transition) auto

lemma keep_result_state [simp]: "dv_state (keep_result show result r) = dv_state r"
  by (simp add: keep_result_def Let_def split: option.split)

lemma performs_seq: "performs i [] m \<Longrightarrow> (\<And>a. performs i ys (f a)) \<Longrightarrow> performs i ys (abind m f)"
  using performs_bind [of i "[]" m ys f] by simp

lemma performs_last: "performs i xs m \<Longrightarrow> (\<And>a. performs i [] (f a)) \<Longrightarrow> performs i xs (abind m f)"
  using performs_bind [of i xs m "[]" f] unfolding append_Nil2 .

lemma performs_step: "target \<noteq> S_VERIFIED \<Longrightarrow> performs i xs m \<Longrightarrow> performs i xs (step env i target m)"
  unfolding step_def
  by (rule performs_seq [OF performs_parts(1)], rule performs_last, assumption)
     (intro performs_seq performs_transition performs_parts performs_row performs_return; simp)+

lemma performs_only: "target \<noteq> S_VERIFIED \<Longrightarrow> performs i [] (transition_only env i target)"
  unfolding transition_only_def by (intro performs_seq performs_transition performs_parts; simp)

lemma performs_op: "target \<noteq> S_VERIFIED \<Longrightarrow> (\<And>a. performs i ys (f a)) \<Longrightarrow> performs i (op # ys) (abind (step env i target (call env i op)) f)"
  using performs_bind [OF performs_step [OF _ does_call]] by fastforce

section \<open>The parts of a setup\<close>

lemma performs_op_end: "target \<noteq> S_VERIFIED \<Longrightarrow> performs i [op] (step env i target (call env i op))"
  by (intro performs_step does_call)

lemmas performs_intros = performs_op performs_op_end performs_seq [OF performs_only] performs_only performs_seq [OF performs_expect] performs_expect
  performs_seq [OF performs_row] performs_row performs_parts performs_return

lemma performs_identify:
  "performs i (Identify # (if so_patched opt \<or> so_original opt then [PresentationPreflight] else []) @ [BackUp]) (identify_and_back_up env i opt)"
  unfolding identify_and_back_up_def
  by (intro performs_intros performs_bind performs_if; simp)

lemma performs_choice:
  assumes "performs i xs m" "\<And>a. \<exists>b. performs i (ys b) (f a)"
  shows "does i False (\<lambda>_ x v. \<exists>b. x = xs @ ys b \<and> \<not> v) (\<lambda>x v. \<exists>b. prefix x (xs @ ys b) \<and> \<not> v) (abind m f)"
proof (rule does_bind [OF assms(1)])
  fix a x v
  assume x: "x = xs \<and> \<not> v"
  obtain b where "performs i (ys b) (f a)" using assms(2) by blast
  then show "does i v (\<lambda>_ y v. \<exists>b. x @ y = xs @ ys b \<and> \<not> v) (\<lambda>y v. \<exists>b. prefix (x @ y) (xs @ ys b) \<and> \<not> v) (f a)"
    using x by (auto elim!: does_weaken)
qed auto

lemma does_seq: "performs i [] m \<Longrightarrow> (\<And>a. does i False R B (f a)) \<Longrightarrow> B [] False \<Longrightarrow> does i False R B (abind m f)"
  by (rule does_bind, assumption) auto

lemma does_pre:
  "performs i xs m \<Longrightarrow> (\<And>a. does i False (\<lambda>b y. R b (xs @ y)) (\<lambda>y. B (xs @ y)) (f a)) \<Longrightarrow> (\<And>x. prefix x xs \<Longrightarrow> B x False) \<Longrightarrow> does i False R B (abind m f)"
  by (rule does_bind, assumption) auto

definition ssh_ops :: "bool \<Rightarrow> operation list" where
  "ssh_ops active = SshStatus # (if active then [] else [ActivateSsh]) @ [PersistSsh, RebootVerifySsh]"

lemma does_enable_ssh:
  "does i False (\<lambda>_ x v. \<exists>b. x = ssh_ops b \<and> \<not> v) (\<lambda>x v. \<exists>b. prefix x (ssh_ops b) \<and> \<not> v) (enable_ssh env i)"
proof -
  have rest: "performs i ((if b then [] else [ActivateSsh]) @ [PersistSsh, RebootVerifySsh])
      (abind (if b then transition_only env i S_SSH_ALREADY_ACTIVE else abind (transition_only env i S_SSH_ACTIVATION_PENDING) (\<lambda>_.
              abind (step env i S_SSH_TEMPORARY_ACTIVE (call env i ActivateSsh)) (\<lambda>_. areturn ()))) (\<lambda>_.
       abind (step env i S_SSH_PERSISTENCE_PENDING (call env i PersistSsh)) (\<lambda>_.
       abind (step env i S_SSH_REBOOT_PENDING (call env i RebootVerifySsh)) (\<lambda>reboot.
       abind (step env i S_SSH_VERIFIED (pause env reboot)) (\<lambda>verified.
         expect (get_key verified ''verified'' \<noteq> VBool False) ''SSH konnte nach dem Neustart nicht bestaetigt werden.'')))))" for b
    by (intro performs_bind [where xs = "if b then [] else [ActivateSsh]"] performs_if performs_intros performs_seq [OF performs_step [OF _ performs_parts(6)]]; simp)
  have choice: "does i False (\<lambda>_ x v. \<exists>b. x = ssh_ops b \<and> \<not> v) (\<lambda>x v. \<exists>b. prefix x (ssh_ops b) \<and> \<not> v)
      (abind (step env i S_SSH_STATUS_PENDING (call env i SshStatus)) f)"
    if "\<And>status. \<exists>b. performs i ((if b then [] else [ActivateSsh]) @ [PersistSsh, RebootVerifySsh]) (f status)" for f :: "dict \<Rightarrow> ('a, unit) sact"
    using performs_choice [OF performs_op_end [of S_SSH_STATUS_PENDING i SshStatus env] that] by (simp add: ssh_ops_def)
  show ?thesis unfolding enable_ssh_def
    by (rule does_seq [OF performs_only], simp, rule choice, rule exI, rule performs_seq [OF performs_row], simp, rule performs_seq [OF performs_parts(2)], rule rest)
       (simp add: ssh_ops_def)
qed

definition route_ops :: "setup_options \<Rightarrow> server_target \<Rightarrow> operation list" where
  "route_ops opt t = (if so_patched opt then [PresentationPrepare] else []) @ [BackupRouting, Route t] @ (if so_patched opt then [PresentationActivate] else [])"

text \<open>As \<open>performs\<close>, with what is returned.\<close>

abbreviation gives :: "nat \<Rightarrow> operation list \<Rightarrow> 'a \<Rightarrow> ('w, 'a) sact \<Rightarrow> bool" where
  "gives i xs r m \<equiv> does i False (\<lambda>a x v. a = r \<and> x = xs \<and> \<not> v) (\<lambda>x v. prefix x xs \<and> \<not> v) m"

lemma gives_bind: "performs i xs m \<Longrightarrow> (\<And>a. gives i ys r (f a)) \<Longrightarrow> gives i (xs @ ys) r (abind m f)"
  by (rule does_bind, assumption) (auto elim!: does_weaken)

lemma gives_seq: "performs i [] m \<Longrightarrow> (\<And>a. gives i ys r (f a)) \<Longrightarrow> gives i ys r (abind m f)"
  by (rule gives_bind [where xs = "[]", unfolded append_Nil])

lemma gives_return: "gives i [] a (areturn a)"
  by (rule does_simple) simp

lemma does_route:
  "does i False (\<lambda>t x v. x = route_ops opt t \<and> \<not> v) (\<lambda>x v. \<exists>t. prefix x (route_ops opt t) \<and> \<not> v) (route_radio env i opt)"
proof -
  let ?pre = "(if so_patched opt then [PresentationPrepare] else []) @ [BackupRouting]"
  have act: "performs i (if so_patched opt then [PresentationActivate] else [])
      (if so_patched opt then step env i S_PRESENTATION_CONFIGURED (call env i PresentationActivate) else areturn [])"
    by (intro performs_if performs_intros) simp
  have routed: "gives i ([Route t] @ (if so_patched opt then [PresentationActivate] else []) @ []) t
      (abind (transition_only env i S_BASSWIESN_ROUTE_PENDING) (\<lambda>_.
       abind (step env i S_BASSWIESN_ROUTE_ACTIVE (call env i (Route t))) (\<lambda>_.
       abind (if so_patched opt then step env i S_PRESENTATION_CONFIGURED (call env i PresentationActivate) else areturn []) (\<lambda>_. areturn t))))" for t
    by (intro gives_seq [OF performs_only] gives_bind [OF performs_op_end] gives_bind [OF act] gives_return; simp)
  have rest: "does i False (\<lambda>t x v. ?pre @ x = route_ops opt t \<and> \<not> v) (\<lambda>x v. \<exists>t. prefix (?pre @ x) (route_ops opt t) \<and> \<not> v)
      (abind (target_of env) (\<lambda>t.
       abind (transition_only env i S_BASSWIESN_ROUTE_PENDING) (\<lambda>_.
       abind (step env i S_BASSWIESN_ROUTE_ACTIVE (call env i (Route t))) (\<lambda>_.
       abind (if so_patched opt then step env i S_PRESENTATION_CONFIGURED (call env i PresentationActivate) else areturn []) (\<lambda>_. areturn t)))))"
    by (rule does_seq [OF performs_parts(7)], rule does_weaken, rule routed) (auto simp: route_ops_def intro: exI)
  have first: "performs i (if so_patched opt then [PresentationPrepare] else [])
     (if so_patched opt then abind (step env i S_PRESENTATION_PREPARED (call env i PresentationPrepare)) (\<lambda>prepared. expect (f prepared) t) else areturn ())" for f t
    by (intro performs_if performs_intros) simp
  have "prefix ?pre (route_ops opt t)" for t unfolding route_ops_def by simp
  then have before: "\<exists>t. prefix x (route_ops opt t) \<and> \<not> False" if "prefix x ?pre" for x
    using that prefix_order.trans by blast
  show ?thesis unfolding route_radio_def
  proof (rule does_pre [OF first])
    show "does i False (\<lambda>t y v. (if so_patched opt then [PresentationPrepare] else []) @ y = route_ops opt t \<and> \<not> v)
        (\<lambda>y v. \<exists>t. prefix ((if so_patched opt then [PresentationPrepare] else []) @ y) (route_ops opt t) \<and> \<not> v)
        (abind (step env i S_ROUTING_BACKUP_COMPLETE (call env i BackupRouting)) (\<lambda>routing_backup. abind (expect (g routing_backup) u) (\<lambda>_.
          abind (target_of env) (\<lambda>t.
          abind (transition_only env i S_BASSWIESN_ROUTE_PENDING) (\<lambda>_.
          abind (step env i S_BASSWIESN_ROUTE_ACTIVE (call env i (Route t))) (\<lambda>_.
          abind (if so_patched opt then step env i S_PRESENTATION_CONFIGURED (call env i PresentationActivate) else areturn []) (\<lambda>_. areturn t)))))))" for g u
      using rest before by (intro does_pre [OF performs_op_end] does_seq [OF performs_expect]) (auto simp: prefix_Cons)
  qed (use before in auto)
qed

lemma performs_restart:
  "performs i [RebootRadio, Reconnect, if so_patched opt then PresentationVerify else ConfigureDefaults] (restart_radio env i opt)"
proof -
  have last: "performs i [if so_patched opt then PresentationVerify else ConfigureDefaults]
      (if so_patched opt then abind (step env i S_PRESENTATION_VERIFIED (call env i PresentationVerify)) (\<lambda>presentation.
         expect (f presentation) t) else abind (step env i S_RADIO_REACHABLE (call env i ConfigureDefaults)) (\<lambda>defaults. expect (g defaults) u))" for f g t u
    by (auto intro!: performs_intros)
  have asked: "performs i (op # ys) (abind (call env i op) f)" if "\<And>a. performs i ys (f a)" for op ys and f :: "dict \<Rightarrow> ('a, unit) sact"
    using performs_bind [OF does_call that] by simp
  show ?thesis unfolding restart_radio_def
    by (intro last asked performs_op performs_seq [OF performs_only] performs_seq [OF performs_expect] performs_seq [OF performs_step [OF _ performs_parts(6)]]; simp)
qed

text \<open>The last step makes the radio verified; all operations lie before it.\<close>

lemma does_verified: "does i False (\<lambda>_ x v. x = []) (\<lambda>x v. x = []) (step env i S_VERIFIED (pause env d))"
proof -
  have any: "does i p R B m \<Longrightarrow> (\<And>a x v. R a x v \<Longrightarrow> x = []) \<Longrightarrow> (\<And>x v. B x v \<Longrightarrow> x = []) \<Longrightarrow> does i p (\<lambda>_ x v. x = []) (\<lambda>x v. x = []) m"
    for p R B and m :: "('a, 'b) sact" by (erule does_weaken) auto
  have silent: "does i p (\<lambda>_ x v. x = []) (\<lambda>x v. x = []) (abind m f)"
    if "does i p (\<lambda>_ x v. x = []) (\<lambda>x v. x = []) m" "\<And>a p. does i p (\<lambda>_ x v. x = []) (\<lambda>x v. x = []) (f a)"
    for p and m :: "('a, 'b) sact" and f :: "'b \<Rightarrow> ('a, 'c) sact"
    using that by (auto intro: does_bind)
  have row: "does i p (\<lambda>_ x v. x = [] \<and> v = p) (\<lambda>x v. x = []) (on_row i (keep_result h r))" for p h r by (rule does_row) simp
  show ?thesis unfolding step_def
    by (intro silent any [OF does_checkpoint] any [OF does_pause] any [OF does_transition] any [OF does_job [where B = "\<lambda>x v. x = []"]]
        any [OF does_progress [where B = "\<lambda>x v. x = []"]] any [OF row] any [OF does_save] does_simple) auto
qed

abbreviation finishes :: "nat \<Rightarrow> operation list \<Rightarrow> ('w, 'a) sact \<Rightarrow> bool" where
  "finishes i xs m \<equiv> does i False (\<lambda>_ x v. x = xs) (\<lambda>x v. prefix x xs \<and> (v \<longrightarrow> x = xs)) m"

lemma finishes_pre: "performs i xs m \<Longrightarrow> (\<And>a. finishes i ys (f a)) \<Longrightarrow> finishes i (xs @ ys) (abind m f)"
  by (rule does_pre, assumption) (auto elim!: does_weaken)

lemma finishes_seq: "performs i [] m \<Longrightarrow> (\<And>a. finishes i ys (f a)) \<Longrightarrow> finishes i ys (abind m f)"
  by (rule finishes_pre [where xs = "[]", unfolded append_Nil])

lemma finishes_op: "target \<noteq> S_VERIFIED \<Longrightarrow> (\<And>a. finishes i ys (f a)) \<Longrightarrow> finishes i (op # ys) (abind (step env i target (call env i op)) f)"
  by (rule finishes_pre [where xs = "[op]", unfolded append.simps]) (intro performs_op_end)

lemma does_nothing: "does i p (\<lambda>_ x v. x = []) (\<lambda>x v. x = []) m \<Longrightarrow> does i p (\<lambda>_ x v. x = []) (\<lambda>x v. prefix x [] \<and> (v \<longrightarrow> x = [])) m"
  by (erule does_weaken) auto

lemma finishes_verified:
  assumes "\<And>a p. does i p (\<lambda>_ x v. x = []) (\<lambda>x v. x = []) (f a)"
  shows "finishes i [] (abind (step env i S_VERIFIED (pause env d)) f)"
  by (rule does_nothing, rule does_bind [OF does_verified]) (use assms in auto)

lemma does_record: "does i p (\<lambda>_ x v. x = []) (\<lambda>x v. x = []) (if b then areturn () else abind (note_action i action phase ok) (\<lambda>_. save env))"
  by (auto intro!: does_simple does_bind [OF does_note [where B = "\<lambda>x v. x = []"]] does_weaken [OF does_save])

lemma finishes_restore:
  "finishes i [RestorePrepare, RestoreActivate, RebootRadio, Reconnect, RestoreVerify] (restore_original env i dry_run)"
  unfolding restore_original_def
  by (intro finishes_op finishes_seq [OF performs_expect] finishes_seq [OF performs_only] finishes_verified does_record; simp)

definition finish_ops :: "setup_options \<Rightarrow> server_target \<Rightarrow> operation list" where
  "finish_ops opt t = (if so_pair opt then [PairAccount t] else []) @ ReadPresets # (if so_play opt then [PlaybackTest t] else [])"

lemma finishes_finish: "finishes i (finish_ops opt t) (finish_radio env i opt t)"
proof -
  have pair: "performs i (if so_pair opt then [PairAccount t] else []) (if so_pair opt then abind (transition_only env i S_MARGE_ACCOUNT_PENDING) (\<lambda>_.
         abind (step env i S_MARGE_ACCOUNT_ACTIVE (call env i (PairAccount t))) (\<lambda>account. expect (f account) u)) else areturn ())" for f u
    by (intro performs_if performs_intros) simp_all
  have play: "performs i (if so_play opt then [PlaybackTest t] else []) (if so_play opt then
         abind (step env i S_PLAYBACK_READY (call env i (PlaybackTest t))) (\<lambda>playback. expect (f playback) u) else areturn ())" for f u
    by (intro performs_if performs_intros) simp
  have "finishes i ((if so_pair opt then [PairAccount t] else []) @ ReadPresets # (if so_play opt then [PlaybackTest t] else []) @ []) (finish_radio env i opt t)"
    unfolding finish_radio_def by (intro finishes_pre [OF pair] finishes_op finishes_pre [OF play] finishes_verified does_simple; simp)
  then show ?thesis by (simp only: finish_ops_def append_Nil2)
qed

section \<open>What is run is what was shown\<close>

text \<open>
  The operation behind each entry of a plan's sequence. Nothing is asked of the radio for the final
  readback, and SSH is not activated where the radio reports it as active.
\<close>

definition operation_of :: "bool \<Rightarrow> server_target \<Rightarrow> string \<Rightarrow> operation list" where
  "operation_of active t n = (case map_of [(''identity'', [Identify]), (''presentation_preflight'', [PresentationPreflight]), (''backup'', [BackUp]),
     (''ssh_status'', [SshStatus]), (''ssh_activation'', if active then [] else [ActivateSsh]), (''ssh_persistence'', [PersistSsh]),
     (''ssh_reboot_verification'', [RebootVerifySsh]), (''presentation_prepare'', [PresentationPrepare]), (''routing_backup'', [BackupRouting]),
     (''routing'', [Route t]), (''presentation_activate'', [PresentationActivate]), (''radio_reboot'', [RebootRadio]), (''reconnect'', [Reconnect]),
     (''presentation_verify'', [PresentationVerify]), (''configure_defaults'', [ConfigureDefaults]), (''local_account_pairing'', [PairAccount t]),
     (''preset_readback'', [ReadPresets]), (''volume_1_playback'', [PlaybackTest t]), (''final_readback'', []), (''restore_prepare'', [RestorePrepare]),
     (''restore_activate'', [RestoreActivate]), (''restore_verify'', [RestoreVerify])] n of None \<Rightarrow> [] | Some xs \<Rightarrow> xs)"

definition sequence_of :: "setup_options \<Rightarrow> string list" where
  "sequence_of opt = (if so_original opt then ORIGINAL_SEQUENCE else plan_sequence (so_patched opt) (so_ssh opt) (so_pair opt) (so_play opt))"

definition planned_ops :: "setup_options \<Rightarrow> bool \<Rightarrow> server_target \<Rightarrow> operation list" where
  "planned_ops opt active t = concat (map (operation_of active t) (sequence_of opt))"

lemma planned_original:
  "so_original opt \<Longrightarrow> planned_ops opt active t =
     (Identify # (if so_patched opt \<or> so_original opt then [PresentationPreflight] else []) @ [BackUp]) @ [RestorePrepare, RestoreActivate, RebootRadio, Reconnect, RestoreVerify]"
  by (simp add: planned_ops_def sequence_of_def ORIGINAL_SEQUENCE_def operation_of_def)

lemma planned_normal:
  "\<not> so_original opt \<Longrightarrow> planned_ops opt active t =
     (Identify # (if so_patched opt \<or> so_original opt then [PresentationPreflight] else []) @ [BackUp]) @
     (if so_ssh opt then ssh_ops active else []) @ route_ops opt t @
     [RebootRadio, Reconnect, if so_patched opt then PresentationVerify else ConfigureDefaults] @ finish_ops opt t"
  by (simp add: planned_ops_def sequence_of_def plan_sequence_def operation_of_def ssh_ops_def route_ops_def finish_ops_def)

abbreviation along_plan :: "setup_options \<Rightarrow> operation list \<Rightarrow> bool \<Rightarrow> bool" where
  "along_plan opt x v \<equiv> \<exists>active t. prefix x (planned_ops opt active t) \<and> (v \<longrightarrow> x = planned_ops opt active t)"

lemma finishes_record:
  assumes "finishes i xs m"
  shows "finishes i xs (abind m (\<lambda>_. if b then areturn () else abind (note_action i action phase ok) (\<lambda>_. save env)))"
  by (rule does_bind [OF assms], rule does_weaken, rule does_record) auto

lemma finishes_within:
  assumes "finishes i ys m" "F t = xs @ ys"
  shows "does i False (\<lambda>_ y v. \<exists>t. xs @ y = F t) (\<lambda>y v. \<exists>t. prefix (xs @ y) (F t) \<and> (v \<longrightarrow> xs @ y = F t)) m"
  using assms(1)
proof (rule does_weaken)
  show "y = ys \<Longrightarrow> \<exists>t. xs @ y = F t" for y using assms(2) [symmetric] by auto
  show "prefix y ys \<and> (v \<longrightarrow> y = ys) \<Longrightarrow> \<exists>t. prefix (xs @ y) (F t) \<and> (v \<longrightarrow> xs @ y = F t)" for y v
    by (rule exI [of _ t]) (simp add: assms(2))
qed

lemma does_set_up:
  fixes env :: "'w setup_env"
  defines "rest \<equiv> \<lambda>opt t. route_ops opt t @ [RebootRadio, Reconnect, if so_patched opt then PresentationVerify else ConfigureDefaults] @ finish_ops opt t"
  assumes "opt = options_of plan"
  shows "does i False (\<lambda>_ x v. \<exists>b t. x = (if so_ssh opt then ssh_ops b else []) @ rest opt t)
    (\<lambda>x v. \<exists>b t. prefix x ((if so_ssh opt then ssh_ops b else []) @ rest opt t) \<and> (v \<longrightarrow> x = (if so_ssh opt then ssh_ops b else []) @ rest opt t)) (set_up_radio env i plan)"
proof -
  let ?tail = "\<lambda>t. [RebootRadio, Reconnect, if so_patched opt then PresentationVerify else ConfigureDefaults] @ finish_ops opt t"
  let ?noted = "\<lambda>_::unit. if dry_plan plan then areturn () else abind (note_action i ''setup_rebuild'' (state_value S_VERIFIED) True) (\<lambda>_. save env)"
  have finished: "finishes i (?tail t) (abind (restart_radio env i opt) (\<lambda>_. abind (finish_radio env i opt t) ?noted))" for t
    by (intro finishes_pre [OF performs_restart] finishes_record finishes_finish)
  have routed: "does i False (\<lambda>_ x v. \<exists>t. x = rest opt t) (\<lambda>x v. \<exists>t. prefix x (rest opt t) \<and> (v \<longrightarrow> x = rest opt t))
      (abind (route_radio env i opt) (\<lambda>t. abind (restart_radio env i opt) (\<lambda>_. abind (finish_radio env i opt t) ?noted)))"
  proof (rule does_bind [OF does_route])
    fix t x v
    assume "x = route_ops opt t \<and> \<not> v"
    then show "does i v (\<lambda>_ y v. \<exists>t. x @ y = rest opt t) (\<lambda>y v. \<exists>t. prefix (x @ y) (rest opt t) \<and> (v \<longrightarrow> x @ y = rest opt t))
        (abind (restart_radio env i opt) (\<lambda>_. abind (finish_radio env i opt t) ?noted))"
      using finishes_within [OF finished [of t], of "rest opt" t x] by (simp only: rest_def simp_thms)
  next
    fix x v
    assume "\<exists>t. prefix x (route_ops opt t) \<and> \<not> v"
    then show "\<exists>t. prefix x (rest opt t) \<and> (v \<longrightarrow> x = rest opt t)" unfolding rest_def by (meson prefix_prefix)
  qed
  have ssh: "does i False (\<lambda>_ x v. \<exists>b. x = (if so_ssh opt then ssh_ops b else []) \<and> \<not> v) (\<lambda>x v. \<exists>b. prefix x (if so_ssh opt then ssh_ops b else []) \<and> \<not> v)
      (if so_ssh opt then enable_ssh env i else abind (on_row i (\<lambda>r. r\<lparr>dv_ssh_status := u\<rparr>)) (\<lambda>_. save env))" for u
  proof (cases "so_ssh opt")
    case True
    then show ?thesis using does_enable_ssh [of i env] by simp
  next
    case False
    have "performs i [] (abind (on_row i (\<lambda>r. r\<lparr>dv_ssh_status := u\<rparr>)) (\<lambda>_. save env))"
      by (intro performs_seq performs_row performs_parts) simp
    then show ?thesis using False by simp
  qed
  show ?thesis unfolding set_up_radio_def Let_def assms(2) [symmetric]
  proof (rule does_bind [OF ssh])
    fix a x v
    assume "\<exists>b. x = (if so_ssh opt then ssh_ops b else []) \<and> \<not> v"
    then obtain b where x: "x = (if so_ssh opt then ssh_ops b else [])" "\<not> v" by blast
    show "does i v (\<lambda>_ y v. \<exists>b t. x @ y = (if so_ssh opt then ssh_ops b else []) @ rest opt t)
        (\<lambda>y v. \<exists>b t. prefix (x @ y) ((if so_ssh opt then ssh_ops b else []) @ rest opt t) \<and> (v \<longrightarrow> x @ y = (if so_ssh opt then ssh_ops b else []) @ rest opt t))
        (abind (route_radio env i opt) (\<lambda>t. abind (restart_radio env i opt) (\<lambda>_. abind (finish_radio env i opt t) ?noted)))"
      using routed unfolding x(1) eq_False [THEN iffD2, OF x(2)]
    proof (rule does_weaken)
      let ?s = "if so_ssh opt then ssh_ops b else []"
      show "\<exists>b t. ?s @ y = (if so_ssh opt then ssh_ops b else []) @ rest opt t" if "\<exists>t. y = rest opt t" for y using that by blast
      show "\<exists>b t. prefix (?s @ y) ((if so_ssh opt then ssh_ops b else []) @ rest opt t) \<and> (v \<longrightarrow> ?s @ y = (if so_ssh opt then ssh_ops b else []) @ rest opt t)"
        if "\<exists>t. prefix y (rest opt t) \<and> (v \<longrightarrow> y = rest opt t)" for y v using that same_prefix_prefix by blast
    qed
  next
    fix x v
    assume "\<exists>b. prefix x (if so_ssh opt then ssh_ops b else []) \<and> \<not> v"
    then show "\<exists>b t. prefix x ((if so_ssh opt then ssh_ops b else []) @ rest opt t) \<and> (v \<longrightarrow> x = (if so_ssh opt then ssh_ops b else []) @ rest opt t)"
      by (meson prefix_prefix)
  qed
qed

lemma does_device_body:
  "does i False (\<lambda>_ x v. \<exists>active t. x = planned_ops (options_of plan) active t) (along_plan (options_of plan)) (device_body env i dry_run plan)"
proof -
  let ?opt = "options_of plan"
  let ?first = "Identify # (if so_patched ?opt \<or> so_original ?opt then [PresentationPreflight] else []) @ [BackUp]"
  have prefixes: "prefix ?first (planned_ops ?opt active t)" for active t
    by (cases "so_original ?opt") (simp_all only: planned_original planned_normal not_False_eq_True, simp_all)
  then have before: "along_plan ?opt x False" if "prefix x ?first" for x using that prefix_order.trans by blast
  show ?thesis
  proof (cases "so_original ?opt")
    case True
    have "does i False (\<lambda>_ x v. \<exists>active t. x = planned_ops ?opt active t) (along_plan ?opt) (abind (identify_and_back_up env i ?opt) (\<lambda>_. restore_original env i dry_run))"
      by (rule does_pre [OF performs_identify], rule does_weaken, rule finishes_restore) (use prefixes in \<open>auto simp: planned_original [OF True] prefix_Cons\<close>)
    then show ?thesis using True by (simp add: device_body_def)
  next
    case False
    have "does i False (\<lambda>_ x v. \<exists>active t. x = planned_ops ?opt active t) (along_plan ?opt) (abind (identify_and_back_up env i ?opt) (\<lambda>_. set_up_radio env i plan))"
      by (rule does_pre [OF performs_identify], rule does_weaken, rule does_set_up [OF refl])
         (use before in \<open>simp_all only: planned_normal [OF False] same_append_eq same_prefix_prefix append_assoc\<close>)
    then show ?thesis using False by (simp add: device_body_def)
  qed
qed

section \<open>Handlers\<close>

text \<open>Actions that ask for nothing and make no radio verified.\<close>

definition idles :: "nat \<Rightarrow> 'w coordination \<Rightarrow> 'w coordination \<Rightarrow> bool" where
  "idles i s t = (\<exists>ev. co_log t = co_log s @ ev \<and> ops ev = [] \<and> (done_with i t \<longrightarrow> done_with i s))"

definition idle :: "nat \<Rightarrow> ('w, 'a) sact \<Rightarrow> bool" where
  "idle i m = (\<forall>s. idles i s (snd (m s)))"

lemma idles_refl: "idles i s s"
  by (auto simp: idles_def)

lemma idles_trans: "idles i s t \<Longrightarrow> idles i t u \<Longrightarrow> idles i s u"
  unfolding idles_def by (metis (full_types) append_assoc append_Nil ops_append)

lemma idle_bind: "idle i m \<Longrightarrow> (\<And>a. idle i (f a)) \<Longrightarrow> idle i (abind m f)"
  unfolding idle_def abind_def by (auto split: prod.split sum.split) (metis idles_trans snd_conv)+

lemma idle_catching: "idle i m \<Longrightarrow> (\<And>e. idle i (h e)) \<Longrightarrow> idle i (catching m h)"
  unfolding idle_def catching_def by (auto split: prod.split sum.split) (metis idles_trans snd_conv)+

lemma idle_parts: "idle i (save env)" "idle i (on_job g)" "idle i (stamp_job env h)" "idle i (note_action i action phase b)" "idle i (areturn a)"
  by (auto simp: idle_def idles_def stamp_job_def on_job_def note_action_def save_def areturn_def split: prod.split bool.split)

lemma idle_row: "(\<And>r. dv_state (g r) = dv_state r \<or> dv_state (g r) \<noteq> state_value S_VERIFIED) \<Longrightarrow> idle i (on_row i g)"
  by (auto simp: idle_def idles_def on_row_def done_with_def cur_row) (metis append_Nil2 ops.simps(1))+

lemma idle_state: "(\<And>s. idle i (g s)) \<Longrightarrow> idle i (\<lambda>s. g s s)"
  by (simp add: idle_def)

lemma idle_guarded: "idle i m \<Longrightarrow> idle i (\<lambda>s. if P s then m s else (Inr (), s))"
  by (simp add: idle_def idles_refl)

lemma idle_if: "idle i m \<Longrightarrow> idle i n \<Longrightarrow> idle i (if b then m else n)"
  by simp

lemma idle_transition: "target \<noteq> S_VERIFIED \<Longrightarrow> idle i (transition_state i target error :: ('w, unit) sact)"
proof -
  assume "target \<noteq> S_VERIFIED"
  then have "idles i s (snd (transition_state i target error s))" for s :: "'w coordination"
    using does_transition [of i "done_with i s" target error] unfolding does_def idles_def
    by (cases "transition_state i target error s") (fastforce split: sum.splits)
  then show ?thesis by (simp add: idle_def)
qed

lemma idle_force: "idle i (force_failed i error)"
  unfolding force_failed_def by (intro idle_catching idle_transition idle_row) (auto simp: state_value.simps)

lemma idle_cancelled: "idle i (device_cancelled env i)"
  unfolding device_cancelled_def
  by (intro idle_bind idle_guarded idle_force idle_parts idle_row idle_state [where g = "\<lambda>s. stamp_job env (_ s)"]) (auto simp: unverified_def)

lemma idle_failed: "idle i (device_failed env i plan e)"
  unfolding device_failed_def Let_def
  by (intro idle_bind idle_guarded idle_force idle_if idle_parts idle_row) (auto simp: unverified_def)

text \<open>The setup of one radio that is not verified yet.\<close>

lemma run_device_along:
  assumes "run_device env i dry_run s = (a, t)" "\<not> done_with i s"
  shows "\<exists>ev. co_log t = co_log s @ ev \<and> along_plan (options_of (load_json (jb_plan (co_job s)))) (ops ev) (done_with i t)"
proof -
  let ?plan = "load_json (jb_plan (co_job s))" and ?opt = "options_of (load_json (jb_plan (co_job s)))"
  obtain b u where body: "device_body env i dry_run ?plan s = (b, u)" by fastforce
  have "done_with i s = False" using assms(2) by simp
  then obtain ev where log: "co_log u = co_log s @ ev"
      and res: "case b of Inr x \<Rightarrow> \<exists>active t. ops ev = planned_ops ?opt active t | Inl _ \<Rightarrow> along_plan ?opt (ops ev) (done_with i u)"
    by (rule doesD [OF does_device_body body])
  have ev: "co_log u = co_log s @ ev" "along_plan ?opt (ops ev) (done_with i u)" using log res by (cases b; auto)+
  show ?thesis
  proof (cases b)
    case (Inr x)
    then show ?thesis using assms(1) body ev by (auto simp: run_device_def Let_def catching_def)
  next
    case (Inl e)
    let ?h = "if e = CancellationRequested then device_cancelled env i else if e = Interrupted \<or> e = Broken then araise e else device_failed env i ?plan e"
    have "idle i ?h" using idle_cancelled [of i env] idle_failed [of i env] by (simp add: idle_def araise_def idles_refl)
    moreover have "?h u = (a, t)" using assms(1) body Inl by (simp add: run_device_def Let_def catching_def)
    ultimately have "idles i u t" unfolding idle_def by (metis snd_conv)
    then obtain ev' where "co_log t = co_log u @ ev'" "ops ev' = []" "done_with i t \<longrightarrow> done_with i u" unfolding idles_def by blast
    then show ?thesis using ev by (intro exI [of _ "ev @ ev'"]) auto
  qed
qed

section \<open>What a run leaves alone\<close>

text \<open>
  Actions for radio \<open>i\<close> only add to the log, ask only radio \<open>i\<close>, and leave the other radios, the number of
  radios, the identity of the radio and the plan of the job as they are.
\<close>

definition confined :: "nat \<Rightarrow> 'w coordination \<Rightarrow> 'w coordination \<Rightarrow> bool" where
  "confined i s t = ((\<exists>ev. co_log t = co_log s @ ev \<and> (\<forall>op d. Called op d \<in> set ev \<longrightarrow> d = dv_device (cur i s))) \<and>
     length (co_rows t) = length (co_rows s) \<and> (\<forall>j. j \<noteq> i \<longrightarrow> cur j t = cur j s) \<and> dv_device (cur i t) = dv_device (cur i s) \<and>
     jb_plan (co_job t) = jb_plan (co_job s) \<and> jb_id (co_job t) = jb_id (co_job s))"

definition framed :: "nat \<Rightarrow> ('w, 'a) sact \<Rightarrow> bool" where
  "framed i m = (\<forall>s. confined i s (snd (m s)))"

named_theorems framed_intros \<open>actions for one radio\<close>

lemma confined_refl: "confined i s s"
  by (auto simp: confined_def)

lemma confined_trans: "confined i s t \<Longrightarrow> confined i t u \<Longrightarrow> confined i s u"
  unfolding confined_def by (elim conjE exE) (rule conjI, rule_tac x = "ev @ eva" in exI, auto)

lemma framed_bind [framed_intros]: "framed i m \<Longrightarrow> (\<And>a. framed i (f a)) \<Longrightarrow> framed i (abind m f)"
  unfolding framed_def abind_def by (auto split: prod.split sum.split) (metis confined_trans snd_conv)+

lemma framed_catching [framed_intros]: "framed i m \<Longrightarrow> (\<And>e. framed i (h e)) \<Longrightarrow> framed i (catching m h)"
  unfolding framed_def catching_def by (auto split: prod.split sum.split) (metis confined_trans snd_conv)+

lemma framed_simple [framed_intros]: "framed i (areturn a)" "framed i (araise e)" "framed i (expect ok t)"
  by (simp_all add: framed_def areturn_def araise_def expect_def confined_refl)

lemma framed_if [framed_intros]: "framed i m \<Longrightarrow> framed i n \<Longrightarrow> framed i (if b then m else n)"
  by simp

lemma framed_guarded [framed_intros]: "framed i m \<Longrightarrow> framed i (\<lambda>s. if P s then m s else (Inr (), s))"
  by (simp add: framed_def confined_refl)

lemma framed_row [framed_intros]: "(\<And>r. dv_device (g r) = dv_device r) \<Longrightarrow> framed i (on_row i g)"
  by (auto simp: framed_def confined_def on_row_def cur_row) (simp add: cur_def)

lemma framed_parts [framed_intros]:
  "framed i (save env)" "framed i (note_action i action phase b)" "framed i (call env i op)" "framed i (pause env d)"
  "framed i (target_of env)" "framed i (update_progress i target)" "framed i (cancellation_checkpoint env)"
  by (auto simp: framed_def confined_def save_def note_action_def call_def pause_def target_of_def Let_def update_progress_def on_job_def
      cancellation_checkpoint_def abind_def lease_checkpoint_def cancellation_requested_def note_setup_def cur_def split: prod.splits bool.splits option.splits sum.splits)

lemma framed_job [framed_intros]: "(\<And>j. jb_plan (g j) = jb_plan j \<and> jb_id (g j) = jb_id j) \<Longrightarrow> framed i (on_job g)"
  by (auto simp: framed_def confined_def on_job_def)

lemma framed_transition [framed_intros]: "framed i (transition_state i target error)"
  using framed_row [of "\<lambda>r. r\<lparr>dv_state := state_value _, dv_last_error := error\<rparr>" i]
  by (auto simp: framed_def transition_state_def confined_refl split: sum.split)

lemma keep_result_device [simp]: "dv_device (keep_result h result r) = dv_device r"
  by (simp add: keep_result_def Let_def split: option.split)

lemma framed_step [framed_intros]: "framed i m \<Longrightarrow> framed i (step env i target m)"
  unfolding step_def by (intro framed_intros; simp)

lemma framed_only [framed_intros]: "framed i (transition_only env i target)"
  unfolding transition_only_def by (intro framed_intros; simp)

lemma framed_body: "framed i (device_body env i dry_run plan)"
  unfolding device_body_def identify_and_back_up_def restore_original_def set_up_radio_def Let_def enable_ssh_def route_radio_def restart_radio_def finish_radio_def
  by (intro framed_intros; simp)

lemma framed_stamp: "(\<And>n j. jb_plan (g n j) = jb_plan j \<and> jb_id (g n j) = jb_id j) \<Longrightarrow> framed i (stamp_job env g)"
  by (auto simp: framed_def confined_def stamp_job_def on_job_def)

lemma framed_state: "(\<And>s. framed i (g s)) \<Longrightarrow> framed i (\<lambda>s. g s s)"
  by (simp add: framed_def)

lemma framed_force [framed_intros]: "framed i (force_failed i error)"
  unfolding force_failed_def by (intro framed_intros; simp)

lemma framed_cancelled: "framed i (device_cancelled env i)"
  unfolding device_cancelled_def
  by (intro framed_bind framed_guarded framed_force framed_parts framed_row framed_stamp framed_state [where g = "\<lambda>s. stamp_job env (_ s)"])
     (simp_all add: unverified_def)

lemma framed_failed: "framed i (device_failed env i plan e)"
  unfolding device_failed_def Let_def by (intro framed_intros framed_stamp) (simp_all add: unverified_def)

lemma framed_device: "framed i (run_device env i dry_run)"
proof -
  have "framed i (catching (device_body env i dry_run plan) (\<lambda>e. if e = CancellationRequested then device_cancelled env i
      else if e = Interrupted \<or> e = Broken then araise e else device_failed env i plan e))" for plan
    by (intro framed_intros framed_body framed_cancelled framed_failed)
  then show ?thesis by (simp add: framed_def run_device_def Let_def)
qed

section \<open>Directly after a check\<close>

text \<open>Every operation in a log follows directly on a check of lease and cancel flag.\<close>

definition calls_checked :: "setup_event list \<Rightarrow> bool" where
  "calls_checked es = (\<forall>pre op d post. es = pre @ Called op d # post \<longrightarrow> (\<exists>p. pre = p @ [Checked]))"

definition careful :: "'w coordination \<Rightarrow> bool" where
  "careful s = calls_checked (co_log s)"

definition ready :: "'w coordination \<Rightarrow> bool" where
  "ready s = (careful s \<and> (\<exists>p. co_log s = p @ [Checked]))"

lemma calls_checked_snoc: "calls_checked (es @ [e]) \<longleftrightarrow> calls_checked es \<and> (\<forall>op d. e = Called op d \<longrightarrow> (\<exists>p. es = p @ [Checked]))"
proof
  assume l: "calls_checked (es @ [e])"
  have "\<exists>p. pre = p @ [Checked]" if "es = pre @ Called op d # post" for pre op d post
    using l that unfolding calls_checked_def by (metis append_assoc append_Cons)
  moreover have "\<exists>p. es = p @ [Checked]" if "e = Called op d" for op d
    using l that unfolding calls_checked_def by (metis append_Nil)
  ultimately show "calls_checked es \<and> (\<forall>op d. e = Called op d \<longrightarrow> (\<exists>p. es = p @ [Checked]))" unfolding calls_checked_def by blast
next
  assume r: "calls_checked es \<and> (\<forall>op d. e = Called op d \<longrightarrow> (\<exists>p. es = p @ [Checked]))"
  show "calls_checked (es @ [e])" unfolding calls_checked_def
  proof (intro allI impI)
    fix pre op d post
    assume "es @ [e] = pre @ Called op d # post"
    then show "\<exists>p. pre = p @ [Checked]" using r unfolding calls_checked_def by (cases post rule: rev_cases) auto
  qed
qed

lemma careful_note [simp]: "careful (note_setup e s) \<longleftrightarrow> careful s \<and> (\<forall>op d. e = Called op d \<longrightarrow> (\<exists>p. co_log s = p @ [Checked]))"
  by (simp add: careful_def calls_checked_snoc)

lemma careful_updates [simp]:
  "careful (s\<lparr>co_world := w\<rparr>) = careful s" "careful (s\<lparr>co_job := j\<rparr>) = careful s" "careful (s\<lparr>co_rows := r\<rparr>) = careful s"
  "careful (s\<lparr>co_saved := x\<rparr>) = careful s" "careful (s\<lparr>co_watch := v\<rparr>) = careful s"
  by (simp_all add: careful_def)

named_theorems careful_intros \<open>actions whose operations follow on checks\<close>

lemmas careful_basic [careful_intros] = keeps_bind keeps_catching keeps_trivial

lemma careful_if [careful_intros]: "keeps careful m \<Longrightarrow> keeps careful n \<Longrightarrow> keeps careful (if b then m else n)"
  by simp

lemma careful_guarded: "keeps careful m \<Longrightarrow> keeps careful (\<lambda>s. if P s then m s else (Inr (), s))"
  by (simp add: keeps_def)

lemma careful_parts [careful_intros]:
  "keeps careful (save env)" "keeps careful (note_action i action phase b)" "keeps careful (pause env d)" "keeps careful (target_of env)"
  "keeps careful (update_progress i target)" "keeps careful (on_job g)" "keeps careful (on_row i f)" "keeps careful (expect ok t)"
  "keeps careful (transition_state i target error)" "keeps careful (stamp_job env h)"
  by (auto simp: keeps_def save_def note_action_def pause_def target_of_def Let_def update_progress_def on_job_def on_row_def expect_def araise_def areturn_def
      transition_state_def stamp_job_def split: prod.split bool.split option.split sum.split)

lemma careful_checkpoint: "triple careful (cancellation_checkpoint env) (\<lambda>_. ready) (\<lambda>_. careful)"
  by (auto simp: triple_def cancellation_checkpoint_def abind_def lease_checkpoint_def cancellation_requested_def Let_def ready_def split: prod.splits sum.splits)

lemma triple_iff_keeps: "triple P m (\<lambda>_. P) (\<lambda>_. P) \<longleftrightarrow> keeps P m"
  unfolding triple_def keeps_def by (simp split: prod.split sum.split) (metis prod.collapse snd_conv sum.exhaust)

lemma ready_careful: "ready s \<Longrightarrow> careful s"
  by (simp add: ready_def)

lemma triple_ready: "keeps careful m \<Longrightarrow> triple ready m (\<lambda>_. careful) (\<lambda>_. careful)"
  unfolding triple_def keeps_def ready_def by (fastforce split: prod.split sum.split)

lemma careful_call: "triple ready (call env i op) (\<lambda>_. careful) (\<lambda>_. careful)"
  by (auto simp: triple_def call_def ready_def split: prod.split sum.split)

lemma careful_checkpoint' [careful_intros]: "keeps careful (cancellation_checkpoint env)"
proof (rule keepsI)
  fix s :: "'a coordination"
  assume "careful s"
  then show "careful (snd (cancellation_checkpoint env s))"
    using triple_apply [OF careful_checkpoint, of s env] by (cases "cancellation_checkpoint env s") (auto simp: ready_def split: sum.splits)
qed

lemma careful_step: "triple ready m (\<lambda>_. careful) (\<lambda>_. careful) \<Longrightarrow> keeps careful (step env i target m)"
  unfolding step_def triple_iff_keeps [symmetric]
  by (rule triple_bind [OF careful_checkpoint], erule triple_bind, unfold triple_iff_keeps) (intro careful_intros)

lemma careful_steps [careful_intros]: "keeps careful (step env i target (call env i op))" "keeps careful (step env i target (pause env d))"
  by (intro careful_step careful_call triple_ready careful_intros)+

lemma careful_only: "triple careful (transition_only env i target) (\<lambda>_. ready) (\<lambda>_. careful)"
  unfolding transition_only_def
  by (intro careful_checkpoint triple_bind [OF iffD2 [OF triple_iff_keeps]] careful_intros)

lemma careful_only' [careful_intros]: "keeps careful (transition_only env i target)"
  unfolding transition_only_def by (intro careful_intros)

lemma careful_restart: "keeps careful (restart_radio env i opt)"
proof -
  have asked: "keeps careful (abind (transition_only env i target) (\<lambda>_. abind (call env i op) f))" if "\<And>a. keeps careful (f a)" for target op and f :: "dict \<Rightarrow> ('a, unit) sact"
    unfolding triple_iff_keeps [symmetric] using that by (intro triple_bind [OF careful_only] triple_bind [OF careful_call]) (simp add: triple_iff_keeps)
  show ?thesis unfolding restart_radio_def by (intro asked careful_intros)
qed

lemma careful_device: "keeps careful (run_device env i dry_run)"
proof -
  have body: "keeps careful (device_body env i dry_run plan)" for plan
    unfolding device_body_def identify_and_back_up_def restore_original_def set_up_radio_def Let_def enable_ssh_def route_radio_def finish_radio_def
    by (intro careful_intros careful_restart)
  have force: "keeps careful (force_failed i error)" for error
    unfolding force_failed_def by (intro careful_intros)
  have state: "keeps careful (\<lambda>s. stamp_job env (g s) s)" for g
    by (simp add: keeps_def stamp_job_def on_job_def)
  have cancelled: "keeps careful (device_cancelled env i)"
    unfolding device_cancelled_def by (intro keeps_bind careful_guarded force careful_parts state)
  have failed: "keeps careful (device_failed env i plan e)" for plan e
    unfolding device_failed_def Let_def by (intro keeps_bind careful_guarded force careful_if careful_parts keeps_trivial)
  have "keeps careful (catching (device_body env i dry_run plan) (\<lambda>e. if e = CancellationRequested then device_cancelled env i
      else if e = Interrupted \<or> e = Broken then araise e else device_failed env i plan e))" for plan
    by (intro careful_intros body cancelled failed)
  then show ?thesis by (simp add: keeps_def run_device_def Let_def)
qed

section \<open>The states that become durable\<close>

primrec saved_states :: "nat \<Rightarrow> setup_event list \<Rightarrow> string list" where
  "saved_states j [] = []"
| "saved_states j (e # es) = (case e of Saved job rows \<Rightarrow> dv_state (rows ! j) # saved_states j es | _ \<Rightarrow> saved_states j es)"

text \<open>One move of a radio: none, one of the machine, or to \<open>FAILED\<close>.\<close>

definition moves :: "string \<Rightarrow> string \<Rightarrow> bool" where
  "moves u v = (v = u \<or> (\<exists>t. transition u v = Inr t) \<or> v = state_value S_FAILED)"

fun walk :: "string list \<Rightarrow> bool" where
  "walk (u # v # us) = (moves u v \<and> walk (v # us))"
| "walk _ = True"

lemma saved_append [simp]: "saved_states j (xs @ ys) = saved_states j xs @ saved_states j ys"
  by (induction xs) (auto split: setup_event.split)

lemma walk_snoc: "walk (us @ [u, v]) \<longleftrightarrow> walk (us @ [u]) \<and> moves u v"
  by (induction us rule: walk.induct) auto

definition durable :: "nat \<Rightarrow> string \<Rightarrow> 'w coordination \<Rightarrow> bool" where
  "durable j u s = (walk (u # saved_states j (co_log s)) \<and> last (u # saved_states j (co_log s)) = dv_state (snd (co_saved s) ! j))"

definition ahead :: "nat \<Rightarrow> string \<Rightarrow> 'w coordination \<Rightarrow> bool" where
  "ahead j u s = (durable j u s \<and> moves (dv_state (snd (co_saved s) ! j)) (dv_state (cur j s)))"

definition in_sync :: "nat \<Rightarrow> string \<Rightarrow> 'w coordination \<Rightarrow> bool" where
  "in_sync j u s = (durable j u s \<and> dv_state (snd (co_saved s) ! j) = dv_state (cur j s))"

definition left_settled :: "nat \<Rightarrow> string \<Rightarrow> setup_exc \<Rightarrow> 'w coordination \<Rightarrow> bool" where
  "left_settled j u e s = (if e = Broken then durable j u s else in_sync j u s)"

lemma in_sync_ahead: "in_sync j u s \<Longrightarrow> ahead j u s"
  by (simp add: in_sync_def ahead_def moves_def)

lemma in_sync_left: "in_sync j u s \<Longrightarrow> left_settled j u e s"
  by (simp add: in_sync_def left_settled_def)

text \<open>Actions that neither commit nor change a state.\<close>

definition stateless :: "('w, 'a) sact \<Rightarrow> bool" where
  "stateless m = (\<forall>s j. co_saved (snd (m s)) = co_saved s \<and> saved_states j (co_log (snd (m s))) = saved_states j (co_log s) \<and>
     dv_state (cur j (snd (m s))) = dv_state (cur j s))"

lemma stateless_parts:
  "stateless (note_action i action phase b)" "stateless (pause env d)" "stateless (call env i op)" "stateless (target_of env)" "stateless (update_progress i target)"
  "stateless (on_job g)" "stateless (expect ok t)" "stateless (stamp_job env h)" "stateless (areturn a)" "stateless (cancellation_checkpoint env)"
  by (auto simp: stateless_def save_def note_action_def pause_def call_def target_of_def Let_def update_progress_def on_job_def expect_def araise_def areturn_def
      stamp_job_def cancellation_checkpoint_def abind_def lease_checkpoint_def cancellation_requested_def note_setup_def cur_def
      split: prod.split bool.split option.split sum.split)

lemma stateless_row: "(\<And>r. dv_state (g r) = dv_state r) \<Longrightarrow> stateless (on_row i g)"
  by (auto simp: stateless_def on_row_def cur_def nth_list_update) (metis list_update_beyond not_le_imp_less nth_list_update_eq nth_list_update_neq)

lemma stateless_same: "stateless m \<Longrightarrow> in_sync j u (snd (m s)) = in_sync j u s" "stateless m \<Longrightarrow> ahead j u (snd (m s)) = ahead j u s"
  by (simp_all add: stateless_def in_sync_def ahead_def durable_def)

lemma stateless_keeps: "stateless m \<Longrightarrow> triple (in_sync j u) m (\<lambda>_. in_sync j u) (left_settled j u)"
proof -
  assume m: "stateless m"
  have "case m s of (Inl e, t) \<Rightarrow> left_settled j u e t | (Inr a, t) \<Rightarrow> in_sync j u t" if "in_sync j u s" for s
    using that stateless_same(1) [OF m, of j u s] by (cases "m s"; cases "fst (m s)") (auto simp: in_sync_left)
  then show ?thesis by (simp add: triple_def)
qed

lemma stateless_ahead: "stateless m \<Longrightarrow> keeps (ahead j u) m"
  by (simp add: keeps_def stateless_same)

lemma walk_last: "walk (u # us) \<Longrightarrow> moves (last (u # us)) v \<Longrightarrow> walk (u # us @ [v])"
  by (induction us arbitrary: u) (auto split: if_splits)

lemma last_end: "last (u # us @ [v]) = v"
  by simp

lemma ahead_save: "triple (ahead j u) (save env) (\<lambda>_. in_sync j u) (left_settled j u)"
  by (auto simp: triple_def save_def ahead_def in_sync_def durable_def left_settled_def cur_def note_setup_def walk_last last_end simp del: last.simps
      split: prod.split bool.split)

lemma in_sync_save: "triple (in_sync j u) (save env) (\<lambda>_. in_sync j u) (left_settled j u)"
  by (rule triple_weaken, rule ahead_save) (auto simp: in_sync_ahead)

lemma in_sync_attempt: "triple (in_sync j u) (transition_state i target error) (\<lambda>_. ahead j u) (\<lambda>_. in_sync j u)"
proof -
  have "ahead j u (s\<lparr>co_rows := (co_rows s)[i := (cur i s)\<lparr>dv_state := v, dv_last_error := error\<rparr>]\<rparr>)"
    if "in_sync j u s" "moves (dv_state (cur i s)) v" for s :: "'a coordination" and v
    using that by (cases "i = j"; cases "i < length (co_rows s)") (auto simp: in_sync_def ahead_def durable_def cur_def list_update_beyond moves_def)
  moreover have "moves v (state_value target)" if "transition v (state_value target) = Inr t" for v t using that by (auto simp: moves_def)
  ultimately show ?thesis
    by (fastforce simp: triple_def transition_state_def on_row_def dest: transition_target split: sum.split)
qed

lemma in_sync_transition: "triple (in_sync j u) (transition_state i target error) (\<lambda>_. ahead j u) (left_settled j u)"
  by (rule triple_weaken [OF in_sync_attempt]) (auto simp: in_sync_left)

lemma ahead_rest: "stateless m \<Longrightarrow> (\<And>s. \<not> isl (fst (m s))) \<Longrightarrow> triple (ahead j u) m (\<lambda>_. ahead j u) (left_settled j u)"
proof -
  assume m: "stateless m" "\<And>s. \<not> isl (fst (m s))"
  have "case m s of (Inl e, t) \<Rightarrow> left_settled j u e t | (Inr a, t) \<Rightarrow> ahead j u t" if "ahead j u s" for s
    using that stateless_same(2) [OF m(1), of j u s] m(2) [of s] by (cases "m s"; cases "fst (m s)") auto
  then show ?thesis by (simp add: triple_def)
qed

lemma ahead_parts:
  "triple (ahead j u) (on_job g) (\<lambda>_. ahead j u) (left_settled j u)" "triple (ahead j u) (update_progress i target) (\<lambda>_. ahead j u) (left_settled j u)"
  "triple (ahead j u) (on_row i (keep_result h result)) (\<lambda>_. ahead j u) (left_settled j u)" "triple (ahead j u) (stamp_job env f) (\<lambda>_. ahead j u) (left_settled j u)"
  "triple (ahead j u) (note_action i action phase b) (\<lambda>_. ahead j u) (left_settled j u)" "triple (ahead j u) (areturn x) (\<lambda>_. ahead j u) (left_settled j u)"
  by (rule ahead_rest; auto intro: stateless_parts stateless_row simp: on_job_def update_progress_def on_row_def stamp_job_def note_action_def areturn_def split: option.split)+

abbreviation tidy :: "nat \<Rightarrow> string \<Rightarrow> ('w, 'a) sact \<Rightarrow> bool" where
  "tidy j u m \<equiv> triple (in_sync j u) m (\<lambda>_. in_sync j u) (left_settled j u)"

named_theorems tidy_intros \<open>actions that leave radios in the state that is durable\<close>

lemmas tidy_parts [tidy_intros] = stateless_parts [THEN stateless_keeps] in_sync_save

lemma tidy_bind [tidy_intros]: "tidy j u m \<Longrightarrow> (\<And>a. tidy j u (f a)) \<Longrightarrow> tidy j u (abind m f)"
  by (rule triple_bind)

lemma tidy_if [tidy_intros]: "tidy j u m \<Longrightarrow> tidy j u n \<Longrightarrow> tidy j u (if b then m else n)"
  by simp

lemma tidy_row [tidy_intros]: "(\<And>r. dv_state (g r) = dv_state r) \<Longrightarrow> tidy j u (on_row i g)"
  by (intro stateless_keeps stateless_row)

lemma tidy_step [tidy_intros]: "tidy j u m \<Longrightarrow> tidy j u (step env i target m)"
  unfolding step_def
  by (intro tidy_bind tidy_parts triple_bind [OF in_sync_transition] triple_bind [OF ahead_parts(1)] triple_bind [OF ahead_parts(2)] triple_bind [OF ahead_parts(3)]
      triple_bind [OF ahead_save])

lemma tidy_only [tidy_intros]: "tidy j u (transition_only env i target)"
  unfolding transition_only_def
  by (intro tidy_bind tidy_parts triple_bind [OF in_sync_transition] triple_bind [OF ahead_parts(1)] triple_bind [OF ahead_parts(2)] triple_bind [OF ahead_save])

lemma tidy_body: "tidy j u (device_body env i dry_run plan)"
  unfolding device_body_def identify_and_back_up_def restore_original_def set_up_radio_def Let_def enable_ssh_def route_radio_def restart_radio_def finish_radio_def
  by (intro tidy_intros; simp)

lemma in_sync_forced: "triple (in_sync j u) (on_row i (\<lambda>r. r\<lparr>dv_state := state_value S_FAILED\<rparr>)) (\<lambda>_. ahead j u) (left_settled j u)"
proof -
  have "ahead j u (s\<lparr>co_rows := (co_rows s)[i := (cur i s)\<lparr>dv_state := state_value S_FAILED\<rparr>]\<rparr>)" if "in_sync j u s" for s :: "'a coordination"
    using that by (cases "i = j"; cases "i < length (co_rows s)") (auto simp: in_sync_def ahead_def durable_def cur_def list_update_beyond moves_def)
  then show ?thesis by (simp add: triple_def on_row_def)
qed

lemma in_sync_force: "triple (in_sync j u) (force_failed i error) (\<lambda>_. ahead j u) (left_settled j u)"
  unfolding force_failed_def by (rule triple_catching [OF in_sync_attempt]) (rule in_sync_forced)

lemma in_sync_guarded:
  assumes "triple (in_sync j u) m (\<lambda>_. ahead j u) (left_settled j u)"
  shows "triple (in_sync j u) (\<lambda>s. if P s then m s else (Inr (), s)) (\<lambda>_. ahead j u) (left_settled j u)"
  using assms by (auto simp: triple_def in_sync_ahead)

lemma triple_state: "(\<And>s. triple P (g s) Q E) \<Longrightarrow> triple P (\<lambda>s. g s s) Q E"
  by (simp add: triple_def)

lemma tidy_cancelled: "tidy j u (device_cancelled env i)"
proof -
  have stamped: "triple (ahead j u) (\<lambda>s. stamp_job env (g s) s) (\<lambda>_. ahead j u) (left_settled j u)" for g
    by (rule triple_state [where g = "\<lambda>s. stamp_job env (g s)"]) (rule ahead_parts(4))
  show ?thesis unfolding device_cancelled_def
    by (intro triple_bind [OF in_sync_guarded [OF in_sync_force]] triple_bind [OF stamped] ahead_save triple_bind [OF tidy_row]) (auto simp: unverified_def)
qed

lemma tidy_failed: "tidy j u (device_failed env i plan e)"
proof -
  have noted: "triple (ahead j u) (if b then areturn () else note_action i action phase c) (\<lambda>_. ahead j u) (left_settled j u)" for b action phase c
    by (simp add: ahead_parts)
  show ?thesis unfolding device_failed_def Let_def
    by (intro triple_bind [OF in_sync_guarded [OF in_sync_force]] triple_bind [OF ahead_parts(1)] triple_bind [OF noted] ahead_save tidy_bind tidy_row tidy_if tidy_parts)
       (auto simp: unverified_def)
qed

lemma tidy_device: "tidy j u (run_device env i dry_run)"
proof -
  have "triple (left_settled j u e) (if e = CancellationRequested then device_cancelled env i
      else if e = Interrupted \<or> e = Broken then araise e else device_failed env i plan e) (\<lambda>_. in_sync j u) (left_settled j u)" for e plan
    using tidy_cancelled [of j u env i] tidy_failed [of j u env i]
    by (cases e) (auto simp: left_settled_def triple_def araise_def)
  then have "tidy j u (catching (device_body env i dry_run plan) (\<lambda>e. if e = CancellationRequested then device_cancelled env i
      else if e = Interrupted \<or> e = Broken then araise e else device_failed env i plan e))" for plan
    by (rule triple_catching [OF tidy_body])
  then show ?thesis by (simp add: triple_def run_device_def Let_def)
qed

end
