(* ===== verification/SetupJobs.thy ===== *)
theory SetupJobs
  imports SetupRunLaws
begin

text \<open>
  Setup jobs (coordinator.py and repository.py of app/services/setup_rebuild): a job over several
  radios under the lease, the review of interrupted jobs after a restart, and the rollback. The jobs
  of the database are a list; a session works on one of them and \<open>co_saved\<close> is what it committed.
\<close>

section \<open>Sessions and the lease\<close>

definition job_session :: "'w \<Rightarrow> job_row \<Rightarrow> radio_row list \<Rightarrow> 'w coordination" where
  "job_session w job rows = \<lparr>co_world = w, co_job = job, co_rows = rows, co_saved = (job, rows), co_watch = new_watch [] [], co_log = []\<rparr>"

definition take_lease :: "'w setup_env \<Rightarrow> string \<Rightarrow> string \<Rightarrow> ('w, bool) sact" where
  "take_lease env own job s = (let w = co_world s in
     if \<not> se_db_ok env w then (Inl (Failed ''OperationalError'' []), s)
     else case acquire own job 90 (se_now env w) (se_lease env w) of
       (Inl _, _) \<Rightarrow> (Inl (Failed ''ValueError'' ''lease requires an owner and a job''), s)
     | (Inr got, table) \<Rightarrow> (Inr got, if got then s\<lparr>co_world := se_put_lease env table w\<rparr> else s))"

text \<open>A session that a failed commit left unusable cannot release the lease either.\<close>

definition releasing :: "'w setup_env \<Rightarrow> string \<Rightarrow> string \<Rightarrow> ('w, 'a) sact \<Rightarrow> ('w, 'a) sact" where
  "releasing env own job m s = (case m s of (a, t) \<Rightarrow>
     (a, if a = Inl Broken then t else t\<lparr>co_world := se_put_lease env (release own job (se_lease env (co_world t))) (co_world t)\<rparr>))"

definition watch_lease :: "string \<Rightarrow> ('w, unit) sact" where
  "watch_lease own s = (Inr (), s\<lparr>co_watch := new_watch own (jb_id (co_job s))\<rparr>)"

section \<open>A job\<close>

definition lock_radio :: "'w setup_env \<Rightarrow> nat \<Rightarrow> bool \<Rightarrow> ('w, string option) sact" where
  "lock_radio env i enabled s = (if \<not> enabled then (Inr None, s)
     else case se_lock env (dv_device (cur i s)) (co_world s) of
       (Entered, w) \<Rightarrow> (Inr None, s\<lparr>co_world := w\<rparr>)
     | (Refused code, w) \<Rightarrow> (Inr (Some code), s\<lparr>co_world := w\<rparr>)
     | (Killed, w) \<Rightarrow> (Inl Interrupted, s\<lparr>co_world := w\<rparr>))"

definition ownership_denied :: "'w setup_env \<Rightarrow> nat \<Rightarrow> string \<Rightarrow> ('w, unit) sact" where
  "ownership_denied env i code =
     abind (on_row i (\<lambda>r. r\<lparr>dv_state := state_value S_FAILED, dv_last_error := code, dv_recovery := ''NO_WRITE_OWNERSHIP_DENIED''\<rparr>)) (\<lambda>_.
     abind (on_job (\<lambda>j. j\<lparr>jb_state := state_value S_FAILED\<rparr>)) (\<lambda>_.
     abind (note_action i ''setup_rebuild'' ''OWNERSHIP_DENIED'' False) (\<lambda>_. save env)))"

definition run_row :: "'w setup_env \<Rightarrow> bool \<Rightarrow> nat \<Rightarrow> ('w, unit) sact" where
  "run_row env dry_run i = abind (lock_radio env i (\<not> dry_run)) (\<lambda>denied.
     case denied of None \<Rightarrow> run_device env i dry_run | Some code \<Rightarrow> ownership_denied env i code)"

definition after_row :: "'w setup_env \<Rightarrow> nat \<Rightarrow> nat \<Rightarrow> ('w, bool) sact" where
  "after_row env count i s = (if jb_status (co_job s) \<in> {''cancelled'', ''failed''} then abind (save env) (\<lambda>_. areturn False) s
     else abind (on_job (\<lambda>j. j\<lparr>jb_progress := (Suc i * 100) div max 1 count\<rparr>)) (\<lambda>_. abind (save env) (\<lambda>_. areturn True)) s)"

text \<open>The loop over the radios; whether it ended without a break.\<close>

primrec run_rows :: "'w setup_env \<Rightarrow> bool \<Rightarrow> nat \<Rightarrow> nat list \<Rightarrow> ('w, bool) sact" where
  "run_rows env dry_run count [] = areturn True"
| "run_rows env dry_run count (i # is) =
     abind (cancellation_requested env) (\<lambda>cancel.
       if cancel then abind (stamp_job env (\<lambda>now j. j\<lparr>jb_status := ''cancelled'', jb_ended := Some now\<rparr>)) (\<lambda>_. abind (save env) (\<lambda>_. areturn False))
       else abind (\<lambda>s. on_job (\<lambda>j. j\<lparr>jb_device := dv_device (cur i s)\<rparr>) s) (\<lambda>_.
         abind (save env) (\<lambda>_.
         abind (run_row env dry_run i) (\<lambda>_.
         abind (after_row env count i) (\<lambda>go. if go then run_rows env dry_run count is else areturn False)))))"

definition ids_in :: "setup_state \<Rightarrow> radio_row list \<Rightarrow> string list" where
  "ids_in st rows = map dv_device (filter (\<lambda>r. dv_state r = state_value st) rows)"

fun join_texts :: "string \<Rightarrow> string list \<Rightarrow> string" where
  "join_texts sep [] = []"
| "join_texts sep [t] = t"
| "join_texts sep (t # ts) = t @ sep @ join_texts sep ts"

definition job_errors :: "radio_row list \<Rightarrow> string" where
  "job_errors rows = join_texts ''; '' (map (\<lambda>r. dv_device r @ '': '' @ (if dv_last_error r = [] then ''not verified'' else dv_last_error r))
     (filter (\<lambda>r. dv_state r = state_value S_FAILED) rows))"

definition finished :: "int \<Rightarrow> radio_row list \<Rightarrow> job_row \<Rightarrow> job_row" where
  "finished now rows j = (let verified = ids_in S_VERIFIED rows; failed = ids_in S_FAILED rows in
     j\<lparr>jb_status := (if length verified = length rows then ''completed'' else if verified \<noteq> [] then ''partial_failure'' else ''failed''),
       jb_state := state_value (if verified \<noteq> [] then S_VERIFIED else S_FAILED), jb_ended := Some now, jb_progress := 100, jb_error := job_errors rows,
       jb_result := [(''total_devices'', VInt (int (length rows))), (''verified_count'', VInt (int (length verified))), (''failed_count'', VInt (int (length failed))),
         (''verified_devices'', texts verified), (''failed_devices'', texts failed)]\<rparr>)"

definition finish_job :: "'w setup_env \<Rightarrow> ('w, unit) sact" where
  "finish_job env = abind (\<lambda>s. stamp_job env (\<lambda>now. finished now (co_rows s)) s) (\<lambda>_. save env)"

definition end_job :: "'w setup_env \<Rightarrow> string \<Rightarrow> string \<Rightarrow> ('w, unit) sact" where
  "end_job env status error = abind (stamp_job env (\<lambda>now j. j\<lparr>jb_status := status, jb_error := (if error = [] then jb_error j else error), jb_ended := Some now\<rparr>)) (\<lambda>_. save env)"

definition work_job :: "'w setup_env \<Rightarrow> string \<Rightarrow> bool \<Rightarrow> ('w, unit) sact" where
  "work_job env own dry_run =
     abind (watch_lease own) (\<lambda>_.
     abind (stamp_job env (\<lambda>now j. j\<lparr>jb_status := ''running'', jb_started := (case jb_started j of None \<Rightarrow> Some now | Some t \<Rightarrow> Some t)\<rparr>)) (\<lambda>_.
     abind (save env) (\<lambda>_.
     abind (\<lambda>s. run_rows env dry_run (length (co_rows s)) [0..<length (co_rows s)] s) (\<lambda>complete.
       if complete then finish_job env else areturn ()))))"

definition owned_job :: "'w setup_env \<Rightarrow> string \<Rightarrow> bool \<Rightarrow> ('w, unit) sact" where
  "owned_job env own dry_run s =
     (if jb_status (co_job s) \<notin> {''pending'', ''running''} then (Inr (), s)
      else if list_ex (\<lambda>r. dv_state r \<noteq> state_value S_UNKNOWN) (co_rows s)
      then end_job env ''failed'' ''SETUP_REPLAY_DENIED: existing checkpoint requires explicit readback/recovery'' s
      else abind (cancellation_requested env) (\<lambda>cancel. if cancel then end_job env ''cancelled'' [] else work_job env own dry_run) s)"

definition exc_message :: "setup_exc \<Rightarrow> string" where
  "exc_message e = (case e of Failed cls t \<Rightarrow> t | _ \<Rightarrow> [])"

definition execute_job :: "'w setup_env \<Rightarrow> string \<Rightarrow> bool \<Rightarrow> ('w, unit) sact" where
  "execute_job env own dry_run s =
     (if jb_status (co_job s) \<notin> {''pending'', ''running''} then (Inr (), s)
      else case take_lease env own (jb_id (co_job s)) s of
        (Inl e, t) \<Rightarrow> end_job env ''failed'' (''coordinator lease failed: '' @ take 500 (exc_message e)) t
      | (Inr got, t) \<Rightarrow> if got then releasing env own (jb_id (co_job s)) (owned_job env own dry_run) t else (Inr (), t))"

section \<open>The jobs of the database\<close>

type_synonym setup_db = "(job_row \<times> radio_row list) list"

definition job_entry :: "string \<Rightarrow> setup_db \<Rightarrow> (job_row \<times> radio_row list) option" where
  "job_entry jid db = find (\<lambda>e. jb_id (fst e) = jid) db"

definition store_job :: "job_row \<times> radio_row list \<Rightarrow> setup_db \<Rightarrow> setup_db" where
  "store_job e db = map (\<lambda>x. if jb_id (fst x) = jb_id (fst e) then e else x) db"

text \<open>\<open>active\<close> are the jobs this process works on; an entry is made before and removed after.\<close>

definition in_session :: "string list \<Rightarrow> string \<Rightarrow> ('w, unit) sact \<Rightarrow> setup_db \<Rightarrow> 'w \<Rightarrow> (setup_exc + unit) \<times> setup_db \<times> 'w" where
  "in_session active jid m db w =
     (if jid \<in> set active then (Inl (Failed ''RuntimeError'' ''setup job execution already active''), db, w)
      else case job_entry jid db of
        None \<Rightarrow> (Inl (Failed ''ValueError'' ''setup rebuild job not found''), db, w)
      | Some (job, rows) \<Rightarrow> (case m (job_session w job rows) of (a, s) \<Rightarrow> (a, store_job (co_saved s) db, co_world s)))"

definition execute_setup :: "'w setup_env \<Rightarrow> string \<Rightarrow> string list \<Rightarrow> string \<Rightarrow> bool \<Rightarrow> setup_db \<Rightarrow> 'w \<Rightarrow> (setup_exc + unit) \<times> setup_db \<times> 'w" where
  "execute_setup env own active jid dry_run = in_session active jid (execute_job env own dry_run)"

section \<open>After a restart\<close>

definition REVIEW_TEXT :: "bool \<Rightarrow> string" where
  "REVIEW_TEXT cancelled = (if cancelled
     then ''Setup wurde waehrend des angeforderten Abbruchs durch einen Dienstneustart unterbrochen. Es wurde kein Schritt automatisch wiederholt. Bitte Sicherung und Geraetezustand pruefen.''
     else ''Setup wurde durch einen Dienstneustart unterbrochen. Aus Sicherheitsgruenden wurde kein Schritt automatisch wiederholt. Bitte Readback und Sicherung pruefen und anschliessend explizit Rollback oder einen neuen Setup-Lauf waehlen.'')"

definition review_row :: "bool \<Rightarrow> radio_row \<Rightarrow> radio_row" where
  "review_row cancelled r =
     (if dv_state r \<in> {state_value S_VERIFIED, state_value S_FAILED, state_value S_ROLLED_BACK} then r
      else (case transition (dv_state r) (state_value S_FAILED) of
          Inl _ \<Rightarrow> r\<lparr>dv_state := state_value S_FAILED, dv_last_error := REVIEW_TEXT cancelled\<rparr>
        | Inr t \<Rightarrow> r\<lparr>dv_state := state_value t, dv_last_error := REVIEW_TEXT cancelled\<rparr>)
        \<lparr>dv_recovery := (if cancelled then ''INTERRUPTED_CANCELLED'' else ''INTERRUPTED_REVIEW_REQUIRED'')\<rparr>)"

definition review_job :: "int \<Rightarrow> job_row \<times> radio_row list \<Rightarrow> job_row \<times> radio_row list" where
  "review_job now e = (case e of (j, rows) \<Rightarrow>
     if jb_status j \<in> {''pending'', ''running''}
     then (j\<lparr>jb_status := (if jb_cancel j then ''cancelled'' else ''failed''), jb_state := state_value S_FAILED, jb_error := REVIEW_TEXT (jb_cancel j),
         jb_ended := Some now\<rparr>, map (review_row (jb_cancel j)) rows)
     else e)"

definition review_interrupted :: "'w setup_env \<Rightarrow> string \<Rightarrow> string \<Rightarrow> setup_db \<Rightarrow> 'w \<Rightarrow> (setup_exc + bool) \<times> setup_db \<times> 'w" where
  "review_interrupted env own recovery_id db w =
     (if \<not> se_db_ok env w then (Inl (Failed ''OperationalError'' []), db, w)
      else case acquire own recovery_id 90 (se_now env w) (se_lease env w) of
        (Inl _, _) \<Rightarrow> (Inl (Failed ''ValueError'' ''lease requires an owner and a job''), db, w)
      | (Inr got, table) \<Rightarrow>
          if \<not> got then (Inr False, db, w)
          else (let w1 = se_put_lease env table w in case se_commit env w1 of
              (True, w2) \<Rightarrow> (Inr True, map (review_job (se_now env w1)) db, se_put_lease env (release own recovery_id (se_lease env w2)) w2)
            | (False, w2) \<Rightarrow> (Inl Broken, db, w2)))"

text \<open>At most 21 attempts with pauses between them; each has an identity of its own.\<close>

fun resume_pending :: "'w setup_env \<Rightarrow> string \<Rightarrow> (nat \<Rightarrow> string) \<Rightarrow> nat \<Rightarrow> setup_db \<Rightarrow> 'w \<Rightarrow> (setup_exc + bool) \<times> setup_db \<times> 'w" where
  "resume_pending env own ids 0 db w = (Inr False, db, w)"
| "resume_pending env own ids (Suc n) db w = (case review_interrupted env own (ids n) db w of
     (Inl e, db', w') \<Rightarrow> (Inl e, db', w')
   | (Inr True, db', w') \<Rightarrow> (Inr True, db', w')
   | (Inr False, db', w') \<Rightarrow> if n = 0 then (Inr False, db', w')
       else (case se_pause env w' of (killed, w'') \<Rightarrow> if killed then (Inl Interrupted, db', w'') else resume_pending env own ids n db' w''))"

definition resume_pending_jobs :: "'w setup_env \<Rightarrow> string \<Rightarrow> (nat \<Rightarrow> string) \<Rightarrow> int \<Rightarrow> setup_db \<Rightarrow> 'w \<Rightarrow> (setup_exc + bool) \<times> setup_db \<times> 'w" where
  "resume_pending_jobs env own ids attempts = resume_pending env own ids (nat (max 1 (min attempts 21)))"

section \<open>Rollback\<close>

record rollback_flags =
  rb_ok :: bool
  rb_full :: bool
  rb_attempted :: bool

definition note_rollback :: "'w setup_env \<Rightarrow> nat \<Rightarrow> bool \<Rightarrow> dict \<Rightarrow> ('w, unit) sact" where
  "note_rollback env i dry result = (let ok = truth (get_key result ''rolled_back''); full = truth (get_key result ''fully_restored'') in
     abind (on_row i (\<lambda>r. (if result = [] then r else r\<lparr>dv_evidence := merged (dv_evidence r) [(''rollback'', VDict (public_result result))]\<rparr>)
         \<lparr>dv_recovery := (if ok \<and> full then ''ROLLED_BACK'' else if ok then ''ROUTING_ROLLBACK_VERIFIED_PERSISTENCE_OPEN'' else ''ROLLBACK_FAILED'')\<rparr>)) (\<lambda>_.
     abind (transition_state i (if ok then S_ROLLED_BACK else S_FAILED) (if ok then [] else ''rollback failed'')) (\<lambda>_.
     abind (if dry then areturn () else (\<lambda>s. note_action i ''setup_rebuild_rollback'' (dv_state (cur i s)) (ok \<and> full) s)) (\<lambda>_.
       save env))))"

text \<open>The body of the \<open>try\<close> of one radio: under its lock, between two checks of the lease.\<close>

definition try_rollback :: "'w setup_env \<Rightarrow> nat \<Rightarrow> bool \<Rightarrow> ('w, dict) sact" where
  "try_rollback env i dry = abind (lock_radio env i (\<not> dry)) (\<lambda>denied. case denied of
     Some code \<Rightarrow> araise (Failed ''DeviceBusy'' code)
   | None \<Rightarrow> abind (lease_checkpoint env) (\<lambda>_.
       abind (call env i RollBack) (\<lambda>result.
       abind (note_rollback env i dry result) (\<lambda>_.
       abind (lease_checkpoint env) (\<lambda>_. areturn result)))))"

definition rollback_error :: "setup_exc \<Rightarrow> string" where
  "rollback_error e = (case e of Failed cls t \<Rightarrow> take 1000 t | _ \<Rightarrow> exc_text e)"

text \<open>One radio of a rollback: the flags, and whether the loop goes on.\<close>

definition rollback_row :: "'w setup_env \<Rightarrow> bool \<Rightarrow> nat \<Rightarrow> rollback_flags \<Rightarrow> ('w, rollback_flags \<times> bool) sact" where
  "rollback_row env dry i f s =
     (if dv_state (cur i s) \<notin> {state_value S_VERIFIED, state_value S_FAILED} then (Inr (f, True), s)
      else if dv_backup_path (cur i s) = [] then abind (on_row i (\<lambda>r. r\<lparr>dv_recovery := ''NO_WRITE_NO_ROLLBACK_REQUIRED''\<rparr>)) (\<lambda>_. areturn (f, True)) s
      else abind (transition_state i S_ROLLBACK_PENDING []) (\<lambda>_.
        catching
          (abind (try_rollback env i dry) (\<lambda>result. let ok = truth (get_key result ''rolled_back'') in
             areturn (f\<lparr>rb_ok := rb_ok f \<and> ok, rb_full := rb_full f \<and> ok \<and> truth (get_key result ''fully_restored''), rb_attempted := True\<rparr>, True)))
          (\<lambda>e. if e = Interrupted \<or> e = Broken then araise e
             else abind (on_row i (\<lambda>r. r\<lparr>dv_recovery := (if e = LeaseLost then ''LEASE_LOST_REVIEW_REQUIRED'' else ''ROLLBACK_FAILED''), dv_last_error := rollback_error e\<rparr>)) (\<lambda>_.
               if e = LeaseLost then areturn (f\<lparr>rb_ok := False, rb_attempted := True\<rparr>, False)
               else abind (transition_state i S_FAILED (rollback_error e)) (\<lambda>_. areturn (f\<lparr>rb_ok := False, rb_attempted := True\<rparr>, True))))) s)"

primrec rollback_rows :: "'w setup_env \<Rightarrow> bool \<Rightarrow> nat list \<Rightarrow> rollback_flags \<Rightarrow> ('w, rollback_flags) sact" where
  "rollback_rows env dry [] f = areturn f"
| "rollback_rows env dry (i # is) f = abind (rollback_row env dry i f) (\<lambda>(f', go). if go then rollback_rows env dry is f' else areturn f')"

definition rollback_status :: "rollback_flags \<Rightarrow> string" where
  "rollback_status f = (if rb_attempted f \<and> rb_ok f \<and> rb_full f then ''rolled_back'' else if rb_attempted f \<and> rb_ok f then ''rollback_limited''
     else if \<not> rb_attempted f then ''rollback_not_required'' else ''rollback_failed'')"

definition owned_rollback :: "'w setup_env \<Rightarrow> string \<Rightarrow> bool \<Rightarrow> ('w, unit) sact" where
  "owned_rollback env own dry =
     abind (watch_lease own) (\<lambda>_.
     abind (\<lambda>s. rollback_rows env dry [0..<length (co_rows s)] \<lparr>rb_ok = True, rb_full = True, rb_attempted = False\<rparr> s) (\<lambda>f.
     abind (stamp_job env (\<lambda>now j. j\<lparr>jb_status := rollback_status f, jb_state := state_value (if rb_ok f then S_ROLLED_BACK else S_FAILED), jb_ended := Some now\<rparr>)) (\<lambda>_.
       save env)))"

definition rollback_job :: "'w setup_env \<Rightarrow> string \<Rightarrow> ('w, unit) sact" where
  "rollback_job env own s = (let plan = load_json (jb_plan (co_job s)); options = get_or plan ''options'' (VDict []) in
     case options of
       VDict d \<Rightarrow> if get_key d ''presentation_mode'' = VStr ''original''
         then (Inl (Failed ''ValueError'' ''Original-Rueckbau nicht als Serverziel-Rollback wiederholen. Bei Unterbrechung zuerst Zustand und Sicherung pruefen; Neuinstallation separat bestaetigen.''), s)
         else abind (take_lease env own (jb_id (co_job s))) (\<lambda>got.
           if got then releasing env own (jb_id (co_job s)) (owned_rollback env own (dry_plan plan))
           else araise (Failed ''RuntimeError'' ''another setup rebuild is already active'')) s
     | _ \<Rightarrow> (Inl (Failed ''AttributeError'' []), s))"

definition setup_rollback :: "'w setup_env \<Rightarrow> string \<Rightarrow> string list \<Rightarrow> string \<Rightarrow> setup_db \<Rightarrow> 'w \<Rightarrow> (setup_exc + unit) \<times> setup_db \<times> 'w" where
  "setup_rollback env own active jid = in_session active jid (rollback_job env own)"

section \<open>Starting a job and showing it\<close>

text \<open>
  \<open>select\<close> is what the inventory offers for setup: of each chosen radio its address and model, or an
  error (candidates.py).
\<close>

definition new_device_row :: "string \<Rightarrow> string \<times> string \<Rightarrow> radio_row" where
  "new_device_row d am = \<lparr>dv_device = d, dv_ip = fst am, dv_model = snd am, dv_state = state_value S_UNKNOWN, dv_ssh_status = ''SSH_UNKNOWN'', dv_profile_key = [],
     dv_routing_status = ''unknown'', dv_backup_path = [], dv_backup_sha256 = VDict [], dv_evidence = [], dv_last_error = [], dv_recovery = []\<rparr>"

definition create_job :: "(string list \<Rightarrow> setup_exc + (string \<times> string) list) \<Rightarrow> string \<Rightarrow> string list \<Rightarrow> dict \<Rightarrow> dict \<Rightarrow> setup_exc + job_row \<times> radio_row list" where
  "create_job select jid device_ids target plan = (let normalized = map (\<lambda>d. upper (strip d)) device_ids in
     if normalized = [] \<or> \<not> distinct normalized then Inl (Failed ''ValueError'' ''Bitte mindestens ein Radio genau einmal auswaehlen.'')
     else rbind (select normalized) (\<lambda>found. Inr (\<lparr>jb_id = jid, jb_status = ''pending'', jb_device_ids = normalized, jb_plan = Some (VDict plan), jb_target = Some (VDict target),
        jb_state = state_value S_UNKNOWN, jb_device = [], jb_progress = 0, jb_error = [], jb_result = [], jb_cancel = False, jb_owner = [], jb_started = None, jb_ended = None\<rparr>,
        map2 new_device_row normalized found)))"

text \<open>The claim of the lease commits the new job with it; without the claim nothing is committed.\<close>

definition start_job :: "'w setup_env \<Rightarrow> (string list \<Rightarrow> setup_exc + (string \<times> string) list) \<Rightarrow> dict \<Rightarrow> string \<Rightarrow> string \<Rightarrow> string list \<Rightarrow> server_target \<Rightarrow> bool \<Rightarrow> dict \<Rightarrow>
    setup_db \<Rightarrow> 'w \<Rightarrow> (setup_exc + unit) \<times> setup_db \<times> 'w" where
  "start_job env select defaults own jid device_ids target dry_run options db w =
     (case rbind (preview defaults device_ids target options) (\<lambda>plan. create_job select jid device_ids (target_public target) (merged plan [(''dry_run'', VBool dry_run)])) of
        Inl e \<Rightarrow> (Inl e, db, w)
      | Inr (job, rows) \<Rightarrow> (case take_lease env own jid (job_session w job rows) of
            (Inl e, s) \<Rightarrow> (Inl e, db, co_world s)
          | (Inr got, s) \<Rightarrow> if \<not> got then (Inl (Failed ''RuntimeError'' ''another setup rebuild is already active''), db, co_world s)
              else (case abind (stamp_job env (\<lambda>now j. j\<lparr>jb_owner := own, jb_started := Some now, jb_status := ''running''\<rparr>)) (\<lambda>_. save env) s of
                (a, t) \<Rightarrow> (a, db @ [co_saved t], co_world t))))"

text \<open>What the interface shows of a job.\<close>

primrec phase_text :: "phase \<Rightarrow> string" where
  "phase_text P_QUEUED = ''QUEUED''" | "phase_text P_PREFLIGHT = ''PREFLIGHT''" | "phase_text P_BACKUP = ''BACKUP''" | "phase_text P_ROUTING = ''ROUTING''"
| "phase_text P_ACCOUNT = ''ACCOUNT''" | "phase_text P_REBOOT = ''REBOOT''" | "phase_text P_RECONNECT = ''RECONNECT''" | "phase_text P_READBACK = ''READBACK''"
| "phase_text P_VERIFIED = ''VERIFIED''" | "phase_text P_FAILED = ''FAILED''" | "phase_text P_ROLLBACK = ''ROLLBACK''" | "phase_text P_COMPLETE = ''COMPLETE''"

definition job_phase :: "job_row \<Rightarrow> phase" where
  "job_phase j =
     (if jb_status j \<in> {''completed'', ''partial_failure''} then P_COMPLETE
      else if jb_status j = ''failed'' then P_FAILED
      else if take 8 (jb_status j) = ''rollback'' \<or> jb_status j = ''rolled_back'' then P_ROLLBACK
      else (case multi_device_phase (jb_state j) of Inl _ \<Rightarrow> P_QUEUED | Inr p \<Rightarrow> p))"

definition public_row :: "radio_row \<Rightarrow> pyerr + pyval" where
  "public_row r = rbind (multi_device_phase (dv_state r)) (\<lambda>p. Inr (VDict [(''device_id'', VStr (dv_device r)), (''ip_address'', VStr (dv_ip r)),
     (''expected_model'', VStr (dv_model r)), (''state'', VStr (dv_state r)), (''phase'', VStr (phase_text p)), (''ssh_status'', VStr (dv_ssh_status r)),
     (''ssh_profile_key'', VStr (dv_profile_key r)), (''routing_status'', VStr (dv_routing_status r)), (''backup_path'', VStr (dv_backup_path r)),
     (''backup_sha256'', dv_backup_sha256 r), (''evidence'', VDict (dv_evidence r)), (''last_error'', VStr (dv_last_error r)), (''recovery_status'', VStr (dv_recovery r))]))"

definition shown_job :: "(int option \<Rightarrow> string) \<Rightarrow> job_row \<Rightarrow> radio_row list \<Rightarrow> pyerr + dict" where
  "shown_job stamp j rows = (let verified = ids_in S_VERIFIED rows; failed = ids_in S_FAILED rows in
     rbind (rmap public_row rows) (\<lambda>devices. Inr [(''job_type'', VStr ''MultiDeviceSetupJob''), (''job_id'', VStr (jb_id j)), (''status'', VStr (jb_status j)),
       (''phase'', VStr (phase_text (job_phase j))), (''progress'', VInt (int (jb_progress j))), (''current_device_id'', VStr (jb_device j)),
       (''current_state'', VStr (jb_state j)), (''selected_device_ids'', texts (jb_device_ids j)),
       (''target_server'', case jb_target j of None \<Rightarrow> VDict [] | Some v \<Rightarrow> v), (''plan'', case jb_plan j of None \<Rightarrow> VDict [] | Some v \<Rightarrow> v),
       (''result'', VDict (jb_result j)), (''error'', VStr (jb_error j)), (''cancel_requested'', VBool (jb_cancel j)),
       (''started_at'', VStr (stamp (jb_started j))), (''ended_at'', VStr (stamp (jb_ended j))),
       (''summary'', VDict [(''total'', VInt (int (length rows))), (''verified'', VInt (int (length verified))), (''failed'', VInt (int (length failed))),
          (''pending'', VInt (max 0 (int (length rows) - int (length verified) - int (length failed)))),
          (''verified_device_ids'', texts verified), (''failed_device_ids'', texts failed)]),
       (''devices'', VList devices)]))"

end
