(* ===== verification/SetupJobLaws.thy ===== *)
theory SetupJobLaws
  imports SetupJobs
begin

text \<open>
  Setup jobs: what a job asks of each of its radios, the states that become durable, the lease, the
  review after a restart, and a rollback that is cut short.
\<close>

section \<open>The operations of one radio in a job\<close>

primrec ops_on :: "string \<Rightarrow> setup_event list \<Rightarrow> operation list" where
  "ops_on d [] = []"
| "ops_on d (e # es) = (case e of Called op d' \<Rightarrow> (if d' = d then op # ops_on d es else ops_on d es) | _ \<Rightarrow> ops_on d es)"

lemma ops_on_append [simp]: "ops_on d (xs @ ys) = ops_on d xs @ ops_on d ys"
  by (induction xs) (auto split: setup_event.split)

lemma ops_on_own: "\<forall>op d'. Called op d' \<in> set ev \<longrightarrow> d' = d \<Longrightarrow> ops_on d ev = ops ev"
  by (induction ev) (auto split: setup_event.split)

lemma ops_on_foreign: "\<forall>op d'. Called op d' \<in> set ev \<longrightarrow> d' \<noteq> d \<Longrightarrow> ops_on d ev = []"
  by (induction ev) (auto split: setup_event.split)

lemma ops_on_none: "ops ev = [] \<Longrightarrow> ops_on d ev = []"
  by (induction ev) (auto split: setup_event.splits)

text \<open>
  What is known of radio \<open>i\<close> of a job with the radios \<open>ds\<close> and the plan \<open>opt\<close>: untouched and not verified, or
  along the plan.
\<close>

definition on_plan :: "setup_options \<Rightarrow> pyval option \<Rightarrow> string list \<Rightarrow> nat \<Rightarrow> 'w coordination \<Rightarrow> bool" where
  "on_plan opt p ds i s = (map dv_device (co_rows s) = ds \<and> jb_plan (co_job s) = p \<and>
     along_plan opt (ops_on (ds ! i) (co_log s)) (done_with i s))"

definition untouched_yet :: "pyval option \<Rightarrow> string list \<Rightarrow> nat \<Rightarrow> 'w coordination \<Rightarrow> bool" where
  "untouched_yet p ds i s = (map dv_device (co_rows s) = ds \<and> jb_plan (co_job s) = p \<and> ops_on (ds ! i) (co_log s) = [] \<and> \<not> done_with i s)"

lemma devices_framed:
  assumes "confined i s t"
  shows "map dv_device (co_rows t) = map dv_device (co_rows s)"
proof (rule nth_equalityI)
  show "length (map dv_device (co_rows t)) = length (map dv_device (co_rows s))" using assms by (simp add: confined_def)
  fix j
  assume "j < length (map dv_device (co_rows t))"
  moreover have "dv_device (cur j t) = dv_device (cur j s)" using assms unfolding confined_def by (metis (no_types))
  ultimately show "map dv_device (co_rows t) ! j = map dv_device (co_rows s) ! j" using assms by (simp add: confined_def cur_def)
qed

lemma untouched_on_plan: "untouched_yet p ds i s \<Longrightarrow> on_plan opt p ds i s"
  by (auto simp: untouched_yet_def on_plan_def)

text \<open>A run of radio \<open>i\<close> that was untouched takes it along the plan and leaves what is known of the others.\<close>

lemma own_run:
  assumes "untouched_yet p ds i s" "i < length ds" "opt = options_of (load_json p)"
  shows "on_plan opt p ds i (snd (run_device env i dry_run s))"
proof -
  obtain a t where run: "run_device env i dry_run s = (a, t)" by fastforce
  have fr: "confined i s t" using framed_device [of i env dry_run] run unfolding framed_def by (metis snd_conv)
  have c: "dv_device (cur i s) = ds ! i" using assms(1,2) by (auto simp: untouched_yet_def cur_def)
  obtain ev where ev: "co_log t = co_log s @ ev" "along_plan opt (ops ev) (done_with i t)"
    using run_device_along [OF run] assms(1,3) by (auto simp: untouched_yet_def)
  have "\<forall>op d'. Called op d' \<in> set ev \<longrightarrow> d' = ds ! i" using fr ev(1) c by (auto simp: confined_def)
  then have "ops_on (ds ! i) (co_log t) = ops ev" using ev(1) assms(1) ops_on_own by (simp add: untouched_yet_def)
  then show ?thesis using run ev(2) devices_framed [OF fr] fr assms(1) by (simp add: on_plan_def untouched_yet_def confined_def)
qed

lemma foreign_frame:
  assumes "confined j s t" "j \<noteq> i" "j < length (co_rows s)" "i < length (co_rows s)" "distinct (map dv_device (co_rows s))"
  shows "ops_on (dv_device (cur i s)) (co_log t) = ops_on (dv_device (cur i s)) (co_log s)" "done_with i t = done_with i s"
proof -
  have "map dv_device (co_rows s) ! j \<noteq> map dv_device (co_rows s) ! i" using assms(2-5) nth_eq_iff_index_eq [OF assms(5)] by simp
  then have d: "dv_device (cur j s) \<noteq> dv_device (cur i s)" using assms(3,4) by (simp add: cur_def)
  obtain ev where ev: "co_log t = co_log s @ ev" "\<forall>op d. Called op d \<in> set ev \<longrightarrow> d = dv_device (cur j s)" using assms(1) by (auto simp: confined_def)
  then have "ops_on (dv_device (cur i s)) ev = []" using d by (intro ops_on_foreign) auto
  then show "ops_on (dv_device (cur i s)) (co_log t) = ops_on (dv_device (cur i s)) (co_log s)" using ev(1) by simp
  show "done_with i t = done_with i s" using assms(1,2) by (auto simp: confined_def done_with_def)
qed

text \<open>Steps that add nothing to what radio \<open>i\<close> was asked and do not make it verified.\<close>

definition mild :: "nat \<Rightarrow> 'w coordination \<Rightarrow> 'w coordination \<Rightarrow> bool" where
  "mild i s t = (map dv_device (co_rows t) = map dv_device (co_rows s) \<and> jb_plan (co_job t) = jb_plan (co_job s) \<and>
     ops_on (map dv_device (co_rows s) ! i) (co_log t) = ops_on (map dv_device (co_rows s) ! i) (co_log s) \<and> (done_with i t \<longrightarrow> done_with i s))"

definition gentle :: "nat \<Rightarrow> ('w, 'a) sact \<Rightarrow> bool" where
  "gentle i m = (\<forall>s. mild i s (snd (m s)))"

named_theorems gentle_intros \<open>actions that ask nothing of a radio\<close>

lemma mild_refl: "mild i s s"
  by (simp add: mild_def)

lemma mild_trans: "mild i s t \<Longrightarrow> mild i t u \<Longrightarrow> mild i s u"
  by (simp add: mild_def)

lemma gentle_bind [gentle_intros]: "gentle i m \<Longrightarrow> (\<And>a. gentle i (f a)) \<Longrightarrow> gentle i (abind m f)"
  unfolding gentle_def abind_def by (auto split: prod.split sum.split) (metis mild_trans snd_conv)+

lemma gentle_if [gentle_intros]: "gentle i m \<Longrightarrow> gentle i n \<Longrightarrow> gentle i (if b then m else n)"
  by simp

lemma mild_row:
  "(\<And>r. dv_device (g r) = dv_device r) \<Longrightarrow> (\<And>r. dv_state (g r) = dv_state r \<or> dv_state (g r) \<noteq> state_value S_VERIFIED) \<Longrightarrow> mild i s (snd (on_row j g s))"
proof -
  assume g: "\<And>r. dv_device (g r) = dv_device r" "\<And>r. dv_state (g r) = dv_state r \<or> dv_state (g r) \<noteq> state_value S_VERIFIED"
  have "map dv_device ((co_rows s)[j := g (cur j s)]) = map dv_device (co_rows s)"
    by (cases "j < length (co_rows s)") (auto simp: nth_list_update g(1) cur_def list_update_beyond intro!: nth_equalityI)
  moreover have "done_with i (s\<lparr>co_rows := (co_rows s)[j := g (cur j s)]\<rparr>) \<longrightarrow> done_with i s"
    using g(2) [of "cur j s"] by (cases "i = j"; cases "j < length (co_rows s)") (auto simp: done_with_def cur_def list_update_beyond)
  ultimately show ?thesis by (simp add: mild_def on_row_def)
qed

lemma gentle_parts [gentle_intros]:
  "gentle i (save env)" "gentle i (note_action j action phase b)" "gentle i (cancellation_requested env)" "gentle i (areturn x)" "gentle i (watch_lease own)"
  "gentle i (lock_radio env j enabled)" "gentle i (take_lease env own jid)"
  by (auto simp: gentle_def mild_def save_def note_action_def cancellation_requested_def areturn_def watch_lease_def lock_radio_def take_lease_def note_setup_def Let_def
      done_with_def cur_def split: prod.split bool.split lock_answer.split sum.split)

lemma gentle_stamp [gentle_intros]: "(\<And>n j. jb_plan (g n j) = jb_plan j) \<Longrightarrow> gentle i (stamp_job env g)"
  by (auto simp: gentle_def mild_def stamp_job_def on_job_def)

lemma gentle_job [gentle_intros]: "(\<And>s j. jb_plan (g s j) = jb_plan j) \<Longrightarrow> gentle i (\<lambda>s. on_job (g s) s)"
  by (auto simp: gentle_def mild_def on_job_def)

lemma gentle_denied [gentle_intros]: "gentle i (ownership_denied env j code)"
proof -
  have row: "gentle i (on_row j (\<lambda>r. r\<lparr>dv_state := state_value S_FAILED, dv_last_error := code, dv_recovery := x\<rparr>))" for x
    by (simp add: gentle_def mild_row state_value.simps)
  have job: "gentle i (on_job (\<lambda>k. k\<lparr>jb_state := x\<rparr>))" for x using gentle_job [of "\<lambda>_ k. k\<lparr>jb_state := x\<rparr>"] by simp
  show ?thesis unfolding ownership_denied_def by (intro gentle_bind row job gentle_parts)
qed

lemma gentle_after [gentle_intros]: "gentle i (after_row env n j)"
proof -
  have "gentle i (abind (save env) (\<lambda>_. areturn b))" "gentle i (abind (on_job (\<lambda>k. k\<lparr>jb_progress := n'\<rparr>)) (\<lambda>_. abind (save env) (\<lambda>_. areturn b)))" for b :: bool and n'
    using gentle_job [of "\<lambda>_ k. k\<lparr>jb_progress := n'\<rparr>" i] by (intro gentle_intros; simp)+
  then show ?thesis by (simp add: gentle_def after_row_def)
qed

lemma gentle_finished: "gentle i (\<lambda>s. stamp_job env (\<lambda>now. finished now (co_rows s)) s)"
  by (auto simp: gentle_def mild_def stamp_job_def on_job_def finished_def Let_def)

lemma gentle_end [gentle_intros]: "gentle i (end_job env status error)" "gentle i (finish_job env)"
proof -
  show "gentle i (end_job env status error)" unfolding end_job_def by (intro gentle_intros) simp
  show "gentle i (finish_job env)" unfolding finish_job_def by (intro gentle_bind gentle_parts gentle_finished)
qed

lemma mild_known: "mild i s t \<Longrightarrow> on_plan opt p ds i s \<Longrightarrow> on_plan opt p ds i t" "mild i s t \<Longrightarrow> untouched_yet p ds i s \<Longrightarrow> untouched_yet p ds i t"
  by (auto simp: mild_def on_plan_def untouched_yet_def)

lemma other_run:
  assumes "j \<noteq> i" "map dv_device (co_rows s) = ds" "distinct ds" "i < length ds" "j < length ds"
  shows "mild i s (snd (run_device env j dry_run s))"
proof -
  let ?t = "snd (run_device env j dry_run s)"
  have f: "confined j s ?t" using framed_device [of j env dry_run] by (simp add: framed_def)
  have l: "i < length (co_rows s)" "j < length (co_rows s)" "distinct (map dv_device (co_rows s))" using assms(2-5) by auto
  then have "dv_device (cur i s) = map dv_device (co_rows s) ! i" by (simp add: cur_def)
  then show ?thesis
    using foreign_frame [OF f assms(1) l(2,1,3)] devices_framed [OF f] f by (simp add: mild_def confined_def)
qed

lemma run_row_known:
  assumes known: "if i = j then untouched_yet p ds i s else on_plan opt p ds i s \<or> untouched_yet p ds i s"
    and "distinct ds" "i < length ds" "j < length ds" "opt = options_of (load_json p)"
  shows "on_plan opt p ds i (snd (run_row env dry_run j s)) \<and> (i \<noteq> j \<longrightarrow> untouched_yet p ds i s \<longrightarrow> untouched_yet p ds i (snd (run_row env dry_run j s)))"
proof -
  obtain a t where l: "lock_radio env j (\<not> dry_run) s = (a, t)" by fastforce
  have m: "mild i s t" using gentle_parts(6) [of i env j "\<not> dry_run"] l unfolding gentle_def by (metis snd_conv)
  have ds: "map dv_device (co_rows t) = ds" using known m by (auto simp: mild_def untouched_yet_def on_plan_def split: if_splits)
  have kt: "if i = j then untouched_yet p ds i t else on_plan opt p ds i t" "untouched_yet p ds i s \<Longrightarrow> untouched_yet p ds i t"
    using known mild_known [OF m] untouched_on_plan [of p ds i t opt] by (auto split: if_splits)
  consider (failed) e where "a = Inl e" | (free) "a = Inr None" | (taken) code where "a = Inr (Some code)" by (cases a; cases "projr a") auto
  then show ?thesis
  proof cases
    case failed
    then show ?thesis using l kt untouched_on_plan [of p ds i t opt] by (auto simp: run_row_def abind_def split: if_splits)
  next
    case free
    then have r: "run_row env dry_run j s = run_device env j dry_run t" using l by (simp add: run_row_def abind_def)
    show ?thesis
    proof (cases "i = j")
      case True
      then show ?thesis using own_run [of p ds i t opt env dry_run] kt assms(3,5) r by simp
    next
      case False
      then show ?thesis using mild_known [OF other_run [of j i t ds env dry_run]] kt assms ds r by auto
    qed
  next
    case (taken code)
    then have r: "run_row env dry_run j s = ownership_denied env j code t" using l by (simp add: run_row_def abind_def)
    have "mild i t (snd (ownership_denied env j code t))" using gentle_denied [of i env j code] by (simp add: gentle_def)
    then show ?thesis using mild_known [of i t "snd (ownership_denied env j code t)"] kt untouched_on_plan [of p ds i t opt] r by (auto split: if_splits)
  qed
qed

text \<open>The radios \<open>is\<close> are still to come.\<close>

definition awaits :: "setup_options \<Rightarrow> pyval option \<Rightarrow> string list \<Rightarrow> nat \<Rightarrow> nat list \<Rightarrow> 'w coordination \<Rightarrow> bool" where
  "awaits opt p ds i is s = (if i \<in> set is then untouched_yet p ds i s else on_plan opt p ds i s)"

lemma awaits_on_plan: "awaits opt p ds i is s \<Longrightarrow> on_plan opt p ds i s"
  using untouched_on_plan [of p ds i s opt] by (auto simp: awaits_def split: if_splits)

lemma awaits_gentle: "gentle i m \<Longrightarrow> triple (awaits opt p ds i is) m (\<lambda>_. awaits opt p ds i is) (\<lambda>_. on_plan opt p ds i)"
proof -
  assume g: "gentle i m"
  have "case m s of (Inl e, t) \<Rightarrow> on_plan opt p ds i t | (Inr a, t) \<Rightarrow> awaits opt p ds i is t" if "awaits opt p ds i is s" for s
  proof -
    have "mild i s (snd (m s))" using g by (simp add: gentle_def)
    then have "awaits opt p ds i is (snd (m s))" using that mild_known by (auto simp: awaits_def split: if_splits)
    then show ?thesis using awaits_on_plan [of opt p ds i "is" "snd (m s)"] by (cases "m s"; cases "fst (m s)") auto
  qed
  then show ?thesis by (simp add: triple_def)
qed

lemma awaits_row:
  assumes "distinct ds" "i < length ds" "j < length ds" "opt = options_of (load_json p)" "j \<notin> set js"
  shows "triple (awaits opt p ds i (j # js)) (run_row env dry_run j) (\<lambda>_. awaits opt p ds i js) (\<lambda>_. on_plan opt p ds i)"
proof -
  have "case run_row env dry_run j s of (Inl e, t) \<Rightarrow> on_plan opt p ds i t | (Inr a, t) \<Rightarrow> awaits opt p ds i js t" if "awaits opt p ds i (j # js) s" for s
  proof -
    have "if i = j then untouched_yet p ds i s else on_plan opt p ds i s \<or> untouched_yet p ds i s" using that by (auto simp: awaits_def split: if_splits)
    then have "on_plan opt p ds i (snd (run_row env dry_run j s))" "awaits opt p ds i js (snd (run_row env dry_run j s))"
      using run_row_known [of i j p ds s opt env dry_run] assms that by (auto simp: awaits_def split: if_splits)
    then show ?thesis by (cases "run_row env dry_run j s"; cases "fst (run_row env dry_run j s)") auto
  qed
  then show ?thesis by (simp add: triple_def)
qed

lemma awaits_rows:
  assumes "distinct ds" "i < length ds" "opt = options_of (load_json p)"
  shows "distinct is \<Longrightarrow> \<forall>j \<in> set is. j < length ds \<Longrightarrow> triple (awaits opt p ds i is) (run_rows env dry_run n is) (\<lambda>_. on_plan opt p ds i) (\<lambda>_. on_plan opt p ds i)"
proof (induction "is")
  case Nil
  show ?case unfolding run_rows.simps by (rule triple_return) (rule awaits_on_plan)
next
  case (Cons j js)
  have end_now: "gentle i m \<Longrightarrow> triple (awaits opt p ds i ks) m (\<lambda>_. on_plan opt p ds i) (\<lambda>_. on_plan opt p ds i)" for ks and m :: "('a, bool) sact"
    by (rule triple_weaken [OF awaits_gentle]) (auto intro: awaits_on_plan)
  have "triple (awaits opt p ds i js) (run_rows env dry_run n js) (\<lambda>_. on_plan opt p ds i) (\<lambda>_. on_plan opt p ds i)" using Cons by simp
  then have next_row: "triple (awaits opt p ds i js) (if go then run_rows env dry_run n js else areturn False) (\<lambda>_. on_plan opt p ds i) (\<lambda>_. on_plan opt p ds i)" for go
    using end_now [OF gentle_parts(4)] by simp
  have row: "triple (awaits opt p ds i (j # js)) (run_row env dry_run j) (\<lambda>_. awaits opt p ds i js) (\<lambda>_. on_plan opt p ds i)"
    using Cons.prems by (intro awaits_row assms) auto
  show ?case unfolding run_rows.simps
    by (intro triple_bind [OF awaits_gentle [OF gentle_parts(3)]] triple_split(1) end_now triple_bind [OF awaits_gentle [OF gentle_job]]
        triple_bind [OF awaits_gentle [OF gentle_parts(1)]] triple_bind [OF row] triple_bind [OF awaits_gentle [OF gentle_after]] next_row)
       (intro gentle_intros; simp | simp)+
qed

section \<open>A whole job\<close>

text \<open>
  How a job is composed, for any property of its parts: from \<open>P\<close>, the parts that only manage the job keep
  \<open>P\<close>, and the loop over the radios ends in \<open>Q\<close>.
\<close>

locale job_logic =
  fixes env :: "'w setup_env" and own :: string and dry_run :: bool
    and P Q :: "'w coordination \<Rightarrow> bool" and E :: "setup_exc \<Rightarrow> 'w coordination \<Rightarrow> bool"
  assumes weaker: "P s \<Longrightarrow> Q s"
    and managing: "triple P (save env) (\<lambda>_. P) E" "triple Q (save env) (\<lambda>_. Q) E"
      "triple P (stamp_job env (\<lambda>now j. j\<lparr>jb_status := status, jb_error := (if error = [] then jb_error j else error), jb_ended := Some now\<rparr>)) (\<lambda>_. P) E"
      "triple P (stamp_job env (\<lambda>now j. j\<lparr>jb_status := ''running'', jb_started := (case jb_started j of None \<Rightarrow> Some now | Some t \<Rightarrow> Some t)\<rparr>)) (\<lambda>_. P) E"
      "triple Q (\<lambda>s. stamp_job env (\<lambda>now. finished now (co_rows s)) s) (\<lambda>_. Q) E"
      "triple P (watch_lease own) (\<lambda>_. P) E" "triple P (cancellation_requested env) (\<lambda>_. P) E" "triple P (take_lease env own jid) (\<lambda>_. P) (\<lambda>_. P)"
    and rows: "triple P (\<lambda>s. run_rows env dry_run (length (co_rows s)) [0..<length (co_rows s)] s) (\<lambda>_. Q) E"
    and left: "Q s \<Longrightarrow> Q (s\<lparr>co_world := w\<rparr>)" "E e s \<Longrightarrow> E e (s\<lparr>co_world := w\<rparr>)"
begin

lemma ending: "triple P (end_job env status error) (\<lambda>_. Q) E"
  unfolding end_job_def by (rule triple_bind [OF managing(3)], rule triple_weaken [OF managing(1)]) (auto simp: weaker)

lemma working: "triple P (work_job env own dry_run) (\<lambda>_. Q) E"
  unfolding work_job_def finish_job_def
  by (intro triple_bind [OF managing(6)] triple_bind [OF managing(4)] triple_bind [OF managing(1)] triple_bind [OF rows] triple_split(1)
      triple_bind [OF managing(5)] managing(2) triple_return)

lemma owning: "triple P (owned_job env own dry_run) (\<lambda>_. Q) E"
proof -
  have rest: "triple P (abind (cancellation_requested env) (\<lambda>cancel. if cancel then end_job env ''cancelled'' [] else work_job env own dry_run)) (\<lambda>_. Q) E"
    by (intro triple_bind [OF managing(7)] triple_split(1) ending working)
  show ?thesis using rest ending [of "''failed''"] weaker by (auto simp: triple_def owned_job_def)
qed

lemma executing: "triple P (execute_job env own dry_run) (\<lambda>_. Q) E"
  unfolding triple_def
proof (intro allI impI)
  fix s
  assume s: "P s"
  have released: "triple P (releasing env own jid (owned_job env own dry_run)) (\<lambda>_. Q) E" for jid
    using owning left by (fastforce simp: triple_def releasing_def split: prod.splits sum.splits)
  obtain a t where got: "take_lease env own (jb_id (co_job s)) s = (a, t)" by fastforce
  have t: "P t" using triple_apply [OF managing(8) s got] by (cases a) auto
  show "case execute_job env own dry_run s of (Inl e, t) \<Rightarrow> E e t | (Inr a, t) \<Rightarrow> Q t"
  proof (cases "jb_status (co_job s) \<notin> {''pending'', ''running''}")
    case True
    then show ?thesis using s weaker by (simp add: execute_job_def)
  next
    case False
    then have x: "execute_job env own dry_run s = (case a of Inl e \<Rightarrow> end_job env ''failed'' (''coordinator lease failed: '' @ take 500 (exc_message e)) t
      | Inr g \<Rightarrow> if g then releasing env own (jb_id (co_job s)) (owned_job env own dry_run) t else (Inr (), t))"
      using got by (simp add: execute_job_def)
    show ?thesis
    proof (cases a)
      case (Inl e)
      then show ?thesis using x t ending [of "''failed''" "''coordinator lease failed: '' @ take 500 (exc_message e)"] by (simp only: triple_def sum.case)
    next
      case (Inr g)
      then show ?thesis using x t weaker released [of "jb_id (co_job s)"] by (cases g) (simp_all only: triple_def sum.case if_True if_False prod.case)
    qed
  qed
qed

end

text \<open>Along the plan, and carefully.\<close>

definition fresh_radio :: "pyval option \<Rightarrow> string list \<Rightarrow> nat \<Rightarrow> 'w coordination \<Rightarrow> bool" where
  "fresh_radio p ds i s = (distinct ds \<and> i < length ds \<and> untouched_yet p ds i s)"

definition radio_on_plan :: "pyval option \<Rightarrow> string list \<Rightarrow> nat \<Rightarrow> 'w coordination \<Rightarrow> bool" where
  "radio_on_plan p ds i = on_plan (options_of (load_json p)) p ds i"

lemma gentle_fresh: "gentle i m \<Longrightarrow> triple (fresh_radio p ds i) m (\<lambda>_. fresh_radio p ds i) E" if "\<And>e s. fresh_radio p ds i s \<Longrightarrow> E e s"
proof -
  assume g: "gentle i m"
  have "fresh_radio p ds i (snd (m s))" if "fresh_radio p ds i s" for s
    using that mild_known(2) [of i s "snd (m s)"] g by (simp add: fresh_radio_def gentle_def)
  then show ?thesis using that unfolding triple_def by (auto split: prod.splits sum.splits) (metis snd_conv)+
qed

lemma awaits_none: "awaits opt p ds i [] = on_plan opt p ds i"
  by (rule ext) (simp add: awaits_def)

lemma gentle_planned: "gentle i m \<Longrightarrow> triple (radio_on_plan p ds i) m (\<lambda>_. radio_on_plan p ds i) (\<lambda>_. radio_on_plan p ds i)"
  unfolding radio_on_plan_def by (rule triple_weaken, erule awaits_gentle [of _ _ _ _ _ "[]"]) (simp_all add: awaits_none)

lemma fresh_on_plan: "fresh_radio p ds i s \<Longrightarrow> radio_on_plan p ds i s"
  using untouched_on_plan [of p ds i s "options_of (load_json p)"] by (simp add: fresh_radio_def radio_on_plan_def)

lemma fresh_rows:
  "triple (fresh_radio p ds i) (\<lambda>s. run_rows env dry_run (length (co_rows s)) [0..<length (co_rows s)] s) (\<lambda>_. radio_on_plan p ds i) (\<lambda>_. radio_on_plan p ds i)"
  unfolding triple_def
proof (intro allI impI)
  fix s :: "'a coordination"
  assume s: "fresh_radio p ds i s"
  then have n: "length (co_rows s) = length ds" by (auto simp: fresh_radio_def untouched_yet_def)
  have w: "awaits (options_of (load_json p)) p ds i [0..<length ds] s" using s by (simp add: fresh_radio_def awaits_def)
  have d: "distinct ds" "i < length ds" using s by (simp_all add: fresh_radio_def)
  show "case run_rows env dry_run (length (co_rows s)) [0..<length (co_rows s)] s of (Inl e, t) \<Rightarrow> radio_on_plan p ds i t | (Inr a, t) \<Rightarrow> radio_on_plan p ds i t"
    using awaits_rows [OF d refl distinct_upt, of 0 "length ds" p env dry_run "length ds"] w unfolding n triple_def radio_on_plan_def by simp
qed

lemma planned_world: "radio_on_plan p ds i (s\<lparr>co_world := w\<rparr>) = radio_on_plan p ds i s"
  by (simp add: radio_on_plan_def on_plan_def)

interpretation planned: job_logic env own dry_run "fresh_radio p ds i" "radio_on_plan p ds i" "\<lambda>_. radio_on_plan p ds i" for env own dry_run p ds i
proof (unfold_locales, goal_cases)
  case 1
  then show ?case by (rule fresh_on_plan)
next
  case 9
  show ?case by (rule gentle_fresh) (auto intro: gentle_parts)
next
  case 10
  show ?case by (rule fresh_rows)
qed (auto intro!: gentle_fresh gentle_planned gentle_parts gentle_stamp gentle_finished simp: planned_world intro: fresh_on_plan)

text \<open>Every operation of a job follows directly on a check.\<close>

lemma careful_manage:
  "keeps careful (watch_lease own)" "keeps careful (cancellation_requested env)" "keeps careful (take_lease env own jid)" "keeps careful (lock_radio env i enabled)"
  by (auto simp: keeps_def watch_lease_def cancellation_requested_def take_lease_def lock_radio_def Let_def split: prod.split sum.split lock_answer.split)

lemma keeps_state: "(\<And>s. keeps P (g s)) \<Longrightarrow> keeps P (\<lambda>s. g s s)"
  by (simp add: keeps_def)

lemma triple_cond: "triple P m Q E \<Longrightarrow> triple P n Q E \<Longrightarrow> triple P (\<lambda>s. if B s then m s else n s) Q E"
  by (simp add: triple_def)

lemma careful_row: "keeps careful (run_row env dry_run i)"
  unfolding run_row_def ownership_denied_def
  by (intro keeps_bind careful_manage) (auto split: option.split intro!: careful_device keeps_bind careful_parts)

lemma careful_rows: "keeps careful (run_rows env dry_run n is)"
proof (induction "is")
  case Nil
  show ?case by (simp add: keeps_trivial)
next
  case (Cons i js)
  have after: "keeps careful (after_row env n i)"
    unfolding after_row_def [abs_def] triple_iff_keeps [symmetric]
    by (rule triple_cond) (simp_all add: triple_iff_keeps keeps_bind careful_parts keeps_trivial)
  show ?case unfolding run_rows.simps
    by (intro keeps_bind careful_if careful_manage careful_parts careful_row after Cons keeps_trivial keeps_state [where g = "\<lambda>s. on_job (_ s)"])
qed

interpretation checked: job_logic env own dry_run careful careful "\<lambda>_. careful" for env own dry_run
proof (unfold_locales, goal_cases)
  case 5
  show ?case unfolding triple_iff_keeps by (rule keeps_state [where g = "\<lambda>s. stamp_job env (_ s)"]) (rule careful_parts)
next
  case 9
  show ?case unfolding triple_iff_keeps by (rule keeps_state [where g = "\<lambda>s. run_rows env dry_run (_ s) (_ s)"]) (rule careful_rows)
qed (simp_all add: triple_iff_keeps careful_parts careful_manage)

text \<open>The durable states of each radio.\<close>

lemma tidy_manage: "tidy j u (watch_lease own)" "tidy j u (cancellation_requested env)" "tidy j u (lock_radio env i enabled)"
  by (intro stateless_keeps; auto simp: stateless_def watch_lease_def cancellation_requested_def lock_radio_def cur_def split: prod.split lock_answer.split)+

lemma in_sync_denied: "triple (in_sync j u) (on_row i (\<lambda>r. r\<lparr>dv_state := state_value S_FAILED, dv_last_error := x, dv_recovery := y\<rparr>)) (\<lambda>_. ahead j u) (left_settled j u)"
proof -
  have "ahead j u (s\<lparr>co_rows := (co_rows s)[i := (cur i s)\<lparr>dv_state := state_value S_FAILED, dv_last_error := x, dv_recovery := y\<rparr>]\<rparr>)" if "in_sync j u s" for s :: "'a coordination"
    using that by (cases "i = j"; cases "i < length (co_rows s)") (auto simp: in_sync_def ahead_def durable_def cur_def list_update_beyond moves_def)
  then show ?thesis by (simp add: triple_def on_row_def)
qed

lemma tidy_run_row: "tidy j u (run_row env dry_run i)"
proof -
  have "tidy j u (ownership_denied env i code)" for code
    unfolding ownership_denied_def by (intro triple_bind [OF in_sync_denied] triple_bind [OF ahead_parts(1)] triple_bind [OF ahead_parts(5)] ahead_save)
  then show ?thesis unfolding run_row_def by (intro tidy_bind tidy_manage) (simp add: tidy_device split: option.split)
qed

lemma tidy_rows: "tidy j u (run_rows env dry_run n is)"
proof (induction "is")
  case Nil
  show ?case by (simp add: tidy_parts)
next
  case (Cons i js)
  have after: "tidy j u (after_row env n i)"
    unfolding after_row_def [abs_def] by (rule triple_cond) (intro tidy_bind tidy_parts)+
  show ?case unfolding run_rows.simps
    by (intro tidy_bind tidy_if tidy_manage tidy_parts tidy_run_row after Cons triple_state [where g = "\<lambda>s. on_job (_ s)"])
qed

interpretation tidied: job_logic env own dry_run "in_sync j u" "in_sync j u" "left_settled j u" for env own dry_run j u
proof (unfold_locales, goal_cases)
  case 5
  show ?case by (rule triple_state [where g = "\<lambda>s. stamp_job env (_ s)"]) (rule tidy_parts)
next
  case 8
  show ?case by (auto simp: triple_def take_lease_def Let_def in_sync_def durable_def split: prod.split sum.split)
next
  case 9
  show ?case by (rule triple_state [where g = "\<lambda>s. run_rows env dry_run (_ s) (_ s)"]) (rule tidy_rows)
qed (auto intro: tidy_parts tidy_manage simp: left_settled_def in_sync_def durable_def)

section \<open>The server a radio is pointed to\<close>

primrec op_target :: "operation \<Rightarrow> server_target option" where
  "op_target Identify = None" | "op_target PresentationPreflight = None" | "op_target PresentationPrepare = None" | "op_target PresentationActivate = None"
| "op_target PresentationVerify = None" | "op_target RestorePrepare = None" | "op_target RestoreActivate = None" | "op_target RestoreVerify = None"
| "op_target ConfigureDefaults = None" | "op_target BackUp = None" | "op_target SshStatus = None" | "op_target ActivateSsh = None" | "op_target PersistSsh = None"
| "op_target RebootVerifySsh = None" | "op_target BackupRouting = None" | "op_target (Route t) = Some t" | "op_target RebootRadio = None" | "op_target Reconnect = None"
| "op_target (PairAccount t) = Some t" | "op_target ReadPresets = None" | "op_target (PlaybackTest t) = Some t" | "op_target RollBack = None"

definition aimed :: "server_target \<Rightarrow> 'w coordination \<Rightarrow> bool" where
  "aimed u s = (jb_target (co_job s) = Some (VDict (target_public u)) \<and> (\<forall>op d t. Called op d \<in> set (co_log s) \<longrightarrow> op_target op = Some t \<longrightarrow> t = u))"

text \<open>What was stored of a target is read back as that target.\<close>

lemma target_keys:
  "get_key (target_public u) ''host'' = VStr (st_host u)"
  "get_key (target_public u) ''ports'' = VDict [(''web'', VInt (st_web u)), (''cloud'', VInt (st_cloud u)), (''debug'', VInt (st_debug u))]"
  "get_key [(''web'', x), (''cloud'', y), (''debug'', z)] ''web'' = x" "get_key [(''web'', x), (''cloud'', y), (''debug'', z)] ''cloud'' = y"
  "get_key [(''web'', x), (''cloud'', y), (''debug'', z)] ''debug'' = z"
  by (simp_all add: target_public_def get_or_def Let_def)

lemma int_or_zero_int: "int_or_zero (VInt i) = Inr i"
  by (simp add: int_or_zero_def)

lemma target_read_back: "jb_target (co_job s) = Some (VDict (target_public u)) \<Longrightarrow> target_of env s = (Inr t, v) \<Longrightarrow> t = u"
  by (simp add: target_of_def Let_def load_json_def dict_or_empty_def target_keys ports_of_def int_or_zero_int new_target_def split: sum.splits if_splits)
     (cases u; force)+

named_theorems aimed_intros \<open>actions that name no other server\<close>

lemma aimed_parts [aimed_intros]:
  "keeps (aimed u) (save env)" "keeps (aimed u) (note_action i action phase b)" "keeps (aimed u) (pause env d)"
  "keeps (aimed u) (update_progress i target)" "keeps (aimed u) (on_row i f)" "keeps (aimed u) (expect ok t)"
  "keeps (aimed u) (transition_state i target error)" "keeps (aimed u) (cancellation_checkpoint env)" "keeps (aimed u) (cancellation_requested env)"
  "keeps (aimed u) (watch_lease own)" "keeps (aimed u) (take_lease env own jid)" "keeps (aimed u) (lock_radio env i enabled)"
  by (auto simp: keeps_def aimed_def save_def note_action_def pause_def Let_def update_progress_def on_job_def on_row_def expect_def araise_def areturn_def
      transition_state_def cancellation_checkpoint_def abind_def lease_checkpoint_def cancellation_requested_def note_setup_def watch_lease_def take_lease_def lock_radio_def
      split: prod.split bool.split option.split sum.split lock_answer.split)

lemma aimed_job [aimed_intros]: "(\<And>j. jb_target (g j) = jb_target j) \<Longrightarrow> keeps (aimed u) (on_job g)"
  by (auto simp: keeps_def aimed_def on_job_def)

lemma aimed_stamp [aimed_intros]: "(\<And>n j. jb_target (g n j) = jb_target j) \<Longrightarrow> keeps (aimed u) (stamp_job env g)"
  by (auto simp: keeps_def aimed_def stamp_job_def on_job_def)

lemmas aimed_basic [aimed_intros] = keeps_bind keeps_catching keeps_trivial

lemma aimed_if [aimed_intros]: "keeps (aimed u) m \<Longrightarrow> keeps (aimed u) n \<Longrightarrow> keeps (aimed u) (if b then m else n)"
  by simp

lemma aimed_call [aimed_intros]: "(\<And>t. op_target op = Some t \<Longrightarrow> t = u) \<Longrightarrow> keeps (aimed u) (call env i op)"
  by (auto simp: keeps_def aimed_def call_def note_setup_def split: prod.split)

lemma aimed_steps [aimed_intros]: "keeps (aimed u) m \<Longrightarrow> keeps (aimed u) (step env i target m)" "keeps (aimed u) (transition_only env i target)"
  unfolding step_def transition_only_def by (intro aimed_intros; simp)+

lemma aimed_target: "triple (aimed u) (target_of env) (\<lambda>t s. aimed u s \<and> t = u) (\<lambda>_. aimed u)"
  unfolding triple_def
proof (intro allI impI)
  fix s :: "'a coordination"
  assume s: "aimed u s"
  obtain a where a: "target_of env s = (a, s)" by (simp add: target_of_def Let_def)
  then show "case target_of env s of (Inl e, t) \<Rightarrow> aimed u t | (Inr t, t') \<Rightarrow> aimed u t' \<and> t = u"
    using s target_read_back [of s u env] by (cases a) (auto simp: aimed_def)
qed

lemma aimed_under: "(\<And>t. t = u \<Longrightarrow> triple (aimed u) (f t) Q E) \<Longrightarrow> triple (\<lambda>s. aimed u s \<and> t = u) (f t) Q E"
  by (auto simp: triple_def)

lemma aimed_route: "triple (aimed u) (route_radio env i opt) (\<lambda>t s. aimed u s \<and> t = u) (\<lambda>_. aimed u)"
proof -
  have last: "triple (aimed u) (areturn u) (\<lambda>t s. aimed u s \<and> t = u) (\<lambda>_. aimed u)" by (rule triple_return) simp
  show ?thesis unfolding route_radio_def
    by (intro triple_bind [OF aimed_target] aimed_under triple_bind [OF triple_keeps] aimed_intros; simp add: last)
qed

lemma aimed_device: "keeps (aimed u) (run_device env i dry_run)"
proof -
  have guarded: "keeps (aimed u) m \<Longrightarrow> keeps (aimed u) (\<lambda>s. if P s then m s else (Inr (), s))" for P and m :: "('a, unit) sact" by (simp add: keeps_def)
  have tail: "keeps (aimed u) (restart_radio env i opt)" "keeps (aimed u) (finish_radio env i opt u)" for opt
    unfolding restart_radio_def finish_radio_def by (intro aimed_intros; simp)+
  have noted: "keeps (aimed u) (if b then areturn () else abind (note_action i action phase ok) (\<lambda>_. save env))" for b action phase ok
    by (intro aimed_intros)
  have set_up: "keeps (aimed u) (set_up_radio env i plan)" for plan
    unfolding set_up_radio_def Let_def enable_ssh_def triple_iff_keeps [symmetric]
    by (intro triple_bind [OF aimed_route] aimed_under triple_bind [OF triple_keeps] aimed_intros tail triple_keeps [OF noted]; simp add: tail)
  have body: "keeps (aimed u) (device_body env i dry_run plan)" for plan
    unfolding device_body_def identify_and_back_up_def restore_original_def by (intro aimed_intros set_up; simp)
  have force: "keeps (aimed u) (force_failed i error)" for error unfolding force_failed_def by (intro aimed_intros)
  have stamped: "(\<And>s n j. jb_target (g s n j) = jb_target j) \<Longrightarrow> keeps (aimed u) (\<lambda>s. stamp_job env (g s) s)" for g
    by (auto simp: keeps_def aimed_def stamp_job_def on_job_def)
  have cancelled: "keeps (aimed u) (device_cancelled env i)"
    unfolding device_cancelled_def by (intro keeps_bind guarded force aimed_parts stamped) simp
  have failed: "keeps (aimed u) (device_failed env i plan e)" for plan e
    unfolding device_failed_def Let_def by (intro aimed_intros guarded force; simp)
  have "keeps (aimed u) (catching (device_body env i dry_run plan) (\<lambda>e. if e = CancellationRequested then device_cancelled env i
      else if e = Interrupted \<or> e = Broken then araise e else device_failed env i plan e))" for plan
    by (intro aimed_intros body cancelled failed)
  then show ?thesis by (simp add: keeps_def run_device_def Let_def)
qed

lemma aimed_rows: "keeps (aimed u) (run_rows env dry_run n is)"
proof (induction "is")
  case Nil
  show ?case by (simp add: keeps_trivial)
next
  case (Cons i js)
  have row: "keeps (aimed u) (run_row env dry_run i)"
    unfolding run_row_def ownership_denied_def by (intro aimed_intros) (auto split: option.split intro!: aimed_device aimed_intros)
  have after: "keeps (aimed u) (after_row env n i)"
    unfolding after_row_def [abs_def] triple_iff_keeps [symmetric] by (rule triple_cond; unfold triple_iff_keeps; intro aimed_intros; simp)
  show ?case unfolding run_rows.simps
    by (intro aimed_intros row after Cons keeps_state [where g = "\<lambda>s. on_job (_ s)"]; simp)
qed

interpretation aiming: job_logic env own dry_run "aimed u" "aimed u" "\<lambda>_. aimed u" for env own dry_run u
proof (unfold_locales, goal_cases)
  case 5
  show ?case unfolding triple_iff_keeps by (rule keeps_state [where g = "\<lambda>s. stamp_job env (_ s)"]) (rule aimed_stamp, simp add: finished_def Let_def)
next
  case 9
  show ?case unfolding triple_iff_keeps by (rule keeps_state [where g = "\<lambda>s. run_rows env dry_run (_ s) (_ s)"]) (rule aimed_rows)
qed (simp_all add: triple_iff_keeps aimed_parts aimed_stamp, simp_all add: aimed_def)

section \<open>Only radios of the job are asked\<close>

definition inside_job :: "string list \<Rightarrow> 'w coordination \<Rightarrow> bool" where
  "inside_job ds s = (map dv_device (co_rows s) = ds \<and> (\<forall>op d. Called op d \<in> set (co_log s) \<longrightarrow> d \<in> set ds))"

lemma inside_frame: "confined i s t \<Longrightarrow> i < length ds \<Longrightarrow> inside_job ds s \<Longrightarrow> inside_job ds t"
proof -
  assume f: "confined i s t" and i: "i < length ds" and s: "inside_job ds s"
  have "dv_device (cur i s) \<in> set ds" using i s by (auto simp: inside_job_def cur_def)
  moreover obtain ev where "co_log t = co_log s @ ev" "\<forall>op d. Called op d \<in> set ev \<longrightarrow> d = dv_device (cur i s)" using f by (auto simp: confined_def)
  ultimately show ?thesis using devices_framed [OF f] s unfolding inside_job_def by (metis Un_iff set_append)
qed

lemma inside_framed: "framed i m \<Longrightarrow> i < length ds \<Longrightarrow> keeps (inside_job ds) m"
  using inside_frame by (fastforce simp: framed_def keeps_def)

lemma inside_manage [simp]:
  "keeps (inside_job ds) (save env)" "keeps (inside_job ds) (watch_lease own)" "keeps (inside_job ds) (cancellation_requested env)" "keeps (inside_job ds) (take_lease env own jid)"
  "keeps (inside_job ds) (lock_radio env i enabled)" "keeps (inside_job ds) (on_job g)" "keeps (inside_job ds) (stamp_job env h)" "keeps (inside_job ds) (areturn x)"
  by (auto simp: keeps_def inside_job_def save_def watch_lease_def cancellation_requested_def take_lease_def lock_radio_def on_job_def stamp_job_def areturn_def Let_def
      note_setup_def split: prod.split sum.split bool.split lock_answer.split)

lemma inside_row: "i < length ds \<Longrightarrow> keeps (inside_job ds) (run_row env dry_run i)"
proof -
  assume i: "i < length ds"
  have "framed i (ownership_denied env i code)" for code unfolding ownership_denied_def by (intro framed_intros; simp)
  then show ?thesis unfolding run_row_def
    by (intro keeps_bind inside_manage) (auto split: option.split intro: inside_framed [OF framed_device i] inside_framed [OF _ i])
qed

lemma inside_rows: "\<forall>i \<in> set is. i < length ds \<Longrightarrow> keeps (inside_job ds) (run_rows env dry_run n is)"
proof (induction "is")
  case (Cons i js)
  have after: "keeps (inside_job ds) (after_row env n i)"
    unfolding after_row_def [abs_def] triple_iff_keeps [symmetric] by (rule triple_cond) (simp_all add: triple_iff_keeps keeps_bind)
  have row: "keeps (inside_job ds) (\<lambda>s. on_job (g s) s)" for g by (rule keeps_state [where g = "\<lambda>s. on_job (g s)"]) simp
  show ?case unfolding run_rows.simps using Cons
    by (intro keeps_bind) (simp_all add: keeps_bind row inside_row after)
qed simp

interpretation inside: job_logic env own dry_run "inside_job ds" "inside_job ds" "\<lambda>_. inside_job ds" for env own dry_run ds
proof (unfold_locales, goal_cases)
  case 5
  show ?case unfolding triple_iff_keeps by (rule keeps_state [where g = "\<lambda>s. stamp_job env (_ s)"]) simp
next
  case 9
  show ?case unfolding triple_iff_keeps
  proof (rule keepsI)
    fix s :: "'a coordination"
    assume s: "inside_job ds s"
    then have "length (co_rows s) = length ds" by (auto simp: inside_job_def)
    then show "inside_job ds (snd (run_rows env dry_run (length (co_rows s)) [0..<length (co_rows s)] s))" using s by (intro keepsD [OF inside_rows]) auto
  qed
qed (simp_all add: triple_iff_keeps, simp_all add: inside_job_def)

end
