(* ===== verification/SetupCompletion.thy ===== *)
theory SetupCompletion
  imports SetupJobLaws
begin

text \<open>
  A setup that nothing disturbs ends with every radio verified, for every choice of options: the
  transitions of the state machine and the steps of the coordinator fit together.
\<close>

section \<open>Cooperative surroundings\<close>

text \<open>What the coordinator looks for in the answer to an operation.\<close>

primrec NEEDED :: "operation \<Rightarrow> string list" where
  "NEEDED Identify = [''verified'']" | "NEEDED PresentationPreflight = []" | "NEEDED PresentationPrepare = [''presentation_prepared'']" | "NEEDED PresentationActivate = []"
| "NEEDED PresentationVerify = [''presentation_verified'', ''presentation_preferences_verified'']" | "NEEDED RestorePrepare = [''restore_prepared'']"
| "NEEDED RestoreActivate = [''restore_configured'']" | "NEEDED RestoreVerify = [''original_verified'']" | "NEEDED ConfigureDefaults = [''radio_defaults_verified'']"
| "NEEDED BackUp = [''verified'']" | "NEEDED SshStatus = []" | "NEEDED ActivateSsh = []" | "NEEDED PersistSsh = []" | "NEEDED RebootVerifySsh = [''verified'']"
| "NEEDED BackupRouting = [''routing_backup'']" | "NEEDED (Route t) = []" | "NEEDED RebootRadio = [''reboot_requested'']" | "NEEDED Reconnect = [''reachable'']"
| "NEEDED (PairAccount t) = [''account_paired'']" | "NEEDED ReadPresets = []" | "NEEDED (PlaybackTest t) = [''playback_ready'']" | "NEEDED RollBack = []"

definition confirms :: "operation \<Rightarrow> dict \<Rightarrow> bool" where
  "confirms op d = list_all (\<lambda>k. get_key d k = VBool True) (NEEDED op)"

text \<open>
  The radios answer and confirm, locks are free, commits succeed, nobody cancels, the lease stays with
  this job, and the server is not a protected device.
\<close>

definition cooperative :: "'w setup_env \<Rightarrow> string \<Rightarrow> string \<Rightarrow> server_target \<Rightarrow> bool" where
  "cooperative env own jid u = (\<forall>w. (\<forall>op r. \<exists>d w'. se_call env op r w = (Inr d, w') \<and> confirms op d) \<and> (\<exists>w'. se_pause env w = (False, w')) \<and>
     (\<forall>d. \<exists>w'. se_lock env d w = (Entered, w')) \<and> (\<exists>w'. se_commit env w = (True, w')) \<and> se_cancel env w = Inr False \<and> \<not> se_beat env w \<and>
     se_db_ok env w \<and> owned own jid (se_now env w) (se_lease env w) \<and> is_protected_ip (se_net env) (se_policy env w) (st_host u) = Inr False)"

definition well :: "string \<Rightarrow> string \<Rightarrow> server_target \<Rightarrow> nat \<Rightarrow> setup_state \<Rightarrow> 'w coordination \<Rightarrow> bool" where
  "well own jid u i X s = (i < length (co_rows s) \<and> dv_state (cur i s) = state_value X \<and> co_watch s = new_watch own jid \<and>
     jb_id (co_job s) = jid \<and> jb_target (co_job s) = Some (VDict (target_public u)) \<and> jb_status (co_job s) = ''running'')"

abbreviation never :: "setup_exc \<Rightarrow> 'w coordination \<Rightarrow> bool" where
  "never \<equiv> \<lambda>_ _. False"

definition can :: "setup_state \<Rightarrow> setup_state \<Rightarrow> bool" where
  "can X Y = (Y = X \<or> Y \<in> set (ALLOWED_TRANSITIONS X))"

lemma can_transition: "can X Y \<Longrightarrow> transition (state_value X) (state_value Y) = Inr Y"
  by (auto simp: can_def transition_def)

section \<open>Steps that succeed\<close>

lemma coop_answers:
  assumes "cooperative env own jid u"
  shows "\<exists>d w'. se_call env op r w = (Inr d, w') \<and> confirms op d" "\<exists>w'. se_pause env w = (False, w')" "\<exists>w'. se_lock env d w = (Entered, w')"
    "\<exists>w'. se_commit env w = (True, w')" "se_cancel env w = Inr False" "\<not> se_beat env w" "se_db_ok env w" "owned own jid (se_now env w) (se_lease env w)"
    "is_protected_ip (se_net env) (se_policy env w) (st_host u) = Inr False"
  using assms unfolding cooperative_def by blast+

lemma ok_check: "cooperative env own jid u \<Longrightarrow> triple (well own jid u i X) (cancellation_checkpoint env) (\<lambda>_. well own jid u i X) never"
  using coop_answers [of env own jid u]
  by (auto simp: triple_def well_def cancellation_checkpoint_def abind_def lease_checkpoint_def cancellation_requested_def new_watch_def Let_def note_setup_def cur_def)

lemma ok_transition: "can X Y \<Longrightarrow> triple (well own jid u i X) (transition_state i Y error) (\<lambda>_. well own jid u i Y) never"
  by (auto simp: triple_def well_def transition_state_def can_transition on_row_def cur_row cur_def)

lemma ok_job: "(\<And>j. jb_id (g j) = jb_id j \<and> jb_target (g j) = jb_target j \<and> jb_status (g j) = jb_status j) \<Longrightarrow> triple (well own jid u i X) (on_job g) (\<lambda>_. well own jid u i X) never"
  by (auto simp: triple_def well_def on_job_def)

lemma ok_progress: "triple (well own jid u i X) (update_progress i Y) (\<lambda>_. well own jid u i X) never"
  by (auto simp: triple_def well_def update_progress_def on_job_def split: option.split)

lemma ok_row: "(\<And>r. dv_state (g r) = dv_state r) \<Longrightarrow> triple (well own jid u i X) (on_row i g) (\<lambda>_. well own jid u i X) never"
  by (auto simp: triple_def well_def on_row_def cur_row)

lemma ok_simple: "triple (well own jid u i X) (note_action i action phase b) (\<lambda>_. well own jid u i X) never" "triple (well own jid u i X) (areturn a) (\<lambda>_. well own jid u i X) never"
  by (auto simp: triple_def well_def note_action_def areturn_def note_setup_def cur_def)

lemma ok_save: "cooperative env own jid u \<Longrightarrow> triple (well own jid u i X) (save env) (\<lambda>_. well own jid u i X) never"
  unfolding triple_def
proof (intro allI impI)
  fix s :: "'a coordination"
  assume c: "cooperative env own jid u" and s: "well own jid u i X s"
  obtain w' where "se_commit env (co_world s) = (True, w')" using coop_answers(4) [OF c] by blast
  then show "case save env s of (Inl e, t) \<Rightarrow> False | (Inr a, t) \<Rightarrow> well own jid u i X t" using s by (simp add: save_def well_def note_setup_def cur_def)
qed

lemma ok_call: "cooperative env own jid u \<Longrightarrow> triple (well own jid u i X) (call env i op) (\<lambda>d s. well own jid u i X s \<and> confirms op d) never"
  unfolding triple_def
proof (intro allI impI)
  fix s :: "'a coordination"
  assume c: "cooperative env own jid u" and s: "well own jid u i X s"
  obtain d w' where "se_call env op (cur i s) (co_world s) = (Inr d, w')" "confirms op d" using coop_answers(1) [OF c] by blast
  then show "case call env i op s of (Inl e, t) \<Rightarrow> False | (Inr d, t) \<Rightarrow> well own jid u i X t \<and> confirms op d" using s by (simp add: call_def well_def note_setup_def cur_def)
qed

lemma ok_pause: "cooperative env own jid u \<Longrightarrow> triple (well own jid u i X) (pause env d) (\<lambda>r s. well own jid u i X s \<and> r = d) never"
  unfolding triple_def
proof (intro allI impI)
  fix s :: "'a coordination"
  assume c: "cooperative env own jid u" and s: "well own jid u i X s"
  obtain w' where "se_pause env (co_world s) = (False, w')" using coop_answers(2) [OF c] by blast
  then show "case pause env d s of (Inl e, t) \<Rightarrow> False | (Inr r, t) \<Rightarrow> well own jid u i X t \<and> r = d" using s by (simp add: pause_def well_def cur_def)
qed

lemma ok_given: "(g \<Longrightarrow> triple P m Q E) \<Longrightarrow> triple (\<lambda>s. P s \<and> g) m Q E"
  by (auto simp: triple_def)

lemma ok_step:
  assumes "cooperative env own jid u" "can X Y" "triple (well own jid u i X) m (\<lambda>r s. well own jid u i X s \<and> G r) never"
  shows "triple (well own jid u i X) (step env i Y m) (\<lambda>r s. well own jid u i Y s \<and> G r) never"
  unfolding step_def
  by (rule triple_bind [OF ok_check [OF assms(1)]], rule triple_bind [OF assms(3)], rule ok_given,
      intro triple_bind [OF ok_transition [OF assms(2)]] triple_bind [OF ok_job] triple_bind [OF ok_progress] triple_bind [OF ok_row] triple_bind [OF ok_save [OF assms(1)]]
        triple_bind [OF ok_check [OF assms(1)]] triple_return) simp_all

lemma ok_only:
  assumes "cooperative env own jid u" "can X Y"
  shows "triple (well own jid u i X) (transition_only env i Y) (\<lambda>_. well own jid u i Y) never"
  unfolding transition_only_def
  by (intro triple_bind [OF ok_check [OF assms(1)]] triple_bind [OF ok_transition [OF assms(2)]] triple_bind [OF ok_job] triple_bind [OF ok_progress]
      triple_bind [OF ok_save [OF assms(1)]] ok_check [OF assms(1)]) simp

text \<open>One step of a run in cooperative surroundings, and then the rest.\<close>

lemma run_op:
  "cooperative env own jid u \<Longrightarrow> can X Y \<Longrightarrow> (\<And>d. confirms op d \<Longrightarrow> triple (well own jid u i Y) (f d) R never) \<Longrightarrow>
     triple (well own jid u i X) (abind (step env i Y (call env i op)) f) R never"
  by (rule triple_bind [OF ok_step [OF _ _ ok_call]], assumption+, rule ok_given)

lemma run_pause:
  "cooperative env own jid u \<Longrightarrow> can X Y \<Longrightarrow> triple (well own jid u i Y) (f d) R never \<Longrightarrow> triple (well own jid u i X) (abind (step env i Y (pause env d)) f) R never"
  by (rule triple_bind [OF ok_step [OF _ _ ok_pause]], assumption+, rule ok_given, simp)

lemma run_call:
  "cooperative env own jid u \<Longrightarrow> (\<And>d. confirms op d \<Longrightarrow> triple (well own jid u i X) (f d) R never) \<Longrightarrow> triple (well own jid u i X) (abind (call env i op) f) R never"
  by (rule triple_bind, erule ok_call) (rule ok_given)

lemma run_only:
  "cooperative env own jid u \<Longrightarrow> can X Y \<Longrightarrow> triple (well own jid u i Y) (f ()) R never \<Longrightarrow> triple (well own jid u i X) (abind (transition_only env i Y) f) R never"
  by (rule triple_bind, erule (1) ok_only) simp

lemma run_expect: "ok \<Longrightarrow> triple P (f ()) R E \<Longrightarrow> triple P (abind (expect ok t) f) R E"
  by (simp add: expect_def triple_def abind_def areturn_def)

lemma ok_expect: "ok \<Longrightarrow> (\<And>s. P s \<Longrightarrow> Q () s) \<Longrightarrow> triple P (expect ok t) Q E"
  by (simp add: expect_def triple_def areturn_def)

section \<open>The parts of a setup\<close>

lemmas can_simps = can_def ALLOWED_TRANSITIONS.simps confirms_def NEEDED.simps

lemma run_assoc: "triple P (abind m (\<lambda>a. abind (f a) g)) R E \<Longrightarrow> triple P (abind (abind m f) g) R E"
  by (auto simp: triple_def abind_def split: prod.splits sum.splits)

lemma run_if: "(b \<Longrightarrow> triple P (abind m f) R E) \<Longrightarrow> (\<not> b \<Longrightarrow> triple P (abind n f) R E) \<Longrightarrow> triple P (abind (if b then m else n) f) R E"
  by simp

lemma run_return: "triple P (f a) R E \<Longrightarrow> triple P (abind (areturn a) f) R E"
  by (simp add: triple_def abind_def areturn_def)

lemma run_on_row: "(\<And>r. dv_state (g r) = dv_state r) \<Longrightarrow> triple (well own jid u i X) (f ()) R never \<Longrightarrow> triple (well own jid u i X) (abind (on_row i g) f) R never"
  by (rule triple_bind [OF ok_row]) simp_all

lemma run_save: "cooperative env own jid u \<Longrightarrow> triple (well own jid u i X) (f ()) R never \<Longrightarrow> triple (well own jid u i X) (abind (save env) f) R never"
  by (rule triple_bind [OF ok_save]) simp_all

lemma run_note: "triple (well own jid u i X) (f ()) R never \<Longrightarrow> triple (well own jid u i X) (abind (note_action i action phase b) f) R never"
  by (rule triple_bind [OF ok_simple(1)]) simp

lemma run_target:
  "cooperative env own jid u \<Longrightarrow> triple (well own jid u i X) (f u) R never \<Longrightarrow> triple (well own jid u i X) (abind (target_of env) f) R never"
proof (rule triple_bind [where Q = "\<lambda>t s. well own jid u i X s \<and> t = u"])
  assume c: "cooperative env own jid u"
  show "triple (well own jid u i X) (target_of env) (\<lambda>t s. well own jid u i X s \<and> t = u) never"
    using coop_answers(9) [OF c]
    by (auto simp: triple_def well_def target_of_def Let_def load_json_def dict_or_empty_def target_keys ports_of_def int_or_zero_int new_target_def)
qed (rule ok_given, simp)

lemmas run_intros = run_assoc run_if run_return run_op run_pause run_call run_only run_expect run_on_row run_save run_note run_target ok_save triple_split(1)

lemma ok_identify:
  assumes "cooperative env own jid u"
  shows "triple (well own jid u i S_UNKNOWN) (identify_and_back_up env i opt) (\<lambda>_. well own jid u i S_BACKUP_COMPLETE) never"
  unfolding identify_and_back_up_def by (intro run_intros assms) (simp_all add: can_simps)

lemma ok_restore:
  assumes "cooperative env own jid u"
  shows "triple (well own jid u i S_BACKUP_COMPLETE) (restore_original env i dry_run) (\<lambda>_. well own jid u i S_VERIFIED) never"
  unfolding restore_original_def by (intro run_intros ok_simple assms) (simp_all add: can_simps)

lemma ok_ssh:
  assumes "cooperative env own jid u"
  shows "triple (well own jid u i S_BACKUP_COMPLETE) (enable_ssh env i) (\<lambda>_. well own jid u i S_SSH_VERIFIED) never"
  unfolding enable_ssh_def by (intro run_intros ok_expect assms) (simp_all add: can_simps)

lemma ok_route:
  assumes "cooperative env own jid u" "X \<in> {S_BACKUP_COMPLETE, S_SSH_VERIFIED}"
  shows "triple (well own jid u i X) (route_radio env i opt)
    (\<lambda>t s. well own jid u i (if so_patched opt then S_PRESENTATION_CONFIGURED else S_BASSWIESN_ROUTE_ACTIVE) s \<and> t = u) never"
  unfolding route_radio_def by (intro run_intros triple_return assms(1)) (use assms(2) in \<open>auto simp: can_simps\<close>)

lemma ok_restart:
  assumes "cooperative env own jid u"
  shows "triple (well own jid u i (if so_patched opt then S_PRESENTATION_CONFIGURED else S_BASSWIESN_ROUTE_ACTIVE)) (restart_radio env i opt)
    (\<lambda>_. well own jid u i (if so_patched opt then S_PRESENTATION_VERIFIED else S_RADIO_REACHABLE)) never"
  unfolding restart_radio_def
  by (cases "so_patched opt"; simp only: if_True if_False; intro run_intros ok_expect assms; simp add: can_simps)

lemma ok_finish:
  assumes "cooperative env own jid u" "X \<in> {S_PRESENTATION_VERIFIED, S_RADIO_REACHABLE}"
  shows "triple (well own jid u i X) (finish_radio env i opt t) (\<lambda>_. well own jid u i S_VERIFIED) never"
  unfolding finish_radio_def by (intro run_intros ok_simple assms(1)) (use assms(2) in \<open>auto simp: can_simps\<close>)

lemma ok_body:
  assumes "cooperative env own jid u"
  shows "triple (well own jid u i S_UNKNOWN) (device_body env i dry_run plan) (\<lambda>_. well own jid u i S_VERIFIED) never"
proof -
  let ?opt = "options_of plan"
  have last: "triple (well own jid u i X) (abind (finish_radio env i ?opt u) (\<lambda>_. if b then areturn () else abind (note_action i action phase ok) (\<lambda>_. save env)))
      (\<lambda>_. well own jid u i S_VERIFIED) never" if "X \<in> {S_PRESENTATION_VERIFIED, S_RADIO_REACHABLE}" for X b action phase ok
    by (rule triple_bind [OF ok_finish [OF assms that]]) (intro run_intros ok_simple assms)
  have routed: "triple (well own jid u i X) (abind (route_radio env i ?opt) (\<lambda>target. abind (restart_radio env i ?opt) (\<lambda>_. abind (finish_radio env i ?opt target) (\<lambda>_.
      if b then areturn () else abind (note_action i action phase ok) (\<lambda>_. save env))))) (\<lambda>_. well own jid u i S_VERIFIED) never"
    if "X \<in> {S_BACKUP_COMPLETE, S_SSH_VERIFIED}" for X b action phase ok
    by (rule triple_bind [OF ok_route [OF assms that]], rule ok_given, simp only:, rule triple_bind [OF ok_restart [OF assms]], rule last) simp
  have "triple (well own jid u i S_BACKUP_COMPLETE) (set_up_radio env i plan) (\<lambda>_. well own jid u i S_VERIFIED) never"
    unfolding set_up_radio_def Let_def
    by (intro run_if triple_bind [OF ok_ssh [OF assms]] routed run_assoc run_on_row run_save assms) simp_all
  then show ?thesis unfolding device_body_def
    by (intro triple_bind [OF ok_identify [OF assms]] triple_split(1) ok_restore [OF assms])
qed

lemma ok_device:
  assumes "cooperative env own jid u"
  shows "triple (well own jid u i S_UNKNOWN) (run_device env i dry_run) (\<lambda>_. well own jid u i S_VERIFIED) never"
  unfolding triple_def
proof (intro allI impI)
  fix s :: "'a coordination"
  assume s: "well own jid u i S_UNKNOWN s"
  obtain a t where body: "device_body env i dry_run (load_json (jb_plan (co_job s))) s = (a, t)" by fastforce
  then have "\<exists>x. a = Inr x" "well own jid u i S_VERIFIED t" using triple_apply [OF ok_body [OF assms] s body] by (cases a; simp)+
  then show "case run_device env i dry_run s of (Inl e, t) \<Rightarrow> False | (Inr x, t) \<Rightarrow> well own jid u i S_VERIFIED t"
    using body by (auto simp: run_device_def catching_def Let_def)
qed

section \<open>A whole job\<close>

text \<open>The first \<open>k\<close> radios are verified and the others untouched.\<close>

definition reached :: "string \<Rightarrow> string \<Rightarrow> server_target \<Rightarrow> nat \<Rightarrow> nat \<Rightarrow> 'w coordination \<Rightarrow> bool" where
  "reached own jid u n k s = (length (co_rows s) = n \<and> (\<forall>j < n. dv_state (cur j s) = state_value (if j < k then S_VERIFIED else S_UNKNOWN)) \<and>
     co_watch s = new_watch own jid \<and> jb_id (co_job s) = jid \<and> jb_target (co_job s) = Some (VDict (target_public u)) \<and> jb_status (co_job s) = ''running'')"

lemma reached_well: "reached own jid u n k s \<Longrightarrow> k < n \<Longrightarrow> well own jid u k S_UNKNOWN s"
  by (simp add: reached_def well_def)

lemma reached_next: "reached own jid u n k s \<Longrightarrow> k < n \<Longrightarrow> confined k s t \<Longrightarrow> well own jid u k S_VERIFIED t \<Longrightarrow> reached own jid u n (Suc k) t"
  by (auto simp: reached_def well_def confined_def less_Suc_eq)

lemma reached_job: "(\<And>s j. jb_id (g s j) = jb_id j \<and> jb_target (g s j) = jb_target j \<and> jb_status (g s j) = jb_status j) \<Longrightarrow>
    triple (reached own jid u n k) (\<lambda>s. on_job (g s) s) (\<lambda>_. reached own jid u n k) never"
  by (auto simp: triple_def reached_def on_job_def)

lemma reached_save: "cooperative env own jid u \<Longrightarrow> triple (reached own jid u n k) (save env) (\<lambda>_. reached own jid u n k) never"
  unfolding triple_def
proof (intro allI impI)
  fix s :: "'a coordination"
  assume c: "cooperative env own jid u" and s: "reached own jid u n k s"
  obtain w' where "se_commit env (co_world s) = (True, w')" using coop_answers(4) [OF c] by blast
  then show "case save env s of (Inl e, t) \<Rightarrow> False | (Inr a, t) \<Rightarrow> reached own jid u n k t" using s by (simp add: save_def reached_def note_setup_def cur_def)
qed

lemma reached_row:
  assumes "cooperative env own jid u" "k < n"
  shows "triple (reached own jid u n k) (run_row env dry_run k) (\<lambda>_. reached own jid u n (Suc k)) never"
  unfolding triple_def
proof (intro allI impI)
  fix s :: "'a coordination"
  assume s: "reached own jid u n k s"
  obtain w' where l: "se_lock env (dv_device (cur k s)) (co_world s) = (Entered, w')" using coop_answers(3) [OF assms(1)] by blast
  define s' where "s' = (if dry_run then s else s\<lparr>co_world := w'\<rparr>)"
  have run: "run_row env dry_run k s = run_device env k dry_run s'" using l by (simp add: run_row_def abind_def lock_radio_def s'_def)
  have s': "reached own jid u n k s'" using s by (simp add: s'_def reached_def)
  obtain a t where d: "run_device env k dry_run s' = (a, t)" by fastforce
  have "\<exists>x. a = Inr x" "well own jid u k S_VERIFIED t" using triple_apply [OF ok_device [OF assms(1)] reached_well [OF s' assms(2)] d] by (cases a; simp)+
  moreover have "confined k s' t" using framed_device [of k env dry_run] d unfolding framed_def by (metis snd_conv)
  ultimately show "case run_row env dry_run k s of (Inl e, t) \<Rightarrow> False | (Inr a, t) \<Rightarrow> reached own jid u n (Suc k) t"
    using run d reached_next [OF s' assms(2)] by auto
qed

lemma reached_after: "cooperative env own jid u \<Longrightarrow> triple (reached own jid u n k) (after_row env n' j) (\<lambda>go s. go \<and> reached own jid u n k s) never"
proof -
  assume c: "cooperative env own jid u"
  have "triple (reached own jid u n k) (abind (on_job (\<lambda>j. j\<lparr>jb_progress := p\<rparr>)) (\<lambda>_. abind (save env) (\<lambda>_. areturn True))) (\<lambda>go s. go \<and> reached own jid u n k s) never" for p
    by (intro triple_bind [OF reached_job [where g = "\<lambda>_ j. j\<lparr>jb_progress := p\<rparr>"]] triple_bind [OF reached_save [OF c]] triple_return) simp_all
  then show ?thesis by (simp add: triple_def after_row_def reached_def)
qed

lemma reached_rows:
  assumes "cooperative env own jid u"
  shows "k \<le> n \<Longrightarrow> triple (reached own jid u n k) (run_rows env dry_run n' [k..<n]) (\<lambda>complete s. complete \<and> reached own jid u n n s) never"
proof (induction "n - k" arbitrary: k)
  case 0
  then have "k = n" by simp
  then show ?case by (simp add: triple_return)
next
  case (Suc m)
  then have k: "k < n" "[k..<n] = k # [Suc k..<n]" by (simp_all add: upt_conv_Cons)
  have asked: "triple (reached own jid u n k) (cancellation_requested env) (\<lambda>c s. reached own jid u n k s \<and> \<not> c) never"
    using coop_answers(5) [OF assms] by (simp add: triple_def cancellation_requested_def)
  have next_row: "triple (\<lambda>s. go \<and> reached own jid u n (Suc k) s) (if go then run_rows env dry_run n' [Suc k..<n] else areturn False)
      (\<lambda>complete s. complete \<and> reached own jid u n n s) never" for go
    using Suc.hyps(1) [of "Suc k"] Suc.hyps(2) k(1) by (auto simp: triple_def)
  have named: "triple (reached own jid u n k) (\<lambda>s. on_job (\<lambda>j. j\<lparr>jb_device := dv_device (cur k s)\<rparr>) s) (\<lambda>_. reached own jid u n k) never"
    by (rule reached_job) simp
  show ?case unfolding k(2) run_rows.simps
    by (rule triple_bind [OF asked], rule ok_given, simp only: if_False,
        intro triple_bind [OF named] triple_bind [OF reached_save [OF assms]] triple_bind [OF reached_row [OF assms k(1)]] triple_bind [OF reached_after [OF assms]] next_row)
qed

text \<open>The end of a job, and what is stored of it.\<close>

definition complete_job :: "string \<Rightarrow> 'w coordination \<Rightarrow> bool" where
  "complete_job jid s = (co_saved s = (co_job s, co_rows s) \<and> jb_id (co_job s) = jid \<and> jb_status (co_job s) = ''completed'' \<and> jb_progress (co_job s) = 100 \<and>
     (\<forall>r \<in> set (co_rows s). dv_state r = state_value S_VERIFIED))"

lemma all_verified: "\<forall>r \<in> set rows. dv_state r = state_value S_VERIFIED \<Longrightarrow> ids_in S_VERIFIED rows = map dv_device rows"
  by (simp add: ids_in_def)

lemma ok_finish_job:
  assumes "cooperative env own jid u"
  shows "triple (reached own jid u n n) (finish_job env) (\<lambda>_. complete_job jid) never"
  unfolding triple_def
proof (intro allI impI)
  fix s :: "'a coordination"
  assume s: "reached own jid u n n s"
  then have v: "\<forall>r \<in> set (co_rows s). dv_state r = state_value S_VERIFIED" by (auto simp: reached_def cur_def in_set_conv_nth)
  obtain w' where "se_commit env (co_world s) = (True, w')" using coop_answers(4) [OF assms] by blast
  then show "case finish_job env s of (Inl e, t) \<Rightarrow> False | (Inr a, t) \<Rightarrow> complete_job jid t"
    using s v all_verified [OF v]
    by (simp add: finish_job_def abind_def stamp_job_def on_job_def save_def note_setup_def complete_job_def reached_def finished_def Let_def)
qed

lemma ok_work:
  assumes "cooperative env own jid u" "co_rows s = rows" "\<forall>r \<in> set rows. dv_state r = state_value S_UNKNOWN" "jb_id (co_job s) = jid"
    "jb_target (co_job s) = Some (VDict (target_public u))"
  shows "\<exists>t. work_job env own dry_run s = (Inr (), t) \<and> complete_job jid t"
proof -
  let ?n = "length rows"
  define s1 where "s1 = snd (stamp_job env (\<lambda>now j. j\<lparr>jb_status := ''running'', jb_started := (case jb_started j of None \<Rightarrow> Some now | Some t \<Rightarrow> Some t)\<rparr>) (snd (watch_lease own s)))"
  have s1: "reached own jid u ?n 0 s1" using assms(2-5) by (simp add: s1_def reached_def watch_lease_def stamp_job_def on_job_def cur_def)
  have "triple (reached own jid u ?n 0) (abind (save env) (\<lambda>_. abind (\<lambda>s. run_rows env dry_run (length (co_rows s)) [0..<length (co_rows s)] s) (\<lambda>complete.
      if complete then finish_job env else areturn ()))) (\<lambda>_. complete_job jid) never"
  proof (rule triple_bind [OF reached_save [OF assms(1)]], rule triple_bind [where Q = "\<lambda>complete s. complete \<and> reached own jid u ?n ?n s"])
    show "triple (reached own jid u ?n 0) (\<lambda>s. run_rows env dry_run (length (co_rows s)) [0..<length (co_rows s)] s) (\<lambda>complete s. complete \<and> reached own jid u ?n ?n s) never"
      using reached_rows [OF assms(1), of 0 ?n dry_run ?n] by (simp add: triple_def reached_def)
    show "triple (\<lambda>s. complete \<and> reached own jid u ?n ?n s) (if complete then finish_job env else areturn ()) (\<lambda>_. complete_job jid) never" for complete
      using ok_finish_job [OF assms(1), of ?n] by (simp add: triple_def)
  qed
  then have "case work_job env own dry_run s of (Inl e, t) \<Rightarrow> False | (Inr a, t) \<Rightarrow> complete_job jid t"
    using s1 unfolding work_job_def by (simp add: s1_def abind_def watch_lease_def stamp_job_def on_job_def triple_def)
  then show ?thesis by (auto split: prod.splits sum.splits)
qed

lemma ok_execute:
  assumes "cooperative env own jid u" "own \<noteq> []" "jid \<noteq> []" "jb_id job = jid" "jb_status job \<in> {''pending'', ''running''}"
    "jb_target job = Some (VDict (target_public u))" "\<forall>r \<in> set rows. dv_state r = state_value S_UNKNOWN"
  shows "\<exists>t. execute_job env own dry_run (job_session w job rows) = (Inr (), t) \<and> complete_job jid t"
proof -
  obtain table where "acquire own jid 90 (se_now env w) (se_lease env w) = (Inr True, table)"
    using coop_answers(8) [OF assms(1), of w] assms(2,3) by (auto simp: acquire_def claimable_def owned_def Let_def split: option.splits)
  then obtain s where s: "take_lease env own jid (job_session w job rows) = (Inr True, s)" "co_job s = job" "co_rows s = rows"
    using coop_answers(7) [OF assms(1), of w] by (simp add: take_lease_def job_session_def)
  obtain t where t: "work_job env own dry_run s = (Inr (), t)" "complete_job jid t"
    using ok_work [OF assms(1) s(3), of dry_run] s(2) assms(4,6,7) by auto
  have "\<not> list_ex (\<lambda>r. dv_state r \<noteq> state_value S_UNKNOWN) rows" using assms(7) by (simp add: list_ex_iff)
  then have "owned_job env own dry_run s = (Inr (), t)"
    using t(1) s(2,3) assms(5) coop_answers(5) [OF assms(1)] by (auto simp: owned_job_def abind_def cancellation_requested_def)
  then show ?thesis using s assms(4,5) t(2) by (auto simp: execute_job_def job_session_def releasing_def complete_job_def)
qed

text \<open>
  C40. In cooperative surroundings a pending job whose radios are untouched runs through for every choice of options and any number
  of radios: it is stored as completed, with the same radios, each of them verified.
\<close>

theorem setup_completes:
  assumes "cooperative env own jid u" "own \<noteq> []" "jid \<noteq> []" "jid \<notin> set active" "job_entry jid db = Some (job, rows)" "jb_status job \<in> {''pending'', ''running''}"
    and "jb_target job = Some (VDict (target_public u))" "\<forall>r \<in> set rows. dv_state r = state_value S_UNKNOWN"
  shows "\<exists>db' w' job' rows'. execute_setup env own active jid dry_run db w = (Inr (), db', w') \<and> job_entry jid db' = Some (job', rows') \<and> jb_status job' = ''completed'' \<and>
    jb_progress job' = 100 \<and> map dv_device rows' = map dv_device rows \<and> (\<forall>r \<in> set rows'. dv_state r = state_value S_VERIFIED)"
proof -
  have jid: "jb_id job = jid" using assms(5) by (auto simp: job_entry_def find_Some_iff) (metis fst_conv)
  obtain t where t: "execute_job env own dry_run (job_session w job rows) = (Inr (), t)" "complete_job jid t"
    using ok_execute [OF assms(1-3) jid assms(6-8), of dry_run w] by blast
  have "inside_job (map dv_device rows) (job_session w job rows)" by (simp add: inside_job_def job_session_def)
  then have "inside_job (map dv_device rows) t" using triple_apply [OF inside.executing _ t(1)] by simp
  moreover have "job_entry jid (store_job e db) = Some e" if "jb_id (fst e) = jid" for e
    using assms(5) that unfolding job_entry_def store_job_def by (induction db) (auto split: if_splits)
  ultimately show ?thesis using t assms(4,5)
    by (auto simp: execute_setup_def in_session_def complete_job_def inside_job_def intro: exI [of _ "co_job t"] exI [of _ "co_rows t"])
qed

text \<open>An example: a dry run, and a lease that this process holds.\<close>

definition example_setup :: "unit setup_env" where
  "example_setup = \<lparr>se_call = dry_call (Pair False), se_pause = Pair False, se_lock = \<lambda>d w. (Entered, w), se_commit = Pair True,
     se_cancel = \<lambda>w. Inr False, se_beat = \<lambda>w. False, se_db_ok = \<lambda>w. True, se_now = \<lambda>w. 0,
     se_lease = \<lambda>w. Some \<lparr>owner_id = ''worker'', job_id = ''j1'', expires_at = Some 90000000\<rparr>, se_put_lease = \<lambda>table w. w, se_net = example_net,
     se_policy = \<lambda>w. \<lparr>pr_env_ips = [], pr_env_ids = [], pr_setting_ips = Some None, pr_setting_ids = Some None, pr_devices = Some []\<rparr>, se_show = \<lambda>v. []\<rparr>"

definition example_target :: server_target where
  "example_target = \<lparr>st_host = ''10.0.0.2'', st_web = 8080, st_cloud = 8090, st_debug = 0\<rparr>"

lemma dry_confirms: "confirms op (dry_answer op r)"
  by (cases op) (simp_all add: confirms_def get_or_def)

lemma example_cooperates: "cooperative example_setup ''worker'' ''j1'' example_target"
proof -
  have "is_protected_ip example_net \<lparr>pr_env_ips = [], pr_env_ids = [], pr_setting_ips = Some None, pr_setting_ids = Some None, pr_devices = Some []\<rparr> ''10.0.0.2'' = Inr False"
    by code_simp
  then show ?thesis using dry_confirms by (auto simp: cooperative_def example_setup_def example_target_def dry_call_def)
qed

definition example_job :: "job_row" where
  "example_job = \<lparr>jb_id = ''j1'', jb_status = ''running'', jb_device_ids = [''A1''], jb_plan = Some (VDict [(''options'', VDict [(''ssh_required'', VBool True)])]),
     jb_target = Some (VDict (target_public example_target)), jb_state = state_value S_UNKNOWN, jb_device = [], jb_progress = 0, jb_error = [], jb_result = [], jb_cancel = False,
     jb_owner = ''worker'', jb_started = Some 0, jb_ended = None\<rparr>"

theorem setup_completes_witness:
  "\<exists>db' w' job' rows'. execute_setup example_setup ''worker'' [] ''j1'' False [(example_job, [new_device_row ''A1'' (''10.0.0.9'', ''SoundTouch 10'')])] () = (Inr (), db', w') \<and>
    job_entry ''j1'' db' = Some (job', rows') \<and> jb_status job' = ''completed'' \<and> jb_progress job' = 100 \<and> map dv_device rows' = [''A1''] \<and>
    (\<forall>r \<in> set rows'. dv_state r = state_value S_VERIFIED)"
  using setup_completes [OF example_cooperates, of "[]" "[(example_job, [new_device_row ''A1'' (''10.0.0.9'', ''SoundTouch 10'')])]" example_job
      "[new_device_row ''A1'' (''10.0.0.9'', ''SoundTouch 10'')]" False "()"]
  by (simp add: job_entry_def example_job_def new_device_row_def)

end
