(* ===== verification/SetupGuarantees.thy ===== *)
theory SetupGuarantees
  imports SetupCompletion
begin

text \<open>
  What the setup coordinator promises: a radio is set up by the sequence that was shown, its durable
  states follow the machine, an interrupted job is never taken up again, and what a rollback that was
  cut short leads to.
\<close>

section \<open>The plan of a started job\<close>

lemma get_merged: "get_or (merged a b) k v = (case map_upds (map_of a) (map fst b) (map snd b) k of None \<Rightarrow> v | Some x \<Rightarrow> x)"
  by (simp add: get_or_def merged_def updates_conv')

text \<open>The options that are run are those of the plan, and they determine the sequence it shows.\<close>

lemma options_dry: "options_of (merged plan [(''dry_run'', v)]) = options_of plan"
  by (simp add: options_of_def plan_options_def get_merged) (simp add: get_or_def)

lemma preview_mode:
  assumes "preview defaults device_ids target options = Inr plan"
  shows "get_or options ''presentation_mode'' (VStr ''normal'') \<in> {VStr ''normal'', VStr ''patched'', VStr ''original''}"
  using assms unfolding preview_def Let_def
  by (cases "map (\<lambda>d. upper (strip d)) device_ids = [] \<or> \<not> distinct (map (\<lambda>d. upper (strip d)) device_ids)";
      cases "get_or options ''presentation_mode'' (VStr ''normal'') \<in> {VStr ''normal'', VStr ''patched'', VStr ''original''}")
     (simp_all only: if_True if_False not_False_eq_True not_True_eq_False sum.distinct)

lemma preview_plan:
  assumes "preview defaults device_ids target options = Inr plan"
  defines "mode \<equiv> get_or options ''presentation_mode'' (VStr ''normal'')" and "ssh \<equiv> truth (get_or options ''ssh_required'' (VBool False))"
    and "pair \<equiv> truth (get_or options ''pair_account'' (VBool True))" and "play \<equiv> truth (get_or options ''playback_test'' (VBool True))"
  obtains engine ids server rest simulation where
    "plan = (let public = [(''presentation_mode'', mode), (''ssh_required'', VBool ssh), (''pair_account'', VBool pair), (''playback_test'', VBool play), (''simulation'', simulation)];
       base = (''engine'', engine) # (''sequence'', texts (plan_sequence (mode = VStr ''patched'') ssh pair play)) # (''device_ids'', ids) # (''target_server'', server) #
         (''options'', VDict public) # rest in if mode = VStr ''original'' then original_plan public base else base)"
proof -
  let ?n = "map (\<lambda>d. upper (strip d)) device_ids"
  have n: "(?n = [] \<or> \<not> distinct ?n) = False"
    using assms(1) unfolding preview_def Let_def by (cases "?n = [] \<or> \<not> distinct ?n") (simp_all only: if_True sum.distinct)
  have m: "(mode \<notin> {VStr ''normal'', VStr ''patched'', VStr ''original''}) = False" using preview_mode [OF assms(1)] by (simp only: mode_def not_True_eq_False)
  show ?thesis using assms(1) that
    unfolding preview_def Let_def mode_def [symmetric] ssh_def [symmetric] pair_def [symmetric] play_def [symmetric] n m if_False sum.inject
    by (metis (no_types))
qed

lemma plan_keys:
  "get_key ((''engine'', e) # (''sequence'', q) # (''device_ids'', i) # (''target_server'', t) # (''options'', x) # rest) ''sequence'' = q"
  "get_key ((''engine'', e) # (''sequence'', q) # (''device_ids'', i) # (''target_server'', t) # (''options'', x) # rest) ''options'' = x"
  by (simp_all add: get_or_def)

lemma option_keys:
  fixes m s p q sim
  defines "d \<equiv> [(''presentation_mode'', m), (''ssh_required'', VBool s), (''pair_account'', VBool p), (''playback_test'', VBool q), (''simulation'', sim)]"
  shows "get_or d ''presentation_mode'' v = m" "get_or d ''ssh_required'' v = VBool s" "get_or d ''pair_account'' v = VBool p" "get_or d ''playback_test'' v = VBool q"
    "get_or (merged d [(''ssh_required'', x), (''pair_account'', y), (''playback_test'', z)]) ''presentation_mode'' v = m"
  by (simp_all add: d_def get_merged) (simp_all add: get_or_def)

lemma original_keys:
  "get_key (original_plan public base) ''sequence'' = texts ORIGINAL_SEQUENCE"
  "get_key (original_plan public base) ''options'' = VDict (merged public [(''ssh_required'', VBool False), (''pair_account'', VBool False), (''playback_test'', VBool False)])"
  by (simp_all add: original_plan_def get_merged)

lemma shown_sequence:
  assumes "preview defaults device_ids target options = Inr plan"
  shows "get_key plan ''sequence'' = texts (sequence_of (options_of (merged plan [(''dry_run'', VBool dry)])))"
proof -
  let ?mode = "get_or options ''presentation_mode'' (VStr ''normal'')"
  obtain ssh pair play engine ids server rest simulation where p: "plan = (let
       public = [(''presentation_mode'', ?mode), (''ssh_required'', VBool ssh), (''pair_account'', VBool pair), (''playback_test'', VBool play), (''simulation'', simulation)];
       base = (''engine'', engine) # (''sequence'', texts (plan_sequence (?mode = VStr ''patched'') ssh pair play)) # (''device_ids'', ids) # (''target_server'', server) #
         (''options'', VDict public) # rest in if ?mode = VStr ''original'' then original_plan public base else base)"
    using preview_plan [OF assms] by metis
  show ?thesis unfolding options_dry
  proof (cases "?mode = VStr ''original''")
    case True
    then show "get_key plan ''sequence'' = texts (sequence_of (options_of plan))" unfolding p Let_def
      by (simp only: True if_True original_keys options_of_def plan_options_def dict_or_empty_def option_keys sequence_of_def pyval.case Let_def setup_options.simps simp_thms)
  next
    case False
    then show "get_key plan ''sequence'' = texts (sequence_of (options_of plan))" unfolding p Let_def
      by (simp only: False if_False plan_keys options_of_def plan_options_def dict_or_empty_def option_keys sequence_of_def pyval.case Let_def setup_options.simps truth.simps)
  qed
qed

lemma started_rows:
  assumes "start_job env select defaults own jid device_ids target dry options db w = (Inr (), db', w')"
  obtains plan job rows found where "db' = db @ [(job, rows)]" "jb_id job = jid" "rows = map2 new_device_row (map (\<lambda>d. upper (strip d)) device_ids) found"
    "select (map (\<lambda>d. upper (strip d)) device_ids) = Inr found" "distinct (map (\<lambda>d. upper (strip d)) device_ids)" "preview defaults device_ids target options = Inr plan"
    "jb_plan job = Some (VDict (merged plan [(''dry_run'', VBool dry)]))" "jb_target job = Some (VDict (target_public target))"
proof -
  obtain plan where plan: "preview defaults device_ids target options = Inr plan" using assms by (cases "preview defaults device_ids target options") (simp_all add: start_job_def)
  let ?new = "create_job select jid device_ids (target_public target) (merged plan [(''dry_run'', VBool dry)])"
  obtain job rows where new: "?new = Inr (job, rows)" using assms plan by (cases ?new) (auto simp: start_job_def)
  obtain got s where lease: "take_lease env own jid (job_session w job rows) = (Inr got, s)" "got"
    using assms plan new by (auto simp: start_job_def split: prod.splits sum.splits if_splits)
  have s: "co_job s = job" "co_rows s = rows" using lease by (auto simp: take_lease_def job_session_def Let_def split: if_splits prod.splits sum.splits)
  obtain w2 where c: "se_commit env (co_world s) = (True, w2)"
    using assms plan new lease by (auto simp: start_job_def stamp_job_def on_job_def abind_def save_def split: prod.splits bool.splits)
  let ?job = "job\<lparr>jb_owner := own, jb_started := Some (se_now env (co_world s)), jb_status := ''running''\<rparr>"
  have db: "db' = db @ [(?job, rows)]"
    using assms plan new lease c s by (simp add: start_job_def stamp_job_def on_job_def abind_def save_def note_setup_def)
  let ?n = "map (\<lambda>d. upper (strip d)) device_ids"
  obtain found where "select ?n = Inr found" "distinct ?n" "rows = map2 new_device_row ?n found" "jb_id job = jid" "jb_plan job = Some (VDict (merged plan [(''dry_run'', VBool dry)]))"
      "jb_target job = Some (VDict (target_public target))"
    using new by (auto simp: create_job_def Let_def rbind_Inr_iff split: if_splits)
  then show ?thesis using plan db that [of ?job rows found plan] by simp
qed

lemma started_job:
  assumes "start_job env select defaults own jid device_ids target dry options db w = (Inr (), db', w')"
  obtains plan job rows where "preview defaults device_ids target options = Inr plan" "db' = db @ [(job, rows)]" "jb_id job = jid"
    "jb_plan job = Some (VDict (merged plan [(''dry_run'', VBool dry)]))" "jb_target job = Some (VDict (target_public target))"
    "distinct (map dv_device rows)" "\<forall>r \<in> set rows. dv_state r = state_value S_UNKNOWN"
proof -
  have "map dv_device (map2 new_device_row ns fs) = take (length fs) ns" for ns fs by (induction ns fs rule: list_induct2') (auto simp: new_device_row_def)
  moreover have "\<forall>r \<in> set (map2 new_device_row ns fs). dv_state r = state_value S_UNKNOWN" for ns fs by (auto simp: new_device_row_def)
  ultimately show ?thesis using started_rows [OF assms] that by (metis distinct_take)
qed

section \<open>Operations with their server\<close>

primrec aim :: "server_target \<Rightarrow> operation \<Rightarrow> operation" where
  "aim u Identify = Identify" | "aim u PresentationPreflight = PresentationPreflight" | "aim u PresentationPrepare = PresentationPrepare"
| "aim u PresentationActivate = PresentationActivate" | "aim u PresentationVerify = PresentationVerify" | "aim u RestorePrepare = RestorePrepare"
| "aim u RestoreActivate = RestoreActivate" | "aim u RestoreVerify = RestoreVerify" | "aim u ConfigureDefaults = ConfigureDefaults" | "aim u BackUp = BackUp"
| "aim u SshStatus = SshStatus" | "aim u ActivateSsh = ActivateSsh" | "aim u PersistSsh = PersistSsh" | "aim u RebootVerifySsh = RebootVerifySsh"
| "aim u BackupRouting = BackupRouting" | "aim u (Route t) = Route u" | "aim u RebootRadio = RebootRadio" | "aim u Reconnect = Reconnect"
| "aim u (PairAccount t) = PairAccount u" | "aim u ReadPresets = ReadPresets" | "aim u (PlaybackTest t) = PlaybackTest u" | "aim u RollBack = RollBack"

lemma aim_same: "(\<And>t. op_target op = Some t \<Longrightarrow> t = u) \<Longrightarrow> aim u op = op"
  by (cases op) auto

lemma aim_planned: "map (aim u) (planned_ops opt active t) = planned_ops opt active u"
  by (cases "so_original opt"; cases active) (simp_all add: planned_original planned_normal ssh_ops_def route_ops_def finish_ops_def)

lemma ops_on_called: "op \<in> set (ops_on d es) \<Longrightarrow> Called op d \<in> set es"
  by (induction es) (auto split: setup_event.splits if_splits)

lemma aimed_plan:
  assumes "aimed u s" "x = ops_on d (co_log s)" "prefix x (planned_ops opt active t)"
  shows "prefix x (planned_ops opt active u)" "x = planned_ops opt active t \<Longrightarrow> x = planned_ops opt active u"
proof -
  have "map (aim u) x = x" using assms(1,2) ops_on_called [of _ d "co_log s"] unfolding aimed_def by (intro map_idI aim_same) blast
  then show "prefix x (planned_ops opt active u)" "x = planned_ops opt active t \<Longrightarrow> x = planned_ops opt active u"
    using assms(3) map_mono_prefix [of x _ "aim u"] aim_planned [of u opt active t] by metis+
qed

lemma job_end:
  assumes "triple P m (\<lambda>_. Q) (\<lambda>_. Q)" "P s" "m s = (a, t)"
  shows "Q t"
  using triple_apply [OF assms] by (cases a) auto

section \<open>What is run is what was shown\<close>

lemma fresh_session: "distinct (map dv_device rows) \<Longrightarrow> i < length rows \<Longrightarrow> dv_state (rows ! i) \<noteq> state_value S_VERIFIED \<Longrightarrow>
    fresh_radio (jb_plan job) (map dv_device rows) i (job_session w job rows)"
  by (simp add: fresh_radio_def untouched_yet_def job_session_def done_with_def cur_def)

lemma find_job_new: "job_entry jid db = None \<Longrightarrow> jb_id job = jid \<Longrightarrow> job_entry jid (db @ [(job, rows)]) = Some (job, rows)"
  by (induction db) (auto simp: job_entry_def split: if_splits)

lemma session_start:
  "careful (job_session w job rows)" "inside_job (map dv_device rows) (job_session w job rows)" "in_sync i (dv_state (rows ! i)) (job_session w job rows)"
  "jb_target job = Some (VDict (target_public u)) \<Longrightarrow> aimed u (job_session w job rows)"
  by (simp_all add: careful_def calls_checked_def inside_job_def in_sync_def durable_def aimed_def job_session_def cur_def)


lemma example_start_rows:
  assumes "select [''A1''] = Inr [am]"
  shows "\<exists>job. start_job example_setup select [] ''worker'' ''j1'' ['' a1''] example_target False [(''playback_test'', VBool False)] [] () = (Inr (), [(job, [new_device_row ''A1'' am])], ()) \<and>
    jb_id job = ''j1'' \<and> jb_status job = ''running'' \<and> jb_target job = Some (VDict (target_public example_target))"
proof -
  have n: "upper (strip '' a1'') = ''A1''" by code_simp
  obtain plan where p: "preview [] ['' a1''] example_target [(''playback_test'', VBool False)] = Inr plan"
    by (simp add: preview_def Let_def n) (simp add: get_or_def)
  have l: "acquire ''worker'' ''j1'' 90 0 (Some \<lparr>owner_id = ''worker'', job_id = ''j1'', expires_at = Some 90000000\<rparr>) =
     (Inr True, Some \<lparr>owner_id = ''worker'', job_id = ''j1'', expires_at = Some 90000000\<rparr>)" by code_simp
  show ?thesis
    by (simp add: start_job_def p create_job_def n Let_def take_lease_def job_session_def l example_setup_def stamp_job_def on_job_def abind_def save_def note_setup_def assms)
qed


text \<open>
  C18. The states of a radio that become durable in a run of a job, in the order of the commits: each is the one before it, one that the
  state machine admits after it, or \<open>FAILED\<close>; and unless a commit failed, the last of them is the state the radio is in.
\<close>

theorem setup_states_durable:
  assumes "execute_job env own dry_run (job_session w job rows) = (a, s)"
  shows "walk (dv_state (rows ! i) # saved_states i (co_log s)) \<and>
    last (dv_state (rows ! i) # saved_states i (co_log s)) = dv_state (snd (co_saved s) ! i) \<and>
    (a \<noteq> Inl Broken \<longrightarrow> dv_state (cur i s) = dv_state (snd (co_saved s) ! i))"
proof -
  have "case a of Inl e \<Rightarrow> left_settled i (dv_state (rows ! i)) e s | Inr _ \<Rightarrow> in_sync i (dv_state (rows ! i)) s"
    using triple_apply [OF tidied.executing session_start(3) assms] .
  then show ?thesis by (cases a) (auto simp: left_settled_def in_sync_def durable_def split: if_splits)
qed

theorem setup_states_durable_witness:
  "case execute_job example_setup ''worker'' False (job_session () example_job [new_device_row ''A1'' (''10.0.0.9'', ''SoundTouch 10'')]) of (a, s) \<Rightarrow>
     walk (''UNKNOWN'' # saved_states 0 (co_log s)) \<and> last (''UNKNOWN'' # saved_states 0 (co_log s)) = dv_state (snd (co_saved s) ! 0)"
  using setup_states_durable [of example_setup "''worker''" False "()" example_job "[new_device_row ''A1'' (''10.0.0.9'', ''SoundTouch 10'')]" _ _ 0]
  by (auto simp: new_device_row_def state_value.simps split: prod.split)

section \<open>Interrupted jobs\<close>

abbreviation at_rest :: "radio_row \<Rightarrow> bool" where
  "at_rest r \<equiv> dv_state r \<in> {state_value S_VERIFIED, state_value S_FAILED, state_value S_ROLLED_BACK}"

lemma review_row_rest: "at_rest (review_row c r)" "at_rest r \<Longrightarrow> review_row c r = r" "dv_device (review_row c r) = dv_device r"
  by (auto simp: review_row_def dest: transition_target split: sum.splits)

definition put_to_rest :: "radio_row \<Rightarrow> radio_row \<Rightarrow> bool" where
  "put_to_rest r r' = (at_rest r' \<and> dv_device r' = dv_device r \<and> (at_rest r \<longrightarrow> r' = r))"

lemma review_rows_rest: "list_all2 put_to_rest rows (map (review_row c) rows)"
  unfolding list.rel_map by (intro list.rel_refl_strong) (simp add: put_to_rest_def review_row_rest del: insert_iff)

lemma store_found:
  assumes "distinct (map (\<lambda>e. jb_id (fst e)) db)" "job_entry jid db = Some e"
  shows "e \<in> set db" "store_job e db = db"
proof -
  show e: "e \<in> set db" using assms(2) by (auto simp: job_entry_def find_Some_iff)
  have "x = e" if "x \<in> set db" "jb_id (fst x) = jb_id (fst e)" for x
    using assms(1) e that by (simp add: distinct_map inj_on_def)
  then show "store_job e db = db" unfolding store_job_def by (intro map_idI) auto
qed

lemma execute_idle:
  assumes "\<forall>e \<in> set db. jb_status (fst e) \<notin> {''pending'', ''running''}" "distinct (map (\<lambda>e. jb_id (fst e)) db)"
  shows "snd (execute_setup env own active jid dry_run db w) = (db, w)"
proof (cases "job_entry jid db")
  case (Some e)
  then have "jb_status (fst e) \<notin> {''pending'', ''running''}" using assms store_found(1) by blast
  then have "execute_job env own dry_run (job_session w (fst e) (snd e)) = (Inr (), job_session w (fst e) (snd e))"
    by (simp add: execute_job_def job_session_def)
  then show ?thesis using Some store_found(2) [OF assms(2) Some] by (cases e) (simp add: execute_setup_def in_session_def job_session_def)
qed (simp add: execute_setup_def in_session_def)

lemma replay_denied:
  assumes "list_ex (\<lambda>r. dv_state r \<noteq> state_value S_UNKNOWN) rows"
  shows "ops (co_log (snd (execute_job env own dry_run (job_session w job rows)))) = []"
proof -
  have idle: "ops (co_log (snd (end_job env status error s))) = ops (co_log s)" for status error and s :: "'a coordination"
    by (auto simp: end_job_def abind_def stamp_job_def on_job_def save_def note_setup_def split: prod.split bool.split)
  obtain g t where l: "take_lease env own (jb_id job) (job_session w job rows) = (g, t)" by fastforce
  have t: "co_log t = []" "co_rows t = rows" using l by (auto simp: take_lease_def job_session_def Let_def split: if_splits prod.splits sum.splits)
  have "ops (co_log (snd (owned_job env own dry_run t))) = []" using assms t idle by (simp add: owned_job_def)
  then have "ops (co_log (snd (releasing env own (jb_id job) (owned_job env own dry_run) t))) = []" by (auto simp: releasing_def split: prod.split)
  then show ?thesis using l t idle by (auto simp: execute_job_def job_session_def split: sum.split)
qed

text \<open>
  C27. A job that a restart interrupted is never taken up again. A review leaves no job pending or running; every radio of an interrupted job ends
  verified, failed or rolled back, and one that already was is left as it was; other jobs are not touched. After it, executing any job, in whatever
  surroundings, changes neither the database nor the world. And a job with a checkpoint of any radio asks nothing of the radios, reviewed or not.
\<close>

theorem setup_never_resumed:
  assumes "review_interrupted env own recovery_id db w = (Inr True, db', w')" "distinct (map (\<lambda>e. jb_id (fst e)) db)"
  shows "list_all2 (\<lambda>(j, rows) (j', rows'). jb_id j' = jb_id j \<and> jb_status j' \<notin> {''pending'', ''running''} \<and>
      (if jb_status j \<in> {''pending'', ''running''}
       then list_all2 put_to_rest rows rows' else (j', rows') = (j, rows))) db db' \<and>
    snd (execute_setup env' own' active jid dry_run db' w2) = (db', w2) \<and>
    (list_ex (\<lambda>r. dv_state r \<noteq> state_value S_UNKNOWN) rows \<longrightarrow> ops (co_log (snd (execute_job env' own' dry_run (job_session w2 job rows)))) = [])"
proof -
  obtain now where db': "db' = map (review_job now) db" using assms(1) by (auto simp: review_interrupted_def Let_def split: if_splits prod.splits sum.splits bool.splits)
  have ids: "jb_id (fst (review_job now e)) = jb_id (fst e)" and status: "jb_status (fst (review_job now e)) \<notin> {''pending'', ''running''}" for e
    by (cases e; simp add: review_job_def)+
  have "list_all2 (\<lambda>(j, rows) (j', rows'). jb_id j' = jb_id j \<and> jb_status j' \<notin> {''pending'', ''running''} \<and>
      (if jb_status j \<in> {''pending'', ''running''}
       then list_all2 put_to_rest rows rows' else (j', rows') = (j, rows))) db db'"
    unfolding db' list.rel_map by (intro list.rel_refl_strong) (auto simp: review_job_def review_rows_rest split: if_splits)
  moreover have "snd (execute_setup env' own' active jid dry_run db' w2) = (db', w2)"
    using assms(2) status by (intro execute_idle) (auto simp: db' ids comp_def)
  ultimately show ?thesis using replay_denied [of rows env' own' dry_run w2 job] by blast
qed

theorem setup_never_resumed_witness:
  "let db = [(example_job, [new_device_row ''A1'' (''10.0.0.9'', ''SoundTouch 10'')])] in
   case review_interrupted example_setup ''worker'' ''j1'' db () of (a, db', w') \<Rightarrow> a = Inr True \<and> jb_status (fst (db' ! 0)) = ''failed'' \<and>
     dv_state (snd (db' ! 0) ! 0) = ''FAILED'' \<and> snd (execute_setup example_setup ''worker'' [] ''j1'' False db' ()) = (db', ())"
proof -
  let ?db = "[(example_job, [new_device_row ''A1'' (''10.0.0.9'', ''SoundTouch 10'')])]"
  obtain db' where r: "review_interrupted example_setup ''worker'' ''j1'' ?db () = (Inr True, db', ())"
    and db': "jb_status (fst (db' ! 0)) = ''failed''" "dv_state (snd (db' ! 0) ! 0) = ''FAILED''"
  proof -
    have "acquire ''worker'' ''j1'' 90 0 (Some \<lparr>owner_id = ''worker'', job_id = ''j1'', expires_at = Some 90000000\<rparr>) =
      (Inr True, Some \<lparr>owner_id = ''worker'', job_id = ''j1'', expires_at = Some 90000000\<rparr>)" by code_simp
    moreover have "transition ''UNKNOWN'' ''FAILED'' = Inr S_FAILED" by code_simp
    ultimately show ?thesis using that
      by (simp add: review_interrupted_def example_setup_def example_job_def review_job_def review_row_def new_device_row_def state_value.simps)
  qed
  show ?thesis using setup_never_resumed [OF r, of example_setup "''worker''" "[]" "''j1''" False "()" "[]" example_job] r db' by (simp add: Let_def)
qed

section \<open>A rollback that is cut short\<close>

text \<open>
  A radio that is left in \<open>ROLLBACK_PENDING\<close>, because the lease was lost before the adapter was asked, is not looked at by a later rollback, which
  then reports that no rollback was required and shows the job as rolled back.
\<close>

lemma lost_lease_leaves_pending:
  assumes "dv_state (cur i s) \<in> {state_value S_VERIFIED, state_value S_FAILED}" "dv_backup_path (cur i s) \<noteq> []" "i < length (co_rows s)"
    and "se_lock env (dv_device (cur i s)) (co_world s) = (Entered, w)" "se_beat env w"
  shows "\<exists>t. rollback_row env False i f s = (Inr (f\<lparr>rb_ok := False, rb_attempted := True\<rparr>, False), t) \<and> dv_state (cur i t) = state_value S_ROLLBACK_PENDING \<and> co_log t = co_log s"
proof -
  have "can (if dv_state (cur i s) = state_value S_VERIFIED then S_VERIFIED else S_FAILED) S_ROLLBACK_PENDING" by (simp add: can_def)
  from can_transition [OF this] have tr: "transition (dv_state (cur i s)) (state_value S_ROLLBACK_PENDING) = Inr S_ROLLBACK_PENDING" using assms(1) by (auto split: if_splits)
  have u: "transition_state i S_ROLLBACK_PENDING [] s = (Inr (), s\<lparr>co_rows := (co_rows s)[i := (cur i s)\<lparr>dv_state := state_value S_ROLLBACK_PENDING, dv_last_error := []\<rparr>]\<rparr>)"
    using tr by (simp add: transition_state_def on_row_def)
  show ?thesis using assms
    by (simp add: rollback_row_def u abind_def catching_def try_rollback_def lock_radio_def lease_checkpoint_def Let_def cur_row on_row_def areturn_def) (simp add: cur_def)
qed

lemma pending_rollback_skipped:
  assumes "\<forall>r \<in> set (co_rows s). dv_state r = state_value S_ROLLBACK_PENDING" "se_commit env (co_world s) = (True, w)"
  shows "\<exists>t. owned_rollback env own dry s = (Inr (), t) \<and> jb_status (co_job t) = ''rollback_not_required'' \<and> jb_state (co_job t) = ''ROLLED_BACK'' \<and>
    co_rows t = co_rows s \<and> ops (co_log t) = ops (co_log s)"
proof -
  let ?f = "\<lparr>rb_ok = True, rb_full = True, rb_attempted = False\<rparr>"
  have "rollback_rows env dry js ?f t = (Inr ?f, t)" if "\<forall>j \<in> set js. dv_state (cur j t) = state_value S_ROLLBACK_PENDING" for js and t :: "'a coordination"
    using that by (induction js) (simp_all add: areturn_def abind_def rollback_row_def state_value.simps)
  moreover have "dv_state (cur j (snd (watch_lease own s))) = state_value S_ROLLBACK_PENDING" if "j < length (co_rows s)" for j
    using assms(1) that by (simp add: watch_lease_def cur_def)
  ultimately show ?thesis using assms(2)
    by (simp add: owned_rollback_def abind_def watch_lease_def stamp_job_def on_job_def save_def note_setup_def rollback_status_def state_value.simps cur_def)
qed

end
