(* ===== verification/SetupCandidates.thy ===== *)
theory SetupCandidates
  imports SetupGuarantees RadioIdentity
begin

text \<open>
  Which radios may be set up: the candidates of the inventory (app/services/setup_rebuild/candidates.py,
  with the reasons of profiles/detection.py, and audio_safety.py). The inventory is a list of rows; \<open>private\<close>
  is the property \<open>is_private\<close> of an address, \<open>audio\<close> the stored audio state of a radio. Texts with
  umlauts are transliterated.
\<close>

section \<open>Audio safety\<close>

record audio_state =
  au_locked :: bool
  au_reason :: string
  au_source :: string
  au_observed :: string
  au_recovery :: string

definition no_audio_lock :: audio_state where
  "no_audio_lock = \<lparr>au_locked = False, au_reason = [], au_source = ''none'', au_observed = [], au_recovery = []\<rparr>"

definition str_or :: "(pyval \<Rightarrow> string) \<Rightarrow> pyval \<Rightarrow> string \<Rightarrow> string" where
  "str_or show v d = (if truth v then py_str show v else d)"

definition RECHECK :: string where
  "RECHECK = ''STOP/STANDBY und Lautstaerke-1-Readback erneut bestaetigen''"

definition legacy_lock :: "(pyval \<Rightarrow> string) \<Rightarrow> radio_row \<times> string \<Rightarrow> audio_state" where
  "legacy_lock show rt = (case rt of (r, seen) \<Rightarrow> let evidence = dv_evidence r in
     \<lparr>au_locked = True, au_reason = str_or show (get_key evidence ''audio_lock_reason'') (if dv_last_error r \<noteq> [] then dv_last_error r else ''Frueherer Audio-Sicherheitstest wurde gesperrt.''),
      au_source = ''legacy_setup_evidence'', au_observed = seen, au_recovery = str_or show (get_key evidence ''audio_lock_recovery'') RECHECK\<rparr>)"

text \<open>
  The stored state, if there is a row for the radio, with its time; \<open>rows\<close> are its rows of setup jobs with their times, newest
  first.
\<close>

definition load_audio_safety :: "(pyval \<Rightarrow> string) \<Rightarrow> (pyval option \<times> string) option \<Rightarrow> (radio_row \<times> string) list \<Rightarrow> audio_state" where
  "load_audio_safety show stored rows = (case stored of
     Some (v, seen) \<Rightarrow> (let d = load_json v in
       if d = [] then \<lparr>au_locked = True, au_reason = ''Persistenter Audio-Sicherheitszustand ist unlesbar.'', au_source = ''runtime_state_malformed'', au_observed = seen, au_recovery = RECHECK\<rparr>
       else \<lparr>au_locked = truth (get_or d ''locked'' (VBool True)), au_reason = str_or show (get_key d ''reason'') [], au_source = str_or show (get_key d ''source'') ''runtime_state'',
         au_observed = str_or show (get_key d ''observed_at'') [], au_recovery = str_or show (get_key d ''recovery'') []\<rparr>)
   | None \<Rightarrow> (case find (\<lambda>(r, seen). truth (get_key (dv_evidence r) ''audio_test_locked'')) rows of None \<Rightarrow> no_audio_lock | Some rt \<Rightarrow> legacy_lock show rt))"

definition save_audio_safety :: "string \<Rightarrow> bool \<Rightarrow> string \<Rightarrow> string \<Rightarrow> string \<Rightarrow> audio_state \<times> dict" where
  "save_audio_safety now lock reason source recovery = (let
     s = \<lparr>au_locked = lock, au_reason = take 500 reason, au_source = take 80 source, au_observed = now, au_recovery = take 500 recovery\<rparr> in
     (s, [(''locked'', VBool lock), (''reason'', VStr (au_reason s)), (''source'', VStr (au_source s)), (''observed_at'', VStr now), (''recovery'', VStr (au_recovery s)),
       (''volume_limit'', VInt 1)]))"

definition lock_audio_safety :: "string \<Rightarrow> string \<Rightarrow> audio_state \<times> dict" where
  "lock_audio_safety now reason = save_audio_safety now True reason ''setup_playback_guard'' ''Explizite UI-Pruefung: Identitaet, STOP/STANDBY und Lautstaerke-1-Readback''"

definition clear_audio_safety :: "string \<Rightarrow> string \<Rightarrow> audio_state \<times> dict" where
  "clear_audio_safety now reason = save_audio_safety now False reason ''human_safety_verification'' []"

section \<open>Profiles with their reasons\<close>

record profile_match =
  pm_profile :: "ssh_profile option"
  pm_reason :: string
  pm_confidence :: string
  pm_product :: string

definition no_match :: "string \<Rightarrow> string \<Rightarrow> profile_match" where
  "no_match reason confidence = \<lparr>pm_profile = None, pm_reason = reason, pm_confidence = confidence, pm_product = []\<rparr>"

definition match_profile :: "device_facts \<Rightarrow> profile_match" where
  "match_profile facts = (let
     model = normalized_text (df_model facts);
     firmware = firmware_build (df_firmware facts);
     variant = normalized_text (df_variant facts);
     platform = normalized_text (df_platform facts);
     observed = product_code (df_product_id facts);
     model_profiles = filter (\<lambda>p. list_ex (\<lambda>pattern. contains_text pattern model) (sp_models p)) all_profiles;
     build_profiles = filter (\<lambda>p. firmware \<in> set (sp_firmwares p)) model_profiles;
     variant_profiles = filter (\<lambda>p. variant \<in> set (sp_variants p)) build_profiles;
     platform_profiles = filter (\<lambda>p. platform \<in> set (sp_platforms p)) variant_profiles in
     if model_profiles = [] then no_match ''model family is not supported by a setup profile'' ''none''
     else if firmware = [] then no_match ''exact firmware build is missing'' ''firmware''
     else if build_profiles = [] then no_match ''exact firmware build is not approved for critical writes'' ''firmware''
     else if variant = [] then no_match ''live firmware variant is missing'' ''variant''
     else if variant_profiles = [] then no_match ''firmware variant does not match the approved model profile'' ''variant''
     else if platform = [] then no_match ''live platform/moduleType is missing'' ''platform''
     else case platform_profiles of
       [p] \<Rightarrow> if observed \<noteq> [] \<and> observed \<noteq> product_code (sp_product_id p) then no_match ''observed product ID conflicts with the approved profile'' ''product_id''
         else if observed = [] then \<lparr>pm_profile = Some p,
           pm_reason = ''exact firmware, variant, model and platform profile; product ID derived from the unique approved profile'',
           pm_confidence = ''exact-profile-derived-product'', pm_product = product_code (sp_product_id p)\<rparr>
         else \<lparr>pm_profile = Some p, pm_reason = ''exact firmware, product, variant, model and platform profile'', pm_confidence = ''exact-research-profile'',
           pm_product = product_code (sp_product_id p)\<rparr>
     | _ \<Rightarrow> no_match ''platform does not identify one approved write profile'' ''platform'')"

section \<open>Candidates\<close>

record inventory_row =
  iv_device_id :: string
  iv_name :: string
  iv_model :: string
  iv_ip :: string
  iv_firmware :: string
  iv_info :: "xml option"
  iv_seen :: string
  iv_reachable :: bool
  iv_discovery :: string
  iv_identity :: bool

definition literal_lan_ipv4 :: "net \<Rightarrow> (ip \<Rightarrow> bool) \<Rightarrow> string \<Rightarrow> string" where
  "literal_lan_ipv4 net private v = (case nt_parse net (strip v) of
     Some (V4 n) \<Rightarrow> if special_address (V4 n) \<or> \<not> (private (V4 n) \<or> in_v4 (v4 192 0 2 0) 24 n) then [] else nt_text net (V4 n)
   | _ \<Rightarrow> [])"

definition identity_matches :: "inventory_row \<Rightarrow> bool" where
  "identity_matches r = (if iv_discovery r = ''setup_ssdp_info_failed'' then False
     else if iv_identity r then True
     else (case iv_info r of None \<Rightarrow> False | Some x \<Rightarrow> upper (strip (attr_or x ''deviceID'' [])) = upper (strip (iv_device_id r))))"

definition info_facts :: "inventory_row \<Rightarrow> string \<times> string \<times> string" where
  "info_facts r = (case iv_info r of
     None \<Rightarrow> ([], [], [])
   | Some x \<Rightarrow> (text_at x ''variant'', text_at x ''moduleType'',
       case filter (\<lambda>t. t \<noteq> []) (map (text_at x) [''productID'', ''productId'', ''product_id'', ''productCode'']) of t # _ \<Rightarrow> t | [] \<Rightarrow> []))"

record setup_candidate =
  cd_device_id :: string
  cd_name :: string
  cd_ip :: string
  cd_model :: string
  cd_firmware :: string
  cd_product :: string
  cd_provenance :: string
  cd_variant :: string
  cd_platform :: string
  cd_identity :: bool
  cd_profile :: string
  cd_confidence :: string
  cd_eligible :: bool
  cd_blocking :: string
  cd_audio :: audio_state
  cd_simulated :: bool
  cd_reachable :: bool
  cd_seen :: string
  cd_discovery :: string

definition facts_in :: "inventory_row \<Rightarrow> device_facts" where
  "facts_in r = (case info_facts r of (variant, platform, product) \<Rightarrow>
     \<lparr>df_model = strip (iv_model r), df_firmware = strip (iv_firmware r), df_product_id = product, df_variant = variant, df_platform = platform\<rparr>)"

definition blocking_reasons :: "net \<Rightarrow> (ip \<Rightarrow> bool) \<Rightarrow> inventory_row \<Rightarrow> profile_match option \<Rightarrow> ssh_profile option \<Rightarrow> string list" where
  "blocking_reasons net private r found profile = (let device_id = upper (strip (iv_device_id r)) in
     (if device_id = [] \<or> take 11 device_id = ''UNVERIFIED-'' then [''Geraete-ID wurde noch nicht am Radio bestaetigt''] else []) @
     (if literal_lan_ipv4 net private (iv_ip r) = [] then [''keine geeignete LAN-IP gespeichert''] else []) @
     (if \<not> identity_matches r then [''Identitaet muss ueber die Radio-Informationen bestaetigt werden''] else []) @
     (if \<not> iv_reachable r then [''Radio ist nach der letzten Pruefung nicht erreichbar''] else []) @
     (if strip (iv_firmware r) = [] then [''Firmwareversion fehlt''] else []) @
     (case profile of Some _ \<Rightarrow> [] | None \<Rightarrow> [case found of Some m \<Rightarrow> pm_reason m | None \<Rightarrow> ''Geraetemodell ist keinem bestaetigten Profil zugeordnet'']))"

definition candidate_of :: "net \<Rightarrow> (ip \<Rightarrow> bool) \<Rightarrow> (string \<Rightarrow> audio_state) \<Rightarrow> inventory_row \<Rightarrow> setup_candidate" where
  "candidate_of net private audio r = (let
     device_id = upper (strip (iv_device_id r));
     ip_address = literal_lan_ipv4 net private (iv_ip r);
     facts = facts_in r;
     found = (if df_model facts = [] then None else Some (match_profile facts));
     profile = (case found of None \<Rightarrow> None | Some m \<Rightarrow> if df_firmware facts = [] then None else pm_profile m);
     product = (case found of None \<Rightarrow> [] | Some m \<Rightarrow> pm_product m);
     reasons = blocking_reasons net private r found profile in
     \<lparr>cd_device_id = device_id,
       cd_name = (if iv_name r \<noteq> [] then iv_name r else if device_id \<noteq> [] then device_id else if ip_address \<noteq> [] then ip_address else ''Unbenanntes Radio''),
       cd_ip = ip_address, cd_model = df_model facts, cd_firmware = df_firmware facts, cd_product = product,
       cd_provenance = (if df_product_id facts \<noteq> [] then ''RADIO_INFO'' else if product \<noteq> [] then ''PROFILE_DERIVED'' else ''UNKNOWN''),
       cd_variant = df_variant facts, cd_platform = df_platform facts, cd_identity = identity_matches r,
       cd_profile = (case profile of None \<Rightarrow> [] | Some q \<Rightarrow> sp_key q), cd_confidence = (case found of None \<Rightarrow> ''none'' | Some m \<Rightarrow> pm_confidence m),
       cd_eligible = (reasons = []), cd_blocking = join_texts ''; '' (rev (remdups (rev reasons))), cd_audio = audio device_id,
       cd_simulated = (device_id = ''BASSWIESN-SIM-160''), cd_reachable = iv_reachable r, cd_seen = iv_seen r,
       cd_discovery = (if iv_discovery r \<noteq> [] then iv_discovery r else ''unknown'')\<rparr>)"

definition candidate_from_device :: "net \<Rightarrow> (ip \<Rightarrow> bool) \<Rightarrow> protection \<Rightarrow> bool \<Rightarrow> (string \<Rightarrow> audio_state) \<Rightarrow> inventory_row \<Rightarrow> protection_err + setup_candidate option" where
  "candidate_from_device net private p test_mode audio r =
     rbind (is_protected_device net p (Some \<lparr>sd_device_id = iv_device_id r, sd_ip_address = iv_ip r\<rparr>)) (\<lambda>hit.
       if hit \<or> (upper (strip (iv_device_id r)) = ''BASSWIESN-SIM-160'' \<and> \<not> test_mode) then Inr None
       else Inr (Some (candidate_of net private audio r)))"

definition setup_value_error :: "string \<Rightarrow> setup_exc + 'a" where
  "setup_value_error t = Inl (Failed ''ValueError'' t)"

definition select_one :: "(inventory_row \<Rightarrow> protection_err + setup_candidate option) \<Rightarrow> bool \<Rightarrow> inventory_row \<Rightarrow> setup_exc + inventory_row \<times> setup_candidate" where
  "select_one offer require_eligible r = (case offer r of
     Inl _ \<Rightarrow> Inl (Failed ''ProtectionPolicyError'' [])
   | Inr None \<Rightarrow> setup_value_error ''Ein vollstaendig geschuetztes Radio darf nicht im Setup verwendet werden.''
   | Inr (Some c) \<Rightarrow> if require_eligible \<and> \<not> cd_eligible c then setup_value_error (cd_name c @ '': '' @ cd_blocking c) else Inr (r, c))"

text \<open>The rows whose stored identity is one of those asked for, under their normalized identity; a later row replaces an earlier one.\<close>

definition selected_setup_devices ::
    "(inventory_row \<Rightarrow> protection_err + setup_candidate option) \<Rightarrow> inventory_row list \<Rightarrow> string list \<Rightarrow> bool \<Rightarrow> setup_exc + (inventory_row \<times> setup_candidate) list" where
  "selected_setup_devices offer inventory device_ids require_eligible = (let
     normalized = map (\<lambda>d. upper (strip d)) device_ids;
     rows = map (\<lambda>r. (upper (strip (iv_device_id r)), r)) (filter (\<lambda>r. iv_device_id r \<in> set normalized) inventory) in
     if normalized = [] \<or> \<not> distinct normalized then setup_value_error ''Bitte genau einmal mindestens ein Radio auswaehlen.''
     else if length (remdups (map fst rows)) \<noteq> length normalized then setup_value_error ''Mindestens ein ausgewaehltes Radio ist nicht mehr in BASSWIESN vorhanden.''
     else rmap (\<lambda>d. case map_of (rev rows) d of None \<Rightarrow> Inl (Failed ''KeyError'' d) | Some r \<Rightarrow> select_one offer require_eligible r) normalized)"

text \<open>What \<open>create_job\<close> takes of a selection.\<close>

definition inventory_select :: "(inventory_row \<Rightarrow> protection_err + setup_candidate option) \<Rightarrow> inventory_row list \<Rightarrow> string list \<Rightarrow> setup_exc + (string \<times> string) list" where
  "inventory_select offer inventory ds = rbind (selected_setup_devices offer inventory ds True) (\<lambda>chosen.
     Inr (map (\<lambda>(r, c). (cd_ip c, if iv_model r \<noteq> [] then iv_model r else cd_model c)) chosen))"

definition setup_candidates :: "(inventory_row \<Rightarrow> protection_err + setup_candidate option) \<Rightarrow> inventory_row list \<Rightarrow> protection_err + setup_candidate list" where
  "setup_candidates offer inventory = rbind (rmap offer (sort_key iv_name (sort_key iv_device_id inventory))) (\<lambda>cs. Inr (List.map_filter id cs))"

section \<open>Laws\<close>

text \<open>The match with its reason finds the profile that identifies a radio before every write.\<close>

lemma match_profile_detects [simp]: "pm_profile (match_profile f) = detect_profile f"
  by (simp add: match_profile_def detect_profile_def Let_def no_match_def split: list.split)

lemma match_profile_product: "detect_profile f = Some q \<Longrightarrow> pm_product (match_profile f) = product_code (sp_product_id q)"
  by (auto simp: match_profile_def detect_profile_def Let_def no_match_def split: list.splits if_splits)

text \<open>A saved audio state is read back as it was saved; a stored state that cannot be read is a lock.\<close>

lemma audio_state_read_back:
  assumes "save_audio_safety now lock reason source recovery = (st, d)" "source \<noteq> []"
  shows "load_audio_safety show (Some (Some (VDict d), seen)) rows = st"
proof -
  have shown: "str_or show (VStr x) [] = x" "x \<noteq> [] \<Longrightarrow> str_or show (VStr x) y = x" for x y by (simp_all add: str_or_def)
  have st: "st = \<lparr>au_locked = lock, au_reason = take 500 reason, au_source = take 80 source, au_observed = now, au_recovery = take 500 recovery\<rparr>"
    and d: "d = [(''locked'', VBool lock), (''reason'', VStr (take 500 reason)), (''source'', VStr (take 80 source)), (''observed_at'', VStr now), (''recovery'', VStr (take 500 recovery)), (''volume_limit'', VInt 1)]"
    using assms(1) by (simp_all add: save_audio_safety_def Let_def)
  show ?thesis unfolding st d using assms(2) by (simp add: load_audio_safety_def load_json_def dict_or_empty_def get_or_def shown)
qed

lemma audio_state_unreadable_locks:
  "load_json v = [] \<Longrightarrow> au_locked (load_audio_safety show (Some (v, seen)) rows)"
  "load_json v \<noteq> [] \<Longrightarrow> map_of (load_json v) ''locked'' = None \<Longrightarrow> au_locked (load_audio_safety show (Some (v, seen)) rows)"
  by (simp_all add: load_audio_safety_def Let_def get_or_def)

lemma literal_lan_cases:
  assumes "literal_lan_ipv4 net private v \<noteq> []"
  obtains n where "nt_parse net (strip v) = Some (V4 n)" "\<not> special_address (V4 n)" "private (V4 n) \<or> in_v4 (v4 192 0 2 0) 24 n" "literal_lan_ipv4 net private v = nt_text net (V4 n)"
  using assms by (auto simp: literal_lan_ipv4_def split: option.splits ip.splits if_splits)

text \<open>What makes a radio of the inventory eligible.\<close>

definition eligible_radio :: "net \<Rightarrow> (ip \<Rightarrow> bool) \<Rightarrow> protection \<Rightarrow> inventory_row \<Rightarrow> bool" where
  "eligible_radio net private p v = (is_protected_device net p (Some \<lparr>sd_device_id = iv_device_id v, sd_ip_address = iv_ip v\<rparr>) = Inr False \<and>
     take 11 (upper (strip (iv_device_id v))) \<noteq> ''UNVERIFIED-'' \<and> identity_matches v \<and> iv_reachable v \<and> detect_profile (facts_in v) \<noteq> None \<and>
     literal_lan_ipv4 net private (iv_ip v) \<noteq> [])"

lemma candidate_offered:
  assumes "candidate_from_device net private p test_mode audio v = Inr (Some c)"
  shows "is_protected_device net p (Some \<lparr>sd_device_id = iv_device_id v, sd_ip_address = iv_ip v\<rparr>) = Inr False" "c = candidate_of net private audio v"
  using assms by (auto simp: candidate_from_device_def rbind_Inr_iff split: if_splits)

lemma not_blocked:
  assumes "blocking_reasons net private v found profile = []"
  shows "take 11 (upper (strip (iv_device_id v))) \<noteq> ''UNVERIFIED-'' \<and> literal_lan_ipv4 net private (iv_ip v) \<noteq> [] \<and> identity_matches v \<and> iv_reachable v \<and> profile \<noteq> None"
  using assms unfolding blocking_reasons_def Let_def append_is_Nil_conv by (cases profile) (simp_all split: if_splits)

lemma candidate_eligible:
  assumes "candidate_from_device net private p test_mode audio v = Inr (Some c)"
  shows "cd_eligible c \<longrightarrow> eligible_radio net private p v" "cd_ip c = literal_lan_ipv4 net private (iv_ip v)"
proof -
  let ?facts = "facts_in v"
  let ?found = "if df_model ?facts = [] then None else Some (match_profile ?facts)"
  let ?profile = "case ?found of None \<Rightarrow> None | Some m \<Rightarrow> if df_firmware ?facts = [] then None else pm_profile m"
  have c: "is_protected_device net p (Some \<lparr>sd_device_id = iv_device_id v, sd_ip_address = iv_ip v\<rparr>) = Inr False"
      "cd_eligible c = (blocking_reasons net private v ?found ?profile = [])" "cd_ip c = literal_lan_ipv4 net private (iv_ip v)"
    using candidate_offered [OF assms] by (simp_all add: candidate_of_def Let_def)
  have "detect_profile ?facts \<noteq> None" if "?profile \<noteq> None" using that by (auto split: if_splits)
  then show "cd_eligible c \<longrightarrow> eligible_radio net private p v"
    using c(1,2) not_blocked [of net "private" v ?found ?profile] unfolding eligible_radio_def by blast
  show "cd_ip c = literal_lan_ipv4 net private (iv_ip v)" by (rule c(3))
qed

lemma rmap_Inr_all2: "rmap f xs = Inr ys \<Longrightarrow> list_all2 (\<lambda>x y. f x = Inr y) xs ys"
  by (induction xs arbitrary: ys) (auto simp: rbind_Inr_iff)

lemma select_one_eligible: "select_one offer True r = Inr rc \<Longrightarrow> \<exists>c. offer r = Inr (Some c) \<and> cd_eligible c \<and> rc = (r, c)"
  by (auto simp: select_one_def setup_value_error_def split: option.splits sum.splits if_splits)

lemma selected_eligible:
  assumes "inventory_select (candidate_from_device net private p test_mode audio) inventory ds = Inr found"
  shows "list_all2 (\<lambda>d am. \<exists>v \<in> set inventory. upper (strip (iv_device_id v)) = upper (strip d) \<and> eligible_radio net private p v \<and> fst am = literal_lan_ipv4 net private (iv_ip v)) ds found"
proof -
  let ?offer = "candidate_from_device net private p test_mode audio"
  let ?rows = "map (\<lambda>r. (upper (strip (iv_device_id r)), r)) (filter (\<lambda>r. iv_device_id r \<in> (\<lambda>d. upper (strip d)) ` set ds) inventory)"
  obtain chosen where found: "found = map (\<lambda>(r, c). (cd_ip c, if iv_model r \<noteq> [] then iv_model r else cd_model c)) chosen"
      and chosen: "rmap (\<lambda>d. case map_of (rev ?rows) d of None \<Rightarrow> Inl (Failed ''KeyError'' d) | Some r \<Rightarrow> select_one ?offer True r) (map (\<lambda>d. upper (strip d)) ds) = Inr chosen"
    using assms by (auto simp: inventory_select_def selected_setup_devices_def rbind_Inr_iff Let_def setup_value_error_def split: if_splits)
  have "\<exists>v \<in> set inventory. upper (strip (iv_device_id v)) = d \<and> eligible_radio net private p v \<and> cd_ip (snd rc) = literal_lan_ipv4 net private (iv_ip v)"
    if rc: "(case map_of (rev ?rows) d of None \<Rightarrow> Inl (Failed ''KeyError'' d) | Some r \<Rightarrow> select_one ?offer True r) = Inr rc" for d rc
  proof -
    obtain v where v1: "map_of (rev ?rows) d = Some v" "select_one ?offer True v = Inr rc"
      using rc by (cases "map_of (rev ?rows) d") (simp_all only: option.case sum.distinct)
    obtain c where v2: "?offer v = Inr (Some c)" "cd_eligible c" "rc = (v, c)" using select_one_eligible [OF v1(2)] by blast
    note v = v1(1) v2
    have "v \<in> set inventory" "upper (strip (iv_device_id v)) = d" using map_of_SomeD [OF v(1)] by auto
    then show ?thesis using candidate_eligible [OF v(2)] v(3,4) by auto
  qed
  then have "list_all2 (\<lambda>d rc. \<exists>v \<in> set inventory. upper (strip (iv_device_id v)) = upper (strip d) \<and> eligible_radio net private p v \<and> cd_ip (snd rc) = literal_lan_ipv4 net private (iv_ip v)) ds chosen"
    using list_all2_mono [OF rmap_Inr_all2 [OF chosen, unfolded list.rel_map]] by simp
  then show ?thesis unfolding found list.rel_map by (rule list_all2_mono) (auto split: prod.split)
qed


text \<open>An example: one radio in a small network, set up by a dry run.\<close>

definition example_lan :: net where
  "example_lan = example_net\<lparr>nt_parse := \<lambda>t. if t = ''10.0.0.9'' then Some (V4 (v4 10 0 0 9)) else None, nt_text := \<lambda>_. ''10.0.0.9''\<rparr>"

definition example_speaker :: inventory_row where
  "example_speaker = \<lparr>iv_device_id = ''A1'', iv_name = ''Kitchen'', iv_model = ''SoundTouch 20'', iv_ip = ''10.0.0.9'', iv_firmware = ''27.0.6.46330.5043500'',
     iv_info = Some (Elem ''info'' [(''deviceID'', ''a1'')] [] [Elem ''variant'' [] ''spotty'' [], Elem ''moduleType'' [] ''scm'' []]), iv_seen = [], iv_reachable = True,
     iv_discovery = ''ssdp'', iv_identity = False\<rparr>"

definition in_ten :: "ip \<Rightarrow> bool" where
  "in_ten a = (case a of V4 n \<Rightarrow> in_v4 (v4 10 0 0 0) 8 n | V6 _ _ \<Rightarrow> False)"

definition example_unguarded :: protection where
  "example_unguarded = \<lparr>pr_env_ips = [], pr_env_ids = [], pr_setting_ips = Some None, pr_setting_ids = Some None, pr_devices = Some []\<rparr>"

definition example_inventory :: "string list \<Rightarrow> setup_exc + (string \<times> string) list" where
  "example_inventory = inventory_select (candidate_from_device example_lan in_ten example_unguarded False (\<lambda>_. no_audio_lock)) [example_speaker]"

lemma example_choice: "example_inventory [''A1''] = Inr [(''10.0.0.9'', ''SoundTouch 20'')]"
  by code_simp

lemma completed_called:
  assumes "execute_job env own dry_run (job_session w job rows) = (a, s)" "complete_job jid s" "distinct (map dv_device rows)" "i < length rows"
    "dv_state (rows ! i) \<noteq> state_value S_VERIFIED"
  shows "Called Identify (dv_device (rows ! i)) \<in> set (co_log s)"
proof -
  have on: "radio_on_plan (jb_plan job) (map dv_device rows) i s" using job_end [OF planned.executing fresh_session assms(1)] assms(3-5) by simp
  then have "map dv_device (co_rows s) = map dv_device rows" by (simp only: radio_on_plan_def on_plan_def)
  then have "length (co_rows s) = length rows" by (rule map_eq_imp_length_eq)
  then have verified: "done_with i s" using assms(2,4) by (simp add: done_with_def complete_job_def cur_def)
  have "Identify \<in> set (planned_ops opt active t)" for opt active t by (cases "so_original opt") (simp_all add: planned_original planned_normal)
  then have "Identify \<in> set (ops_on (dv_device (rows ! i)) (co_log s))"
    using on verified assms(4) unfolding radio_on_plan_def on_plan_def by (metis nth_map)
  moreover have "op \<in> set (ops_on d es) \<Longrightarrow> Called op d \<in> set es" for op d es by (induction es) (auto split: setup_event.splits if_splits)
  ultimately show ?thesis by blast
qed


end
