(* ===== verification/Alarms.thy ===== *)
theory Alarms
  imports SetupCoordinator
begin

text \<open>
  The alarm engine (app/services/alarm_engine.py): schedules start and stop playback at a minute of the
  day, once per minute, whatever number of workers look at them.

  A marker of the table \<open>runtime_state\<close> is claimed before a worker dispatches. Its text is empty, no JSON,
  or JSON given by its tree. The routers that play and stop, the locks, the guard of a write, the
  inventory and the outcome of a commit are a world of any type; whenever a pass waits, other tasks may change the
  markers in any way. A failed commit leaves the session unusable. Log lines are left out, and of a history row the columns
  that depend on the station and the inventory alone.
\<close>

section \<open>Rows\<close>

record alarm_row =
  sc_id :: nat
  sc_title :: string
  sc_enabled :: bool
  sc_start :: string
  sc_end :: string
  sc_days :: string
  sc_device_ids :: string
  sc_station :: "int option"
  sc_button :: "int option"
  sc_volume :: "int option"
  sc_master_id :: string
  sc_member_ids :: string
  sc_stop :: string
  sc_dry_run :: bool

datatype marker_text = NoText | Garbled | Tree pyval

record marker =
  mk_key :: string
  mk_id :: "nat option"
  mk_text :: marker_text

type_synonym marker_table = "string \<Rightarrow> (nat \<times> marker_text) option"

record play_row =
  ph_device :: string
  ph_trigger :: string
  ph_timer :: bool
  ph_source :: string
  ph_volume :: "int option"
  ph_success :: bool
  ph_error :: string
  ph_ended :: bool

datatype alarm_exc = Error string | Cut

section \<open>Reading a schedule\<close>

definition split_csv :: "string \<Rightarrow> string list" where
  "split_csv v = filter (\<lambda>t. t \<noteq> []) (map strip (split_on CHR '','' v))"

definition normalize_volume :: "int option \<Rightarrow> int" where
  "normalize_volume v = max 0 (min 100 (case v of None \<Rightarrow> 25 | Some n \<Rightarrow> n))"

definition WEEKDAYS :: "string list" where
  "WEEKDAYS = [''mon'', ''tue'', ''wed'', ''thu'', ''fri'', ''sat'', ''sun'']"

definition day_matches :: "string \<Rightarrow> nat \<Rightarrow> bool" where
  "day_matches days weekday = (let key = lower (strip (if days = [] then ''daily'' else days)) in
     if key = ''daily'' then True
     else if key = ''weekdays'' then weekday < 5
     else if key = ''weekend'' then 5 \<le> weekday
     else if key = ''once'' then True
     else if CHR '','' \<in> set key then WEEKDAYS ! weekday \<in> set (map (\<lambda>t. take 3 (strip t)) (split_on CHR '','' key))
     else True)"

definition once :: "alarm_row \<Rightarrow> bool" where
  "once r = (lower (strip (sc_days r)) = ''once'')"

definition grouped :: "alarm_row \<Rightarrow> bool" where
  "grouped r = (sc_master_id r \<noteq> [] \<and> sc_member_ids r \<noteq> [])"

text \<open>The set of radios of a schedule, and the same in order.\<close>

definition radios_of :: "alarm_row \<Rightarrow> string set" where
  "radios_of r = set (split_csv (sc_device_ids r)) \<union> (if sc_master_id r = [] then {} else insert (sc_master_id r) (set (split_csv (sc_member_ids r))))"

definition radio_list :: "alarm_row \<Rightarrow> string list" where
  "radio_list r = sort (remdups (split_csv (sc_device_ids r) @ (if sc_master_id r = [] then [] else sc_master_id r # split_csv (sc_member_ids r))))"

section \<open>Markers\<close>

definition runtime_row :: "marker_table \<Rightarrow> string \<Rightarrow> marker" where
  "runtime_row table key = (case table key of
     None \<Rightarrow> \<lparr>mk_key = key, mk_id = None, mk_text = Tree (VDict [])\<rparr>
   | Some (i, t) \<Rightarrow> \<lparr>mk_key = key, mk_id = Some i, mk_text = t\<rparr>)"

definition claim_text :: "string \<Rightarrow> string \<Rightarrow> marker_text" where
  "claim_text minute ts = Tree (VDict [(''minute'', VStr minute), (''ts'', VStr ts)])"

definition claimed_minute :: "marker_text \<Rightarrow> pyval option" where
  "claimed_minute t = (case t of NoText \<Rightarrow> Some VNone | Garbled \<Rightarrow> None | Tree (VDict d) \<Rightarrow> Some (get_key d ''minute'') | Tree _ \<Rightarrow> None)"

text \<open>The claim compares with what the worker had read; \<open>fresh\<close> is the identity a new row gets.\<close>

definition claim_refused :: "string \<Rightarrow> marker \<Rightarrow> bool" where
  "claim_refused minute m = (claimed_minute (mk_text m) = None \<or> claimed_minute (mk_text m) = Some (VStr minute))"

definition claim_schedule_marker :: "string \<Rightarrow> string \<Rightarrow> nat \<Rightarrow> marker \<Rightarrow> marker_table \<Rightarrow> bool \<times> marker_table" where
  "claim_schedule_marker minute ts fresh m table =
     (if claim_refused minute m then (False, table)
      else (case mk_id m of
          None \<Rightarrow> if table (mk_key m) = None then (True, table(mk_key m \<mapsto> (fresh, claim_text minute ts))) else (False, table)
        | Some i \<Rightarrow> if table (mk_key m) = Some (i, mk_text m) then (True, table(mk_key m \<mapsto> (i, claim_text minute ts))) else (False, table)))"

section \<open>The world\<close>

datatype alarm_request =
    SetMultiroom string "string list" "int option" "int option" int
  | SendPreset string int int
  | PlayStation string int int
  | SendStop string "string list"
  | PowerStandby string

record 'w alarm_env =
  ae_ask :: "alarm_request \<Rightarrow> 'w \<Rightarrow> (alarm_exc + dict) \<times> 'w"
  ae_others :: "marker_table \<Rightarrow> 'w \<Rightarrow> marker_table \<times> 'w"
  ae_commit :: "'w \<Rightarrow> bool \<times> 'w"
  ae_known :: "string \<Rightarrow> 'w \<Rightarrow> bool"
  ae_guard :: "string \<Rightarrow> 'w \<Rightarrow> alarm_exc option"
  ae_lock :: "string list \<Rightarrow> 'w \<Rightarrow> alarm_exc option \<times> 'w"
  ae_stamp :: "'w \<Rightarrow> string"
  ae_fresh :: "'w \<Rightarrow> nat"

datatype alarm_result = Planned "dict list" | Played bool | Stopped bool | NotDone string

datatype alarm_event = Claimed string string | Dispatched string nat | Asked alarm_request

record 'w alarm_pass =
  ap_world :: 'w
  ap_table :: marker_table
  ap_rows :: "alarm_row list"
  ap_history :: "play_row list"
  ap_broken :: bool
  ap_log :: "alarm_event list"

type_synonym ('w, 'a) alact = "('w alarm_pass, alarm_exc, 'a) act"

definition note_alarm :: "alarm_event \<Rightarrow> ('w, unit) alact" where
  "note_alarm e s = (Inr (), s\<lparr>ap_log := ap_log s @ [e]\<rparr>)"

definition session_usable :: "('w, unit) alact" where
  "session_usable s = (if ap_broken s then Inl (Error ''PendingRollbackError'') else Inr (), s)"

definition commit_alarm :: "'w alarm_env \<Rightarrow> ('w, unit) alact" where
  "commit_alarm env = abind session_usable (\<lambda>_ s. case ae_commit env (ap_world s) of
     (True, w) \<Rightarrow> (Inr (), s\<lparr>ap_world := w\<rparr>) | (False, w) \<Rightarrow> (Inl (Error ''OperationalError''), s\<lparr>ap_world := w, ap_broken := True\<rparr>))"

text \<open>Whenever the pass waits, and between a read and a conditional update, others may change the markers.\<close>

definition others_act :: "'w alarm_env \<Rightarrow> ('w, unit) alact" where
  "others_act env s = (case ae_others env (ap_table s) (ap_world s) of (table, w) \<Rightarrow> (Inr (), s\<lparr>ap_world := w, ap_table := table\<rparr>))"

definition ask :: "'w alarm_env \<Rightarrow> alarm_request \<Rightarrow> ('w, dict) alact" where
  "ask env q = abind (note_alarm (Asked q)) (\<lambda>_. abind (others_act env) (\<lambda>_ s. case ae_ask env q (ap_world s) of (a, w) \<Rightarrow> (a, s\<lparr>ap_world := w\<rparr>)))"

section \<open>Playing\<close>

definition planned_actions :: "alarm_row \<Rightarrow> dict list" where
  "planned_actions r = (let opt = (\<lambda>v. case v of None \<Rightarrow> VNone | Some n \<Rightarrow> VInt n) in
     if sc_master_id r \<noteq> [] then [[(''action'', VStr ''multiroom_play''), (''master_device_id'', VStr (sc_master_id r)),
       (''member_device_ids'', texts (split_csv (sc_member_ids r))), (''station_id'', opt (sc_station r)), (''volume'', opt (sc_volume r))]]
     else map (\<lambda>d. [(''action'', VStr (if truth (opt (sc_button r)) then ''play_preset'' else ''play_station'')), (''device_id'', VStr d), (''station_id'', opt (sc_station r)),
       (''preset_button'', opt (sc_button r)), (''volume'', opt (sc_volume r))]) (split_csv (sc_device_ids r)))"

fun ask_each :: "'w alarm_env \<Rightarrow> (string \<Rightarrow> alarm_request) \<Rightarrow> string list \<Rightarrow> dict \<Rightarrow> ('w, dict) alact" where
  "ask_each env q [] result = areturn result"
| "ask_each env q (d # ds) result = abind (ask env (q d)) (\<lambda>answer. ask_each env q ds (AList.update d (VDict answer) result))"

definition play_schedule_devices :: "'w alarm_env \<Rightarrow> alarm_row \<Rightarrow> ('w, dict) alact" where
  "play_schedule_devices env r = (let volume = normalize_volume (sc_volume r); ids = split_csv (sc_device_ids r) in
     case (if sc_button r = Some 0 then None else sc_button r, if sc_station r = Some 0 then None else sc_station r) of
       (Some b, _) \<Rightarrow> ask_each env (\<lambda>d. SendPreset d b volume) ids []
     | (None, None) \<Rightarrow> areturn [(''skipped'', VBool True), (''reason'', VStr ''no station_id or preset_button configured'')]
     | (None, Some st) \<Rightarrow> ask_each env (\<lambda>d. PlayStation d st volume) ids [])"

definition timer_row :: "alarm_row \<Rightarrow> string \<Rightarrow> bool \<Rightarrow> string \<Rightarrow> string \<Rightarrow> play_row" where
  "timer_row r trigger ok error d = \<lparr>ph_device = d, ph_trigger = trigger, ph_timer = True,
     ph_source = (if sc_button r \<noteq> None \<and> sc_button r \<noteq> Some 0 then ''PRESET'' else ''LOCAL_INTERNET_RADIO''),
     ph_volume = map_option (\<lambda>v. normalize_volume (Some v)) (sc_volume r), ph_success = ok, ph_error = (if ok then [] else take 1024 error), ph_ended = (\<not> ok)\<rparr>"

definition record_schedule_history :: "'w alarm_env \<Rightarrow> alarm_row \<Rightarrow> string \<Rightarrow> bool \<Rightarrow> string \<Rightarrow> string set option \<Rightarrow> ('w, unit) alact" where
  "record_schedule_history env r trigger success error verified =
     abind (commit_alarm env) (\<lambda>_ s.
       (Inr (), s\<lparr>ap_history := ap_history s @ map (\<lambda>d. timer_row r trigger (case verified of None \<Rightarrow> success | Some v \<Rightarrow> d \<in> v) error d) (radio_list r)\<rparr>))"

definition answered_verified :: "dict \<Rightarrow> string \<Rightarrow> bool" where
  "answered_verified result d = (case get_key result d of VDict a \<Rightarrow> get_key a ''verified'' = VBool True | _ \<Rightarrow> False)"

definition verified_set :: "alarm_row \<Rightarrow> dict \<Rightarrow> alarm_exc + string set \<times> string set" where
  "verified_set r result =
     (if grouped r then (let playback = get_key result ''playback''; expected = insert (sc_master_id r) (set (split_csv (sc_member_ids r))) in
        if \<not> truth playback then Inr ({}, expected)
        else (case playback of VDict d \<Rightarrow> Inr (if get_key d ''verified'' = VBool True then {sc_master_id r} else {}, expected) | _ \<Rightarrow> Inl (Error [])))
      else (let expected = set (split_csv (sc_device_ids r)) in Inr ({d \<in> expected. answered_verified result d}, expected)))"

definition play_now :: "'w alarm_env \<Rightarrow> alarm_row \<Rightarrow> ('w, dict) alact" where
  "play_now env r = (if grouped r
     then ask env (SetMultiroom (sc_master_id r) (split_csv (sc_member_ids r)) (sc_station r) (sc_button r) (case sc_volume r of None \<Rightarrow> 5 | Some v \<Rightarrow> v))
     else play_schedule_devices env r)"

text \<open>A dry run only plans. A row becomes visible with its commit.\<close>

definition trigger_schedule :: "'w alarm_env \<Rightarrow> alarm_row \<Rightarrow> string \<Rightarrow> bool option \<Rightarrow> ('w, alarm_result) alact" where
  "trigger_schedule env r trigger force_dry_run =
     (if (case force_dry_run of None \<Rightarrow> sc_dry_run r | Some d \<Rightarrow> d) then areturn (Planned (planned_actions r))
      else abind (catching (play_now env r) (\<lambda>e. case e of
          Cut \<Rightarrow> araise Cut | Error t \<Rightarrow> abind (record_schedule_history env r trigger False t None) (\<lambda>_. araise (Error t)))) (\<lambda>result.
        case verified_set r result of
          Inl e \<Rightarrow> araise e
        | Inr (verified, expected) \<Rightarrow> (let ok = (expected \<noteq> {} \<and> verified = expected) in
            abind (record_schedule_history env r trigger ok (if ok then [] else ''PLAYBACK_PENDING_READBACK'') (Some verified)) (\<lambda>_. areturn (Played ok)))))"

section \<open>Stopping\<close>

definition stop_mode :: "alarm_row \<Rightarrow> string" where
  "stop_mode r = (let a = lower (strip (if sc_stop r = [] then ''stop_standby'' else sc_stop r)) in
     if a \<in> {''stop'', ''standby'', ''stop_standby''} then a else ''stop_standby'')"

definition answer_ok :: "dict \<Rightarrow> bool" where
  "answer_ok a = (get_key a ''verified'' = VBool True)"

text \<open>An unknown STOP does not authorize a standby.\<close>

definition stop_device :: "'w alarm_env \<Rightarrow> string \<Rightarrow> string list \<Rightarrow> string \<Rightarrow> ('w, bool) alact" where
  "stop_device env mode ids d =
     abind (if mode \<in> {''stop'', ''stop_standby''} then abind (ask env (SendStop d ids)) (\<lambda>a. areturn (answer_ok a)) else areturn True) (\<lambda>stopped.
       if \<not> stopped then areturn False
       else if mode \<in> {''standby'', ''stop_standby''} then abind (ask env (PowerStandby d)) (\<lambda>a. areturn (answer_ok a)) else areturn True)"

fun stop_devices :: "'w alarm_env \<Rightarrow> string \<Rightarrow> string list \<Rightarrow> string list \<Rightarrow> ('w, bool) alact" where
  "stop_devices env mode ids [] = areturn True"
| "stop_devices env mode ids (d # ds) = abind (stop_device env mode ids d) (\<lambda>ok. abind (stop_devices env mode ids ds) (\<lambda>rest. areturn (ok \<and> rest)))"

definition close_schedule_history :: "'w alarm_env \<Rightarrow> alarm_row \<Rightarrow> ('w, unit) alact" where
  "close_schedule_history env r = (if radio_list r = [] then areturn () else
     abind (commit_alarm env) (\<lambda>_ s. (Inr (), s\<lparr>ap_history := map (\<lambda>h. if ph_device h \<in> radios_of r \<and> ph_timer h then h\<lparr>ph_ended := True\<rparr> else h) (ap_history s)\<rparr>)))"

fun guard_each :: "'w alarm_env \<Rightarrow> string list \<Rightarrow> ('w, unit) alact" where
  "guard_each env [] = areturn ()"
| "guard_each env (d # ds) = (\<lambda>s. case ae_guard env d (ap_world s) of Some e \<Rightarrow> (Inl e, s) | None \<Rightarrow> guard_each env ds s)"

definition lock_radios :: "'w alarm_env \<Rightarrow> string list \<Rightarrow> ('w, unit) alact" where
  "lock_radios env ids = abind (others_act env) (\<lambda>_ s. case ae_lock env ids (ap_world s) of
     (None, w) \<Rightarrow> (Inr (), s\<lparr>ap_world := w\<rparr>) | (Some e, w) \<Rightarrow> (Inl e, s\<lparr>ap_world := w\<rparr>))"

definition stop_schedule :: "'w alarm_env \<Rightarrow> alarm_row \<Rightarrow> ('w, alarm_result) alact" where
  "stop_schedule env r = (let ids = radio_list r in
     abind session_usable (\<lambda>_.
     abind (\<lambda>s. (if ids = [] \<or> \<not> list_all (\<lambda>d. ae_known env d (ap_world s)) ids then Inl (Error ''schedule targets missing; no stop attempted'') else Inr (), s)) (\<lambda>_.
     abind (guard_each env ids) (\<lambda>_.
     abind (lock_radios env ids) (\<lambda>_.
     abind (stop_devices env (stop_mode r) ids ids) (\<lambda>ok.
       if ok then abind (close_schedule_history env r) (\<lambda>_. areturn (Stopped True)) else areturn (Stopped False)))))))"

section \<open>A pass\<close>

definition start_key :: "alarm_row \<Rightarrow> string" where
  "start_key r = ''alarm:last_run:'' @ text_of_int (int (sc_id r))"

definition stop_key :: "alarm_row \<Rightarrow> string" where
  "stop_key r = ''alarm:last_stop:'' @ text_of_int (int (sc_id r))"

definition claim_now :: "'w alarm_env \<Rightarrow> string \<Rightarrow> string \<Rightarrow> ('w, bool) alact" where
  "claim_now env minute key = abind session_usable (\<lambda>_ s. let m = runtime_row (ap_table s) key in
     if claim_refused minute m then (Inr False, s)
     else abind (others_act env) (\<lambda>_. abind (commit_alarm env) (\<lambda>_ s.
       case claim_schedule_marker minute (ae_stamp env (ap_world s)) (ae_fresh env (ap_world s)) m (ap_table s) of
         (False, table) \<Rightarrow> (Inr False, s)
       | (True, table) \<Rightarrow> abind (note_alarm (Claimed key minute)) (\<lambda>_. areturn True) (s\<lparr>ap_table := table\<rparr>))) s)"

definition disable :: "'w alarm_env \<Rightarrow> nat \<Rightarrow> ('w, unit) alact" where
  "disable env i = abind (commit_alarm env) (\<lambda>_ s. (Inr (), s\<lparr>ap_rows := (ap_rows s)[i := (ap_rows s ! i)\<lparr>sc_enabled := False\<rparr>]\<rparr>))"

text \<open>What is dispatched for a claim; an exception is a failed result.\<close>

definition failed_result :: "alarm_result list \<Rightarrow> alarm_exc \<Rightarrow> ('w, alarm_result list) alact" where
  "failed_result before e = (case e of Cut \<Rightarrow> araise Cut | Error t \<Rightarrow> areturn (before @ [NotDone t]))"

definition dispatch :: "'w alarm_env \<Rightarrow> string \<Rightarrow> nat \<Rightarrow> ('w, alarm_result) alact \<Rightarrow> bool \<Rightarrow> ('w, alarm_result list) alact" where
  "dispatch env key i m off = abind (note_alarm (Dispatched key i)) (\<lambda>_.
     catching (abind m (\<lambda>x. if off then catching (abind (disable env i) (\<lambda>_. areturn [x])) (failed_result [x]) else areturn [x])) (failed_result []))"

definition start_due :: "'w alarm_env \<Rightarrow> string \<Rightarrow> string \<Rightarrow> nat \<Rightarrow> alarm_row \<Rightarrow> ('w, alarm_result list) alact" where
  "start_due env minute time i r = (if sc_start r = time
     then abind (claim_now env minute (start_key r)) (\<lambda>won. if won
       then (dispatch env (start_key r) i (trigger_schedule env r ''scheduler'' None) (once r \<and> sc_end r = [])) else areturn [])
     else areturn [])"

definition stop_due :: "'w alarm_env \<Rightarrow> string \<Rightarrow> string \<Rightarrow> nat \<Rightarrow> alarm_row \<Rightarrow> ('w, alarm_result list) alact" where
  "stop_due env minute time i r = (if sc_end r \<noteq> [] \<and> sc_end r = time
     then abind (claim_now env minute (stop_key r)) (\<lambda>won. if won
       then (dispatch env (stop_key r) i (stop_schedule env r) (once r)) else areturn [])
     else areturn [])"

definition pass_row :: "'w alarm_env \<Rightarrow> string \<Rightarrow> string \<Rightarrow> nat \<Rightarrow> nat \<times> alarm_row \<Rightarrow> ('w, alarm_result list) alact" where
  "pass_row env minute time weekday ir = (case ir of (i, r) \<Rightarrow>
     if \<not> day_matches (sc_days r) weekday then areturn []
     else abind (start_due env minute time i r) (\<lambda>xs. abind (stop_due env minute time i r) (\<lambda>ys. areturn (xs @ ys))))"

fun pass_rows :: "'w alarm_env \<Rightarrow> string \<Rightarrow> string \<Rightarrow> nat \<Rightarrow> (nat \<times> alarm_row) list \<Rightarrow> ('w, alarm_result list) alact" where
  "pass_rows env minute time weekday [] = areturn []"
| "pass_rows env minute time weekday (x # xs) = abind (pass_row env minute time weekday x) (\<lambda>a. abind (pass_rows env minute time weekday xs) (\<lambda>b. areturn (a @ b)))"

text \<open>The local minute, its time of day and the weekday are those of the zone of the schedule.\<close>

definition run_alarm_engine_once :: "'w alarm_env \<Rightarrow> string \<Rightarrow> string \<Rightarrow> nat \<Rightarrow> ('w, alarm_result list) alact" where
  "run_alarm_engine_once env minute time weekday = abind session_usable (\<lambda>_ s.
     pass_rows env minute time weekday (filter (\<lambda>(i, r). sc_enabled r) (enumerate 0 (ap_rows s))) s)"

text \<open>The loop over the wake-ups it gets, each with a session of its own. Nothing catches what a pass raises.\<close>

fun alarm_engine_loop :: "'w alarm_env \<Rightarrow> (string \<times> string \<times> nat) list \<Rightarrow> ('w, unit) alact" where
  "alarm_engine_loop env [] s = (Inr (), s)"
| "alarm_engine_loop env ((minute, time, weekday) # ticks) s = (case run_alarm_engine_once env minute time weekday (s\<lparr>ap_broken := False\<rparr>) of
     (Inl e, t) \<Rightarrow> (Inl e, t) | (Inr _, t) \<Rightarrow> alarm_engine_loop env ticks t)"

end
