(* ===== verification/AlarmLaws.thy ===== *)
theory AlarmLaws
  imports Alarms
begin

text \<open>
  What the alarm engine promises: workers that look at the same schedule dispatch it at most once a
  minute, a pass dispatches only what it claimed and what is due, and asks only radios of that schedule.
\<close>

section \<open>Claims of several workers\<close>

text \<open>Workers read markers and try to claim them later; \<open>won\<close> are the claims that succeeded.\<close>

datatype claim_move = Look nat string | Try nat string string nat

record claims =
  cm_table :: marker_table
  cm_copies :: "nat \<Rightarrow> marker option"
  cm_won :: "(string \<times> string) list"

primrec claim_step :: "claim_move \<Rightarrow> claims \<Rightarrow> claims" where
  "claim_step (Look w k) s = s\<lparr>cm_copies := (cm_copies s)(w \<mapsto> runtime_row (cm_table s) k)\<rparr>"
| "claim_step (Try w minute ts fresh) s = (case cm_copies s w of
     None \<Rightarrow> s
   | Some m \<Rightarrow> (case claim_schedule_marker minute ts fresh m (cm_table s) of (got, table) \<Rightarrow>
       s\<lparr>cm_table := table, cm_won := cm_won s @ (if got then [(mk_key m, minute)] else [])\<rparr>))"

definition minutes_won :: "string \<Rightarrow> claims \<Rightarrow> string list" where
  "minutes_won k s = map snd (filter (\<lambda>c. fst c = k) (cm_won s))"

text \<open>The minute that the table shows is the last one won, and no minute is won twice in a row.\<close>

definition shown_minute :: "string \<Rightarrow> marker_table \<Rightarrow> pyval option" where
  "shown_minute k table = (case table k of None \<Rightarrow> Some VNone | Some (_, t) \<Rightarrow> claimed_minute t)"

definition claims_ok :: "claims \<Rightarrow> bool" where
  "claims_ok s = (\<forall>k. distinct_adj (minutes_won k s) \<and> (minutes_won k s \<noteq> [] \<longrightarrow> shown_minute k (cm_table s) = Some (VStr (last (minutes_won k s)))))"

lemma claimed_text [simp]: "claimed_minute (claim_text minute ts) = Some (VStr minute)"
  by (simp add: claimed_minute_def claim_text_def get_or_def)

lemma claim_won:
  assumes "claim_schedule_marker minute ts fresh m table = (True, table')"
  shows "\<exists>i. table' = table(mk_key m \<mapsto> (i, claim_text minute ts))" "shown_minute (mk_key m) table \<noteq> Some (VStr minute)"
  using assms by (auto simp: claim_schedule_marker_def claim_refused_def shown_minute_def split: if_splits option.splits)

lemma claim_lost: "claim_schedule_marker minute ts fresh m table = (False, table') \<Longrightarrow> table' = table"
  by (auto simp: claim_schedule_marker_def split: if_splits option.splits)

lemma distinct_adj_snoc: "distinct_adj (xs @ [x]) \<longleftrightarrow> distinct_adj xs \<and> (xs \<noteq> [] \<longrightarrow> last xs \<noteq> x)"
  by (auto simp: distinct_adj_append_iff)

lemma claims_step: "claims_ok s \<Longrightarrow> claims_ok (claim_step a s)"
proof (cases a)
  case (Try w minute ts fresh)
  assume ok: "claims_ok s"
  show ?thesis
  proof (cases "cm_copies s w")
    case (Some m)
    obtain got table where c: "claim_schedule_marker minute ts fresh m (cm_table s) = (got, table)" by fastforce
    show ?thesis
    proof (cases got)
      case True
      then obtain i where t: "table = (cm_table s)(mk_key m \<mapsto> (i, claim_text minute ts))" "shown_minute (mk_key m) (cm_table s) \<noteq> Some (VStr minute)"
        using claim_won [of minute ts fresh m "cm_table s" table] c by auto
      have "minutes_won k (claim_step a s) = minutes_won k s @ (if k = mk_key m then [minute] else [])" for k
        using Try Some c True by (simp add: minutes_won_def)
      moreover have "cm_table (claim_step a s) = table" using Try Some c by simp
      ultimately show ?thesis using ok t unfolding claims_ok_def by (auto simp: distinct_adj_snoc shown_minute_def split: if_splits)
    next
      case False
      then show ?thesis using ok Try Some c claim_lost [of minute ts fresh m "cm_table s" table] by (simp add: claims_ok_def minutes_won_def)
    qed
  qed (use ok Try in simp)
qed (simp add: claims_ok_def minutes_won_def)

lemma claims_run: "claims_ok s \<Longrightarrow> claims_ok (fold claim_step moves s)"
  by (induction moves arbitrary: s) (auto intro: claims_step)

lemma sorted_adj_distinct: "sorted xs \<Longrightarrow> distinct_adj xs \<Longrightarrow> distinct (xs :: string list)"
  by (induction xs rule: induct_list012) (auto simp: distinct_adj_Cons)

section \<open>The log of a pass\<close>

primrec asked :: "alarm_request \<Rightarrow> string set" where
  "asked (SetMultiroom m ms st b v) = insert m (set ms)"
| "asked (SendPreset d b v) = {d}"
| "asked (PlayStation d st v) = {d}"
| "asked (SendStop d ds) = insert d (set ds)"
| "asked (PowerStandby d) = {d}"

datatype mode = Idle | Armed string | Running nat

definition due :: "alarm_row list \<Rightarrow> string \<Rightarrow> nat \<Rightarrow> nat \<Rightarrow> string \<Rightarrow> bool" where
  "due rows time weekday i key = (i < length rows \<and> sc_enabled (rows ! i) \<and> day_matches (sc_days (rows ! i)) weekday \<and>
     (key = start_key (rows ! i) \<and> sc_start (rows ! i) = time \<or> key = stop_key (rows ! i) \<and> sc_end (rows ! i) = time))"

text \<open>
  A log is read from the left: a dispatch needs the claim of its own marker for this minute directly before it and
  must be due, and requests belong to the last dispatch and concern radios of its schedule only.
\<close>

fun follow :: "alarm_row list \<Rightarrow> string \<Rightarrow> string \<Rightarrow> nat \<Rightarrow> mode \<Rightarrow> alarm_event list \<Rightarrow> mode option" where
  "follow rows minute time weekday m [] = Some m"
| "follow rows minute time weekday m (Claimed k t # es) = (if t = minute then follow rows minute time weekday (Armed k) es else None)"
| "follow rows minute time weekday m (Dispatched k i # es) = (if m = Armed k \<and> due rows time weekday i k then follow rows minute time weekday (Running i) es else None)"
| "follow rows minute time weekday m (Asked q # es) = (case m of
     Running i \<Rightarrow> if asked q \<subseteq> radios_of (rows ! i) then follow rows minute time weekday m es else None | _ \<Rightarrow> None)"

lemma follow_append: "follow rows minute time weekday m (xs @ ys) = Option.bind (follow rows minute time weekday m xs) (\<lambda>m'. follow rows minute time weekday m' ys)"
  by (induction rows minute time weekday m xs rule: follow.induct) (auto split: mode.split)

text \<open>The log so far is in order and in a mode of \<open>M\<close>.\<close>

definition in_mode :: "alarm_row list \<Rightarrow> string \<Rightarrow> string \<Rightarrow> nat \<Rightarrow> (mode \<Rightarrow> bool) \<Rightarrow> 'w alarm_pass \<Rightarrow> bool" where
  "in_mode rows minute time weekday M s = (\<exists>m. follow rows minute time weekday Idle (ap_log s) = Some m \<and> M m)"

abbreviation any_mode :: "mode \<Rightarrow> bool" where
  "any_mode \<equiv> \<lambda>_. True"

definition mute :: "('w, 'a) alact \<Rightarrow> bool" where
  "mute m = (\<forall>s. ap_log (snd (m s)) = ap_log s)"

lemma mute_keeps: "mute m \<Longrightarrow> keeps (in_mode rows minute time weekday M) m"
  by (simp add: keeps_def mute_def in_mode_def)

lemma mute_bind: "mute m \<Longrightarrow> (\<And>a. mute (f a)) \<Longrightarrow> mute (abind m f)"
  unfolding mute_def abind_def by (auto split: prod.split sum.split) (metis snd_conv)+

lemma mute_parts [simp]: "mute (others_act env)" "mute session_usable" "mute (areturn a)" "mute (araise e)"
  by (auto simp: mute_def others_act_def session_usable_def areturn_def araise_def split: prod.split)

lemma mute_commit [simp]: "mute (commit_alarm env)"
  unfolding commit_alarm_def by (rule mute_bind, simp) (auto simp: mute_def split: prod.split bool.split)

lemma mute_db [simp]:
  "mute (record_schedule_history env r trigger ok error v)" "mute (close_schedule_history env r)" "mute (disable env i)" "mute (guard_each env ds)" "mute (lock_radios env ds)"
proof -
  show "mute (guard_each env ds)" by (induction ds) (auto simp: mute_def areturn_def split: option.split)
qed (auto simp: record_schedule_history_def close_schedule_history_def disable_def lock_radios_def intro!: mute_bind, auto simp: mute_def split: prod.split option.split)

lemma keeps_if: "keeps P m \<Longrightarrow> keeps P n \<Longrightarrow> keeps P (if b then m else n)"
  by simp

lemma weaken_mode: "in_mode rows minute time weekday M s \<Longrightarrow> in_mode rows minute time weekday any_mode s"
  by (auto simp: in_mode_def)

text \<open>Requests to radios of the schedule that runs.\<close>

lemma keeps_ask:
  assumes "asked q \<subseteq> radios_of (rows ! i)"
  shows "keeps (in_mode rows minute time weekday ((=) (Running i))) (ask env q)"
proof -
  have "keeps (in_mode rows minute time weekday ((=) (Running i))) (note_alarm (Asked q) :: ('a, unit) alact)"
    using assms by (auto simp: keeps_def in_mode_def note_alarm_def follow_append)
  then show ?thesis unfolding ask_def
    by (intro keeps_bind mute_keeps [OF mute_parts(1)]) (auto simp: keeps_def in_mode_def split: prod.split)
qed

lemma radio_list_radios [simp]: "set (radio_list r) = radios_of r"
  by (auto simp: radio_list_def radios_of_def)

lemma keeps_ask_each:
  "(\<And>d. d \<in> set ds \<Longrightarrow> asked (q d) \<subseteq> radios_of (rows ! i)) \<Longrightarrow> keeps (in_mode rows minute time weekday ((=) (Running i))) (ask_each env q ds result)"
  by (induction ds arbitrary: result) (auto intro!: keeps_bind keeps_ask keeps_trivial)

lemma keeps_trigger:
  assumes "rows ! i = r"
  shows "keeps (in_mode rows minute time weekday ((=) (Running i))) (trigger_schedule env r trigger force)"
proof -
  have "keeps (in_mode rows minute time weekday ((=) (Running i))) (play_schedule_devices env r)"
    unfolding play_schedule_devices_def Let_def
    by (auto split: option.split prod.split intro!: keeps_ask_each keeps_trivial) (auto simp: assms radios_of_def)
  then have play: "keeps (in_mode rows minute time weekday ((=) (Running i))) (play_now env r)"
    unfolding play_now_def by (auto intro!: keeps_ask simp: assms radios_of_def grouped_def)
  show ?thesis unfolding trigger_schedule_def Let_def
    by (intro keeps_if keeps_bind keeps_catching play keeps_trivial) (auto intro!: keeps_bind keeps_trivial mute_keeps [OF mute_db(1)] split: alarm_exc.split sum.split)
qed

lemma keeps_stop:
  assumes "rows ! i = r"
  shows "keeps (in_mode rows minute time weekday ((=) (Running i))) (stop_schedule env r)"
proof -
  have one: "keeps (in_mode rows minute time weekday ((=) (Running i))) (stop_device env md ids d)" if "set ids \<subseteq> radios_of r" "d \<in> radios_of r" for md ids d
    unfolding stop_device_def using that assms by (intro keeps_if keeps_bind keeps_ask keeps_trivial) auto
  have all: "keeps (in_mode rows minute time weekday ((=) (Running i))) (stop_devices env md ids ds)" if "set ids \<subseteq> radios_of r" "set ds \<subseteq> radios_of r" for md ids ds
    using that by (induction ds) (auto intro!: keeps_bind keeps_trivial one)
  have check: "mute (\<lambda>s. (if P s then Inl e else Inr (), s))" for P e by (simp add: mute_def)
  show ?thesis unfolding stop_schedule_def Let_def
    by (intro keeps_if keeps_bind all keeps_trivial mute_keeps [OF mute_db(2)] mute_keeps [OF mute_db(4)] mute_keeps [OF mute_db(5)] mute_keeps [OF mute_parts(2)] mute_keeps [OF check]) simp_all
qed

section \<open>A pass\<close>

lemma claim_mode:
  fixes env :: "'w alarm_env" and rows minute time weekday key
  defines "any \<equiv> in_mode rows minute time weekday any_mode :: 'w alarm_pass \<Rightarrow> bool"
    and "Q \<equiv> \<lambda>won. in_mode rows minute time weekday (if won then (=) (Armed key) else any_mode) :: 'w alarm_pass \<Rightarrow> bool"
  shows "triple any (claim_now env minute key) Q (\<lambda>_. any)"
proof -
  let ?claim = "\<lambda>m s. case claim_schedule_marker minute (ae_stamp env (ap_world s)) (ae_fresh env (ap_world s)) m (ap_table s) of
       (False, table) \<Rightarrow> (Inr False, s) | (True, table) \<Rightarrow> abind (note_alarm (Claimed key minute)) (\<lambda>_. areturn True) (s\<lparr>ap_table := table\<rparr>)"
  have held: "mute m \<Longrightarrow> triple any m (\<lambda>_. any) (\<lambda>_. any)" for m :: "('w, unit) alact" unfolding any_def by (intro triple_keeps mute_keeps)
  have "triple any (?claim m) Q (\<lambda>_. any)" for m
    unfolding any_def Q_def by (auto simp: triple_def in_mode_def abind_def note_alarm_def areturn_def follow_append split: prod.split bool.split)
  then have chain: "triple any (abind (others_act env) (\<lambda>_. abind (commit_alarm env) (\<lambda>_. ?claim m))) Q (\<lambda>_. any)" for m
    by (intro triple_bind [OF held [OF mute_parts(1)]] triple_bind [OF held [OF mute_commit]])
  have "Q False = any" unfolding any_def Q_def by simp
  then have rest: "triple any (\<lambda>s. if claim_refused minute (runtime_row (ap_table s) key) then (Inr False, s)
      else abind (others_act env) (\<lambda>_. abind (commit_alarm env) (\<lambda>_. ?claim (runtime_row (ap_table s) key))) s) Q (\<lambda>_. any)"
    using chain unfolding triple_def by (simp only: if_split) (auto split: if_splits)
  show ?thesis unfolding claim_now_def Let_def by (rule triple_bind [OF held [OF mute_parts(2)] rest])
qed

lemma dispatch_mode:
  assumes "due rows time weekday i key" "keeps (in_mode rows minute time weekday ((=) (Running i))) m"
  shows "triple (in_mode rows minute time weekday ((=) (Armed key))) (dispatch env key i m off) (\<lambda>_. in_mode rows minute time weekday any_mode) (\<lambda>_. in_mode rows minute time weekday any_mode)"
proof -
  let ?run = "in_mode rows minute time weekday ((=) (Running i))"
  have begun: "triple (in_mode rows minute time weekday ((=) (Armed key))) (note_alarm (Dispatched key i)) (\<lambda>_. ?run) (\<lambda>_. in_mode rows minute time weekday any_mode)"
    using assms(1) by (auto simp: triple_def in_mode_def note_alarm_def follow_append)
  have failed: "keeps ?run (failed_result xs e)" for xs e by (simp add: failed_result_def keeps_trivial split: alarm_exc.split)
  have body: "keeps ?run (catching (abind m (\<lambda>x. if off then catching (abind (disable env i) (\<lambda>_. areturn [x])) (failed_result [x]) else areturn [x])) (failed_result []))"
    by (intro keeps_catching keeps_bind keeps_if assms(2) failed keeps_trivial mute_keeps [OF mute_db(3)])
  show ?thesis unfolding dispatch_def
    by (rule triple_bind [OF begun], rule triple_weaken [OF triple_keeps [OF body]]) (auto intro: weaken_mode)
qed

lemma row_mode:
  assumes "i < length rows" "rows ! i = r" "sc_enabled r"
  shows "keeps (in_mode rows minute time weekday any_mode) (pass_row env minute time weekday (i, r))"
proof -
  let ?any = "in_mode rows minute time weekday any_mode"
  have claimed: "keeps ?any (abind (claim_now env minute key) (\<lambda>won. if won then dispatch env key i m off else areturn []))"
    if "due rows time weekday i key" "keeps (in_mode rows minute time weekday ((=) (Running i))) m" for key off and m :: "('a, alarm_result) alact"
  proof (rule keeps_triple, rule triple_bind [OF claim_mode])
    show "triple (in_mode rows minute time weekday (if won then (=) (Armed key) else any_mode)) (if won then dispatch env key i m off else areturn []) (\<lambda>_. ?any) (\<lambda>_. ?any)" for won
      using dispatch_mode [OF that, of env off] by (cases won) (auto intro: triple_return)
  qed
  have "keeps ?any (start_due env minute time i r)" if "day_matches (sc_days r) weekday"
    unfolding start_due_def by (cases "sc_start r = time") (use assms that in \<open>simp_all add: claimed due_def keeps_trigger keeps_trivial\<close>)
  moreover have "keeps ?any (stop_due env minute time i r)" if "day_matches (sc_days r) weekday"
    unfolding stop_due_def by (cases "sc_end r = time") (use assms that in \<open>simp_all add: claimed due_def keeps_stop keeps_trivial\<close>)
  ultimately show ?thesis unfolding pass_row_def by (auto intro!: keeps_bind keeps_trivial)
qed

lemma pass_mode:
  "\<forall>(i, r) \<in> set xs. i < length rows \<and> rows ! i = r \<and> sc_enabled r \<Longrightarrow> keeps (in_mode rows minute time weekday any_mode) (pass_rows env minute time weekday xs)"
proof (induction xs)
  case (Cons x xs)
  then show ?case using row_mode [of "fst x" rows "snd x"] by (cases x) (auto intro!: keeps_bind keeps_trivial)
qed (simp add: keeps_trivial)


definition example_alarm :: "unit alarm_env" where
  "example_alarm = \<lparr>ae_ask = \<lambda>q w. (Inr [(''verified'', VBool True)], w), ae_others = Pair, ae_commit = Pair True, ae_known = \<lambda>d w. True, ae_guard = \<lambda>d w. None,
     ae_lock = \<lambda>ds w. (None, w), ae_stamp = \<lambda>w. ''t'', ae_fresh = \<lambda>w. 1\<rparr>"

definition example_schedule :: alarm_row where
  "example_schedule = \<lparr>sc_id = 4, sc_title = ''Wake'', sc_enabled = True, sc_start = ''07:00'', sc_end = ''08:00'', sc_days = ''mon,tue'', sc_device_ids = ''A1, B2'', sc_station = Some 3,
     sc_button = None, sc_volume = Some 120, sc_master_id = [], sc_member_ids = [], sc_stop = [], sc_dry_run = False\<rparr>"

definition example_night :: "unit alarm_pass" where
  "example_night = \<lparr>ap_world = (), ap_table = Map.empty, ap_rows = [example_schedule], ap_history = [], ap_broken = False, ap_log = []\<rparr>"


text \<open>
  An exception outside the handlers of a pass, such as a failed commit of a claim, ends the loop and not only the pass: no
  later wake-up is served.
\<close>

lemma failed_claim_ends_loop:
  assumes "ap_rows s = [r]" "sc_enabled r" "day_matches (sc_days r) weekday" "sc_start r = time" "\<not> claim_refused minute (runtime_row (ap_table s) (start_key r))"
    and "\<And>w. \<exists>w'. ae_commit env w = (False, w')"
  shows "\<exists>t. alarm_engine_loop env ((minute, time, weekday) # ticks) s = (Inl (Error ''OperationalError''), t) \<and> ap_log t = ap_log s"
proof -
  obtain table w where o1: "ae_others env (ap_table s) (ap_world s) = (table, w)" by fastforce
  obtain w' where "ae_commit env w = (False, w')" using assms(6) by blast
  then show ?thesis using assms(1-5) o1
    by (simp add: run_alarm_engine_once_def abind_def session_usable_def pass_row_def start_due_def claim_now_def Let_def others_act_def commit_alarm_def)
qed

end
