(* ===== verification/Spec2Isabelle.thy ===== *)
theory Spec2Isabelle
  imports UpdateProperties SetupStates SetupLease AirplayLivenessLaws AirplayAudio AirplayRelay
    AirplayGroup PresetMutations SafetyGate PlayHistory Restrictions
    BoundaryProperties IngressProperties ReportingProperties DevicePolicy
    NetworkPolicy RebootLaws DeviceLocks RadioTransactions SetupCandidates AlarmLaws
begin

text \<open>
  BASSWIESN, a local replacement for the cloud services of SoundTouch radios: a verification
  development of the parts of its Python code that decide something and keep state. Each theory
  translates one or two source files function by function and proves what makes them correct.

  \<^bold>\<open>Parts and theories.\<close> All paths are below \<open>src/basswiesn\<close>.

  \<^item> The update helper (\<open>update_helper\<close>) installs new versions under a durable journal.
    \<^item> \<open>UpdateProtocol\<close>: \<open>protocol.py\<close>, decoding and authorization of a request.
    \<^item> \<open>UpdateJournal\<close>, \<open>UpdateJournalLaws\<close>: \<open>journal.py\<close>, the journal file, its validation and its
      transitions, and what every operation keeps of them.
    \<^item> \<open>UpdateTransaction\<close>, \<open>UpdateTransactionLaws\<close>, \<open>UpdateRunLaws\<close>: \<open>transaction.py\<close> and
      \<open>service.py\<close>, the journalled transaction over an arbitrary host, and its invariants.
    \<^item> \<open>UpdateProperties\<close>: write-ahead, settling, authorization, validity, round trip of the
      journal text (C1, C2, C4, C5, C7); replay, recovery, journal histories and the version order are
      lemmas.
  \<^item> Setup of a radio (\<open>app/services/setup_rebuild\<close>). \<open>SetupStates\<close>: \<open>states.py\<close>, the state machine
    (C11; the order it enforces is a lemma). \<open>SetupLease\<close>: \<open>lease.py\<close>, the coordinator lease and its watch
    (C12). \<open>SetupCoordinator\<close>: the plan and the run of one radio of \<open>coordinator.py\<close>, with \<open>defaults.py\<close>
    and the target of \<open>server_target.py\<close>. \<open>SetupRunLaws\<close>: for any behaviour of the surroundings, which
    operations a run asks for, that each follows on a check, what it leaves alone and which states it
    commits. \<open>SetupJobs\<close>: jobs, review, rollback and \<open>repository.py\<close>. \<open>SetupJobLaws\<close>: the same
    laws for a job over several radios. \<open>SetupCompletion\<close>: undisturbed jobs end verified (C40).
    \<open>SetupGuarantees\<close>: what is run is what was shown (C10), durable states (C18), interrupted jobs (C27).
    \<open>SetupCandidates\<close>: \<open>candidates.py\<close>, \<open>audio_safety.py\<close> and \<open>profiles/detection.py\<close>, which radios of the
    inventory a job may touch (C19).
  \<^item> The AirPlay bridge (\<open>app/services/airplay_bridge\<close>). \<open>AirplayLiveness\<close>, \<open>AirplayLivenessLaws\<close>:
    \<open>heartbeat.py\<close>, \<open>control_lease.py\<close>, \<open>native_group.py\<close> (C17; the contract of heartbeats is a lemma). \<open>AirplayAudio\<close>:
    \<open>control_owner.py\<close>, who holds the audio gate and when it opens (C9). \<open>AirplayRelay\<close>: \<open>audio.py\<close>,
    \<open>lifecycle.py\<close> (C20; that audio is not lost and the bounds of the buffer are lemmas). \<open>AirplayGroup\<close>: \<open>group_session.py\<close> (C21).
  \<^item> Playback (\<open>app/services\<close>). \<open>PresetMutations\<close>: \<open>preset_transactions.py\<close> (C23). \<open>SafetyGate\<close>:
    \<open>playback_safety_gate.py\<close> (C25, C26). \<open>PlayHistory\<close>: \<open>playback_state.py\<close> with the part of
    \<open>playback_identity.py\<close> it stores (one open session, a lemma). \<open>Restrictions\<close>: \<open>restrictions.py\<close> (C29).
  \<^item> Administration (\<open>app/core\<close>). \<open>AdminStore\<close>: \<open>admin_store.py\<close>; \<open>ApiTokens\<close>: \<open>api_tokens.py\<close>;
    \<open>AdminLaws\<close>: the operations of both as one transition system and the invariant of the store;
    \<open>AdminThrottle\<close>: how many password checks a minute admits; \<open>AdminProperties\<close>: revocation and the
    life of a token (C30 to C33). \<open>AdminBoundary\<close>, \<open>BoundaryProperties\<close>: \<open>admin_boundary.py\<close>,
    \<open>route_policy.py\<close>, \<open>token_policy.py\<close>, which request reaches a handler (C34).
  \<^item> Device traffic. \<open>DeviceIngress\<close>, \<open>IngressProperties\<close>: \<open>app/core/device_ingress.py\<close>,
    \<open>ingress_budget.py\<close>, \<open>protocol_identity.py\<close> and the locks of \<open>app/services/device_ownership.py\<close>
    (C36, C37).
  \<^item> Background services (\<open>app/services\<close>). \<open>Reporting\<close>, \<open>ReportingProperties\<close>:
    \<open>reporting_scheduler.py\<close> (C38; the flaw is a lemma). \<open>DevicePolicy\<close>: \<open>device_policy.py\<close>
    (when background work leaves a device alone, a lemma). \<open>Alarms\<close>, \<open>AlarmLaws\<close>: \<open>alarm_engine.py\<close>,
    schedules that play and stop, each at most once a minute (C14).
  \<^item> Network rules (\<open>app/services\<close>). \<open>NetworkPolicy\<close>: \<open>network_security.py\<close>, which address an
    outbound connection is pinned to (C16), and \<open>protected_devices.py\<close>, which radios may be touched
    (C28).
  \<^item> Radio reboots (\<open>app/services\<close>). \<open>RadioReboots\<close>, \<open>RebootLaws\<close>: \<open>radio_reboots.py\<close>, the schedule and the
    batch that reboots radios under their leases, with its record (C6, C35).
  \<^item> Writes to radios (\<open>app/services\<close>), each a transaction that owns its radios, backs up what it
    changes, records its intent, writes once and reads back.
    \<^item> \<open>DeviceLocks\<close>: \<open>device_transactions.py\<close> over \<open>device_ownership.py\<close>, tasks that own radios (C24).
    \<^item> \<open>RadioIO\<close>: \<open>action_journal.py\<close> and the requests, guards and commits all transactions are made of;
      three ways to reason about them: actions that write nothing, the relation between a result and
      the events it took (\<open>yields\<close>), and the contract that each write has its intent.
    \<^item> \<open>RadioIdentity\<close>: \<open>setup_rebuild/profiles\<close> and \<open>verify_settings_identity\<close>, which radio may be written to.
    \<^item> \<open>ZoneChanges\<close>: \<open>zone_changes.py\<close> (C8). \<open>SettingsContract\<close>: \<open>settings_contract.py\<close> (C22).
      \<open>SettingsWriter\<close>: \<open>device_settings_writer.py\<close> (C13). \<open>DirectSelection\<close>: \<open>direct_selection.py\<close> with
      the cache of \<open>device_state.py\<close> (C15). \<open>ZoneCreation\<close>: \<open>zone_creation.py\<close>, the scope that creates a
      zone, around any code that runs inside it (C39).
    \<^item> \<open>RadioTransactions\<close>: histories of all of these and what the journal shows of them (C3).
  \<^item> \<open>Prelude\<close>: Python values and JSON trees, numbers and their text, actions with state and
    errors, generic lemmas, and the locales several components share.

  \<^bold>\<open>How the parts interact.\<close> The boundary asks the store twice for every request, with anything
  happening in between, and hands device routes to the ingress, which takes locks and a token of
  the bucket and releases the locks on every path. The token store runs inside transactions of the
  administrator store and asks it for the authority of a cookie. The update service authorizes a
  request, the runner journals each step before the host acts. The group session feeds the
  heartbeats of owner and members and asks them before every plan. The owner of the
  audio control composes its lease with the heartbeat of its receiver. A reboot takes the setup
  lease of every radio it touches, so it excludes setup, and asks the protection policy first. The
  transactions that write to radios enter \<open>device_transaction\<close>, whose own behaviour is that of
  \<open>DeviceLocks\<close>, ask the same protection policy, and a selection asks the network policy for its URLs.
  The setup coordinator takes the setup lease for a job, asks it again before and after each operation,
  moves each radio by the state machine, commits after each move, and asks the protection policy for the
  server it routes to. The inventory offers it radios by the same protection policy and profiles.
  The alarm engine claims a marker in the database before it asks the playback routers for anything.

  \<^bold>\<open>Conventions.\<close> A Python exception is the left side of a sum; an operation on an object is a
  function from the object's record to a result and the new record. Dictionaries whose content is
  checked at run time are trees of type \<open>pyval\<close>. A text of JSON is its size and its decoded tree, or
  the absence of one. Times are integers (seconds, or microseconds where the code computes with
  them); floats are exact rationals with infinities and NaN apart, so rounding is not modelled.
  Text is ASCII. Random values, clocks and answers of other programs are arguments. \<open>sha256\<close>,
  argon2, \<open>urlsplit\<close>, \<open>ipaddress\<close>, the XML parser, Starlette's route matching, \<open>fromisoformat\<close>, the
  playback identity of a station, name resolution, IDNA, the local time of a zone, what a radio answers
  to a reboot, and the host adapter are function parameters; where a theorem needs
  a property of one (the length of a digest), it is a hypothesis, with a witness that has it.
  A database transaction either commits as a whole or changes nothing. For the radio transactions the
  radios, the database and whatever other tasks do meanwhile are a world of an arbitrary type: every
  request, guard, refresh, flush, commit and sleep asks it for an outcome, a failure or cancellation
  included, so their theorems hold for any behaviour. An XML text is what the parser makes of it.
  The setup coordinator is modelled in the same way, over any adapter; a commit that fails leaves its
  session unusable (\<open>Broken\<close>), and a cancelled task raises what no handler catches (\<open>Interrupted\<close>).
  A pass of the alarm engine likewise; other workers may change the markers whenever it waits.

  \<^bold>\<open>Loops and bounds.\<close> No definition uses fuel. Waiting loops (the provider wait, the heartbeat of
  the lease, reading a request body) recurse over the finite list of the events they see: polls,
  wake-ups, chunks. That a wait ends is a theorem about any list that reaches its deadline. Readback
  loops of the radio transactions, and the attempts to review interrupted jobs, have the bound of the code.

  \<^bold>\<open>Interfaces.\<close> Contracts several operations share are locales: observers that latch their failure,
  transition tables and their paths, invariants kept by every operation of a store, transactions that
  journal each radio write, and how a setup job is composed of its parts, for any property of them
  (\<open>job_logic\<close>). Each is
  interpreted on the definitions of its component, and the properties use the resulting facts.

  \<^bold>\<open>Flaws shown.\<close> A heartbeat whose stamp is an integer too large for a float escapes the failure
  latch (C17). An infinite \<open>nextReportIn\<close> makes the reporting scheduler lose or drop reports.
  A reboot batch cancelled before its first step keeps its leases until they expire. A rollback that loses
  its lease leaves a radio that no later rollback looks at, while the job is shown as rolled back.
  An exception outside the handlers of an alarm pass ends the alarm loop for good.

  \<^bold>\<open>Not modelled.\<close> Owner, mode and link checks of files and directories (one flag, or one unreadable
  outcome); nested JSON beyond the recursion limit; the asyncio tasks of the reporting scheduler;
  the XML and command-line access of a reboot;
  the evidence dictionaries attached to errors of radio transactions;
  sockets, processes and containers (the host adapters of the update helper, the radio adapters of setup,
  discovery, the AirPlay pipes); the HTTP routers, templates and SQL persistence; the long-running
  keepalive and research loops, which are mostly I/O; the time zone of the schedules.
\<close>

end
